(* ===== verification/Prelude.thy ===== *)
theory Prelude
  imports Main "HOL-Library.Word" "HOL-Library.Monad_Syntax" "HOL-Library.Multiset"
    "HOL-Library.Sublist"
begin

text \<open>
  Shared material of the development: the widths of the C integer types, the error numbers of
  the C library the sources return, and the list recursions that the sources write again and
  again over singly linked lists of descriptors: a lookup by identifier, an insertion that keeps
  the list in strictly descending identifier order, the choice of the first free identifier, and
  the destroy and flush loops over such a list.  A linked list of descriptors is a HOL list whose
  head is the node the list pointer points to.  The contracts of these recursions are locales;
  the component theories interpret them on their own operations.
\<close>

type_synonym u8 = "8 word"
type_synonym u16 = "16 word"
type_synonym u32 = "32 word"
type_synonym u64 = "64 word"

text \<open>Opaque driver pointers; the value 0 is the null pointer.\<close>
type_synonym handle = "64 word"

named_theorems api_defs \<open>definitions unfolded by the component proofs\<close>

abbreviation UINT32_MAX :: u32 where "UINT32_MAX \<equiv> 0xFFFFFFFF"
abbreviation UINT16_MAX :: u16 where "UINT16_MAX \<equiv> 0xFFFF"

text \<open>Error numbers (Linux values).\<close>

abbreviation ENOENT :: int where "ENOENT \<equiv> 2"
abbreviation EIO :: int where "EIO \<equiv> 5"
abbreviation ENOMEM :: int where "ENOMEM \<equiv> 12"
abbreviation ENODEV :: int where "ENODEV \<equiv> 19"
abbreviation EINVAL :: int where "EINVAL \<equiv> 22"
abbreviation ENOTSUP :: int where "ENOTSUP \<equiv> 95"

section \<open>Lists of descriptors in descending identifier order\<close>

text \<open>
  The insertion loop \<^verbatim>\<open>while (*ppt && (*ppt)->id > id) ppt = &(*ppt)->next;\<close> followed by the
  test for an equal identifier: \<open>None\<close> is the conflict, otherwise the node is linked in front of
  the first node with a smaller identifier.
\<close>

fun link_desc :: "('n \<Rightarrow> u32) \<Rightarrow> 'n \<Rightarrow> 'n list \<Rightarrow> 'n list option" where
  "link_desc key x [] = Some [x]"
| "link_desc key x (y # ys) =
     (if key y > key x then map_option ((#) y) (link_desc key x ys)
      else if key y = key x then None
      else Some (x # y # ys))"

text \<open>
  The identifier choice shared by the allocators: \<open>UINT32_MAX\<close> asks for the first free
  identifier, one above the head of the list; \<open>None\<close> when the head already has the highest one.
\<close>

definition pick_id :: "('n \<Rightarrow> u32) \<Rightarrow> u32 \<Rightarrow> 'n list \<Rightarrow> u32 option" where
  "pick_id key i xs =
     (if i = UINT32_MAX
      then (case xs of
              [] \<Rightarrow> Some 0
            | x # _ \<Rightarrow> (if key x = UINT32_MAX - 1 then None else Some (key x + 1)))
      else Some i)"

definition desc_by :: "('n \<Rightarrow> 'k::linorder) \<Rightarrow> 'n list \<Rightarrow> bool" where
  "desc_by key xs \<longleftrightarrow> sorted_wrt (\<lambda>a b. key a > key b) xs"

lemma desc_by_simps [simp]:
  "desc_by key []"
  "desc_by key (x # xs) \<longleftrightarrow> (\<forall>y \<in> set xs. key y < key x) \<and> desc_by key xs"
  by (auto simp: desc_by_def)

lemma desc_by_distinct: "desc_by key xs \<Longrightarrow> distinct (map key xs)"
  by (induction xs) auto

lemma desc_by_subseq: "subseq ys xs \<Longrightarrow> desc_by key xs \<Longrightarrow> desc_by key ys"
  by (induction rule: list_emb.induct) (auto dest: list_emb_set)

lemma link_desc_None: "desc_by key ys \<Longrightarrow> link_desc key x ys = None \<longleftrightarrow> key x \<in> key ` set ys"
  by (induction ys) (auto dest: order.strict_implies_not_eq order.asym)

lemma link_desc_mset: "link_desc key x ys = Some zs \<Longrightarrow> mset zs = add_mset x (mset ys)"
  by (induction ys arbitrary: zs) (auto split: if_splits)

lemma link_desc_set: "link_desc key x ys = Some zs \<Longrightarrow> set zs = insert x (set ys)"
  by (drule link_desc_mset) (metis set_mset_add_mset_insert set_mset_mset)

lemma link_desc_desc:
  "desc_by key ys \<Longrightarrow> link_desc key x ys = Some zs \<Longrightarrow> desc_by key zs"
proof (induction ys arbitrary: zs)
  case (Cons y ys)
  show ?case
  proof (cases "key y > key x")
    case True
    with Cons.prems obtain ws where ws: "link_desc key x ys = Some ws" "zs = y # ws"
      by auto
    with Cons have "desc_by key ws" by simp
    with ws True Cons.prems(1) link_desc_set [OF ws(1)] show ?thesis by auto
  next
    case False
    with Cons.prems show ?thesis by (fastforce split: if_splits)
  qed
qed simp

lemma link_desc_find:
  assumes "desc_by key ys" "link_desc key x ys = Some zs"
  shows "find (\<lambda>n. key n = k) zs = (if k = key x then Some x else find (\<lambda>n. key n = k) ys)"
  using assms
proof (induction ys arbitrary: zs)
  case (Cons y ys)
  then show ?case by (auto split: if_splits)
qed auto

text \<open>
  The invariant of a descriptor list: strictly descending identifiers, none of them the reserved
  value \<open>UINT32_MAX\<close>.
\<close>

definition id_list :: "('n \<Rightarrow> u32) \<Rightarrow> 'n list \<Rightarrow> bool" where
  "id_list key xs \<longleftrightarrow> desc_by key xs \<and> UINT32_MAX \<notin> key ` set xs"

lemma id_list_Nil [simp]: "id_list key []"
  by (simp add: id_list_def)

lemma subseq_subset: "subseq ys xs \<Longrightarrow> y \<in> set ys \<Longrightarrow> y \<in> set xs"
  by (induction rule: list_emb.induct) auto

lemma id_list_subseq: "subseq ys xs \<Longrightarrow> id_list key xs \<Longrightarrow> id_list key ys"
  unfolding id_list_def
  by (auto intro: desc_by_subseq dest: subseq_subset)

lemma word_less_Suc: "(a::u32) \<noteq> UINT32_MAX \<Longrightarrow> b < a + 1 \<longleftrightarrow> b \<le> a"
proof -
  assume "a \<noteq> UINT32_MAX"
  then have "unat a \<noteq> unat (UINT32_MAX)" by (metis unsigned_word_eqI)
  moreover have "unat a < 2 ^ 32" using unsigned_less [of a] by simp
  ultimately have "unat (a + 1) = Suc (unat a)" by (simp add: unat_word_ariths)
  then show ?thesis by (simp add: word_less_nat_alt word_le_nat_alt less_Suc_eq_le)
qed

lemma pick_id_fresh:
  assumes "id_list key xs" "pick_id key UINT32_MAX xs = Some i"
  shows "\<forall>x \<in> set xs. key x < i"
proof (cases xs)
  case (Cons y ys)
  with assms have "i = key y + 1" "key y \<noteq> UINT32_MAX" "\<forall>x \<in> set ys. key x < key y"
    by (auto simp: pick_id_def id_list_def split: if_splits)
  with Cons show ?thesis by (auto simp: word_less_Suc intro: order.strict_implies_order)
qed simp

lemma pick_id_not_max:
  assumes "id_list key xs" "pick_id key i xs = Some j"
  shows "j \<noteq> UINT32_MAX"
proof (cases xs)
  case (Cons y ys)
  show ?thesis
  proof
    assume j: "j = UINT32_MAX"
    with assms Cons have "key y + 1 = UINT32_MAX" "key y \<noteq> UINT32_MAX - 1"
      by (auto simp: pick_id_def split: if_splits)
    then show False by (metis add_diff_cancel_right')
  qed
qed (use assms in \<open>auto simp: pick_id_def split: if_splits\<close>)

lemma link_desc_id_list:
  assumes "id_list key xs" "key x \<noteq> UINT32_MAX" "link_desc key x xs = Some ys"
  shows "id_list key ys"
  using assms link_desc_desc [of key xs x ys] link_desc_set [of key x xs ys]
  by (auto simp: id_list_def)

lemma find_key_unique:
  "desc_by key xs \<Longrightarrow> x \<in> set xs \<Longrightarrow> find (\<lambda>n. key n = key x) xs = Some x"
  by (induction xs) (auto dest: order.strict_implies_not_eq)

lemma link_desc_filter:
  assumes "desc_by key xs" "link_desc key x xs = Some ys"
  shows "filter (\<lambda>n. key n \<noteq> key x) ys = xs"
  using assms
proof (induction xs arbitrary: ys)
  case (Cons y xs)
  then have "filter (\<lambda>n. key n \<noteq> key x) (y # xs) = y # xs" if "key y < key x"
    using that by (auto simp: filter_id_conv)
  with Cons show ?case by (auto split: if_splits)
qed auto

lemma distinct_map_eq:
  "distinct (map f xs) \<Longrightarrow> x \<in> set xs \<Longrightarrow> y \<in> set xs \<Longrightarrow> f x = f y \<Longrightarrow> x = y"
  by (auto simp: distinct_map dest: inj_onD)

lemma find_unique_key:
  "distinct (map key xs) \<Longrightarrow> x \<in> set xs \<Longrightarrow> find (\<lambda>n. key n = key x) xs = Some x"
  by (induction xs) force+

lemma find_SomeD: "find P xs = Some x \<Longrightarrow> x \<in> set xs \<and> P x"
  by (induction xs) (auto split: if_splits)

lemma find_None_key: "find (\<lambda>n. key n = k) xs = None \<longleftrightarrow> k \<notin> key ` set xs"
  by (auto simp: find_None_iff)

lemma mset_subseq: "subseq xs ys \<Longrightarrow> mset xs \<subseteq># mset ys"
  by (induction rule: list_emb.induct) (auto intro: subset_mset.order_trans)

lemma mset_exchange_sub: "M + mset f = N + mset l \<Longrightarrow> mset l \<subseteq># mset f \<Longrightarrow> M \<subseteq># (N :: 'a multiset)"
proof -
  assume e: "M + mset f = N + mset l" and "mset l \<subseteq># mset f"
  then obtain X where "mset f = mset l + X" by (metis subset_mset.le_iff_add)
  with e have "(M + X) + mset l = N + mset l" by (simp add: ac_simps)
  then have "M + X = N" by (simp only: add_right_cancel)
  then show ?thesis by auto
qed

section \<open>Destroy and flush loops over a descriptor list\<close>

text \<open>
  What one attempt to release a node reports: the node was unlinked, it stays in the list, or
  the enclosing function returns at once.
\<close>

datatype outcome = Removed | Kept | Abort

text \<open>
  The inner loop of every destroy function: the identifiers are tried in order against the
  current node; a matching identifier calls the release step, and only a node that stays goes on
  with the rest of the identifiers.
\<close>

fun scan_ids ::
  "('n \<Rightarrow> int \<Rightarrow> 'w \<Rightarrow> outcome \<times> int \<times> 'w) \<Rightarrow> ('n \<Rightarrow> 'k) \<Rightarrow> 'k list \<Rightarrow> 'n \<Rightarrow> int \<Rightarrow> 'w
    \<Rightarrow> outcome \<times> int \<times> 'w" where
  "scan_ids kill key [] x ret w = (Kept, ret, w)"
| "scan_ids kill key (i # is) x ret w =
     (if i \<noteq> key x then scan_ids kill key is x ret w
      else (case kill x ret w of
              (Kept, ret', w') \<Rightarrow> scan_ids kill key is x ret' w'
            | (Removed, ret', w') \<Rightarrow> (Removed, ret', w')
            | (Abort, ret', w') \<Rightarrow> (Abort, ret', w')))"

text \<open>The outer loop over the list: the return code, the list that is left, the world.\<close>

fun destroy_loop ::
  "('n \<Rightarrow> int \<Rightarrow> 'w \<Rightarrow> outcome \<times> int \<times> 'w) \<Rightarrow> ('n \<Rightarrow> 'k) \<Rightarrow> 'k list \<Rightarrow> 'n list \<Rightarrow> int \<Rightarrow> 'w
    \<Rightarrow> int \<times> 'n list \<times> 'w" where
  "destroy_loop kill key ids [] ret w = (ret, [], w)"
| "destroy_loop kill key ids (x # xs) ret w =
     (case scan_ids kill key ids x ret w of
        (Removed, ret', w') \<Rightarrow> destroy_loop kill key ids xs ret' w'
      | (Kept, ret', w') \<Rightarrow>
          (case destroy_loop kill key ids xs ret' w' of (r, ys, w'') \<Rightarrow> (r, x # ys, w''))
      | (Abort, ret', w') \<Rightarrow> (ret', x # xs, w'))"

text \<open>The flush loop: the release step is applied to every node once.\<close>

fun flush_loop ::
  "('n \<Rightarrow> int \<Rightarrow> 'w \<Rightarrow> outcome \<times> int \<times> 'w) \<Rightarrow> 'n list \<Rightarrow> int \<Rightarrow> 'w \<Rightarrow> int \<times> 'n list \<times> 'w" where
  "flush_loop kill [] ret w = (ret, [], w)"
| "flush_loop kill (x # xs) ret w =
     (case kill x ret w of
        (Removed, ret', w') \<Rightarrow> flush_loop kill xs ret' w'
      | (Kept, ret', w') \<Rightarrow>
          (case flush_loop kill xs ret' w' of (r, ys, w'') \<Rightarrow> (r, x # ys, w''))
      | (Abort, ret', w') \<Rightarrow> (ret', x # xs, w'))"

lemma destroy_loop_subseq: "destroy_loop kill key ids xs ret w = (r, ys, w') \<Longrightarrow> subseq ys xs"
proof (induction kill key ids xs ret w arbitrary: r ys w' rule: destroy_loop.induct)
  case (2 kill key ids x xs ret w)
  then show ?case by (fastforce split: prod.splits outcome.splits)
qed simp

lemma flush_loop_subseq: "flush_loop kill xs ret w = (r, ys, w') \<Longrightarrow> subseq ys xs"
proof (induction kill xs ret w arbitrary: r ys w' rule: flush_loop.induct)
  case (2 kill x xs ret w)
  then show ?case by (fastforce split: prod.splits outcome.splits)
qed simp

lemma scan_ids_notin: "key x \<notin> set ids \<Longrightarrow> scan_ids kill key ids x ret w = (Kept, ret, w)"
  by (induction ids) auto

lemma destroy_loop_others:
  "destroy_loop kill key ids xs ret w = (r, ys, w')
    \<Longrightarrow> filter (\<lambda>x. key x \<notin> set ids) ys = filter (\<lambda>x. key x \<notin> set ids) xs"
proof (induction kill key ids xs ret w arbitrary: r ys w' rule: destroy_loop.induct)
  case (2 kill key ids x xs ret w)
  show ?case
  proof (cases "key x \<in> set ids")
    case True
    with 2 show ?thesis by (fastforce split: prod.splits outcome.splits)
  next
    case False
    with 2 scan_ids_notin [of key x ids kill ret w] show ?thesis
      by (fastforce split: prod.splits)
  qed
qed simp

lemma destroy_loop_none:
  "set ids \<inter> key ` set xs = {} \<Longrightarrow> destroy_loop kill key ids xs ret w = (ret, xs, w)"
proof (induction xs arbitrary: ret w)
  case (Cons x xs)
  then have "key x \<notin> set ids" by auto
  with Cons show ?case by (simp add: scan_ids_notin)
qed simp

text \<open>A release step that always succeeds removes exactly the named nodes.\<close>

lemma destroy_loop_all:
  assumes kill: "\<And>x w. \<exists>w'. kill x 0 w = (Removed, 0, w')"
  shows "destroy_loop kill key ids xs 0 w = (r, ys, w') \<Longrightarrow> r = 0 \<and> ys = filter (\<lambda>x. key x \<notin> set ids) xs"
proof (induction xs arbitrary: w ys)
  case (Cons x xs)
  show ?case
  proof (cases "key x \<in> set ids")
    case True
    then have "\<exists>w1. scan_ids kill key ids x 0 w = (Removed, 0, w1)"
    proof (induction ids)
      case (Cons i ids)
      then show ?case using kill [of x w] by (cases "i = key x") auto
    qed simp
    with Cons True show ?thesis by auto
  next
    case False
    with Cons show ?thesis by (auto simp: scan_ids_notin split: prod.splits)
  qed
qed simp

text \<open>
  The contract of a release step that reports through a sticky return code, as the template,
  table and flow destroy functions have it: the step never aborts, unlinking leaves the code
  alone, and, where the driver keeps its own contract (\<open>sound\<close>), a node that stays leaves a
  code other than zero behind.
\<close>

locale sticky_release =
  fixes kill :: "'n \<Rightarrow> int \<Rightarrow> 'w \<Rightarrow> outcome \<times> int \<times> 'w"
    and sound :: bool
  assumes no_abort: "kill x ret w \<noteq> (Abort, r, w')"
    and removed_ret: "kill x ret w = (Removed, r, w') \<Longrightarrow> r = ret"
    and kept_ret: "sound \<Longrightarrow> kill x ret w = (Kept, r, w') \<Longrightarrow> r \<noteq> 0"
begin

lemma scan_no_abort: "scan_ids kill key ids x ret w \<noteq> (Abort, r, w')"
  by (induction ids arbitrary: ret w) (auto simp: no_abort split: prod.splits outcome.splits)

lemma scan_kept:
  "scan_ids kill key ids x ret w = (Kept, r, w') \<Longrightarrow> sound \<Longrightarrow>
    (key x \<notin> set ids \<and> r = ret) \<or> (key x \<in> set ids \<and> r \<noteq> 0)"
proof (induction ids arbitrary: ret w)
  case (Cons i ids)
  show ?case
  proof (cases "i = key x")
    case True
    with Cons.prems obtain r1 w1 where k: "kill x ret w = (Kept, r1, w1)"
      and s: "scan_ids kill key ids x r1 w1 = (Kept, r, w')"
      by (auto split: prod.splits outcome.splits)
    from k Cons.prems have "r1 \<noteq> 0" by (auto dest: kept_ret)
    with Cons.IH [OF s] Cons.prems True show ?thesis by auto
  next
    case False
    with Cons show ?thesis by auto
  qed
qed simp

lemma scan_removed:
  "scan_ids kill key ids x ret w = (Removed, r, w') \<Longrightarrow> distinct ids \<Longrightarrow>
    key x \<in> set ids \<and> r = ret"
proof (induction ids arbitrary: ret w)
  case (Cons i ids)
  show ?case
  proof (cases "i = key x")
    case True
    with Cons.prems have "key x \<notin> set ids" by auto
    then have "scan_ids kill key ids x r1 w1 = (Kept, r1, w1)" for r1 w1
      by (rule scan_ids_notin)
    with True Cons.prems show ?thesis
      by (auto split: prod.splits outcome.splits dest: removed_ret)
  next
    case False
    with Cons show ?thesis by auto
  qed
qed simp

text \<open>
  With distinct identifiers the returned code is zero exactly when every named node is gone and
  nothing else is.
\<close>

lemma destroy_ret:
  assumes "sound" "distinct ids" "destroy_loop kill key ids xs ret w = (r, ys, w')"
  shows "r = 0 \<longleftrightarrow> ret = 0 \<and> ys = filter (\<lambda>x. key x \<notin> set ids) xs"
  using assms(3)
proof (induction xs arbitrary: ret w ys)
  case (Cons x xs)
  obtain out r1 w1 where s: "scan_ids kill key ids x ret w = (out, r1, w1)"
    by (cases "scan_ids kill key ids x ret w")
  show ?case
  proof (cases out)
    case Removed
    with Cons s assms(2) show ?thesis by (auto dest: scan_removed)
  next
    case Kept
    with Cons.prems s obtain zs where zs: "destroy_loop kill key ids xs r1 w1 = (r, zs, w')"
      and ys: "ys = x # zs" by (auto split: prod.splits)
    have "(key x \<notin> set ids \<and> r1 = ret) \<or> (key x \<in> set ids \<and> r1 \<noteq> 0)"
      using s Kept assms(1) scan_kept by blast
    moreover have "r = 0 \<longleftrightarrow> r1 = 0 \<and> zs = filter (\<lambda>x. key x \<notin> set ids) xs"
      using Cons.IH zs by blast
    moreover have "x # zs \<noteq> filter (\<lambda>x. key x \<notin> set ids) xs" if "key x \<in> set ids"
    proof
      assume "x # zs = filter (\<lambda>x. key x \<notin> set ids) xs"
      then have "x \<in> set (filter (\<lambda>x. key x \<notin> set ids) xs)" by (metis list.set_intros(1))
      with that show False by simp
    qed
    ultimately show ?thesis using ys by auto
  next
    case Abort
    with s show ?thesis by (simp add: scan_no_abort)
  qed
qed auto

lemma flush_ret:
  "sound \<Longrightarrow> flush_loop kill xs ret w = (r, ys, w') \<Longrightarrow> r = 0 \<longleftrightarrow> ret = 0 \<and> ys = []"
proof (induction xs arbitrary: ret w ys)
  case (Cons x xs)
  obtain out r1 w1 where k: "kill x ret w = (out, r1, w1)"
    by (cases "kill x ret w")
  show ?case
  proof (cases out)
    case Removed
    with Cons k show ?thesis by (auto dest: removed_ret)
  next
    case Kept
    with Cons.prems k obtain zs where zs: "flush_loop kill xs r1 w1 = (r, zs, w')"
      and ys: "ys = x # zs" by (auto split: prod.splits)
    have "r1 \<noteq> 0" using k Kept Cons.prems(1) kept_ret by blast
    with Cons.IH [OF Cons.prems(1) zs] ys show ?thesis by simp
  next
    case Abort
    with k no_abort show ?thesis by blast
  qed
qed auto

end

end
