(* ===== verification/Testpmd.thy ===== *)
theory Testpmd
  imports Prelude
begin

text \<open>
  The data of the program: the structures of \<^verbatim>\<open>lib/core/dpdk/testpmd.h\<close> that the components
  share, the array \<^verbatim>\<open>ports\<close>, and the port check every command starts with.  Driver and C
  library calls are parameters: an interface record of functions over an abstract device state
  \<open>'d\<close>, which the components extend with the calls they make.  A result \<open>None\<close> of an operation
  is undefined behaviour of the C code: an access outside an array or through a pointer to
  nothing.  Each heap node carries the address it was allocated at, so that pointers that are
  kept elsewhere (a flow rule's table, an age context, a queue job) can be followed or found
  dangling.
\<close>

section \<open>Flow data\<close>

datatype age_action_context_type =
    ACTION_AGE_CONTEXT_TYPE_FLOW
  | ACTION_AGE_CONTEXT_TYPE_INDIRECT_ACTION

text \<open>The enumerators the sources tell apart; every other one is carried as its number.\<close>

datatype rte_flow_action_type =
    RTE_FLOW_ACTION_TYPE_END | RTE_FLOW_ACTION_TYPE_VOID | RTE_FLOW_ACTION_TYPE_AGE
  | RTE_FLOW_ACTION_TYPE_COUNT | RTE_FLOW_ACTION_TYPE_RSS | RTE_FLOW_ACTION_TYPE_QUOTA
  | RTE_FLOW_ACTION_TYPE_CONNTRACK | RTE_FLOW_ACTION_TYPE_METER_MARK
  | RTE_FLOW_ACTION_TYPE_INDIRECT_LIST | RTE_FLOW_ACTION_TYPE_OTHER int

datatype rte_flow_item_type =
    RTE_FLOW_ITEM_TYPE_END | RTE_FLOW_ITEM_TYPE_VOID | RTE_FLOW_ITEM_TYPE_VXLAN
  | RTE_FLOW_ITEM_TYPE_GRE | RTE_FLOW_ITEM_TYPE_NVGRE | RTE_FLOW_ITEM_TYPE_GENEVE
  | RTE_FLOW_ITEM_TYPE_OTHER int

record rte_flow_action =
  act_type :: rte_flow_action_type
  act_conf :: u64

record rte_flow_item =
  item_type :: rte_flow_item_type
  item_spec :: u64

record rte_flow_attr =
  attr_group :: u32
  attr_priority :: u32
  attr_ingress :: bool
  attr_egress :: bool
  attr_transfer :: bool

record rte_flow_conv_rule =
  rule_attr :: rte_flow_attr
  rule_pattern :: "rte_flow_item list"
  rule_actions :: "rte_flow_action list"

record port_template =
  tm_addr :: nat
  tm_id :: u32
  tm_template :: handle

record port_table =
  tb_addr :: nat
  tb_id :: u32
  nb_pattern_templates :: u32
  nb_actions_templates :: u32
  tb_flow_attr :: rte_flow_attr
  tb_table :: handle

record port_flow =
  pf_addr :: nat
  pf_id :: u64
  pf_user_id :: u64
  pf_table :: "nat option"
  pf_flow :: handle
  pf_rule :: rte_flow_conv_rule
  pf_age_type :: age_action_context_type

record port_indirect_action =
  pia_addr :: nat
  pia_id :: u32
  pia_type :: rte_flow_action_type
  pia_handle :: handle
  pia_age_type :: age_action_context_type

record rte_flow_tunnel =
  tun_type :: rte_flow_item_type
  tun_id :: u64

record port_flow_tunnel =
  ft_addr :: nat
  ft_id :: u32
  ft_tunnel :: rte_flow_tunnel
  ft_pmd_actions :: "rte_flow_action list"
  ft_pmd_items :: "rte_flow_item list"
  ft_actions :: "rte_flow_action list option"
  ft_items :: "rte_flow_item list option"

text \<open>What an age action's context points to: the age field of a flow rule or of an action.\<close>

datatype age_ctx = CtxFlow nat | CtxAction nat

datatype queue_job_type =
    QUEUE_JOB_TYPE_FLOW_CREATE | QUEUE_JOB_TYPE_FLOW_DESTROY | QUEUE_JOB_TYPE_FLOW_UPDATE
  | QUEUE_JOB_TYPE_ACTION_CREATE | QUEUE_JOB_TYPE_ACTION_DESTROY | QUEUE_JOB_TYPE_ACTION_UPDATE
  | QUEUE_JOB_TYPE_ACTION_QUERY

text \<open>The union of a job holds the address of a flow rule or of an indirect action, or nothing.\<close>

record queue_job =
  job_type :: queue_job_type
  job_ptr :: "nat option"

section \<open>Ports\<close>

record rte_eth_rxconf =
  share_group :: u16
  share_qid :: u16
  rx_offloads :: u64
  rx_deferred_start :: bool
  rxc_pthresh :: u8
  rxc_hthresh :: u8
  rxc_wthresh :: u8
  rxc_free_thresh :: u16
  rxc_drop_en :: u8

record rte_eth_txconf =
  tx_offloads :: u64
  tx_deferred_start :: bool
  txc_pthresh :: u8
  txc_hthresh :: u8
  txc_wthresh :: u8
  txc_rs_thresh :: u16
  txc_free_thresh :: u16

record rte_eth_dev_info =
  min_mtu :: u16
  max_mtu :: u16
  max_rx_pktlen :: u32
  max_rx_queues :: u16
  max_tx_queues :: u16
  nb_rx_queues :: u16
  nb_tx_queues :: u16
  tx_offload_capa :: u64
  dev_capa :: u64
  switch_domain_id :: u16
  default_rx_ring_size :: u16
  default_tx_ring_size :: u16
  default_rx_burst_size :: u16
  rx_desc_nb_max :: u16
  rx_desc_nb_min :: u16
  tx_desc_nb_max :: u16
  tx_desc_nb_min :: u16
  nb_mtu_seg_max :: u16
  flow_type_rss_offloads :: u64
  dev_flags :: u32
  default_rxconf :: rte_eth_rxconf
  default_txconf :: rte_eth_txconf

type_synonym ether_addr = "u8 list"

record rte_port =
  dev_info :: rte_eth_dev_info
  rxmode_mtu :: u32
  rxmode_offloads :: u64
  txmode_offloads :: u64
  socket_id :: u32
  tx_vlan_id :: u16
  tx_vlan_id_outer :: u16
  port_status :: u16
  need_reconfig :: u8
  need_reconfig_queues :: u8
  nb_rx_desc :: "u16 list"
  nb_tx_desc :: "u16 list"
  rxq_conf :: "rte_eth_rxconf list"
  rxq_state :: "u8 list"
  txq_conf :: "rte_eth_txconf list"
  txq_state :: "u8 list"
  member_flag :: bool
  mc_addr_pool :: "ether_addr list"
  mc_addr_nb :: u32
  queue_nb :: u16
  queue_sz :: u32
  pattern_templ_list :: "port_template list"
  actions_templ_list :: "port_template list"
  table_list :: "port_table list"
  flow_list :: "port_flow list"
  actions_list :: "port_indirect_action list"
  flow_tunnel_list :: "port_flow_tunnel list"
  rx_dump_cb :: "handle list"
  tx_dump_cb :: "handle list"
  tx_metadata :: u32
  tx_set_md_cb :: "handle list"
  mbuf_dynf :: u64
  tx_set_dynf_cb :: "handle list"
  eth_addr :: ether_addr
  xstats_allocated :: bool
  ids_supp_sz :: nat
  link_speeds :: u32
  mq_mode :: u32
  port_rss_hf :: u64
  dcb_flag :: u8
  intr_lsc :: bool
  intr_rmv :: bool

text \<open>
  The state: the array \<^verbatim>\<open>ports\<close>, the attached devices in the order the port iterator
  \<^verbatim>\<open>RTE_ETH_FOREACH_DEV\<close> yields them (attaching and detaching is no part of the commands modelled
  here, and no driver call inside one of them changes it), the queue jobs on the heap, the rules and actions that are
  unlinked from their port and wait for their job to be pulled before they are freed, the next
  heap address, the context written into each age action configuration, and the device.
\<close>

record 'd st =
  ports :: "rte_port list"
  eth_devs :: "u16 list"
  jobs :: "(nat \<times> queue_job) list"
  unlinked_flows :: "port_flow list"
  unlinked_actions :: "port_indirect_action list"
  brk :: nat
  age_context :: "u64 \<Rightarrow> age_ctx option"
  dev :: 'd

text \<open>
  The calls every component makes: the success of an allocation, the error
  number of the driver library and its setter, and the value of an action type field in zeroed
  memory.
\<close>

record 'd base_api =
  calloc :: "'d \<Rightarrow> bool \<times> 'd"
  rte_errno :: "'d \<Rightarrow> int"
  rte_flow_error_set :: "int \<Rightarrow> 'd \<Rightarrow> 'd"
  zero_action_type :: rte_flow_action_type

abbreviation RTE_PORT_ALL :: u16 where "RTE_PORT_ALL \<equiv> 0xFFFF"

definition port_get :: "'d st \<Rightarrow> u16 \<Rightarrow> rte_port option" where
  "port_get s pid = (if unat pid < length (ports s) then Some (ports s ! unat pid) else None)"

definition port_upd :: "u16 \<Rightarrow> (rte_port \<Rightarrow> rte_port) \<Rightarrow> 'd st \<Rightarrow> 'd st" where
  "port_upd pid f s = s\<lparr>ports := (ports s)[unat pid := f (ports s ! unat pid)]\<rparr>"

definition port_id_is_invalid :: "'d st \<Rightarrow> u16 \<Rightarrow> bool" where
  "port_id_is_invalid s pid = (if pid = RTE_PORT_ALL then False else pid \<notin> set (eth_devs s))"

text \<open>The test \<^verbatim>\<open>port_id_is_invalid(...) || port_id == (portid_t)RTE_PORT_ALL\<close>.\<close>

definition bad_port :: "'d st \<Rightarrow> u16 \<Rightarrow> bool" where
  "bad_port s pid \<longleftrightarrow> port_id_is_invalid s pid \<or> pid = RTE_PORT_ALL"

definition c_calloc :: "('d, 'z) base_api_scheme \<Rightarrow> 'd st \<Rightarrow> bool \<times> 'd st" where
  "c_calloc api s = (case calloc api (dev s) of (ok, d) \<Rightarrow> (ok, s\<lparr>dev := d\<rparr>))"

definition port_flow_complain :: "('d, 'z) base_api_scheme \<Rightarrow> 'd st \<Rightarrow> int" where
  "port_flow_complain api s = - rte_errno api (dev s)"

section \<open>Laws of the port array\<close>

lemma port_get_upd:
  "port_get (port_upd pid f s) q =
     (if q = pid then map_option f (port_get s q) else port_get s q)"
  by (auto simp: port_get_def port_upd_def nth_list_update dest: unsigned_word_eqI)

lemma port_upd_frame [simp]:
  "dev (port_upd pid f s) = dev s" "eth_devs (port_upd pid f s) = eth_devs s" "jobs (port_upd pid f s) = jobs s"
  "unlinked_flows (port_upd pid f s) = unlinked_flows s"
  "unlinked_actions (port_upd pid f s) = unlinked_actions s"
  "brk (port_upd pid f s) = brk s" "age_context (port_upd pid f s) = age_context s"
  "length (ports (port_upd pid f s)) = length (ports s)"
  by (simp_all add: port_upd_def)

lemma port_get_frame [simp]:
  "port_get (s\<lparr>dev := d\<rparr>) p = port_get s p" "port_get (s\<lparr>brk := b\<rparr>) p = port_get s p"
  "port_get (s\<lparr>jobs := j\<rparr>) p = port_get s p"
  "port_get (s\<lparr>unlinked_flows := uf\<rparr>) p = port_get s p"
  "port_get (s\<lparr>unlinked_actions := ua\<rparr>) p = port_get s p"
  "port_get (s\<lparr>age_context := c\<rparr>) p = port_get s p"
  by (simp_all add: port_get_def)

lemma port_upd_upd: "port_upd pid g (port_upd pid f s) = port_upd pid (g \<circ> f) s"
  by (cases "unat pid < length (ports s)") (simp_all add: port_upd_def list_update_beyond)

lemma port_upd_dev: "(port_upd pid f s)\<lparr>dev := d\<rparr> = port_upd pid f (s\<lparr>dev := d\<rparr>)"
  by (simp add: port_upd_def)

lemma port_upd_same: "port_upd pid (\<lambda>p. p) s = s"
  by (simp add: port_upd_def)

lemma c_calloc_frame:
  assumes "c_calloc api s = (ok, s')"
  shows "ports s' = ports s" "eth_devs s' = eth_devs s" "jobs s' = jobs s" "unlinked_flows s' = unlinked_flows s"
    "unlinked_actions s' = unlinked_actions s" "brk s' = brk s" "age_context s' = age_context s"
  using assms by (auto simp: c_calloc_def split: prod.splits)

lemma port_get_cong: "ports s' = ports s \<Longrightarrow> port_get s' p = port_get s p"
  by (simp add: port_get_def)

lemma bad_port_cong: "eth_devs s' = eth_devs s \<Longrightarrow> bad_port s' pid = bad_port s pid"
  by (simp add: bad_port_def port_id_is_invalid_def)

text \<open>
  The iterator yields indices of the array: what lets a checked port be read.  The driver
  library documents the iterator over \<^verbatim>\<open>RTE_MAX_ETHPORTS\<close> ports, the size of the array.
\<close>

definition devs_in_range :: "'d st \<Rightarrow> bool" where
  "devs_in_range s \<longleftrightarrow> (\<forall>p \<in> set (eth_devs s). unat p < length (ports s))"

lemma good_port_get:
  "devs_in_range s \<Longrightarrow> \<not> bad_port s pid \<Longrightarrow> \<exists>p. port_get s pid = Some p"
  by (auto simp: devs_in_range_def bad_port_def port_id_is_invalid_def port_get_def split: if_splits)

end
