(* ===== verification/Registry.thy ===== *)
theory Registry
  imports Testpmd
begin

text \<open>
  Allocation of descriptors (\<^verbatim>\<open>action_alloc\<close>, \<^verbatim>\<open>template_alloc\<close>, \<^verbatim>\<open>table_alloc\<close> of
  \<^verbatim>\<open>config.c\<close>).  The three functions are copies of one scheme over three node types: choose the
  identifier, allocate a zeroed node, link it into the list in descending identifier order unless
  the identifier is taken.  The scheme is one definition over the node's key and constructor; the
  locale \<open>descriptor\<close> states what a node type provides and proves the allocator's contract once.
\<close>

text \<open>The error code, or the address of the new node with the new list.\<close>

definition desc_alloc ::
  "('d, 'z) base_api_scheme \<Rightarrow> ('n \<Rightarrow> u32) \<Rightarrow> (nat \<Rightarrow> u32 \<Rightarrow> 'n) \<Rightarrow> u32 \<Rightarrow> 'n list \<Rightarrow> 'd st
    \<Rightarrow> (int + nat \<times> 'n list) \<times> 'd st" where
  "desc_alloc api key mk i xs s =
     (case pick_id key i xs of
        None \<Rightarrow> (Inl (- ENOMEM), s)
      | Some j \<Rightarrow>
          (case c_calloc api s of (ok, s1) \<Rightarrow>
             (if \<not> ok then (Inl (- ENOMEM), s1)
              else (case link_desc key (mk (brk s1) j) xs of
                      None \<Rightarrow> (Inl (- EINVAL), s1)
                    | Some ys \<Rightarrow> (Inr (brk s1, ys), s1\<lparr>brk := Suc (brk s1)\<rparr>)))))"

definition new_template :: "nat \<Rightarrow> u32 \<Rightarrow> port_template" where
  "new_template a i = \<lparr>tm_addr = a, tm_id = i, tm_template = 0\<rparr>"

definition template_alloc ::
  "('d, 'z) base_api_scheme \<Rightarrow> u32 \<Rightarrow> port_template list \<Rightarrow> 'd st
    \<Rightarrow> (int + nat \<times> port_template list) \<times> 'd st" where
  "template_alloc api i xs s = desc_alloc api tm_id new_template i xs s"

definition new_table :: "nat \<Rightarrow> u32 \<Rightarrow> port_table" where
  "new_table a i =
     \<lparr>tb_addr = a, tb_id = i, nb_pattern_templates = 0, nb_actions_templates = 0,
      tb_flow_attr = \<lparr>attr_group = 0, attr_priority = 0, attr_ingress = False,
                      attr_egress = False, attr_transfer = False\<rparr>,
      tb_table = 0\<rparr>"

definition table_alloc ::
  "('d, 'z) base_api_scheme \<Rightarrow> u32 \<Rightarrow> port_table list \<Rightarrow> 'd st
    \<Rightarrow> (int + nat \<times> port_table list) \<times> 'd st" where
  "table_alloc api i xs s = desc_alloc api tb_id new_table i xs s"

definition new_indirect_action :: "rte_flow_action_type \<Rightarrow> nat \<Rightarrow> u32 \<Rightarrow> port_indirect_action" where
  "new_indirect_action z a i =
     \<lparr>pia_addr = a, pia_id = i, pia_type = z, pia_handle = 0,
      pia_age_type = ACTION_AGE_CONTEXT_TYPE_FLOW\<rparr>"

text \<open>\<^verbatim>\<open>action_alloc\<close> checks the port itself and writes the list head of that port.\<close>

definition action_alloc ::
  "('d, 'z) base_api_scheme \<Rightarrow> u16 \<Rightarrow> u32 \<Rightarrow> 'd st \<Rightarrow> ((int + nat) \<times> 'd st) option" where
  "action_alloc api pid i s =
     (if bad_port s pid then Some (Inl (- EINVAL), s)
      else do {
        port \<leftarrow> port_get s pid;
        (case desc_alloc api pia_id (new_indirect_action (zero_action_type api)) i
                (actions_list port) s of
           (Inl r, s1) \<Rightarrow> Some (Inl r, s1)
         | (Inr (a, ys), s1) \<Rightarrow> Some (Inr a, port_upd pid (\<lambda>p. p\<lparr>actions_list := ys\<rparr>) s1))
      })"

text \<open>Write through the pointer to a node: the node at the address is changed.\<close>

definition set_at :: "('n \<Rightarrow> nat) \<Rightarrow> nat \<Rightarrow> ('n \<Rightarrow> 'n) \<Rightarrow> 'n list \<Rightarrow> 'n list" where
  "set_at addr a f xs = map (\<lambda>x. if addr x = a then f x else x) xs"

text \<open>The well-formedness of a list of nodes: ordered identifiers, distinct allocated addresses.\<close>

definition reg_ok :: "('n \<Rightarrow> u32) \<Rightarrow> ('n \<Rightarrow> nat) \<Rightarrow> nat \<Rightarrow> 'n list \<Rightarrow> bool" where
  "reg_ok key addr b xs \<longleftrightarrow>
     id_list key xs \<and> distinct (map addr xs) \<and> (\<forall>x \<in> set xs. addr x < b)"

lemma reg_ok_id_list: "reg_ok key addr b xs \<Longrightarrow> id_list key xs"
  by (simp add: reg_ok_def)

lemma reg_ok_desc: "reg_ok key addr b xs \<Longrightarrow> desc_by key xs"
  by (simp add: reg_ok_def id_list_def)

lemma reg_ok_mono: "reg_ok key addr b xs \<Longrightarrow> b \<le> c \<Longrightarrow> reg_ok key addr c xs"
  by (auto simp: reg_ok_def)

lemma reg_ok_Nil [simp]: "reg_ok key addr b []"
  by (simp add: reg_ok_def)

lemma subseq_distinctD: "subseq ys xs \<Longrightarrow> distinct xs \<Longrightarrow> distinct ys"
  by (induction rule: list_emb.induct) (auto dest: subseq_subset)

lemma reg_ok_subseq:
  assumes "subseq ys xs" "reg_ok key addr b xs"
  shows "reg_ok key addr b ys"
proof -
  have "subseq (map addr ys) (map addr xs)" using assms(1) by (rule subseq_map)
  with assms show ?thesis
    by (auto simp: reg_ok_def dest: id_list_subseq subseq_subset intro: subseq_distinctD)
qed

lemma set_at_map: "(\<And>x. g (f x) = g x) \<Longrightarrow> map g (set_at addr a f xs) = map g xs"
  by (auto simp: set_at_def)

lemma id_list_map: "map key ys = map key xs \<Longrightarrow> id_list key xs \<Longrightarrow> id_list key ys"
proof -
  assume m: "map key ys = map key xs" and i: "id_list key xs"
  have "key ` set ys = key ` set xs" using m by (metis set_map)
  moreover have "sorted_wrt (\<lambda>a b. key a > key b) zs = sorted_wrt (>) (map key zs)" for zs
    by (simp add: sorted_wrt_map)
  ultimately show ?thesis using m i by (simp add: id_list_def desc_by_def)
qed

lemma set_at_reg_ok:
  assumes "\<And>x. key (f x) = key x" "\<And>x. addr (f x) = addr x" "reg_ok key addr b xs"
  shows "reg_ok key addr b (set_at addr a f xs)"
proof -
  have "map key (set_at addr a f xs) = map key xs" "map addr (set_at addr a f xs) = map addr xs"
    using assms by (simp_all add: set_at_map)
  moreover from this have "(\<forall>x \<in> set (set_at addr a f xs). addr x < b)"
    using assms(3) by (metis (no_types, lifting) imageE imageI list.set_map reg_ok_def)
  ultimately show ?thesis using assms(3) by (auto simp: reg_ok_def intro: id_list_map)
qed

lemma find_set_at:
  assumes "\<And>x. key (f x) = key x"
  shows "find (\<lambda>n. key n = k) (set_at addr a f xs) =
    map_option (\<lambda>x. if addr x = a then f x else x) (find (\<lambda>n. key n = k) xs)"
  using assms by (induction xs) (auto simp: set_at_def)

section \<open>The allocator contract\<close>

lemma desc_alloc_InrE:
  assumes "desc_alloc api key mk i xs s = (Inr (a, ys), s')"
  obtains j s1 where "pick_id key i xs = Some j" "c_calloc api s = (True, s1)"
    "link_desc key (mk (brk s1) j) xs = Some ys" "s' = s1\<lparr>brk := Suc (brk s1)\<rparr>" "a = brk s1"
proof -
  obtain ok s1 where c: "c_calloc api s = (ok, s1)" by (cases "c_calloc api s")
  from assms obtain j where j: "pick_id key i xs = Some j"
    by (cases "pick_id key i xs") (simp_all add: desc_alloc_def)
  from assms c j have ok by (cases ok) (simp_all add: desc_alloc_def)
  with assms c j obtain zs where z: "link_desc key (mk (brk s1) j) xs = Some zs"
    by (cases "link_desc key (mk (brk s1) j) xs") (simp_all add: desc_alloc_def)
  from c j z \<open>ok\<close>
  have "desc_alloc api key mk i xs s = (Inr (brk s1, zs), s1\<lparr>brk := Suc (brk s1)\<rparr>)"
    by (simp add: desc_alloc_def)
  with assms have "zs = ys" "s' = s1\<lparr>brk := Suc (brk s1)\<rparr>" "a = brk s1"
    by (metis prod.inject sum.inject(2))+
  moreover from c \<open>ok\<close> have "c_calloc api s = (True, s1)" by simp
  ultimately show ?thesis using j z that by blast
qed

lemma desc_alloc_InlE:
  assumes "desc_alloc api key mk i xs s = (Inl r, s')" "r \<noteq> - ENOMEM"
  obtains j a where "pick_id key i xs = Some j" "r = - EINVAL" "link_desc key (mk a j) xs = None"
proof -
  obtain ok s1 where c: "c_calloc api s = (ok, s1)" by (cases "c_calloc api s")
  from assms obtain j where j: "pick_id key i xs = Some j"
    by (cases "pick_id key i xs") (simp_all add: desc_alloc_def)
  from assms c j have ok by (cases ok) (simp_all add: desc_alloc_def)
  with assms c j have n: "link_desc key (mk (brk s1) j) xs = None" and r: "r = - EINVAL"
    by (cases "link_desc key (mk (brk s1) j) xs"; simp add: desc_alloc_def)+
  from j r n show ?thesis by (rule that)
qed

locale descriptor =
  fixes key :: "'n \<Rightarrow> u32" and addr :: "'n \<Rightarrow> nat" and mk :: "nat \<Rightarrow> u32 \<Rightarrow> 'n"
  assumes key_mk [simp]: "key (mk a i) = i"
    and addr_mk [simp]: "addr (mk a i) = a"
begin

lemma alloc_frame:
  assumes "desc_alloc api key mk i xs s = (r, s')"
  shows "ports s' = ports s" "eth_devs s' = eth_devs s" "jobs s' = jobs s" "age_context s' = age_context s"
    "unlinked_flows s' = unlinked_flows s" "unlinked_actions s' = unlinked_actions s"
    "brk s \<le> brk s'"
  using assms
  by (auto simp: desc_alloc_def split: option.splits prod.splits if_splits dest: c_calloc_frame)

lemma alloc_error:
  assumes "desc_alloc api key mk i xs s = (Inl r, s')"
  shows "r = - ENOMEM \<or> r = - EINVAL \<and> (id_list key xs \<longrightarrow> i \<in> key ` set xs)"
proof (cases "r = - ENOMEM")
  case False
  with assms obtain j a where j: "pick_id key i xs = Some j" and r: "r = - EINVAL"
    and n: "link_desc key (mk a j) xs = None" by (rule desc_alloc_InlE)
  have "i \<in> key ` set xs" if ok: "id_list key xs"
  proof -
    have "j \<in> key ` set xs"
      using n ok link_desc_None [of key xs "mk a j"] by (simp add: id_list_def)
    moreover from this j ok have "i \<noteq> UINT32_MAX"
      using pick_id_fresh [of key xs j] by fastforce
    ultimately show ?thesis using j by (simp add: pick_id_def)
  qed
  with r show ?thesis by blast
qed simp

lemma alloc_success:
  assumes "desc_alloc api key mk i xs s = (Inr (a, ys), s')" and ok: "reg_ok key addr (brk s) xs"
  obtains j where "pick_id key i xs = Some j" "a = brk s" "brk s' = Suc (brk s)"
    "link_desc key (mk a j) xs = Some ys" "j \<notin> key ` set xs" "j \<noteq> UINT32_MAX"
    "reg_ok key addr (brk s') ys"
proof -
  from assms(1) obtain j s1 where j: "pick_id key i xs = Some j" and c: "c_calloc api s = (True, s1)"
    and l: "link_desc key (mk (brk s1) j) xs = Some ys"
    and s': "s' = s1\<lparr>brk := Suc (brk s1)\<rparr>" and a: "a = brk s1"
    by (rule desc_alloc_InrE)
  have b: "brk s1 = brk s" using c by (rule c_calloc_frame)
  have jm: "j \<noteq> UINT32_MAX" by (rule pick_id_not_max [OF reg_ok_id_list [OF ok] j])
  have fresh: "j \<notin> key ` set xs"
    using l ok link_desc_None [of key xs "mk (brk s1) j"] by (auto simp: reg_ok_desc)
  have il: "id_list key ys"
    using link_desc_id_list [OF reg_ok_id_list [OF ok] _ l] jm by simp
  have ms: "mset (map addr ys) = add_mset a (mset (map addr xs))"
    using link_desc_mset [OF l] a by simp
  have "a \<notin> addr ` set xs" using ok a b by (auto simp: reg_ok_def)
  then have "distinct (a # map addr xs)" using ok by (simp add: reg_ok_def)
  moreover have "mset (map addr ys) = mset (a # map addr xs)" using ms by simp
  ultimately have "distinct (map addr ys)" by (metis mset_eq_imp_distinct_iff)
  with il ok link_desc_set [OF l] a b s' have "reg_ok key addr (brk s') ys"
    by (auto simp: reg_ok_def)
  with j l fresh jm a b s' that show ?thesis by auto
qed

lemma alloc_lookup:
  assumes "desc_alloc api key mk i xs s = (Inr (a, ys), s')" "reg_ok key addr (brk s) xs"
    "pick_id key i xs = Some j"
  shows "find (\<lambda>n. key n = k) ys = (if k = j then Some (mk a j) else find (\<lambda>n. key n = k) xs)"
  using assms link_desc_find [of key xs "mk a j" ys k]
  by (auto elim!: alloc_success simp: reg_ok_desc)

text \<open>Removing the new identifier gives the old list back: what a rollback relies on.\<close>

lemma alloc_rollback:
  assumes "desc_alloc api key mk i xs s = (Inr (a, ys), s')" "reg_ok key addr (brk s) xs"
    "pick_id key i xs = Some j"
  shows "filter (\<lambda>n. key n \<noteq> j) ys = xs"
  using assms link_desc_filter [of key xs "mk a j" ys]
  by (auto elim!: alloc_success simp: reg_ok_desc)

end

interpretation tmpl: descriptor tm_id tm_addr new_template
  by unfold_locales (simp_all add: new_template_def)

interpretation tabl: descriptor tb_id tb_addr new_table
  by unfold_locales (simp_all add: new_table_def)

interpretation inda: descriptor pia_id pia_addr "new_indirect_action z" for z
  by unfold_locales (simp_all add: new_indirect_action_def)

end
