(* ===== verification/Templates.thy ===== *)
theory Templates
  imports Registry
begin

text \<open>
  Pattern templates, actions templates and template tables of a port
  (\<^verbatim>\<open>port_flow_pattern_template_*\<close>, \<^verbatim>\<open>port_flow_actions_template_*\<close>,
  \<^verbatim>\<open>port_flow_template_table_*\<close> of \<^verbatim>\<open>config.c\<close>).  Each kind is a list of descriptors in the port
  structure with a create, a destroy and a flush command.  The destroy and flush commands of the
  three kinds share their control flow, which is written once over the list field and the
  release step; the locale \<open>port_registry\<close> proves their contract once.
\<close>

text \<open>A table's attributes; the fields only the driver reads are one opaque value.\<close>

record rte_flow_template_table_attr =
  ta_flow_attr :: rte_flow_attr
  ta_driver :: u64

record 'd tmpl_api = "'d base_api" +
  rte_flow_pattern_template_create :: "u16 \<Rightarrow> u64 \<Rightarrow> rte_flow_item list \<Rightarrow> 'd \<Rightarrow> handle \<times> 'd"
  rte_flow_pattern_template_destroy :: "u16 \<Rightarrow> handle \<Rightarrow> 'd \<Rightarrow> int \<times> 'd"
  rte_flow_actions_template_create ::
    "u16 \<Rightarrow> u64 \<Rightarrow> rte_flow_action list \<Rightarrow> rte_flow_action list \<Rightarrow> 'd \<Rightarrow> handle \<times> 'd"
  rte_flow_actions_template_destroy :: "u16 \<Rightarrow> handle \<Rightarrow> 'd \<Rightarrow> int \<times> 'd"
  rte_flow_template_table_create ::
    "u16 \<Rightarrow> rte_flow_template_table_attr \<Rightarrow> handle list \<Rightarrow> handle list \<Rightarrow> 'd \<Rightarrow> handle \<times> 'd"
  rte_flow_template_table_destroy :: "u16 \<Rightarrow> handle \<Rightarrow> 'd \<Rightarrow> int \<times> 'd"

text \<open>
  The release step of a descriptor: with a driver object, the driver is asked to destroy it; a
  refusal keeps the descriptor and returns the complaint, otherwise it is unlinked and freed.
\<close>

definition pmd_kill ::
  "('d, 'z) base_api_scheme \<Rightarrow> ('n \<Rightarrow> handle) \<Rightarrow> (handle \<Rightarrow> 'd \<Rightarrow> int \<times> 'd)
    \<Rightarrow> 'n \<Rightarrow> int \<Rightarrow> 'd st \<Rightarrow> outcome \<times> int \<times> 'd st" where
  "pmd_kill api hnd destroy x ret s =
     (if hnd x = 0 then (Removed, ret, s)
      else (case destroy (hnd x) (dev s) of (rc, d) \<Rightarrow>
              (let s' = s\<lparr>dev := d\<rparr> in
               if rc \<noteq> 0 then (Kept, port_flow_complain api s', s') else (Removed, ret, s'))))"

definition destroy_in ::
  "('n \<Rightarrow> int \<Rightarrow> 'd st \<Rightarrow> outcome \<times> int \<times> 'd st) \<Rightarrow> ('n \<Rightarrow> 'k)
    \<Rightarrow> (rte_port \<Rightarrow> 'n list) \<Rightarrow> (('n list \<Rightarrow> 'n list) \<Rightarrow> rte_port \<Rightarrow> rte_port)
    \<Rightarrow> u16 \<Rightarrow> 'k list \<Rightarrow> 'd st \<Rightarrow> (int \<times> 'd st) option" where
  "destroy_in kill key get put pid ids s =
     (if bad_port s pid then Some (- EINVAL, s)
      else do {
        port \<leftarrow> port_get s pid;
        (case destroy_loop kill key ids (get port) 0 s of
           (ret, l, s') \<Rightarrow> Some (ret, port_upd pid (put (\<lambda>_. l)) s'))
      })"

definition flush_in ::
  "('n \<Rightarrow> int \<Rightarrow> 'd st \<Rightarrow> outcome \<times> int \<times> 'd st)
    \<Rightarrow> (rte_port \<Rightarrow> 'n list) \<Rightarrow> (('n list \<Rightarrow> 'n list) \<Rightarrow> rte_port \<Rightarrow> rte_port)
    \<Rightarrow> u16 \<Rightarrow> 'd st \<Rightarrow> (int \<times> 'd st) option" where
  "flush_in kill get put pid s =
     (if bad_port s pid then Some (- EINVAL, s)
      else do {
        port \<leftarrow> port_get s pid;
        (case flush_loop kill (get port) 0 s of
           (ret, l, s') \<Rightarrow> Some (ret, port_upd pid (put (\<lambda>_. l)) s'))
      })"

section \<open>Templates\<close>

definition pattern_template_kill ::
  "('d, 'z) tmpl_api_scheme \<Rightarrow> u16 \<Rightarrow> port_template \<Rightarrow> int \<Rightarrow> 'd st \<Rightarrow> outcome \<times> int \<times> 'd st" where
  "pattern_template_kill api pid =
     pmd_kill api tm_template (rte_flow_pattern_template_destroy api pid)"

definition actions_template_kill ::
  "('d, 'z) tmpl_api_scheme \<Rightarrow> u16 \<Rightarrow> port_template \<Rightarrow> int \<Rightarrow> 'd st \<Rightarrow> outcome \<times> int \<times> 'd st" where
  "actions_template_kill api pid =
     pmd_kill api tm_template (rte_flow_actions_template_destroy api pid)"

definition port_flow_pattern_template_destroy ::
  "('d, 'z) tmpl_api_scheme \<Rightarrow> u16 \<Rightarrow> u32 list \<Rightarrow> 'd st \<Rightarrow> (int \<times> 'd st) option" where
  "port_flow_pattern_template_destroy api pid ids s =
     destroy_in (pattern_template_kill api pid) tm_id
       pattern_templ_list pattern_templ_list_update pid ids s"

definition port_flow_pattern_template_flush ::
  "('d, 'z) tmpl_api_scheme \<Rightarrow> u16 \<Rightarrow> 'd st \<Rightarrow> (int \<times> 'd st) option" where
  "port_flow_pattern_template_flush api pid s =
     flush_in (pattern_template_kill api pid)
       pattern_templ_list pattern_templ_list_update pid s"

definition port_flow_actions_template_destroy ::
  "('d, 'z) tmpl_api_scheme \<Rightarrow> u16 \<Rightarrow> u32 list \<Rightarrow> 'd st \<Rightarrow> (int \<times> 'd st) option" where
  "port_flow_actions_template_destroy api pid ids s =
     destroy_in (actions_template_kill api pid) tm_id
       actions_templ_list actions_templ_list_update pid ids s"

definition port_flow_actions_template_flush ::
  "('d, 'z) tmpl_api_scheme \<Rightarrow> u16 \<Rightarrow> 'd st \<Rightarrow> (int \<times> 'd st) option" where
  "port_flow_actions_template_flush api pid s =
     flush_in (actions_template_kill api pid)
       actions_templ_list actions_templ_list_update pid s"

text \<open>
  The create command of both kinds of template: allocate a descriptor, store the driver object in
  it, and when the driver gave none destroy the descriptor again by its identifier.  The list
  field, the driver's create call and the destroy command of the kind are arguments.
\<close>

definition template_create_in ::
  "('d, 'z) tmpl_api_scheme \<Rightarrow> (rte_port \<Rightarrow> port_template list)
    \<Rightarrow> ((port_template list \<Rightarrow> port_template list) \<Rightarrow> rte_port \<Rightarrow> rte_port)
    \<Rightarrow> ('d \<Rightarrow> handle \<times> 'd) \<Rightarrow> (u32 list \<Rightarrow> 'd st \<Rightarrow> (int \<times> 'd st) option)
    \<Rightarrow> u16 \<Rightarrow> u32 \<Rightarrow> 'd st \<Rightarrow> (int \<times> 'd st) option" where
  "template_create_in api get put create destroy pid i s =
     (if bad_port s pid then Some (- EINVAL, s)
      else do {
        port \<leftarrow> port_get s pid;
        (case template_alloc api i (get port) s of
           (Inl r, s1) \<Rightarrow> Some (r, s1)
         | (Inr (a, l), s1) \<Rightarrow>
             (case create (dev s1) of (h, d) \<Rightarrow>
                (let l' = set_at tm_addr a (\<lambda>t. t\<lparr>tm_template := h\<rparr>) l;
                     s2 = port_upd pid (put (\<lambda>_. l')) (s1\<lparr>dev := d\<rparr>) in
                 if h = 0 then do {
                   pit \<leftarrow> find (\<lambda>t. tm_addr t = a) l';
                   (_, s3) \<leftarrow> destroy [tm_id pit] s2;
                   Some (port_flow_complain api s3, s3)
                 } else Some (0, s2))))
      })"

definition port_flow_pattern_template_create ::
  "('d, 'z) tmpl_api_scheme \<Rightarrow> u16 \<Rightarrow> u32 \<Rightarrow> u64 \<Rightarrow> rte_flow_item list \<Rightarrow> 'd st
    \<Rightarrow> (int \<times> 'd st) option" where
  "port_flow_pattern_template_create api pid i attr pattern s =
     template_create_in api pattern_templ_list pattern_templ_list_update
       (rte_flow_pattern_template_create api pid attr pattern)
       (port_flow_pattern_template_destroy api pid) pid i s"

definition port_flow_actions_template_create ::
  "('d, 'z) tmpl_api_scheme \<Rightarrow> u16 \<Rightarrow> u32 \<Rightarrow> u64 \<Rightarrow> rte_flow_action list \<Rightarrow> rte_flow_action list
    \<Rightarrow> 'd st \<Rightarrow> (int \<times> 'd st) option" where
  "port_flow_actions_template_create api pid i attr actions masks s =
     template_create_in api actions_templ_list actions_templ_list_update
       (rte_flow_actions_template_create api pid attr actions masks)
       (port_flow_actions_template_destroy api pid) pid i s"

section \<open>Template tables\<close>

definition table_kill ::
  "('d, 'z) tmpl_api_scheme \<Rightarrow> u16 \<Rightarrow> port_table \<Rightarrow> int \<Rightarrow> 'd st \<Rightarrow> outcome \<times> int \<times> 'd st" where
  "table_kill api pid = pmd_kill api tb_table (rte_flow_template_table_destroy api pid)"

definition port_flow_template_table_destroy ::
  "('d, 'z) tmpl_api_scheme \<Rightarrow> u16 \<Rightarrow> u32 list \<Rightarrow> 'd st \<Rightarrow> (int \<times> 'd st) option" where
  "port_flow_template_table_destroy api pid ids s =
     destroy_in (table_kill api pid) tb_id table_list table_list_update pid ids s"

definition port_flow_template_table_flush ::
  "('d, 'z) tmpl_api_scheme \<Rightarrow> u16 \<Rightarrow> 'd st \<Rightarrow> (int \<times> 'd st) option" where
  "port_flow_template_table_flush api pid s =
     flush_in (table_kill api pid) table_list table_list_update pid s"

text \<open>
  The two lookup loops of the create command: every identifier must name a template of the list;
  the driver objects are collected in the order of the identifiers.
\<close>

fun collect_templates :: "port_template list \<Rightarrow> u32 list \<Rightarrow> handle list option" where
  "collect_templates ts [] = Some []"
| "collect_templates ts (i # is) =
     (case find (\<lambda>t. tm_id t = i) ts of
        None \<Rightarrow> None
      | Some t \<Rightarrow> map_option ((#) (tm_template t)) (collect_templates ts is))"

definition port_flow_template_table_create ::
  "('d, 'z) tmpl_api_scheme \<Rightarrow> u16 \<Rightarrow> u32 \<Rightarrow> rte_flow_template_table_attr \<Rightarrow> u32 list \<Rightarrow> u32 list \<Rightarrow> 'd st
    \<Rightarrow> (int \<times> 'd st) option" where
  "port_flow_template_table_create api pid i table_attr pts ats s =
     (if bad_port s pid then Some (- EINVAL, s)
      else do {
        port \<leftarrow> port_get s pid;
        (case collect_templates (pattern_templ_list port) pts of
           None \<Rightarrow> Some (- EINVAL, s)
         | Some phs \<Rightarrow>
        (case collect_templates (actions_templ_list port) ats of
           None \<Rightarrow> Some (- EINVAL, s)
         | Some ahs \<Rightarrow>
        (case table_alloc api i (table_list port) s of
           (Inl r, s1) \<Rightarrow> Some (r, s1)
         | (Inr (a, l), s1) \<Rightarrow>
             (case rte_flow_template_table_create api pid table_attr phs ahs (dev s1) of (h, d) \<Rightarrow>
                (let l' = set_at tb_addr a (\<lambda>t. t\<lparr>tb_table := h\<rparr>) l;
                     s2 = port_upd pid (table_list_update (\<lambda>_. l')) (s1\<lparr>dev := d\<rparr>) in
                 if h = 0 then do {
                   pt \<leftarrow> find (\<lambda>t. tb_addr t = a) l';
                   (_, s3) \<leftarrow> port_flow_template_table_destroy api pid [tb_id pt] s2;
                   Some (port_flow_complain api s3, s3)
                 } else Some (0, port_upd pid (table_list_update (\<lambda>_.
                     set_at tb_addr a (\<lambda>t. t\<lparr>nb_pattern_templates := of_nat (length pts),
                       nb_actions_templates := of_nat (length ats),
                       tb_flow_attr := ta_flow_attr table_attr\<rparr>) l')) s2))))))
      })"

section \<open>The contract of a descriptor list of a port\<close>

text \<open>What the driver documents for a destroy call: a failure sets the error number.\<close>

definition errno_on_failure ::
  "('d, 'z) base_api_scheme \<Rightarrow> (handle \<Rightarrow> 'd \<Rightarrow> int \<times> 'd) \<Rightarrow> bool" where
  "errno_on_failure api destroy \<longleftrightarrow>
     (\<forall>h d rc d'. destroy h d = (rc, d') \<longrightarrow> rc \<noteq> 0 \<longrightarrow> rte_errno api d' \<noteq> 0)"

text \<open>The parts of the state a release step of a driver object leaves alone.\<close>

definition same_heap :: "'d st \<Rightarrow> 'd st \<Rightarrow> bool" where
  "same_heap s s' \<longleftrightarrow> (\<exists>d. s' = s\<lparr>dev := d\<rparr>)"

lemma same_heap_refl [simp]: "same_heap s s"
  unfolding same_heap_def by (rule exI [of _ "dev s"]) simp

lemma same_heap_dev [simp]: "same_heap s (s\<lparr>dev := d\<rparr>)"
  by (auto simp: same_heap_def)

lemma same_heap_trans [trans]: "same_heap s t \<Longrightarrow> same_heap t u \<Longrightarrow> same_heap s u"
  by (auto simp: same_heap_def)

lemma same_heap_fields:
  "same_heap s s' \<Longrightarrow> ports s' = ports s \<and> eth_devs s' = eth_devs s \<and> brk s' = brk s \<and> jobs s' = jobs s \<and>
     unlinked_flows s' = unlinked_flows s \<and> unlinked_actions s' = unlinked_actions s \<and>
     age_context s' = age_context s"
  by (auto simp: same_heap_def)

lemma same_heap_port_get: "same_heap s s' \<Longrightarrow> port_get s' p = port_get s p"
  by (auto simp: same_heap_def)

interpretation pk: sticky_release "pmd_kill api hnd destroy" "errno_on_failure api destroy"
  for api :: "('d, 'z) base_api_scheme" and hnd :: "'n \<Rightarrow> handle" and destroy
proof
  fix x ret w r w'
  show "pmd_kill api hnd destroy x ret w \<noteq> (Abort, r, w')"
    by (auto simp: pmd_kill_def Let_def split: prod.splits)
  show "pmd_kill api hnd destroy x ret w = (Removed, r, w') \<Longrightarrow> r = ret"
    by (auto simp: pmd_kill_def Let_def split: prod.splits if_splits)
  show "errno_on_failure api destroy \<Longrightarrow> pmd_kill api hnd destroy x ret w = (Kept, r, w') \<Longrightarrow> r \<noteq> 0"
    by (auto simp: pmd_kill_def errno_on_failure_def port_flow_complain_def Let_def
        split: prod.splits if_splits)
qed

definition keeps_heap :: "('n \<Rightarrow> int \<Rightarrow> 'd st \<Rightarrow> outcome \<times> int \<times> 'd st) \<Rightarrow> bool" where
  "keeps_heap kill \<longleftrightarrow> (\<forall>x ret s out r s'. kill x ret s = (out, r, s') \<longrightarrow> same_heap s s')"

lemma keeps_heapD: "keeps_heap kill \<Longrightarrow> kill x ret s = (out, r, s') \<Longrightarrow> same_heap s s'"
  by (auto simp: keeps_heap_def)

lemma pmd_kill_heap: "keeps_heap (pmd_kill api hnd destroy)"
  by (auto simp: keeps_heap_def pmd_kill_def Let_def split: prod.splits if_splits)

lemma scan_ids_heap:
  assumes kh: "keeps_heap kill"
  shows "scan_ids kill key ids x ret s = (out, r, s') \<Longrightarrow> same_heap s s'"
proof (induction ids arbitrary: ret s)
  case (Cons i ids)
  show ?case
  proof (cases "i = key x")
    case True
    obtain o1 r1 s1 where k: "kill x ret s = (o1, r1, s1)" by (cases "kill x ret s")
    from keeps_heapD [OF kh k] have h: "same_heap s s1" .
    with Cons k True show ?thesis by (cases o1) (auto intro: same_heap_trans)
  next
    case False
    with Cons show ?thesis by simp
  qed
qed simp

lemma destroy_loop_heap:
  assumes kh: "keeps_heap kill"
  shows "destroy_loop kill key ids xs ret s = (r, ys, s') \<Longrightarrow> same_heap s s'"
proof (induction xs arbitrary: ret s ys)
  case (Cons x xs)
  obtain o1 r1 s1 where k: "scan_ids kill key ids x ret s = (o1, r1, s1)"
    by (cases "scan_ids kill key ids x ret s")
  from scan_ids_heap [OF kh k] have "same_heap s s1" .
  with Cons k show ?case
    by (cases o1) (auto split: prod.splits intro: same_heap_trans)
qed simp

lemma flush_loop_heap:
  assumes kh: "keeps_heap kill"
  shows "flush_loop kill xs ret s = (r, ys, s') \<Longrightarrow> same_heap s s'"
proof (induction xs arbitrary: ret s ys)
  case (Cons x xs)
  obtain o1 r1 s1 where k: "kill x ret s = (o1, r1, s1)" by (cases "kill x ret s")
  from keeps_heapD [OF kh k] have "same_heap s s1" .
  with Cons k show ?case
    by (cases o1) (auto split: prod.splits intro: same_heap_trans)
qed simp

locale port_list =
  fixes kill :: "'n \<Rightarrow> int \<Rightarrow> 'd st \<Rightarrow> outcome \<times> int \<times> 'd st"
    and get :: "rte_port \<Rightarrow> 'n list"
    and put :: "('n list \<Rightarrow> 'n list) \<Rightarrow> rte_port \<Rightarrow> rte_port"
  assumes get_put: "get (put f p) = f (get p)"
    and kill_heap: "keeps_heap kill"
begin

lemma destroy_in_loop:
  assumes "\<not> bad_port s pid" "port_get s pid = Some p"
  shows "\<exists>r l s1. destroy_loop kill key ids (get p) 0 s = (r, l, s1) \<and> same_heap s s1 \<and>
     destroy_in kill key get put pid ids s = Some (r, port_upd pid (put (\<lambda>_. l)) s1)"
proof (cases "destroy_loop kill key ids (get p) 0 s")
  case (fields r l s1)
  with assms destroy_loop_heap [OF kill_heap fields] show ?thesis by (simp add: destroy_in_def)
qed

lemma flush_in_loop:
  assumes "\<not> bad_port s pid" "port_get s pid = Some p"
  shows "\<exists>r l s1. flush_loop kill (get p) 0 s = (r, l, s1) \<and> same_heap s s1 \<and>
     flush_in kill get put pid s = Some (r, port_upd pid (put (\<lambda>_. l)) s1)"
proof (cases "flush_loop kill (get p) 0 s")
  case (fields r l s1)
  with assms flush_loop_heap [OF kill_heap fields] show ?thesis by (simp add: flush_in_def)
qed

lemma upd_list:
  assumes "same_heap s s1" "port_get s pid = Some p"
  shows "port_get (port_upd pid (put (\<lambda>_. l)) s1) pid = Some (put (\<lambda>_. l) p)"
    "q \<noteq> pid \<Longrightarrow> port_get (port_upd pid (put (\<lambda>_. l)) s1) q = port_get s q"
    "brk (port_upd pid (put (\<lambda>_. l)) s1) = brk s"
  using assms(2) same_heap_port_get [OF assms(1)] same_heap_fields [OF assms(1)]
  by (simp_all add: port_get_upd)

end

locale port_registry = port_list kill get put + sticky_release kill sound
  for kill :: "'n \<Rightarrow> int \<Rightarrow> 'd st \<Rightarrow> outcome \<times> int \<times> 'd st" and get put and sound :: bool
begin

lemma destroy_in_correct:
  assumes "\<not> bad_port s pid" "port_get s pid = Some p"
  shows "\<exists>r s' l. destroy_in kill key get put pid ids s = Some (r, s') \<and>
     port_get s' pid = Some (put (\<lambda>_. l) p) \<and> subseq l (get p) \<and>
     filter (\<lambda>x. key x \<notin> set ids) l = filter (\<lambda>x. key x \<notin> set ids) (get p) \<and>
     (\<forall>q. q \<noteq> pid \<longrightarrow> port_get s' q = port_get s q) \<and>
     (sound \<and> distinct ids \<longrightarrow> (r = 0 \<longleftrightarrow> l = filter (\<lambda>x. key x \<notin> set ids) (get p)))"
proof -
  obtain r l s1 where d: "destroy_loop kill key ids (get p) 0 s = (r, l, s1)" "same_heap s s1"
    "destroy_in kill key get put pid ids s = Some (r, port_upd pid (put (\<lambda>_. l)) s1)"
    using destroy_in_loop [OF assms] by blast
  have "sound \<and> distinct ids \<longrightarrow> (r = 0 \<longleftrightarrow> l = filter (\<lambda>x. key x \<notin> set ids) (get p))"
    using destroy_ret d(1) by blast
  with d upd_list [OF d(2) assms(2)] show ?thesis
    using destroy_loop_subseq [OF d(1)] destroy_loop_others [OF d(1)] by blast
qed

lemma flush_in_correct:
  assumes "\<not> bad_port s pid" "port_get s pid = Some p"
  shows "\<exists>r s' l. flush_in kill get put pid s = Some (r, s') \<and>
     port_get s' pid = Some (put (\<lambda>_. l) p) \<and> subseq l (get p) \<and>
     (\<forall>q. q \<noteq> pid \<longrightarrow> port_get s' q = port_get s q) \<and> (sound \<longrightarrow> (r = 0 \<longleftrightarrow> l = []))"
proof -
  obtain r l s1 where d: "flush_loop kill (get p) 0 s = (r, l, s1)" "same_heap s s1"
    "flush_in kill get put pid s = Some (r, port_upd pid (put (\<lambda>_. l)) s1)"
    using flush_in_loop [OF assms] by blast
  have "sound \<longrightarrow> (r = 0 \<longleftrightarrow> l = [])" using flush_ret d(1) by blast
  with d upd_list [OF d(2) assms(2)] show ?thesis using flush_loop_subseq [OF d(1)] by blast
qed

end

text \<open>
  A kind of driver object: the release step of a descriptor without driver object unlinks it, a
  new descriptor has none, and the list field obeys the laws of a record update.  A create
  command that the driver refuses then undoes its allocation by destroying the new identifier.
\<close>

locale object_kind = port_registry kill get put sound + descriptor key addr mk
  for kill :: "'n \<Rightarrow> int \<Rightarrow> 'd st \<Rightarrow> outcome \<times> int \<times> 'd st" and get put sound
    and key :: "'n \<Rightarrow> u32" and addr mk +
  fixes hnd :: "'n \<Rightarrow> handle"
  assumes kill_null: "hnd t = 0 \<Longrightarrow> kill t ret s = (Removed, ret, s)"
    and hnd_mk: "hnd (mk a i) = 0"
    and put_put: "put (\<lambda>_. m) (put (\<lambda>_. l) p) = put (\<lambda>_. m) p"
    and put_get: "put (\<lambda>_. get p) p = p"
begin

lemma destroy_null:
  assumes "desc_by key l" "t \<in> set l" "hnd t = 0"
  shows "destroy_loop kill key [key t] l 0 s = (0, filter (\<lambda>x. key x \<noteq> key t) l, s)"
  using assms
proof (induction l)
  case (Cons x l)
  show ?case
  proof (cases "x = t")
    case True
    with Cons.prems have "\<forall>y \<in> set l. key y \<noteq> key t" by auto
    then have "destroy_loop kill key [key t] l 0 s = (0, l, s)"
      "filter (\<lambda>x. key x \<noteq> key t) l = l"
      by (auto intro: destroy_loop_none simp: filter_id_conv)
    with True Cons.prems show ?thesis by (simp add: kill_null)
  next
    case False
    with Cons.prems have "key x \<noteq> key t" "t \<in> set l" by auto
    with Cons show ?thesis by simp
  qed
qed simp

lemma new_node:
  assumes al: "desc_alloc api key mk i xs s = (Inr (a, l), s1)" and ok: "reg_ok key addr (brk s) xs"
    and j: "pick_id key i xs = Some j"
  shows "mk a j \<in> set l" "find (\<lambda>t. addr t = a) l = Some (mk a j)"
    "f (mk a j) = mk a j \<Longrightarrow> set_at addr a f l = l"
proof -
  obtain j' where "pick_id key i xs = Some j'" and "link_desc key (mk a j') xs = Some l"
    and r: "reg_ok key addr (brk s1) l"
    using alloc_success [OF al ok] by blast
  with j have l: "link_desc key (mk a j) xs = Some l" by simp
  show m: "mk a j \<in> set l" using link_desc_set [OF l] by simp
  show "find (\<lambda>t. addr t = a) l = Some (mk a j)"
    using find_unique_key [of addr l "mk a j"] m r by (simp add: reg_ok_def)
  have "x = mk a j" if "x \<in> set l" "addr x = a" for x
    using that m r by (auto simp: reg_ok_def dest: distinct_map_eq)
  then show "set_at addr a f l = l" if "f (mk a j) = mk a j"
    using that by (auto simp: set_at_def intro!: map_idI)
qed

lemma rollback:
  assumes p: "\<not> bad_port s pid" "port_get s pid = Some p"
    and ok: "reg_ok key addr (brk s) (get p)"
    and al: "desc_alloc api key mk i (get p) s = (Inr (a, l), s1)"
    and j: "pick_id key i (get p) = Some j"
  shows "destroy_in kill key get put pid [j] (port_upd pid (put (\<lambda>_. l)) (s1\<lparr>dev := d\<rparr>))
     = Some (0, s1\<lparr>dev := d, ports := ports s\<rparr>)"
proof -
  let ?s2 = "port_upd pid (put (\<lambda>_. l)) (s1\<lparr>dev := d\<rparr>)"
  have r: "reg_ok key addr (brk s1) l" using alloc_success [OF al ok] by blast
  have fr: "ports s1 = ports s" "eth_devs s1 = eth_devs s" using alloc_frame [OF al] by auto
  have dl: "destroy_loop kill key [j] l 0 ?s2 = (0, get p, ?s2)"
    using destroy_null [OF reg_ok_desc [OF r] new_node(1) [OF al ok j], of ?s2]
      alloc_rollback [OF al ok j] hnd_mk by simp
  have bp: "\<not> bad_port ?s2 pid" using p(1) fr bad_port_cong [of ?s2 s pid] by simp
  have pg: "port_get ?s2 pid = Some (put (\<lambda>_. l) p)"
    using p(2) port_get_cong [OF fr(1)] by (simp add: port_get_upd)
  have "destroy_in kill key get put pid [j] ?s2 = Some (0, port_upd pid (put (\<lambda>_. get p)) ?s2)"
    using bp pg dl by (simp add: destroy_in_def get_put)
  moreover have "port_upd pid (put (\<lambda>_. get p)) ?s2 = s1\<lparr>dev := d, ports := ports s\<rparr>"
    using fr p(2)
    by (auto simp: port_upd_def put_put put_get port_get_def split: if_splits)
  ultimately show ?thesis by simp
qed

end

text \<open>The two kinds of template: the create command is all or nothing.\<close>

locale template_kind = object_kind kill get put sound tm_id tm_addr new_template tm_template
  for kill :: "port_template \<Rightarrow> int \<Rightarrow> 'd st \<Rightarrow> outcome \<times> int \<times> 'd st" and get put sound
begin

lemma create_refused:
  assumes p: "\<not> bad_port s pid" "port_get s pid = Some p"
    and ok: "reg_ok tm_id tm_addr (brk s) (get p)"
    and al: "template_alloc api i (get p) s = (Inr (a, l), s1)" and null: "create (dev s1) = (0, d)"
  shows "template_create_in api get put create (\<lambda>ids. destroy_in kill tm_id get put pid ids) pid i s
           = Some (- rte_errno api d, s1\<lparr>dev := d, ports := ports s\<rparr>)"
proof -
  note al' = al [unfolded template_alloc_def]
  obtain j where j: "pick_id tm_id i (get p) = Some j"
    using alloc_success [OF al' ok] by blast
  note n = new_node(2,3) [OF al' ok j] and rb = rollback [OF p ok al' j, of d]
  have "set_at tm_addr a (\<lambda>t. t\<lparr>tm_template := 0\<rparr>) l = l"
    by (rule n(2)) (simp add: new_template_def)
  with n(1) rb show ?thesis
    using p al null by (simp add: template_create_in_def new_template_def port_flow_complain_def)
qed

lemma create_accepted:
  assumes "\<not> bad_port s pid" "port_get s pid = Some p"
    and ok: "reg_ok tm_id tm_addr (brk s) (get p)"
    and al: "template_alloc api i (get p) s = (Inr (a, l), s1)"
    and h: "create (dev s1) = (h, d)" "h \<noteq> 0"
  shows "\<exists>s' l' j. template_create_in api get put create
        (\<lambda>ids. destroy_in kill tm_id get put pid ids) pid i s = Some (0, s') \<and>
      pick_id tm_id i (get p) = Some j \<and> j \<notin> tm_id ` set (get p) \<and>
      port_get s' pid = Some (put (\<lambda>_. l') p) \<and> reg_ok tm_id tm_addr (brk s') l' \<and>
      (\<forall>k. map_option tm_template (find (\<lambda>t. tm_id t = k) l') =
         (if k = j then Some h else map_option tm_template (find (\<lambda>t. tm_id t = k) (get p)))) \<and>
      (\<forall>q. q \<noteq> pid \<longrightarrow> port_get s' q = port_get s q)"
proof -
  have al': "desc_alloc api tm_id new_template i (get p) s = (Inr (a, l), s1)"
    using al by (simp add: template_alloc_def)
  obtain j where j: "pick_id tm_id i (get p) = Some j" "a = brk s" "brk s1 = Suc (brk s)"
    "j \<notin> tm_id ` set (get p)" "reg_ok tm_id tm_addr (brk s1) l"
    using tmpl.alloc_success [OF al' ok] by blast
  let ?l = "set_at tm_addr a (\<lambda>t. t\<lparr>tm_template := h\<rparr>) l"
  let ?s2 = "port_upd pid (put (\<lambda>_. ?l)) (s1\<lparr>dev := d\<rparr>)"
  have fr: "ports s1 = ports s" using tmpl.alloc_frame [OF al'] by auto
  have old: "tm_addr t \<noteq> a" if "find (\<lambda>t. tm_id t = k) (get p) = Some t" for k t
    using find_SomeD [OF that] ok j(2) by (auto simp: reg_ok_def)
  have fd: "find (\<lambda>t. tm_id t = k) ?l = map_option
      (\<lambda>x. if tm_addr x = a then x\<lparr>tm_template := h\<rparr> else x) (find (\<lambda>t. tm_id t = k) l)" for k
    by (rule find_set_at) simp
  show ?thesis
  proof (intro exI conjI allI impI)
    show "template_create_in api get put create
        (\<lambda>ids. destroy_in kill tm_id get put pid ids) pid i s = Some (0, ?s2)"
      using assms(1,2) al h by (simp add: template_create_in_def)
    show "reg_ok tm_id tm_addr (brk ?s2) ?l"
      using j(5) by (simp add: set_at_reg_ok)
    show "map_option tm_template (find (\<lambda>t. tm_id t = k) ?l) =
       (if k = j then Some h else map_option tm_template (find (\<lambda>t. tm_id t = k) (get p)))" for k
      using fd tmpl.alloc_lookup [OF al' ok j(1), of k] old [of k]
      by (cases "find (\<lambda>t. tm_id t = k) (get p)") (auto simp: new_template_def)
    show "port_get ?s2 pid = Some (put (\<lambda>_. ?l) p)"
      using assms(2) port_get_cong [OF fr] by (simp add: port_get_upd)
    show "port_get ?s2 q = port_get s q" if "q \<noteq> pid" for q
      using that port_get_cong [OF fr] by (simp add: port_get_upd)
  qed (use j in auto)
qed

text \<open>The create command as a whole, for every outcome of allocator and driver.\<close>

lemma create_correct:
  assumes np: "\<not> bad_port s pid" and p: "port_get s pid = Some p"
    and ok: "reg_ok tm_id tm_addr (brk s) (get p)"
    and contract: "\<And>d d'. create d = (0, d') \<Longrightarrow> rte_errno api d' \<noteq> 0"
  shows "\<exists>r s' l. template_create_in api get put create
            (\<lambda>ids. destroy_in kill tm_id get put pid ids) pid i s = Some (r, s') \<and>
          port_get s' pid = Some (put (\<lambda>_. l) p) \<and> reg_ok tm_id tm_addr (brk s') l \<and>
          (\<forall>q. q \<noteq> pid \<longrightarrow> port_get s' q = port_get s q) \<and>
          (r \<noteq> 0 \<longrightarrow> l = get p) \<and>
          (r = 0 \<longrightarrow> (\<exists>j h. pick_id tm_id i (get p) = Some j \<and> j \<notin> tm_id ` set (get p) \<and> h \<noteq> 0 \<and>
             (\<forall>k. map_option tm_template (find (\<lambda>t. tm_id t = k) l) =
                (if k = j then Some h
                 else map_option tm_template (find (\<lambda>t. tm_id t = k) (get p))))))"
proof -
  obtain x s1 where al: "template_alloc api i (get p) s = (x, s1)"
    by (cases "template_alloc api i (get p) s")
  then have al': "desc_alloc api tm_id new_template i (get p) s = (x, s1)"
    by (simp add: template_alloc_def)
  note fr = tmpl.alloc_frame [OF al']
  have ok1: "reg_ok tm_id tm_addr (brk s1) (get p)" using ok fr(7) by (rule reg_ok_mono)
  show ?thesis
  proof (cases x)
    case (Inl r)
    with al' have "r \<noteq> 0" using tmpl.alloc_error [of api i "get p" s r s1] by auto
    moreover have "template_create_in api get put create
        (\<lambda>ids. destroy_in kill tm_id get put pid ids) pid i s = Some (r, s1)"
      using np p al Inl by (simp add: template_create_in_def)
    ultimately show ?thesis
      using p ok1 port_get_cong [OF fr(1)] put_get [of p] by fastforce
  next
    case (Inr y)
    obtain a l where y: "y = (a, l)" by (cases y)
    note al2 = al [unfolded Inr y]
    obtain h d where c: "create (dev s1) = (h, d)" by (cases "create (dev s1)")
    show ?thesis
    proof (cases "h = 0")
      case True
      let ?s' = "s1\<lparr>dev := d, ports := ports s\<rparr>"
      have "template_create_in api get put create
          (\<lambda>ids. destroy_in kill tm_id get put pid ids) pid i s = Some (- rte_errno api d, ?s')"
        using create_refused [OF np p ok al2] c True by simp
      moreover have "port_get ?s' q = port_get s q" for q by (simp add: port_get_def)
      moreover have "rte_errno api d \<noteq> 0" using contract c True by blast
      ultimately show ?thesis using p ok1 put_get [of p] by fastforce
    next
      case False
      with create_accepted [OF np p ok al2, of create h d] c show ?thesis by blast
    qed
  qed
qed

end

interpretation ptl: template_kind "pattern_template_kill api pid" pattern_templ_list pattern_templ_list_update
  "errno_on_failure api (rte_flow_pattern_template_destroy api pid)"
  for api :: "('d, 'z) tmpl_api_scheme" and pid
  unfolding pattern_template_kill_def
  by unfold_locales (auto intro: pmd_kill_heap simp: pmd_kill_def new_template_def)

interpretation atl: template_kind "actions_template_kill api pid" actions_templ_list actions_templ_list_update
  "errno_on_failure api (rte_flow_actions_template_destroy api pid)"
  for api :: "('d, 'z) tmpl_api_scheme" and pid
  unfolding actions_template_kill_def
  by unfold_locales (auto intro: pmd_kill_heap simp: pmd_kill_def new_template_def)

interpretation tbl: object_kind "table_kill api pid" table_list table_list_update
  "errno_on_failure api (rte_flow_template_table_destroy api pid)" tb_id tb_addr new_table tb_table
  for api :: "('d, 'z) tmpl_api_scheme" and pid
  unfolding table_kill_def
  by unfold_locales (auto intro: pmd_kill_heap simp: pmd_kill_def new_table_def)

lemma template_destroy_eta:
  "port_flow_pattern_template_destroy api pid = destroy_in (pattern_template_kill api pid) tm_id
     pattern_templ_list pattern_templ_list_update pid"
  "port_flow_actions_template_destroy api pid = destroy_in (actions_template_kill api pid) tm_id
     actions_templ_list actions_templ_list_update pid"
  by (simp_all add: fun_eq_iff port_flow_pattern_template_destroy_def
      port_flow_actions_template_destroy_def)

lemmas template_list_defs =
  port_flow_pattern_template_create_def port_flow_actions_template_create_def
  template_destroy_eta

lemma collect_templates_ids: "collect_templates ts is = Some hs \<Longrightarrow> set is \<subseteq> tm_id ` set ts"
  by (induction "is" arbitrary: hs) (auto split: option.splits dest: find_SomeD)

text \<open>The two outcomes of the driver in the table create command.\<close>

lemma table_create_null:
  assumes p: "\<not> bad_port s pid" "port_get s pid = Some p"
    and ok: "reg_ok tb_id tb_addr (brk s) (table_list p)"
    and c: "collect_templates (pattern_templ_list p) pts = Some phs"
    "collect_templates (actions_templ_list p) ats = Some ahs"
    and al: "table_alloc api i (table_list p) s = (Inr (a, l), s1)"
    and null: "rte_flow_template_table_create api pid attr phs ahs (dev s1) = (0, d)"
  shows "port_flow_template_table_create api pid i attr pts ats s
           = Some (- rte_errno api d, s1\<lparr>dev := d, ports := ports s\<rparr>)"
proof -
  note al' = al [unfolded table_alloc_def]
  obtain j where j: "pick_id tb_id i (table_list p) = Some j"
    using tabl.alloc_success [OF al' ok] by blast
  note n = tbl.new_node(2,3) [OF al' ok j]
  have rb: "port_flow_template_table_destroy api pid [j]
      (port_upd pid (table_list_update (\<lambda>_. l)) (s1\<lparr>dev := d\<rparr>))
      = Some (0, s1\<lparr>dev := d, ports := ports s\<rparr>)"
    unfolding port_flow_template_table_destroy_def by (rule tbl.rollback [OF p ok al' j])
  have "set_at tb_addr a (\<lambda>t. t\<lparr>tb_table := 0\<rparr>) l = l"
    by (rule n(2)) (simp add: new_table_def)
  with n(1) rb show ?thesis
    using p c al null
    by (simp add: port_flow_template_table_create_def new_table_def port_flow_complain_def)
qed

lemma table_create_ok:
  assumes np: "\<not> bad_port s pid" and p: "port_get s pid = Some p"
    and ok: "reg_ok tb_id tb_addr (brk s) (table_list p)"
    and c: "collect_templates (pattern_templ_list p) pts = Some phs"
      "collect_templates (actions_templ_list p) ats = Some ahs"
    and al: "table_alloc api i (table_list p) s = (Inr (a, l), s1)"
    and h: "rte_flow_template_table_create api pid attr phs ahs (dev s1) = (h, d)" "h \<noteq> 0"
  shows "\<exists>s' p' t. port_flow_template_table_create api pid i attr pts ats s = Some (0, s') \<and>
     port_get s' pid = Some p' \<and> t \<in> set (table_list p') \<and>
     pick_id tb_id i (table_list p) = Some (tb_id t) \<and> tb_id t \<notin> tb_id ` set (table_list p) \<and>
     tb_table t = h \<and> nb_pattern_templates t = of_nat (length pts) \<and>
     nb_actions_templates t = of_nat (length ats) \<and> tb_flow_attr t = ta_flow_attr attr"
proof -
  have al': "desc_alloc api tb_id new_table i (table_list p) s = (Inr (a, l), s1)"
    using al by (simp add: table_alloc_def)
  obtain j where j: "pick_id tb_id i (table_list p) = Some j" "j \<notin> tb_id ` set (table_list p)"
    "link_desc tb_id (new_table a j) (table_list p) = Some l"
    using tabl.alloc_success [OF al' ok] by blast
  have fr: "ports s1 = ports s" using tabl.alloc_frame [OF al'] by auto
  have nl: "new_table a j \<in> set l" using link_desc_set [OF j(3)] by simp
  let ?f = "\<lambda>t. t\<lparr>tb_table := h\<rparr>"
  let ?g = "\<lambda>t. t\<lparr>nb_pattern_templates := of_nat (length pts),
    nb_actions_templates := of_nat (length ats), tb_flow_attr := ta_flow_attr attr\<rparr>"
  let ?l = "set_at tb_addr a ?g (set_at tb_addr a ?f l)"
  let ?s' = "port_upd pid (table_list_update (\<lambda>_. ?l))
    (port_upd pid (table_list_update (\<lambda>_. set_at tb_addr a ?f l)) (s1\<lparr>dev := d\<rparr>))"
  have "port_flow_template_table_create api pid i attr pts ats s = Some (0, ?s')"
    using np p c al h by (simp add: port_flow_template_table_create_def Let_def)
  moreover have "port_get ?s' pid = Some (p\<lparr>table_list := ?l\<rparr>)"
    using p port_get_cong [OF fr] by (simp add: port_get_upd)
  moreover have "?g (?f (new_table a j)) \<in> set (table_list (p\<lparr>table_list := ?l\<rparr>))"
    using nl by (force simp: set_at_def)
  ultimately show ?thesis using j(1,2) by (fastforce simp: new_table_def)
qed

section \<open>Properties\<close>

text \<open>On a valid port with a well-formed template list, creating a pattern template returns.
  A nonzero code leaves the port as it was (the descriptor is rolled back when the driver refuses
  the template); code zero means that the identifier, the requested one or the first free one,
  was unused, now names a template with a driver object, and every other identifier still names
  what it named; the list stays well formed and no other port changes.\<close>

theorem pattern_template_create_correct:
  assumes "\<not> bad_port s pid" "port_get s pid = Some p"
    and "reg_ok tm_id tm_addr (brk s) (pattern_templ_list p)"
    and "\<forall>d d'. rte_flow_pattern_template_create api pid attr pattern d = (0, d') \<longrightarrow>
           rte_errno api d' \<noteq> 0"
  shows "\<exists>r s' l. port_flow_pattern_template_create api pid i attr pattern s = Some (r, s') \<and>
          port_get s' pid = Some (p\<lparr>pattern_templ_list := l\<rparr>) \<and>
          reg_ok tm_id tm_addr (brk s') l \<and>
          (\<forall>q. q \<noteq> pid \<longrightarrow> port_get s' q = port_get s q) \<and>
          (r \<noteq> 0 \<longrightarrow> l = pattern_templ_list p) \<and>
          (r = 0 \<longrightarrow> (\<exists>j h. pick_id tm_id i (pattern_templ_list p) = Some j \<and>
             j \<notin> tm_id ` set (pattern_templ_list p) \<and> h \<noteq> 0 \<and>
             (\<forall>k. map_option tm_template (find (\<lambda>t. tm_id t = k) l) =
                (if k = j then Some h else
                 map_option tm_template (find (\<lambda>t. tm_id t = k) (pattern_templ_list p))))))"
  unfolding template_list_defs using assms by (intro ptl.create_correct) auto

text \<open>Destroying templates by identifier returns on every valid port.  What is left is a
  subsequence of the list in which every template that was not named is still there; with
  distinct identifiers and a driver that sets its error number on failure, the code is zero
  exactly when the named templates, and only they, are gone.\<close>

theorem pattern_template_destroy_correct:
  assumes "\<not> bad_port s pid" "port_get s pid = Some p"
  shows "\<exists>r s' l. port_flow_pattern_template_destroy api pid ids s = Some (r, s') \<and>
          port_get s' pid = Some (p\<lparr>pattern_templ_list := l\<rparr>) \<and>
          subseq l (pattern_templ_list p) \<and>
          filter (\<lambda>t. tm_id t \<notin> set ids) l =
            filter (\<lambda>t. tm_id t \<notin> set ids) (pattern_templ_list p) \<and>
          (\<forall>q. q \<noteq> pid \<longrightarrow> port_get s' q = port_get s q) \<and>
          (errno_on_failure api (rte_flow_pattern_template_destroy api pid) \<and> distinct ids \<longrightarrow>
             (r = 0 \<longleftrightarrow> l = filter (\<lambda>t. tm_id t \<notin> set ids) (pattern_templ_list p)))"
  unfolding port_flow_pattern_template_destroy_def
  by (rule ptl.destroy_in_correct [OF assms])

text \<open>Flushing the template tables of a valid port returns; a driver that sets its error
  number on failure makes the code zero exactly when no table is left, and tables are only ever
  removed, never reordered.\<close>

theorem template_table_flush_correct:
  assumes "\<not> bad_port s pid" "port_get s pid = Some p"
  shows "\<exists>r s' l. port_flow_template_table_flush api pid s = Some (r, s') \<and>
          port_get s' pid = Some (p\<lparr>table_list := l\<rparr>) \<and> subseq l (table_list p) \<and>
          (\<forall>q. q \<noteq> pid \<longrightarrow> port_get s' q = port_get s q) \<and>
          (errno_on_failure api (rte_flow_template_table_destroy api pid) \<longrightarrow> (r = 0 \<longleftrightarrow> l = []))"
  unfolding port_flow_template_table_flush_def by (rule tbl.flush_in_correct [OF assms])

text \<open>A table is only created from templates the port has: when the create command returns
  zero for a driver that sets its error number on failure, every given pattern and actions
  template identifier names a template of the port, and the port has a table under a fresh
  identifier that records the two template counts and the flow attributes it was asked for.\<close>

theorem template_table_create_sound:
  assumes np: "\<not> bad_port s pid" and p: "port_get s pid = Some p"
    and ok: "reg_ok tb_id tb_addr (brk s) (table_list p)"
    and contract: "\<forall>phs ahs d d'. rte_flow_template_table_create api pid attr phs ahs d = (0, d') \<longrightarrow>
           rte_errno api d' \<noteq> 0"
    and res: "port_flow_template_table_create api pid i attr pts ats s = Some (0, s')"
  shows "set pts \<subseteq> tm_id ` set (pattern_templ_list p) \<and>
         set ats \<subseteq> tm_id ` set (actions_templ_list p) \<and>
         (\<exists>p' t. port_get s' pid = Some p' \<and> t \<in> set (table_list p') \<and>
            pick_id tb_id i (table_list p) = Some (tb_id t) \<and>
            tb_id t \<notin> tb_id ` set (table_list p) \<and> tb_table t \<noteq> 0 \<and>
            nb_pattern_templates t = of_nat (length pts) \<and>
            nb_actions_templates t = of_nat (length ats) \<and>
            tb_flow_attr t = ta_flow_attr attr)"
proof -
  obtain phs where phs: "collect_templates (pattern_templ_list p) pts = Some phs"
    using res np p by (cases "collect_templates (pattern_templ_list p) pts")
      (auto simp: port_flow_template_table_create_def)
  obtain ahs where ahs: "collect_templates (actions_templ_list p) ats = Some ahs"
    using res np p phs by (cases "collect_templates (actions_templ_list p) ats")
      (auto simp: port_flow_template_table_create_def)
  obtain x s1 where al: "table_alloc api i (table_list p) s = (x, s1)"
    by (cases "table_alloc api i (table_list p) s")
  obtain a l where x: "x = Inr (a, l)"
  proof (cases x)
    case (Inl r)
    with al have "r = 0" using res np p phs ahs by (simp add: port_flow_template_table_create_def)
    moreover have "r \<noteq> 0"
      using tabl.alloc_error al Inl by (fastforce simp: table_alloc_def)
    ultimately show ?thesis by simp
  qed (use that in force)
  obtain h d where c: "rte_flow_template_table_create api pid attr phs ahs (dev s1) = (h, d)"
    by (cases "rte_flow_template_table_create api pid attr phs ahs (dev s1)")
  have h: "h \<noteq> 0"
  proof
    assume "h = 0"
    with table_create_null [OF np p ok phs ahs al [unfolded x], of attr d] c res
    have "rte_errno api d = 0" by simp
    with contract c \<open>h = 0\<close> show False by blast
  qed
  obtain s2 p' t where
    "port_flow_template_table_create api pid i attr pts ats s = Some (0, s2)" and
    t: "port_get s2 pid = Some p'" "t \<in> set (table_list p')"
    "pick_id tb_id i (table_list p) = Some (tb_id t)" "tb_id t \<notin> tb_id ` set (table_list p)"
    "tb_table t = h" "nb_pattern_templates t = of_nat (length pts)"
    "nb_actions_templates t = of_nat (length ats)" "tb_flow_attr t = ta_flow_attr attr"
    using table_create_ok [OF np p ok phs ahs al [unfolded x] c h] by blast
  with res have "s2 = s'" by simp
  with t h collect_templates_ids [OF phs] collect_templates_ids [OF ahs] show ?thesis by blast
qed

end
