(* ===== verification/IndirectActions.thy ===== *)
theory IndirectActions
  imports Templates
begin

text \<open>
  Indirect actions of a port (\<^verbatim>\<open>action_get_by_id\<close> and \<^verbatim>\<open>port_action_handle_*\<close> of
  \<^verbatim>\<open>config.c\<close>): lookup by identifier, destroy, flush, update and query.  The list and its
  allocator are those of \<^verbatim>\<open>Registry\<close>; the destroy and flush commands reuse the control flow of
  \<^verbatim>\<open>Templates\<close> with release steps of their own, which report differently: a successful driver
  call overwrites the return code, and the flush step keeps every action that has a driver object.
\<close>

text \<open>A meter mark configuration; a bit of the update that the code leaves unset is \<open>None\<close>.\<close>

record rte_flow_action_meter_mark =
  mm_profile :: handle
  mm_policy :: handle
  mm_driver :: u64

record rte_flow_update_meter_mark =
  mtr_meter_mark :: rte_flow_action_meter_mark
  profile_valid :: "bool option"
  policy_valid :: "bool option"
  color_mode_valid :: "bool option"
  state_valid :: "bool option"

text \<open>What the update call gets to read: the configuration, a meter mark update, the action.\<close>

datatype action_update =
    UpdateConf u64
  | UpdateMeterMark rte_flow_update_meter_mark
  | UpdateAction rte_flow_action

text \<open>The value of the query union is opaque; a report names what is printed of it.\<close>

datatype query_report =
    AgeReport u64
  | CountReport u64
  | ConntrackReport u64
  | QuotaReport u32 u64
  | NoQueryReport rte_flow_action_type u32 u16

record 'd act_api = "'d tmpl_api" +
  rte_flow_action_handle_destroy :: "u16 \<Rightarrow> handle \<Rightarrow> 'd \<Rightarrow> int \<times> 'd"
  rte_flow_action_list_handle_destroy :: "u16 \<Rightarrow> handle \<Rightarrow> 'd \<Rightarrow> int \<times> 'd"
  rte_flow_action_handle_update :: "u16 \<Rightarrow> handle \<Rightarrow> action_update \<Rightarrow> 'd \<Rightarrow> int \<times> 'd"
  rte_flow_action_query :: "u16 \<Rightarrow> handle \<Rightarrow> 'd \<Rightarrow> int \<times> u64 \<times> 'd"
  rte_flow_action_handle_query_update ::
    "u16 \<Rightarrow> handle \<Rightarrow> rte_flow_action \<Rightarrow> int \<Rightarrow> 'd \<Rightarrow> int \<times> u64 \<times> 'd"
  meter_mark_conf :: "u64 \<Rightarrow> rte_flow_action_meter_mark"

section \<open>Lookup, destroy and flush\<close>

text \<open>The outer option is undefined behaviour, the inner one a null pointer.\<close>

definition action_get_by_id :: "u16 \<Rightarrow> u32 \<Rightarrow> 'd st \<Rightarrow> port_indirect_action option option" where
  "action_get_by_id pid i s =
     (if bad_port s pid then Some None
      else do {
        port \<leftarrow> port_get s pid;
        Some (find (\<lambda>a. pia_id a = i) (actions_list port))
      })"

definition action_pmd_destroy ::
  "('d, 'z) act_api_scheme \<Rightarrow> u16 \<Rightarrow> port_indirect_action \<Rightarrow> 'd \<Rightarrow> int \<times> 'd" where
  "action_pmd_destroy api pid pia d =
     (if pia_type pia = RTE_FLOW_ACTION_TYPE_INDIRECT_LIST
      then rte_flow_action_list_handle_destroy api pid (pia_handle pia) d
      else rte_flow_action_handle_destroy api pid (pia_handle pia) d)"

definition action_kill ::
  "('d, 'z) act_api_scheme \<Rightarrow> u16 \<Rightarrow> port_indirect_action \<Rightarrow> int \<Rightarrow> 'd st
    \<Rightarrow> outcome \<times> int \<times> 'd st" where
  "action_kill api pid pia ret s =
     (if pia_handle pia \<noteq> 0
      then (case action_pmd_destroy api pid pia (dev s) of (rc, d) \<Rightarrow>
              (let s' = s\<lparr>dev := d\<rparr> in
               if rc \<noteq> 0 then (Kept, port_flow_complain api s', s') else (Removed, rc, s')))
      else (Removed, ret, s))"

definition port_action_handle_destroy ::
  "('d, 'z) act_api_scheme \<Rightarrow> u16 \<Rightarrow> u32 list \<Rightarrow> 'd st \<Rightarrow> (int \<times> 'd st) option" where
  "port_action_handle_destroy api pid ids s =
     destroy_in (action_kill api pid) pia_id actions_list actions_list_update pid ids s"

definition action_flush_step ::
  "('d, 'z) act_api_scheme \<Rightarrow> u16 \<Rightarrow> port_indirect_action \<Rightarrow> int \<Rightarrow> 'd st
    \<Rightarrow> outcome \<times> int \<times> 'd st" where
  "action_flush_step api pid pia ret s =
     (if pia_handle pia \<noteq> 0
      then (case action_pmd_destroy api pid pia (dev s) of (rc, d) \<Rightarrow>
              (let s' = s\<lparr>dev := d\<rparr> in
               (Kept, if rc \<noteq> 0 then port_flow_complain api s' else rc, s')))
      else (Removed, ret, s))"

definition port_action_handle_flush ::
  "('d, 'z) act_api_scheme \<Rightarrow> u16 \<Rightarrow> 'd st \<Rightarrow> (int \<times> 'd st) option" where
  "port_action_handle_flush api pid s =
     flush_in (action_flush_step api pid) actions_list actions_list_update pid s"

definition port_action_handle_get_by_id :: "u16 \<Rightarrow> u32 \<Rightarrow> 'd st \<Rightarrow> handle option" where
  "port_action_handle_get_by_id pid i s = do {
     pia \<leftarrow> action_get_by_id pid i s;
     Some (case pia of Some a \<Rightarrow> pia_handle a | None \<Rightarrow> 0)
   }"

section \<open>Update and query\<close>

definition meter_mark_update :: "rte_flow_action_meter_mark \<Rightarrow> rte_flow_update_meter_mark" where
  "meter_mark_update mm =
     \<lparr>mtr_meter_mark = mm,
      profile_valid = (if mm_profile mm \<noteq> 0 then Some True else None),
      policy_valid = (if mm_policy mm \<noteq> 0 then Some True else None),
      color_mode_valid = Some True, state_valid = Some True\<rparr>"

definition action_update_arg ::
  "('d, 'z) act_api_scheme \<Rightarrow> rte_flow_action_type \<Rightarrow> rte_flow_action \<Rightarrow> action_update" where
  "action_update_arg api ty action =
     (case ty of
        RTE_FLOW_ACTION_TYPE_AGE \<Rightarrow> UpdateConf (act_conf action)
      | RTE_FLOW_ACTION_TYPE_CONNTRACK \<Rightarrow> UpdateConf (act_conf action)
      | RTE_FLOW_ACTION_TYPE_METER_MARK \<Rightarrow>
          UpdateMeterMark (meter_mark_update (meter_mark_conf api (act_conf action)))
      | _ \<Rightarrow> UpdateAction action)"

definition port_action_handle_update ::
  "('d, 'z) act_api_scheme \<Rightarrow> u16 \<Rightarrow> u32 \<Rightarrow> rte_flow_action \<Rightarrow> 'd st \<Rightarrow> (int \<times> 'd st) option" where
  "port_action_handle_update api pid i action s = do {
     h \<leftarrow> port_action_handle_get_by_id pid i s;
     (if h = 0 then Some (- EINVAL, s)
      else do {
        pia \<leftarrow> action_get_by_id pid i s;
        (case pia of
           None \<Rightarrow> Some (- EINVAL, s)
         | Some a \<Rightarrow>
             (case rte_flow_action_handle_update api pid h
                     (action_update_arg api (pia_type a) action) (dev s) of (rc, d) \<Rightarrow>
                (let s' = s\<lparr>dev := d\<rparr> in
                 Some (if rc \<noteq> 0 then port_flow_complain api s' else 0, s'))))
      })
   }"

definition port_action_handle_query_dump ::
  "u16 \<Rightarrow> port_indirect_action \<Rightarrow> u64 \<Rightarrow> query_report" where
  "port_action_handle_query_dump pid pia query =
     (case pia_type pia of
        RTE_FLOW_ACTION_TYPE_AGE \<Rightarrow> AgeReport query
      | RTE_FLOW_ACTION_TYPE_COUNT \<Rightarrow> CountReport query
      | RTE_FLOW_ACTION_TYPE_CONNTRACK \<Rightarrow> ConntrackReport query
      | RTE_FLOW_ACTION_TYPE_QUOTA \<Rightarrow> QuotaReport (pia_id pia) query
      | _ \<Rightarrow> NoQueryReport (pia_type pia) (pia_id pia) pid)"

definition port_action_handle_query_update ::
  "('d, 'z) act_api_scheme \<Rightarrow> u16 \<Rightarrow> u32 \<Rightarrow> int \<Rightarrow> rte_flow_action \<Rightarrow> 'd st
    \<Rightarrow> (query_report option \<times> 'd st) option" where
  "port_action_handle_query_update api pid i qu_mode action s = do {
     pia \<leftarrow> action_get_by_id pid i s;
     (case pia of
        None \<Rightarrow> Some (None, s)
      | Some a \<Rightarrow>
          if pia_handle a = 0 then Some (None, s)
          else (case rte_flow_action_handle_query_update api pid (pia_handle a) action qu_mode (dev s)
                of (rc, q, d) \<Rightarrow>
                  (let s' = s\<lparr>dev := d\<rparr> in
                   Some (if rc \<noteq> 0 then None else Some (port_action_handle_query_dump pid a q), s'))))
   }"

definition action_can_query :: "rte_flow_action_type \<Rightarrow> bool" where
  "action_can_query ty \<longleftrightarrow>
     ty = RTE_FLOW_ACTION_TYPE_AGE \<or> ty = RTE_FLOW_ACTION_TYPE_COUNT \<or>
     ty = RTE_FLOW_ACTION_TYPE_QUOTA"

definition port_action_handle_query ::
  "('d, 'z) act_api_scheme \<Rightarrow> u16 \<Rightarrow> u32 \<Rightarrow> 'd st \<Rightarrow> (int \<times> query_report option \<times> 'd st) option" where
  "port_action_handle_query api pid i s = do {
     pia \<leftarrow> action_get_by_id pid i s;
     (case pia of
        None \<Rightarrow> Some (- EINVAL, None, s)
      | Some a \<Rightarrow>
          if \<not> action_can_query (pia_type a) then Some (- ENOTSUP, None, s)
          else (case rte_flow_action_query api pid (pia_handle a) (dev s) of (rc, q, d) \<Rightarrow>
                  (let s' = s\<lparr>dev := d\<rparr> in
                   if rc \<noteq> 0 then Some (port_flow_complain api s', None, s')
                   else Some (0, Some (port_action_handle_query_dump pid a q), s'))))
   }"

section \<open>Lemmas\<close>

lemma action_kill_heap: "keeps_heap (action_kill api pid)"
  by (auto simp: keeps_heap_def action_kill_def Let_def split: prod.splits if_splits)

lemma action_flush_heap: "keeps_heap (action_flush_step api pid)"
  by (auto simp: keeps_heap_def action_flush_step_def Let_def split: prod.splits if_splits)

interpretation akl: port_list "action_kill api pid" actions_list actions_list_update
  for api :: "('d, 'z) act_api_scheme" and pid
  by unfold_locales (auto intro: action_kill_heap)

interpretation afl: port_list "action_flush_step api pid" actions_list actions_list_update
  for api :: "('d, 'z) act_api_scheme" and pid
  by unfold_locales (auto intro: action_flush_heap)

text \<open>The flush loop keeps exactly the actions that have a driver object.\<close>

lemma action_flush_kept:
  "flush_loop (action_flush_step api pid) xs ret s = (r, ys, s')
    \<Longrightarrow> ys = filter (\<lambda>a. pia_handle a \<noteq> 0) xs"
proof (induction xs arbitrary: ret s ys)
  case (Cons x xs)
  show ?case
  proof (cases "pia_handle x = 0")
    case True
    with Cons show ?thesis by (simp add: action_flush_step_def)
  next
    case False
    with Cons show ?thesis
      by (auto simp: action_flush_step_def Let_def split: prod.splits)
  qed
qed simp

text \<open>The calls the flush loop makes: every driver object is destroyed once, in list order.\<close>

primrec action_destroy_all ::
  "('d, 'z) act_api_scheme \<Rightarrow> u16 \<Rightarrow> port_indirect_action list \<Rightarrow> 'd \<Rightarrow> 'd" where
  "action_destroy_all api pid [] d = d"
| "action_destroy_all api pid (x # xs) d =
     action_destroy_all api pid xs
       (if pia_handle x = 0 then d else snd (action_pmd_destroy api pid x d))"

lemma action_flush_calls:
  "flush_loop (action_flush_step api pid) xs ret s = (r, ys, s')
    \<Longrightarrow> dev s' = action_destroy_all api pid xs (dev s)"
proof (induction xs arbitrary: ret s ys)
  case (Cons x xs)
  show ?case
  proof (cases "pia_handle x = 0")
    case True
    with Cons show ?thesis by (simp add: action_flush_step_def)
  next
    case False
    obtain rc d where p: "action_pmd_destroy api pid x (dev s) = (rc, d)"
      by (cases "action_pmd_destroy api pid x (dev s)")
    obtain ret1 where k: "action_flush_step api pid x ret s = (Kept, ret1, s\<lparr>dev := d\<rparr>)"
      using False p by (simp add: action_flush_step_def Let_def)
    obtain r2 zs s2 where z: "flush_loop (action_flush_step api pid) xs ret1 (s\<lparr>dev := d\<rparr>) = (r2, zs, s2)"
      by (cases "flush_loop (action_flush_step api pid) xs ret1 (s\<lparr>dev := d\<rparr>)")
    with k Cons.prems have e: "r2 = r" "s2 = s'" by simp_all
    from Cons.IH [OF z [unfolded e]] False p show ?thesis by simp
  qed
qed simp

text \<open>A code other than zero is the complaint about a named action that is still there.\<close>

lemma action_scan_code:
  "scan_ids (action_kill api pid) pia_id ids x ret s = (out, r, s') \<Longrightarrow>
     out \<noteq> Abort \<and> (out = Removed \<longrightarrow> pia_id x \<in> set ids \<and> r = (if pia_handle x = 0 then ret else 0)) \<and>
     (out = Kept \<longrightarrow> pia_id x \<in> set ids \<or> r = ret)"
proof (induction ids arbitrary: ret s)
  case (Cons i ids)
  obtain rc d where p: "action_pmd_destroy api pid x (dev s) = (rc, d)"
    by (cases "action_pmd_destroy api pid x (dev s)")
  consider "i \<noteq> pia_id x" | "i = pia_id x" "pia_handle x = 0"
    | "i = pia_id x" "pia_handle x \<noteq> 0" "rc = 0" | "i = pia_id x" "pia_handle x \<noteq> 0" "rc \<noteq> 0"
    by blast
  then show ?case
  proof cases
    case 1
    with Cons.prems have "scan_ids (action_kill api pid) pia_id ids x ret s = (out, r, s')" by simp
    from Cons.IH [OF this] show ?thesis by (auto split: if_splits)
  next
    case 2 with Cons.prems show ?thesis by (simp add: action_kill_def)
  next
    case 3 with Cons.prems p show ?thesis by (simp add: action_kill_def)
  next
    case 4
    with Cons.prems p have
      "scan_ids (action_kill api pid) pia_id ids x
         (port_flow_complain api (s\<lparr>dev := d\<rparr>)) (s\<lparr>dev := d\<rparr>) = (out, r, s')"
      by (simp add: action_kill_def [of api pid x ret s] Let_def)
    from Cons.IH [OF this] 4 show ?thesis by auto
  qed
qed simp

lemma action_destroy_code:
  "destroy_loop (action_kill api pid) pia_id ids xs ret s = (r, ys, s') \<Longrightarrow> r \<noteq> 0 \<Longrightarrow>
     r = ret \<or> (\<exists>x \<in> set ys. pia_id x \<in> set ids)"
proof (induction xs arbitrary: ret s ys)
  case (Cons x xs)
  obtain out r1 s1 where k: "scan_ids (action_kill api pid) pia_id ids x ret s = (out, r1, s1)"
    by (cases "scan_ids (action_kill api pid) pia_id ids x ret s")
  note c = action_scan_code [OF k]
  show ?case
  proof (cases out)
    case Removed
    with Cons k have "r = r1 \<or> (\<exists>x \<in> set ys. pia_id x \<in> set ids)" by simp
    with c Removed Cons.prems(2) show ?thesis by (auto split: if_splits)
  next
    case Kept
    obtain r2 zs s2 where z: "destroy_loop (action_kill api pid) pia_id ids xs r1 s1 = (r2, zs, s2)"
      by (cases "destroy_loop (action_kill api pid) pia_id ids xs r1 s1")
    with Kept k Cons.prems(1) have e: "r2 = r" "s2 = s'" "ys = x # zs" by simp_all
    from Cons.IH [OF z [unfolded e] Cons.prems(2)] c Kept e show ?thesis by auto
  qed (use c in simp)
qed simp

text \<open>With a driver that accepts every call the named actions go and the code is zero.\<close>

definition accepts :: "(handle \<Rightarrow> 'd \<Rightarrow> int \<times> 'd) \<Rightarrow> bool" where
  "accepts destroy \<longleftrightarrow> (\<forall>h d. fst (destroy h d) = 0)"

lemma action_kill_accepted:
  assumes "accepts (rte_flow_action_handle_destroy api pid)"
    "accepts (rte_flow_action_list_handle_destroy api pid)"
  shows "\<exists>s1. action_kill api pid x 0 s = (Removed, 0, s1)"
proof -
  obtain rc d where p: "action_pmd_destroy api pid x (dev s) = (rc, d)"
    by (cases "action_pmd_destroy api pid x (dev s)")
  with assms have "rc = 0"
    by (auto simp: accepts_def action_pmd_destroy_def split: if_splits) (metis fst_conv)+
  with p show ?thesis by (simp add: action_kill_def Let_def)
qed

lemma action_destroy_accepted:
  assumes "accepts (rte_flow_action_handle_destroy api pid)"
    "accepts (rte_flow_action_list_handle_destroy api pid)"
    "destroy_loop (action_kill api pid) pia_id ids xs 0 s = (r, ys, s')"
  shows "r = 0 \<and> ys = filter (\<lambda>a. pia_id a \<notin> set ids) xs"
  by (rule destroy_loop_all [OF action_kill_accepted [OF assms(1,2)] assms(3)])

section \<open>Properties\<close>

text \<open>Destroying indirect actions by identifier returns on every valid port: actions that are
  not named stay, in their order, and no other port changes; a nonzero code means that a named
  action is still there; a driver that accepts every call makes the code zero and removes
  exactly the named actions.\<close>

theorem action_handle_destroy_correct:
  assumes "\<not> bad_port s pid" "port_get s pid = Some p"
  shows "\<exists>r s' l. port_action_handle_destroy api pid ids s = Some (r, s') \<and>
          port_get s' pid = Some (p\<lparr>actions_list := l\<rparr>) \<and> subseq l (actions_list p) \<and>
          filter (\<lambda>a. pia_id a \<notin> set ids) l = filter (\<lambda>a. pia_id a \<notin> set ids) (actions_list p) \<and>
          (\<forall>q. q \<noteq> pid \<longrightarrow> port_get s' q = port_get s q) \<and>
          (r \<noteq> 0 \<longrightarrow> (\<exists>a \<in> set l. pia_id a \<in> set ids)) \<and>
          (accepts (rte_flow_action_handle_destroy api pid) \<and>
             accepts (rte_flow_action_list_handle_destroy api pid) \<longrightarrow>
           r = 0 \<and> l = filter (\<lambda>a. pia_id a \<notin> set ids) (actions_list p))"
proof -
  obtain r l s1 where d:
    "destroy_loop (action_kill api pid) pia_id ids (actions_list p) 0 s = (r, l, s1)"
    "same_heap s s1" "port_action_handle_destroy api pid ids s =
       Some (r, port_upd pid (actions_list_update (\<lambda>_. l)) s1)"
    using akl.destroy_in_loop [OF assms] unfolding port_action_handle_destroy_def by blast
  have "r \<noteq> 0 \<longrightarrow> (\<exists>a \<in> set l. pia_id a \<in> set ids)"
    using action_destroy_code [OF d(1)] by blast
  moreover have "accepts (rte_flow_action_handle_destroy api pid) \<and>
      accepts (rte_flow_action_list_handle_destroy api pid) \<longrightarrow>
      r = 0 \<and> l = filter (\<lambda>a. pia_id a \<notin> set ids) (actions_list p)"
    using action_destroy_accepted d(1) by blast
  ultimately show ?thesis
    using d(3) akl.upd_list [OF d(2) assms(2)] destroy_loop_subseq [OF d(1)]
      destroy_loop_others [OF d(1)] by blast
qed

text \<open>Flushing the indirect actions of a valid port asks the driver to destroy every driver
  object once, in list order, and leaves in the list exactly the actions that have one: their
  descriptors, with the handles just destroyed, stay whatever the driver answers.\<close>

theorem action_handle_flush_keeps:
  assumes "\<not> bad_port s pid" "port_get s pid = Some p"
  shows "\<exists>r s'. port_action_handle_flush api pid s = Some (r, s') \<and>
          port_get s' pid =
            Some (p\<lparr>actions_list := filter (\<lambda>a. pia_handle a \<noteq> 0) (actions_list p)\<rparr>) \<and>
          (\<forall>q. q \<noteq> pid \<longrightarrow> port_get s' q = port_get s q) \<and>
          dev s' = action_destroy_all api pid (actions_list p) (dev s)"
proof -
  obtain r l s1 where d: "flush_loop (action_flush_step api pid) (actions_list p) 0 s = (r, l, s1)"
    "same_heap s s1" "port_action_handle_flush api pid s =
       Some (r, port_upd pid (actions_list_update (\<lambda>_. l)) s1)"
    using afl.flush_in_loop [OF assms] unfolding port_action_handle_flush_def by blast
  with afl.upd_list [OF d(2) assms(2)] action_flush_kept [OF d(1)] action_flush_calls [OF d(1)]
  show ?thesis by auto
qed

text \<open>Querying an indirect action answers in exactly four ways: an invalid port or an unknown
  identifier gives the invalid-argument code and leaves the state alone, a known action of a type
  other than age, count and quota gives the not-supported code and leaves the state alone, a
  driver failure gives its complaint and no report, and otherwise the code is zero and the report
  is the one of the action's type; only the device can have changed.\<close>

theorem action_handle_query_outcomes:
  assumes "port_action_handle_query api pid i s = Some (r, rep, s')" "devs_in_range s"
  shows "(if bad_port s pid \<or> i \<notin> pia_id ` set (actions_list (ports s ! unat pid))
          then r = - EINVAL \<and> rep = None \<and> s' = s
          else \<exists>a \<in> set (actions_list (ports s ! unat pid)). pia_id a = i \<and>
             (if \<not> action_can_query (pia_type a) then r = - ENOTSUP \<and> rep = None \<and> s' = s
              else \<exists>rc q d. rte_flow_action_query api pid (pia_handle a) (dev s) = (rc, q, d) \<and>
                s' = s\<lparr>dev := d\<rparr> \<and>
                (if rc \<noteq> 0 then r = - rte_errno api d \<and> rep = None
                 else r = 0 \<and> rep \<in> {Some (AgeReport q), Some (CountReport q), Some (QuotaReport i q)})))"
proof (cases "bad_port s pid")
  case True
  with assms show ?thesis by (simp add: port_action_handle_query_def action_get_by_id_def)
next
  case False
  with assms(2) have pg: "port_get s pid = Some (ports s ! unat pid)"
    using good_port_get by (metis option.distinct(1) port_get_def)
  show ?thesis
  proof (cases "find (\<lambda>a. pia_id a = i) (actions_list (ports s ! unat pid))")
    case None
    with assms False pg show ?thesis
      by (auto simp: port_action_handle_query_def action_get_by_id_def find_None_key)
  next
    case (Some a)
    obtain rc q d where c: "rte_flow_action_query api pid (pia_handle a) (dev s) = (rc, q, d)"
      by (cases "rte_flow_action_query api pid (pia_handle a) (dev s)")
    have a: "a \<in> set (actions_list (ports s ! unat pid))" "pia_id a = i"
      using find_SomeD [OF Some] by auto
    have "port_action_handle_query api pid i s =
      (if \<not> action_can_query (pia_type a) then Some (- ENOTSUP, None, s)
       else if rc \<noteq> 0 then Some (- rte_errno api d, None, s\<lparr>dev := d\<rparr>)
       else Some (0, Some (port_action_handle_query_dump pid a q), s\<lparr>dev := d\<rparr>))"
      using Some False pg c
      by (simp add: port_action_handle_query_def action_get_by_id_def port_flow_complain_def Let_def)
    moreover have "action_can_query (pia_type a) \<Longrightarrow> Some (port_action_handle_query_dump pid a q)
        \<in> {Some (AgeReport q), Some (CountReport q), Some (QuotaReport i q)}"
      using a(2) by (auto simp: action_can_query_def port_action_handle_query_dump_def)
    ultimately show ?thesis using assms(1) False a c by (auto split: if_splits)
  qed
qed

end
