(* ===== verification/FlowTunnels.thy ===== *)
theory FlowTunnels
  imports IndirectActions
begin

text \<open>
  Tunnel offload objects of a port (\<^verbatim>\<open>port_flow_tunnel_*\<close>, \<^verbatim>\<open>port_flow_locate_tunnel*\<close> of
  \<^verbatim>\<open>config.c\<close>): creation with one object per tunnel type, lookup, removal, and the pair of
  functions that extend a rule's pattern and actions by the driver's own items and actions and
  release them again.  None of these functions checks its port, so an index outside the port
  array is undefined behaviour.  A pattern or an action array ends at its \<^verbatim>\<open>END\<close> element; an
  array without one is read past its end, which is undefined behaviour as well.
\<close>

record tunnel_ops =
  ops_id :: u32
  ops_type :: string
  ops_enabled :: bool
  ops_actions :: bool
  ops_items :: bool

record 'd tun_api = "'d act_api" +
  rte_flow_tunnel_decap_set :: "u16 \<Rightarrow> rte_flow_tunnel \<Rightarrow> 'd \<Rightarrow> int \<times> rte_flow_action list \<times> 'd"
  rte_flow_tunnel_match :: "u16 \<Rightarrow> rte_flow_tunnel \<Rightarrow> 'd \<Rightarrow> int \<times> rte_flow_item list \<times> 'd"
  rte_flow_tunnel_action_decap_release ::
    "u16 \<Rightarrow> rte_flow_action list option \<Rightarrow> nat \<Rightarrow> 'd \<Rightarrow> 'd"
  rte_flow_tunnel_item_release :: "u16 \<Rightarrow> rte_flow_item list option \<Rightarrow> nat \<Rightarrow> 'd \<Rightarrow> 'd"

text \<open>An array up to and including its end marker.\<close>

fun upto_end :: "('e \<Rightarrow> bool) \<Rightarrow> 'e list \<Rightarrow> 'e list option" where
  "upto_end fin [] = None"
| "upto_end fin (x # xs) = (if fin x then Some [x] else map_option ((#) x) (upto_end fin xs))"

abbreviation items_upto_end :: "rte_flow_item list \<Rightarrow> rte_flow_item list option" where
  "items_upto_end \<equiv> upto_end (\<lambda>i. item_type i = RTE_FLOW_ITEM_TYPE_END)"

abbreviation actions_upto_end :: "rte_flow_action list \<Rightarrow> rte_flow_action list option" where
  "actions_upto_end \<equiv> upto_end (\<lambda>a. act_type a = RTE_FLOW_ACTION_TYPE_END)"

section \<open>Tunnel objects\<close>

definition port_flow_locate_tunnel_id :: "rte_port \<Rightarrow> u32 \<Rightarrow> port_flow_tunnel option" where
  "port_flow_locate_tunnel_id port i = find (\<lambda>t. ft_id t = i) (flow_tunnel_list port)"

definition port_flow_tunnel_type :: "rte_flow_tunnel \<Rightarrow> string" where
  "port_flow_tunnel_type tunnel =
     (case tun_type tunnel of
        RTE_FLOW_ITEM_TYPE_VXLAN \<Rightarrow> ''vxlan''
      | RTE_FLOW_ITEM_TYPE_GRE \<Rightarrow> ''gre''
      | RTE_FLOW_ITEM_TYPE_NVGRE \<Rightarrow> ''nvgre''
      | RTE_FLOW_ITEM_TYPE_GENEVE \<Rightarrow> ''geneve''
      | _ \<Rightarrow> ''unknown'')"

definition port_flow_locate_tunnel ::
  "u16 \<Rightarrow> rte_flow_tunnel \<Rightarrow> 'd st \<Rightarrow> port_flow_tunnel option option" where
  "port_flow_locate_tunnel pid tun s = do {
     port \<leftarrow> port_get s pid;
     Some (find (\<lambda>t. ft_tunnel t = tun) (flow_tunnel_list port))
   }"

text \<open>The printed rows: port, identifier, type name, and the tunnel's own identifier unless 0.\<close>

definition port_flow_tunnel_list ::
  "u16 \<Rightarrow> 'd st \<Rightarrow> (u16 \<times> u32 \<times> string \<times> u64 option) list option" where
  "port_flow_tunnel_list pid s = do {
     port \<leftarrow> port_get s pid;
     Some (map (\<lambda>t. (pid, ft_id t, port_flow_tunnel_type (ft_tunnel t),
                     if tun_id (ft_tunnel t) \<noteq> 0 then Some (tun_id (ft_tunnel t)) else None))
             (flow_tunnel_list port))
   }"

text \<open>Unlinking the first node that satisfies the loop's test.\<close>

fun remove_first :: "('n \<Rightarrow> bool) \<Rightarrow> 'n list \<Rightarrow> 'n list" where
  "remove_first P [] = []"
| "remove_first P (x # xs) = (if P x then xs else x # remove_first P xs)"

definition port_flow_tunnel_destroy :: "u16 \<Rightarrow> u32 \<Rightarrow> 'd st \<Rightarrow> 'd st option" where
  "port_flow_tunnel_destroy pid i s = do {
     _ \<leftarrow> port_get s pid;
     Some (port_upd pid (flow_tunnel_list_update (remove_first (\<lambda>t. ft_id t = i))) s)
   }"

definition tunnel_item_type :: "string \<Rightarrow> rte_flow_item_type option" where
  "tunnel_item_type ty =
     (if ty = ''vxlan'' then Some RTE_FLOW_ITEM_TYPE_VXLAN
      else if ty = ''gre'' then Some RTE_FLOW_ITEM_TYPE_GRE
      else if ty = ''nvgre'' then Some RTE_FLOW_ITEM_TYPE_NVGRE
      else if ty = ''geneve'' then Some RTE_FLOW_ITEM_TYPE_GENEVE
      else None)"

definition new_tunnel :: "nat \<Rightarrow> u32 \<Rightarrow> rte_flow_item_type \<Rightarrow> port_flow_tunnel" where
  "new_tunnel a i ty =
     \<lparr>ft_addr = a, ft_id = i, ft_tunnel = \<lparr>tun_type = ty, tun_id = 0\<rparr>, ft_pmd_actions = [],
      ft_pmd_items = [], ft_actions = None, ft_items = None\<rparr>"

definition port_flow_tunnel_create ::
  "('d, 'z) base_api_scheme \<Rightarrow> u16 \<Rightarrow> tunnel_ops \<Rightarrow> 'd st \<Rightarrow> 'd st option" where
  "port_flow_tunnel_create api pid ops s =
     (case tunnel_item_type (ops_type ops) of
        None \<Rightarrow> Some s
      | Some ty \<Rightarrow> do {
          port \<leftarrow> port_get s pid;
          (case find (\<lambda>t. tun_type (ft_tunnel t) = ty) (flow_tunnel_list port) of
             Some _ \<Rightarrow> Some s
           | None \<Rightarrow>
               (case c_calloc api s of (ok, s1) \<Rightarrow>
                  if \<not> ok then Some s1
                  else (let i = (case flow_tunnel_list port of [] \<Rightarrow> 1 | t # _ \<Rightarrow> ft_id t + 1) in
                    Some (port_upd pid (flow_tunnel_list_update ((#) (new_tunnel (brk s1) i ty)))
                            (s1\<lparr>brk := Suc (brk s1)\<rparr>)))))
        })"

section \<open>Offload of one rule\<close>

definition tunnel_upd ::
  "u16 \<Rightarrow> nat \<Rightarrow> (port_flow_tunnel \<Rightarrow> port_flow_tunnel) \<Rightarrow> 'd st \<Rightarrow> 'd st" where
  "tunnel_upd pid a f s = port_upd pid (flow_tunnel_list_update (set_at ft_addr a f)) s"

text \<open>
  The two halves of the preparation.  Each returns the tunnel with what was written into it, or
  nothing when the function returns a null pointer.
\<close>

definition tunnel_prep_actions ::
  "('d, 'z) tun_api_scheme \<Rightarrow> u16 \<Rightarrow> rte_flow_action list \<Rightarrow> port_flow_tunnel \<Rightarrow> 'd st
    \<Rightarrow> (port_flow_tunnel option \<times> 'd st) option" where
  "tunnel_prep_actions api pid actions pft s =
     (case rte_flow_tunnel_decap_set api pid (ft_tunnel pft) (dev s) of (ret, pmd, d) \<Rightarrow>
        (let pft1 = pft\<lparr>ft_pmd_actions := pmd\<rparr>;
             s1 = tunnel_upd pid (ft_addr pft) (\<lambda>_. pft1) (s\<lparr>dev := d\<rparr>) in
         if ret \<noteq> 0 then Some (None, s1)
         else do {
           acts \<leftarrow> actions_upto_end actions;
           (case c_calloc api s1 of (ok, s2) \<Rightarrow>
              (let pft2 = pft1\<lparr>ft_actions := if ok then Some (pmd @ acts) else None\<rparr>;
                   s3 = tunnel_upd pid (ft_addr pft) (\<lambda>_. pft2) s2 in
               if \<not> ok
               then Some (None, s3\<lparr>dev := rte_flow_tunnel_action_decap_release api pid
                                            (ft_actions pft2) (length pmd) (dev s3)\<rparr>)
               else Some (Some pft2, s3)))
         }))"

definition tunnel_prep_items ::
  "('d, 'z) tun_api_scheme \<Rightarrow> u16 \<Rightarrow> rte_flow_item list \<Rightarrow> port_flow_tunnel \<Rightarrow> 'd st
    \<Rightarrow> (port_flow_tunnel option \<times> 'd st) option" where
  "tunnel_prep_items api pid pattern pft s =
     (case rte_flow_tunnel_match api pid (ft_tunnel pft) (dev s) of (ret, pmd, d) \<Rightarrow>
        (let pft1 = pft\<lparr>ft_pmd_items := pmd\<rparr>;
             s1 = tunnel_upd pid (ft_addr pft) (\<lambda>_. pft1) (s\<lparr>dev := d\<rparr>) in
         if ret \<noteq> 0 then Some (None, s1)
         else do {
           its \<leftarrow> items_upto_end pattern;
           (case c_calloc api s1 of (ok, s2) \<Rightarrow>
              (let pft2 = pft1\<lparr>ft_items := if ok then Some (pmd @ its) else None\<rparr>;
                   s3 = tunnel_upd pid (ft_addr pft) (\<lambda>_. pft2) s2 in
               if \<not> ok
               then Some (None, s3\<lparr>dev := rte_flow_tunnel_item_release api pid
                                            (Some pmd) (length pmd) (dev s3)\<rparr>)
               else Some (Some pft2, s3)))
         }))"

definition port_flow_tunnel_offload_cmd_prep ::
  "('d, 'z) tun_api_scheme \<Rightarrow> u16 \<Rightarrow> rte_flow_item list \<Rightarrow> rte_flow_action list \<Rightarrow> tunnel_ops
    \<Rightarrow> 'd st \<Rightarrow> (port_flow_tunnel option \<times> 'd st) option" where
  "port_flow_tunnel_offload_cmd_prep api pid pattern actions ops s = do {
     port \<leftarrow> port_get s pid;
     (case port_flow_locate_tunnel_id port (ops_id ops) of
        None \<Rightarrow> Some (None, s)
      | Some pft \<Rightarrow> do {
          (pft1, s1) \<leftarrow> (if ops_actions ops then tunnel_prep_actions api pid actions pft s
                        else Some (Some pft, s));
          (case pft1 of
             None \<Rightarrow> Some (None, s1)
           | Some t \<Rightarrow> if ops_items ops then tunnel_prep_items api pid pattern t s1
                       else Some (Some t, s1))
        })
   }"

definition port_flow_tunnel_offload_cmd_release ::
  "('d, 'z) tun_api_scheme \<Rightarrow> u16 \<Rightarrow> tunnel_ops \<Rightarrow> port_flow_tunnel \<Rightarrow> 'd st \<Rightarrow> 'd st" where
  "port_flow_tunnel_offload_cmd_release api pid ops pft s =
     (let s1 = (if ops_actions ops
                then tunnel_upd pid (ft_addr pft) (\<lambda>t. t\<lparr>ft_actions := None, ft_pmd_actions := []\<rparr>)
                       (s\<lparr>dev := rte_flow_tunnel_action_decap_release api pid
                                   (Some (ft_pmd_actions pft)) (length (ft_pmd_actions pft)) (dev s)\<rparr>)
                else s) in
      if ops_items ops
      then tunnel_upd pid (ft_addr pft) (\<lambda>t. t\<lparr>ft_items := None, ft_pmd_items := []\<rparr>)
             (s1\<lparr>dev := rte_flow_tunnel_item_release api pid
                          (Some (ft_pmd_items pft)) (length (ft_pmd_items pft)) (dev s1)\<rparr>)
      else s1)"

section \<open>Lemmas\<close>

lemma upto_end_prefix: "upto_end fin xs = Some ys \<Longrightarrow> \<exists>zs. xs = ys @ zs"
  by (induction xs arbitrary: ys) (auto split: if_splits)

lemma upto_end_last:
  "upto_end fin xs = Some ys \<Longrightarrow> ys \<noteq> [] \<and> fin (last ys) \<and> (\<forall>y \<in> set (butlast ys). \<not> fin y)"
  by (induction xs arbitrary: ys) (auto split: if_splits)

text \<open>
  A state change of the tunnel functions: the tunnel list of one port and the device.
\<close>

definition tunnel_frame :: "u16 \<Rightarrow> 'd st \<Rightarrow> 'd st \<Rightarrow> bool" where
  "tunnel_frame pid s s' \<longleftrightarrow> (\<exists>f d. s' = port_upd pid (flow_tunnel_list_update f) (s\<lparr>dev := d\<rparr>))"

lemma tunnel_frameI:
  "s' = port_upd pid (flow_tunnel_list_update f) (s\<lparr>dev := d\<rparr>) \<Longrightarrow> tunnel_frame pid s s'"
  by (auto simp: tunnel_frame_def)

lemma tunnel_frameE:
  assumes "tunnel_frame pid s s'"
  obtains f d where "s' = port_upd pid (flow_tunnel_list_update f) (s\<lparr>dev := d\<rparr>)"
  using assms by (auto simp: tunnel_frame_def)

lemma tunnel_frame_refl [simp]: "tunnel_frame pid s s"
proof -
  have "flow_tunnel_list_update (\<lambda>l. l) = (\<lambda>p :: rte_port. p)" by (rule ext) simp
  then show ?thesis
    by (intro tunnel_frameI [where f = "\<lambda>l. l" and d = "dev s"]) (simp add: port_upd_same)
qed

lemma tunnel_frame_dev: "tunnel_frame pid s t \<Longrightarrow> tunnel_frame pid s (t\<lparr>dev := d\<rparr>)"
  by (erule tunnel_frameE, rule tunnel_frameI) (simp add: port_upd_dev)

lemma tunnel_frame_upd: "tunnel_frame pid s t \<Longrightarrow> tunnel_frame pid s (tunnel_upd pid a f t)"
proof -
  assume "tunnel_frame pid s t"
  then obtain g d where "t = port_upd pid (flow_tunnel_list_update g) (s\<lparr>dev := d\<rparr>)"
    by (rule tunnel_frameE)
  then have "tunnel_upd pid a f t =
      port_upd pid (flow_tunnel_list_update (set_at ft_addr a f \<circ> g)) (s\<lparr>dev := d\<rparr>)"
    by (simp add: tunnel_upd_def port_upd_upd o_def)
  then show ?thesis by (rule tunnel_frameI)
qed

lemma tunnel_frame_trans:
  assumes "tunnel_frame pid s t" "tunnel_frame pid t u"
  shows "tunnel_frame pid s u"
proof -
  obtain f d where t: "t = port_upd pid (flow_tunnel_list_update f) (s\<lparr>dev := d\<rparr>)"
    using assms(1) by (rule tunnel_frameE)
  obtain g e where u: "u = port_upd pid (flow_tunnel_list_update g) (t\<lparr>dev := e\<rparr>)"
    using assms(2) by (rule tunnel_frameE)
  have "u = port_upd pid (flow_tunnel_list_update (g \<circ> f)) (s\<lparr>dev := e\<rparr>)"
    unfolding u t port_upd_dev by (simp add: port_upd_upd o_def)
  then show ?thesis by (rule tunnel_frameI)
qed

lemma tunnel_frame_calloc:
  "tunnel_frame pid s t \<Longrightarrow> c_calloc api t = (ok, u) \<Longrightarrow> tunnel_frame pid s u"
  by (auto simp: c_calloc_def intro: tunnel_frame_dev split: prod.splits)

lemmas tunnel_frame_intros = tunnel_frame_upd tunnel_frame_dev

lemma tunnel_frame_port:
  assumes "tunnel_frame pid s s'"
  shows "port_get s pid = Some p \<Longrightarrow> \<exists>l. port_get s' pid = Some (p\<lparr>flow_tunnel_list := l\<rparr>)"
    "q \<noteq> pid \<Longrightarrow> port_get s' q = port_get s q"
    "length (ports s') = length (ports s)" "eth_devs s' = eth_devs s" "jobs s' = jobs s"
    "unlinked_flows s' = unlinked_flows s" "unlinked_actions s' = unlinked_actions s"
    "brk s' = brk s" "age_context s' = age_context s"
proof -
  obtain f d where s': "s' = port_upd pid (flow_tunnel_list_update f) (s\<lparr>dev := d\<rparr>)"
    using assms by (auto simp: tunnel_frame_def)
  show "\<exists>l. port_get s' pid = Some (p\<lparr>flow_tunnel_list := l\<rparr>)" if "port_get s pid = Some p"
    using that by (auto simp: s' port_get_upd intro!: exI [of _ "f (flow_tunnel_list p)"])
qed (use assms in \<open>auto simp: tunnel_frame_def port_get_upd\<close>)

lemma tunnel_prep_actions_frame:
  assumes res: "tunnel_prep_actions api pid actions pft s = Some (r, s')"
  shows "tunnel_frame pid s s'"
proof -
  obtain ret pmd d where dc: "rte_flow_tunnel_decap_set api pid (ft_tunnel pft) (dev s) = (ret, pmd, d)"
    by (cases "rte_flow_tunnel_decap_set api pid (ft_tunnel pft) (dev s)")
  define s1 where "s1 = tunnel_upd pid (ft_addr pft) (\<lambda>_. pft\<lparr>ft_pmd_actions := pmd\<rparr>) (s\<lparr>dev := d\<rparr>)"
  have f1: "tunnel_frame pid s s1" unfolding s1_def by (intro tunnel_frame_intros tunnel_frame_refl)
  obtain ok s2 where c: "c_calloc api s1 = (ok, s2)" by (cases "c_calloc api s1")
  have f2: "tunnel_frame pid s s2" using f1 c by (rule tunnel_frame_calloc)
  show ?thesis
  proof (cases "ret = 0")
    case False
    with res dc have "s' = s1" by (simp add: tunnel_prep_actions_def Let_def s1_def)
    with f1 show ?thesis by simp
  next
    case True
    note e = res [unfolded tunnel_prep_actions_def dc prod.case Let_def, folded s1_def]
    obtain acts where "actions_upto_end actions = Some acts"
      using e True by (cases "actions_upto_end actions") simp_all
    with e True c f2 show ?thesis
      by (cases ok) (simp, blast intro: tunnel_frame_intros)+
  qed
qed

lemma tunnel_prep_items_frame:
  assumes res: "tunnel_prep_items api pid pattern pft s = Some (r, s')"
  shows "tunnel_frame pid s s'"
proof -
  obtain ret pmd d where dc: "rte_flow_tunnel_match api pid (ft_tunnel pft) (dev s) = (ret, pmd, d)"
    by (cases "rte_flow_tunnel_match api pid (ft_tunnel pft) (dev s)")
  define s1 where "s1 = tunnel_upd pid (ft_addr pft) (\<lambda>_. pft\<lparr>ft_pmd_items := pmd\<rparr>) (s\<lparr>dev := d\<rparr>)"
  have f1: "tunnel_frame pid s s1" unfolding s1_def by (intro tunnel_frame_intros tunnel_frame_refl)
  obtain ok s2 where c: "c_calloc api s1 = (ok, s2)" by (cases "c_calloc api s1")
  have f2: "tunnel_frame pid s s2" using f1 c by (rule tunnel_frame_calloc)
  show ?thesis
  proof (cases "ret = 0")
    case False
    with res dc have "s' = s1" by (simp add: tunnel_prep_items_def Let_def s1_def)
    with f1 show ?thesis by simp
  next
    case True
    note e = res [unfolded tunnel_prep_items_def dc prod.case Let_def, folded s1_def]
    obtain its where "items_upto_end pattern = Some its"
      using e True by (cases "items_upto_end pattern") simp_all
    with e True c f2 show ?thesis
      by (cases ok) (simp, blast intro: tunnel_frame_intros)+
  qed
qed

lemma offload_prep_frame:
  assumes "port_flow_tunnel_offload_cmd_prep api pid pattern actions ops s = Some (r, s')"
  shows "tunnel_frame pid s s'"
proof -
  obtain p where p: "port_get s pid = Some p"
    using assms by (cases "port_get s pid") (simp_all add: port_flow_tunnel_offload_cmd_prep_def)
  show ?thesis
  proof (cases "port_flow_locate_tunnel_id p (ops_id ops)")
    case None
    with assms p show ?thesis by (simp add: port_flow_tunnel_offload_cmd_prep_def)
  next
    case (Some pft)
    let ?pa = "if ops_actions ops then tunnel_prep_actions api pid actions pft s else Some (Some pft, s)"
    obtain t1 s1 where a: "?pa = Some (t1, s1)"
      using assms p Some by (cases ?pa) (auto simp: port_flow_tunnel_offload_cmd_prep_def)
    have f1: "tunnel_frame pid s s1"
      using a by (auto split: if_splits dest: tunnel_prep_actions_frame)
    show ?thesis
    proof (cases t1)
      case None
      with a assms p Some f1 show ?thesis
        by (simp add: port_flow_tunnel_offload_cmd_prep_def split: if_splits)
    next
      case (Some t)
      have "(if ops_items ops then tunnel_prep_items api pid pattern t s1 else Some (Some t, s1))
          = Some (r, s')"
        using a assms p \<open>port_flow_locate_tunnel_id p (ops_id ops) = Some pft\<close> Some
        by (simp add: port_flow_tunnel_offload_cmd_prep_def split: if_splits)
      with f1 show ?thesis
        by (auto split: if_splits dest: tunnel_prep_items_frame intro: tunnel_frame_trans)
    qed
  qed
qed

lemma offload_release_frame:
  "tunnel_frame pid s (port_flow_tunnel_offload_cmd_release api pid ops pft s)"
  by (auto simp: port_flow_tunnel_offload_cmd_release_def Let_def
      intro!: tunnel_frame_intros tunnel_frame_refl)

abbreviation tunnel_kinds :: "port_flow_tunnel list \<Rightarrow> rte_flow_item_type list" where
  "tunnel_kinds l \<equiv> map (\<lambda>t. tun_type (ft_tunnel t)) l"

section \<open>Properties\<close>

text \<open>Creating a tunnel object keeps at most one object per tunnel type on a port.  For a
  supported type and a successful allocation the port ends up with an object of that type, whose
  printed type name is the requested one; an object that was already there is kept and used, a
  new one is put in front of the others.  No other port changes.\<close>

theorem tunnel_create_unique:
  assumes p: "port_get s pid = Some p" and ty: "tunnel_item_type (ops_type ops) = Some ty"
    and d: "distinct (tunnel_kinds (flow_tunnel_list p))" and ok: "fst (calloc api (dev s))"
  shows "\<exists>s' l t. port_flow_tunnel_create api pid ops s = Some s' \<and>
     port_get s' pid = Some (p\<lparr>flow_tunnel_list := l\<rparr>) \<and> distinct (tunnel_kinds l) \<and>
     t \<in> set l \<and> port_flow_tunnel_type (ft_tunnel t) = ops_type ops \<and>
     (l = flow_tunnel_list p \<or> l = t # flow_tunnel_list p) \<and>
     (\<forall>q. q \<noteq> pid \<longrightarrow> port_get s' q = port_get s q)"
proof -
  have nm: "port_flow_tunnel_type tn = ops_type ops" if "tun_type tn = ty" for tn
    using ty that by (auto simp: tunnel_item_type_def port_flow_tunnel_type_def split: if_splits)
  show ?thesis
  proof (cases "find (\<lambda>t. tun_type (ft_tunnel t) = ty) (flow_tunnel_list p)")
    case (Some t)
    with find_SomeD [OF Some] p ty d nm show ?thesis
      by (intro exI [of _ s] exI [of _ "flow_tunnel_list p"] exI [of _ t])
         (simp add: port_flow_tunnel_create_def)
  next
    case None
    obtain e where c: "calloc api (dev s) = (True, e)" using ok by (cases "calloc api (dev s)") auto
    define t where "t = new_tunnel (brk s) (case flow_tunnel_list p of [] \<Rightarrow> 1 | t # _ \<Rightarrow> ft_id t + 1) ty"
    let ?s = "port_upd pid (flow_tunnel_list_update ((#) t)) (s\<lparr>dev := e, brk := Suc (brk s)\<rparr>)"
    have "port_flow_tunnel_create api pid ops s = Some ?s"
      using None p ty c by (simp add: port_flow_tunnel_create_def c_calloc_def t_def)
    moreover have "tun_type (ft_tunnel t) = ty" by (simp add: t_def new_tunnel_def)
    moreover have "ty \<notin> set (tunnel_kinds (flow_tunnel_list p))" using None by (auto simp: find_None_iff)
    ultimately show ?thesis using p d nm
      by (intro exI [of _ ?s] exI [of _ "t # flow_tunnel_list p"] exI [of _ t])
         (simp add: port_get_upd)
  qed
qed

end
