(* ===== verification/FlowRules.thy ===== *)
theory FlowRules
  imports FlowTunnels "HOL-Library.Product_Lexorder"
begin

text \<open>
  Synchronous flow rules of a port (\<^verbatim>\<open>port_flow_new\<close>, \<^verbatim>\<open>port_flow_validate\<close>, \<^verbatim>\<open>age_action_get\<close>,
  \<^verbatim>\<open>port_flow_create\<close>, \<^verbatim>\<open>port_flow_destroy\<close>, \<^verbatim>\<open>port_flow_flush\<close>, \<^verbatim>\<open>port_flow_dump\<close>,
  \<^verbatim>\<open>port_flow_query\<close>, \<^verbatim>\<open>port_flow_aged\<close>, \<^verbatim>\<open>port_flow_list\<close>, \<^verbatim>\<open>port_flow_isolate\<close> of
  \<^verbatim>\<open>config.c\<close>).  The rules of a port are a list with the newest rule, which has the highest
  identifier, at its head.
\<close>

text \<open>
  The calls of the driver library.  The size and the copy of a rule description are two uses of
  \<^verbatim>\<open>rte_flow_conv\<close>; the copy is the description stored in the rule.  The contexts of aged rules are
  what the code stored with the age actions, or null.
\<close>

record 'd flow_api = "'d tun_api" +
  rte_flow_conv_size :: "rte_flow_conv_rule \<Rightarrow> 'd \<Rightarrow> int \<times> 'd"
  rte_flow_conv_copy :: "rte_flow_conv_rule \<Rightarrow> 'd \<Rightarrow> int \<times> rte_flow_conv_rule \<times> 'd"
  rte_flow_conv_item_name :: "rte_flow_item_type \<Rightarrow> string option"
  rte_flow_conv_action_name :: "rte_flow_action_type \<Rightarrow> string option"
  rte_flow_conv_query_name :: "rte_flow_action_type \<Rightarrow> 'd \<Rightarrow> int \<times> 'd"
  rte_flow_validate ::
    "u16 \<Rightarrow> rte_flow_attr \<Rightarrow> rte_flow_item list \<Rightarrow> rte_flow_action list \<Rightarrow> 'd \<Rightarrow> int \<times> 'd"
  rte_flow_create ::
    "u16 \<Rightarrow> rte_flow_attr \<Rightarrow> rte_flow_item list \<Rightarrow> rte_flow_action list \<Rightarrow> (u64 \<Rightarrow> age_ctx option)
      \<Rightarrow> 'd \<Rightarrow> handle \<times> 'd"
  rte_flow_destroy :: "u16 \<Rightarrow> handle \<Rightarrow> 'd \<Rightarrow> int \<times> 'd"
  rte_flow_flush :: "u16 \<Rightarrow> 'd \<Rightarrow> int \<times> 'd"
  rte_flow_query_rule :: "u16 \<Rightarrow> handle \<Rightarrow> rte_flow_action \<Rightarrow> 'd \<Rightarrow> int \<times> u64 \<times> 'd"
  rte_flow_get_aged_count :: "u16 \<Rightarrow> 'd \<Rightarrow> int \<times> 'd"
  rte_flow_get_aged_flows :: "u16 \<Rightarrow> nat \<Rightarrow> 'd \<Rightarrow> int \<times> age_ctx option list \<times> 'd"
  rte_flow_isolate :: "u16 \<Rightarrow> int \<Rightarrow> 'd \<Rightarrow> int \<times> 'd"
  rte_flow_dev_dump :: "u16 \<Rightarrow> handle \<Rightarrow> string option \<Rightarrow> 'd \<Rightarrow> int \<times> 'd"
  fopen_write :: "string \<Rightarrow> 'd \<Rightarrow> bool \<times> int \<times> 'd"
  fclose_file :: "string \<Rightarrow> 'd \<Rightarrow> 'd"

section \<open>Creation\<close>

text \<open>
  A new rule or null.  The node is zeroed, its identifiers and driver object included; the
  error number of a failed \<^verbatim>\<open>calloc\<close> is \<^verbatim>\<open>ENOMEM\<close>.
\<close>

definition port_flow_new ::
  "('d, 'z) flow_api_scheme \<Rightarrow> rte_flow_attr \<Rightarrow> rte_flow_item list \<Rightarrow> rte_flow_action list \<Rightarrow> 'd st
    \<Rightarrow> port_flow option \<times> 'd st" where
  "port_flow_new api attr pattern actions s =
     (let rule = \<lparr>rule_attr = attr, rule_pattern = pattern, rule_actions = actions\<rparr> in
      case rte_flow_conv_size api rule (dev s) of (ret, d1) \<Rightarrow>
        (let s1 = s\<lparr>dev := d1\<rparr> in
         if ret < 0 then (None, s1)
         else (case c_calloc api s1 of (ok, s2) \<Rightarrow>
           if \<not> ok then (None, s2\<lparr>dev := rte_flow_error_set api ENOMEM (dev s2)\<rparr>)
           else (case rte_flow_conv_copy api rule (dev s2) of (ret2, copy, d3) \<Rightarrow>
             if ret2 \<ge> 0
             then (Some \<lparr>pf_addr = brk s2, pf_id = 0, pf_user_id = 0, pf_table = None, pf_flow = 0,
                         pf_rule = copy, pf_age_type = ACTION_AGE_CONTEXT_TYPE_FLOW\<rparr>,
                   s2\<lparr>dev := d3, brk := Suc (brk s2)\<rparr>)
             else (None, s2\<lparr>dev := d3\<rparr>)))))"

text \<open>The configuration of the first age action before the end marker.\<close>

fun age_action_get :: "rte_flow_action list \<Rightarrow> u64 option option" where
  "age_action_get [] = None"
| "age_action_get (a # as) =
     (if act_type a = RTE_FLOW_ACTION_TYPE_END then Some None
      else if act_type a = RTE_FLOW_ACTION_TYPE_AGE then Some (Some (act_conf a))
      else age_action_get as)"

definition port_flow_validate ::
  "('d, 'z) flow_api_scheme \<Rightarrow> u16 \<Rightarrow> rte_flow_attr \<Rightarrow> rte_flow_item list \<Rightarrow> rte_flow_action list
    \<Rightarrow> tunnel_ops \<Rightarrow> 'd st \<Rightarrow> (int \<times> 'd st) option" where
  "port_flow_validate api pid attr pattern actions ops s =
     (if \<not> ops_enabled ops
      then (case rte_flow_validate api pid attr pattern actions (dev s) of (ret, d) \<Rightarrow>
              (let s1 = s\<lparr>dev := d\<rparr> in
               Some (if ret \<noteq> 0 then port_flow_complain api s1 else 0, s1)))
      else do {
        (pft, s1) \<leftarrow> port_flow_tunnel_offload_cmd_prep api pid pattern actions ops s;
        (case pft of
           None \<Rightarrow> Some (- ENOENT, s1)
         | Some t \<Rightarrow>
             (let pattern' = (case ft_items t of Some its \<Rightarrow> its | None \<Rightarrow> pattern);
                  actions' = (case ft_actions t of Some as \<Rightarrow> as | None \<Rightarrow> actions) in
              case rte_flow_validate api pid attr pattern' actions' (dev s1) of (ret, d) \<Rightarrow>
                (let s2 = port_flow_tunnel_offload_cmd_release api pid ops t (s1\<lparr>dev := d\<rparr>) in
                 Some (if ret \<noteq> 0 then port_flow_complain api s2 else 0, s2))))
      })"

text \<open>
  The identifier of the next rule: \<open>None\<close> when the head of the list has the highest one.  The
  identifier is computed in 32 bits from the 64-bit one of the head.
\<close>

definition next_flow_id :: "port_flow list \<Rightarrow> u32 option" where
  "next_flow_id fl =
     (case fl of
        [] \<Rightarrow> Some 0
      | f # _ \<Rightarrow> if pf_id f = 0xFFFFFFFF then None else Some (ucast (pf_id f + 1)))"

text \<open>Linking the rule and asking the driver, with the pattern and actions to be used.\<close>

definition flow_create_with ::
  "('d, 'z) flow_api_scheme \<Rightarrow> u16 \<Rightarrow> u32 \<Rightarrow> rte_flow_attr \<Rightarrow> rte_flow_item list \<Rightarrow> rte_flow_action list
    \<Rightarrow> u64 option \<Rightarrow> u64 \<Rightarrow> ('d st \<Rightarrow> 'd st) \<Rightarrow> 'd st \<Rightarrow> int \<times> 'd st" where
  "flow_create_with api pid i attr pattern actions age user_id release s =
     (case port_flow_new api attr pattern actions s of
        (None, s1) \<Rightarrow> (port_flow_complain api s1, s1)
      | (Some pf, s1) \<Rightarrow>
          (let s2 = (case age of
                       None \<Rightarrow> s1
                     | Some conf \<Rightarrow>
                         s1\<lparr>age_context := (age_context s1)(conf := Some (CtxFlow (pf_addr pf)))\<rparr>) in
           case rte_flow_create api pid attr pattern actions (age_context s2) (dev s2) of (flow, d) \<Rightarrow>
             (let s3 = s2\<lparr>dev := d\<rparr> in
              if flow = 0 then (let s4 = release s3 in (port_flow_complain api s4, s4))
              else (let pf' = pf\<lparr>pf_id := ucast i, pf_user_id := user_id, pf_flow := flow\<rparr> in
                    (0, release (port_upd pid (flow_list_update ((#) pf')) s3))))))"

definition port_flow_create ::
  "('d, 'z) flow_api_scheme \<Rightarrow> u16 \<Rightarrow> rte_flow_attr \<Rightarrow> rte_flow_item list \<Rightarrow> rte_flow_action list
    \<Rightarrow> tunnel_ops \<Rightarrow> u64 \<Rightarrow> 'd st \<Rightarrow> (int \<times> 'd st) option" where
  "port_flow_create api pid attr pattern actions ops user_id s = do {
     age \<leftarrow> age_action_get actions;
     port \<leftarrow> port_get s pid;
     (case next_flow_id (flow_list port) of
        None \<Rightarrow> Some (- ENOMEM, s)
      | Some i \<Rightarrow>
          if \<not> ops_enabled ops
          then Some (flow_create_with api pid i attr pattern actions age user_id (\<lambda>w. w) s)
          else do {
            (pft, s1) \<leftarrow> port_flow_tunnel_offload_cmd_prep api pid pattern actions ops s;
            (case pft of
               None \<Rightarrow> Some (- ENOENT, s1)
             | Some t \<Rightarrow>
                 Some (flow_create_with api pid i attr
                         (case ft_items t of Some its \<Rightarrow> its | None \<Rightarrow> pattern)
                         (case ft_actions t of Some as \<Rightarrow> as | None \<Rightarrow> actions)
                         age user_id (port_flow_tunnel_offload_cmd_release api pid ops t) s1))
          })
   }"

section \<open>Removal\<close>

definition flow_kill ::
  "('d, 'z) flow_api_scheme \<Rightarrow> u16 \<Rightarrow> port_flow \<Rightarrow> int \<Rightarrow> 'd st \<Rightarrow> outcome \<times> int \<times> 'd st" where
  "flow_kill api pid pf ret s =
     (case rte_flow_destroy api pid (pf_flow pf) (dev s) of (rc, d) \<Rightarrow>
        (let s' = s\<lparr>dev := d\<rparr> in
         if rc \<noteq> 0 then (Kept, port_flow_complain api s', s') else (Removed, ret, s')))"

definition flow_key :: "bool \<Rightarrow> port_flow \<Rightarrow> u64" where
  "flow_key is_user_id pf = (if is_user_id then pf_user_id pf else pf_id pf)"

definition port_flow_destroy ::
  "('d, 'z) flow_api_scheme \<Rightarrow> u16 \<Rightarrow> u64 list \<Rightarrow> bool \<Rightarrow> 'd st \<Rightarrow> (int \<times> 'd st) option" where
  "port_flow_destroy api pid rules is_user_id s =
     destroy_in (flow_kill api pid) (flow_key is_user_id) flow_list flow_list_update pid rules s"

definition port_flow_flush ::
  "('d, 'z) flow_api_scheme \<Rightarrow> u16 \<Rightarrow> 'd st \<Rightarrow> (int \<times> 'd st) option" where
  "port_flow_flush api pid s =
     (if bad_port s pid then Some (- EINVAL, s)
      else do {
        port \<leftarrow> port_get s pid;
        (if flow_list port = [] then Some (0, s)
         else (case rte_flow_flush api pid (dev s) of (rc, d) \<Rightarrow>
                 Some (0, port_upd pid (flow_list_update (\<lambda>_. [])) (s\<lparr>dev := d\<rparr>))))
      })"

section \<open>Dump, query, aging, isolation\<close>

definition port_flow_dump ::
  "('d, 'z) flow_api_scheme \<Rightarrow> u16 \<Rightarrow> bool \<Rightarrow> u64 \<Rightarrow> string option \<Rightarrow> bool \<Rightarrow> 'd st
    \<Rightarrow> (int \<times> 'd st) option" where
  "port_flow_dump api pid dump_all rule_id file_name is_user_id s =
     (if bad_port s pid then Some (- EINVAL, s)
      else do {
        tmp \<leftarrow> (if dump_all then Some 0
               else do {
                 port \<leftarrow> port_get s pid;
                 Some (case find (\<lambda>f. flow_key is_user_id f = rule_id) (flow_list port) of
                         Some f \<Rightarrow> pf_flow f
                       | None \<Rightarrow> 0)
               });
        (if \<not> dump_all \<and> tmp = 0 then Some (- EINVAL, s)
         else (case file_name of
             Some (c # cs) \<Rightarrow>
               (case fopen_write api (c # cs) (dev s) of (ok, err, d) \<Rightarrow>
                  if \<not> ok then Some (- err, s\<lparr>dev := d\<rparr>)
                  else (case rte_flow_dev_dump api pid tmp (Some (c # cs)) d of (ret, d') \<Rightarrow>
                          Some (ret, s\<lparr>dev := fclose_file api (c # cs) d'\<rparr>)))
           | _ \<Rightarrow>
               (case rte_flow_dev_dump api pid tmp None (dev s) of (ret, d) \<Rightarrow>
                  Some (ret, s\<lparr>dev := d\<rparr>))))
      })"

text \<open>The value printed for a queried rule: its action type and the query result.\<close>

definition flow_can_query :: "rte_flow_action_type \<Rightarrow> bool" where
  "flow_can_query ty \<longleftrightarrow>
     ty = RTE_FLOW_ACTION_TYPE_COUNT \<or> ty = RTE_FLOW_ACTION_TYPE_RSS \<or> ty = RTE_FLOW_ACTION_TYPE_AGE"

definition port_flow_query ::
  "('d, 'z) flow_api_scheme \<Rightarrow> u16 \<Rightarrow> u64 \<Rightarrow> rte_flow_action \<Rightarrow> bool \<Rightarrow> 'd st
    \<Rightarrow> (int \<times> (rte_flow_action_type \<times> u64) option \<times> 'd st) option" where
  "port_flow_query api pid rule action is_user_id s =
     (if bad_port s pid then Some (- EINVAL, None, s)
      else do {
        port \<leftarrow> port_get s pid;
        (case find (\<lambda>f. flow_key is_user_id f = rule) (flow_list port) of
           None \<Rightarrow> Some (- ENOENT, None, s)
         | Some pf \<Rightarrow>
             (case rte_flow_conv_query_name api (act_type action) (dev s) of (ret, d) \<Rightarrow>
                (let s1 = s\<lparr>dev := d\<rparr> in
                 if ret < 0 then Some (port_flow_complain api s1, None, s1)
                 else if \<not> flow_can_query (act_type action) then Some (- ENOTSUP, None, s1)
                 else (case rte_flow_query_rule api pid (pf_flow pf) action (dev s1) of (rc, q, d2) \<Rightarrow>
                         (let s2 = s1\<lparr>dev := d2\<rparr> in
                          if rc \<noteq> 0 then Some (port_flow_complain api s2, None, s2)
                          else Some (0, Some (act_type action, q), s2))))))
      })"

definition port_flow_isolate ::
  "('d, 'z) flow_api_scheme \<Rightarrow> u16 \<Rightarrow> int \<Rightarrow> 'd st \<Rightarrow> int \<times> 'd st" where
  "port_flow_isolate api pid on s =
     (case rte_flow_isolate api pid on (dev s) of (rc, d) \<Rightarrow>
        (let s' = s\<lparr>dev := d\<rparr> in (if rc \<noteq> 0 then port_flow_complain api s' else 0, s')))"

text \<open>Following a context: the node at its address, wherever it is linked or still allocated.\<close>

definition flow_at :: "'d st \<Rightarrow> nat \<Rightarrow> port_flow option" where
  "flow_at s a = find (\<lambda>f. pf_addr f = a) (concat (map flow_list (ports s)) @ unlinked_flows s)"

definition action_at :: "'d st \<Rightarrow> nat \<Rightarrow> port_indirect_action option" where
  "action_at s a =
     find (\<lambda>x. pia_addr x = a) (concat (map actions_list (ports s)) @ unlinked_actions s)"

text \<open>
  Destroying an aged rule passes a pointer to the identifier inside the rule itself.  Once the
  rule is freed, comparing the identifier with a further rule of the list reads freed memory.
\<close>

definition destroy_by_own_id ::
  "('d, 'z) flow_api_scheme \<Rightarrow> u16 \<Rightarrow> port_flow \<Rightarrow> 'd st \<Rightarrow> (int \<times> 'd st) option" where
  "destroy_by_own_id api pid pf s = do {
     port \<leftarrow> port_get s pid;
     (ret, s') \<leftarrow> port_flow_destroy api pid [pf_id pf] False s;
     port' \<leftarrow> port_get s' pid;
     (if pf \<in> set (flow_list port) \<and> pf \<notin> set (flow_list port') \<and> last (flow_list port) \<noteq> pf
      then None else Some (ret, s'))
   }"

text \<open>A printed row of the aged list, and the loop over the contexts with the destroy count.\<close>

datatype aged_row =
    AgedFlow u64 rte_flow_attr
  | AgedAction u32
  | NullContext

fun aged_loop ::
  "('d, 'z) flow_api_scheme \<Rightarrow> u16 \<Rightarrow> bool \<Rightarrow> nat \<Rightarrow> age_ctx option list \<Rightarrow> 'd st
    \<Rightarrow> (aged_row list \<times> nat \<times> 'd st) option" where
  "aged_loop api pid destroy 0 cs s = Some ([], 0, s)"
| "aged_loop api pid destroy (Suc n) [] s = None"
| "aged_loop api pid destroy (Suc n) (None # cs) s = do {
     (rows, k, s') \<leftarrow> aged_loop api pid destroy n cs s;
     Some (NullContext # rows, k, s')
   }"
| "aged_loop api pid destroy (Suc n) (Some (CtxFlow a) # cs) s = do {
     pf \<leftarrow> flow_at s a;
     (if pf_age_type pf \<noteq> ACTION_AGE_CONTEXT_TYPE_FLOW then None
      else do {
        (done1, s1) \<leftarrow> (if destroy
                       then do { (ret, s1) \<leftarrow> destroy_by_own_id api pid pf s; Some (ret = 0, s1) }
                       else Some (False, s));
        (rows, k, s2) \<leftarrow> aged_loop api pid destroy n cs s1;
        Some (AgedFlow (pf_id pf) (rule_attr (pf_rule pf)) # rows,
              (if done1 then Suc k else k), s2)
      })
   }"
| "aged_loop api pid destroy (Suc n) (Some (CtxAction a) # cs) s = do {
     pia \<leftarrow> action_at s a;
     (if pia_age_type pia \<noteq> ACTION_AGE_CONTEXT_TYPE_INDIRECT_ACTION then None
      else do {
        (rows, k, s') \<leftarrow> aged_loop api pid destroy n cs s;
        Some (AgedAction (pia_id pia) # rows, k, s')
      })
   }"

definition port_flow_aged ::
  "('d, 'z) flow_api_scheme \<Rightarrow> u16 \<Rightarrow> bool \<Rightarrow> 'd st \<Rightarrow> ((aged_row list \<times> nat) option \<times> 'd st) option" where
  "port_flow_aged api pid destroy s =
     (if bad_port s pid then Some (None, s)
      else (case rte_flow_get_aged_count api pid (dev s) of (tot, d) \<Rightarrow>
        (let s1 = s\<lparr>dev := d\<rparr> in
         if tot \<le> 0 then Some (None, s1)
         else (case c_calloc api s1 of (ok, s2) \<Rightarrow>
           if \<not> ok then Some (None, s2)
           else (case rte_flow_get_aged_flows api pid (nat tot) (dev s2) of (nb, cs, d2) \<Rightarrow>
             (let s3 = s2\<lparr>dev := d2\<rparr> in
              if nb \<noteq> tot then Some (None, s3)
              else do {
                (rows, k, s4) \<leftarrow> aged_loop api pid destroy (nat nb) cs s3;
                Some (Some (rows, k), s4)
              }))))))"

section \<open>Listing\<close>

text \<open>The comparison of the insertion loop: the current rule goes behind the compared one.\<close>

definition flow_after :: "port_flow \<Rightarrow> port_flow \<Rightarrow> bool" where
  "flow_after pf f =
     (let curr = rule_attr (pf_rule pf); comp = rule_attr (pf_rule f) in
      attr_group curr > attr_group comp \<or>
      (attr_group curr = attr_group comp \<and> attr_priority curr > attr_priority comp) \<or>
      (attr_group curr = attr_group comp \<and> attr_priority curr = attr_priority comp \<and>
       pf_id pf > pf_id f))"

fun insert_flow :: "port_flow \<Rightarrow> port_flow list \<Rightarrow> port_flow list" where
  "insert_flow pf [] = [pf]"
| "insert_flow pf (f # fs) = (if flow_after pf f then f # insert_flow pf fs else pf # f # fs)"

definition wanted_group :: "u32 list \<Rightarrow> port_flow \<Rightarrow> bool" where
  "wanted_group groups pf = (groups = [] \<or> attr_group (rule_attr (pf_rule pf)) \<in> set groups)"

fun sort_flows :: "u32 list \<Rightarrow> port_flow list \<Rightarrow> port_flow list \<Rightarrow> port_flow list" where
  "sort_flows groups [] acc = acc"
| "sort_flows groups (pf # fs) acc =
     sort_flows groups fs (if wanted_group groups pf then insert_flow pf acc else acc)"

definition item_name :: "('d, 'z) flow_api_scheme \<Rightarrow> rte_flow_item \<Rightarrow> string" where
  "item_name api item =
     (case item_type item of
        RTE_FLOW_ITEM_TYPE_OTHER n \<Rightarrow>
          (if n < 0 then ''PMD_INTERNAL''
           else case rte_flow_conv_item_name api (item_type item) of
                  Some nm \<Rightarrow> nm | None \<Rightarrow> ''[UNKNOWN]'')
      | _ \<Rightarrow> (case rte_flow_conv_item_name api (item_type item) of
                Some nm \<Rightarrow> nm | None \<Rightarrow> ''[UNKNOWN]''))"

definition action_name :: "('d, 'z) flow_api_scheme \<Rightarrow> rte_flow_action \<Rightarrow> string" where
  "action_name api action =
     (case act_type action of
        RTE_FLOW_ACTION_TYPE_OTHER n \<Rightarrow>
          (if n < 0 then ''PMD_INTERNAL''
           else case rte_flow_conv_action_name api (act_type action) of
                  Some nm \<Rightarrow> nm | None \<Rightarrow> ''[UNKNOWN]'')
      | _ \<Rightarrow> (case rte_flow_conv_action_name api (act_type action) of
                Some nm \<Rightarrow> nm | None \<Rightarrow> ''[UNKNOWN]''))"

text \<open>A printed row: the rule, and the names of its items and actions other than void.\<close>

definition flow_row ::
  "('d, 'z) flow_api_scheme \<Rightarrow> port_flow \<Rightarrow> (u64 \<times> rte_flow_attr \<times> string list \<times> string list) option" where
  "flow_row api pf = do {
     its \<leftarrow> items_upto_end (rule_pattern (pf_rule pf));
     as \<leftarrow> actions_upto_end (rule_actions (pf_rule pf));
     Some (pf_id pf, rule_attr (pf_rule pf),
           map (item_name api) (filter (\<lambda>i. item_type i \<noteq> RTE_FLOW_ITEM_TYPE_VOID) (butlast its)),
           map (action_name api)
             (filter (\<lambda>a. act_type a \<noteq> RTE_FLOW_ACTION_TYPE_VOID) (butlast as)))
   }"

definition port_flow_list ::
  "('d, 'z) flow_api_scheme \<Rightarrow> u16 \<Rightarrow> u32 list \<Rightarrow> 'd st
    \<Rightarrow> (u64 \<times> rte_flow_attr \<times> string list \<times> string list) list option" where
  "port_flow_list api pid groups s =
     (if bad_port s pid then Some []
      else do {
        port \<leftarrow> port_get s pid;
        those (map (flow_row api) (sort_flows groups (flow_list port) []))
      })"

section \<open>Invariant and creation\<close>

text \<open>
  The rules of a port: strictly descending identifiers of at most 32 bits, distinct nodes below
  the heap break.
\<close>

definition flow_ok :: "nat \<Rightarrow> port_flow list \<Rightarrow> bool" where
  "flow_ok b l \<longleftrightarrow> desc_by pf_id l \<and> distinct (map pf_addr l) \<and>
     (\<forall>f \<in> set l. pf_id f \<le> 0xFFFFFFFF \<and> pf_addr f < b)"

lemma flow_ok_Nil [simp]: "flow_ok b []"
  by (simp add: flow_ok_def)

lemma flow_ok_mono: "flow_ok b l \<Longrightarrow> b \<le> c \<Longrightarrow> flow_ok c l"
  by (auto simp: flow_ok_def)

lemma flow_ok_subseq: "subseq l m \<Longrightarrow> flow_ok b m \<Longrightarrow> flow_ok b l"
  unfolding flow_ok_def
  by (metis desc_by_subseq subseq_distinctD subseq_map subseq_subset)

lemma u64_in_u32: "unat (y :: u64) \<le> 0xFFFFFFFF \<Longrightarrow> ucast (ucast y :: u32) = y"
proof (rule unsigned_word_eqI)
  assume "unat y \<le> 0xFFFFFFFF"
  then show "unat (ucast (ucast y :: u32) :: u64) = unat y"
    by (simp add: unsigned_ucast_eq unsigned_take_bit_eq take_bit_nat_eq_self)
qed

lemma u64_succ_u32:
  assumes "x \<le> (0xFFFFFFFF :: u64)" "x \<noteq> 0xFFFFFFFF"
  shows "ucast (ucast (x + 1) :: u32) = x + 1" "x + 1 \<le> 0xFFFFFFFF" "x < x + 1"
proof -
  from assms have "x < 0xFFFFFFFF" by simp
  then have "unat x < unat (0xFFFFFFFF :: u64)" by (rule unat_mono)
  then have u: "unat x < 0xFFFFFFFF" by simp
  then have s: "unat (x + 1) = unat x + 1" by (simp add: unat_word_ariths)
  show "ucast (ucast (x + 1) :: u32) = x + 1" using u s by (intro u64_in_u32) simp
  show "x + 1 \<le> 0xFFFFFFFF" "x < x + 1"
    using u s by (simp_all add: word_le_nat_alt word_less_nat_alt)
qed

lemma next_flow_id_fresh:
  assumes "flow_ok b l" "next_flow_id l = Some i"
  shows "\<forall>f \<in> set l. pf_id f < ucast i" "(ucast i :: u64) \<le> 0xFFFFFFFF"
proof -
  have "(\<forall>f \<in> set l. pf_id f < ucast i) \<and> (ucast i :: u64) \<le> 0xFFFFFFFF"
  proof (cases l)
    case Nil
    with assms show ?thesis by (simp add: next_flow_id_def)
  next
    case (Cons f fs)
    with assms have h: "pf_id f \<le> 0xFFFFFFFF" "pf_id f \<noteq> 0xFFFFFFFF" "i = ucast (pf_id f + 1)"
      "\<forall>g \<in> set fs. pf_id g < pf_id f"
      by (auto simp: next_flow_id_def flow_ok_def split: if_splits)
    from u64_succ_u32 [OF h(1,2)] h(3,4) Cons show ?thesis by (auto intro: less_trans)
  qed
  then show "\<forall>f \<in> set l. pf_id f < ucast i" "(ucast i :: u64) \<le> 0xFFFFFFFF" by auto
qed

text \<open>
  What the driver library documents: a conversion copies the rule, and every failure sets the
  error number.
\<close>

definition flow_create_contract :: "('d, 'z) flow_api_scheme \<Rightarrow> u16 \<Rightarrow> bool" where
  "flow_create_contract api pid \<longleftrightarrow>
     (\<forall>rule d ret d'. rte_flow_conv_size api rule d = (ret, d') \<longrightarrow> ret < 0 \<longrightarrow> rte_errno api d' \<noteq> 0) \<and>
     (\<forall>rule d ret c d'. rte_flow_conv_copy api rule d = (ret, c, d') \<longrightarrow>
        (if ret < 0 then rte_errno api d' \<noteq> 0 else c = rule)) \<and>
     (\<forall>d. rte_errno api (rte_flow_error_set api ENOMEM d) \<noteq> 0) \<and>
     (\<forall>attr its as ctx d d'. rte_flow_create api pid attr its as ctx d = (0, d') \<longrightarrow>
        rte_errno api d' \<noteq> 0)"

definition blank_flow :: "nat \<Rightarrow> rte_flow_conv_rule \<Rightarrow> port_flow" where
  "blank_flow a rule =
     \<lparr>pf_addr = a, pf_id = 0, pf_user_id = 0, pf_table = None, pf_flow = 0, pf_rule = rule,
      pf_age_type = ACTION_AGE_CONTEXT_TYPE_FLOW\<rparr>"

text \<open>The two outcomes of allocating a rule: nothing but the device changes, or a fresh node.\<close>

lemma port_flow_new_cases:
  assumes "flow_create_contract api pid" "port_flow_new api attr pattern actions s = (r, s1)"
  shows "(r = None \<and> (\<exists>d. s1 = s\<lparr>dev := d\<rparr>) \<and> rte_errno api (dev s1) \<noteq> 0) \<or>
     (r = Some (blank_flow (brk s)
        \<lparr>rule_attr = attr, rule_pattern = pattern, rule_actions = actions\<rparr>) \<and>
      (\<exists>d. s1 = s\<lparr>dev := d, brk := Suc (brk s)\<rparr>))"
proof -
  let ?rule = "\<lparr>rule_attr = attr, rule_pattern = pattern, rule_actions = actions\<rparr>"
  obtain ret d1 where z: "rte_flow_conv_size api ?rule (dev s) = (ret, d1)"
    by (cases "rte_flow_conv_size api ?rule (dev s)")
  obtain ok d2 where c: "calloc api d1 = (ok, d2)" by (cases "calloc api d1")
  obtain ret2 copy d3 where y: "rte_flow_conv_copy api ?rule d2 = (ret2, copy, d3)"
    by (cases "rte_flow_conv_copy api ?rule d2")
  note ct = assms(1) [unfolded flow_create_contract_def]
  have e: "ret < 0 \<Longrightarrow> rte_errno api d1 \<noteq> 0" "ret2 < 0 \<Longrightarrow> rte_errno api d3 \<noteq> 0"
    "\<not> ret2 < 0 \<Longrightarrow> copy = ?rule" "\<And>d. rte_errno api (rte_flow_error_set api ENOMEM d) \<noteq> 0"
    using ct z y by metis+
  consider "ret < 0" | "\<not> ret < 0" "\<not> ok" | "\<not> ret < 0" ok "ret2 < 0" | "\<not> ret < 0" ok "\<not> ret2 < 0"
    by blast
  then show ?thesis
  proof cases
    case 1 with assms(2) z e(1) show ?thesis by (auto simp: port_flow_new_def Let_def)
  next
    case 2 with assms(2) z c e(4) show ?thesis
      by (auto simp: port_flow_new_def Let_def c_calloc_def)
  next
    case 3 with assms(2) z c y e(2) show ?thesis
      by (auto simp: port_flow_new_def Let_def c_calloc_def)
  next
    case 4 with assms(2) z c y e(3) show ?thesis
      by (auto simp: port_flow_new_def Let_def c_calloc_def blank_flow_def)
  qed
qed

lemma port_get_age:
  "port_get (case age of None \<Rightarrow> s | Some c \<Rightarrow> s\<lparr>age_context := (age_context s)(c := x)\<rparr>) q = port_get s q"
  by (cases age) simp_all

text \<open>
  Creating with the pattern and actions to be used and nothing to release: the two outcomes with
  what they leave of the state.
\<close>

lemma flow_create_with_cases:
  assumes ct: "flow_create_contract api pid" and p: "port_get s pid = Some p"
  shows "\<exists>r s'. flow_create_with api pid i attr pattern actions age user_id (\<lambda>w. w) s = (r, s') \<and>
     brk s \<le> brk s' \<and> (\<forall>q. q \<noteq> pid \<longrightarrow> port_get s' q = port_get s q) \<and>
     (r \<noteq> 0 \<longrightarrow> port_get s' pid = Some p) \<and>
     (r = 0 \<longrightarrow> (\<exists>h. h \<noteq> 0 \<and> brk s' = Suc (brk s) \<and>
        port_get s' pid = Some (p\<lparr>flow_list := (blank_flow (brk s)
           \<lparr>rule_attr = attr, rule_pattern = pattern, rule_actions = actions\<rparr>)
             \<lparr>pf_id := ucast i, pf_user_id := user_id, pf_flow := h\<rparr> # flow_list p\<rparr>) \<and>
        (\<forall>c. age = Some c \<longrightarrow> age_context s' c = Some (CtxFlow (brk s)))))"
proof -
  let ?rule = "\<lparr>rule_attr = attr, rule_pattern = pattern, rule_actions = actions\<rparr>"
  obtain r s1 where n: "port_flow_new api attr pattern actions s = (r, s1)"
    by (cases "port_flow_new api attr pattern actions s")
  from port_flow_new_cases [OF ct n] show ?thesis
  proof (elim disjE conjE exE)
    fix d assume "r = None" "s1 = s\<lparr>dev := d\<rparr>" "rte_errno api (dev s1) \<noteq> 0"
    with n p show ?thesis by (simp add: flow_create_with_def port_flow_complain_def)
  next
    fix d assume r: "r = Some (blank_flow (brk s) ?rule)" and s1: "s1 = s\<lparr>dev := d, brk := Suc (brk s)\<rparr>"
    define s2 where "s2 = (case age of None \<Rightarrow> s1 | Some conf \<Rightarrow>
      s1\<lparr>age_context := (age_context s1)(conf := Some (CtxFlow (brk s)))\<rparr>)"
    have f2: "port_get s2 q = port_get s q" "brk s2 = Suc (brk s)"
      "age = Some c \<Longrightarrow> age_context s2 c = Some (CtxFlow (brk s))" for q c
      by (cases age; simp add: s2_def s1)+
    obtain h d3 where c: "rte_flow_create api pid attr pattern actions (age_context s2) (dev s2) = (h, d3)"
      by (cases "rte_flow_create api pid attr pattern actions (age_context s2) (dev s2)")
    have e: "flow_create_with api pid i attr pattern actions age user_id (\<lambda>w. w) s =
      (if h = 0 then (- rte_errno api d3, s2\<lparr>dev := d3\<rparr>)
       else (0, port_upd pid (flow_list_update ((#) ((blank_flow (brk s) ?rule)
          \<lparr>pf_id := ucast i, pf_user_id := user_id, pf_flow := h\<rparr>))) (s2\<lparr>dev := d3\<rparr>)))"
      using n r c unfolding s2_def
      by (cases age) (simp_all add: flow_create_with_def Let_def port_flow_complain_def blank_flow_def)
    show ?thesis
    proof (cases "h = 0")
      case True
      moreover from this c ct have "rte_errno api d3 \<noteq> 0"
        unfolding flow_create_contract_def by metis
      ultimately show ?thesis using e f2 p by simp
    next
      case False
      let ?pf = "(blank_flow (brk s) ?rule)\<lparr>pf_id := ucast i, pf_user_id := user_id, pf_flow := h\<rparr>"
      let ?s' = "port_upd pid (flow_list_update ((#) ?pf)) (s2\<lparr>dev := d3\<rparr>)"
      have g1: "flow_create_with api pid i attr pattern actions age user_id (\<lambda>w. w) s = (0, ?s')"
        using e False by simp
      have g2: "port_get ?s' pid = Some (p\<lparr>flow_list := ?pf # flow_list p\<rparr>)"
        "\<forall>q. q \<noteq> pid \<longrightarrow> port_get ?s' q = port_get s q" "brk ?s' = Suc (brk s)"
        using p by (simp_all add: port_get_upd f2(1,2))
      have g3: "\<forall>c. age = Some c \<longrightarrow> age_context ?s' c = Some (CtxFlow (brk s))"
        using f2(3) by simp
      have g4: "brk s \<le> brk ?s'" using g2(3) by simp
      show ?thesis using g1 g2 g3 g4 False by blast
    qed
  qed
qed

lemma age_action_get_total: "actions_upto_end actions = Some as \<Longrightarrow> \<exists>age. age_action_get actions = Some age"
  by (induction actions arbitrary: as) (auto split: if_splits)

section \<open>Properties\<close>

text \<open>Creating a rule without tunnel offload on a port of the array with an end-terminated
  action list returns, for a driver library that copies rules and sets its error number on
  failure.  A nonzero code leaves the rules as they were; code zero means that exactly one rule
  was put in front of the others, under an identifier above all of theirs, with the given user
  identifier, attributes, pattern and actions and a driver object, and that the first age action
  of the rule points back to it.  The list invariant is kept and no other port changes.\<close>

theorem flow_create_correct:
  assumes "flow_create_contract api pid" and p: "port_get s pid = Some p"
    and ok: "flow_ok (brk s) (flow_list p)"
    and "\<not> ops_enabled ops" and "actions_upto_end actions \<noteq> None"
  shows "\<exists>r s' l. port_flow_create api pid attr pattern actions ops user_id s = Some (r, s') \<and>
     port_get s' pid = Some (p\<lparr>flow_list := l\<rparr>) \<and> flow_ok (brk s') l \<and>
     (\<forall>q. q \<noteq> pid \<longrightarrow> port_get s' q = port_get s q) \<and>
     (r \<noteq> 0 \<longrightarrow> l = flow_list p) \<and>
     (r = 0 \<longrightarrow> (\<exists>pf. l = pf # flow_list p \<and> (\<forall>f \<in> set (flow_list p). pf_id f < pf_id pf) \<and>
        pf_user_id pf = user_id \<and> pf_flow pf \<noteq> 0 \<and>
        pf_rule pf = \<lparr>rule_attr = attr, rule_pattern = pattern, rule_actions = actions\<rparr> \<and>
        (\<forall>conf. age_action_get actions = Some (Some conf) \<longrightarrow>
           age_context s' conf = Some (CtxFlow (pf_addr pf)))))"
proof -
  obtain age where age: "age_action_get actions = Some age"
    using assms(5) age_action_get_total by blast
  have same: "p\<lparr>flow_list := flow_list p\<rparr> = p" by simp
  show ?thesis
  proof (cases "next_flow_id (flow_list p)")
    case None
    with assms age same show ?thesis
      by (intro exI [of _ "- ENOMEM"] exI [of _ s] exI [of _ "flow_list p"])
         (simp add: port_flow_create_def)
  next
    case (Some i)
    obtain r s' where c: "flow_create_with api pid i attr pattern actions age user_id (\<lambda>w. w) s = (r, s')"
      and b: "brk s \<le> brk s'" and o: "\<forall>q. q \<noteq> pid \<longrightarrow> port_get s' q = port_get s q"
      and f: "r \<noteq> 0 \<longrightarrow> port_get s' pid = Some p"
      and g: "r = 0 \<longrightarrow> (\<exists>h. h \<noteq> 0 \<and> brk s' = Suc (brk s) \<and>
        port_get s' pid = Some (p\<lparr>flow_list := (blank_flow (brk s)
           \<lparr>rule_attr = attr, rule_pattern = pattern, rule_actions = actions\<rparr>)
             \<lparr>pf_id := ucast i, pf_user_id := user_id, pf_flow := h\<rparr> # flow_list p\<rparr>) \<and>
        (\<forall>c. age = Some c \<longrightarrow> age_context s' c = Some (CtxFlow (brk s))))"
      using flow_create_with_cases [OF assms(1,2), of i attr pattern actions age user_id] by blast
    have e: "port_flow_create api pid attr pattern actions ops user_id s = Some (r, s')"
      using assms age Some c by (simp add: port_flow_create_def)
    show ?thesis
    proof (cases "r = 0")
      case False
      with e f o same flow_ok_mono [OF ok b] show ?thesis
        by (intro exI [of _ r] exI [of _ s'] exI [of _ "flow_list p"]) simp
    next
      case True
      then obtain h where h: "h \<noteq> 0" "brk s' = Suc (brk s)"
        "port_get s' pid = Some (p\<lparr>flow_list := (blank_flow (brk s)
           \<lparr>rule_attr = attr, rule_pattern = pattern, rule_actions = actions\<rparr>)
             \<lparr>pf_id := ucast i, pf_user_id := user_id, pf_flow := h\<rparr> # flow_list p\<rparr>)"
        "\<forall>c. age = Some c \<longrightarrow> age_context s' c = Some (CtxFlow (brk s))"
        using g by blast
      let ?pf = "(blank_flow (brk s)
           \<lparr>rule_attr = attr, rule_pattern = pattern, rule_actions = actions\<rparr>)
             \<lparr>pf_id := ucast i, pf_user_id := user_id, pf_flow := h\<rparr>"
      have "flow_ok (brk s') (?pf # flow_list p)"
        using ok next_flow_id_fresh [OF ok Some] h(2)
        by (auto simp: flow_ok_def blank_flow_def less_Suc_eq)
      with e h o True next_flow_id_fresh [OF ok Some] age show ?thesis
        by (intro exI [of _ r] exI [of _ s'] exI [of _ "?pf # flow_list p"])
           (simp add: blank_flow_def)
    qed
  qed
qed

interpretation fl: port_registry "flow_kill api pid" flow_list flow_list_update
  "errno_on_failure api (rte_flow_destroy api pid)"
  for api :: "('d, 'z) flow_api_scheme" and pid
  by unfold_locales
    (auto simp: keeps_heap_def flow_kill_def errno_on_failure_def port_flow_complain_def Let_def
      split: prod.splits if_splits)

text \<open>Destroying rules, by identifier or by user identifier, returns on every valid port.  Rules
  that are not named stay in their order, the list keeps its invariant, no other port changes;
  for distinct identifiers and a driver that sets its error number on failure the code is zero
  exactly when the named rules, and only they, are gone.\<close>

theorem flow_destroy_correct:
  assumes "\<not> bad_port s pid" "port_get s pid = Some p" "flow_ok (brk s) (flow_list p)"
  shows "\<exists>r s' l. port_flow_destroy api pid rules is_user_id s = Some (r, s') \<and>
     port_get s' pid = Some (p\<lparr>flow_list := l\<rparr>) \<and> flow_ok (brk s') l \<and>
     filter (\<lambda>f. flow_key is_user_id f \<notin> set rules) l =
       filter (\<lambda>f. flow_key is_user_id f \<notin> set rules) (flow_list p) \<and>
     (\<forall>q. q \<noteq> pid \<longrightarrow> port_get s' q = port_get s q) \<and>
     (errno_on_failure api (rte_flow_destroy api pid) \<and> distinct rules \<longrightarrow>
        (r = 0 \<longleftrightarrow> l = filter (\<lambda>f. flow_key is_user_id f \<notin> set rules) (flow_list p)))"
proof -
  obtain r l s1 where
    d: "destroy_loop (flow_kill api pid) (flow_key is_user_id) rules (flow_list p) 0 s = (r, l, s1)"
    and h: "same_heap s s1" and e: "port_flow_destroy api pid rules is_user_id s =
       Some (r, port_upd pid (flow_list_update (\<lambda>_. l)) s1)"
    using fl.destroy_in_loop [OF assms(1,2)] unfolding port_flow_destroy_def by blast
  note u = fl.upd_list [where l = l, OF h assms(2)]
  have "flow_ok (brk (port_upd pid (flow_list_update (\<lambda>_. l)) s1)) l"
    using u(3) flow_ok_subseq [OF destroy_loop_subseq [OF d] assms(3)] by simp
  with e u(1,2) destroy_loop_others [OF d] fl.destroy_ret [OF _ _ d] show ?thesis by blast
qed

text \<open>Flushing the rules of a valid port empties its rule list, whatever the driver answers to
  the flush call, and always returns zero; the driver is not called for a port without rules.\<close>

theorem flow_flush_empties:
  assumes "\<not> bad_port s pid" "port_get s pid = Some p"
  shows "\<exists>s'. port_flow_flush api pid s = Some (0, s') \<and>
     port_get s' pid = Some (p\<lparr>flow_list := []\<rparr>) \<and>
     (\<forall>q. q \<noteq> pid \<longrightarrow> port_get s' q = port_get s q) \<and> brk s' = brk s \<and>
     dev s' = (if flow_list p = [] then dev s else snd (rte_flow_flush api pid (dev s)))"
proof (cases "flow_list p = []")
  case True
  then have "p\<lparr>flow_list := []\<rparr> = p" by (cases p) simp
  with True assms show ?thesis by (simp add: port_flow_flush_def)
next
  case False
  obtain rc d where "rte_flow_flush api pid (dev s) = (rc, d)"
    by (cases "rte_flow_flush api pid (dev s)")
  with False assms show ?thesis by (simp add: port_flow_flush_def port_get_upd)
qed

text \<open>The printing order of the rules: group, then priority, then identifier.\<close>

definition flow_rank :: "port_flow \<Rightarrow> u32 \<times> u32 \<times> u64" where
  "flow_rank f = (attr_group (rule_attr (pf_rule f)), attr_priority (rule_attr (pf_rule f)), pf_id f)"

lemma flow_after_rank: "flow_after a b \<longleftrightarrow> flow_rank b < flow_rank a"
  by (auto simp: flow_after_def flow_rank_def Let_def less_prod_def)

lemma insert_flow_mset: "mset (insert_flow f fs) = add_mset f (mset fs)"
  by (induction fs) auto

lemma insert_flow_sorted: "sorted (map flow_rank fs) \<Longrightarrow> sorted (map flow_rank (insert_flow f fs))"
proof (induction fs)
  case (Cons g fs)
  have "set (insert_flow f fs) = insert f (set fs)"
    using insert_flow_mset [of f fs] by (metis set_mset_add_mset_insert set_mset_mset)
  with Cons show ?case by (auto simp: flow_after_rank not_less intro: order_trans)
qed simp

lemma sort_flows_mset: "mset (sort_flows gs fs acc) = mset (filter (wanted_group gs) fs) + mset acc"
  by (induction fs arbitrary: acc) (auto simp: insert_flow_mset)

lemma sort_flows_sorted: "sorted (map flow_rank acc) \<Longrightarrow> sorted (map flow_rank (sort_flows gs fs acc))"
  by (induction fs arbitrary: acc) (auto simp: insert_flow_sorted)

text \<open>C30: The rule listing is a sort: the rows printed for a valid port are the rules of the wanted
  groups, all rules when no group is given, sorted by group, priority and identifier.\<close>

theorem flow_list_sorted:
  assumes "\<not> bad_port s pid" "port_get s pid = Some p" "flow_ok (brk s) (flow_list p)"
  shows "port_flow_list api pid groups s =
     those (map (flow_row api)
       (sort_key flow_rank (filter (wanted_group groups) (flow_list p))))"
proof -
  have "distinct (map pf_id (flow_list p))"
    using assms(3) by (auto simp: flow_ok_def intro: desc_by_distinct)
  then have "inj_on flow_rank (set (filter (wanted_group groups) (flow_list p)))"
    by (auto simp: distinct_map flow_rank_def inj_on_def)
  moreover have "mset (filter (wanted_group groups) (flow_list p)) = mset (sort_flows groups (flow_list p) [])"
    by (simp add: sort_flows_mset)
  moreover have "sorted (map flow_rank (sort_flows groups (flow_list p) []))"
    by (simp add: sort_flows_sorted)
  ultimately have "sort_key flow_rank (filter (wanted_group groups) (flow_list p)) =
      sort_flows groups (flow_list p) []"
    by (metis sort_key_inj_key_eq)
  with assms show ?thesis by (simp add: port_flow_list_def)
qed

lemma aged_loop_list:
  "aged_loop api pid False n cs s = Some (rows, k, s') \<Longrightarrow> s' = s \<and> k = 0 \<and> length rows = n"
proof (induction n arbitrary: cs rows k)
  case (Suc n)
  then obtain c cs' where cs: "cs = c # cs'" by (cases cs) simp_all
  show ?case
  proof (cases c)
    case None
    with Suc cs show ?thesis by (fastforce split: Option.bind_splits)
  next
    case (Some a)
    with Suc cs show ?thesis by (cases a) (fastforce split: Option.bind_splits if_splits)+
  qed
qed simp

text \<open>Listing aged rules without destroying them changes nothing but the device: a completed
  listing has one row per context the driver reported and no rule counted as destroyed.\<close>

theorem flow_aged_list_only:
  assumes "port_flow_aged api pid False s = Some (res, s')"
  shows "(\<exists>d. s' = s\<lparr>dev := d\<rparr>) \<and> (\<forall>rows k. res = Some (rows, k) \<longrightarrow> k = 0 \<and> rows \<noteq> [])"
proof (cases "bad_port s pid")
  case True
  with assms show ?thesis by (auto simp: port_flow_aged_def intro: exI [of _ "dev s"])
next
  case False
  obtain tot d where t: "rte_flow_get_aged_count api pid (dev s) = (tot, d)"
    by (cases "rte_flow_get_aged_count api pid (dev s)")
  obtain ok d1 where c: "calloc api d = (ok, d1)" by (cases "calloc api d")
  obtain nb cs d2 where a: "rte_flow_get_aged_flows api pid (nat tot) d1 = (nb, cs, d2)"
    by (cases "rte_flow_get_aged_flows api pid (nat tot) d1")
  show ?thesis
  proof (cases "tot > 0 \<and> ok \<and> nb = tot")
    case False
    with assms \<open>\<not> bad_port s pid\<close> t c a show ?thesis
      by (auto simp: port_flow_aged_def c_calloc_def Let_def split: if_splits)
  next
    case True
    then obtain rows k s4 where
      l: "aged_loop api pid False (nat tot) cs (s\<lparr>dev := d2\<rparr>) = Some (rows, k, s4)"
      and r: "res = Some (rows, k)" "s' = s4"
      using assms \<open>\<not> bad_port s pid\<close> t c a
      by (auto simp: port_flow_aged_def c_calloc_def Let_def split: Option.bind_splits)
    from aged_loop_list [OF l] r True show ?thesis by auto
  qed
qed

text \<open>Destroying an aged rule reads freed memory: when the driver reports one aged rule, accepts
  its destruction, and the rule is not the last one of its port, the command runs into undefined
  behaviour, because the identifier it compares the remaining rules with lies in the rule it has
  just freed.\<close>

theorem flow_aged_destroy_use_after_free:
  assumes "\<not> bad_port s pid" "port_get s pid = Some p" "flow_ok (brk s) (flow_list p)"
    and f: "f \<in> set (flow_list p)" "f \<noteq> last (flow_list p)" "flow_at s (pf_addr f) = Some f"
      "pf_age_type f = ACTION_AGE_CONTEXT_TYPE_FLOW"
    and "\<And>d. fst (calloc api d)" "rte_flow_get_aged_count api pid (dev s) = (1, d1)"
    and "\<And>n d. rte_flow_get_aged_flows api pid n d = (1, [Some (CtxFlow (pf_addr f))], d)"
    and acc: "\<And>h d. fst (rte_flow_destroy api pid h d) = 0"
  shows "port_flow_aged api pid True s = None"
proof -
  obtain d2 where c: "calloc api d1 = (True, d2)" using assms(8) [of d1] by (cases "calloc api d1") auto
  let ?s = "s\<lparr>dev := d2\<rparr>"
  have b: "\<not> bad_port ?s pid" and p: "port_get ?s pid = Some p"
    using assms(1,2) bad_port_cong [of ?s s pid] by simp_all
  have kill: "\<exists>w'. flow_kill api pid x 0 w = (Removed, 0, w')" for x and w
    using acc by (simp add: flow_kill_def case_prod_beta Let_def)
  obtain r l s1 where d: "destroy_loop (flow_kill api pid) (flow_key False) [pf_id f] (flow_list p) 0 ?s = (r, l, s1)"
    "same_heap ?s s1" "port_flow_destroy api pid [pf_id f] False ?s =
       Some (r, port_upd pid (flow_list_update (\<lambda>_. l)) s1)"
    using fl.destroy_in_loop [OF b p] unfolding port_flow_destroy_def by blast
  have "l = filter (\<lambda>g. pf_id g \<noteq> pf_id f) (flow_list p)"
    using destroy_loop_all [OF kill d(1)] by (simp add: flow_key_def)
  moreover have "port_get (port_upd pid (flow_list_update (\<lambda>_. l)) s1) pid = Some (p\<lparr>flow_list := l\<rparr>)"
    using fl.upd_list(1) [OF d(2) p] .
  ultimately have "destroy_by_own_id api pid f ?s = None"
    using d(3) p f by (simp add: destroy_by_own_id_def)
  moreover have "flow_at ?s (pf_addr f) = Some f" using f(3) by (simp add: flow_at_def)
  ultimately show ?thesis
    using assms(1,9,10) c f(4) by (simp add: port_flow_aged_def c_calloc_def Let_def)
qed

end
