(* ===== verification/FlowQueues.thy ===== *)
theory FlowQueues
  imports FlowRules
begin

text \<open>
  Asynchronous flow operations (\<^verbatim>\<open>port_flow_configure\<close>, \<^verbatim>\<open>port_queue_*\<close>, \<^verbatim>\<open>queue_action_*\<close>,
  \<^verbatim>\<open>port_flow_hash_calc\<close> of \<^verbatim>\<open>config.c\<close>).  An operation is enqueued with a job that the driver
  hands back when its result is pulled.  A rule or action whose removal is enqueued is unlinked
  at once but freed only by the pull of its job; until then it is in \<open>unlinked_flows\<close> or
  \<open>unlinked_actions\<close>, where a node stays for good when no job frees it.
\<close>

text \<open>
  A pulled result: its status, the job address given at enqueue time, and what the driver wrote
  into the query field of the job.
\<close>

record rte_flow_op_result =
  op_success :: bool
  op_user_data :: nat
  op_query :: u64

type_synonym age_ctxs = "u64 \<Rightarrow> age_ctx option"

record 'd queue_api = "'d flow_api" +
  rte_flow_info_get :: "u16 \<Rightarrow> 'd \<Rightarrow> int \<times> 'd"
  rte_flow_configure :: "u16 \<Rightarrow> u64 \<Rightarrow> u16 \<Rightarrow> u32 \<Rightarrow> 'd \<Rightarrow> int \<times> 'd"
  rte_flow_async_create ::
    "u16 \<Rightarrow> u32 \<Rightarrow> bool \<Rightarrow> handle \<Rightarrow> rte_flow_item list \<Rightarrow> u32 \<Rightarrow> rte_flow_action list \<Rightarrow> u32 \<Rightarrow> nat
      \<Rightarrow> age_ctxs \<Rightarrow> 'd \<Rightarrow> handle \<times> 'd"
  rte_flow_async_create_by_index ::
    "u16 \<Rightarrow> u32 \<Rightarrow> bool \<Rightarrow> handle \<Rightarrow> u32 \<Rightarrow> rte_flow_action list \<Rightarrow> u32 \<Rightarrow> nat
      \<Rightarrow> age_ctxs \<Rightarrow> 'd \<Rightarrow> handle \<times> 'd"
  rte_flow_async_destroy :: "u16 \<Rightarrow> u32 \<Rightarrow> bool \<Rightarrow> handle \<Rightarrow> nat \<Rightarrow> 'd \<Rightarrow> int \<times> 'd"
  rte_flow_async_actions_update ::
    "u16 \<Rightarrow> u32 \<Rightarrow> bool \<Rightarrow> handle \<Rightarrow> rte_flow_action list \<Rightarrow> u32 \<Rightarrow> nat \<Rightarrow> age_ctxs \<Rightarrow> 'd \<Rightarrow> int \<times> 'd"
  rte_flow_async_action_handle_create ::
    "u16 \<Rightarrow> u32 \<Rightarrow> bool \<Rightarrow> u64 \<Rightarrow> rte_flow_action list \<Rightarrow> nat \<Rightarrow> age_ctxs \<Rightarrow> 'd \<Rightarrow> handle \<times> 'd"
  rte_flow_async_action_list_handle_create ::
    "u16 \<Rightarrow> u32 \<Rightarrow> bool \<Rightarrow> u64 \<Rightarrow> rte_flow_action list \<Rightarrow> nat \<Rightarrow> age_ctxs \<Rightarrow> 'd \<Rightarrow> handle \<times> 'd"
  rte_flow_async_action_handle_destroy :: "u16 \<Rightarrow> u32 \<Rightarrow> bool \<Rightarrow> handle \<Rightarrow> nat \<Rightarrow> 'd \<Rightarrow> int \<times> 'd"
  rte_flow_async_action_list_handle_destroy ::
    "u16 \<Rightarrow> u32 \<Rightarrow> bool \<Rightarrow> handle \<Rightarrow> nat \<Rightarrow> 'd \<Rightarrow> int \<times> 'd"
  rte_flow_async_action_handle_update ::
    "u16 \<Rightarrow> u32 \<Rightarrow> bool \<Rightarrow> handle \<Rightarrow> action_update \<Rightarrow> nat \<Rightarrow> 'd \<Rightarrow> int \<times> 'd"
  rte_flow_async_action_query :: "u16 \<Rightarrow> u32 \<Rightarrow> bool \<Rightarrow> handle \<Rightarrow> nat \<Rightarrow> 'd \<Rightarrow> int \<times> 'd"
  rte_flow_async_action_handle_query_update ::
    "u16 \<Rightarrow> u32 \<Rightarrow> bool \<Rightarrow> handle \<Rightarrow> rte_flow_action \<Rightarrow> int \<Rightarrow> nat \<Rightarrow> 'd \<Rightarrow> int \<times> 'd"
  rte_flow_push :: "u16 \<Rightarrow> u32 \<Rightarrow> 'd \<Rightarrow> int \<times> 'd"
  rte_flow_pull :: "u16 \<Rightarrow> u32 \<Rightarrow> u32 \<Rightarrow> 'd \<Rightarrow> int \<times> rte_flow_op_result list \<times> 'd"
  rte_flow_calc_table_hash ::
    "u16 \<Rightarrow> handle \<Rightarrow> rte_flow_item list \<Rightarrow> u8 \<Rightarrow> 'd \<Rightarrow> int \<times> u32 \<times> 'd"
  rte_flow_get_q_aged_count :: "u16 \<Rightarrow> u32 \<Rightarrow> 'd \<Rightarrow> int \<times> 'd"
  rte_flow_get_q_aged_flows :: "u16 \<Rightarrow> u32 \<Rightarrow> nat \<Rightarrow> 'd \<Rightarrow> int \<times> age_ctx option list \<times> 'd"
  rte_flow_group_set_miss_actions ::
    "u16 \<Rightarrow> u32 \<Rightarrow> bool \<times> bool \<times> bool \<Rightarrow> rte_flow_action list \<Rightarrow> 'd \<Rightarrow> int \<times> 'd"

section \<open>Configuration, push, miss actions, hash\<close>

definition port_flow_get_info ::
  "('d, 'z) queue_api_scheme \<Rightarrow> u16 \<Rightarrow> 'd st \<Rightarrow> int \<times> 'd st" where
  "port_flow_get_info api pid s =
     (if bad_port s pid then (- EINVAL, s)
      else (case rte_flow_info_get api pid (dev s) of (rc, d) \<Rightarrow>
              (let s' = s\<lparr>dev := d\<rparr> in (if rc \<noteq> 0 then port_flow_complain api s' else 0, s'))))"

definition port_flow_configure ::
  "('d, 'z) queue_api_scheme \<Rightarrow> u16 \<Rightarrow> u64 \<Rightarrow> u16 \<Rightarrow> u32 \<Rightarrow> 'd st \<Rightarrow> (int \<times> 'd st) option" where
  "port_flow_configure api pid port_attr nb_queue qsize s =
     (if bad_port s pid then Some (- EINVAL, s)
      else do {
        _ \<leftarrow> port_get s pid;
        (let s1 = port_upd pid (\<lambda>p. p\<lparr>queue_nb := nb_queue, queue_sz := qsize\<rparr>) s in
         case rte_flow_configure api pid port_attr nb_queue qsize (dev s1) of (rc, d) \<Rightarrow>
           (let s2 = s1\<lparr>dev := d\<rparr> in
            Some (if rc \<noteq> 0 then port_flow_complain api s2 else 0, s2)))
      })"

definition port_queue_flow_push ::
  "('d, 'z) queue_api_scheme \<Rightarrow> u16 \<Rightarrow> u16 \<Rightarrow> 'd st \<Rightarrow> (int \<times> 'd st) option" where
  "port_queue_flow_push api pid q s =
     (if bad_port s pid then Some (- EINVAL, s)
      else do {
        port \<leftarrow> port_get s pid;
        (if q \<ge> queue_nb port then Some (- EINVAL, s)
         else (case rte_flow_push api pid (ucast q) (dev s) of (ret, d) \<Rightarrow>
                 Some (if ret < 0 then - EINVAL else ret, s\<lparr>dev := d\<rparr>)))
      })"

definition port_queue_group_set_miss_actions ::
  "('d, 'z) queue_api_scheme \<Rightarrow> u16 \<Rightarrow> rte_flow_attr \<Rightarrow> rte_flow_action list \<Rightarrow> 'd st \<Rightarrow> int \<times> 'd st" where
  "port_queue_group_set_miss_actions api pid attr actions s =
     (if bad_port s pid then (- EINVAL, s)
      else (case rte_flow_group_set_miss_actions api pid (attr_group attr)
                   (attr_ingress attr, attr_egress attr, attr_transfer attr) actions (dev s) of (ret, d) \<Rightarrow>
              (let s' = s\<lparr>dev := d\<rparr> in (if ret < 0 then port_flow_complain api s' else ret, s'))))"

text \<open>The hash printed on success comes with the code.\<close>

definition port_flow_hash_calc ::
  "('d, 'z) queue_api_scheme \<Rightarrow> u16 \<Rightarrow> u32 \<Rightarrow> u8 \<Rightarrow> rte_flow_item list \<Rightarrow> 'd st
    \<Rightarrow> (int \<times> u32 option \<times> 'd st) option" where
  "port_flow_hash_calc api pid table_id idx pattern s =
     (if bad_port s pid then Some (- EINVAL, None, s)
      else do {
        port \<leftarrow> port_get s pid;
        (case find (\<lambda>t. tb_id t = table_id) (table_list port) of
           None \<Rightarrow> Some (- EINVAL, None, s)
         | Some pt \<Rightarrow>
             (case rte_flow_calc_table_hash api pid (tb_table pt) pattern idx (dev s) of (ret, hash, d) \<Rightarrow>
                Some (if ret < 0 then (ret, None, s\<lparr>dev := d\<rparr>) else (0, Some hash, s\<lparr>dev := d\<rparr>))))
      })"

section \<open>Rules\<close>

text \<open>The zeroed job: its address, if the allocation succeeds.\<close>

definition new_job :: "('d, 'z) base_api_scheme \<Rightarrow> 'd st \<Rightarrow> nat option \<times> 'd st" where
  "new_job api s =
     (case c_calloc api s of (ok, s1) \<Rightarrow>
        if ok then (Some (brk s1), s1\<lparr>brk := Suc (brk s1)\<rparr>) else (None, s1))"

definition async_flow_kill ::
  "('d, 'z) queue_api_scheme \<Rightarrow> u16 \<Rightarrow> u32 \<Rightarrow> bool \<Rightarrow> port_flow \<Rightarrow> int \<Rightarrow> 'd st
    \<Rightarrow> outcome \<times> int \<times> 'd st" where
  "async_flow_kill api pid q postpone pf ret s =
     (case new_job api s of
        (None, s1) \<Rightarrow> (Abort, - ENOMEM, s1)
      | (Some j, s1) \<Rightarrow>
          (case rte_flow_async_destroy api pid q postpone (pf_flow pf) j (dev s1) of (rc, d) \<Rightarrow>
             (let s2 = s1\<lparr>dev := d\<rparr> in
              if rc \<noteq> 0 then (Kept, port_flow_complain api s2, s2)
              else (Removed, ret,
                    s2\<lparr>jobs := (j, \<lparr>job_type = QUEUE_JOB_TYPE_FLOW_DESTROY,
                                    job_ptr = Some (pf_addr pf)\<rparr>) # jobs s2,
                       unlinked_flows := pf # unlinked_flows s2\<rparr>))))"

definition port_queue_flow_destroy ::
  "('d, 'z) queue_api_scheme \<Rightarrow> u16 \<Rightarrow> u16 \<Rightarrow> bool \<Rightarrow> u64 list \<Rightarrow> 'd st \<Rightarrow> (int \<times> 'd st) option" where
  "port_queue_flow_destroy api pid q postpone rules s =
     (if bad_port s pid then Some (- EINVAL, s)
      else do {
        port \<leftarrow> port_get s pid;
        (if q \<ge> queue_nb port then Some (- EINVAL, s)
         else (case destroy_loop (async_flow_kill api pid (ucast q) postpone) pf_id rules
                      (flow_list port) 0 s of
                 (ret, l, s') \<Rightarrow> Some (ret, port_upd pid (flow_list_update (\<lambda>_. l)) s')))
      })"

text \<open>
  The driver call of the create command, by template index or by rule index.
\<close>

definition async_create_call ::
  "('d, 'z) queue_api_scheme \<Rightarrow> u16 \<Rightarrow> u32 \<Rightarrow> bool \<Rightarrow> handle \<Rightarrow> u32 \<Rightarrow> rte_flow_item list \<Rightarrow> u32
    \<Rightarrow> rte_flow_action list \<Rightarrow> u32 \<Rightarrow> nat \<Rightarrow> age_ctxs \<Rightarrow> 'd \<Rightarrow> handle \<times> 'd" where
  "async_create_call api pid q postpone tbl rule_idx pattern pidx actions aidx job ctx d =
     (if rule_idx = UINT32_MAX
      then rte_flow_async_create api pid q postpone tbl pattern pidx actions aidx job ctx d
      else rte_flow_async_create_by_index api pid q postpone tbl rule_idx actions aidx job ctx d)"

definition set_age :: "u64 option \<Rightarrow> age_ctx \<Rightarrow> 'd st \<Rightarrow> 'd st" where
  "set_age age c s =
     (case age of None \<Rightarrow> s | Some conf \<Rightarrow> s\<lparr>age_context := (age_context s)(conf := Some c)\<rparr>)"

text \<open>
  The create command after its checks.  When the driver refuses the rule, the rollback destroys by
  the identifier of the new node, which is still zero, and the node itself is never freed.
\<close>

definition queue_create_tail ::
  "('d, 'z) queue_api_scheme \<Rightarrow> u16 \<Rightarrow> u16 \<Rightarrow> bool \<Rightarrow> u32 \<Rightarrow> u32 \<Rightarrow> u32 \<Rightarrow> rte_flow_item list
    \<Rightarrow> rte_flow_action list \<Rightarrow> u64 option \<Rightarrow> u32 \<Rightarrow> port_table \<Rightarrow> 'd st \<Rightarrow> (int \<times> 'd st) option" where
  "queue_create_tail api pid q postpone ridx pidx aidx pattern actions age i pt s =
     (case new_job api s of
        (None, s1) \<Rightarrow> Some (- ENOMEM, s1)
      | (Some j, s1) \<Rightarrow>
      (case port_flow_new api (tb_flow_attr pt) pattern actions s1 of
        (None, s2) \<Rightarrow> Some (port_flow_complain api s2, s2)
      | (Some pf, s2) \<Rightarrow>
         (let s3 = set_age age (CtxFlow (pf_addr pf)) s2 in
          case async_create_call api pid (ucast q) postpone (tb_table pt) ridx pattern pidx
                 actions aidx j (age_context s3) (dev s3) of (flow, d) \<Rightarrow>
            (if flow = 0
             then do {
               (_, s4) \<leftarrow> port_queue_flow_destroy api pid q True [pf_id pf]
                          (s3\<lparr>dev := d, unlinked_flows := pf # unlinked_flows s3\<rparr>);
               Some (port_flow_complain api s4, s4)
             }
             else (let pf' = pf\<lparr>pf_id := ucast i, pf_table := Some (tb_addr pt), pf_flow := flow\<rparr> in
                   Some (0, port_upd pid (flow_list_update ((#) pf'))
                     (s3\<lparr>dev := d, jobs := (j, \<lparr>job_type = QUEUE_JOB_TYPE_FLOW_CREATE,
                                               job_ptr = Some (pf_addr pf)\<rparr>) # jobs s3\<rparr>)))))))"

definition port_queue_flow_create ::
  "('d, 'z) queue_api_scheme \<Rightarrow> u16 \<Rightarrow> u16 \<Rightarrow> bool \<Rightarrow> u32 \<Rightarrow> u32 \<Rightarrow> u32 \<Rightarrow> u32
    \<Rightarrow> rte_flow_item list \<Rightarrow> rte_flow_action list \<Rightarrow> 'd st \<Rightarrow> (int \<times> 'd st) option" where
  "port_queue_flow_create api pid q postpone table_id rule_idx pidx aidx pattern actions s = do {
     age \<leftarrow> age_action_get actions;
     port \<leftarrow> port_get s pid;
     (case next_flow_id (flow_list port) of
        None \<Rightarrow> Some (- ENOMEM, s)
      | Some i \<Rightarrow>
      if q \<ge> queue_nb port then Some (- EINVAL, s) else
      (case find (\<lambda>t. tb_id t = table_id) (table_list port) of
        None \<Rightarrow> Some (- EINVAL, s)
      | Some pt \<Rightarrow>
          if pidx \<ge> nb_pattern_templates pt then Some (- EINVAL, s)
          else if aidx \<ge> nb_actions_templates pt then Some (- EINVAL, s)
          else queue_create_tail api pid q postpone rule_idx pidx aidx pattern actions age i pt s))
   }"

text \<open>Following the table pointer of a rule.\<close>

definition table_at :: "'d st \<Rightarrow> nat option \<Rightarrow> port_table option" where
  "table_at s a =
     (case a of None \<Rightarrow> None
      | Some b \<Rightarrow> find (\<lambda>t. tb_addr t = b) (concat (map table_list (ports s))))"

definition queue_update_tail ::
  "('d, 'z) queue_api_scheme \<Rightarrow> u16 \<Rightarrow> u16 \<Rightarrow> bool \<Rightarrow> u32 \<Rightarrow> rte_flow_action list \<Rightarrow> u64 option
    \<Rightarrow> port_flow \<Rightarrow> port_table \<Rightarrow> 'd st \<Rightarrow> int \<times> 'd st" where
  "queue_update_tail api pid q postpone aidx actions age pf pt s =
     (case new_job api s of
        (None, s1) \<Rightarrow> (- ENOMEM, s1)
      | (Some j, s1) \<Rightarrow>
      (case port_flow_new api (tb_flow_attr pt) (rule_pattern (pf_rule pf)) actions s1 of
        (None, s2) \<Rightarrow> (port_flow_complain api s2, s2)
      | (Some uf, s2) \<Rightarrow>
         (let s3 = set_age age (CtxFlow (pf_addr uf)) s2 in
          case rte_flow_async_actions_update api pid (ucast q) postpone (pf_flow pf) actions aidx j
                 (age_context s3) (dev s3) of (rc, d) \<Rightarrow>
            (let s4 = s3\<lparr>dev := d\<rparr> in
             if rc \<noteq> 0 then (port_flow_complain api s4, s4)
             else (let uf' = uf\<lparr>pf_id := pf_id pf, pf_table := pf_table pf, pf_flow := pf_flow pf\<rparr> in
                   (0, port_upd pid (flow_list_update (set_at pf_addr (pf_addr pf) (\<lambda>_. uf')))
                     (s4\<lparr>jobs := (j, \<lparr>job_type = QUEUE_JOB_TYPE_FLOW_UPDATE,
                                    job_ptr = Some (pf_addr pf)\<rparr>) # jobs s4,
                        unlinked_flows := pf # unlinked_flows s4\<rparr>)))))))"

definition port_queue_flow_update ::
  "('d, 'z) queue_api_scheme \<Rightarrow> u16 \<Rightarrow> u16 \<Rightarrow> bool \<Rightarrow> u32 \<Rightarrow> u32 \<Rightarrow> rte_flow_action list \<Rightarrow> 'd st
    \<Rightarrow> (int \<times> 'd st) option" where
  "port_queue_flow_update api pid q postpone rule_idx aidx actions s = do {
     age \<leftarrow> age_action_get actions;
     (if bad_port s pid then Some (- EINVAL, s)
      else do {
        port \<leftarrow> port_get s pid;
        (if q \<ge> queue_nb port then Some (- EINVAL, s) else
        (case find (\<lambda>f. pf_id f = ucast rule_idx) (flow_list port) of
          None \<Rightarrow> Some (- EINVAL, s)
        | Some pf \<Rightarrow> do {
            pt \<leftarrow> table_at s (pf_table pf);
            Some (if aidx \<ge> nb_actions_templates pt then (- EINVAL, s)
                  else queue_update_tail api pid q postpone aidx actions age pf pt s)
          }))
      })
   }"

section \<open>Indirect actions\<close>

text \<open>The write to the action node and the driver call, for a single action and for a list.\<close>

definition queue_action_handle_create ::
  "('d, 'z) queue_api_scheme \<Rightarrow> u16 \<Rightarrow> u32 \<Rightarrow> nat \<Rightarrow> nat \<Rightarrow> bool \<Rightarrow> u64 \<Rightarrow> rte_flow_action \<Rightarrow> rte_flow_action list
    \<Rightarrow> 'd st \<Rightarrow> handle \<times> 'd st" where
  "queue_action_handle_create api pid q a job postpone conf action actions s =
     (let is_age = (act_type action = RTE_FLOW_ACTION_TYPE_AGE);
          s1 = (if is_age then s\<lparr>age_context := (age_context s)(act_conf action := Some (CtxAction a))\<rparr>
                else s) in
      case rte_flow_async_action_handle_create api pid q postpone conf actions job
             (age_context s1) (dev s1) of (h, d) \<Rightarrow>
        (h, port_upd pid (actions_list_update (set_at pia_addr a
              (\<lambda>x. x\<lparr>pia_age_type := if is_age then ACTION_AGE_CONTEXT_TYPE_INDIRECT_ACTION
                                     else pia_age_type x,
                     pia_handle := h, pia_type := act_type action\<rparr>)))
            (s1\<lparr>dev := d\<rparr>)))"

definition queue_action_list_handle_create ::
  "('d, 'z) queue_api_scheme \<Rightarrow> u16 \<Rightarrow> u32 \<Rightarrow> nat \<Rightarrow> nat \<Rightarrow> bool \<Rightarrow> u64 \<Rightarrow> rte_flow_action list
    \<Rightarrow> 'd st \<Rightarrow> handle \<times> 'd st" where
  "queue_action_list_handle_create api pid q a job postpone conf actions s =
     (case rte_flow_async_action_list_handle_create api pid q postpone conf actions job
             (age_context s) (dev s) of (h, d) \<Rightarrow>
        (h, port_upd pid (actions_list_update (set_at pia_addr a
              (\<lambda>x. x\<lparr>pia_type := RTE_FLOW_ACTION_TYPE_INDIRECT_LIST, pia_handle := h\<rparr>)))
            (s\<lparr>dev := d\<rparr>)))"

definition async_action_kill ::
  "('d, 'z) queue_api_scheme \<Rightarrow> u16 \<Rightarrow> u32 \<Rightarrow> bool \<Rightarrow> port_indirect_action \<Rightarrow> int \<Rightarrow> 'd st
    \<Rightarrow> outcome \<times> int \<times> 'd st" where
  "async_action_kill api pid q postpone pia ret s =
     (case new_job api s of
        (None, s1) \<Rightarrow> (Abort, - ENOMEM, s1)
      | (Some j, s1) \<Rightarrow>
          (case (if pia_type pia = RTE_FLOW_ACTION_TYPE_INDIRECT_LIST
                 then rte_flow_async_action_list_handle_destroy api pid q postpone (pia_handle pia) j (dev s1)
                 else rte_flow_async_action_handle_destroy api pid q postpone (pia_handle pia) j (dev s1))
           of (rc, d) \<Rightarrow>
             (let s2 = s1\<lparr>dev := d\<rparr> in
              if rc \<noteq> 0 then (Kept, port_flow_complain api s2, s2)
              else (Removed, rc,
                    s2\<lparr>jobs := (j, \<lparr>job_type = QUEUE_JOB_TYPE_ACTION_DESTROY,
                                    job_ptr = Some (pia_addr pia)\<rparr>) # jobs s2,
                       unlinked_actions := pia # unlinked_actions s2\<rparr>))))"

definition port_queue_action_handle_destroy ::
  "('d, 'z) queue_api_scheme \<Rightarrow> u16 \<Rightarrow> u32 \<Rightarrow> bool \<Rightarrow> u32 list \<Rightarrow> 'd st \<Rightarrow> (int \<times> 'd st) option" where
  "port_queue_action_handle_destroy api pid q postpone ids s =
     (if bad_port s pid then Some (- EINVAL, s)
      else do {
        port \<leftarrow> port_get s pid;
        (if q \<ge> ucast (queue_nb port) then Some (- EINVAL, s)
         else (case destroy_loop (async_action_kill api pid q postpone) pia_id ids
                      (actions_list port) 0 s of
                 (ret, l, s') \<Rightarrow> Some (ret, port_upd pid (actions_list_update (\<lambda>_. l)) s')))
      })"

definition port_queue_action_handle_create ::
  "('d, 'z) queue_api_scheme \<Rightarrow> u16 \<Rightarrow> u32 \<Rightarrow> bool \<Rightarrow> u32 \<Rightarrow> u64 \<Rightarrow> rte_flow_action list \<Rightarrow> 'd st
    \<Rightarrow> (int \<times> 'd st) option" where
  "port_queue_action_handle_create api pid q postpone i conf actions s =
     (case actions of
        a0 # a1 # _ \<Rightarrow> do {
          (r, s1) \<leftarrow> action_alloc api pid i s;
          (case r of
             Inl e \<Rightarrow> Some (e, s1)
           | Inr a \<Rightarrow> do {
               port \<leftarrow> port_get s1 pid;
               (if q \<ge> ucast (queue_nb port) then Some (- EINVAL, s1) else
               (case new_job api s1 of
                 (None, s2) \<Rightarrow> Some (- ENOMEM, s2)
               | (Some j, s2) \<Rightarrow>
                  (case (if act_type a1 \<noteq> RTE_FLOW_ACTION_TYPE_END
                         then queue_action_list_handle_create api pid q a j postpone conf actions s2
                         else queue_action_handle_create api pid q a j postpone conf a0 actions s2)
                   of (h, s3) \<Rightarrow>
                     if h = 0 then do {
                       p3 \<leftarrow> port_get s3 pid;
                       pia \<leftarrow> find (\<lambda>x. pia_addr x = a) (actions_list p3);
                       (_, s4) \<leftarrow> port_queue_action_handle_destroy api pid q postpone [pia_id pia] s3;
                       Some (port_flow_complain api s4, s4)
                     } else Some (0, s3\<lparr>jobs := (j, \<lparr>job_type = QUEUE_JOB_TYPE_ACTION_CREATE,
                                                   job_ptr = Some a\<rparr>) # jobs s3\<rparr>))))
             })
        }
      | _ \<Rightarrow> None)"

text \<open>The asynchronous update passes a conntrack action as a whole, unlike the synchronous one.\<close>

definition async_update_arg ::
  "('d, 'z) act_api_scheme \<Rightarrow> rte_flow_action_type \<Rightarrow> rte_flow_action \<Rightarrow> action_update" where
  "async_update_arg api ty action =
     (case ty of
        RTE_FLOW_ACTION_TYPE_AGE \<Rightarrow> UpdateConf (act_conf action)
      | RTE_FLOW_ACTION_TYPE_METER_MARK \<Rightarrow>
          UpdateMeterMark (meter_mark_update (meter_mark_conf api (act_conf action)))
      | _ \<Rightarrow> UpdateAction action)"

definition port_queue_action_handle_update ::
  "('d, 'z) queue_api_scheme \<Rightarrow> u16 \<Rightarrow> u32 \<Rightarrow> bool \<Rightarrow> u32 \<Rightarrow> rte_flow_action \<Rightarrow> 'd st
    \<Rightarrow> (int \<times> 'd st) option" where
  "port_queue_action_handle_update api pid q postpone i action s = do {
     h \<leftarrow> port_action_handle_get_by_id pid i s;
     (if h = 0 then Some (- EINVAL, s)
      else do {
        port \<leftarrow> port_get s pid;
        (if q \<ge> ucast (queue_nb port) then Some (- EINVAL, s) else
        (case new_job api s of
          (None, s1) \<Rightarrow> Some (- ENOMEM, s1)
        | (Some j, s1) \<Rightarrow> do {
            pia \<leftarrow> action_get_by_id pid i s1;
            (case pia of
               None \<Rightarrow> Some (- EINVAL, s1)
             | Some x \<Rightarrow>
                 (case rte_flow_async_action_handle_update api pid q postpone h
                         (async_update_arg api (pia_type x) action) j (dev s1) of (rc, d) \<Rightarrow>
                    (let s2 = s1\<lparr>dev := d\<rparr> in
                     if rc \<noteq> 0 then Some (port_flow_complain api s2, s2)
                     else Some (0, s2\<lparr>jobs := (j, \<lparr>job_type = QUEUE_JOB_TYPE_ACTION_UPDATE,
                                                  job_ptr = None\<rparr>) # jobs s2\<rparr>))))
          }))
      })
   }"

definition port_queue_action_handle_query_update ::
  "('d, 'z) queue_api_scheme \<Rightarrow> u16 \<Rightarrow> u32 \<Rightarrow> bool \<Rightarrow> u32 \<Rightarrow> int \<Rightarrow> rte_flow_action \<Rightarrow> 'd st
    \<Rightarrow> 'd st option" where
  "port_queue_action_handle_query_update api pid q postpone i qu_mode action s = do {
     pia \<leftarrow> action_get_by_id pid i s;
     (case pia of
        None \<Rightarrow> Some s
      | Some x \<Rightarrow>
          if pia_handle x = 0 then Some s else
          (case new_job api s of
             (None, s1) \<Rightarrow> Some s1
           | (Some j, s1) \<Rightarrow>
               (case rte_flow_async_action_handle_query_update api pid q postpone (pia_handle x) action
                       qu_mode j (dev s1) of (rc, d) \<Rightarrow>
                  (let s2 = s1\<lparr>dev := d\<rparr> in
                   Some (if rc \<noteq> 0 then s2
                         else s2\<lparr>jobs := (j, \<lparr>job_type = QUEUE_JOB_TYPE_ACTION_QUERY,
                                             job_ptr = Some (pia_addr x)\<rparr>) # jobs s2\<rparr>)))))
   }"

definition port_queue_action_handle_query ::
  "('d, 'z) queue_api_scheme \<Rightarrow> u16 \<Rightarrow> u32 \<Rightarrow> bool \<Rightarrow> u32 \<Rightarrow> 'd st \<Rightarrow> (int \<times> 'd st) option" where
  "port_queue_action_handle_query api pid q postpone i s = do {
     pia \<leftarrow> action_get_by_id pid i s;
     (case pia of
        None \<Rightarrow> Some (- EINVAL, s)
      | Some x \<Rightarrow>
          if pia_handle x = 0 then Some (- EINVAL, s) else do {
            port \<leftarrow> port_get s pid;
            (if q \<ge> ucast (queue_nb port) then Some (- EINVAL, s) else
            (case new_job api s of
               (None, s1) \<Rightarrow> Some (- ENOMEM, s1)
             | (Some j, s1) \<Rightarrow>
                 (case rte_flow_async_action_query api pid q postpone (pia_handle x) j (dev s1) of (rc, d) \<Rightarrow>
                    (let s2 = s1\<lparr>dev := d\<rparr> in
                     if rc \<noteq> 0 then Some (port_flow_complain api s2, s2)
                     else Some (0, s2\<lparr>jobs := (j, \<lparr>job_type = QUEUE_JOB_TYPE_ACTION_QUERY,
                                                  job_ptr = Some (pia_addr x)\<rparr>) # jobs s2\<rparr>)))))
          })
   }"

section \<open>Pulling results\<close>

text \<open>Freeing a node that waits for its job; freeing anything else is undefined behaviour.\<close>

definition free_flow :: "nat \<Rightarrow> 'd st \<Rightarrow> 'd st option" where
  "free_flow a s =
     (if a \<in> pf_addr ` set (unlinked_flows s)
      then Some (s\<lparr>unlinked_flows := filter (\<lambda>f. pf_addr f \<noteq> a) (unlinked_flows s)\<rparr>)
      else None)"

definition free_action :: "nat \<Rightarrow> 'd st \<Rightarrow> 'd st option" where
  "free_action a s =
     (if a \<in> pia_addr ` set (unlinked_actions s)
      then Some (s\<lparr>unlinked_actions := filter (\<lambda>x. pia_addr x \<noteq> a) (unlinked_actions s)\<rparr>)
      else None)"

text \<open>The work done for one pulled job, before the job itself is freed.\<close>

definition finish_job ::
  "u16 \<Rightarrow> queue_job \<Rightarrow> u64 \<Rightarrow> 'd st \<Rightarrow> (query_report list \<times> 'd st) option" where
  "finish_job pid job query s =
     (case job_type job of
        QUEUE_JOB_TYPE_FLOW_DESTROY \<Rightarrow>
          do { a \<leftarrow> job_ptr job; s1 \<leftarrow> free_flow a s; Some ([], s1) }
      | QUEUE_JOB_TYPE_FLOW_UPDATE \<Rightarrow>
          do { a \<leftarrow> job_ptr job; s1 \<leftarrow> free_flow a s; Some ([], s1) }
      | QUEUE_JOB_TYPE_ACTION_DESTROY \<Rightarrow>
          do { a \<leftarrow> job_ptr job; s1 \<leftarrow> free_action a s; Some ([], s1) }
      | QUEUE_JOB_TYPE_ACTION_QUERY \<Rightarrow>
          do { a \<leftarrow> job_ptr job; pia \<leftarrow> action_at s a;
               Some ([port_action_handle_query_dump pid pia query], s) }
      | _ \<Rightarrow> Some ([], s))"

fun pull_loop ::
  "u16 \<Rightarrow> rte_flow_op_result list \<Rightarrow> 'd st \<Rightarrow> (query_report list \<times> 'd st) option" where
  "pull_loop pid [] s = Some ([], s)"
| "pull_loop pid (r # rs) s = do {
     job \<leftarrow> map_of (jobs s) (op_user_data r);
     (rep, s1) \<leftarrow> finish_job pid job (op_query r) s;
     (reps, s2) \<leftarrow> pull_loop pid rs
        (s1\<lparr>jobs := filter (\<lambda>j. fst j \<noteq> op_user_data r) (jobs s1)\<rparr>);
     Some (rep @ reps, s2)
   }"

text \<open>The code, the number of successful results, the printed queries and the state.\<close>

definition port_queue_flow_pull ::
  "('d, 'z) queue_api_scheme \<Rightarrow> u16 \<Rightarrow> u16 \<Rightarrow> 'd st \<Rightarrow> (int \<times> nat \<times> query_report list \<times> 'd st) option" where
  "port_queue_flow_pull api pid q s =
     (if bad_port s pid then Some (- EINVAL, 0, [], s)
      else do {
        port \<leftarrow> port_get s pid;
        (if q \<ge> queue_nb port then Some (- EINVAL, 0, [], s)
         else (case c_calloc api s of (ok, s1) \<Rightarrow>
           if \<not> ok then Some (- ENOMEM, 0, [], s1)
           else (case rte_flow_pull api pid (ucast q) (queue_sz port) (dev s1) of (ret, res, d) \<Rightarrow>
             (let s2 = s1\<lparr>dev := d\<rparr> in
              if ret < 0 then Some (- EINVAL, 0, [], s2)
              else if length res < nat ret \<or> unat (queue_sz port) < nat ret then None
              else do {
                (reps, s3) \<leftarrow> pull_loop pid (take (nat ret) res) s2;
                Some (ret, length (filter op_success (take (nat ret) res)), reps, s3)
              }))))
      })"

section \<open>Aged rules of a queue\<close>

text \<open>
  The inner loop pulls until as many successes were seen as rules remain, the outer one goes
  through the rules in chunks of the queue size.  Either loop may never end: the fuel bounds the
  number of iterations, and running out of it is the result \<open>None\<close>, as undefined behaviour is.
\<close>

fun aged_pull ::
  "nat \<Rightarrow> ('d, 'z) queue_api_scheme \<Rightarrow> u16 \<Rightarrow> u16 \<Rightarrow> u32 \<Rightarrow> nat \<Rightarrow> nat \<Rightarrow> int \<Rightarrow> 'd st
    \<Rightarrow> (int \<times> 'd st) option" where
  "aged_pull 0 api pid q qsz success nb ret s = None"
| "aged_pull (Suc fuel) api pid q qsz success nb ret s =
     (if success \<ge> nb then Some (ret, s)
      else (case rte_flow_pull api pid (ucast q) qsz (dev s) of (ret', res, d) \<Rightarrow>
        (let s1 = s\<lparr>dev := d\<rparr> in
         if ret' < 0 then Some (ret', s1)
         else if length res < nat ret' \<or> unat qsz < nat ret' then None
         else aged_pull fuel api pid q qsz
                (success + length (filter op_success (take (nat ret') res))) nb ret' s1)))"

fun aged_destroy_loop ::
  "nat \<Rightarrow> ('d, 'z) queue_api_scheme \<Rightarrow> u16 \<Rightarrow> u16 \<Rightarrow> u32 \<Rightarrow> u64 list \<Rightarrow> int \<Rightarrow> 'd st
    \<Rightarrow> (int \<times> 'd st) option" where
  "aged_destroy_loop 0 api pid q qsz rules ret s = None"
| "aged_destroy_loop (Suc fuel) api pid q qsz rules ret s =
     (if rules = [] then Some (ret, s)
      else (let n = min (length rules) (unat qsz) in do {
        (ret1, s1) \<leftarrow> port_queue_flow_destroy api pid q True (take n rules) s;
        (if ret1 < 0 then Some (ret1, s1)
         else (case rte_flow_push api pid (ucast q) (dev s1) of (ret2, d) \<Rightarrow>
           (let s2 = s1\<lparr>dev := d\<rparr> in
            if ret2 < 0 then Some (ret2, s2)
            else do {
              (ret3, s3) \<leftarrow> aged_pull fuel api pid q qsz 0 (length rules) ret2 s2;
              (if ret3 < 0 then Some (ret3, s3)
               else aged_destroy_loop fuel api pid q qsz (drop n rules) ret3 s3)
            })))
      }))"

definition port_queue_aged_flow_destroy ::
  "nat \<Rightarrow> ('d, 'z) queue_api_scheme \<Rightarrow> u16 \<Rightarrow> u16 \<Rightarrow> u64 list \<Rightarrow> 'd st \<Rightarrow> (int \<times> 'd st) option" where
  "port_queue_aged_flow_destroy fuel api pid q rules s = do {
     port \<leftarrow> port_get s pid;
     (case c_calloc api s of (ok, s1) \<Rightarrow>
        if \<not> ok then Some (- ENOMEM, s1)
        else aged_destroy_loop fuel api pid q (queue_sz port) rules 0 s1)
   }"

text \<open>
  The loop over the contexts.  \<open>cap\<close> is the size in bytes of the array for the identifiers, if
  there is one: it is allocated for 4 bytes per context and written with 8 bytes per rule.
\<close>

fun queue_aged_loop ::
  "nat option \<Rightarrow> age_ctx option list \<Rightarrow> u64 list \<Rightarrow> 'd st \<Rightarrow> (aged_row list \<times> u64 list) option" where
  "queue_aged_loop cap [] rules s = Some ([], rules)"
| "queue_aged_loop cap (None # cs) rules s =
     map_option (\<lambda>(rows, rl). (NullContext # rows, rl)) (queue_aged_loop cap cs rules s)"
| "queue_aged_loop cap (Some (CtxFlow a) # cs) rules s = do {
     pf \<leftarrow> flow_at s a;
     (if pf_age_type pf \<noteq> ACTION_AGE_CONTEXT_TYPE_FLOW then None
      else do {
        rules' \<leftarrow> (case cap of
                    None \<Rightarrow> Some rules
                  | Some c \<Rightarrow> if 8 * (length rules + 1) \<le> c then Some (rules @ [pf_id pf]) else None);
        (rows, rl) \<leftarrow> queue_aged_loop cap cs rules' s;
        Some (AgedFlow (pf_id pf) (rule_attr (pf_rule pf)) # rows, rl)
      })
   }"
| "queue_aged_loop cap (Some (CtxAction a) # cs) rules s = do {
     pia \<leftarrow> action_at s a;
     (if pia_age_type pia \<noteq> ACTION_AGE_CONTEXT_TYPE_INDIRECT_ACTION then None
      else do {
        (rows, rl) \<leftarrow> queue_aged_loop cap cs rules s;
        Some (AgedAction (pia_id pia) # rows, rl)
      })
   }"

text \<open>
  The printed rows with the final count, if the function gets that far, and the state.  A
  negative number of contexts asks \<^verbatim>\<open>malloc\<close> for more than the address space, which fails.
\<close>

definition port_queue_flow_aged ::
  "nat \<Rightarrow> ('d, 'z) queue_api_scheme \<Rightarrow> u16 \<Rightarrow> u32 \<Rightarrow> bool \<Rightarrow> 'd st
    \<Rightarrow> ((aged_row list \<times> nat) option \<times> 'd st) option" where
  "port_queue_flow_aged fuel api pid q destroy s =
     (if bad_port s pid then Some (None, s)
      else do {
        port \<leftarrow> port_get s pid;
        (if q \<ge> ucast (queue_nb port) then Some (None, s) else
        (case rte_flow_get_q_aged_count api pid q (dev s) of (tot, d) \<Rightarrow>
        (let s1 = s\<lparr>dev := d\<rparr> in
        if tot \<le> 0 then Some (None, s1) else
        (case c_calloc api s1 of (ok, s2) \<Rightarrow>
        if \<not> ok then Some (None, s2) else
        (case rte_flow_get_q_aged_flows api pid q (nat tot) (dev s2) of (nb, cs, d2) \<Rightarrow>
        (let s3 = s2\<lparr>dev := d2\<rparr> in
        if nb > tot then Some (None, s3) else
        (case (if destroy then c_calloc api s3 else (False, s3)) of (ok2, s4) \<Rightarrow>
          (let cap = (if destroy \<and> ok2 \<and> nb \<ge> 0 then Some (4 * nat nb) else None) in do {
             (rows, rules) \<leftarrow> queue_aged_loop cap
               (take (nat nb) (cs @ replicate (nat tot) None)) [] s4;
             (case cap of
                None \<Rightarrow> Some (Some (rows, 0), s4)
              | Some _ \<Rightarrow> do {
                  (_, s5) \<leftarrow> port_queue_aged_flow_destroy fuel api pid (ucast q) rules s4;
                  Some (Some (rows, length rules), s5)
                })
           }))))))))
      })"

end
