(* ===== verification/FlowHeap.thy ===== *)
theory FlowHeap
  imports FlowQueues
begin

text \<open>
  The rule nodes on the heap across synchronous and asynchronous commands: a rule is linked into
  one port's list or unlinked and waiting for its job, never both, every job that frees a rule
  has a rule of its own to free, and identifiers stay ordered.  The invariant is proved for every
  command that links, unlinks or frees rules, and by induction for every reachable state; it is
  what makes pulling results free of double frees.
\<close>

section \<open>The invariant\<close>

definition all_flows :: "'d st \<Rightarrow> port_flow list" where
  "all_flows s = concat (map flow_list (ports s)) @ unlinked_flows s"

definition flow_nodes_ok :: "'d st \<Rightarrow> bool" where
  "flow_nodes_ok s \<longleftrightarrow>
     distinct (map pf_addr (all_flows s)) \<and> (\<forall>f \<in> set (all_flows s). pf_addr f < brk s)"

definition ids_ok :: "port_flow list \<Rightarrow> bool" where
  "ids_ok l \<longleftrightarrow> desc_by pf_id l \<and> (\<forall>f \<in> set l. pf_id f \<le> 0xFFFFFFFF)"

definition flow_ids_ok :: "'d st \<Rightarrow> bool" where
  "flow_ids_ok s \<longleftrightarrow> (\<forall>p \<in> set (ports s). ids_ok (flow_list p))"

definition frees_flow :: "queue_job \<Rightarrow> bool" where
  "frees_flow j \<longleftrightarrow>
     job_type j = QUEUE_JOB_TYPE_FLOW_DESTROY \<or> job_type j = QUEUE_JOB_TYPE_FLOW_UPDATE"

text \<open>The pointers the jobs will free.\<close>

definition pending_frees :: "(nat \<times> queue_job) list \<Rightarrow> nat option list" where
  "pending_frees js = map (\<lambda>j. job_ptr (snd j)) (filter (\<lambda>j. frees_flow (snd j)) js)"

definition flow_jobs_ok :: "'d st \<Rightarrow> bool" where
  "flow_jobs_ok s \<longleftrightarrow>
     distinct (map fst (jobs s)) \<and> (\<forall>j \<in> set (jobs s). fst j < brk s) \<and>
     distinct (pending_frees (jobs s)) \<and>
     set (pending_frees (jobs s)) \<subseteq> Some ` pf_addr ` set (unlinked_flows s)"

definition flow_inv :: "'d st \<Rightarrow> bool" where
  "flow_inv s \<longleftrightarrow> flow_nodes_ok s \<and> flow_ids_ok s \<and> flow_jobs_ok s"

lemma pending_frees_simps [simp]:
  "pending_frees [] = []"
  "pending_frees (j # js) =
     (if frees_flow (snd j) then job_ptr (snd j) # pending_frees js else pending_frees js)"
  "pending_frees (is @ js) = pending_frees is @ pending_frees js"
  by (simp_all add: pending_frees_def)

section \<open>The rule nodes under updates\<close>

lemma concat_list_update:
  "i < length xs \<Longrightarrow>
     mset (concat (map f (xs[i := y]))) + mset (f (xs ! i)) = mset (concat (map f xs)) + mset (f y)"
proof (induction xs arbitrary: i)
  case (Cons x xs)
  then show ?case by (cases i) (auto simp: ac_simps)
qed simp

lemma all_flows_upd:
  assumes "port_get s pid = Some p"
  shows "mset (all_flows (port_upd pid (flow_list_update g) s)) + mset (flow_list p) =
    mset (all_flows s) + mset (g (flow_list p))"
proof -
  have i: "unat pid < length (ports s)" "ports s ! unat pid = p"
    using assms by (auto simp: port_get_def split: if_splits)
  show ?thesis
    using concat_list_update [OF i(1), of flow_list "flow_list_update g p"] i(2)
    by (simp add: all_flows_def port_upd_def ac_simps)
qed

lemma all_flows_cong:
  "ports s' = ports s \<Longrightarrow> unlinked_flows s' = unlinked_flows s \<Longrightarrow> all_flows s' = all_flows s"
  by (simp add: all_flows_def)

lemma distinct_submset:
  assumes "mset xs \<subseteq># mset ys" "distinct ys"
  shows "distinct xs"
  unfolding distinct_count_atmost_1
proof
  fix a
  have "count (mset xs) a \<le> count (mset ys) a" using assms(1) by (rule mset_subset_eq_count)
  also have "\<dots> \<le> 1" using assms(2) by (simp add: distinct_count_atmost_1)
  finally have "count (mset xs) a \<le> 1" .
  then show "count (mset xs) a = (if a \<in> set xs then 1 else 0)"
    using count_mset_0_iff [of xs a] by (cases "count (mset xs) a") auto
qed

text \<open>The node conditions of a port's list follow from the invariant.\<close>

lemma flow_inv_flow_ok:
  assumes "flow_inv s" "port_get s pid = Some p"
  shows "flow_ok (brk s) (flow_list p)"
proof -
  have p: "p \<in> set (ports s)" using assms(2) by (auto simp: port_get_def split: if_splits)
  then obtain ps qs where ps: "ports s = ps @ p # qs" by (meson split_list)
  have "distinct (map pf_addr (flow_list p))" "\<forall>f \<in> set (flow_list p). pf_addr f < brk s"
    using assms(1) ps by (auto simp: flow_inv_def flow_nodes_ok_def all_flows_def)
  with assms(1) p show ?thesis by (auto simp: flow_inv_def flow_ids_ok_def flow_ok_def ids_ok_def)
qed

lemma flow_ok_ids: "flow_ok b l \<Longrightarrow> ids_ok l"
  by (simp add: flow_ok_def ids_ok_def)

lemma ids_ok_map: "map pf_id l = map pf_id m \<Longrightarrow> ids_ok m \<Longrightarrow> ids_ok l"
proof -
  have e: "ids_ok zs \<longleftrightarrow> sorted_wrt (>) (map pf_id zs) \<and> (\<forall>x \<in> set (map pf_id zs). x \<le> 0xFFFFFFFF)" for zs
    by (simp add: ids_ok_def desc_by_def sorted_wrt_map)
  show "map pf_id l = map pf_id m \<Longrightarrow> ids_ok m \<Longrightarrow> ids_ok l" unfolding e by metis
qed

lemma flow_ids_upd:
  assumes "flow_ids_ok s" "port_get s pid = Some p" "ids_ok (g (flow_list p))"
  shows "flow_ids_ok (port_upd pid (flow_list_update g) s)"
proof -
  have i: "unat pid < length (ports s)" "ports s ! unat pid = p"
    using assms by (auto simp: port_get_def split: if_splits)
  show ?thesis
    unfolding flow_ids_ok_def
  proof
    fix q assume "q \<in> set (ports (port_upd pid (flow_list_update g) s))"
    then have "q \<in> insert (flow_list_update g p) (set (ports s))"
      using set_update_subset_insert [of "ports s" "unat pid" "flow_list_update g p"] i
      by (auto simp: port_upd_def)
    with assms show "ids_ok (flow_list q)" by (auto simp: flow_ids_ok_def)
  qed
qed

lemma flow_nodes_sub:
  assumes "flow_nodes_ok s" "mset (all_flows s') \<subseteq># mset (all_flows s)" "brk s \<le> brk s'"
  shows "flow_nodes_ok s'"
proof -
  have "mset (map pf_addr (all_flows s')) \<subseteq># mset (map pf_addr (all_flows s))"
    using assms(2) by (simp add: image_mset_subseteq_mono)
  then have "distinct (map pf_addr (all_flows s'))"
    by (rule distinct_submset) (use assms(1) in \<open>simp add: flow_nodes_ok_def\<close>)
  moreover have "set (all_flows s') \<subseteq> set (all_flows s)"
    using assms(2) by (metis set_mset_mono set_mset_mset)
  ultimately show ?thesis using assms(1,3) by (fastforce simp: flow_nodes_ok_def)
qed

lemma flow_nodes_add:
  assumes "flow_nodes_ok s" "mset (all_flows s') = add_mset f (mset (all_flows s))"
    "pf_addr f = brk s" "brk s < brk s'"
  shows "flow_nodes_ok s'"
proof -
  have "mset (map pf_addr (all_flows s')) = mset (pf_addr f # map pf_addr (all_flows s))"
    using assms(2) by simp
  moreover have "pf_addr f \<notin> pf_addr ` set (all_flows s)"
    using assms(1,3) by (auto simp: flow_nodes_ok_def)
  ultimately have "distinct (map pf_addr (all_flows s'))"
    using assms(1) by (metis distinct.simps(2) flow_nodes_ok_def list.set_map mset_eq_imp_distinct_iff)
  moreover have "set (all_flows s') = insert f (set (all_flows s))"
    using assms(2) by (metis set_mset_add_mset_insert set_mset_mset)
  ultimately show ?thesis using assms(1,3,4) by (auto simp: flow_nodes_ok_def)
qed

lemma flow_jobs_mono:
  assumes "flow_jobs_ok s" "jobs s' = jobs s" "brk s \<le> brk s'"
    "set (unlinked_flows s) \<subseteq> set (unlinked_flows s')"
  shows "flow_jobs_ok s'"
  using assms by (fastforce simp: flow_jobs_ok_def)

text \<open>A command that only touches other parts of the state.\<close>

lemma flow_inv_frame:
  assumes "flow_inv s" "map flow_list (ports s') = map flow_list (ports s)"
    "jobs s' = jobs s" "unlinked_flows s' = unlinked_flows s" "brk s \<le> brk s'"
  shows "flow_inv s'"
proof -
  have a: "all_flows s' = all_flows s" using assms(2,4) by (simp add: all_flows_def)
  have "flow_list ` set (ports s') = flow_list ` set (ports s)" using assms(2) by (metis list.set_map)
  then have "flow_ids_ok s'"
    using assms(1) unfolding flow_inv_def flow_ids_ok_def by (metis (no_types, lifting) image_iff)
  moreover have "flow_nodes_ok s'"
    using flow_nodes_sub [of s s'] a assms(1,5) by (simp add: flow_inv_def)
  moreover have "flow_jobs_ok s'"
    using flow_jobs_mono [of s s'] assms by (simp add: flow_inv_def)
  ultimately show ?thesis by (simp add: flow_inv_def)
qed

lemma flow_lists_upd:
  assumes "\<And>p. flow_list (f p) = flow_list p"
  shows "map flow_list (ports (port_upd pid f s)) = map flow_list (ports s)"
proof (cases "unat pid < length (ports s)")
  case True
  then have "(map flow_list (ports s))[unat pid := flow_list (ports s ! unat pid)] = map flow_list (ports s)"
    by (metis list_update_id nth_map)
  with assms show ?thesis by (simp add: port_upd_def map_update)
qed (simp add: port_upd_def list_update_beyond)

section \<open>Deferred release\<close>

text \<open>
  The contract of a release step that enqueues a job: an unlinked node is pushed on its waiting
  list together with a fresh job that names it; otherwise at most a job was allocated and freed
  again.
\<close>

definition deferred ::
  "queue_job_type \<Rightarrow> ('n \<Rightarrow> nat) \<Rightarrow> (('n list \<Rightarrow> 'n list) \<Rightarrow> 'd st \<Rightarrow> 'd st) \<Rightarrow> 'n list \<Rightarrow> 'd st \<Rightarrow> 'd st
    \<Rightarrow> bool" where
  "deferred jt addr put ns s s' \<longleftrightarrow>
     (\<exists>d b js. brk s \<le> b \<and> s' = put ((@) ns) (s\<lparr>dev := d, brk := b, jobs := js @ jobs s\<rparr>) \<and>
        map snd js = map (\<lambda>n. \<lparr>job_type = jt, job_ptr = Some (addr n)\<rparr>) ns \<and>
        distinct (map fst js) \<and> (\<forall>j \<in> set js. brk s \<le> fst j \<and> fst j < b))"

locale deferred_release =
  fixes kill :: "'n \<Rightarrow> int \<Rightarrow> 'd st \<Rightarrow> outcome \<times> int \<times> 'd st"
    and jt :: queue_job_type and addr :: "'n \<Rightarrow> nat"
    and put :: "('n list \<Rightarrow> 'n list) \<Rightarrow> 'd st \<Rightarrow> 'd st"
  assumes put_comp: "put f (put g s) = put (f \<circ> g) s"
    and put_ident: "put (\<lambda>l. l) s = s"
    and put_upd: "(put f s)\<lparr>dev := d, brk := b, jobs := js\<rparr> = put f (s\<lparr>dev := d, brk := b, jobs := js\<rparr>)"
    and put_brk: "brk (put f s) = brk s" and put_jobs: "jobs (put f s) = jobs s"
    and kill_deferred: "kill x ret s = (out, r, s') \<Longrightarrow>
          deferred jt addr put (if out = Removed then [x] else []) s s'"
begin

lemma deferred_refl: "deferred jt addr put [] s s"
proof -
  have "(@) [] = (\<lambda>l :: 'n list. l)" by (rule ext) simp
  then have "s = put ((@) []) (s\<lparr>dev := dev s, brk := brk s, jobs := [] @ jobs s\<rparr>)"
    by (simp add: put_ident)
  then show ?thesis unfolding deferred_def
    by (intro exI [of _ "dev s"] exI [of _ "brk s"] exI [of _ "[]"]) simp
qed

lemma deferred_trans:
  assumes "deferred jt addr put ns s t" "deferred jt addr put ms t u"
  shows "deferred jt addr put (ms @ ns) s u"
proof -
  obtain d b js where t: "t = put ((@) ns) (s\<lparr>dev := d, brk := b, jobs := js @ jobs s\<rparr>)"
    and js: "brk s \<le> b" "map snd js = map (\<lambda>n. \<lparr>job_type = jt, job_ptr = Some (addr n)\<rparr>) ns"
      "distinct (map fst js)" "\<forall>j \<in> set js. brk s \<le> fst j \<and> fst j < b"
    using assms(1) unfolding deferred_def by blast
  obtain e c ks where u: "u = put ((@) ms) (t\<lparr>dev := e, brk := c, jobs := ks @ jobs t\<rparr>)"
    and ks: "brk t \<le> c" "map snd ks = map (\<lambda>n. \<lparr>job_type = jt, job_ptr = Some (addr n)\<rparr>) ms"
      "distinct (map fst ks)" "\<forall>j \<in> set ks. brk t \<le> fst j \<and> fst j < c"
    using assms(2) unfolding deferred_def by blast
  have bt: "brk t = b" "jobs t = js @ jobs s" by (simp_all add: t put_brk put_jobs)
  have "(@) ms \<circ> (@) ns = (@) (ms @ ns)" by (rule ext) simp
  then have "u = put ((@) (ms @ ns)) (s\<lparr>dev := e, brk := c, jobs := (ks @ js) @ jobs s\<rparr>)"
    unfolding u bt unfolding t put_upd put_comp by simp
  moreover have "brk s \<le> c" "distinct (map fst (ks @ js))"
    "\<forall>j \<in> set (ks @ js). brk s \<le> fst j \<and> fst j < c"
    "map snd (ks @ js) = map (\<lambda>n. \<lparr>job_type = jt, job_ptr = Some (addr n)\<rparr>) (ms @ ns)"
    using js ks bt(1) by fastforce+
  ultimately show ?thesis unfolding deferred_def by blast
qed

lemma scan_deferred:
  "scan_ids kill key ids x ret s = (out, r, s') \<Longrightarrow>
     deferred jt addr put (if out = Removed then [x] else []) s s'"
proof (induction ids arbitrary: ret s)
  case (Cons i ids)
  show ?case
  proof (cases "i = key x")
    case True
    obtain o1 r1 s1 where k: "kill x ret s = (o1, r1, s1)" by (cases "kill x ret s")
    note kd = kill_deferred [OF k]
    show ?thesis
    proof (cases o1)
      case Kept
      with True k Cons.prems have "scan_ids kill key ids x r1 s1 = (out, r, s')" by simp
      from Cons.IH [OF this] kd Kept show ?thesis using deferred_trans by fastforce
    qed (use True k kd Cons.prems in auto)
  next
    case False
    with Cons show ?thesis by simp
  qed
qed (use deferred_refl in simp)

lemma destroy_deferred:
  "destroy_loop kill key ids xs ret s = (r, ys, s') \<Longrightarrow>
     \<exists>ns. deferred jt addr put ns s s' \<and> mset xs = mset ys + mset ns"
proof (induction xs arbitrary: ret s ys)
  case Nil
  with deferred_refl show ?case by fastforce
next
  case (Cons x xs)
  obtain o1 r1 s1 where k: "scan_ids kill key ids x ret s = (o1, r1, s1)"
    by (cases "scan_ids kill key ids x ret s")
  note kd = scan_deferred [OF k]
  show ?case
  proof (cases o1)
    case Removed
    with Cons.prems k obtain ns where "deferred jt addr put ns s1 s'" "mset xs = mset ys + mset ns"
      using Cons.IH by fastforce
    with kd Removed deferred_trans have "deferred jt addr put (ns @ [x]) s s'" by fastforce
    with \<open>mset xs = mset ys + mset ns\<close> show ?thesis by (intro exI [of _ "ns @ [x]"]) simp
  next
    case Kept
    obtain r2 zs s2 where z: "destroy_loop kill key ids xs r1 s1 = (r2, zs, s2)"
      by (cases "destroy_loop kill key ids xs r1 s1")
    with Kept k Cons.prems have e: "r2 = r" "s2 = s'" "ys = x # zs" by simp_all
    from Cons.IH [OF z [unfolded e]] obtain ns
      where n: "deferred jt addr put ns s1 s'" "mset xs = mset zs + mset ns" by blast
    with kd Kept deferred_trans have "deferred jt addr put (ns @ []) s s'" by fastforce
    with n e show ?thesis by auto
  next
    case Abort
    with k kd Cons.prems show ?thesis by (intro exI [of _ "[]"]) auto
  qed
qed

end

lemma new_job_cases:
  assumes "new_job api s = (j, s1)"
  shows "\<exists>d. (j = None \<and> s1 = s\<lparr>dev := d\<rparr>) \<or> (j = Some (brk s) \<and> s1 = s\<lparr>dev := d, brk := Suc (brk s)\<rparr>)"
  using assms by (auto simp: new_job_def c_calloc_def split: prod.splits if_splits)

lemma async_flow_kill_deferred:
  assumes "async_flow_kill api pid q postpone x ret s = (out, r, s')"
  shows "deferred QUEUE_JOB_TYPE_FLOW_DESTROY pf_addr unlinked_flows_update
     (if out = Removed then [x] else []) s s'"
proof -
  have nil: "(@) [] = (\<lambda>l :: port_flow list. l)" by (rule ext) simp
  obtain j s1 where n: "new_job api s = (j, s1)" by (cases "new_job api s")
  from new_job_cases [OF n] obtain d where
    "(j = None \<and> s1 = s\<lparr>dev := d\<rparr>) \<or> (j = Some (brk s) \<and> s1 = s\<lparr>dev := d, brk := Suc (brk s)\<rparr>)"
    by blast
  then show ?thesis
  proof
    assume "j = None \<and> s1 = s\<lparr>dev := d\<rparr>"
    with assms n have "out = Abort" "s' = s\<lparr>dev := d, brk := brk s, jobs := [] @ jobs s\<rparr>"
      by (auto simp: async_flow_kill_def)
    then show ?thesis unfolding deferred_def
      by (intro exI [of _ d] exI [of _ "brk s"] exI [of _ "[]"]) (simp add: nil)
  next
    assume a: "j = Some (brk s) \<and> s1 = s\<lparr>dev := d, brk := Suc (brk s)\<rparr>"
    obtain rc e where c: "rte_flow_async_destroy api pid q postpone (pf_flow x) (brk s) d = (rc, e)"
      by (cases "rte_flow_async_destroy api pid q postpone (pf_flow x) (brk s) d")
    show ?thesis
    proof (cases "rc = 0")
      case True
      with a c assms n have "out = Removed" "s' = unlinked_flows_update ((@) [x])
          (s\<lparr>dev := e, brk := Suc (brk s), jobs := [(brk s, \<lparr>job_type = QUEUE_JOB_TYPE_FLOW_DESTROY,
             job_ptr = Some (pf_addr x)\<rparr>)] @ jobs s\<rparr>)"
        by (auto simp: async_flow_kill_def Let_def)
      then show ?thesis unfolding deferred_def
        by (intro exI [of _ e] exI [of _ "Suc (brk s)"] exI [of _ "[(brk s,
          \<lparr>job_type = QUEUE_JOB_TYPE_FLOW_DESTROY, job_ptr = Some (pf_addr x)\<rparr>)]"]) simp
    next
      case False
      with a c assms n have "out = Kept" "s' = s\<lparr>dev := e, brk := Suc (brk s), jobs := [] @ jobs s\<rparr>"
        by (auto simp: async_flow_kill_def Let_def)
      then show ?thesis unfolding deferred_def
        by (intro exI [of _ e] exI [of _ "Suc (brk s)"] exI [of _ "[]"]) (simp add: nil)
    qed
  qed
qed

interpretation afk: deferred_release "async_flow_kill api pid q postpone" QUEUE_JOB_TYPE_FLOW_DESTROY
  pf_addr unlinked_flows_update
  for api :: "('d, 'z) queue_api_scheme" and pid q postpone
proof unfold_locales
  fix x ret and s :: "'d st" and out r s'
  assume "async_flow_kill api pid q postpone x ret s = (out, r, s')"
  then show "deferred QUEUE_JOB_TYPE_FLOW_DESTROY pf_addr unlinked_flows_update
      (if out = Removed then [x] else []) s s'"
    by (rule async_flow_kill_deferred)
qed (simp_all add: comp_def)

section \<open>Preservation\<close>

lemma flow_inv_replace:
  assumes inv: "flow_inv s" and p: "port_get s pid = Some p"
    and s1: "ports s1 = ports s" "brk s \<le> brk s1" "ids_ok (g (flow_list p))"
    and nodes: "flow_nodes_ok (port_upd pid (flow_list_update g) s1)"
    and jobs: "flow_jobs_ok s1"
  shows "flow_inv (port_upd pid (flow_list_update g) s1)"
proof -
  have "port_get s1 pid = Some p" using p port_get_cong [OF s1(1)] by simp
  moreover have "flow_ids_ok s1" using inv s1(1) by (simp add: flow_inv_def flow_ids_ok_def)
  ultimately have "flow_ids_ok (port_upd pid (flow_list_update g) s1)"
    using flow_ids_upd s1(3) by blast
  moreover have "flow_jobs_ok (port_upd pid (flow_list_update g) s1)"
    using jobs by (simp add: flow_jobs_ok_def)
  ultimately show ?thesis using nodes by (simp add: flow_inv_def)
qed

text \<open>Rules that leave the list and are freed at once.\<close>

lemma flow_inv_remove:
  assumes inv: "flow_inv s" and p: "port_get s pid = Some p"
    and s1: "same_heap s s1" and l: "subseq l (flow_list p)"
  shows "flow_inv (port_upd pid (flow_list_update (\<lambda>_. l)) s1)"
proof -
  note f = same_heap_fields [OF s1]
  let ?s = "port_upd pid (flow_list_update (\<lambda>_. l)) s1"
  have ok: "flow_ok (brk s) l" using flow_ok_subseq [OF l flow_inv_flow_ok [OF inv p]] .
  have p1: "port_get s1 pid = Some p" using p same_heap_port_get [OF s1] by simp
  have "all_flows s1 = all_flows s" using f by (simp add: all_flows_def)
  then have "mset (all_flows ?s) \<subseteq># mset (all_flows s)"
    using mset_exchange_sub [OF all_flows_upd [OF p1] mset_subseq [OF l]] by simp
  then have "flow_nodes_ok ?s"
    using flow_nodes_sub [of s ?s] inv f by (simp add: flow_inv_def)
  moreover have "flow_jobs_ok s1"
    using inv f flow_jobs_mono [of s s1] by (simp add: flow_inv_def)
  ultimately show ?thesis
    using flow_inv_replace [OF inv p, where g = "\<lambda>_. l" and ?s1.0 = s1] flow_ok_ids [OF ok] f by simp
qed

lemma flow_destroy_inv:
  assumes "flow_inv s" "port_flow_destroy api pid rules is_user_id s = Some (r, s')"
  shows "flow_inv s'"
proof (cases "bad_port s pid")
  case True
  with assms show ?thesis by (simp add: port_flow_destroy_def destroy_in_def)
next
  case False
  from assms(2) False obtain p where p: "port_get s pid = Some p"
    by (cases "port_get s pid") (simp_all add: port_flow_destroy_def destroy_in_def)
  obtain r1 l s1 where
    d: "destroy_loop (flow_kill api pid) (flow_key is_user_id) rules (flow_list p) 0 s = (r1, l, s1)"
    "same_heap s s1" "port_flow_destroy api pid rules is_user_id s =
       Some (r1, port_upd pid (flow_list_update (\<lambda>_. l)) s1)"
    using fl.destroy_in_loop [OF False p] unfolding port_flow_destroy_def by blast
  from d(3) assms(2) have "s' = port_upd pid (flow_list_update (\<lambda>_. l)) s1" by simp
  with flow_inv_remove [OF assms(1) p d(2) destroy_loop_subseq [OF d(1)]] show ?thesis by simp
qed

lemma flow_flush_inv:
  assumes inv: "flow_inv s" and r: "port_flow_flush api pid s = Some (r, s')"
  shows "flow_inv s'"
proof (cases "bad_port s pid")
  case True
  with assms show ?thesis by (simp add: port_flow_flush_def)
next
  case False
  with r obtain p where p: "port_get s pid = Some p"
    by (cases "port_get s pid") (simp_all add: port_flow_flush_def)
  obtain rc d where c: "rte_flow_flush api pid (dev s) = (rc, d)"
    by (cases "rte_flow_flush api pid (dev s)")
  show ?thesis
  proof (cases "flow_list p = []")
    case True
    with r p False inv show ?thesis by (simp add: port_flow_flush_def)
  next
    case nonempty: False
    with r p c False have "s' = port_upd pid (flow_list_update (\<lambda>_. [])) (s\<lparr>dev := d\<rparr>)"
      by (simp add: port_flow_flush_def)
    with flow_inv_remove [OF inv p same_heap_dev, of "[]" d] show ?thesis by simp
  qed
qed

text \<open>Rules that leave the list and wait for their job.\<close>

lemma pending_deferred:
  "map snd js = map (\<lambda>n. \<lparr>job_type = QUEUE_JOB_TYPE_FLOW_DESTROY, job_ptr = Some (a n)\<rparr>) ns
    \<Longrightarrow> pending_frees js = map (\<lambda>n. Some (a n)) ns"
proof (induction js arbitrary: ns)
  case (Cons j js)
  then show ?case by (cases ns) (auto simp: frees_flow_def)
qed simp

lemma all_flows_linked:
  "port_get s pid = Some p \<Longrightarrow> f \<in> set (flow_list p) \<Longrightarrow> f \<in> set (concat (map flow_list (ports s)))"
  by (auto simp: port_get_def split: if_splits intro!: bexI [of _ p])

lemma linked_not_waiting:
  assumes "flow_nodes_ok s" "port_get s pid = Some p" "f \<in> set (flow_list p)"
  shows "pf_addr f \<notin> pf_addr ` set (unlinked_flows s)"
  using assms(1) imageI [OF all_flows_linked [OF assms(2,3)], of pf_addr]
  unfolding flow_nodes_ok_def all_flows_def by auto

lemma linked_not_pending:
  assumes "flow_inv s" "port_get s pid = Some p" "f \<in> set (flow_list p)"
  shows "Some (pf_addr f) \<notin> set (pending_frees (jobs s))"
proof
  assume "Some (pf_addr f) \<in> set (pending_frees (jobs s))"
  with assms(1) have "Some (pf_addr f) \<in> Some ` pf_addr ` set (unlinked_flows s)"
    unfolding flow_inv_def flow_jobs_ok_def by blast
  then have "pf_addr f \<in> pf_addr ` set (unlinked_flows s)" by auto
  with linked_not_waiting assms show False unfolding flow_inv_def by blast
qed

lemma flow_inv_defer:
  assumes inv: "flow_inv s" and p: "port_get s pid = Some p"
    and d: "deferred QUEUE_JOB_TYPE_FLOW_DESTROY pf_addr unlinked_flows_update ns s s1"
    and m: "mset (flow_list p) = mset l + mset ns" and l: "subseq l (flow_list p)"
  shows "flow_inv (port_upd pid (flow_list_update (\<lambda>_. l)) s1)"
proof -
  obtain d' b js where b: "brk s \<le> b"
    and s1: "s1 = unlinked_flows_update ((@) ns) (s\<lparr>dev := d', brk := b, jobs := js @ jobs s\<rparr>)"
    and js: "map snd js = map (\<lambda>n. \<lparr>job_type = QUEUE_JOB_TYPE_FLOW_DESTROY, job_ptr = Some (pf_addr n)\<rparr>) ns"
      "distinct (map fst js)" "\<forall>j \<in> set js. brk s \<le> fst j \<and> fst j < b"
    using d unfolding deferred_def by blast
  let ?s = "port_upd pid (flow_list_update (\<lambda>_. l)) s1"
  have ok: "flow_ok (brk s) (flow_list p)" by (rule flow_inv_flow_ok [OF inv p])
  have nodes: "flow_nodes_ok s" and jobs: "flow_jobs_ok s" using inv by (auto simp: flow_inv_def)
  have p1: "port_get s1 pid = Some p" using p port_get_cong [of s1 s pid] s1 by simp
  have "mset (all_flows s1) = mset (all_flows s) + mset ns" by (simp add: s1 all_flows_def)
  with all_flows_upd [OF p1, of "\<lambda>_. l"] m have "mset (all_flows ?s) = mset (all_flows s)"
    by (simp add: ac_simps)
  then have n: "flow_nodes_ok ?s"
    using flow_nodes_sub [of s ?s] nodes b by (simp add: s1)
  have ns: "set ns \<subseteq> set (flow_list p)" using m by (metis mset_subset_eq_add_right set_mset_mono set_mset_mset)
  have "distinct (map pf_addr ns)"
    using ok m distinct_submset [of "map pf_addr ns" "map pf_addr (flow_list p)"]
    by (simp add: flow_ok_def)
  then have "distinct (pending_frees js)"
    unfolding pending_deferred [OF js(1)] by (simp add: distinct_map inj_on_def)
  moreover have "set (pending_frees js) \<inter> set (pending_frees (jobs s)) = {}"
    using ns linked_not_pending [OF inv p] unfolding pending_deferred [OF js(1)] by auto
  moreover have "set (pending_frees js) \<subseteq> Some ` pf_addr ` set ns"
    unfolding pending_deferred [OF js(1)] by auto
  moreover have "fst ` set js \<inter> fst ` set (jobs s) = {}"
    using js(3) jobs by (force simp: flow_jobs_ok_def)
  ultimately have pf: "distinct (pending_frees (js @ jobs s))" "distinct (map fst (js @ jobs s))"
    "set (pending_frees (js @ jobs s)) \<subseteq> Some ` pf_addr ` set (ns @ unlinked_flows s)"
    using jobs js(2) unfolding flow_jobs_ok_def by (simp, simp, auto simp: image_Un)
  have "\<forall>j \<in> set (js @ jobs s). fst j < b"
    using js(3) jobs b by (auto simp: flow_jobs_ok_def intro: less_le_trans)
  with pf have "flow_jobs_ok s1" by (simp add: flow_jobs_ok_def s1 image_Un)
  with n show ?thesis
    using flow_inv_replace [OF inv p, where g = "\<lambda>_. l" and ?s1.0 = s1]
      flow_ok_ids [OF flow_ok_subseq [OF l ok]] b by (simp add: s1)
qed

lemma queue_flow_destroy_inv:
  assumes inv: "flow_inv s" and r: "port_queue_flow_destroy api pid q postpone rules s = Some (r, s')"
  shows "flow_inv s'"
proof (cases "bad_port s pid")
  case True
  with assms show ?thesis by (simp add: port_queue_flow_destroy_def)
next
  case False
  with r obtain p where p: "port_get s pid = Some p"
    by (cases "port_get s pid") (simp_all add: port_queue_flow_destroy_def)
  show ?thesis
  proof (cases "q \<ge> queue_nb p")
    case True
    with r p False inv show ?thesis by (simp add: port_queue_flow_destroy_def)
  next
    case q: False
    obtain r1 l s1 where d: "destroy_loop (async_flow_kill api pid (ucast q) postpone) pf_id rules
        (flow_list p) 0 s = (r1, l, s1)"
      by (cases "destroy_loop (async_flow_kill api pid (ucast q) postpone) pf_id rules (flow_list p) 0 s")
    with r p False q have s': "s' = port_upd pid (flow_list_update (\<lambda>_. l)) s1"
      by (simp add: port_queue_flow_destroy_def)
    from afk.destroy_deferred [OF d] obtain ns where
      "deferred QUEUE_JOB_TYPE_FLOW_DESTROY pf_addr unlinked_flows_update ns s s1"
      "mset (flow_list p) = mset l + mset ns" by blast
    with flow_inv_defer [OF inv p] destroy_loop_subseq [OF d] s' show ?thesis by blast
  qed
qed

text \<open>A new rule in front of a port's list, and a new rule that is linked nowhere.\<close>

lemma port_flow_new_shape:
  "port_flow_new api attr pattern actions s = (r, s1) \<Longrightarrow>
    \<exists>d. (r = None \<and> s1 = s\<lparr>dev := d\<rparr>) \<or>
        (\<exists>c. r = Some (blank_flow (brk s) c) \<and> s1 = s\<lparr>dev := d, brk := Suc (brk s)\<rparr>)"
  by (auto simp: port_flow_new_def c_calloc_def blank_flow_def Let_def split: prod.splits if_splits)

lemma flow_inv_link:
  assumes inv: "flow_inv s" and p: "port_get s pid = Some p"
    and i: "next_flow_id (flow_list p) = Some i" and f: "pf_addr f = brk s" "pf_id f = ucast i"
    and s1: "ports s1 = ports s" "brk s < brk s1" "unlinked_flows s1 = unlinked_flows s"
    and j: "flow_jobs_ok s1"
  shows "flow_inv (port_upd pid (flow_list_update ((#) f)) s1)"
proof -
  let ?s = "port_upd pid (flow_list_update ((#) f)) s1"
  have ok: "flow_ok (brk s) (flow_list p)" by (rule flow_inv_flow_ok [OF inv p])
  have p1: "port_get s1 pid = Some p" using p port_get_cong [OF s1(1)] by simp
  have "all_flows s1 = all_flows s" using s1 by (simp add: all_flows_def)
  with all_flows_upd [OF p1, of "(#) f"] have "mset (all_flows ?s) = add_mset f (mset (all_flows s))"
    by simp
  then have "flow_nodes_ok ?s"
    using flow_nodes_add [of s ?s f] inv f(1) s1(2) by (simp add: flow_inv_def)
  moreover have "ids_ok (f # flow_list p)"
    using ok next_flow_id_fresh [OF ok i] f by (auto simp: flow_ok_def ids_ok_def)
  ultimately show ?thesis
    using flow_inv_replace [OF inv p, where g = "(#) f" and ?s1.0 = s1] s1(1,2) j
    by simp
qed

lemma flow_inv_park:
  assumes "flow_inv s" "pf_addr f = brk s" "ports s1 = ports s" "brk s < brk s1"
    "jobs s1 = jobs s" "unlinked_flows s1 = f # unlinked_flows s"
  shows "flow_inv s1"
proof -
  have "mset (all_flows s1) = add_mset f (mset (all_flows s))" using assms by (simp add: all_flows_def)
  then have "flow_nodes_ok s1" using flow_nodes_add [of s s1 f] assms by (simp add: flow_inv_def)
  moreover have "flow_ids_ok s1" using assms by (simp add: flow_inv_def flow_ids_ok_def)
  moreover have "flow_jobs_ok s1"
    using flow_jobs_mono [of s s1] assms by (auto simp: flow_inv_def)
  ultimately show ?thesis by (simp add: flow_inv_def)
qed

text \<open>A new job that frees nothing.\<close>

lemma flow_jobs_new:
  assumes "flow_jobs_ok s" "jobs s1 = (j, jb) # jobs s" "\<not> frees_flow jb" "brk s \<le> j" "j < brk s1"
    "unlinked_flows s1 = unlinked_flows s"
  shows "flow_jobs_ok s1"
  using assms by (fastforce simp: flow_jobs_ok_def)

lemma flow_inv_upd_fields [simp]:
  "flow_inv (s\<lparr>dev := d\<rparr>) = flow_inv s" "flow_inv (s\<lparr>age_context := c\<rparr>) = flow_inv s"
  by (simp_all add: flow_inv_def flow_nodes_ok_def flow_ids_ok_def flow_jobs_ok_def all_flows_def)

lemma flow_inv_brk: "flow_inv s \<Longrightarrow> brk s \<le> b \<Longrightarrow> flow_inv (s\<lparr>brk := b\<rparr>)"
  by (erule flow_inv_frame) simp_all

lemma tunnel_frame_inv: "tunnel_frame pid s s' \<Longrightarrow> flow_inv s \<Longrightarrow> flow_inv s'"
  by (erule tunnel_frameE) (auto intro!: flow_inv_frame [of s] simp: flow_lists_upd)

lemma flow_create_with_inv:
  assumes inv: "flow_inv s" and p: "port_get s pid = Some p"
    and i: "next_flow_id (flow_list p) = Some i"
    and rel: "\<And>w. flow_inv w \<Longrightarrow> flow_inv (release w)"
  shows "flow_inv (snd (flow_create_with api pid i attr pattern actions age user_id release s))"
proof -
  obtain r s1 where n: "port_flow_new api attr pattern actions s = (r, s1)"
    by (cases "port_flow_new api attr pattern actions s")
  from port_flow_new_shape [OF n] obtain d where
    "(r = None \<and> s1 = s\<lparr>dev := d\<rparr>) \<or>
     (\<exists>c. r = Some (blank_flow (brk s) c) \<and> s1 = s\<lparr>dev := d, brk := Suc (brk s)\<rparr>)" by blast
  then show ?thesis
  proof (elim disjE exE conjE)
    assume "r = None" "s1 = s\<lparr>dev := d\<rparr>"
    with n inv show ?thesis by (simp add: flow_create_with_def)
  next
    fix c assume r: "r = Some (blank_flow (brk s) c)" and s1: "s1 = s\<lparr>dev := d, brk := Suc (brk s)\<rparr>"
    define s2 where "s2 = (case age of None \<Rightarrow> s1 | Some conf \<Rightarrow>
      s1\<lparr>age_context := (age_context s1)(conf := Some (CtxFlow (pf_addr (blank_flow (brk s) c))))\<rparr>)"
    obtain h e where cr: "rte_flow_create api pid attr pattern actions (age_context s2) (dev s2) = (h, e)"
      by (cases "rte_flow_create api pid attr pattern actions (age_context s2) (dev s2)")
    define s3 where "s3 = s2\<lparr>dev := e\<rparr>"
    have f: "ports s3 = ports s" "brk s3 = Suc (brk s)" "unlinked_flows s3 = unlinked_flows s"
      "jobs s3 = jobs s" by (cases age; simp add: s3_def s2_def s1)+
    have i3: "flow_inv s3" using flow_inv_frame [OF inv, of s3] f by simp
    then have j3: "flow_jobs_ok s3" by (simp add: flow_inv_def)
    have res: "flow_create_with api pid i attr pattern actions age user_id release s =
       (if h = 0 then (port_flow_complain api (release s3), release s3)
        else (0, release (port_upd pid (flow_list_update ((#) ((blank_flow (brk s) c)
           \<lparr>pf_id := ucast i, pf_user_id := user_id, pf_flow := h\<rparr>))) s3)))"
      using n r cr unfolding s3_def s2_def
      by (cases age) (simp_all add: flow_create_with_def Let_def)
    show ?thesis
    proof (cases "h = 0")
      case True
      with res rel i3 show ?thesis by simp
    next
      case False
      have "flow_inv (port_upd pid (flow_list_update ((#) ((blank_flow (brk s) c)
           \<lparr>pf_id := ucast i, pf_user_id := user_id, pf_flow := h\<rparr>))) s3)"
        by (rule flow_inv_link [OF inv p i]) (use f j3 in \<open>simp_all add: blank_flow_def\<close>)
      with res rel False show ?thesis by simp
    qed
  qed
qed

lemma flow_create_inv:
  assumes inv: "flow_inv s" and r: "port_flow_create api pid attr pattern actions ops user_id s = Some (r, s')"
  shows "flow_inv s'"
proof -
  obtain age where a: "age_action_get actions = Some age"
    using r by (cases "age_action_get actions") (simp_all add: port_flow_create_def)
  obtain p where p: "port_get s pid = Some p"
    using r a by (cases "port_get s pid") (simp_all add: port_flow_create_def)
  show ?thesis
  proof (cases "next_flow_id (flow_list p)")
    case None
    with r a p inv show ?thesis by (simp add: port_flow_create_def)
  next
    case (Some i)
    show ?thesis
    proof (cases "ops_enabled ops")
      case False
      with r a p Some have "s' = snd (flow_create_with api pid i attr pattern actions age user_id (\<lambda>w. w) s)"
        by (simp add: port_flow_create_def)
      with flow_create_with_inv [OF inv p Some, of "\<lambda>w. w"] show ?thesis by simp
    next
      case True
      obtain t s1 where pr: "port_flow_tunnel_offload_cmd_prep api pid pattern actions ops s = Some (t, s1)"
        using r a p Some True
        by (cases "port_flow_tunnel_offload_cmd_prep api pid pattern actions ops s")
           (auto simp: port_flow_create_def)
      have fr: "tunnel_frame pid s s1" by (rule offload_prep_frame [OF pr])
      obtain l where p1: "port_get s1 pid = Some (p\<lparr>flow_tunnel_list := l\<rparr>)"
        using tunnel_frame_port(1) [OF fr p] by blast
      have i1: "flow_inv s1" by (rule tunnel_frame_inv [OF fr inv])
      show ?thesis
      proof (cases t)
        case None
        with r a p Some True pr i1 show ?thesis
          by (simp add: port_flow_create_def \<open>next_flow_id (flow_list p) = Some i\<close>)
      next
        case (Some ft)
        let ?rel = "port_flow_tunnel_offload_cmd_release api pid ops ft"
        have "s' = snd (flow_create_with api pid i attr
            (case ft_items ft of Some its \<Rightarrow> its | None \<Rightarrow> pattern)
            (case ft_actions ft of Some as \<Rightarrow> as | None \<Rightarrow> actions) age user_id ?rel s1)"
          using r a p True pr Some \<open>next_flow_id (flow_list p) = Some i\<close>
          by (simp add: port_flow_create_def)
        moreover have "flow_inv (?rel w)" if "flow_inv w" for w
          using tunnel_frame_inv [OF offload_release_frame that] .
        ultimately show ?thesis
          using flow_create_with_inv [OF i1 p1, of i ?rel] \<open>next_flow_id (flow_list p) = Some i\<close> by simp
      qed
    qed
  qed
qed

lemma set_age_fields [simp]:
  "ports (set_age age c s) = ports s" "eth_devs (set_age age c s) = eth_devs s"
  "jobs (set_age age c s) = jobs s" "unlinked_flows (set_age age c s) = unlinked_flows s"
  "unlinked_actions (set_age age c s) = unlinked_actions s" "brk (set_age age c s) = brk s"
  "dev (set_age age c s) = dev s"
  by (cases age; simp add: set_age_def)+

text \<open>The common part of the asynchronous create and update commands: a job and a rule node.\<close>

lemma new_job_flow:
  assumes "new_job api s = (Some j, s1)" "port_flow_new api attr pattern actions s1 = (Some f, s2)"
  shows "j = brk s \<and> (\<exists>c. f = blank_flow (Suc (brk s)) c) \<and> ports s2 = ports s \<and>
    eth_devs s2 = eth_devs s \<and> jobs s2 = jobs s \<and>
    unlinked_flows s2 = unlinked_flows s \<and> unlinked_actions s2 = unlinked_actions s \<and>
    brk s2 = Suc (Suc (brk s))"
  using new_job_cases [OF assms(1)] port_flow_new_shape [OF assms(2)] by auto

lemma new_job_flow_fail:
  "flow_inv s \<Longrightarrow> new_job api s = (j, s1) \<Longrightarrow> flow_inv s1"
  "flow_inv s1 \<Longrightarrow> port_flow_new api attr pattern actions s1 = (None, s2) \<Longrightarrow> flow_inv s2"
  using new_job_cases [of api s j s1] port_flow_new_shape [of api attr pattern actions s1 None s2]
  by (auto intro: flow_inv_brk)

text \<open>
  The ways out of the asynchronous create command: a guard fails, an allocation fails, the driver
  refuses the rule, the rule is linked.
\<close>

definition queue_create_guards ::
  "u16 \<Rightarrow> u16 \<Rightarrow> u32 \<Rightarrow> u32 \<Rightarrow> u32 \<Rightarrow> 'd st \<Rightarrow> rte_port \<Rightarrow> u32 \<Rightarrow> port_table \<Rightarrow> bool" where
  "queue_create_guards pid q tid pidx aidx s p i pt \<longleftrightarrow>
     port_get s pid = Some p \<and> next_flow_id (flow_list p) = Some i \<and> q < queue_nb p \<and>
     find (\<lambda>t. tb_id t = tid) (table_list p) = Some pt \<and>
     pidx < nb_pattern_templates pt \<and> aidx < nb_actions_templates pt"

lemma queue_create_split:
  assumes "port_queue_flow_create api pid q postpone tid ridx pidx aidx pattern actions s = Some (r, s')"
  shows "(r \<noteq> 0 \<and> s' = s) \<or>
    (\<exists>age p i pt. age_action_get actions = Some age \<and> queue_create_guards pid q tid pidx aidx s p i pt \<and>
       queue_create_tail api pid q postpone ridx pidx aidx pattern actions age i pt s = Some (r, s'))"
proof -
  obtain age where a: "age_action_get actions = Some age"
    using assms by (cases "age_action_get actions") (simp_all add: port_queue_flow_create_def)
  obtain p where p: "port_get s pid = Some p"
    using assms a by (cases "port_get s pid") (simp_all add: port_queue_flow_create_def)
  note e = assms [unfolded port_queue_flow_create_def a p Option.bind.simps]
  show ?thesis
  proof (cases "next_flow_id (flow_list p)")
    case None
    with e show ?thesis by simp
  next
    case i: (Some i)
    show ?thesis
    proof (cases "find (\<lambda>t. tb_id t = tid) (table_list p)")
      case None
      with e i show ?thesis by (simp split: if_splits)
    next
      case (Some pt)
      with e i a p show ?thesis
        by (cases "q < queue_nb p \<and> pidx < nb_pattern_templates pt \<and> aidx < nb_actions_templates pt")
           (auto simp: queue_create_guards_def not_le [symmetric] split: if_splits)
    qed
  qed
qed

lemma queue_create_tail_inv:
  assumes inv: "flow_inv s" and g: "queue_create_guards pid q tid pidx aidx s p i pt"
    and e: "queue_create_tail api pid q postpone ridx pidx aidx pattern actions age i pt s = Some (r, s')"
  shows "flow_inv s'"
proof -
  obtain j s1 where j: "new_job api s = (j, s1)" by (cases "new_job api s")
  obtain f s2 where f: "port_flow_new api (tb_flow_attr pt) pattern actions s1 = (f, s2)"
    by (cases "port_flow_new api (tb_flow_attr pt) pattern actions s1")
  have i1: "flow_inv s1" by (rule new_job_flow_fail(1) [OF inv j])
  consider "j = None" | j' where "j = Some j'" "f = None"
    | j' pf where "j = Some j'" "f = Some pf" by fastforce
  then show ?thesis
  proof cases
    case 1
    with e j i1 show ?thesis by (simp add: queue_create_tail_def)
  next
    case 2
    with e j f have "s' = s2" by (simp add: queue_create_tail_def)
    with new_job_flow_fail(2) [OF i1] f 2 show ?thesis by blast
  next
    case (3 j' pf)
    note nj = new_job_flow [OF j [unfolded 3] f [unfolded 3]]
    let ?s0 = "s\<lparr>brk := Suc (brk s)\<rparr>"
    let ?s3 = "set_age age (CtxFlow (pf_addr pf)) s2"
    have i0: "flow_inv ?s0" by (rule flow_inv_brk [OF inv]) simp
    have p0: "port_get ?s0 pid = Some p" and i: "next_flow_id (flow_list p) = Some i"
      using g by (simp_all add: queue_create_guards_def)
    obtain h d where c: "async_create_call api pid (ucast q) postpone (tb_table pt) ridx pattern
        pidx actions aidx j' (age_context ?s3) (dev ?s3) = (h, d)"
      by (cases "async_create_call api pid (ucast q) postpone (tb_table pt) ridx pattern
        pidx actions aidx j' (age_context ?s3) (dev ?s3)")
    let ?f = "pf\<lparr>pf_id := ucast i, pf_table := Some (tb_addr pt), pf_flow := h\<rparr>"
    let ?s4 = "?s3\<lparr>dev := d, jobs := (j', \<lparr>job_type = QUEUE_JOB_TYPE_FLOW_CREATE,
       job_ptr = Some (pf_addr pf)\<rparr>) # jobs ?s3\<rparr>"
    let ?s5 = "?s3\<lparr>dev := d, unlinked_flows := pf # unlinked_flows ?s3\<rparr>"
    have "flow_jobs_ok ?s4"
      by (rule flow_jobs_new [of s]) (use inv nj in \<open>auto simp: flow_inv_def frees_flow_def\<close>)
    then have linked: "flow_inv (port_upd pid (flow_list_update ((#) ?f)) ?s4)"
      using flow_inv_link [OF i0 p0 i, of ?f ?s4] nj by (auto simp: blank_flow_def)
    have parked: "flow_inv ?s5"
      by (rule flow_inv_park [OF i0]) (use nj in \<open>auto simp: blank_flow_def\<close>)
    show ?thesis
    proof (cases "h = 0")
      case True
      then obtain r4 where "port_queue_flow_destroy api pid q True [pf_id pf] ?s5 = Some (r4, s')"
        using e j f 3 c by (cases "port_queue_flow_destroy api pid q True [pf_id pf] ?s5")
          (auto simp: queue_create_tail_def Let_def)
      with parked show ?thesis by (rule queue_flow_destroy_inv)
    next
      case False
      with e j f 3 c linked show ?thesis by (simp add: queue_create_tail_def Let_def)
    qed
  qed
qed

lemma queue_flow_create_inv:
  "flow_inv s \<Longrightarrow>
    port_queue_flow_create api pid q postpone tid ridx pidx aidx pattern actions s = Some (r, s') \<Longrightarrow>
    flow_inv s'"
  by (drule queue_create_split) (auto dest: queue_create_tail_inv)

text \<open>The update puts a new node in the place of the old one.\<close>

lemma set_at_absent: "a \<notin> addr ` set xs \<Longrightarrow> set_at addr a f xs = xs"
  by (induction xs) (auto simp: set_at_def)

lemma set_at_mset:
  assumes "distinct (map addr xs)" "x \<in> set xs"
  shows "add_mset x (mset (set_at addr (addr x) (\<lambda>_. y) xs)) = add_mset y (mset xs)"
  using assms
proof (induction xs)
  case (Cons z xs)
  show ?case
  proof (cases "z = x")
    case True
    with Cons.prems have "set_at addr (addr x) (\<lambda>_. y) xs = xs" by (auto intro: set_at_absent)
    with True show ?thesis by (simp add: set_at_def)
  next
    case False
    with Cons.prems have "x \<in> set xs" "addr z \<noteq> addr x" by (auto dest: imageI [of x "set xs" addr])
    with Cons show ?thesis by (simp add: set_at_def add_mset_commute)
  qed
qed simp

lemma set_at_ids:
  assumes "distinct (map addr xs)" "x \<in> set xs" "g y = g x"
  shows "map g (set_at addr (addr x) (\<lambda>_. y) xs) = map g xs"
  using assms by (auto simp: set_at_def dest: distinct_map_eq)

lemma flow_inv_swap:
  assumes inv: "flow_inv s" and p: "port_get s pid = Some p" and pf: "pf \<in> set (flow_list p)"
    and uf: "pf_id uf = pf_id pf" "brk s \<le> pf_addr uf" "pf_addr uf < brk t"
    and t: "ports t = ports s" "jobs t = (j, \<lparr>job_type = QUEUE_JOB_TYPE_FLOW_UPDATE,
        job_ptr = Some (pf_addr pf)\<rparr>) # jobs s" "brk s \<le> j" "j < brk t"
      "unlinked_flows t = pf # unlinked_flows s"
  shows "flow_inv (port_upd pid (flow_list_update (set_at pf_addr (pf_addr pf) (\<lambda>_. uf))) t)"
proof -
  let ?g = "set_at pf_addr (pf_addr pf) (\<lambda>_. uf)"
  let ?s = "port_upd pid (flow_list_update ?g) t" and ?w = "s\<lparr>brk := pf_addr uf\<rparr>"
  have ok: "flow_ok (brk s) (flow_list p)" by (rule flow_inv_flow_ok [OF inv p])
  then have dist: "distinct (map pf_addr (flow_list p))" by (simp add: flow_ok_def)
  have pt: "port_get t pid = Some p" using p port_get_cong [OF t(1)] by simp
  have "mset (all_flows t) = add_mset pf (mset (all_flows s))" using t by (simp add: all_flows_def)
  with all_flows_upd [OF pt, of ?g]
  have "mset (all_flows ?s) + mset (flow_list p) = mset (all_flows s) + add_mset pf (mset (?g (flow_list p)))"
    by simp
  then have "mset (all_flows ?s) + mset (flow_list p) = add_mset uf (mset (all_flows s)) + mset (flow_list p)"
    unfolding set_at_mset [OF dist pf] by simp
  then have "mset (all_flows ?s) = add_mset uf (mset (all_flows ?w))"
    by (simp only: add_right_cancel) (simp add: all_flows_def)
  then have nodes: "flow_nodes_ok ?s"
    using flow_nodes_add [of ?w ?s uf] flow_inv_brk [OF inv uf(2)] uf(3) by (simp add: flow_inv_def)
  have ids: "ids_ok (?g (flow_list p))"
    using ids_ok_map [OF set_at_ids [OF dist pf uf(1)]] flow_ok_ids [OF ok] by simp
  have "flow_jobs_ok t"
    using inv linked_not_pending [OF inv p pf] t uf
    unfolding flow_inv_def flow_jobs_ok_def by (auto simp: frees_flow_def)
  with nodes ids show ?thesis
    using flow_inv_replace [OF inv p, where g = ?g and ?s1.0 = t] t uf by simp
qed

lemma queue_update_tail_inv:
  assumes inv: "flow_inv s" and p: "port_get s pid = Some p" and pf: "pf \<in> set (flow_list p)"
  shows "flow_inv (snd (queue_update_tail api pid q postpone aidx actions age pf pt s))"
proof -
  obtain j s1 where j: "new_job api s = (j, s1)" by (cases "new_job api s")
  obtain f s2 where f: "port_flow_new api (tb_flow_attr pt) (rule_pattern (pf_rule pf)) actions s1 = (f, s2)"
    by (cases "port_flow_new api (tb_flow_attr pt) (rule_pattern (pf_rule pf)) actions s1")
  have i1: "flow_inv s1" by (rule new_job_flow_fail(1) [OF inv j])
  consider "j = None" | j' where "j = Some j'" "f = None"
    | j' uf where "j = Some j'" "f = Some uf" by fastforce
  then show ?thesis
  proof cases
    case 1
    with j i1 show ?thesis by (simp add: queue_update_tail_def)
  next
    case 2
    with j f new_job_flow_fail(2) [OF i1, of _ _ _ _ s2] show ?thesis by (simp add: queue_update_tail_def)
  next
    case (3 j' uf)
    note nj = new_job_flow [OF j [unfolded 3] f [unfolded 3]]
    let ?s3 = "set_age age (CtxFlow (pf_addr uf)) s2"
    obtain rc d where c: "rte_flow_async_actions_update api pid (ucast q) postpone (pf_flow pf) actions aidx j'
        (age_context ?s3) (dev ?s3) = (rc, d)"
      by (cases "rte_flow_async_actions_update api pid (ucast q) postpone (pf_flow pf) actions aidx j'
        (age_context ?s3) (dev ?s3)")
    define s4 where "s4 = ?s3\<lparr>dev := d\<rparr>"
    have f4: "ports s4 = ports s" "jobs s4 = jobs s" "unlinked_flows s4 = unlinked_flows s"
      "brk s4 = Suc (Suc (brk s))" using nj by (simp_all add: s4_def)
    show ?thesis
    proof (cases "rc = 0")
      case False
      with j f 3 c have "snd (queue_update_tail api pid q postpone aidx actions age pf pt s) = s4"
        by (simp add: queue_update_tail_def Let_def s4_def)
      with flow_inv_frame [OF inv, of s4] f4 show ?thesis by simp
    next
      case True
      define uf' where "uf' = uf\<lparr>pf_id := pf_id pf, pf_table := pf_table pf, pf_flow := pf_flow pf\<rparr>"
      define s5 where "s5 = s4\<lparr>jobs := (j', \<lparr>job_type = QUEUE_JOB_TYPE_FLOW_UPDATE,
        job_ptr = Some (pf_addr pf)\<rparr>) # jobs s4, unlinked_flows := pf # unlinked_flows s4\<rparr>"
      let ?g = "set_at pf_addr (pf_addr pf) (\<lambda>_. uf')"
      let ?s = "port_upd pid (flow_list_update ?g) s5"
      have "snd (queue_update_tail api pid q postpone aidx actions age pf pt s) = ?s"
        using j f 3 c True by (simp add: queue_update_tail_def Let_def s5_def s4_def uf'_def)
      moreover have "flow_inv ?s"
        by (rule flow_inv_swap [OF inv p pf]) (use f4 nj in \<open>auto simp: s5_def uf'_def blank_flow_def\<close>)
      ultimately show ?thesis by simp
    qed
  qed
qed

lemma queue_flow_update_inv:
  assumes inv: "flow_inv s"
    and r: "port_queue_flow_update api pid q postpone ridx aidx actions s = Some (r, s')"
  shows "flow_inv s'"
proof -
  obtain age where a: "age_action_get actions = Some age"
    using r by (cases "age_action_get actions") (simp_all add: port_queue_flow_update_def)
  show ?thesis
  proof (cases "bad_port s pid")
    case True
    with r a inv show ?thesis by (simp add: port_queue_flow_update_def)
  next
    case False
    with r a obtain p where p: "port_get s pid = Some p"
      by (cases "port_get s pid") (simp_all add: port_queue_flow_update_def)
    note e = r [unfolded port_queue_flow_update_def a p Option.bind.simps]
    show ?thesis
    proof (cases "q \<ge> queue_nb p \<or> find (\<lambda>f. pf_id f = ucast ridx) (flow_list p) = None")
      case True
      with e inv False show ?thesis by (auto split: option.splits if_splits)
    next
      case g: False
      then obtain pf where f: "find (\<lambda>f. pf_id f = ucast ridx) (flow_list p) = Some pf" by blast
      obtain pt where t: "table_at s (pf_table pf) = Some pt"
        using e g f False by (cases "table_at s (pf_table pf)") simp_all
      have "pf \<in> set (flow_list p)" using find_SomeD [OF f] by simp
      from queue_update_tail_inv [OF inv p this, of api q postpone aidx actions age pt]
      show ?thesis using e g f t False inv by (auto split: if_splits)
    qed
  qed
qed

section \<open>Pulling\<close>

lemma free_flow_inv:
  assumes inv: "flow_inv s" and f: "free_flow a s = Some s1" and np: "Some a \<notin> set (pending_frees js)"
    and js: "jobs s1 = jobs s" "set js \<subseteq> set (jobs s)" "distinct (map fst js)" "distinct (pending_frees js)"
      "set (pending_frees js) \<subseteq> set (pending_frees (jobs s))"
  shows "flow_inv (s1\<lparr>jobs := js\<rparr>)"
proof -
  have s1: "s1 = s\<lparr>unlinked_flows := filter (\<lambda>f. pf_addr f \<noteq> a) (unlinked_flows s)\<rparr>"
    using f by (auto simp: free_flow_def split: if_splits)
  have "mset (all_flows (s1\<lparr>jobs := js\<rparr>)) \<subseteq># mset (all_flows s)"
    by (simp add: s1 all_flows_def multiset_filter_subset subset_mset.add_left_mono)
  then have "flow_nodes_ok (s1\<lparr>jobs := js\<rparr>)"
    using flow_nodes_sub [of s "s1\<lparr>jobs := js\<rparr>"] inv by (simp add: flow_inv_def s1)
  moreover have "flow_ids_ok (s1\<lparr>jobs := js\<rparr>)" using inv by (simp add: flow_inv_def flow_ids_ok_def s1)
  moreover have "flow_jobs_ok (s1\<lparr>jobs := js\<rparr>)"
    using inv js np unfolding flow_inv_def flow_jobs_ok_def s1 by fastforce
  ultimately show ?thesis by (simp add: flow_inv_def)
qed

lemma pending_filter_sub: "set (pending_frees (filter P js)) \<subseteq> set (pending_frees js)"
  by (auto simp: pending_frees_def)

lemma pending_filter_distinct: "distinct (pending_frees js) \<Longrightarrow> distinct (pending_frees (filter P js))"
proof (induction js)
  case (Cons j js)
  with pending_filter_sub [of P js] show ?case by (auto split: if_splits)
qed simp

lemma map_of_pending:
  "map_of js u = Some job \<Longrightarrow> frees_flow job \<Longrightarrow> job_ptr job \<in> set (pending_frees js)"
  by (induction js) (auto split: if_splits)

lemma map_of_pending_gone:
  "distinct (map fst js) \<Longrightarrow> distinct (pending_frees js) \<Longrightarrow> map_of js u = Some job \<Longrightarrow> frees_flow job \<Longrightarrow>
    job_ptr job \<notin> set (pending_frees (filter (\<lambda>j. fst j \<noteq> u) js))"
proof (induction js)
  case (Cons j js)
  show ?case
  proof (cases "fst j = u")
    case True
    with Cons.prems have "job = snd j" "job_ptr job \<notin> set (pending_frees js)" by auto
    with True pending_filter_sub [of "\<lambda>j. fst j \<noteq> u" js] show ?thesis by auto
  next
    case False
    with Cons.prems have m: "map_of js u = Some job" by (cases j) auto
    with Cons.prems(4) have "job_ptr job \<in> set (pending_frees js)" by (intro map_of_pending)
    with Cons.prems have "frees_flow (snd j) \<Longrightarrow> job_ptr (snd j) \<noteq> job_ptr job" by auto
    with Cons m False show ?thesis by (auto split: if_splits)
  qed
qed simp

lemma flow_inv_drop_job:
  assumes "flow_inv s"
  shows "flow_inv (s\<lparr>unlinked_actions := ua, jobs := filter P (jobs s)\<rparr>)"
  using assms pending_filter_sub [of P "jobs s"] pending_filter_distinct [of "jobs s" P]
  unfolding flow_inv_def flow_nodes_ok_def flow_ids_ok_def flow_jobs_ok_def all_flows_def
  by (auto simp: distinct_map_filter)

text \<open>The state after one pulled job.\<close>

lemma finish_job_inv:
  assumes inv: "flow_inv s" and m: "map_of (jobs s) u = Some job"
    and f: "finish_job pid job query s = Some (rep, s1)"
  shows "flow_inv (s1\<lparr>jobs := filter (\<lambda>j. fst j \<noteq> u) (jobs s1)\<rparr>)"
proof (cases "frees_flow job")
  case True
  then obtain a where a: "job_ptr job = Some a" "free_flow a s = Some s1"
    using f by (auto simp: finish_job_def frees_flow_def split: Option.bind_splits)
  have j: "jobs s1 = jobs s" using a(2) by (auto simp: free_flow_def split: if_splits)
  have ok: "distinct (map fst (jobs s))" "distinct (pending_frees (jobs s))"
    using inv by (auto simp: flow_inv_def flow_jobs_ok_def)
  show ?thesis
    using free_flow_inv [OF inv a(2), of "filter (\<lambda>j. fst j \<noteq> u) (jobs s)"] j ok
      map_of_pending_gone [OF ok m True] a(1) pending_filter_sub [of "\<lambda>j. fst j \<noteq> u" "jobs s"]
      pending_filter_distinct [of "jobs s" "\<lambda>j. fst j \<noteq> u"]
    by (auto simp: distinct_map_filter)
next
  case False
  then obtain ua where "s1 = s\<lparr>unlinked_actions := ua\<rparr>"
    using f by (auto simp: finish_job_def frees_flow_def free_action_def
        split: queue_job_type.splits Option.bind_splits if_splits)
       (metis st.surjective st.update_convs(5))+
  with flow_inv_drop_job [where ua = ua and P = "\<lambda>j. fst j \<noteq> u", OF inv] show ?thesis by simp
qed

lemma pull_loop_inv: "flow_inv s \<Longrightarrow> pull_loop pid rs s = Some (reps, s') \<Longrightarrow> flow_inv s'"
proof (induction rs arbitrary: s reps)
  case (Cons r rs)
  then obtain job rep s1 reps' where "map_of (jobs s) (op_user_data r) = Some job"
    "finish_job pid job (op_query r) s = Some (rep, s1)"
    "pull_loop pid rs (s1\<lparr>jobs := filter (\<lambda>j. fst j \<noteq> op_user_data r) (jobs s1)\<rparr>) = Some (reps', s')"
    by (auto split: Option.bind_splits)
  with Cons finish_job_inv show ?case by blast
qed simp

lemma queue_flow_pull_inv:
  assumes inv: "flow_inv s" and r: "port_queue_flow_pull api pid q s = Some (r, n, reps, s')"
  shows "flow_inv s'"
proof (cases "bad_port s pid")
  case True
  with assms show ?thesis by (simp add: port_queue_flow_pull_def)
next
  case False
  with r obtain p where p: "port_get s pid = Some p"
    by (cases "port_get s pid") (simp_all add: port_queue_flow_pull_def)
  obtain ok d where c: "calloc api (dev s) = (ok, d)" by (cases "calloc api (dev s)")
  obtain ret res e where pl: "rte_flow_pull api pid (ucast q) (queue_sz p) d = (ret, res, e)"
    by (cases "rte_flow_pull api pid (ucast q) (queue_sz p) d")
  show ?thesis
    using r False p c pl inv pull_loop_inv [of "s\<lparr>dev := e\<rparr>" pid "take (nat ret) res"]
    by (auto simp: port_queue_flow_pull_def c_calloc_def Let_def split: if_splits Option.bind_splits)
qed

section \<open>Reachable states\<close>

text \<open>One command on rules and queues, with any arguments, that does not run into undefined
  behaviour.\<close>

inductive flow_step :: "('d, 'z) queue_api_scheme \<Rightarrow> 'd st \<Rightarrow> 'd st \<Rightarrow> bool" for api where
  step_create: "port_flow_create api pid attr pattern actions ops user_id s = Some (r, s') \<Longrightarrow> flow_step api s s'"
| step_destroy: "port_flow_destroy api pid rules is_user_id s = Some (r, s') \<Longrightarrow> flow_step api s s'"
| step_flush: "port_flow_flush api pid s = Some (r, s') \<Longrightarrow> flow_step api s s'"
| step_queue_create:
    "port_queue_flow_create api pid q postpone tid ridx pidx aidx pattern actions s = Some (r, s')
      \<Longrightarrow> flow_step api s s'"
| step_queue_destroy:
    "port_queue_flow_destroy api pid q postpone rules s = Some (r, s') \<Longrightarrow> flow_step api s s'"
| step_queue_update:
    "port_queue_flow_update api pid q postpone ridx aidx actions s = Some (r, s') \<Longrightarrow> flow_step api s s'"
| step_queue_pull: "port_queue_flow_pull api pid q s = Some (r, n, reps, s') \<Longrightarrow> flow_step api s s'"

text \<open>The state at the start: no rule, no job.\<close>

definition flow_init :: "'d st \<Rightarrow> bool" where
  "flow_init s \<longleftrightarrow> (\<forall>p \<in> set (ports s). flow_list p = []) \<and> unlinked_flows s = [] \<and> jobs s = []"

inductive flow_reachable :: "('d, 'z) queue_api_scheme \<Rightarrow> 'd st \<Rightarrow> bool" for api where
  reach_init: "flow_init s \<Longrightarrow> flow_reachable api s"
| reach_step: "flow_reachable api s \<Longrightarrow> flow_step api s s' \<Longrightarrow> flow_reachable api s'"

lemma flow_init_inv:
  assumes "flow_init s"
  shows "flow_inv s"
proof -
  have "all_flows s = []" using assms by (simp add: flow_init_def all_flows_def)
  with assms show ?thesis
    by (auto simp: flow_init_def flow_inv_def flow_nodes_ok_def flow_ids_ok_def flow_jobs_ok_def
        ids_ok_def)
qed

lemma flow_step_inv: "flow_step api s s' \<Longrightarrow> flow_inv s \<Longrightarrow> flow_inv s'"
  by (cases rule: flow_step.cases)
     (auto intro: flow_create_inv flow_destroy_inv flow_flush_inv queue_flow_create_inv
       queue_flow_destroy_inv queue_flow_update_inv queue_flow_pull_inv)

text \<open>
  Jobs of rule commands, and of action creation and update, free no action: pulling them needs
  nothing but the invariant.
\<close>

definition rule_job :: "queue_job \<Rightarrow> bool" where
  "rule_job j \<longleftrightarrow> job_type j \<noteq> QUEUE_JOB_TYPE_ACTION_DESTROY \<and> job_type j \<noteq> QUEUE_JOB_TYPE_ACTION_QUERY"

definition freed_by :: "(nat \<times> queue_job) list \<Rightarrow> nat list \<Rightarrow> port_flow \<Rightarrow> bool" where
  "freed_by js us f \<longleftrightarrow>
     (\<exists>u \<in> set us. \<exists>job. map_of js u = Some job \<and> frees_flow job \<and> job_ptr job = Some (pf_addr f))"

lemma finish_rule_job:
  assumes inv: "flow_inv s" and m: "map_of (jobs s) u = Some job" and j: "rule_job job"
  shows "finish_job pid job query s =
    Some ([], s\<lparr>unlinked_flows := filter (\<lambda>f. \<not> freed_by (jobs s) [u] f) (unlinked_flows s)\<rparr>)"
proof (cases "frees_flow job")
  case True
  have "job_ptr job \<in> Some ` pf_addr ` set (unlinked_flows s)"
    using inv map_of_pending [OF m True] unfolding flow_inv_def flow_jobs_ok_def by blast
  then obtain a where a: "job_ptr job = Some a" "a \<in> pf_addr ` set (unlinked_flows s)" by auto
  then have "(\<lambda>f. \<not> freed_by (jobs s) [u] f) = (\<lambda>f. pf_addr f \<noteq> a)"
    using m True by (auto simp: freed_by_def)
  with a True show ?thesis by (auto simp: finish_job_def frees_flow_def free_flow_def)
next
  case False
  then have "(\<lambda>f. \<not> freed_by (jobs s) [u] f) = (\<lambda>_. True)" using m by (auto simp: freed_by_def)
  with False j show ?thesis
    by (cases "job_type job") (auto simp: finish_job_def frees_flow_def rule_job_def)
qed

lemma map_of_filter_other:
  "v \<noteq> u \<Longrightarrow> map_of (filter (\<lambda>j. fst j \<noteq> u) js) v = map_of js v"
  by (induction js) auto

lemma pull_loop_rules:
  assumes "flow_inv s" "distinct (map op_user_data rs)"
    "\<forall>r \<in> set rs. \<exists>job. map_of (jobs s) (op_user_data r) = Some job \<and> rule_job job"
  shows "pull_loop pid rs s = Some ([], s\<lparr>
      unlinked_flows := filter (\<lambda>f. \<not> freed_by (jobs s) (map op_user_data rs) f) (unlinked_flows s),
      jobs := filter (\<lambda>j. fst j \<notin> op_user_data ` set rs) (jobs s)\<rparr>)"
  using assms
proof (induction rs arbitrary: s)
  case Nil
  have "s = s\<lparr>unlinked_flows := unlinked_flows s, jobs := jobs s\<rparr>" by simp
  then show ?case by (simp add: freed_by_def)
next
  case (Cons r rs)
  let ?u = "op_user_data r"
  obtain job where m: "map_of (jobs s) ?u = Some job" "rule_job job" using Cons.prems(3) by auto
  define s1 where "s1 = s\<lparr>unlinked_flows := filter (\<lambda>f. \<not> freed_by (jobs s) [?u] f) (unlinked_flows s)\<rparr>"
  let ?t = "s1\<lparr>jobs := filter (\<lambda>j. fst j \<noteq> ?u) (jobs s1)\<rparr>"
  have fj: "finish_job pid job (op_query r) s = Some ([], s1)"
    unfolding s1_def by (rule finish_rule_job [OF Cons.prems(1) m])
  have inv: "flow_inv ?t" by (rule finish_job_inv [OF Cons.prems(1) m(1) fj])
  have js: "jobs ?t = filter (\<lambda>j. fst j \<noteq> ?u) (jobs s)" by (simp add: s1_def)
  have other: "map_of (jobs ?t) (op_user_data x) = map_of (jobs s) (op_user_data x)" if "x \<in> set rs" for x
  proof -
    have "op_user_data x \<in> op_user_data ` set rs" using that by (rule imageI)
    with Cons.prems(2) show ?thesis unfolding js by (intro map_of_filter_other) auto
  qed
  have ih: "pull_loop pid rs ?t = Some ([], ?t\<lparr>
      unlinked_flows := filter (\<lambda>f. \<not> freed_by (jobs ?t) (map op_user_data rs) f) (unlinked_flows ?t),
      jobs := filter (\<lambda>j. fst j \<notin> op_user_data ` set rs) (jobs ?t)\<rparr>)"
  proof (rule Cons.IH [OF inv])
    show "distinct (map op_user_data rs)" using Cons.prems(2) by simp
    show "\<forall>r \<in> set rs. \<exists>job. map_of (jobs ?t) (op_user_data r) = Some job \<and> rule_job job"
      using Cons.prems(3) other by simp
  qed
  have same: "freed_by (jobs ?t) (map op_user_data rs) f = freed_by (jobs s) (map op_user_data rs) f" for f
    using other by (simp add: freed_by_def)
  have split: "freed_by (jobs s) (map op_user_data (r # rs)) f \<longleftrightarrow>
      freed_by (jobs s) [?u] f \<or> freed_by (jobs s) (map op_user_data rs) f" for f
    by (simp add: freed_by_def)
  have "pull_loop pid (r # rs) s = pull_loop pid rs ?t \<bind> (\<lambda>(reps, s2). Some ([] @ reps, s2))"
    using m(1) fj by simp
  also have "\<dots> = Some ([], s\<lparr>
      unlinked_flows := filter (\<lambda>f. \<not> freed_by (jobs s) (map op_user_data rs) f)
        (filter (\<lambda>f. \<not> freed_by (jobs s) [?u] f) (unlinked_flows s)),
      jobs := filter (\<lambda>j. fst j \<notin> op_user_data ` set rs) (filter (\<lambda>j. fst j \<noteq> ?u) (jobs s))\<rparr>)"
    unfolding ih same by (simp add: s1_def)
  finally show ?case unfolding split by (simp add: conj_commute)
qed

lemma queue_aged_loop_cap:
  "queue_aged_loop (Some c) (map (\<lambda>a. Some (CtxFlow a)) as) rules s = Some (rows, rl) \<Longrightarrow>
     length rl = length rules + length as \<and> (as \<noteq> [] \<longrightarrow> 8 * length rl \<le> c)"
proof (induction as arbitrary: rules rows)
  case (Cons a as)
  obtain pf where pf: "flow_at s a = Some pf" using Cons.prems by (cases "flow_at s a") simp_all
  with Cons.prems have c: "8 * (length rules + 1) \<le> c" by (auto split: if_splits)
  obtain rows' where
    "queue_aged_loop (Some c) (map (\<lambda>a. Some (CtxFlow a)) as) (rules @ [pf_id pf]) s = Some (rows', rl)"
    using Cons.prems pf by (auto split: Option.bind_splits if_splits)
  from Cons.IH [OF this] c show ?case by (cases "as = []") auto
qed simp

text \<open>The driver accepts every allocation, conversion and destruction.\<close>

definition allocating :: "('d, 'z) flow_api_scheme \<Rightarrow> bool" where
  "allocating api \<longleftrightarrow> (\<forall>d. fst (calloc api d)) \<and>
     (\<forall>rule d. fst (rte_flow_conv_size api rule d) \<ge> 0) \<and>
     (\<forall>rule d. fst (rte_flow_conv_copy api rule d) \<ge> 0)"

lemma allocating_new:
  assumes "allocating api"
  shows "\<exists>s1. new_job api s = (Some (brk s), s1)"
    "\<exists>c s2. port_flow_new api attr pattern actions s = (Some (blank_flow (brk s) c), s2)"
proof -
  have f: "fst (calloc api d)" "\<not> fst (rte_flow_conv_size api rule d) < 0"
    "0 \<le> fst (rte_flow_conv_copy api rule d)" for d rule
    using assms by (auto simp: allocating_def not_less)
  show "\<exists>s1. new_job api s = (Some (brk s), s1)"
    by (simp add: new_job_def c_calloc_def case_prod_beta f)
  show "\<exists>c s2. port_flow_new api attr pattern actions s = (Some (blank_flow (brk s) c), s2)"
    by (simp add: port_flow_new_def c_calloc_def blank_flow_def Let_def case_prod_beta f)
qed

lemma async_kill_accepted:
  assumes "allocating api" "\<And>q' pp h j d. fst (rte_flow_async_destroy api pid q' pp h j d) = 0"
  shows "\<exists>s1. async_flow_kill api pid q postpone x 0 s = (Removed, 0, s1)"
proof -
  obtain s1 where "new_job api s = (Some (brk s), s1)" using allocating_new(1) [OF assms(1)] by blast
  with assms(2) show ?thesis by (simp add: async_flow_kill_def case_prod_beta Let_def)
qed

section \<open>Properties\<close>

text \<open>C9: In every state that commands on rules and queues reach from a state without rules and
  jobs, each rule node is in exactly one place, a port's list or the list of rules waiting to be
  freed; the identifiers of a port's rules are strictly descending and fit 32 bits; and every job
  that will free a rule names a waiting rule of its own.\<close>

theorem flow_reachable_invariant: "flow_reachable api s \<Longrightarrow> flow_inv s"
  by (induction rule: flow_reachable.induct) (auto intro: flow_init_inv flow_step_inv)

text \<open>C27: Pulling is memory safe: in a state with the invariant, when the driver hands back results
  within the queue size for distinct live jobs of rule commands, the pull returns their number
  without undefined behaviour; the jobs are gone, exactly the waiting rules the destroy and
  update jobs named are freed, nothing else changes but the device, and the invariant still
  holds.\<close>

theorem queue_pull_safe:
  assumes "flow_inv s" "\<not> bad_port s pid" "port_get s pid = Some p" "q < queue_nb p"
    and "calloc api (dev s) = (True, d)"
    and "rte_flow_pull api pid (ucast q) (queue_sz p) d = (int (length res), res, e)"
    and "length res \<le> unat (queue_sz p)" "distinct (map op_user_data res)"
    and "\<forall>r \<in> set res. \<exists>job. map_of (jobs s) (op_user_data r) = Some job \<and> rule_job job"
  shows "port_queue_flow_pull api pid q s = Some (int (length res), length (filter op_success res), [],
      s\<lparr>dev := e,
        unlinked_flows := filter (\<lambda>f. \<not> freed_by (jobs s) (map op_user_data res) f) (unlinked_flows s),
        jobs := filter (\<lambda>j. fst j \<notin> op_user_data ` set res) (jobs s)\<rparr>) \<and>
    flow_inv (s\<lparr>dev := e,
        unlinked_flows := filter (\<lambda>f. \<not> freed_by (jobs s) (map op_user_data res) f) (unlinked_flows s),
        jobs := filter (\<lambda>j. fst j \<notin> op_user_data ` set res) (jobs s)\<rparr>)"
proof -
  let ?s = "s\<lparr>dev := e\<rparr>"
  have inv: "flow_inv ?s" using assms(1) by simp
  have l: "pull_loop pid res ?s = Some ([], ?s\<lparr>
      unlinked_flows := filter (\<lambda>f. \<not> freed_by (jobs ?s) (map op_user_data res) f) (unlinked_flows ?s),
      jobs := filter (\<lambda>j. fst j \<notin> op_user_data ` set res) (jobs ?s)\<rparr>)"
    using assms(8,9) by (intro pull_loop_rules [OF inv]) auto
  with assms(2-7) have "port_queue_flow_pull api pid q s = Some (int (length res),
      length (filter op_success res), [], s\<lparr>dev := e,
        unlinked_flows := filter (\<lambda>f. \<not> freed_by (jobs s) (map op_user_data res) f) (unlinked_flows s),
        jobs := filter (\<lambda>j. fst j \<notin> op_user_data ` set res) (jobs s)\<rparr>)"
    by (simp add: port_queue_flow_pull_def c_calloc_def Let_def not_le)
  with queue_flow_pull_inv [OF assms(1)] show ?thesis by blast
qed

text \<open>Destroying the aged rules of a queue overruns its identifier array: whenever the driver
  reports aged contexts that are all rules and the allocations succeed, the command runs into
  undefined behaviour, because the array holds 4 bytes per context and is written with 8.\<close>

theorem queue_aged_overflow:
  assumes "\<not> bad_port s pid" "port_get s pid = Some p" "q < ucast (queue_nb p)" "as \<noteq> []"
    and "\<And>d. fst (calloc api d)"
    and "rte_flow_get_q_aged_count api pid q (dev s) = (int (length as), d1)"
    and "\<And>d. fst (rte_flow_get_q_aged_flows api pid q (length as) d) = int (length as)"
    and "\<And>d. fst (snd (rte_flow_get_q_aged_flows api pid q (length as) d)) = map (\<lambda>a. Some (CtxFlow a)) as"
  shows "port_queue_flow_aged fuel api pid q True s = None"
proof -
  obtain d2 where c: "calloc api d1 = (True, d2)" using assms(5) [of d1] by (cases "calloc api d1") auto
  obtain d3 where g: "rte_flow_get_q_aged_flows api pid q (length as) d2 =
      (int (length as), map (\<lambda>a. Some (CtxFlow a)) as, d3)"
    using assms(7,8) [of d2] by (metis prod.collapse)
  obtain d4 where c2: "calloc api d3 = (True, d4)" using assms(5) [of d3] by (cases "calloc api d3") auto
  have n: "queue_aged_loop (Some (4 * length as)) (map (\<lambda>a. Some (CtxFlow a)) as) [] w = None" for w :: "'a st"
  proof (rule ccontr)
    assume "queue_aged_loop (Some (4 * length as)) (map (\<lambda>a. Some (CtxFlow a)) as) [] w \<noteq> None"
    then obtain rows rl where
      "queue_aged_loop (Some (4 * length as)) (map (\<lambda>a. Some (CtxFlow a)) as) [] w = Some (rows, rl)" by auto
    from queue_aged_loop_cap [OF this] assms(4) show False by (cases as) auto
  qed
  have cap: "length as > 0" using assms(4) by simp
  show ?thesis
    using assms(1-3,6) c g c2 n cap
    by (simp add: port_queue_flow_aged_def c_calloc_def Let_def not_le)
qed

text \<open>An asynchronous create command whose checks fail does nothing: with an unknown queue, an
  unknown table, a template index outside the table, or the highest rule identifier in use, it
  returns a nonzero code and the state is unchanged, the driver is not called.\<close>

theorem queue_flow_create_guarded:
  assumes "port_get s pid = Some p" "actions_upto_end actions \<noteq> None"
    and "\<not> (\<exists>i pt. queue_create_guards pid q tid pidx aidx s p i pt)"
  shows "\<exists>r. r < 0 \<and>
    port_queue_flow_create api pid q postpone tid ridx pidx aidx pattern actions s = Some (r, s)"
proof -
  obtain age where a: "age_action_get actions = Some age" using assms(2) age_action_get_total by blast
  show ?thesis
  proof (cases "next_flow_id (flow_list p)")
    case None
    with a assms(1) show ?thesis by (simp add: port_queue_flow_create_def)
  next
    case i: (Some i)
    show ?thesis
    proof (cases "find (\<lambda>t. tb_id t = tid) (table_list p)")
      case None
      with a i assms(1) show ?thesis by (simp add: port_queue_flow_create_def)
    next
      case (Some pt)
      with a i assms(1,3) show ?thesis
        by (auto simp: port_queue_flow_create_def queue_create_guards_def not_le [symmetric])
    qed
  qed
qed

text \<open>When the driver refuses an asynchronous rule, the rollback hits another rule: on a port
  whose checks pass, with allocations that succeed, a driver that gives no rule object and accepts
  destructions, the command removes rule 0 of the port, a rule that has nothing to do with the
  refused one, and leaves the other rules.\<close>

theorem queue_flow_create_refused_hits_rule_0:
  assumes ok: "flow_inv s" "\<not> bad_port s pid" "queue_create_guards pid q tid pidx aidx s p i pt"
    and al: "allocating api" "actions_upto_end actions \<noteq> None"
    and ref: "\<And>a pp t its pi as ai j ctx d. fst (rte_flow_async_create api pid a pp t its pi as ai j ctx d) = 0"
      "\<And>a pp t ix as ai j ctx d. fst (rte_flow_async_create_by_index api pid a pp t ix as ai j ctx d) = 0"
    and acc: "\<And>a pp h j d. fst (rte_flow_async_destroy api pid a pp h j d) = 0"
  shows "\<exists>r s' l. port_queue_flow_create api pid q postpone tid ridx pidx aidx pattern actions s = Some (r, s') \<and>
     port_get s' pid = Some (p\<lparr>flow_list := l\<rparr>) \<and> l = filter (\<lambda>f. pf_id f \<noteq> 0) (flow_list p)"
proof -
  obtain age where a: "age_action_get actions = Some age" using al(2) age_action_get_total by blast
  obtain s1 where j: "new_job api s = (Some (brk s), s1)" using allocating_new(1) [OF al(1)] by blast
  obtain c s2 where f: "port_flow_new api (tb_flow_attr pt) pattern actions s1 = (Some (blank_flow (brk s1) c), s2)"
    using allocating_new(2) [OF al(1)] by blast
  note nj = new_job_flow [OF j f]
  let ?pf = "blank_flow (brk s1) c"
  let ?t = "set_age age (CtxFlow (pf_addr ?pf)) s2"
  obtain d where cr: "async_create_call api pid (ucast q) postpone (tb_table pt) ridx pattern pidx actions aidx
      (brk s) (age_context ?t) (dev ?t) = (0, d)"
    using ref by (metis async_create_call_def prod.collapse)
  define s5 where "s5 = ?t\<lparr>dev := d, unlinked_flows := ?pf # unlinked_flows ?t\<rparr>"
  have g: "port_get s pid = Some p" "q < queue_nb p" using ok(3) by (auto simp: queue_create_guards_def)
  have p5: "port_get s5 pid = Some p" using g(1) port_get_cong [of s5 s pid] nj by (simp add: s5_def)
  have b5: "\<not> bad_port s5 pid" using ok(2) bad_port_cong [of s5 s pid] nj by (simp add: s5_def)
  obtain r l s6 where dl: "destroy_loop (async_flow_kill api pid (ucast q) True) pf_id [0] (flow_list p) 0 s5 = (r, l, s6)"
    by (cases "destroy_loop (async_flow_kill api pid (ucast q) True) pf_id [0] (flow_list p) 0 s5")
  have l: "l = filter (\<lambda>f. pf_id f \<noteq> 0) (flow_list p)"
    using destroy_loop_all [OF async_kill_accepted [OF al(1) acc] dl] by simp
  let ?s' = "port_upd pid (flow_list_update (\<lambda>_. l)) s6"
  have "port_queue_flow_destroy api pid q True [0] s5 = Some (r, ?s')"
    using b5 p5 g(2) dl by (simp add: port_queue_flow_destroy_def not_le [symmetric])
  then have "port_queue_flow_create api pid q postpone tid ridx pidx aidx pattern actions s
      = Some (port_flow_complain api ?s', ?s')"
    using a ok(3) j f cr unfolding s5_def
    by (simp add: port_queue_flow_create_def queue_create_guards_def queue_create_tail_def Let_def
        not_le [symmetric] blank_flow_def)
  moreover obtain ns where "deferred QUEUE_JOB_TYPE_FLOW_DESTROY pf_addr unlinked_flows_update ns s5 s6"
    using afk.destroy_deferred [OF dl] by blast
  then have "ports s6 = ports s5" by (auto simp: deferred_def)
  then have "port_get ?s' pid = Some (p\<lparr>flow_list := l\<rparr>)"
    using p5 port_get_cong [of s6 s5 pid] by (simp add: port_get_upd)
  ultimately show ?thesis using l by blast
qed

end
