(* ===== verification/FlowWitnesses.thy ===== *)
theory FlowWitnesses
  imports FlowHeap
begin

text \<open>
  A simulated driver, used to show that the hypotheses of the flow properties can be met: it
  hands out a handle for every object, refuses everything while a flag is set, and answers pulls
  and aging requests from lists.  Each witness applies one property to a concrete state.
\<close>

section \<open>The simulated driver\<close>

record sim =
  sim_errno :: int
  sim_refuse :: bool
  sim_results :: "rte_flow_op_result list"
  sim_aged :: "age_ctx option list"

definition sim_make :: "sim \<Rightarrow> handle \<times> sim" where
  "sim_make d = (if sim_refuse d then (0, d\<lparr>sim_errno := 22\<rparr>) else (7, d))"

definition sim_ack :: "sim \<Rightarrow> int \<times> sim" where
  "sim_ack d = (if sim_refuse d then (-1, d\<lparr>sim_errno := 5\<rparr>) else (0, d))"

definition sim_api :: "sim queue_api" where
  "sim_api = \<lparr>
     calloc = (\<lambda>d. (True, d)), rte_errno = sim_errno, rte_flow_error_set = (\<lambda>e d. d\<lparr>sim_errno := e\<rparr>),
     zero_action_type = RTE_FLOW_ACTION_TYPE_END,
     rte_flow_pattern_template_create = (\<lambda>_ _ _. sim_make),
     rte_flow_pattern_template_destroy = (\<lambda>_ _. sim_ack),
     rte_flow_actions_template_create = (\<lambda>_ _ _ _. sim_make),
     rte_flow_actions_template_destroy = (\<lambda>_ _. sim_ack),
     rte_flow_template_table_create = (\<lambda>_ _ _ _. sim_make),
     rte_flow_template_table_destroy = (\<lambda>_ _. sim_ack),
     rte_flow_action_handle_destroy = (\<lambda>_ _. sim_ack),
     rte_flow_action_list_handle_destroy = (\<lambda>_ _. sim_ack),
     rte_flow_action_handle_update = (\<lambda>_ _ _. sim_ack),
     rte_flow_action_query = (\<lambda>_ h d. (0, h, d)),
     rte_flow_action_handle_query_update = (\<lambda>_ h _ _ d. (0, h, d)),
     meter_mark_conf = (\<lambda>c. \<lparr>mm_profile = c, mm_policy = 0, mm_driver = 0\<rparr>),
     rte_flow_tunnel_decap_set = (\<lambda>_ _ d. (0, [], d)),
     rte_flow_tunnel_match = (\<lambda>_ _ d. (0, [], d)),
     rte_flow_tunnel_action_decap_release = (\<lambda>_ _ _ d. d),
     rte_flow_tunnel_item_release = (\<lambda>_ _ _ d. d),
     rte_flow_conv_size = (\<lambda>_ d. (64, d)),
     rte_flow_conv_copy = (\<lambda>r d. (64, r, d)),
     rte_flow_conv_item_name = (\<lambda>_. Some ''ITEM''),
     rte_flow_conv_action_name = (\<lambda>_. Some ''ACTION''),
     rte_flow_conv_query_name = (\<lambda>_ d. (0, d)),
     rte_flow_validate = (\<lambda>_ _ _ _. sim_ack),
     rte_flow_create = (\<lambda>_ _ _ _ _. sim_make),
     rte_flow_destroy = (\<lambda>_ _. sim_ack),
     rte_flow_flush = (\<lambda>_. sim_ack),
     rte_flow_query_rule = (\<lambda>_ h _ d. (0, h, d)),
     rte_flow_get_aged_count = (\<lambda>_ d. (int (length (sim_aged d)), d)),
     rte_flow_get_aged_flows = (\<lambda>_ _ d. (int (length (sim_aged d)), sim_aged d, d)),
     rte_flow_isolate = (\<lambda>_ _. sim_ack),
     rte_flow_dev_dump = (\<lambda>_ _ _. sim_ack),
     fopen_write = (\<lambda>_ d. (True, 0, d)),
     fclose_file = (\<lambda>_ d. d),
     rte_flow_info_get = (\<lambda>_. sim_ack),
     rte_flow_configure = (\<lambda>_ _ _ _. sim_ack),
     rte_flow_async_create = (\<lambda>_ _ _ _ _ _ _ _ _ _. sim_make),
     rte_flow_async_create_by_index = (\<lambda>_ _ _ _ _ _ _ _ _ d. (0, d\<lparr>sim_errno := 22\<rparr>)),
     rte_flow_async_destroy = (\<lambda>_ _ _ _ _ d. (0, d)),
     rte_flow_async_actions_update = (\<lambda>_ _ _ _ _ _ _ _. sim_ack),
     rte_flow_async_action_handle_create = (\<lambda>_ _ _ _ _ _ _. sim_make),
     rte_flow_async_action_list_handle_create = (\<lambda>_ _ _ _ _ _ _. sim_make),
     rte_flow_async_action_handle_destroy = (\<lambda>_ _ _ _ _. sim_ack),
     rte_flow_async_action_list_handle_destroy = (\<lambda>_ _ _ _ _. sim_ack),
     rte_flow_async_action_handle_update = (\<lambda>_ _ _ _ _ _. sim_ack),
     rte_flow_async_action_query = (\<lambda>_ _ _ _ _. sim_ack),
     rte_flow_async_action_handle_query_update = (\<lambda>_ _ _ _ _ _ _. sim_ack),
     rte_flow_push = (\<lambda>_ _ d. (0, d)),
     rte_flow_pull = (\<lambda>_ _ _ d. (int (length (sim_results d)), sim_results d, d\<lparr>sim_results := []\<rparr>)),
     rte_flow_calc_table_hash = (\<lambda>_ _ _ _ d. (0, 7, d)),
     rte_flow_get_q_aged_count = (\<lambda>_ _ d. (int (length (sim_aged d)), d)),
     rte_flow_get_q_aged_flows = (\<lambda>_ _ _ d. (int (length (sim_aged d)), sim_aged d, d)),
     rte_flow_group_set_miss_actions = (\<lambda>_ _ _ _. sim_ack)\<rparr>"

definition sim_dev :: sim where
  "sim_dev = \<lparr>sim_errno = 0, sim_refuse = False, sim_results = [], sim_aged = []\<rparr>"

definition sim_rxconf :: rte_eth_rxconf where
  "sim_rxconf = \<lparr>share_group = 0, share_qid = 0, rx_offloads = 0, rx_deferred_start = False,
       rxc_pthresh = 0, rxc_hthresh = 0, rxc_wthresh = 0, rxc_free_thresh = 0, rxc_drop_en = 0\<rparr>"

definition sim_txconf :: rte_eth_txconf where
  "sim_txconf = \<lparr>tx_offloads = 0, tx_deferred_start = False,
       txc_pthresh = 0, txc_hthresh = 0, txc_wthresh = 0, txc_rs_thresh = 0, txc_free_thresh = 0\<rparr>"

definition sim_info :: rte_eth_dev_info where
  "sim_info = \<lparr>min_mtu = 68, max_mtu = 9000, max_rx_pktlen = 9018, max_rx_queues = 4, max_tx_queues = 4,
     nb_rx_queues = 1, nb_tx_queues = 1, tx_offload_capa = 0, dev_capa = 0, switch_domain_id = 0,
     default_rx_ring_size = 512, default_tx_ring_size = 512, default_rx_burst_size = 32,
     rx_desc_nb_max = 4096, rx_desc_nb_min = 32, tx_desc_nb_max = 4096, tx_desc_nb_min = 32,
     nb_mtu_seg_max = 0, flow_type_rss_offloads = 0xFF, dev_flags = 0, default_rxconf = sim_rxconf, default_txconf = sim_txconf\<rparr>"

definition sim_port :: rte_port where
  "sim_port = \<lparr>dev_info = sim_info, rxmode_mtu = 1500, rxmode_offloads = 0, txmode_offloads = 0,
     socket_id = 0, tx_vlan_id = 0, tx_vlan_id_outer = 0, port_status = 0, need_reconfig = 0,
     need_reconfig_queues = 0, nb_rx_desc = [512], nb_tx_desc = [512],
     rxq_conf = [sim_rxconf],
     rxq_state = [1], txq_conf = [sim_txconf], txq_state = [1],
     member_flag = False,
     mc_addr_pool = [], mc_addr_nb = 0, queue_nb = 1, queue_sz = 8,
     pattern_templ_list = [], actions_templ_list = [], table_list = [], flow_list = [],
     actions_list = [], flow_tunnel_list = [], rx_dump_cb = [0], tx_dump_cb = [0], tx_metadata = 0,
     tx_set_md_cb = [0], mbuf_dynf = 0, tx_set_dynf_cb = [0], eth_addr = replicate 6 0,
     xstats_allocated = False, ids_supp_sz = 0, link_speeds = 0, mq_mode = 0, port_rss_hf = 0, dcb_flag = 0,
     intr_lsc = False, intr_rmv = False\<rparr>"

definition sim_st :: "sim st" where
  "sim_st = \<lparr>ports = [sim_port], eth_devs = [0], jobs = [], unlinked_flows = [], unlinked_actions = [],
     brk = 0, age_context = (\<lambda>_. None), dev = sim_dev\<rparr>"

definition sim_attr :: rte_flow_attr where
  "sim_attr = \<lparr>attr_group = 0, attr_priority = 0, attr_ingress = True, attr_egress = False, attr_transfer = False\<rparr>"

abbreviation end_action :: rte_flow_action where
  "end_action \<equiv> \<lparr>act_type = RTE_FLOW_ACTION_TYPE_END, act_conf = 0\<rparr>"

abbreviation no_tunnel :: tunnel_ops where
  "no_tunnel \<equiv> \<lparr>ops_id = 0, ops_type = [], ops_enabled = False, ops_actions = False, ops_items = False\<rparr>"

lemma sim_port_ok [simp]: "\<not> bad_port sim_st 0" "port_get sim_st 0 = Some sim_port"
  by (simp_all add: bad_port_def port_id_is_invalid_def sim_st_def port_get_def)

lemma sim_port_lists [simp]:
  "pattern_templ_list sim_port = []" "actions_templ_list sim_port = []" "table_list sim_port = []"
  "flow_list sim_port = []" "actions_list sim_port = []"
  by (simp_all add: sim_port_def)

lemma sim_contracts [simp]:
  "errno_on_failure sim_api (rte_flow_pattern_template_destroy sim_api pid)"
  "errno_on_failure sim_api (rte_flow_template_table_destroy sim_api pid)"
  "errno_on_failure sim_api (rte_flow_destroy sim_api pid)"
  by (auto simp: errno_on_failure_def sim_api_def sim_ack_def split: if_splits)

lemma sim_make_null: "sim_make d = (0, d') \<Longrightarrow> sim_errno d' \<noteq> 0"
  by (auto simp: sim_make_def split: if_splits)

lemma sim_create_contract [simp]: "flow_create_contract sim_api pid"
  by (auto simp: flow_create_contract_def sim_api_def dest: sim_make_null)

section \<open>Templates and tables\<close>

theorem pattern_template_create_witness:
  "\<exists>r s' l. port_flow_pattern_template_create sim_api 0 UINT32_MAX 0 [] sim_st = Some (r, s') \<and>
     port_get s' 0 = Some (sim_port\<lparr>pattern_templ_list := l\<rparr>)"
proof -
  have "\<forall>d d'. rte_flow_pattern_template_create sim_api 0 0 [] d = (0, d') \<longrightarrow> rte_errno sim_api d' \<noteq> 0"
    by (auto simp: sim_api_def dest: sim_make_null)
  from pattern_template_create_correct [OF sim_port_ok _ this, of UINT32_MAX]
  show ?thesis by auto
qed

theorem pattern_template_destroy_witness:
  "\<exists>r s'. port_flow_pattern_template_destroy sim_api 0 [3, 4] sim_st = Some (r, s') \<and> r = 0"
  using pattern_template_destroy_correct [OF sim_port_ok, of sim_api "[3, 4]"] by auto

theorem template_table_flush_witness:
  "\<exists>s'. port_flow_template_table_flush sim_api 0 sim_st = Some (0, s')"
  using template_table_flush_correct [OF sim_port_ok, of sim_api] by auto

abbreviation sim_table_attr :: rte_flow_template_table_attr where
  "sim_table_attr \<equiv> \<lparr>ta_flow_attr = sim_attr, ta_driver = 0\<rparr>"

theorem template_table_create_witness:
  "\<exists>s' p' t. port_flow_template_table_create sim_api 0 9 sim_table_attr [] [] sim_st = Some (0, s') \<and>
     port_get s' 0 = Some p' \<and> t \<in> set (table_list p') \<and> tb_flow_attr t = sim_attr"
proof -
  have c: "\<forall>phs ahs d d'. rte_flow_template_table_create sim_api 0 sim_table_attr phs ahs d = (0, d') \<longrightarrow>
      rte_errno sim_api d' \<noteq> 0"
    by (auto simp: sim_api_def dest: sim_make_null)
  have "\<exists>s'. port_flow_template_table_create sim_api 0 9 sim_table_attr [] [] sim_st = Some (0, s')"
    by (simp add: port_flow_template_table_create_def table_alloc_def desc_alloc_def pick_id_def
        c_calloc_def Let_def)
       (simp add: sim_api_def sim_make_def sim_st_def sim_dev_def Let_def)
  then obtain s' where s': "port_flow_template_table_create sim_api 0 9 sim_table_attr [] [] sim_st = Some (0, s')"
    by blast
  from template_table_create_sound [OF sim_port_ok _ c s'] s' show ?thesis by auto
qed

section \<open>Indirect actions\<close>

definition sim_action :: port_indirect_action where
  "sim_action = \<lparr>pia_addr = 0, pia_id = 4, pia_type = RTE_FLOW_ACTION_TYPE_AGE, pia_handle = 7,
     pia_age_type = ACTION_AGE_CONTEXT_TYPE_FLOW\<rparr>"

definition sim_st_action :: "sim st" where
  "sim_st_action = sim_st\<lparr>ports := [sim_port\<lparr>actions_list := [sim_action]\<rparr>], brk := 1\<rparr>"

lemma sim_action_port [simp]:
  "\<not> bad_port sim_st_action 0" "port_get sim_st_action 0 = Some (sim_port\<lparr>actions_list := [sim_action]\<rparr>)"
  by (simp_all add: bad_port_def port_id_is_invalid_def sim_st_action_def sim_st_def port_get_def)

theorem action_handle_destroy_witness:
  "\<exists>r s' l. port_action_handle_destroy sim_api 0 [4] sim_st_action = Some (r, s') \<and>
     port_get s' 0 = Some (sim_port\<lparr>actions_list := l\<rparr>)"
  using action_handle_destroy_correct [OF sim_action_port, of sim_api "[4]"] by auto

theorem action_handle_flush_witness:
  "\<exists>r s'. port_action_handle_flush sim_api 0 sim_st_action = Some (r, s') \<and>
     port_get s' 0 = Some (sim_port\<lparr>actions_list := [sim_action]\<rparr>)"
  using action_handle_flush_keeps [OF sim_action_port, of sim_api] by (auto simp: sim_action_def)

theorem action_handle_query_witness:
  "port_action_handle_query sim_api 0 9 sim_st_action = Some (- EINVAL, None, sim_st_action)"
proof -
  have "\<exists>r rep s'. port_action_handle_query sim_api 0 9 sim_st_action = Some (r, rep, s')"
    by (simp add: port_action_handle_query_def action_get_by_id_def sim_action_def)
  then obtain r rep s' where q: "port_action_handle_query sim_api 0 9 sim_st_action = Some (r, rep, s')"
    by blast
  have "devs_in_range sim_st_action" by (simp add: devs_in_range_def sim_st_action_def sim_st_def)
  from action_handle_query_outcomes [OF q this] q show ?thesis
    by (simp add: sim_st_action_def sim_st_def sim_action_def)
qed

section \<open>Rules\<close>

abbreviation age_action :: rte_flow_action where
  "age_action \<equiv> \<lparr>act_type = RTE_FLOW_ACTION_TYPE_AGE, act_conf = 77\<rparr>"

theorem flow_create_witness:
  "\<exists>r s' l. port_flow_create sim_api 0 sim_attr [] [age_action, end_action] no_tunnel 5 sim_st = Some (r, s') \<and>
     port_get s' 0 = Some (sim_port\<lparr>flow_list := l\<rparr>) \<and> flow_ok (brk s') l"
  using flow_create_correct [OF sim_create_contract sim_port_ok(2), of no_tunnel "[age_action, end_action]"
      sim_attr "[]" 5]
  by auto

definition sim_flow :: "nat \<Rightarrow> u64 \<Rightarrow> port_flow" where
  "sim_flow a i = (blank_flow a \<lparr>rule_attr = sim_attr, rule_pattern = [], rule_actions = [end_action]\<rparr>)
     \<lparr>pf_id := i, pf_flow := 7\<rparr>"

definition sim_st_flows :: "sim st" where
  "sim_st_flows = sim_st\<lparr>ports := [sim_port\<lparr>flow_list := [sim_flow 3 1, sim_flow 2 0]\<rparr>], brk := 4\<rparr>"

lemma sim_flows_port [simp]:
  "\<not> bad_port sim_st_flows 0"
  "port_get sim_st_flows 0 = Some (sim_port\<lparr>flow_list := [sim_flow 3 1, sim_flow 2 0]\<rparr>)"
  by (simp_all add: bad_port_def port_id_is_invalid_def sim_st_flows_def sim_st_def port_get_def)

lemma sim_flow_fields [simp]: "pf_id (sim_flow a i) = i" "pf_addr (sim_flow a i) = a"
  by (simp_all add: sim_flow_def blank_flow_def)

lemma sim_flows_ok [simp]: "flow_ok (brk sim_st_flows) [sim_flow 3 1, sim_flow 2 0]"
  by (simp add: flow_ok_def sim_st_flows_def)

theorem flow_destroy_witness:
  "\<exists>r s' l. port_flow_destroy sim_api 0 [0] False sim_st_flows = Some (r, s') \<and>
     port_get s' 0 = Some (sim_port\<lparr>flow_list := l\<rparr>) \<and>
     filter (\<lambda>f. pf_id f \<noteq> 0) l = [sim_flow 3 1]"
  using flow_destroy_correct [OF sim_flows_port, of sim_api "[0]" False]
  by (auto simp: flow_key_def)

theorem flow_flush_witness:
  "\<exists>s'. port_flow_flush sim_api 0 sim_st_flows = Some (0, s') \<and>
     port_get s' 0 = Some (sim_port\<lparr>flow_list := []\<rparr>)"
  using flow_flush_empties [OF sim_flows_port, of sim_api] by auto

theorem flow_list_witness:
  "port_flow_list sim_api 0 [] sim_st_flows =
     those (map (flow_row sim_api) (sort_key flow_rank [sim_flow 3 1, sim_flow 2 0]))"
  using flow_list_sorted [OF sim_flows_port, of sim_api "[]"] by (simp add: wanted_group_def del: sort_key_simps)

theorem flow_aged_list_witness: "\<exists>d. snd (the (port_flow_aged sim_api 0 False sim_st)) = sim_st\<lparr>dev := d\<rparr>"
proof -
  have "port_flow_aged sim_api 0 False sim_st = Some (None, sim_st\<lparr>dev := sim_dev\<rparr>)"
    by (simp add: port_flow_aged_def) (simp add: sim_api_def sim_st_def sim_dev_def)
  from flow_aged_list_only [OF this] this show ?thesis by auto
qed

section \<open>Queues\<close>

theorem flow_reachable_witness: "\<exists>s'. flow_step sim_api sim_st s' \<and> flow_reachable sim_api s' \<and> flow_inv s'"
proof -
  obtain r s' where "port_flow_create sim_api 0 sim_attr [] [end_action] no_tunnel 5 sim_st = Some (r, s')"
    by (simp add: port_flow_create_def next_flow_id_def) (metis surj_pair)
  then have st: "flow_step sim_api sim_st s'" by (rule step_create)
  have "flow_init sim_st" by (simp add: flow_init_def sim_st_def)
  then have "flow_reachable sim_api s'" using st by (blast intro: flow_reachable.intros)
  with flow_reachable_invariant [OF this] st show ?thesis by blast
qed

definition sim_result :: rte_flow_op_result where
  "sim_result = \<lparr>op_success = True, op_user_data = 2, op_query = 0\<rparr>"

definition sim_st_job :: "sim st" where
  "sim_st_job = sim_st\<lparr>unlinked_flows := [sim_flow 3 1],
     jobs := [(2, \<lparr>job_type = QUEUE_JOB_TYPE_FLOW_DESTROY, job_ptr = Some 3\<rparr>)], brk := 4,
     dev := sim_dev\<lparr>sim_results := [sim_result]\<rparr>\<rparr>"

lemma sim_job_port [simp]: "\<not> bad_port sim_st_job 0" "port_get sim_st_job 0 = Some sim_port"
  by (simp_all add: bad_port_def port_id_is_invalid_def sim_st_job_def sim_st_def port_get_def)

lemma sim_job_inv: "flow_inv sim_st_job"
  by (simp add: flow_inv_def flow_nodes_ok_def flow_ids_ok_def flow_jobs_ok_def all_flows_def ids_ok_def
      sim_st_job_def sim_st_def frees_flow_def)

theorem queue_pull_witness: "\<exists>s'. port_queue_flow_pull sim_api 0 0 sim_st_job = Some (1, 1, [], s') \<and> flow_inv s'"
proof -
  have a: "calloc sim_api (dev sim_st_job) = (True, dev sim_st_job)" by (simp add: sim_api_def)
  have b: "rte_flow_pull sim_api 0 (ucast (0::u16)) (queue_sz sim_port) (dev sim_st_job) =
      (int (length [sim_result]), [sim_result], (dev sim_st_job)\<lparr>sim_results := []\<rparr>)"
    by (simp add: sim_api_def sim_st_job_def)
  have c: "(0::u16) < queue_nb sim_port" "length [sim_result] \<le> unat (queue_sz sim_port)"
    "distinct (map op_user_data [sim_result])" by (simp_all add: sim_port_def)
  have d: "\<forall>r \<in> set [sim_result]. \<exists>job. map_of (jobs sim_st_job) (op_user_data r) = Some job \<and> rule_job job"
    by (simp add: sim_st_job_def sim_result_def rule_job_def)
  from queue_pull_safe [OF sim_job_inv sim_job_port c(1) a b c(2,3) d] show ?thesis
    by (auto simp: sim_result_def)
qed

text \<open>A driver that always reports one aged rule.\<close>

definition aged_api :: "sim queue_api" where
  "aged_api = sim_api\<lparr>rte_flow_get_q_aged_count := (\<lambda>_ _ d. (1, d)),
     rte_flow_get_q_aged_flows := (\<lambda>_ _ _ d. (1, [Some (CtxFlow 2)], d))\<rparr>"

theorem queue_aged_overflow_witness: "port_queue_flow_aged 100 aged_api 0 0 True sim_st_flows = None"
proof -
  have a: "(0::u32) < ucast (queue_nb (sim_port\<lparr>flow_list := [sim_flow 3 1, sim_flow 2 0]\<rparr>))"
    by (simp add: sim_port_def)
  have b: "fst (calloc aged_api d)" for d by (simp add: aged_api_def sim_api_def)
  have c: "rte_flow_get_q_aged_count aged_api 0 0 (dev sim_st_flows) = (int (length [2 :: nat]), dev sim_st_flows)"
    "fst (rte_flow_get_q_aged_flows aged_api 0 0 (length [2 :: nat]) d) = int (length [2 :: nat])"
    "fst (snd (rte_flow_get_q_aged_flows aged_api 0 0 (length [2 :: nat]) d)) =
       map (\<lambda>a. Some (CtxFlow a)) [2]" for d
    by (simp_all add: aged_api_def)
  show ?thesis by (rule queue_aged_overflow [OF sim_flows_port a _ b c]) simp
qed

theorem queue_flow_create_guarded_witness:
  "\<exists>r. r < 0 \<and> port_queue_flow_create sim_api 0 0 False 3 0 0 0 [] [end_action] sim_st = Some (r, sim_st)"
  by (rule queue_flow_create_guarded [OF sim_port_ok(2)]) (auto simp: queue_create_guards_def)

text \<open>A driver that refuses asynchronous rules, and a port with one table and two rules.\<close>

definition refuse_api :: "sim queue_api" where
  "refuse_api = sim_api\<lparr>rte_flow_async_create := (\<lambda>_ _ _ _ _ _ _ _ _ _ d. (0, d\<lparr>sim_errno := 22\<rparr>))\<rparr>"

definition sim_table :: port_table where
  "sim_table = (new_table 9 5)\<lparr>nb_pattern_templates := 1, nb_actions_templates := 1, tb_table := 7\<rparr>"

definition sim_table_port :: rte_port where
  "sim_table_port = sim_port\<lparr>table_list := [sim_table], flow_list := [sim_flow 3 1, sim_flow 2 0]\<rparr>"

definition sim_st_table :: "sim st" where
  "sim_st_table = sim_st\<lparr>ports := [sim_table_port], brk := 10\<rparr>"

theorem queue_flow_create_refused_witness:
  "\<exists>r s' l. port_queue_flow_create refuse_api 0 0 False 5 UINT32_MAX 0 0 [] [end_action] sim_st_table =
     Some (r, s') \<and> port_get s' 0 = Some (sim_table_port\<lparr>flow_list := l\<rparr>) \<and> l = [sim_flow 3 1]"
proof -
  have i: "flow_inv sim_st_table"
    by (simp add: flow_inv_def flow_nodes_ok_def flow_ids_ok_def flow_jobs_ok_def all_flows_def ids_ok_def
        sim_st_table_def sim_st_def sim_table_port_def)
  have b: "\<not> bad_port sim_st_table 0"
    by (simp add: bad_port_def port_id_is_invalid_def sim_st_table_def sim_st_def)
  have g: "queue_create_guards 0 0 5 0 0 sim_st_table sim_table_port 2 sim_table"
    by (simp add: queue_create_guards_def sim_st_table_def sim_st_def sim_table_port_def port_get_def
        next_flow_id_def sim_table_def new_table_def)
       (simp add: sim_port_def)
  have al: "allocating refuse_api" by (simp add: allocating_def refuse_api_def sim_api_def)
  have r: "fst (rte_flow_async_create refuse_api 0 a pp t its pi as ai j ctx d) = 0"
    "fst (rte_flow_async_create_by_index refuse_api 0 a pp t ix as ai j ctx d) = 0"
    "fst (rte_flow_async_destroy refuse_api 0 a pp h j d) = 0" for a pp t its pi as ai j ctx d ix h
    by (simp_all add: refuse_api_def sim_api_def)
  have "\<exists>r s' l. port_queue_flow_create refuse_api 0 0 False 5 UINT32_MAX 0 0 [] [end_action] sim_st_table =
      Some (r, s') \<and> port_get s' 0 = Some (sim_table_port\<lparr>flow_list := l\<rparr>) \<and>
      l = filter (\<lambda>f. pf_id f \<noteq> 0) (flow_list sim_table_port)"
    by (rule queue_flow_create_refused_hits_rule_0 [OF i b g al _ r]) simp
  then show ?thesis by (simp add: sim_table_port_def)
qed

theorem flow_aged_use_after_free_witness: "port_flow_aged
  (sim_api\<lparr>rte_flow_get_aged_count := (\<lambda>_ d. (1, d)),
     rte_flow_get_aged_flows := (\<lambda>_ _ d. (1, [Some (CtxFlow (pf_addr (sim_flow 3 1)))], d)),
     rte_flow_destroy := (\<lambda>_ _ d. (0, d))\<rparr>) 0 True sim_st_flows = None"
  (is "port_flow_aged ?api 0 True sim_st_flows = None")
proof -
  have a: "flow_ok (brk sim_st_flows) (flow_list (sim_port\<lparr>flow_list := [sim_flow 3 1, sim_flow 2 0]\<rparr>))"
    "sim_flow 3 1 \<in> set (flow_list (sim_port\<lparr>flow_list := [sim_flow 3 1, sim_flow 2 0]\<rparr>))"
    "sim_flow 3 1 \<noteq> last (flow_list (sim_port\<lparr>flow_list := [sim_flow 3 1, sim_flow 2 0]\<rparr>))"
    "flow_at sim_st_flows (pf_addr (sim_flow 3 1)) = Some (sim_flow 3 1)"
    "pf_age_type (sim_flow 3 1) = ACTION_AGE_CONTEXT_TYPE_FLOW"
    "rte_flow_get_aged_count ?api 0 (dev sim_st_flows) = (1, dev sim_st_flows)"
    by (simp_all add: flow_at_def sim_st_flows_def sim_flow_def blank_flow_def flow_ok_def)
  have b: "fst (calloc ?api d)" "fst (rte_flow_destroy ?api 0 h d) = 0"
    "rte_flow_get_aged_flows ?api 0 n d = (1, [Some (CtxFlow (pf_addr (sim_flow 3 1)))], d)" for d h n
    by (simp_all add: sim_api_def)
  show ?thesis by (rule flow_aged_destroy_use_after_free [OF sim_flows_port a(1-5) b(1) a(6) b(3) b(2)])
qed

text \<open>A driver that refuses to destroy the object with handle 8 only.\<close>

definition picky_api :: "sim queue_api" where
  "picky_api = sim_api\<lparr>rte_flow_action_handle_destroy :=
     (\<lambda>_ h d. if h = 8 then (-1, d\<lparr>sim_errno := 16\<rparr>) else (0, d))\<rparr>"

definition sim_st_actions :: "sim st" where
  "sim_st_actions = sim_st\<lparr>ports := [sim_port\<lparr>actions_list :=
     [sim_action\<lparr>pia_id := 5, pia_handle := 8\<rparr>, sim_action]\<rparr>], brk := 1\<rparr>"

text \<open>The destroy command for indirect actions can report success for an action that is still
  there: a refusal by the driver is forgotten as soon as a later action of the same call is
  destroyed.\<close>

theorem action_destroy_masks_failure:
  "\<exists>s'. port_action_handle_destroy picky_api 0 [5, 4] sim_st_actions = Some (0, s') \<and>
     map pia_id (actions_list (ports s' ! 0)) = [5]"
  by (simp add: port_action_handle_destroy_def destroy_in_def bad_port_def port_id_is_invalid_def
      sim_st_actions_def sim_st_def port_get_def sim_action_def action_kill_def action_pmd_destroy_def
      picky_api_def sim_api_def Let_def port_upd_def port_flow_complain_def)

theorem tunnel_create_witness:
  "\<exists>s' l t. port_flow_tunnel_create sim_api 0 (no_tunnel\<lparr>ops_type := ''gre''\<rparr>) sim_st = Some s' \<and>
     port_get s' 0 = Some (sim_port\<lparr>flow_tunnel_list := l\<rparr>) \<and> t \<in> set l \<and>
     port_flow_tunnel_type (ft_tunnel t) = ''gre''"
proof -
  have "distinct (tunnel_kinds (flow_tunnel_list sim_port))" by (simp add: sim_port_def)
  from tunnel_create_unique [OF sim_port_ok(2) _ this, of "no_tunnel\<lparr>ops_type := ''gre''\<rparr>"
      RTE_FLOW_ITEM_TYPE_GRE sim_api]
  show ?thesis by (auto simp: tunnel_item_type_def sim_api_def)
qed

end
