(* ===== verification/FwdConfig.thy ===== *)
theory FwdConfig
  imports Testpmd
begin

text \<open>
  The forwarding configuration (\<^verbatim>\<open>init_fwd_streams\<close> of \<^verbatim>\<open>dpdk.cpp\<close>, and
  \<^verbatim>\<open>setup_fwd_config_of_each_lcore\<close>, \<^verbatim>\<open>fwd_topology_tx_port_get\<close>, \<^verbatim>\<open>simple_fwd_config_setup\<close>,
  \<^verbatim>\<open>rss_fwd_config_setup\<close>, \<^verbatim>\<open>icmp_echo_config_setup\<close>, \<^verbatim>\<open>fwd_config_setup\<close>
  of \<^verbatim>\<open>config.c\<close>): which stream polls which queue of which port,
  where it sends, and which core runs it.  The arrays of streams and cores are lists; an index
  outside one of them is undefined behaviour, the result \<open>None\<close>, and so is a division by zero.
\<close>

section \<open>Data\<close>

record fwd_stream =
  rx_port :: u16
  rx_queue :: u16
  tx_port :: u16
  tx_queue :: u16
  peer_addr :: u16
  disabled :: bool
  retry_enabled :: u32
  rx_packets :: u64
  tx_packets :: u64
  fwd_dropped :: u64
  rx_bad_ip_csum :: u64
  rx_bad_l4_csum :: u64
  rx_bad_outer_l4_csum :: u64
  rx_bad_outer_ip_csum :: u64
  busy_cycles :: u64
  rx_burst_spread :: "u32 list"
  tx_burst_spread :: "u32 list"
  fs_lcore :: "nat option"

record fwd_lcore =
  stream_idx :: u16
  stream_nb :: u16
  stopped :: bool

record fwd_config =
  fwd_eng :: nat
  nb_fwd_streams :: u16
  nb_fwd_lcores :: u8
  nb_fwd_ports :: u16

datatype port_topology = PORT_TOPOLOGY_PAIRED | PORT_TOPOLOGY_CHAINED | PORT_TOPOLOGY_LOOP

text \<open>
  The globals these functions read and write.  The names with prefix \<open>g_\<close> are globals that have
  the name of a field of \<^verbatim>\<open>struct fwd_config\<close>; the engine, a pointer there, is a number.
\<close>

record fwd_st =
  cur_fwd_config :: fwd_config
  cur_fwd_eng :: nat
  fwd_lcores :: "fwd_lcore list"
  fwd_streams :: "fwd_stream list"
  fwd_ports_ids :: "u16 list"
  g_nb_fwd_streams :: u16
  g_nb_fwd_lcores :: u8
  g_nb_fwd_ports :: u16
  nb_ports :: u16
  nb_rxq :: u16
  nb_txq :: u16
  topology :: port_topology
  proc_id :: int
  num_procs :: int
  g_retry_enabled :: u32
  rxq_share :: u32
  fwd_ports :: "rte_port list"
  fwd_devs :: "u16 list"
  numa_support :: bool
  port_numa :: "u8 list"
  socket_num :: u8
  socket_ids :: "u32 list"
  eth_dev_socket :: "u16 \<Rightarrow> u32"

section \<open>Streams\<close>

definition blank_stream :: fwd_stream where
  "blank_stream = \<lparr>rx_port = 0, rx_queue = 0, tx_port = 0, tx_queue = 0, peer_addr = 0, disabled = False,
     retry_enabled = 0, rx_packets = 0, tx_packets = 0, fwd_dropped = 0, rx_bad_ip_csum = 0,
     rx_bad_l4_csum = 0, rx_bad_outer_l4_csum = 0, rx_bad_outer_ip_csum = 0, busy_cycles = 0,
     rx_burst_spread = replicate 513 0, tx_burst_spread = replicate 513 0, fs_lcore = None\<rparr>"

text \<open>
  The socket of a port: the configured one, else the one of the device if it is a known socket,
  else the first known socket; without NUMA support the configured socket or zero.
\<close>

definition new_socket_id :: "u32 list \<Rightarrow> u32 \<Rightarrow> bool" where
  "new_socket_id ids x \<longleftrightarrow> x \<notin> set ids"

definition check_socket_id :: "u32 list \<Rightarrow> u32 \<Rightarrow> int" where
  "check_socket_id ids x = (if new_socket_id ids x then -1 else 0)"

definition socket_of :: "fwd_st \<Rightarrow> u16 \<Rightarrow> u32 option" where
  "socket_of s pid =
     (if numa_support s
      then (if unat pid < length (port_numa s)
            then (if port_numa s ! unat pid \<noteq> 0xFF then Some (ucast (port_numa s ! unat pid))
                  else if check_socket_id (socket_ids s) (eth_dev_socket s pid) < 0
                  then (case socket_ids s of [] \<Rightarrow> None | x # _ \<Rightarrow> Some x)
                  else Some (eth_dev_socket s pid))
            else None)
      else Some (if socket_num s = 0xFF then 0 else ucast (socket_num s)))"

text \<open>The loop over the devices: the queue numbers are checked and the socket is stored.\<close>

fun init_ports :: "u16 list \<Rightarrow> fwd_st \<Rightarrow> (bool \<times> fwd_st) option" where
  "init_ports [] s = Some (True, s)"
| "init_ports (pid # pids) s =
     (if unat pid < length (fwd_ports s)
      then (let port = fwd_ports s ! unat pid in
        if nb_rxq s > max_rx_queues (dev_info port) \<or> nb_txq s > max_tx_queues (dev_info port)
        then Some (False, s)
        else do {
          sock \<leftarrow> socket_of s pid;
          init_ports pids (s\<lparr>fwd_ports := (fwd_ports s)[unat pid := port\<lparr>socket_id := sock\<rparr>]\<rparr>)
        })
      else None)"

text \<open>
  \<^verbatim>\<open>init_fwd_streams\<close>: when the number of streams changes all streams are replaced by zeroed
  ones.  A failed allocation exits the process and is no result of the function.
\<close>

definition init_fwd_streams :: "fwd_st \<Rightarrow> (int \<times> fwd_st) option" where
  "init_fwd_streams s = do {
     (ok, s1) \<leftarrow> init_ports (fwd_devs s) s;
     Some (if \<not> ok then (-1, s1)
      else (let q = max (nb_rxq s1) (nb_txq s1) in
        if q = 0 then (-1, s1)
        else (let n = nb_ports s1 * q in
          if n = g_nb_fwd_streams s1 then (0, s1)
          else (0, s1\<lparr>g_nb_fwd_streams := n, fwd_streams := replicate (unat n) blank_stream\<rparr>))))
   }"

text \<open>One write through \<^verbatim>\<open>fwd_streams[i]\<close>.\<close>

definition set_stream :: "nat \<Rightarrow> (fwd_stream \<Rightarrow> fwd_stream) \<Rightarrow> fwd_st \<Rightarrow> fwd_st option" where
  "set_stream i f s =
     (if i < length (fwd_streams s)
      then Some (s\<lparr>fwd_streams := (fwd_streams s)[i := f (fwd_streams s ! i)]\<rparr>) else None)"

definition fwd_port_id :: "fwd_st \<Rightarrow> u16 \<Rightarrow> u16 option" where
  "fwd_port_id s i = (if unat i < length (fwd_ports_ids s) then Some (fwd_ports_ids s ! unat i) else None)"

section \<open>Cores\<close>

text \<open>One of the two loops: \<open>n\<close> cores from index \<open>i\<close> on get \<open>nb\<close> streams each.\<close>

fun assign_lcores :: "nat \<Rightarrow> nat \<Rightarrow> u16 \<Rightarrow> u16 \<Rightarrow> fwd_lcore list \<Rightarrow> (u16 \<times> fwd_lcore list) option" where
  "assign_lcores 0 i sm nb ls = Some (sm, ls)"
| "assign_lcores (Suc n) i sm nb ls =
     (if i < length ls
      then assign_lcores n (Suc i) (sm + nb) nb (ls[i := (ls ! i)\<lparr>stream_idx := sm, stream_nb := nb\<rparr>])
      else None)"

definition setup_fwd_config_of_each_lcore :: "fwd_config \<Rightarrow> fwd_lcore list \<Rightarrow> fwd_lcore list option" where
  "setup_fwd_config_of_each_lcore c ls =
     (let nb_fs = nb_fwd_streams c; nb_fc = nb_fwd_lcores c in do {
        (per, extra) \<leftarrow> (if nb_fs \<le> ucast nb_fc then Some (1, 0)
                        else if nb_fc = 0 then None
                        else Some (nb_fs div ucast nb_fc, ucast (nb_fs mod ucast nb_fc) :: u8));
        (let nb_lc = nb_fc - extra in do {
           (sm, ls1) \<leftarrow> assign_lcores (unat nb_lc) 0 0 per ls;
           (_, ls2) \<leftarrow> assign_lcores (unat extra) (unat nb_lc) sm (per + 1) ls1;
           Some ls2
         })
      })"

section \<open>Topology\<close>

definition fwd_topology_tx_port_get :: "port_topology \<Rightarrow> u16 \<Rightarrow> u16 \<Rightarrow> u16 option" where
  "fwd_topology_tx_port_get topo n rxp =
     (case topo of
        PORT_TOPOLOGY_PAIRED \<Rightarrow>
          Some (if even (unat rxp)
                then (if unat rxp + 1 < unat n then rxp + 1 else rxp)
                else rxp - 1)
      | PORT_TOPOLOGY_CHAINED \<Rightarrow>
          (if n = 0 then None else Some (of_nat ((unat rxp + 1) mod unat n)))
      | PORT_TOPOLOGY_LOOP \<Rightarrow> Some rxp)"

section \<open>Setup\<close>

definition tx_port_of :: "fwd_st \<Rightarrow> u16 \<Rightarrow> u16 option" where
  "tx_port_of s rxp = do {
     txp \<leftarrow> fwd_topology_tx_port_get (topology s) (nb_fwd_ports (cur_fwd_config s)) rxp;
     fwd_port_id s txp
   }"

definition setup_lcores :: "fwd_st \<Rightarrow> fwd_st option" where
  "setup_lcores s =
     map_option (\<lambda>ls. s\<lparr>fwd_lcores := ls\<rparr>)
       (setup_fwd_config_of_each_lcore (cur_fwd_config s) (fwd_lcores s))"

fun simple_loop :: "nat \<Rightarrow> u16 \<Rightarrow> fwd_st \<Rightarrow> fwd_st option" where
  "simple_loop 0 i s = Some s"
| "simple_loop (Suc n) i s = do {
     rx \<leftarrow> fwd_port_id s i;
     tx \<leftarrow> tx_port_of s i;
     s' \<leftarrow> set_stream (unat i) (\<lambda>fs. fs\<lparr>rx_port := rx, rx_queue := 0, tx_port := tx, tx_queue := 0,
                                   peer_addr := tx, retry_enabled := g_retry_enabled s\<rparr>) s;
     simple_loop n (i + 1) s'
   }"

definition simple_fwd_config_setup :: "fwd_st \<Rightarrow> fwd_st option" where
  "simple_fwd_config_setup s = do {
     (_, s1) \<leftarrow> init_fwd_streams (s\<lparr>cur_fwd_config := (cur_fwd_config s)
        \<lparr>nb_fwd_ports := g_nb_fwd_ports s, nb_fwd_streams := g_nb_fwd_ports s\<rparr>\<rparr>);
     (let lc = g_nb_fwd_lcores s1;
          np = nb_fwd_ports (cur_fwd_config s1);
          s2 = s1\<lparr>cur_fwd_config := (cur_fwd_config s1)
                    \<lparr>nb_fwd_lcores := (if ucast lc > np then ucast np else lc)\<rparr>\<rparr> in do {
        s3 \<leftarrow> setup_lcores s2;
        simple_loop (unat (nb_fwd_ports (cur_fwd_config s3))) 0 s3
      })
   }"

text \<open>The loop of the RSS setup: port first, then queue, the queue wrapping at the end of the
  range of this process.\<close>

fun rss_loop :: "int \<Rightarrow> int \<Rightarrow> nat \<Rightarrow> u16 \<Rightarrow> u16 \<Rightarrow> u16 \<Rightarrow> fwd_st \<Rightarrow> fwd_st option" where
  "rss_loop qstart qend 0 sm rxp rxq s = Some s"
| "rss_loop qstart qend (Suc n) sm rxp rxq s = do {
     tx \<leftarrow> tx_port_of s rxp;
     rx \<leftarrow> fwd_port_id s rxp;
     s' \<leftarrow> set_stream (unat sm) (\<lambda>fs. fs\<lparr>rx_port := rx, rx_queue := rxq, tx_port := tx, tx_queue := rxq,
                                    peer_addr := tx, retry_enabled := g_retry_enabled s\<rparr>) s;
     (let rxp' = rxp + 1 in
      if rxp' < g_nb_fwd_ports s then rss_loop qstart qend n (sm + 1) rxp' rxq s'
      else (let rxq' = rxq + 1 in
            rss_loop qstart qend n (sm + 1) 0 (if uint rxq' \<ge> qend then word_of_int qstart else rxq') s'))
   }"

text \<open>
  The range of queues of this process: \<^verbatim>\<open>num_procs\<close> is unsigned, so the quotients are computed in
  unsigned arithmetic and stored in signed variables.
\<close>

definition rss_start :: "int \<Rightarrow> u16 \<Rightarrow> int \<Rightarrow> int" where
  "rss_start pid nb_q n = signed_take_bit 31 ((pid * uint nb_q) mod 2 ^ 32 div n)"

definition rss_end :: "int \<Rightarrow> u16 \<Rightarrow> int \<Rightarrow> int" where
  "rss_end pid nb_q n = signed_take_bit 31 (rss_start pid nb_q n + uint nb_q div n)"

definition rss_fwd_config_setup :: "fwd_st \<Rightarrow> fwd_st option" where
  "rss_fwd_config_setup s =
     (let nb_q = (if nb_rxq s > nb_txq s then nb_txq s else nb_rxq s);
          streams = nb_q * g_nb_fwd_ports s;
          lcores = (if streams < ucast (g_nb_fwd_lcores s) then ucast streams else g_nb_fwd_lcores s) in do {
        (_, s1) \<leftarrow> init_fwd_streams (s\<lparr>cur_fwd_config := (cur_fwd_config s)
           \<lparr>nb_fwd_lcores := lcores, nb_fwd_ports := g_nb_fwd_ports s, nb_fwd_streams := streams\<rparr>\<rparr>);
        s2 \<leftarrow> setup_lcores s1;
        (if num_procs s2 = 0 then None
         else (let qstart = rss_start (proc_id s2) nb_q (num_procs s2);
                   qend = rss_end (proc_id s2) nb_q (num_procs s2) in
               rss_loop qstart qend (unat streams) 0 0 (word_of_int qstart) s2))
      })"

text \<open>The ICMP echo setup: queue first, then port, over the streams of each core.\<close>

fun icmp_streams :: "nat \<Rightarrow> nat \<Rightarrow> u16 \<Rightarrow> u16 \<Rightarrow> fwd_st \<Rightarrow> (u16 \<times> u16 \<times> fwd_st) option" where
  "icmp_streams 0 i rxp rxq s = Some (rxp, rxq, s)"
| "icmp_streams (Suc n) i rxp rxq s = do {
     rx \<leftarrow> fwd_port_id s rxp;
     s' \<leftarrow> set_stream i (\<lambda>fs. fs\<lparr>rx_port := rx, rx_queue := rxq, tx_port := rx, tx_queue := rxq,
                            peer_addr := rx, retry_enabled := g_retry_enabled s\<rparr>) s;
     (let rxq' = rxq + 1 in
      if rxq' = nb_rxq s then icmp_streams n (Suc i) (rxp + 1) 0 s'
      else icmp_streams n (Suc i) rxp rxq' s')
   }"

fun icmp_lcores :: "nat \<Rightarrow> nat \<Rightarrow> u16 \<Rightarrow> u16 \<Rightarrow> fwd_st \<Rightarrow> fwd_st option" where
  "icmp_lcores 0 lc rxp rxq s = Some s"
| "icmp_lcores (Suc n) lc rxp rxq s =
     (if lc < length (fwd_lcores s)
      then (let l = fwd_lcores s ! lc in do {
        (rxp', rxq', s') \<leftarrow> icmp_streams (unat (stream_nb l)) (unat (stream_idx l)) rxp rxq s;
        icmp_lcores n (Suc lc) rxp' rxq' s'
      })
      else None)"

definition icmp_echo_config_setup :: "fwd_st \<Rightarrow> fwd_st option" where
  "icmp_echo_config_setup s =
     (let prod = uint (nb_txq s) * uint (g_nb_fwd_ports s);
          lc0 = (if prod < uint (g_nb_fwd_lcores s) then word_of_int prod else g_nb_fwd_lcores s) :: u8;
          streams = nb_rxq s * g_nb_fwd_ports s;
          lc1 = (if streams < ucast lc0 then ucast streams else lc0) in do {
        (_, s1) \<leftarrow> init_fwd_streams (s\<lparr>cur_fwd_config := (cur_fwd_config s)
           \<lparr>nb_fwd_lcores := lc1, nb_fwd_ports := g_nb_fwd_ports s, nb_fwd_streams := streams\<rparr>\<rparr>);
        s2 \<leftarrow> setup_lcores s1;
        icmp_lcores (unat (nb_fwd_lcores (cur_fwd_config s2))) 0 0 0 s2
      })"

definition fwd_config_setup :: "fwd_st \<Rightarrow> fwd_st option" where
  "fwd_config_setup s =
     (let s1 = s\<lparr>cur_fwd_config := (cur_fwd_config s)\<lparr>fwd_eng := cur_fwd_eng s\<rparr>\<rparr> in
      if nb_rxq s > 1 \<and> nb_txq s > 1 then rss_fwd_config_setup s1 else simple_fwd_config_setup s1)"

section \<open>Streams over cores\<close>

lemma assign_lcores_spec:
  "i + n \<le> length ls \<Longrightarrow>
    \<exists>ls'. assign_lcores n i sm nb ls = Some (sm + of_nat n * nb, ls') \<and> length ls' = length ls \<and>
      (\<forall>k < length ls. ls' ! k = (if i \<le> k \<and> k < i + n
         then (ls ! k)\<lparr>stream_idx := sm + of_nat (k - i) * nb, stream_nb := nb\<rparr> else ls ! k))"
proof (induction n arbitrary: i sm ls)
  case (Suc n)
  let ?ls = "ls[i := (ls ! i)\<lparr>stream_idx := sm, stream_nb := nb\<rparr>]"
  have i: "Suc i + n \<le> length ?ls" "i < length ls" using Suc.prems by simp_all
  obtain ls' where l: "assign_lcores n (Suc i) (sm + nb) nb ?ls = Some (sm + nb + of_nat n * nb, ls')"
    "length ls' = length ?ls" and
    k: "\<forall>k < length ?ls. ls' ! k = (if Suc i \<le> k \<and> k < Suc i + n
         then (?ls ! k)\<lparr>stream_idx := sm + nb + of_nat (k - Suc i) * nb, stream_nb := nb\<rparr> else ?ls ! k)"
    using Suc.IH [OF i(1)] by blast
  have "ls' ! k = (if i \<le> k \<and> k < i + Suc n
       then (ls ! k)\<lparr>stream_idx := sm + of_nat (k - i) * nb, stream_nb := nb\<rparr> else ls ! k)" if "k < length ls" for k
  proof (cases "k = i")
    case True
    with k that show ?thesis by simp
  next
    case False
    have "sm + nb + of_nat (k - Suc i) * nb = sm + of_nat (k - i) * nb" if "Suc i \<le> k"
    proof -
      from that have "k - i = Suc (k - Suc i)" by simp
      then show ?thesis by (simp add: algebra_simps)
    qed
    with False k that show ?thesis by auto
  qed
  moreover have "sm + nb + of_nat n * nb = sm + of_nat (Suc n) * nb" by (simp add: algebra_simps)
  ultimately show ?case using l i(2) by auto
qed auto

text \<open>The first stream and the number of streams of a core, as numbers.\<close>

definition core_start :: "nat \<Rightarrow> nat \<Rightarrow> nat \<Rightarrow> nat" where
  "core_start fs fc k = k * (fs div fc) + (k - (fc - fs mod fc))"

definition core_load :: "nat \<Rightarrow> nat \<Rightarrow> nat \<Rightarrow> nat" where
  "core_load fs fc k = (if k < fc - fs mod fc then fs div fc else Suc (fs div fc))"

lemma core_start_Suc: "core_start fs fc (Suc k) = core_start fs fc k + core_load fs fc k"
proof (cases "k < fc - fs mod fc")
  case False
  then have "Suc k - (fc - fs mod fc) = Suc (k - (fc - fs mod fc))" by (simp add: Suc_diff_le)
  with False show ?thesis by (simp only: core_start_def core_load_def) simp
qed (simp add: core_start_def core_load_def)

lemma core_start_0: "core_start fs fc 0 = 0"
  by (simp add: core_start_def)

lemma core_start_end: "0 < fc \<Longrightarrow> core_start fs fc fc = fs"
proof -
  assume "0 < fc"
  then have "fs mod fc < fc" by simp
  then have "fc - (fc - fs mod fc) = fs mod fc" by simp
  then show ?thesis by (simp add: core_start_def)
qed

lemma core_start_mono: "i \<le> k \<Longrightarrow> core_start fs fc i \<le> core_start fs fc k"
  by (rule lift_Suc_mono_le [of "core_start fs fc"]) (simp_all add: core_start_Suc)

text \<open>Consecutive intervals cover everything below the last bound exactly once.\<close>

lemma interval_unique:
  assumes "f 0 = (0 :: nat)" "\<And>i. f (Suc i) = f i + g i" "j < f n"
  shows "\<exists>!i. i < n \<and> f i \<le> j \<and> j < f i + g i"
proof -
  have mono: "i \<le> k \<Longrightarrow> f i \<le> f k" for i k
    using lift_Suc_mono_le [of f i k] assms(2) by simp
  have "\<exists>i. i < n \<and> f i \<le> j \<and> j < f i + g i"
    using assms(3)
  proof (induction n)
    case (Suc n)
    then show ?case by (cases "j < f n") (auto simp: assms(2) intro: less_SucI)
  qed (simp add: assms(1))
  moreover have "i = k" if "f i \<le> j" "j < f i + g i" "f k \<le> j" "j < f k + g k" for i k
    using that mono [of "Suc i" k] mono [of "Suc k" i] assms(2) [of i] assms(2) [of k]
    by (metis linorder_neqE_nat not_le order_trans Suc_leI)
  ultimately show ?thesis by blast
qed

lemma u8_in_u16: "unat (ucast (c :: u8) :: u16) = unat c"
proof -
  have "unat c < 2 ^ 8" using unsigned_less [of c] by simp
  then have "unat c < 2 ^ 16" by simp
  then show ?thesis by (simp add: unsigned_ucast_eq take_bit_nat_eq_self)
qed

lemma unat_u16: "x = of_nat N \<Longrightarrow> N < 2 ^ 16 \<Longrightarrow> unat (x :: u16) = N"
  by (simp add: unsigned_of_nat take_bit_nat_eq_self)

text \<open>The quotient and remainder of the code, at their widths.\<close>

lemma setup_quotients:
  fixes c :: u8 and f :: u16
  assumes "0 < c" "ucast c \<le> f"
  shows "unat (f div ucast c) = unat f div unat c" "unat (ucast (f mod ucast c) :: u8) = unat f mod unat c"
    "unat (c - ucast (f mod ucast c)) = unat c - unat f mod unat c"
proof -
  have cc: "unat (ucast c :: u16) = unat c" by (rule u8_in_u16)
  have c0: "0 < unat c" using assms(1) by (simp add: unat_gt_0)
  show "unat (f div ucast c) = unat f div unat c" by (simp add: unat_div cc)
  have "unat f mod unat c < unat c" using c0 by simp
  also have "unat c < 2 ^ 8" using unsigned_less [of c] by simp
  finally have "unat f mod unat c < 2 ^ 8" .
  moreover have "unat (f mod ucast c) = unat f mod unat c" by (simp only: unat_mod cc)
  ultimately show m: "unat (ucast (f mod ucast c) :: u8) = unat f mod unat c"
    by (simp only: unsigned_ucast_eq [of "f mod ucast c"] unsigned_take_bit_eq take_bit_nat_eq_self len_num1 len_bit0 len_of_finite_1_def)
       (simp add: take_bit_nat_eq_self)
  have "ucast (f mod ucast c) \<le> c"
    unfolding word_le_nat_alt m using c0 by (simp add: less_imp_le)
  then show "unat (c - ucast (f mod ucast c)) = unat c - unat f mod unat c"
    by (simp add: unat_sub m)
qed

lemma setup_lcores_spec:
  assumes c0: "0 < nb_fwd_lcores c" and fc: "ucast (nb_fwd_lcores c) \<le> nb_fwd_streams c"
    and len: "unat (nb_fwd_lcores c) \<le> length ls"
  shows "\<exists>ls'. setup_fwd_config_of_each_lcore c ls = Some ls' \<and> length ls' = length ls \<and>
    (\<forall>k < length ls. unat (nb_fwd_lcores c) \<le> k \<longrightarrow> ls' ! k = ls ! k) \<and>
    (\<forall>k < unat (nb_fwd_lcores c).
       unat (stream_idx (ls' ! k)) = core_start (unat (nb_fwd_streams c)) (unat (nb_fwd_lcores c)) k \<and>
       unat (stream_nb (ls' ! k)) = core_load (unat (nb_fwd_streams c)) (unat (nb_fwd_lcores c)) k)"
proof -
  let ?f = "nb_fwd_streams c" and ?c = "nb_fwd_lcores c"
  let ?F = "unat ?f" and ?C = "unat ?c"
  note q = setup_quotients [OF c0 fc]
  define per where "per = ?f div ucast ?c"
  define extra where "extra = (ucast (?f mod ucast ?c) :: u8)"
  have Cp: "0 < ?C" using c0 by (simp add: unat_gt_0)
  have P: "unat per = ?F div ?C" and E: "unat extra = ?F mod ?C" and L: "unat (?c - extra) = ?C - ?F mod ?C"
    using q by (simp_all add: per_def extra_def)
  have pe: "(if ?f \<le> ucast ?c then Some (1, 0) else if ?c = 0 then None
      else Some (?f div ucast ?c, ucast (?f mod ucast ?c) :: u8)) = Some (per, extra)"
  proof (cases "?f \<le> ucast ?c")
    case True
    with fc have "?f = ucast ?c" by simp
    then have "?F = ?C" by (simp add: u8_in_u16)
    with P E Cp have "unat per = unat (1 :: u16)" "unat extra = unat (0 :: u8)" by simp_all
    then have "per = 1" "extra = 0" by (metis unsigned_word_eqI)+
    with True show ?thesis by simp
  next
    case False
    with c0 show ?thesis by (simp add: per_def extra_def word_gt_0)
  qed
  have per: "per = of_nat (?F div ?C)" unfolding P [symmetric] by simp
  define n where "n = ?C - ?F mod ?C"
  have nE: "n + unat extra = ?C" using Cp E by (simp add: n_def less_imp_le)
  have Fb: "?F < 2 ^ 16" using unsigned_less [of ?f] by simp
  obtain ls1 where a1: "assign_lcores n 0 0 per ls = Some (of_nat n * per, ls1)" "length ls1 = length ls"
    and k1: "\<forall>k < length ls. ls1 ! k =
      (if k < n then (ls ! k)\<lparr>stream_idx := of_nat k * per, stream_nb := per\<rparr> else ls ! k)"
    using assign_lcores_spec [of 0 n ls 0 per] nE len by auto
  obtain sm ls2 where a2: "assign_lcores (unat extra) n (of_nat n * per) (per + 1) ls1 = Some (sm, ls2)"
    "length ls2 = length ls" and k2: "\<forall>k < length ls. ls2 ! k = (if n \<le> k \<and> k < ?C
      then (ls1 ! k)\<lparr>stream_idx := of_nat n * per + of_nat (k - n) * (per + 1), stream_nb := per + 1\<rparr> else ls1 ! k)"
    using assign_lcores_spec [of n "unat extra" ls1 "of_nat n * per" "per + 1"] nE len a1(2) by auto
  have res: "setup_fwd_config_of_each_lcore c ls = Some ls2"
    unfolding setup_fwd_config_of_each_lcore_def Let_def pe using L a1(1) a2(1) by (simp add: n_def)
  have st: "core_start ?F ?C k \<le> ?F" if "k \<le> ?C" for k
    using core_start_mono [OF that, of ?F ?C] core_start_end [OF Cp, of ?F] by simp
  have "unat (stream_idx (ls2 ! k)) = core_start ?F ?C k \<and> unat (stream_nb (ls2 ! k)) = core_load ?F ?C k"
    if k: "k < ?C" for k
  proof (cases "k < n")
    case True
    have "stream_idx (ls2 ! k) = of_nat (core_start ?F ?C k)" "stream_nb (ls2 ! k) = per"
      using k1 k2 True k len by (simp_all add: core_start_def n_def [symmetric] per)
    with True P st [of k] k Fb show ?thesis
      by (simp add: unat_u16 core_load_def n_def [symmetric])
  next
    case False
    then obtain m where m: "k = n + m" by (metis le_iff_add not_less)
    have "core_start ?F ?C k = n * (?F div ?C) + m * Suc (?F div ?C)"
      unfolding core_start_def n_def [symmetric] m by (simp add: algebra_simps)
    then have "stream_idx (ls2 ! k) = of_nat (core_start ?F ?C k)" "stream_nb (ls2 ! k) = of_nat (Suc (?F div ?C))"
      using k2 k len m by (simp_all add: per algebra_simps)
    with False st [of "Suc k"] k Fb show ?thesis
      by (simp add: unat_u16 core_start_Suc core_load_def n_def [symmetric])
  qed
  moreover have "\<forall>k < length ls. ?C \<le> k \<longrightarrow> ls2 ! k = ls ! k" using k1 k2 nE by auto
  ultimately show ?thesis using res a2(2) by blast
qed

section \<open>Ports of the topology\<close>

lemma u16_succ: "Suc (unat (x :: u16)) < 2 ^ 16 \<Longrightarrow> unat (x + 1) = Suc (unat x)"
  by (simp add: unat_word_ariths)

lemma u16_bound: "unat (x :: u16) < 2 ^ 16"
  using unsigned_less [of x] by simp

text \<open>The transmit port as a number.\<close>

definition topo_tx :: "port_topology \<Rightarrow> nat \<Rightarrow> nat \<Rightarrow> nat" where
  "topo_tx topo n i =
     (case topo of
        PORT_TOPOLOGY_PAIRED \<Rightarrow> if even i then (if Suc i < n then Suc i else i) else i - 1
      | PORT_TOPOLOGY_CHAINED \<Rightarrow> Suc i mod n
      | PORT_TOPOLOGY_LOOP \<Rightarrow> i)"

lemma topo_tx_bound: "i < n \<Longrightarrow> topo_tx topo n i < n"
  by (auto simp: topo_tx_def split: port_topology.splits)

lemma fwd_topology_spec:
  assumes "unat rxp < unat n"
  shows "\<exists>txp. fwd_topology_tx_port_get topo n rxp = Some txp \<and> unat txp = topo_tx topo (unat n) (unat rxp)"
proof (cases topo)
  case PORT_TOPOLOGY_PAIRED
  have "unat (rxp + 1) = Suc (unat rxp)" if "Suc (unat rxp) < unat n"
    using that u16_bound [of n] by (intro u16_succ) simp
  moreover have "unat (rxp - 1) = unat rxp - 1" if "odd (unat rxp)"
  proof -
    have "1 \<le> unat rxp" using that by (cases "unat rxp") auto
    then have "1 \<le> rxp" by (simp add: word_le_nat_alt)
    then show ?thesis by (simp add: unat_sub)
  qed
  ultimately show ?thesis
    using PORT_TOPOLOGY_PAIRED by (auto simp: fwd_topology_tx_port_get_def topo_tx_def)
next
  case PORT_TOPOLOGY_CHAINED
  have n0: "n \<noteq> 0" using assms by auto
  have "Suc (unat rxp) mod unat n < unat n" using assms by simp
  then have "Suc (unat rxp) mod unat n < 2 ^ 16" using u16_bound [of n] by simp
  then have "unat (of_nat (Suc (unat rxp) mod unat n) :: u16) = Suc (unat rxp) mod unat n"
    by (simp only: unat_u16)
  with PORT_TOPOLOGY_CHAINED n0 show ?thesis
    by (simp add: fwd_topology_tx_port_get_def topo_tx_def)
next
  case PORT_TOPOLOGY_LOOP
  then show ?thesis by (simp add: fwd_topology_tx_port_get_def topo_tx_def)
qed

lemma topo_tx_inj:
  assumes "i < n" "j < n" "topo_tx topo n i = topo_tx topo n j"
  shows "i = j"
proof (cases topo)
  case PORT_TOPOLOGY_PAIRED
  with assms show ?thesis
    by (auto simp: topo_tx_def split: if_splits elim!: evenE oddE; presburger)
next
  case PORT_TOPOLOGY_CHAINED
  have "Suc k mod n = (if Suc k = n then 0 else Suc k)" if "k < n" for k using that by simp
  with assms PORT_TOPOLOGY_CHAINED show ?thesis by (auto simp: topo_tx_def split: if_splits)
next
  case PORT_TOPOLOGY_LOOP
  with assms show ?thesis by (simp add: topo_tx_def)
qed

section \<open>The streams of the receive side scaling setup\<close>

text \<open>What the setup writes into stream \<open>i\<close>.\<close>

definition rss_stream :: "fwd_st \<Rightarrow> nat \<Rightarrow> nat \<Rightarrow> nat \<Rightarrow> fwd_stream \<Rightarrow> fwd_stream" where
  "rss_stream s n nq i fs =
     (let tx = fwd_ports_ids s ! topo_tx (topology s) n (i mod n) in
      fs\<lparr>rx_port := fwd_ports_ids s ! (i mod n), rx_queue := of_nat (i div n mod nq), tx_port := tx,
         tx_queue := of_nat (i div n mod nq), peer_addr := tx, retry_enabled := g_retry_enabled s\<rparr>)"

lemma succ_div_mod:
  fixes k n :: nat
  assumes "0 < n"
  shows "Suc (k mod n) < n \<Longrightarrow> Suc k mod n = Suc (k mod n) \<and> Suc k div n = k div n"
    "\<not> Suc (k mod n) < n \<Longrightarrow> Suc k mod n = 0 \<and> Suc k div n = Suc (k div n)"
proof -
  have "k mod n < n" using assms by simp
  then show "Suc (k mod n) < n \<Longrightarrow> Suc k mod n = Suc (k mod n) \<and> Suc k div n = k div n"
    "\<not> Suc (k mod n) < n \<Longrightarrow> Suc k mod n = 0 \<and> Suc k div n = Suc (k div n)"
    by (auto simp: mod_Suc div_Suc)
qed

text \<open>The next port and queue of the loop.\<close>

lemma rss_next:
  assumes n: "0 < n" "n \<le> unat np" "unat np \<le> n" and q: "0 < nq" "nq < 2 ^ 16"
  shows "(if (of_nat (k mod n) :: u16) + 1 < np
      then (of_nat (k mod n) + 1 :: u16, of_nat (k div n mod nq) :: u16)
      else (0, if int nq \<le> uint ((of_nat (k div n mod nq) :: u16) + 1)
               then 0 else of_nat (k div n mod nq) + 1))
    = (of_nat (Suc k mod n), of_nat (Suc k div n mod nq))"
proof -
  have b: "k mod n < n" "k div n mod nq < nq" "n < 2 ^ 16"
    using n q u16_bound [of np] by simp_all
  have "Suc (k mod n) \<le> n" using b(1) by (rule Suc_leI)
  then have sk: "Suc (k mod n) < 2 ^ 16" using b(3) by (rule le_less_trans)
  have ux: "unat ((of_nat (k mod n) :: u16) + 1) = Suc (k mod n)"
    by (rule unat_u16 [OF _ sk]) simp
  have "Suc (k div n mod nq) \<le> nq" using b(2) by (rule Suc_leI)
  then have sq: "Suc (k div n mod nq) < 2 ^ 16" using q(2) by (rule le_less_trans)
  have uq: "unat ((of_nat (k div n mod nq) :: u16) + 1) = Suc (k div n mod nq)"
    by (rule unat_u16 [OF _ sq]) simp
  have lt: "(of_nat (k mod n) :: u16) + 1 < np \<longleftrightarrow> Suc (k mod n) < n"
    unfolding word_less_nat_alt ux using n(2,3) by simp
  have le: "int nq \<le> uint ((of_nat (k div n mod nq) :: u16) + 1) \<longleftrightarrow> nq \<le> Suc (k div n mod nq)"
    using uq by (metis uint_nat of_nat_le_iff)
  show ?thesis
  proof (cases "Suc (k mod n) < n")
    case True
    with lt succ_div_mod(1) [OF n(1) True] show ?thesis by simp
  next
    case False
    note d = succ_div_mod(2) [OF n(1) False]
    have "(if nq \<le> Suc (k div n mod nq) then 0 else (of_nat (k div n mod nq) :: u16) + 1)
        = of_nat (Suc (k div n) mod nq)"
      using b(2) by (auto simp: mod_Suc)
    with False lt le d show ?thesis by simp
  qed
qed

lemma rss_loop_spec:
  assumes "n = unat (g_nb_fwd_ports s)" "nb_fwd_ports (cur_fwd_config s) = g_nb_fwd_ports s" "0 < n"
    "n \<le> length (fwd_ports_ids s)" "0 < nq" "nq < 2 ^ 16"
    "k + m \<le> length (fwd_streams s)" "k + m < 2 ^ 16"
  shows "\<exists>st'. rss_loop 0 (int nq) m (of_nat k) (of_nat (k mod n)) (of_nat (k div n mod nq)) s
      = Some (s\<lparr>fwd_streams := st'\<rparr>) \<and> length st' = length (fwd_streams s) \<and>
    (\<forall>i < length (fwd_streams s). st' ! i = (if k \<le> i \<and> i < k + m
       then rss_stream s n nq i (fwd_streams s ! i) else fwd_streams s ! i))"
  using assms
proof (induction m arbitrary: k s)
  case 0
  show ?case by (rule exI [of _ "fwd_streams s"]) auto
next
  case (Suc m)
  let ?x = "of_nat (k mod n) :: u16" and ?q = "of_nat (k div n mod nq) :: u16"
  have kn: "k mod n < n" using Suc.prems(3) by simp
  have nb: "n < 2 ^ 16" using Suc.prems(1) u16_bound by simp
  have ux: "unat ?x = k mod n" by (rule unat_u16) (use kn nb in simp_all)
  obtain txp where t: "fwd_topology_tx_port_get (topology s) (g_nb_fwd_ports s) ?x = Some txp"
    "unat txp = topo_tx (topology s) n (k mod n)"
    using fwd_topology_spec [of ?x "g_nb_fwd_ports s" "topology s"] ux kn Suc.prems(1) by auto
  have tb: "topo_tx (topology s) n (k mod n) < n" by (rule topo_tx_bound [OF kn])
  have tx: "tx_port_of s ?x = Some (fwd_ports_ids s ! topo_tx (topology s) n (k mod n))"
    using t tb Suc.prems(2,4) by (simp add: tx_port_of_def fwd_port_id_def)
  have rx: "fwd_port_id s ?x = Some (fwd_ports_ids s ! (k mod n))"
    using ux kn Suc.prems(4) by (simp add: fwd_port_id_def)
  have kk: "unat (of_nat k :: u16) = k" by (rule unat_u16) (use Suc.prems(8) in simp_all)
  define s1 where "s1 = s\<lparr>fwd_streams := (fwd_streams s)[k := rss_stream s n nq k (fwd_streams s ! k)]\<rparr>"
  have st: "rss_loop 0 (int nq) (Suc m) (of_nat k) ?x ?q s =
      rss_loop 0 (int nq) m (of_nat (Suc k)) (of_nat (Suc k mod n)) (of_nat (Suc k div n mod nq)) s1"
  proof -
    have "set_stream (unat (of_nat k :: u16)) (rss_stream s n nq k) s = Some s1"
      using Suc.prems(7) by (simp add: kk set_stream_def s1_def)
    then have "rss_loop 0 (int nq) (Suc m) (of_nat k) ?x ?q s =
      (if ?x + 1 < g_nb_fwd_ports s then rss_loop 0 (int nq) m (of_nat k + 1) (?x + 1) ?q s1
       else rss_loop 0 (int nq) m (of_nat k + 1) 0 (if int nq \<le> uint (?q + 1) then 0 else ?q + 1) s1)"
      using tx rx by (simp add: rss_stream_def [abs_def] Let_def)
    also have "\<dots> = (\<lambda>(x, q). rss_loop 0 (int nq) m (of_nat (Suc k)) x q s1)
       (if ?x + 1 < g_nb_fwd_ports s then (?x + 1, ?q)
        else (0, if int nq \<le> uint (?q + 1) then 0 else ?q + 1))"
      by (simp add: add.commute)
    also have "(if ?x + 1 < g_nb_fwd_ports s then (?x + 1, ?q)
        else (0, if int nq \<le> uint (?q + 1) then 0 else ?q + 1))
        = (of_nat (Suc k mod n), of_nat (Suc k div n mod nq))"
      by (rule rss_next) (use Suc.prems(1,3,5,6) in simp_all)
    finally show ?thesis by (simp only: prod.case)
  qed
  have len: "length (fwd_streams s1) = length (fwd_streams s)" by (simp add: s1_def)
  have same: "rss_stream s1 n nq = rss_stream s n nq" by (simp add: fun_eq_iff rss_stream_def s1_def)
  obtain st' where ih: "rss_loop 0 (int nq) m (of_nat (Suc k)) (of_nat (Suc k mod n)) (of_nat (Suc k div n mod nq)) s1
      = Some (s1\<lparr>fwd_streams := st'\<rparr>)" "length st' = length (fwd_streams s1)"
    and sp: "\<forall>i < length (fwd_streams s1). st' ! i = (if Suc k \<le> i \<and> i < Suc k + m
       then rss_stream s1 n nq i (fwd_streams s1 ! i) else fwd_streams s1 ! i)"
    using Suc.IH [of s1 "Suc k"] Suc.prems len by (auto simp: s1_def)
  have "st' ! i = (if k \<le> i \<and> i < k + Suc m then rss_stream s n nq i (fwd_streams s ! i)
      else fwd_streams s ! i)" if "i < length (fwd_streams s)" for i
    using sp that Suc.prems(7) unfolding len same by (cases "i = k") (auto simp: s1_def)
  with st ih len show ?case by (auto simp: s1_def)
qed

section \<open>Properties\<close>

lemma core_partition:
  assumes "0 < C" "C \<le> F" "\<forall>k < C. a k = core_start F C k \<and> b k = core_load F C k"
  shows "j < F \<Longrightarrow> \<exists>!k. k < C \<and> a k \<le> j \<and> j < a k + b k"
    "k < C \<Longrightarrow> 0 < b k \<and> a k + b k \<le> F" "k < C \<Longrightarrow> l < C \<Longrightarrow> b k \<le> Suc (b l)"
proof -
  have e: "core_start F C C = F" by (rule core_start_end) (rule assms)
  show "\<exists>!k. k < C \<and> a k \<le> j \<and> j < a k + b k" if "j < F"
    using interval_unique [of "core_start F C" "core_load F C" j C] that e assms(3)
    by (auto simp: core_start_0 core_start_Suc cong: conj_cong)
  have "0 < F div C" using assms(1,2) by (simp add: div_greater_zero_iff)
  then show "0 < b k \<and> a k + b k \<le> F" if "k < C"
    using assms(3) that core_start_mono [of "Suc k" C F C] e
    by (auto simp: core_load_def core_start_Suc)
  show "b k \<le> Suc (b l)" if "k < C" "l < C"
    using assms(3) that by (simp add: core_load_def)
qed

text \<open>
  C12: with at least one core, at least as many streams as cores and a table of cores that is long
  enough, every stream belongs to exactly one core, every core gets at least one stream and none
  outside the streams, and the loads of two cores differ by at most one; cores beyond the
  configured ones are not touched.
\<close>

theorem lcore_partition:
  assumes "0 < nb_fwd_lcores c" "ucast (nb_fwd_lcores c) \<le> nb_fwd_streams c"
    "unat (nb_fwd_lcores c) \<le> length ls"
  shows "\<exists>ls'. setup_fwd_config_of_each_lcore c ls = Some ls' \<and> length ls' = length ls \<and>
    drop (unat (nb_fwd_lcores c)) ls' = drop (unat (nb_fwd_lcores c)) ls \<and>
    (\<forall>j < unat (nb_fwd_streams c). \<exists>!k. k < unat (nb_fwd_lcores c) \<and>
       unat (stream_idx (ls' ! k)) \<le> j \<and> j < unat (stream_idx (ls' ! k)) + unat (stream_nb (ls' ! k))) \<and>
    (\<forall>k < unat (nb_fwd_lcores c). 0 < unat (stream_nb (ls' ! k)) \<and>
       unat (stream_idx (ls' ! k)) + unat (stream_nb (ls' ! k)) \<le> unat (nb_fwd_streams c)) \<and>
    (\<forall>k < unat (nb_fwd_lcores c). \<forall>l < unat (nb_fwd_lcores c).
       unat (stream_nb (ls' ! k)) \<le> Suc (unat (stream_nb (ls' ! l))))"
proof -
  let ?C = "unat (nb_fwd_lcores c)" and ?F = "unat (nb_fwd_streams c)"
  obtain ls' where l: "setup_fwd_config_of_each_lcore c ls = Some ls'" "length ls' = length ls"
    "\<forall>k < length ls. ?C \<le> k \<longrightarrow> ls' ! k = ls ! k"
    and k: "\<forall>k < ?C. unat (stream_idx (ls' ! k)) = core_start ?F ?C k \<and>
       unat (stream_nb (ls' ! k)) = core_load ?F ?C k"
    using setup_lcores_spec [OF assms] by blast
  have C: "0 < ?C" "?C \<le> ?F"
    using assms(1,2) by (simp_all add: unat_gt_0 word_le_nat_alt u8_in_u16)
  have "drop ?C ls' = drop ?C ls" using l(2,3) by (intro nth_equalityI) simp_all
  with l core_partition [OF C k] show ?thesis by blast
qed

text \<open>
  for a receive port of the forwarding ports the transmit port is a forwarding port again, two
  receive ports never share a transmit port, and in the paired topology the pairing is symmetric.
\<close>

theorem topology_bijection:
  assumes "unat a < unat n" "unat b < unat n"
  shows "\<exists>x y. fwd_topology_tx_port_get topo n a = Some x \<and> fwd_topology_tx_port_get topo n b = Some y \<and>
    unat x < unat n \<and> unat y < unat n \<and> (x = y \<longrightarrow> a = b) \<and>
    (topo = PORT_TOPOLOGY_PAIRED \<longrightarrow> fwd_topology_tx_port_get topo n x = Some a)"
proof -
  obtain x y where x: "fwd_topology_tx_port_get topo n a = Some x" "unat x = topo_tx topo (unat n) (unat a)"
    and y: "fwd_topology_tx_port_get topo n b = Some y" "unat y = topo_tx topo (unat n) (unat b)"
    using fwd_topology_spec [OF assms(1)] fwd_topology_spec [OF assms(2)] by blast
  have xb: "unat x < unat n" and yb: "unat y < unat n"
    using x(2) y(2) topo_tx_bound [OF assms(1)] topo_tx_bound [OF assms(2)] by simp_all
  have inj: "a = b" if "x = y"
    using topo_tx_inj [OF assms] x(2) y(2) that by (metis unsigned_word_eqI)
  have "fwd_topology_tx_port_get topo n x = Some a" if p: "topo = PORT_TOPOLOGY_PAIRED"
  proof -
    obtain z where z: "fwd_topology_tx_port_get topo n x = Some z" "unat z = topo_tx topo (unat n) (unat x)"
      using fwd_topology_spec [OF xb] by blast
    have "unat z = unat a"
      using z(2) x(2) p assms(1) by (auto simp: topo_tx_def split: if_splits)
    with z(1) show ?thesis by (metis unsigned_word_eqI)
  qed
  with x y xb yb inj show ?thesis by blast
qed

text \<open>What the parser of the options and the start of the devices leave: the counts are at least one
  and fit the devices, their products fit 16 bits, and the tables have room.\<close>

definition fwd_ready :: "fwd_st \<Rightarrow> bool" where
  "fwd_ready s \<longleftrightarrow>
     0 < g_nb_fwd_ports s \<and> g_nb_fwd_ports s \<le> nb_ports s \<and>
     unat (g_nb_fwd_ports s) \<le> length (fwd_ports_ids s) \<and>
     0 < nb_rxq s \<and> 0 < nb_txq s \<and>
     (\<forall>pid \<in> set (fwd_devs s). unat pid < length (fwd_ports s) \<and>
        nb_rxq s \<le> max_rx_queues (dev_info (fwd_ports s ! unat pid)) \<and>
        nb_txq s \<le> max_tx_queues (dev_info (fwd_ports s ! unat pid)) \<and> socket_of s pid \<noteq> None) \<and>
     unat (nb_ports s) * unat (max (nb_rxq s) (nb_txq s)) < 2 ^ 16 \<and>
     length (fwd_streams s) = unat (g_nb_fwd_streams s) \<and>
     0 < g_nb_fwd_lcores s \<and> unat (g_nb_fwd_lcores s) \<le> length (fwd_lcores s)"

lemma unat_mult_u16: "unat a * unat b < 2 ^ 16 \<Longrightarrow> unat (a * b :: u16) = unat a * unat b"
  by (simp add: unat_word_ariths take_bit_nat_eq_self)

lemma socket_of_frame [simp]:
  "socket_of (s\<lparr>cur_fwd_config := c\<rparr>) pid = socket_of s pid"
  "socket_of (s\<lparr>fwd_ports := ps\<rparr>) pid = socket_of s pid"
  by (simp_all add: socket_of_def)

lemma init_ports_ok:
  assumes "\<forall>pid \<in> set pids. unat pid < length (fwd_ports s) \<and>
        nb_rxq s \<le> max_rx_queues (dev_info (fwd_ports s ! unat pid)) \<and>
        nb_txq s \<le> max_tx_queues (dev_info (fwd_ports s ! unat pid)) \<and> socket_of s pid \<noteq> None"
  shows "\<exists>ps. init_ports pids s = Some (True, s\<lparr>fwd_ports := ps\<rparr>) \<and>
    map dev_info ps = map dev_info (fwd_ports s) \<and> map rxq_conf ps = map rxq_conf (fwd_ports s)"
  using assms
proof (induction pids arbitrary: s)
  case Nil
  show ?case by (rule exI [of _ "fwd_ports s"]) simp
next
  case (Cons pid pids)
  let ?p = "unat pid"
  obtain sock where sock: "socket_of s pid = Some sock" using Cons.prems by auto
  have p: "?p < length (fwd_ports s)" using Cons.prems by simp
  let ?port = "(fwd_ports s ! ?p)\<lparr>socket_id := sock\<rparr>"
  let ?w = "s\<lparr>fwd_ports := (fwd_ports s)[?p := ?port]\<rparr>"
  have d: "map dev_info (fwd_ports ?w) = map dev_info (fwd_ports s)"
    "map rxq_conf (fwd_ports ?w) = map rxq_conf (fwd_ports s)"
    using p by (simp_all add: map_update list_update_same_conv)
  have so: "socket_of ?w q = socket_of s q" for q by simp
  have di: "dev_info (fwd_ports ?w ! i) = dev_info (fwd_ports s ! i)" if "i < length (fwd_ports s)" for i
    using that by (cases "i = ?p") simp_all
  have len: "length (fwd_ports ?w) = length (fwd_ports s)" by simp
  have "\<forall>pid \<in> set pids. unat pid < length (fwd_ports ?w) \<and>
      nb_rxq ?w \<le> max_rx_queues (dev_info (fwd_ports ?w ! unat pid)) \<and>
      nb_txq ?w \<le> max_tx_queues (dev_info (fwd_ports ?w ! unat pid)) \<and> socket_of ?w pid \<noteq> None"
  proof
    fix q
    assume "q \<in> set pids"
    with Cons.prems have q: "unat q < length (fwd_ports s)"
      "nb_rxq s \<le> max_rx_queues (dev_info (fwd_ports s ! unat q))"
      "nb_txq s \<le> max_tx_queues (dev_info (fwd_ports s ! unat q))" "socket_of s q \<noteq> None" by simp_all
    show "unat q < length (fwd_ports ?w) \<and>
      nb_rxq ?w \<le> max_rx_queues (dev_info (fwd_ports ?w ! unat q)) \<and>
      nb_txq ?w \<le> max_tx_queues (dev_info (fwd_ports ?w ! unat q)) \<and> socket_of ?w q \<noteq> None"
      unfolding so len di [OF q(1)] using q by simp
  qed
  from Cons.IH [OF this] obtain ps where ps: "init_ports pids ?w = Some (True, ?w\<lparr>fwd_ports := ps\<rparr>)"
    "map dev_info ps = map dev_info (fwd_ports s)" "map rxq_conf ps = map rxq_conf (fwd_ports s)"
    unfolding d by blast
  have "init_ports (pid # pids) s = init_ports pids ?w"
    using Cons.prems p sock by (auto simp: Let_def)
  with ps show ?case by auto
qed

lemma init_streams_ok:
  assumes "fwd_ready s"
  shows "\<exists>ps str k. init_fwd_streams (s\<lparr>cur_fwd_config := c\<rparr>) =
      Some (0, s\<lparr>cur_fwd_config := c, fwd_ports := ps, g_nb_fwd_streams := k, fwd_streams := str\<rparr>) \<and>
    length str = unat (nb_ports s) * unat (max (nb_rxq s) (nb_txq s))"
proof -
  let ?v = "s\<lparr>cur_fwd_config := c\<rparr>" and ?q = "max (nb_rxq s) (nb_txq s)"
  let ?n = "nb_ports s * ?q"
  obtain ps where ps: "init_ports (fwd_devs s) ?v = Some (True, ?v\<lparr>fwd_ports := ps\<rparr>)"
    using init_ports_ok [of "fwd_devs s" ?v] assms by (auto simp: fwd_ready_def)
  let ?w = "?v\<lparr>fwd_ports := ps\<rparr>"
  have n: "unat ?n = unat (nb_ports s) * unat ?q"
    using assms unat_mult_u16 [of "nb_ports s" ?q] by (simp add: fwd_ready_def)
  have q: "?q \<noteq> 0" using assms by (auto simp: fwd_ready_def max_def)
  have "init_fwd_streams ?v = (if ?n = g_nb_fwd_streams s then Some (0, ?w)
      else Some (0, ?w\<lparr>g_nb_fwd_streams := ?n, fwd_streams := replicate (unat ?n) blank_stream\<rparr>))"
    using ps q by (simp add: init_fwd_streams_def Let_def)
  moreover have "\<exists>str k. X = Some (0, ?w\<lparr>g_nb_fwd_streams := k, fwd_streams := str\<rparr>) \<and> length str = unat ?n"
    if "X = (if ?n = g_nb_fwd_streams s then Some (0, ?w)
      else Some (0, ?w\<lparr>g_nb_fwd_streams := ?n, fwd_streams := replicate (unat ?n) blank_stream\<rparr>))" for X
  proof (cases "?n = g_nb_fwd_streams s")
    case True
    have "length (fwd_streams s) = unat (g_nb_fwd_streams s)" using assms by (simp add: fwd_ready_def)
    with True that show ?thesis
      by (intro exI [of _ "fwd_streams s"] exI [of _ "g_nb_fwd_streams s"]) simp
  next
    case False
    with that show ?thesis by (intro exI [of _ "replicate (unat ?n) blank_stream"] exI [of _ ?n]) simp
  qed
  ultimately obtain str k where "init_fwd_streams ?v = Some (0, ?w\<lparr>g_nb_fwd_streams := k, fwd_streams := str\<rparr>)"
    "length str = unat ?n" by blast
  then show ?thesis unfolding n by auto
qed

lemma rss_range:
  "rss_start 0 q 1 = 0" "rss_end 0 q 1 = int (unat q)"
proof -
  show z: "rss_start 0 q 1 = 0" by (simp add: rss_start_def)
  have "uint q < 2 ^ 16" "0 \<le> uint q" using unsigned_less [of q] by simp_all
  then show "rss_end 0 q 1 = int (unat q)"
    by (simp add: rss_end_def z signed_take_bit_int_eq_self_iff order_trans [of _ 0])
qed

text \<open>The setup, for a single process.\<close>

lemma rss_setup_spec:
  assumes r: "fwd_ready s" and p: "num_procs s = 1" "proc_id s = 0"
    and n: "n = unat (g_nb_fwd_ports s)" and nq: "nq = min (unat (nb_rxq s)) (unat (nb_txq s))"
  shows "\<exists>s' ls'. rss_fwd_config_setup s = Some s' \<and> fwd_ports_ids s' = fwd_ports_ids s \<and>
    unat (nb_fwd_streams (cur_fwd_config s')) = nq * n \<and> nq * n \<le> length (fwd_streams s') \<and>
    setup_fwd_config_of_each_lcore (cur_fwd_config s') (fwd_lcores s) = Some ls' \<and> fwd_lcores s' = ls' \<and>
    unat (nb_fwd_lcores (cur_fwd_config s')) = min (nq * n) (unat (g_nb_fwd_lcores s)) \<and>
    (\<forall>i < nq * n. \<exists>fs. fwd_streams s' ! i = rss_stream s n nq i fs)"
proof -
  let ?q = "if nb_rxq s > nb_txq s then nb_txq s else nb_rxq s"
  let ?st = "?q * g_nb_fwd_ports s"
  let ?lc = "if ?st < ucast (g_nb_fwd_lcores s) then ucast ?st else g_nb_fwd_lcores s"
  let ?c = "(cur_fwd_config s)\<lparr>nb_fwd_lcores := ?lc, nb_fwd_ports := g_nb_fwd_ports s, nb_fwd_streams := ?st\<rparr>"
  have q: "unat ?q = nq" by (simp add: nq word_less_nat_alt)
  have qb: "nq < 2 ^ 16" "0 < nq" "0 < n" "nq \<le> unat (max (nb_rxq s) (nb_txq s))" "n \<le> unat (nb_ports s)"
    using r u16_bound [of ?q] q by (auto simp: fwd_ready_def nq n unat_gt_0 max_def word_le_nat_alt)
  have nle: "nq * n \<le> unat (nb_ports s) * unat (max (nb_rxq s) (nb_txq s))"
    using mult_le_mono [OF qb(5,4)] by (simp add: mult.commute)
  moreover have small: "unat (nb_ports s) * unat (max (nb_rxq s) (nb_txq s)) < 2 ^ 16"
    using r by (simp only: fwd_ready_def)
  ultimately have nb: "nq * n < 2 ^ 16" by (rule le_less_trans)
  have st: "unat ?st = nq * n" using unat_mult_u16 [of ?q "g_nb_fwd_ports s"] nb q n by simp
  have lcb: "unat (g_nb_fwd_lcores s) < 2 ^ 8" using unsigned_less [of "g_nb_fwd_lcores s"] by simp
  have lc: "unat ?lc = min (nq * n) (unat (g_nb_fwd_lcores s))"
  proof (cases "?st < ucast (g_nb_fwd_lcores s)")
    case True
    then have "unat ?st < unat (ucast (g_nb_fwd_lcores s) :: u16)" by (rule word_less_nat_alt [THEN iffD1])
    then have lt: "nq * n < unat (g_nb_fwd_lcores s)" by (simp only: st u8_in_u16)
    then have "unat (ucast ?st :: u8) = nq * n"
      using lcb st by (simp add: unsigned_ucast_eq take_bit_nat_eq_self)
    with True lt show ?thesis by simp
  next
    case False
    then have "ucast (g_nb_fwd_lcores s) \<le> ?st" by (rule leI)
    then have "unat (ucast (g_nb_fwd_lcores s) :: u16) \<le> unat ?st" by (rule word_le_nat_alt [THEN iffD1])
    then have "unat (g_nb_fwd_lcores s) \<le> nq * n" by (simp only: st u8_in_u16)
    with False show ?thesis by simp
  qed
  obtain ps str k where i: "init_fwd_streams (s\<lparr>cur_fwd_config := ?c\<rparr>) =
      Some (0, s\<lparr>cur_fwd_config := ?c, fwd_ports := ps, g_nb_fwd_streams := k, fwd_streams := str\<rparr>)"
    and str: "length str = unat (nb_ports s) * unat (max (nb_rxq s) (nb_txq s))"
    using init_streams_ok [OF r] by blast
  let ?t = "s\<lparr>cur_fwd_config := ?c, fwd_ports := ps, g_nb_fwd_streams := k, fwd_streams := str\<rparr>"
  have f: "nb_fwd_lcores ?c = ?lc" "nb_fwd_streams ?c = ?st" by simp_all
  have l0: "0 < unat (g_nb_fwd_lcores s)" "unat (g_nb_fwd_lcores s) \<le> length (fwd_lcores s)"
    using r by (auto simp: fwd_ready_def unat_gt_0)
  have "0 < unat ?lc" unfolding lc using l0(1) qb(2,3) by simp
  then have "0 < nb_fwd_lcores ?c" unfolding f unat_gt_0 word_gt_0 by (rule not_sym)
  moreover have "unat (ucast ?lc :: u16) \<le> unat ?st" unfolding u8_in_u16 lc st by simp
  then have "ucast (nb_fwd_lcores ?c) \<le> nb_fwd_streams ?c" unfolding f by (rule word_le_nat_alt [THEN iffD2])
  moreover have "unat (nb_fwd_lcores ?c) \<le> length (fwd_lcores s)" unfolding f lc using l0(2) by simp
  ultimately obtain ls' where l: "setup_fwd_config_of_each_lcore ?c (fwd_lcores s) = Some ls'"
    using setup_lcores_spec by blast
  let ?v = "?t\<lparr>fwd_lcores := ls'\<rparr>"
  have set: "setup_lcores ?t = Some ?v" using l by (simp add: setup_lcores_def)
  have pre: "n \<le> length (fwd_ports_ids s)" using r by (simp add: n fwd_ready_def)
  obtain str' where lp: "rss_loop 0 (int nq) (nq * n) 0 0 0 ?v = Some (?v\<lparr>fwd_streams := str'\<rparr>)"
    "length str' = length str" "\<forall>i < length str. str' ! i = (if i < nq * n then rss_stream ?v n nq i (str ! i) else str ! i)"
    using rss_loop_spec [of n ?v nq 0 "nq * n"] qb nb pre nle str by (auto simp: n)
  have res: "rss_fwd_config_setup s = Some (?v\<lparr>fwd_streams := str'\<rparr>)"
  proof -
    have "rss_fwd_config_setup s = rss_loop (rss_start 0 ?q 1) (rss_end 0 ?q 1) (unat ?st) 0 0
        (word_of_int (rss_start 0 ?q 1)) ?v"
      unfolding rss_fwd_config_setup_def Let_def i using set p by simp
    with lp(1) show ?thesis unfolding rss_range q st by simp
  qed
  have "\<forall>i < nq * n. \<exists>fs. str' ! i = rss_stream s n nq i fs"
    using lp(3) nle str by (auto simp: rss_stream_def Let_def)
  with res l st lc lp(2) nle str show ?thesis by auto
qed

lemma row_major_bound:
  fixes n nq :: nat
  assumes "p < n" "q < nq"
  shows "q * n + p < nq * n"
proof -
  have "q * n + p < Suc q * n" using assms(1) by simp
  also have "\<dots> \<le> nq * n" using assms(2) by (intro mult_le_mono1) simp
  finally show ?thesis .
qed

text \<open>The stream of a port and a queue.\<close>

lemma rss_stream_iff:
  assumes str: "\<forall>i < nq * n. \<exists>fs. streams ! i = rss_stream s n nq i fs" and i: "i < nq * n"
    and r: "fwd_ready s" and "distinct (take n (fwd_ports_ids s))" "p < n" "q < nq"
    and n: "n = unat (g_nb_fwd_ports s)" "nq = min (unat (nb_rxq s)) (unat (nb_txq s))"
  shows "rx_port (streams ! i) = fwd_ports_ids s ! p \<and> rx_queue (streams ! i) = of_nat q \<longleftrightarrow> i = q * n + p"
proof -
  obtain fs where fs: "streams ! i = rss_stream s n nq i fs" using str i by blast
  have nl: "n \<le> length (fwd_ports_ids s)" using r n by (simp add: fwd_ready_def)
  have n0: "0 < n" using assms(5) by simp
  have d: "i div n < nq" using i by (simp add: less_mult_imp_div_less)
  have "nq < 2 ^ 16" unfolding n(2) using u16_bound [of "nb_rxq s"] by (simp add: min_less_iff_disj)
  then have b: "i div n < 2 ^ 16" "q < 2 ^ 16" by (rule less_trans [OF d], rule less_trans [OF assms(6)])
  have port: "fwd_ports_ids s ! (i mod n) = fwd_ports_ids s ! p \<longleftrightarrow> i mod n = p"
  proof -
    have "take n (fwd_ports_ids s) ! (i mod n) = take n (fwd_ports_ids s) ! p \<longleftrightarrow> i mod n = p"
      using n0 nl assms(4,5) by (intro nth_eq_iff_index_eq) simp_all
    then show ?thesis using n0 assms(5) by simp
  qed
  have queue: "(of_nat (i div n mod nq) :: u16) = of_nat q \<longleftrightarrow> i div n = q"
    unfolding mod_less [OF d] using unat_u16 [OF refl b(1)] unat_u16 [OF refl b(2)] by metis
  have "i mod n = p \<and> i div n = q \<longleftrightarrow> i = q * n + p"
  proof
    show "i mod n = p \<and> i div n = q \<Longrightarrow> i = q * n + p" using div_mult_mod_eq [of i n] by simp
    show "i = q * n + p \<Longrightarrow> i mod n = p \<and> i div n = q" using assms(5) by simp
  qed
  with port queue show ?thesis unfolding fs rss_stream_def Let_def by simp
qed

lemma setup_core_unique:
  assumes "setup_fwd_config_of_each_lcore c ls = Some ls'" "0 < unat (nb_fwd_lcores c)"
    "unat (nb_fwd_lcores c) \<le> unat (nb_fwd_streams c)" "unat (nb_fwd_lcores c) \<le> length ls"
    "j < unat (nb_fwd_streams c)"
  shows "\<exists>!k. k < unat (nb_fwd_lcores c) \<and> unat (stream_idx (ls' ! k)) \<le> j \<and>
      j < unat (stream_idx (ls' ! k)) + unat (stream_nb (ls' ! k))"
proof -
  have a: "0 < nb_fwd_lcores c" "ucast (nb_fwd_lcores c) \<le> nb_fwd_streams c"
    using assms(2,3) by (simp_all add: unat_gt_0 word_gt_0 word_le_nat_alt u8_in_u16)
  have "\<forall>k < unat (nb_fwd_lcores c).
       unat (stream_idx (ls' ! k)) = core_start (unat (nb_fwd_streams c)) (unat (nb_fwd_lcores c)) k \<and>
       unat (stream_nb (ls' ! k)) = core_load (unat (nb_fwd_streams c)) (unat (nb_fwd_lcores c)) k"
    using setup_lcores_spec [OF a assms(4)] assms(1) by auto
  from core_partition(1) [OF assms(2,3) this assms(5)] show ?thesis .
qed

lemma rss_queue_stream:
  assumes "fwd_ready s" "num_procs s = 1" "proc_id s = 0" "1 < nb_rxq s" "1 < nb_txq s"
    "distinct (take (unat (g_nb_fwd_ports s)) (fwd_ports_ids s))"
    "p < unat (g_nb_fwd_ports s)" "q < min (unat (nb_rxq s)) (unat (nb_txq s))"
  shows "\<exists>s'. fwd_config_setup s = Some s' \<and>
    (\<exists>!i. i < unat (nb_fwd_streams (cur_fwd_config s')) \<and>
       rx_port (fwd_streams s' ! i) = fwd_ports_ids s ! p \<and> rx_queue (fwd_streams s' ! i) = of_nat q) \<and>
    (\<forall>i < unat (nb_fwd_streams (cur_fwd_config s')).
       rx_port (fwd_streams s' ! i) = fwd_ports_ids s ! p \<and> rx_queue (fwd_streams s' ! i) = of_nat q \<longrightarrow>
       tx_queue (fwd_streams s' ! i) = of_nat q \<and>
       tx_port (fwd_streams s' ! i) = fwd_ports_ids s ! topo_tx (topology s) (unat (g_nb_fwd_ports s)) p \<and>
       (\<exists>!k. k < unat (nb_fwd_lcores (cur_fwd_config s')) \<and>
          unat (stream_idx (fwd_lcores s' ! k)) \<le> i \<and>
          i < unat (stream_idx (fwd_lcores s' ! k)) + unat (stream_nb (fwd_lcores s' ! k))))"
proof -
  let ?n = "unat (g_nb_fwd_ports s)" and ?nq = "min (unat (nb_rxq s)) (unat (nb_txq s))"
  let ?w = "s\<lparr>cur_fwd_config := (cur_fwd_config s)\<lparr>fwd_eng := cur_fwd_eng s\<rparr>\<rparr>"
  have w: "fwd_ready ?w" "num_procs ?w = 1" "proc_id ?w = 0"
    using assms(1-3) by (simp_all add: fwd_ready_def)
  have same: "rss_stream ?w = rss_stream s" by (simp add: fun_eq_iff rss_stream_def)
  obtain s' ls' where s': "rss_fwd_config_setup ?w = Some s'"
    "unat (nb_fwd_streams (cur_fwd_config s')) = ?nq * ?n"
    and ls: "setup_fwd_config_of_each_lcore (cur_fwd_config s') (fwd_lcores s) = Some ls'" "fwd_lcores s' = ls'"
    and lc: "unat (nb_fwd_lcores (cur_fwd_config s')) = min (?nq * ?n) (unat (g_nb_fwd_lcores s))"
    and str: "\<forall>i < ?nq * ?n. \<exists>fs. fwd_streams s' ! i = rss_stream s ?n ?nq i fs"
    using rss_setup_spec [OF w refl refl] unfolding same by auto
  have iff: "rx_port (fwd_streams s' ! i) = fwd_ports_ids s ! p \<and> rx_queue (fwd_streams s' ! i) = of_nat q
      \<longleftrightarrow> i = q * ?n + p" if i: "i < ?nq * ?n" for i
    by (rule rss_stream_iff [OF str i assms(1,6,7,8) refl refl])
  have lt: "q * ?n + p < ?nq * ?n" using row_major_bound [OF assms(7,8)] .
  then obtain fs where fs: "fwd_streams s' ! (q * ?n + p) = rss_stream s ?n ?nq (q * ?n + p) fs"
    using str by blast
  have tx: "tx_queue (fwd_streams s' ! (q * ?n + p)) = of_nat q"
    "tx_port (fwd_streams s' ! (q * ?n + p)) = fwd_ports_ids s ! topo_tx (topology s) ?n p"
    using assms(7,8) by (simp_all add: fs rss_stream_def Let_def)
  have l0: "0 < unat (g_nb_fwd_lcores s)" "unat (g_nb_fwd_lcores s) \<le> length (fwd_lcores s)"
    using assms(1) by (auto simp: fwd_ready_def unat_gt_0)
  have "\<exists>!k. k < unat (nb_fwd_lcores (cur_fwd_config s')) \<and> unat (stream_idx (ls' ! k)) \<le> q * ?n + p \<and>
      q * ?n + p < unat (stream_idx (ls' ! k)) + unat (stream_nb (ls' ! k))"
  proof (rule setup_core_unique [OF ls(1)])
    have "0 < ?nq * ?n" using lt by (rule le_less_trans [OF le0])
    with l0(1) show "0 < unat (nb_fwd_lcores (cur_fwd_config s'))" unfolding lc by (simp only: min_less_iff_conj)
    show "q * ?n + p < unat (nb_fwd_streams (cur_fwd_config s'))" unfolding s'(2) by (rule lt)
    show "unat (nb_fwd_lcores (cur_fwd_config s')) \<le> unat (nb_fwd_streams (cur_fwd_config s'))"
      unfolding lc s'(2) by (rule min.cobounded1)
    show "unat (nb_fwd_lcores (cur_fwd_config s')) \<le> length (fwd_lcores s)"
      unfolding lc using l0(2) by (rule order_trans [OF min.cobounded2])
  qed
  note core = this [folded ls(2)]
  have "fwd_config_setup s = Some s'" using s'(1) assms(4,5) by (simp add: fwd_config_setup_def Let_def)
  moreover have "\<exists>!i. i < unat (nb_fwd_streams (cur_fwd_config s')) \<and>
      rx_port (fwd_streams s' ! i) = fwd_ports_ids s ! p \<and> rx_queue (fwd_streams s' ! i) = of_nat q"
    unfolding s'(2) using iff lt by blast
  ultimately show ?thesis using iff tx core unfolding s'(2) [symmetric] by blast
qed


end
