(* ===== verification/SharedRxq.thy ===== *)
theory SharedRxq
  imports FwdConfig
begin

text \<open>
  The check of the shared receive queues (\<^verbatim>\<open>fwd_stream_on_other_lcores\<close> and
  \<^verbatim>\<open>pkt_fwd_shared_rxq_check\<close> of \<^verbatim>\<open>config.c\<close>): before forwarding starts, no shared receive queue
  may be polled by two cores.  The specification is the relation \<open>polls\<close> between cores and shared
  queues; the check is shown to decide it.
\<close>

section \<open>Shared receive queues\<close>

text \<open>The queue a stream polls: its switch domain, share group and queue, if it is shared.\<close>

definition shared_key :: "u64 \<Rightarrow> fwd_st \<Rightarrow> fwd_stream \<Rightarrow> (u16 \<times> u16 \<times> u16) option option" where
  "shared_key share_bit s fs =
     (if unat (rx_port fs) < length (fwd_ports s)
      then (let port = fwd_ports s ! unat (rx_port fs) in
        if and (dev_capa (dev_info port)) share_bit = 0 then Some None
        else if unat (rx_queue fs) < length (rxq_conf port)
        then (let conf = rxq_conf port ! unat (rx_queue fs) in
          Some (if share_group conf = 0 then None
                else Some (switch_domain_id (dev_info port), share_group conf, share_qid conf)))
        else None)
      else None)"

text \<open>The streams of a core, by index.\<close>

definition lcore_streams :: "fwd_st \<Rightarrow> nat \<Rightarrow> nat list option" where
  "lcore_streams s lc =
     (if lc < length (fwd_lcores s)
      then (let l = fwd_lcores s ! lc in
            Some [unat (stream_idx l)..<unat (stream_idx l) + unat (stream_nb l)])
      else None)"

fun any_stream :: "u64 \<Rightarrow> fwd_st \<Rightarrow> u16 \<times> u16 \<times> u16 \<Rightarrow> nat list \<Rightarrow> bool option" where
  "any_stream share_bit s key [] = Some False"
| "any_stream share_bit s key (i # is) =
     (if i < length (fwd_streams s)
      then do {
        k \<leftarrow> shared_key share_bit s (fwd_streams s ! i);
        (if k = Some key then Some True else any_stream share_bit s key is)
      }
      else None)"

fun fwd_stream_on_other_lcores :: "u64 \<Rightarrow> fwd_st \<Rightarrow> u16 \<times> u16 \<times> u16 \<Rightarrow> nat list \<Rightarrow> bool option" where
  "fwd_stream_on_other_lcores share_bit s key [] = Some False"
| "fwd_stream_on_other_lcores share_bit s key (lc # lcs) = do {
     is \<leftarrow> lcore_streams s lc;
     hit \<leftarrow> any_stream share_bit s key is;
     (if hit then Some True else fwd_stream_on_other_lcores share_bit s key lcs)
   }"

fun check_streams :: "u64 \<Rightarrow> nat \<Rightarrow> nat list \<Rightarrow> nat list \<Rightarrow> fwd_st \<Rightarrow> (bool \<times> fwd_st) option" where
  "check_streams share_bit lc rest [] s = Some (True, s)"
| "check_streams share_bit lc rest (i # is) s = do {
     s' \<leftarrow> set_stream i (\<lambda>fs. fs\<lparr>fs_lcore := Some lc\<rparr>) s;
     k \<leftarrow> shared_key share_bit s' (fwd_streams s' ! i);
     (case k of
        None \<Rightarrow> check_streams share_bit lc rest is s'
      | Some key \<Rightarrow> do {
          hit \<leftarrow> fwd_stream_on_other_lcores share_bit s' key rest;
          (if hit then Some (False, s') else check_streams share_bit lc rest is s')
        })
   }"

fun check_lcores :: "u64 \<Rightarrow> nat list \<Rightarrow> fwd_st \<Rightarrow> (bool \<times> fwd_st) option" where
  "check_lcores share_bit [] s = Some (True, s)"
| "check_lcores share_bit (lc # lcs) s = do {
     is \<leftarrow> lcore_streams s lc;
     (ok, s') \<leftarrow> check_streams share_bit lc lcs is s;
     (if ok then check_lcores share_bit lcs s' else Some (False, s'))
   }"

definition pkt_fwd_shared_rxq_check :: "u64 \<Rightarrow> fwd_st \<Rightarrow> (bool \<times> fwd_st) option" where
  "pkt_fwd_shared_rxq_check share_bit s =
     (if rxq_share s = 0 then Some (True, s)
      else check_lcores share_bit [0..<unat (nb_fwd_lcores (cur_fwd_config s))] s)"

section \<open>Correctness\<close>

text \<open>Core \<open>lc\<close> has a stream on the shared queue \<open>key\<close>.\<close>

definition polls :: "u64 \<Rightarrow> fwd_st \<Rightarrow> u16 \<times> u16 \<times> u16 \<Rightarrow> nat \<Rightarrow> bool" where
  "polls b s key lc \<longleftrightarrow> (\<exists>is i. lcore_streams s lc = Some is \<and> i \<in> set is \<and>
     i < length (fwd_streams s) \<and> shared_key b s (fwd_streams s ! i) = Some (Some key))"

text \<open>The check writes nothing but the core of a stream, which the keys do not read.\<close>

definition same_keys :: "fwd_st \<Rightarrow> fwd_st \<Rightarrow> bool" where
  "same_keys s t \<longleftrightarrow> fwd_lcores t = fwd_lcores s \<and> fwd_ports t = fwd_ports s \<and>
     length (fwd_streams t) = length (fwd_streams s) \<and>
     (\<forall>i < length (fwd_streams s). rx_port (fwd_streams t ! i) = rx_port (fwd_streams s ! i) \<and>
        rx_queue (fwd_streams t ! i) = rx_queue (fwd_streams s ! i))"

lemma same_keys_refl: "same_keys s s"
  by (simp add: same_keys_def)

lemma same_keys_trans: "same_keys s t \<Longrightarrow> same_keys t u \<Longrightarrow> same_keys s u"
  by (simp add: same_keys_def)

lemma same_keys_key:
  "same_keys s t \<Longrightarrow> i < length (fwd_streams s) \<Longrightarrow>
    shared_key b t (fwd_streams t ! i) = shared_key b s (fwd_streams s ! i)"
  by (auto simp: same_keys_def shared_key_def Let_def)

lemma same_keys_length: "same_keys s t \<Longrightarrow> length (fwd_streams t) = length (fwd_streams s)"
  by (simp add: same_keys_def)

lemma same_keys_lcore: "same_keys s t \<Longrightarrow> lcore_streams t lc = lcore_streams s lc"
  by (simp add: same_keys_def lcore_streams_def)

lemma same_keys_set:
  "set_stream i (\<lambda>fs. fs\<lparr>fs_lcore := x\<rparr>) s = Some t \<Longrightarrow> same_keys s t \<and> i < length (fwd_streams s)"
  by (auto simp: set_stream_def same_keys_def nth_list_update split: if_splits)

lemma same_keys_any: "same_keys s t \<Longrightarrow> any_stream b t key is = any_stream b s key is"
  by (induction "is") (simp_all add: same_keys_key same_keys_length cong: if_cong)

lemma same_keys_other:
  "same_keys s t \<Longrightarrow> fwd_stream_on_other_lcores b t key lcs = fwd_stream_on_other_lcores b s key lcs"
  by (induction lcs) (simp_all add: same_keys_any same_keys_lcore cong: if_cong)

lemma same_keys_polls: "same_keys s t \<Longrightarrow> polls b t key lc = polls b s key lc"
  by (simp add: polls_def same_keys_lcore same_keys_key same_keys_length cong: conj_cong)

lemma any_stream_iff:
  "any_stream b s key is = Some r \<Longrightarrow>
    r \<longleftrightarrow> (\<exists>i \<in> set is. i < length (fwd_streams s) \<and> shared_key b s (fwd_streams s ! i) = Some (Some key))"
  by (induction "is") (auto split: if_splits bind_splits)

lemma other_lcores_iff:
  "fwd_stream_on_other_lcores b s key lcs = Some r \<Longrightarrow> r \<longleftrightarrow> (\<exists>lc \<in> set lcs. polls b s key lc)"
proof (induction lcs)
  case (Cons lc lcs)
  then obtain "is" hit where h: "lcore_streams s lc = Some is" "any_stream b s key is = Some hit"
    "(if hit then Some True else fwd_stream_on_other_lcores b s key lcs) = Some r"
    by (auto split: bind_splits)
  have "hit \<longleftrightarrow> polls b s key lc" using any_stream_iff [OF h(2)] h(1) by (auto simp: polls_def)
  with h(3) Cons.IH show ?case by (cases hit) auto
qed simp

text \<open>A stream of the list polls a shared queue that a core of \<open>rest\<close> polls too.\<close>

definition clash :: "u64 \<Rightarrow> fwd_st \<Rightarrow> nat list \<Rightarrow> nat \<Rightarrow> bool" where
  "clash b s rest i \<longleftrightarrow> i < length (fwd_streams s) \<and>
     (\<exists>key. shared_key b s (fwd_streams s ! i) = Some (Some key) \<and> (\<exists>lc' \<in> set rest. polls b s key lc'))"

lemma same_keys_clash: "same_keys s t \<Longrightarrow> clash b t rest i = clash b s rest i"
  by (simp add: clash_def same_keys_key same_keys_length same_keys_polls cong: conj_cong)

lemma check_streams_spec:
  "check_streams b lc rest is s = Some (ok, t) \<Longrightarrow>
    same_keys s t \<and> (ok \<longleftrightarrow> \<not> (\<exists>i \<in> set is. clash b s rest i))"
proof (induction "is" arbitrary: s)
  case (Cons i "is")
  from Cons.prems obtain s1 k where s1: "set_stream i (\<lambda>fs. fs\<lparr>fs_lcore := Some lc\<rparr>) s = Some s1"
    and k: "shared_key b s1 (fwd_streams s1 ! i) = Some k"
    and rest: "(case k of None \<Rightarrow> check_streams b lc rest is s1
      | Some key \<Rightarrow> Option.bind (fwd_stream_on_other_lcores b s1 key rest)
          (\<lambda>hit. if hit then Some (False, s1) else check_streams b lc rest is s1)) = Some (ok, t)"
    by (auto split: Option.bind_splits)
  have sk: "same_keys s s1" and i: "i < length (fwd_streams s)" using same_keys_set [OF s1] by simp_all
  have ks: "shared_key b s (fwd_streams s ! i) = Some k" using k same_keys_key [OF sk i] by simp
  have step: ?case if "check_streams b lc rest is s1 = Some (ok, t)" "\<not> clash b s rest i"
    using Cons.IH [OF that(1)] that(2) same_keys_trans [OF sk] by (simp add: same_keys_clash [OF sk])
  show ?case
  proof (cases k)
    case None
    with rest ks show ?thesis by (intro step) (simp_all add: clash_def)
  next
    case (Some key)
    then obtain hit where h: "fwd_stream_on_other_lcores b s key rest = Some hit"
      "(if hit then Some (False, s1) else check_streams b lc rest is s1) = Some (ok, t)"
      using rest same_keys_other [OF sk] by (auto split: Option.bind_splits)
    have hit: "hit \<longleftrightarrow> clash b s rest i"
      using other_lcores_iff [OF h(1)] ks Some i by (simp add: clash_def)
    show ?thesis
    proof (cases hit)
      case True
      with h(2) sk hit show ?thesis by auto
    next
      case False
      with h(2) hit show ?thesis by (intro step) simp_all
    qed
  qed
qed (simp add: same_keys_refl)

lemma check_lcores_spec:
  "check_lcores b lcs s = Some (ok, t) \<Longrightarrow> same_keys s t \<and>
    (ok \<longleftrightarrow> (\<forall>xs lc ys key. lcs = xs @ lc # ys \<longrightarrow> polls b s key lc \<longrightarrow> \<not> (\<exists>lc' \<in> set ys. polls b s key lc')))"
proof (induction lcs arbitrary: s)
  case (Cons lc lcs)
  from Cons.prems obtain "is" ok1 s1 where l: "lcore_streams s lc = Some is"
    and c: "check_streams b lc lcs is s = Some (ok1, s1)"
    and r: "(if ok1 then check_lcores b lcs s1 else Some (False, s1)) = Some (ok, t)"
    by (auto split: Option.bind_splits)
  from check_streams_spec [OF c] have sk: "same_keys s s1"
    and o1: "ok1 \<longleftrightarrow> \<not> (\<exists>i \<in> set is. clash b s lcs i)" by simp_all
  have o: "ok1 \<longleftrightarrow> (\<forall>key. polls b s key lc \<longrightarrow> \<not> (\<exists>lc' \<in> set lcs. polls b s key lc'))"
    using l unfolding o1 by (auto simp: polls_def [of b s _ lc] clash_def)
  have split: "(\<forall>xs lc0 ys key. lc # lcs = xs @ lc0 # ys \<longrightarrow> P key lc0 ys) \<longleftrightarrow>
      (\<forall>key. P key lc lcs) \<and> (\<forall>xs lc0 ys key. lcs = xs @ lc0 # ys \<longrightarrow> P key lc0 ys)" for P
    by (metis append_Cons append_Nil list.inject neq_Nil_conv)
  show ?case
  proof (cases ok1)
    case True
    with r Cons.IH [of s1] have "same_keys s1 t" "ok \<longleftrightarrow> (\<forall>xs lc ys key. lcs = xs @ lc # ys \<longrightarrow>
        polls b s key lc \<longrightarrow> \<not> (\<exists>lc' \<in> set ys. polls b s key lc'))"
      by (simp_all add: same_keys_polls [OF sk])
    with True o sk show ?thesis unfolding split by (blast intro: same_keys_trans)
  next
    case False
    with r have "t = s1" "\<not> ok" by simp_all
    with False o sk show ?thesis unfolding split by blast
  qed
qed (simp add: same_keys_refl)

lemma upt_split_iff:
  "(\<forall>xs i ys. [0..<n] = xs @ i # ys \<longrightarrow> P i (set ys)) \<longleftrightarrow> (\<forall>i < n. P i {i<..<n})"
proof -
  have "\<exists>xs. [0..<n] = xs @ i # [Suc i..<n]" if "i < n" for i
    using upt_add_eq_append [of 0 i "n - i"] that by (auto simp: upt_conv_Cons)
  moreover have "i < n \<and> ys = [Suc i..<n]" if "[0..<n] = xs @ i # ys" for xs i ys
  proof -
    have l: "length xs < n" using arg_cong [OF that, of length] by simp
    have "i = [0..<n] ! length xs" using that by simp
    then have i: "i = length xs" using l by simp
    have "ys = drop (Suc (length xs)) [0..<n]" using that by simp
    with i l show ?thesis by simp
  qed
  moreover have "set [Suc i..<n] = {i<..<n}" for i by auto
  ultimately show ?thesis by metis
qed

text \<open>
  C15: the check of the shared receive queues answers whether two cores poll the same shared queue:
  when it completes it returns true exactly if no switch domain, share group and queue is polled
  by streams of two different cores, and it changes nothing but the cores noted in the streams.
\<close>

theorem shared_rxq_check_exact:
  assumes "pkt_fwd_shared_rxq_check b s = Some (ok, t)" "rxq_share s \<noteq> 0"
  shows "(ok \<longleftrightarrow> (\<forall>i < unat (nb_fwd_lcores (cur_fwd_config s)). \<forall>j < unat (nb_fwd_lcores (cur_fwd_config s)).
      \<forall>key. i \<noteq> j \<longrightarrow> \<not> (polls b s key i \<and> polls b s key j))) \<and> same_keys s t"
proof -
  let ?n = "unat (nb_fwd_lcores (cur_fwd_config s))"
  have c: "check_lcores b [0..<?n] s = Some (ok, t)" using assms by (simp add: pkt_fwd_shared_rxq_check_def)
  from check_lcores_spec [OF c] have sk: "same_keys s t" by simp
  have "ok \<longleftrightarrow> (\<forall>xs i ys. [0..<?n] = xs @ i # ys \<longrightarrow>
      (\<forall>key. polls b s key i \<longrightarrow> \<not> (\<exists>lc' \<in> set ys. polls b s key lc')))"
    using check_lcores_spec [OF c] by blast
  also have "\<dots> \<longleftrightarrow> (\<forall>i < ?n. \<forall>key. polls b s key i \<longrightarrow> \<not> (\<exists>lc' \<in> {i<..<?n}. polls b s key lc'))"
    by (rule upt_split_iff)
  also have "\<dots> \<longleftrightarrow> (\<forall>i < ?n. \<forall>j < ?n. \<forall>key. i \<noteq> j \<longrightarrow> \<not> (polls b s key i \<and> polls b s key j))"
    by (auto; metis greaterThanLessThan_iff linorder_neqE_nat)
  finally show ?thesis using sk by simp
qed

end
