(* ===== verification/FwdWitnesses.thy ===== *)
theory FwdWitnesses
  imports SharedRxq FlowWitnesses
begin

text \<open>
  Concrete forwarding configurations: the properties of \<^verbatim>\<open>FwdConfig\<close> and \<^verbatim>\<open>SharedRxq\<close> applied to
  two ports with two queues and two cores.
\<close>

abbreviation sim_lcore :: fwd_lcore where
  "sim_lcore \<equiv> \<lparr>stream_idx = 0, stream_nb = 0, stopped = True\<rparr>"

definition sim_fwd :: fwd_st where
  "sim_fwd = \<lparr>cur_fwd_config = \<lparr>fwd_eng = 0, nb_fwd_streams = 0, nb_fwd_lcores = 0, nb_fwd_ports = 0\<rparr>,
     cur_fwd_eng = 1, fwd_lcores = [sim_lcore, sim_lcore], fwd_streams = [], fwd_ports_ids = [0, 1],
     g_nb_fwd_streams = 0, g_nb_fwd_lcores = 2, g_nb_fwd_ports = 2, nb_ports = 2, nb_rxq = 2, nb_txq = 2,
     topology = PORT_TOPOLOGY_PAIRED, proc_id = 0, num_procs = 1, g_retry_enabled = 0, rxq_share = 0,
     fwd_ports = [sim_port, sim_port], fwd_devs = [0, 1], numa_support = False, port_numa = [255, 255],
     socket_num = 255, socket_ids = [0], eth_dev_socket = (\<lambda>_. 0)\<rparr>"

theorem lcore_partition_witness:
  "\<exists>ls'. setup_fwd_config_of_each_lcore
      \<lparr>fwd_eng = 0, nb_fwd_streams = 5, nb_fwd_lcores = 2, nb_fwd_ports = 2\<rparr> [sim_lcore, sim_lcore] = Some ls' \<and>
    (\<exists>!k. k < 2 \<and> unat (stream_idx (ls' ! k)) \<le> 3 \<and>
       3 < unat (stream_idx (ls' ! k)) + unat (stream_nb (ls' ! k)))"
  using lcore_partition [of "\<lparr>fwd_eng = 0, nb_fwd_streams = 5, nb_fwd_lcores = 2, nb_fwd_ports = 2\<rparr>"
      "[sim_lcore, sim_lcore]"]
  by auto

theorem topology_bijection_witness:
  "fwd_topology_tx_port_get PORT_TOPOLOGY_PAIRED 4 2 = Some 3 \<and>
   fwd_topology_tx_port_get PORT_TOPOLOGY_PAIRED 4 3 = Some 2"
  using topology_bijection [of 2 4 3 PORT_TOPOLOGY_PAIRED] by (simp add: fwd_topology_tx_port_get_def)

lemma sim_fwd_ready: "fwd_ready sim_fwd"
  by (simp add: fwd_ready_def sim_fwd_def sim_port_def sim_info_def socket_of_def)


text \<open>Two cores on two ports that share their first receive queue.\<close>

definition shared_info :: rte_eth_dev_info where
  "shared_info = sim_info\<lparr>dev_capa := 4\<rparr>"

definition shared_port :: rte_port where
  "shared_port = sim_port\<lparr>dev_info := shared_info,
     rxq_conf := [\<lparr>share_group = 1, share_qid = 0, rx_offloads = 0, rx_deferred_start = False,
       rxc_pthresh = 0, rxc_hthresh = 0, rxc_wthresh = 0, rxc_free_thresh = 0, rxc_drop_en = 0\<rparr>]\<rparr>"

definition shared_fwd :: fwd_st where
  "shared_fwd = sim_fwd\<lparr>rxq_share := 1, fwd_ports := [shared_port, shared_port],
     cur_fwd_config := \<lparr>fwd_eng = 1, nb_fwd_streams = 2, nb_fwd_lcores = 2, nb_fwd_ports = 2\<rparr>,
     fwd_streams := [blank_stream, blank_stream\<lparr>rx_port := 1\<rparr>],
     fwd_lcores := [sim_lcore\<lparr>stream_nb := 1\<rparr>, sim_lcore\<lparr>stream_idx := 1, stream_nb := 1\<rparr>]\<rparr>"

lemma shared_fwd_check: "\<exists>t. pkt_fwd_shared_rxq_check 4 shared_fwd = Some (False, t)"
  by (simp add: pkt_fwd_shared_rxq_check_def shared_fwd_def sim_fwd_def lcore_streams_def set_stream_def
      shared_key_def shared_port_def shared_info_def sim_port_def sim_info_def blank_stream_def upt_rec)

theorem shared_rxq_check_witness:
  "\<exists>key i j. i \<noteq> j \<and> polls 4 shared_fwd key i \<and> polls 4 shared_fwd key j"
proof -
  obtain t where "pkt_fwd_shared_rxq_check 4 shared_fwd = Some (False, t)" using shared_fwd_check by blast
  moreover have "rxq_share shared_fwd \<noteq> 0" by (simp add: shared_fwd_def)
  ultimately show ?thesis using shared_rxq_check_exact [of 4 shared_fwd False t] by blast
qed

end
