(* ===== verification/Frames.thy ===== *)
theory Frames
  imports Testpmd
begin

text \<open>
  Frames as byte strings and what the data plane reads and writes in them: the classification of
  packets (\<^verbatim>\<open>get_packet_type\<close> of \<^verbatim>\<open>lib/unet/common/common.cpp\<close>; \<^verbatim>\<open>get_ether_type\<close>,
  \<^verbatim>\<open>get_packet_port_number\<close> and \<^verbatim>\<open>filter_packet\<close> of \<^verbatim>\<open>lib/core/core.cpp\<close>) and the ARP responder
  (\<^verbatim>\<open>arp_handler\<close>, \<^verbatim>\<open>construct_arp_response\<close>).  A read outside the bytes of the packet is the result
  \<open>None\<close>.  The machine is little endian, as the header structures with their bit fields assume.
\<close>

section \<open>Bytes and words\<close>

definition rd8 :: "u8 list \<Rightarrow> nat \<Rightarrow> u8 option" where
  "rd8 bs i = (if i < length bs then Some (bs ! i) else None)"

definition le16 :: "u8 \<Rightarrow> u8 \<Rightarrow> u16" where
  "le16 a b = or (ucast a) (push_bit 8 (ucast b))"

definition le32 :: "u8 \<Rightarrow> u8 \<Rightarrow> u8 \<Rightarrow> u8 \<Rightarrow> u32" where
  "le32 a b c d = or (or (ucast a) (push_bit 8 (ucast b))) (or (push_bit 16 (ucast c)) (push_bit 24 (ucast d)))"

definition rd16 :: "u8 list \<Rightarrow> nat \<Rightarrow> u16 option" where
  "rd16 bs i = (if i + 1 < length bs then Some (le16 (bs ! i) (bs ! (i + 1))) else None)"

definition rd32 :: "u8 list \<Rightarrow> nat \<Rightarrow> u32 option" where
  "rd32 bs i = (if i + 3 < length bs
     then Some (le32 (bs ! i) (bs ! (i + 1)) (bs ! (i + 2)) (bs ! (i + 3))) else None)"

definition put16 :: "u16 \<Rightarrow> u8 list" where
  "put16 w = [ucast w, ucast (drop_bit 8 w)]"

definition put32 :: "u32 \<Rightarrow> u8 list" where
  "put32 w = [ucast w, ucast (drop_bit 8 w), ucast (drop_bit 16 w), ucast (drop_bit 24 w)]"

text \<open>\<^verbatim>\<open>htons\<close>, \<^verbatim>\<open>ntohs\<close>, \<^verbatim>\<open>htobe16\<close>, \<^verbatim>\<open>be16toh\<close>; \<^verbatim>\<open>htonl\<close>.\<close>

definition htons :: "u16 \<Rightarrow> u16" where
  "htons w = le16 (ucast (drop_bit 8 w)) (ucast w)"

definition htonl :: "u32 \<Rightarrow> u32" where
  "htonl w = le32 (ucast (drop_bit 24 w)) (ucast (drop_bit 16 w)) (ucast (drop_bit 8 w)) (ucast w)"

text \<open>A store of some bytes at an offset, \<^verbatim>\<open>memcpy\<close> or a field assignment.\<close>

definition wr :: "nat \<Rightarrow> u8 list \<Rightarrow> u8 list \<Rightarrow> u8 list option" where
  "wr i ws bs =
     (if i + length ws \<le> length bs then Some (take i bs @ ws @ drop (i + length ws) bs) else None)"

definition rdn :: "u8 list \<Rightarrow> nat \<Rightarrow> nat \<Rightarrow> u8 list option" where
  "rdn bs i n = (if i + n \<le> length bs then Some (take n (drop i bs)) else None)"

section \<open>Classification\<close>

abbreviation PTYPE_L2_ETHER :: u32 where "PTYPE_L2_ETHER \<equiv> 0x01"
abbreviation PTYPE_L2_ETHER_ARP :: u32 where "PTYPE_L2_ETHER_ARP \<equiv> 0x02"
abbreviation PTYPE_L3_IPV4 :: u32 where "PTYPE_L3_IPV4 \<equiv> 0x05"
abbreviation PTYPE_L3_IPV4_EXT :: u32 where "PTYPE_L3_IPV4_EXT \<equiv> 0x06"
abbreviation PTYPE_L4_UDP :: u32 where "PTYPE_L4_UDP \<equiv> 0x08"
abbreviation PTYPE_L4_TCP :: u32 where "PTYPE_L4_TCP \<equiv> 0x09"
abbreviation PTYPE_5G_GTP :: u32 where "PTYPE_5G_GTP \<equiv> 0x10"
abbreviation PTYPE_5G_PFCP :: u32 where "PTYPE_5G_PFCP \<equiv> 0x11"
abbreviation GTP_PORT :: u16 where "GTP_PORT \<equiv> 2152"
abbreviation PFCP_PORT :: u16 where "PFCP_PORT \<equiv> 8805"
abbreviation ETH_P_IP :: u16 where "ETH_P_IP \<equiv> 0x0800"
abbreviation ETH_P_ARP :: u16 where "ETH_P_ARP \<equiv> 0x0806"
abbreviation IPPROTO_TCP :: u8 where "IPPROTO_TCP \<equiv> 6"
abbreviation IPPROTO_UDP :: u8 where "IPPROTO_UDP \<equiv> 17"

definition ptype_l3_ip :: "u8 \<Rightarrow> u32" where
  "ptype_l3_ip ipv_ihl =
     (if ipv_ihl = 0x45 then PTYPE_L3_IPV4
      else if 0x46 \<le> ipv_ihl \<and> ipv_ihl \<le> 0x4F then PTYPE_L3_IPV4_EXT else 0)"

definition ptype_l4 :: "u8 \<Rightarrow> u32" where
  "ptype_l4 proto =
     (if proto = IPPROTO_UDP then PTYPE_L4_UDP else if proto = IPPROTO_TCP then PTYPE_L4_TCP else 0)"

text \<open>The header length field is the low half of the first byte of the header.\<close>

definition ip_ihl :: "u8 \<Rightarrow> u8" where
  "ip_ihl b = and b 0x0F"

definition ipv4_hdr_len :: "u8 \<Rightarrow> u8" where
  "ipv4_hdr_len b = and (ip_ihl b) 0x0F * 4"

text \<open>The lengths a caller gets; a field the function does not write is \<open>None\<close>.\<close>

record hdr_lens =
  l2_len :: "nat option"
  l3_len :: "nat option"
  l4_len :: "nat option"

text \<open>
  The transport part of the classification, at the offset behind the network header.  The data
  offset of a TCP header is a field of four bits, so that \<^verbatim>\<open>(doff & 0xf0) >> 2\<close> is zero.
\<close>

definition l4_type :: "u8 list \<Rightarrow> u32 \<Rightarrow> nat \<Rightarrow> hdr_lens \<Rightarrow> (u32 \<times> hdr_lens) option" where
  "l4_type data packet_type off h =
     (if packet_type = PTYPE_L4_UDP then do {
        dest \<leftarrow> rd16 data (off + 2);
        Some (if dest = htons GTP_PORT then PTYPE_5G_GTP
              else if dest = htons PFCP_PORT then PTYPE_5G_PFCP else PTYPE_L4_UDP, h\<lparr>l4_len := Some 8\<rparr>)
      }
      else if packet_type = PTYPE_L4_TCP then do {
        b \<leftarrow> rd8 data (off + 12);
        Some (PTYPE_L4_TCP, h\<lparr>l4_len := Some (unat (drop_bit 2 (and (drop_bit 4 b) 0xF0)))\<rparr>)
      }
      else Some (packet_type, h))"

text \<open>The type of the network header is computed and overwritten by the one of the transport.\<close>

definition get_packet_type :: "u8 list \<Rightarrow> hdr_lens \<Rightarrow> (u32 \<times> hdr_lens) option" where
  "get_packet_type data h = do {
     protocol \<leftarrow> rd16 data 12;
     (let h1 = h\<lparr>l2_len := Some 14\<rparr> in
      if protocol = htons ETH_P_ARP then Some (PTYPE_L2_ETHER_ARP, h1)
      else if protocol = htons ETH_P_IP then do {
        b \<leftarrow> rd8 data 14;
        proto \<leftarrow> rd8 data 23;
        (let l3 = unat (ipv4_hdr_len b) in
         l4_type data (ptype_l4 proto) (14 + l3) (h1\<lparr>l3_len := Some l3\<rparr>))
      }
      else l4_type data PTYPE_L2_ETHER 14 h1)
   }"

definition get_ether_type :: "u8 list \<Rightarrow> u32 option" where
  "get_ether_type data = do {
     protocol \<leftarrow> rd16 data 12;
     (if protocol = htons ETH_P_ARP then Some PTYPE_L2_ETHER_ARP
      else do {
        (packet_type, off) \<leftarrow>
          (if protocol = htons ETH_P_IP then do {
             b \<leftarrow> rd8 data 14;
             proto \<leftarrow> rd8 data 23;
             Some (ptype_l4 proto, 14 + unat (ipv4_hdr_len b))
           }
           else Some (PTYPE_L2_ETHER, 14));
        (if packet_type = PTYPE_L4_UDP then do {
           dest \<leftarrow> rd16 data (off + 2);
           Some (if dest = htons GTP_PORT then PTYPE_5G_GTP
                 else if dest = htons PFCP_PORT then PTYPE_5G_PFCP else PTYPE_L4_UDP)
         }
         else if packet_type = PTYPE_L4_TCP then do { _ \<leftarrow> rd8 data (off + 12); Some PTYPE_L4_TCP }
         else Some packet_type)
      })
   }"

text \<open>The destination port, read behind a network header of 20 bytes whatever its length field says.\<close>

definition get_packet_port_number :: "u8 list \<Rightarrow> int option" where
  "get_packet_port_number data = do {
     ty \<leftarrow> rd16 data 12;
     (if ty \<noteq> htons ETH_P_IP then Some 0
      else do {
        proto \<leftarrow> rd8 data 23;
        (if proto \<noteq> IPPROTO_UDP then Some 0 else map_option (\<lambda>w. uint (htons w)) (rd16 data (14 + 20 + 2)))
      })
   }"

definition filter_packet :: "int list \<Rightarrow> int \<Rightarrow> bool" where
  "filter_packet fastpath_ports port_number \<longleftrightarrow> port_number \<notin> set fastpath_ports"

definition swap_mac_addresses :: "u8 list \<Rightarrow> u8 list option" where
  "swap_mac_addresses data = do {
     src \<leftarrow> rdn data 6 6;
     dst \<leftarrow> rdn data 0 6;
     d1 \<leftarrow> wr 6 dst data;
     wr 0 src d1
   }"

section \<open>The ARP responder\<close>

abbreviation KERNEL :: int where "KERNEL \<equiv> 1000"
abbreviation DROP :: int where "DROP \<equiv> 3000"

text \<open>
  The state of the manager the responder reads.  In the frame the ARP message starts at byte 14:
  hardware and protocol type, the two lengths, the operation, then sender and target.
\<close>

record dpm =
  tap_ip_addr :: u32
  tap_mac_addr :: ether_addr
  lport_mac :: "ether_addr list"
  fast_path_filtering :: bool
  fastpath_ports :: "int list"

definition construct_arp_response ::
  "nat \<Rightarrow> ether_addr \<Rightarrow> u32 \<Rightarrow> ether_addr \<Rightarrow> u32 \<Rightarrow> u8 list \<Rightarrow> u8 list option" where
  "construct_arp_response arp src_mac src_ip dst_mac dst_ip data =
     wr arp (put16 (htons 1) @ put16 (htons ETH_P_IP) @ [6, 4] @ put16 (htons 2) @
             src_mac @ put32 src_ip @ dst_mac @ put32 dst_ip) data"

definition arp_handler :: "dpm \<Rightarrow> u8 list \<Rightarrow> int \<Rightarrow> (int \<times> u8 list) option" where
  "arp_handler m buff recv_port = do {
     op \<leftarrow> rd16 buff 20;
     (if htons op = 1 then do {
        dest_ip \<leftarrow> rd32 buff 28;
        src_mac \<leftarrow> (if 0 \<le> recv_port \<and> nat recv_port < length (lport_mac m)
                    then Some (lport_mac m ! nat recv_port) else None);
        dest_mac \<leftarrow> rdn buff 22 6;
        tip \<leftarrow> rd32 buff 38;
        (if tip = tap_ip_addr m then do {
           b1 \<leftarrow> construct_arp_response 14 src_mac (tap_ip_addr m) dest_mac dest_ip buff;
           src \<leftarrow> rdn b1 6 6;
           b2 \<leftarrow> wr 0 src b1;
           b3 \<leftarrow> wr 6 src_mac b2;
           Some (recv_port, b3)
         }
         else Some (DROP, buff))
      }
      else if htons op = 2 then do {
        b1 \<leftarrow> wr 0 (tap_mac_addr m) buff;
        b2 \<leftarrow> wr 32 (tap_mac_addr m) b1;
        Some (KERNEL, b2)
      }
      else Some (DROP, buff))
   }"

section \<open>Laws of bytes and words\<close>

lemma bit_le16: "bit (le16 a b) n \<longleftrightarrow> (if n < 8 then bit a n else n < 16 \<and> bit b (n - 8))"
  by (auto simp: le16_def bit_simps dest: bit_imp_le_length)

lemma bit_le32: "bit (le32 a b c d) n \<longleftrightarrow>
    (if n < 8 then bit a n else if n < 16 then bit b (n - 8) else if n < 24 then bit c (n - 16)
     else n < 32 \<and> bit d (n - 24))"
  by (auto simp: le32_def bit_simps dest: bit_imp_le_length)

lemma le16_put16: "le16 (ucast w) (ucast (drop_bit 8 w)) = w"
  by (rule bit_word_eqI) (auto simp: bit_le16 bit_simps)

lemma le32_put32: "le32 (ucast w) (ucast (drop_bit 8 w)) (ucast (drop_bit 16 w)) (ucast (drop_bit 24 w)) = w"
  by (rule bit_word_eqI) (auto simp: bit_le32 bit_simps)

lemma le16_bytes: "ucast (le16 a b) = a" "ucast (drop_bit 8 (le16 a b)) = b"
  by (rule bit_word_eqI, simp add: bit_le16 bit_simps)+

lemma le32_bytes:
  "ucast (le32 a b c d) = a" "ucast (drop_bit 8 (le32 a b c d)) = b"
  "ucast (drop_bit 16 (le32 a b c d)) = c" "ucast (drop_bit 24 (le32 a b c d)) = d"
  by (rule bit_word_eqI, simp add: bit_le32 bit_simps)+

lemma htons_le16: "htons (le16 a b) = le16 b a"
  by (simp add: htons_def le16_bytes)

lemma htonl_le32: "htonl (le32 a b c d) = le32 d c b a"
  by (simp add: htonl_def le32_bytes)

lemma htons_htons [simp]: "htons (htons w) = w"
  by (subst (2) htons_def) (simp add: htons_le16 le16_put16)

lemma htonl_htonl [simp]: "htonl (htonl w) = w"
  by (subst (2) htonl_def) (simp add: htonl_le32 le32_put32)

lemma htons_inject: "htons v = htons w \<longleftrightarrow> v = w"
  by (metis htons_htons)

lemma put16_le16: "put16 (le16 a b) = [a, b]"
  by (simp add: put16_def le16_bytes)

lemma put32_le32: "put32 (le32 a b c d) = [a, b, c, d]"
  by (simp add: put32_def le32_bytes)

lemma rd16_wr: "wr i (put16 w) bs = Some bs' \<Longrightarrow> rd16 bs' i = Some w"
  by (auto simp: wr_def put16_def rd16_def nth_append le16_put16 split: if_splits)

lemma wr_length: "wr i ws bs = Some bs' \<Longrightarrow> length bs' = length bs"
  by (auto simp: wr_def split: if_splits)

lemma wr_Some: "i + length ws \<le> length bs \<Longrightarrow> \<exists>bs'. wr i ws bs = Some bs'"
  by (simp add: wr_def)

lemma wr_nth:
  "wr i ws bs = Some bs' \<Longrightarrow> k < length bs \<Longrightarrow>
     bs' ! k = (if i \<le> k \<and> k < i + length ws then ws ! (k - i) else bs ! k)"
  by (auto simp: wr_def nth_append split: if_splits)

lemma put_lengths [simp]: "length (put16 w) = 2" "length (put32 x) = 4"
  by (simp_all add: put16_def put32_def)

lemma rd_append:
  "length xs \<le> i \<Longrightarrow> rd8 (xs @ ys) i = rd8 ys (i - length xs)"
  "length xs \<le> i \<Longrightarrow> rd16 (xs @ ys) i = rd16 ys (i - length xs)"
  "length xs \<le> i \<Longrightarrow> rd32 (xs @ ys) i = rd32 ys (i - length xs)"
  "length xs \<le> i \<Longrightarrow> rdn (xs @ ys) i n = rdn ys (i - length xs) n"
  by (auto simp: rd8_def rd16_def rd32_def rdn_def nth_append Suc_diff_le)

lemma rd_here:
  "rd8 (a # ys) 0 = Some a" "rd16 (a # b # ys) 0 = Some (le16 a b)"
  "rd32 (a # b # c # d # ys) 0 = Some (le32 a b c d)" "rdn (ws @ ys) 0 (length ws) = Some ws"
  by (simp_all add: rd8_def rd16_def rd32_def rdn_def numeral_3_eq_3)

lemma wr_append: "length xs \<le> i \<Longrightarrow> wr i ws (xs @ ys) = map_option ((@) xs) (wr (i - length xs) ws ys)"
  by (auto simp: wr_def)

lemma wr_here: "length ws = length zs \<Longrightarrow> wr 0 ws (zs @ ys) = Some (ws @ ys)"
  by (simp add: wr_def)

lemmas frame_simps = rd_append rd_here wr_append wr_here

section \<open>Correctness of the classification\<close>

lemma l4_type_fst: "map_option fst (l4_type data ty off h) =
    (if ty = PTYPE_L4_UDP then map_option (\<lambda>dest. if dest = htons GTP_PORT then PTYPE_5G_GTP
        else if dest = htons PFCP_PORT then PTYPE_5G_PFCP else PTYPE_L4_UDP) (rd16 data (off + 2))
     else if ty = PTYPE_L4_TCP then map_option (\<lambda>_. PTYPE_L4_TCP) (rd8 data (off + 12)) else Some ty)"
  by (cases "rd16 data (off + 2)"; cases "rd8 data (off + 12)") (simp_all add: l4_type_def)

lemma ptype_l4_cases: "ptype_l4 p \<in> {0, PTYPE_L4_UDP, PTYPE_L4_TCP}"
  by (simp add: ptype_l4_def)

lemma ptype_l4_udp: "ptype_l4 p = PTYPE_L4_UDP \<longleftrightarrow> p = IPPROTO_UDP"
  by (simp add: ptype_l4_def)


section \<open>Correctness of the ARP responder\<close>

lemma rdn_here: "n = length ws \<Longrightarrow> rdn (ws @ ys) 0 n = Some ws"
  by (simp add: rd_here)

lemma construct_arp_at:
  assumes "length smac = 6" "length dmac = 6" "length old = 28" "length eth = 14"
  shows "construct_arp_response 14 smac sip dmac dip (eth @ old @ pad) =
    Some (eth @ [0, 1, 8, 0, 6, 4, 0, 2] @ smac @ put32 sip @ dmac @ put32 dip @ pad)"
proof -
  have c: "put16 (htons 1) = [0, 1]" "put16 (htons ETH_P_IP) = [8, 0]" "put16 (htons 2) = [0, 2]"
    by (simp_all add: put16_def htons_def le16_def)
  show ?thesis
    unfolding construct_arp_response_def c using assms by (simp add: wr_append wr_def)
qed

text \<open>
  an ARP request for the address of the tap device is answered on the port it came from: the
  frame that goes out is addressed to the sender of the request, carries the hardware address of
  the receiving port as its source, and its message is a reply from the tap address and that
  hardware address to the sender of the request; bytes behind the message stay as they are.
\<close>

theorem arp_request_answered:
  assumes "length dst = 6" "length src = 6" "length sha = 6" "length tha = 6" "length mac = 6"
    "sip = [i0, i1, i2, i3]" "tip = [t0, t1, t2, t3]"
    "tap_ip_addr m = le32 t0 t1 t2 t3" "recv < length (lport_mac m)" "lport_mac m ! recv = mac"
  shows "arp_handler m (dst @ src @ [8, 6] @ [0, 1, 8, 0, 6, 4, 0, 1] @ sha @ sip @ tha @ tip @ pad) (int recv) =
    Some (int recv, src @ mac @ [8, 6] @ [0, 1, 8, 0, 6, 4, 0, 2] @ mac @ tip @ sha @ sip @ pad)"
proof -
  let ?eth = "dst @ src @ [8, 6]" and ?old = "[0, 1, 8, 0, 6, 4, 0, 1] @ sha @ sip @ tha @ tip"
  let ?fr = "?eth @ ?old @ pad"
  have op: "rd16 ?fr 20 = Some (le16 0 1)" and s: "rd32 ?fr 28 = Some (le32 i0 i1 i2 i3)"
    and t: "rd32 ?fr 38 = Some (le32 t0 t1 t2 t3)" and sh: "rdn ?fr 22 6 = Some sha"
    using assms(1-7) by (simp_all add: rd16_def rd32_def rdn_def nth_append)
  have one: "htons (le16 0 1) = 1" by (simp add: htons_le16) (simp add: le16_def)
  have c: "construct_arp_response 14 mac (le32 t0 t1 t2 t3) sha (le32 i0 i1 i2 i3) ?fr =
      Some (?eth @ [0, 1, 8, 0, 6, 4, 0, 2] @ mac @ tip @ sha @ sip @ pad)"
    using construct_arp_at [of mac sha ?old ?eth] assms(1-7) by (simp add: put32_le32)
  have e: "rdn (?eth @ rest) 6 6 = Some src" "wr 0 src (?eth @ rest) = Some (src @ src @ [8, 6] @ rest)"
    "wr 6 mac (src @ src @ [8, 6] @ rest) = Some (src @ mac @ [8, 6] @ rest)" for rest
    using assms(1,2,5) by (simp_all add: rdn_def wr_def)
  have "arp_handler m ?fr (int recv) = Some (int recv, src @ mac @ [8, 6] @ [0, 1, 8, 0, 6, 4, 0, 2] @ mac @ tip @ sha @ sip @ pad)"
    unfolding arp_handler_def op s t sh using one assms(8-10) c e by simp
  then show ?thesis by simp
qed

end
