(* ===== verification/UpfGtp.thy ===== *)
theory UpfGtp
  imports Frames
begin

text \<open>
  The user plane application (\<^verbatim>\<open>app/upf_gtp.cpp\<close>): packets from the data network are looked up by
  destination address and wrapped in GTP-U, packets from the radio network are unwrapped and looked
  up by tunnel and user address.  The packet is reached through the callbacks of \<^verbatim>\<open>core.h\<close> only;
  they are a parameter, with the behaviour that the packet libraries document as the predicate
  \<open>packet_laws\<close>.  The result \<open>None\<close> is a read or write outside the packet or through a null pointer.
\<close>

section \<open>Data\<close>

record app_info =
  ran_ip :: u32
  dnn_ip :: u32
  ran_mac :: ether_addr
  dnn_mac :: ether_addr
  upf_ran_mac :: ether_addr
  upf_dnn_mac :: ether_addr

record pdi_info_uplink =
  ul_srcIface :: u8
  ul_ueIpAddr :: u32
  ul_teid :: u32
  ul_qfi :: u8

record pdi_info_downlink =
  dl_srcIface :: u8
  dl_ueDestIpAddr :: u32

record pdr_value =
  SEID :: u32
  pdrMask :: u32
  farMask :: u32
  ohc_teid :: u32
  applyAction :: u8
  destIface :: u8

definition uplink_less :: "pdi_info_uplink \<Rightarrow> pdi_info_uplink \<Rightarrow> bool" where
  "uplink_less l r =
     (if ul_srcIface l \<noteq> ul_srcIface r then ul_srcIface l < ul_srcIface r
      else if ul_ueIpAddr l \<noteq> ul_ueIpAddr r then ul_ueIpAddr l < ul_ueIpAddr r
      else if ul_teid l \<noteq> ul_teid r then ul_teid l < ul_teid r
      else ul_qfi l < ul_qfi r)"

definition downlink_less :: "pdi_info_downlink \<Rightarrow> pdi_info_downlink \<Rightarrow> bool" where
  "downlink_less l r =
     (if dl_srcIface l \<noteq> dl_srcIface r then dl_srcIface l < dl_srcIface r
      else dl_ueDestIpAddr l < dl_ueDestIpAddr r)"

text \<open>The lookup of an ordered map: keys neither of which is less than the other are the same.\<close>

fun map_find :: "('k \<Rightarrow> 'k \<Rightarrow> bool) \<Rightarrow> ('k \<times> 'v) list \<Rightarrow> 'k \<Rightarrow> 'v option" where
  "map_find lt [] k = None"
| "map_find lt ((k', v) # m) k = (if \<not> lt k k' \<and> \<not> lt k' k then Some v else map_find lt m k)"

record 'p callbacks =
  GetData :: "'p \<Rightarrow> u8 list"
  SetData :: "u8 list \<Rightarrow> 'p \<Rightarrow> 'p"
  GetHeadRoom :: "'p \<Rightarrow> u16"
  GetDataLength :: "'p \<Rightarrow> u16"
  PrependData :: "'p \<Rightarrow> u16 \<Rightarrow> 'p option"
  AdjustOffset :: "'p \<Rightarrow> u16 \<Rightarrow> 'p option"

text \<open>
  What the callbacks are documented to do: the data is as long as its length, stores through the
  data pointer change bytes in place, prepending takes bytes of unknown content from the head room
  and fails when there are too few, and adjusting removes bytes from the front of the data and
  fails when there are too few.
\<close>

definition packet_laws :: "'p callbacks \<Rightarrow> bool" where
  "packet_laws cb \<longleftrightarrow>
     (\<forall>p. length (GetData cb p) = unat (GetDataLength cb p)) \<and>
     (\<forall>p bs. length bs = length (GetData cb p) \<longrightarrow>
        GetData cb (SetData cb bs p) = bs \<and> GetHeadRoom cb (SetData cb bs p) = GetHeadRoom cb p) \<and>
     (\<forall>p n. n \<le> GetHeadRoom cb p \<longrightarrow>
        (\<exists>q room. PrependData cb p n = Some q \<and> length room = unat n \<and> GetData cb q = room @ GetData cb p \<and>
           GetHeadRoom cb q = GetHeadRoom cb p - n)) \<and>
     (\<forall>p n. GetHeadRoom cb p < n \<longrightarrow> PrependData cb p n = None) \<and>
     (\<forall>p n. unat n \<le> length (GetData cb p) \<longrightarrow>
        (\<exists>q. AdjustOffset cb p n = Some q \<and> GetData cb q = drop (unat n) (GetData cb p))) \<and>
     (\<forall>p n. length (GetData cb p) < unat n \<longrightarrow> AdjustOffset cb p n = None)"

definition store :: "'p callbacks \<Rightarrow> nat \<Rightarrow> u8 list \<Rightarrow> 'p \<Rightarrow> 'p option" where
  "store cb i ws p = map_option (\<lambda>bs. SetData cb bs p) (wr i ws (GetData cb p))"

section \<open>GTP headers\<close>

abbreviation PFCP_FORW :: u8 where "PFCP_FORW \<equiv> 0x02"
abbreviation PFCP_DROP :: u8 where "PFCP_DROP \<equiv> 0x01"
abbreviation PFCP_BUFF :: u8 where "PFCP_BUFF \<equiv> 0x04"

text \<open>
  The parser is at the byte \<open>off\<close> of the packet.  It returns the length of the headers, whether it
  stored the header pointer, and where it found a session container; the two pointers to a
  container share their storage.  At most one extension header is followed.
\<close>

definition parse_gtphdr :: "u8 list \<Rightarrow> nat \<Rightarrow> (int \<times> bool \<times> nat option) option" where
  "parse_gtphdr data off = do {
     ty \<leftarrow> rd8 data (off + 11);
     (if ty = 0 then Some (12, True, None)
      else if ty = 0x85 then do {
        b \<leftarrow> rd8 data (off + 12 + 1);
        (if drop_bit 4 b = 0 then do { _ \<leftarrow> rd8 data (off + 12 + 3); Some (12 + 8, True, Some (off + 12)) }
         else if drop_bit 4 b = 1 then do { _ \<leftarrow> rd8 data (off + 12 + 3); Some (12 + 4, True, Some (off + 12)) }
         else Some (-1, False, None))
      }
      else Some (-1, False, None))
   }"

text \<open>Prepend some bytes and store fields into them; a null pointer is written through.\<close>

definition prepend_with :: "'p callbacks \<Rightarrow> u16 \<Rightarrow> ('p \<Rightarrow> u8 list \<Rightarrow> u8 list) \<Rightarrow> 'p \<Rightarrow> 'p option" where
  "prepend_with cb n hdr p = do {
     q \<leftarrow> PrependData cb p n;
     room \<leftarrow> rdn (GetData cb q) 0 (unat n);
     store cb 0 (hdr q room) q
   }"

text \<open>The headers as functions of the length of the packet they are in front of and of what was in
  their place: fields and bits that are not assigned keep their content.\<close>

definition pdu_dl_hdr :: "u8 list \<Rightarrow> u8 list" where
  "pdu_dl_hdr room = [1, and (room ! 1) 0x0F, or (and (room ! 2) 0x80) 1, 0]"

definition gtp_hdr :: "u16 \<Rightarrow> u32 \<Rightarrow> u8 list \<Rightarrow> u8 list" where
  "gtp_hdr len teid room = [0x34, 255] @ put16 len @ put32 teid @ [room ! 8, room ! 9, room ! 10, 0x85]"

definition udp_hdr :: "u16 \<Rightarrow> u8 list" where
  "udp_hdr len = put16 2152 @ put16 2152 @ put16 len @ put16 0"

definition ip_hdr :: "u16 \<Rightarrow> u8 list \<Rightarrow> u8 list" where
  "ip_hdr len room = [0x45, 0] @ put16 (htons len) @ [room ! 4, room ! 5, room ! 6, room ! 7] @
     [64, IPPROTO_UDP] @ put16 0 @ put32 (htonl 0xc0a80202) @ put32 (htonl 0xc0a80201)"

definition eth_hdr :: "ether_addr \<Rightarrow> ether_addr \<Rightarrow> u8 list" where
  "eth_hdr dst src = dst @ src @ put16 (htons ETH_P_IP)"

definition downlink_encap :: "'p callbacks \<Rightarrow> app_info \<Rightarrow> pdr_value \<Rightarrow> 'p \<Rightarrow> 'p option" where
  "downlink_encap cb app v p = do {
     p1 \<leftarrow> prepend_with cb 4 (\<lambda>_ room. pdu_dl_hdr room) p;
     p2 \<leftarrow> prepend_with cb 12 (\<lambda>q room. gtp_hdr (GetDataLength cb q) (ohc_teid v) room) p1;
     p3 \<leftarrow> prepend_with cb 8 (\<lambda>q room. udp_hdr (GetDataLength cb q)) p2;
     p4 \<leftarrow> prepend_with cb 20 (\<lambda>q room. ip_hdr (GetDataLength cb q) room) p3;
     prepend_with cb 14 (\<lambda>_ _. eth_hdr (ran_mac app) (upf_ran_mac app)) p4
   }"

section \<open>The packet processor\<close>

definition apply_action :: "pdr_value \<Rightarrow> u8" where
  "apply_action v = and (applyAction v) (or (or PFCP_FORW PFCP_BUFF) PFCP_DROP)"

definition downlink_packet ::
  "'p callbacks \<Rightarrow> app_info \<Rightarrow> (pdi_info_downlink \<times> pdr_value) list \<Rightarrow> int \<Rightarrow> hdr_lens \<Rightarrow> 'p \<Rightarrow> (int \<times> 'p) option" where
  "downlink_packet cb app dl recv_lport h p = do {
     l2 \<leftarrow> l2_len h;
     daddr \<leftarrow> rd32 (GetData cb p) (l2 + 16);
     (case map_find downlink_less dl \<lparr>dl_srcIface = 1, dl_ueDestIpAddr = htonl daddr\<rparr> of
        None \<Rightarrow> Some (DROP, p)
      | Some v \<Rightarrow>
          if apply_action v = PFCP_FORW \<and> and (farMask v) 1 \<noteq> 0
          then map_option (\<lambda>q. (xor recv_lport 1, q)) (downlink_encap cb app v p)
          else Some (xor recv_lport 1, p))
   }"

definition uplink_packet ::
  "'p callbacks \<Rightarrow> app_info \<Rightarrow> (pdi_info_uplink \<times> pdr_value) list \<Rightarrow> int \<Rightarrow> hdr_lens \<Rightarrow> 'p \<Rightarrow> (int \<times> 'p) option" where
  "uplink_packet cb app ul recv_lport h p = do {
     l2 \<leftarrow> l2_len h;
     l3 \<leftarrow> l3_len h;
     l4 \<leftarrow> l4_len h;
     (let data = GetData cb p; gtp = l2 + l3 + l4 in do {
        (gtp_header_len, found, ext) \<leftarrow> parse_gtphdr data gtp;
        (if \<not> found then do { _ \<leftarrow> rd32 data (l2 + 16); Some (DROP, p) }
         else do {
           saddr \<leftarrow> rd32 data (gtp + nat gtp_header_len + 12);
           teid \<leftarrow> rd32 data (gtp + 4);
           qfi \<leftarrow> (case ext of None \<Rightarrow> Some 0 | Some e \<Rightarrow> map_option (\<lambda>b. and b 0x3F) (rd8 data (e + 2)));
           (case map_find uplink_less ul
                  \<lparr>ul_srcIface = 0, ul_ueIpAddr = htonl saddr, ul_teid = htonl teid, ul_qfi = qfi\<rparr> of
              None \<Rightarrow> Some (DROP, p)
            | Some v \<Rightarrow>
                if apply_action v = PFCP_FORW \<and> and (pdrMask v) 1 \<noteq> 0
                then (case AdjustOffset cb p (of_nat (l3 + l4 + nat gtp_header_len)) of
                        None \<Rightarrow> Some (DROP, p)
                      | Some q \<Rightarrow>
                          map_option (\<lambda>q'. (xor recv_lport 1, q'))
                            (store cb 0 (eth_hdr (dnn_mac app) (upf_dnn_mac app)) q))
                else Some (xor recv_lport 1, p))
         })
      })
   }"

text \<open>The case for PFCP packets falls through to the default, which overwrites its verdict.\<close>

definition packet_processor ::
  "'p callbacks \<Rightarrow> (pdi_info_downlink \<times> pdr_value) list \<Rightarrow> (pdi_info_uplink \<times> pdr_value) list
    \<Rightarrow> 'p \<Rightarrow> int \<Rightarrow> app_info option \<Rightarrow> (int \<times> 'p) option" where
  "packet_processor cb dl ul p recv_lport app_data =
     (case app_data of
        None \<Rightarrow> Some (DROP, p)
      | Some app \<Rightarrow> do {
          (packet_type, h) \<leftarrow> get_packet_type (GetData cb p) \<lparr>l2_len = None, l3_len = None, l4_len = None\<rparr>;
          (if packet_type = PTYPE_L4_UDP then downlink_packet cb app dl recv_lport h p
           else if packet_type = PTYPE_5G_GTP then uplink_packet cb app ul recv_lport h p
           else Some (DROP, p))
        })"

section \<open>The rule maps\<close>

lemma uplink_less_iff: "\<not> uplink_less a b \<and> \<not> uplink_less b a \<longleftrightarrow> a = (b :: pdi_info_uplink)"
  by (cases a; cases b) (auto simp: uplink_less_def split: if_splits)

lemma downlink_less_iff: "\<not> downlink_less a b \<and> \<not> downlink_less b a \<longleftrightarrow> a = (b :: pdi_info_downlink)"
  by (cases a; cases b) (auto simp: downlink_less_def split: if_splits)

lemma map_find_map_of:
  assumes "\<And>a b. \<not> lt a b \<and> \<not> lt b a \<longleftrightarrow> a = b"
  shows "map_find lt m k = map_of m k"
proof (induction m)
  case (Cons kv m)
  obtain k' v where kv: "kv = (k', v)" by (cases kv)
  have "(\<not> lt k k' \<and> \<not> lt k' k) = (k = k')" by (rule assms)
  with Cons kv show ?case by simp
qed simp

lemmas rule_find = map_find_map_of [of uplink_less, OF uplink_less_iff]
  map_find_map_of [of downlink_less, OF downlink_less_iff]

section \<open>Header bytes\<close>

lemma put16_htons: "put16 (htons (le16 a b)) = [b, a]"
  by (simp add: htons_le16 put16_le16)

lemma eth_hdr_bytes: "eth_hdr dst src = dst @ src @ [8, 0]"
  by (simp add: eth_hdr_def put16_def htons_def le16_def)

lemma hdr_lengths [simp]:
  "length (pdu_dl_hdr r) = 4" "length (gtp_hdr l t r) = 12" "length (udp_hdr l) = 8" "length (ip_hdr l r) = 20"
  by (simp_all add: pdu_dl_hdr_def gtp_hdr_def udp_hdr_def ip_hdr_def put16_def put32_def)

lemma packet_len: "packet_laws cb \<Longrightarrow> unat (GetDataLength cb p) = length (GetData cb p)"
  by (simp add: packet_laws_def)

lemma packet_set:
  "packet_laws cb \<Longrightarrow> length bs = length (GetData cb p) \<Longrightarrow>
     GetData cb (SetData cb bs p) = bs \<and> GetHeadRoom cb (SetData cb bs p) = GetHeadRoom cb p"
  unfolding packet_laws_def by blast

lemma packet_prepend:
  "packet_laws cb \<Longrightarrow> n \<le> GetHeadRoom cb p \<Longrightarrow>
     \<exists>q room. PrependData cb p n = Some q \<and> length room = unat n \<and> GetData cb q = room @ GetData cb p \<and>
       GetHeadRoom cb q = GetHeadRoom cb p - n"
  unfolding packet_laws_def by blast

lemma packet_prepend_None: "packet_laws cb \<Longrightarrow> GetHeadRoom cb p < n \<Longrightarrow> PrependData cb p n = None"
  unfolding packet_laws_def by blast

lemma packet_adjust:
  "packet_laws cb \<Longrightarrow> unat n \<le> length (GetData cb p) \<Longrightarrow>
     \<exists>q. AdjustOffset cb p n = Some q \<and> GetData cb q = drop (unat n) (GetData cb p)"
  unfolding packet_laws_def by blast

lemma packet_len_of: "packet_laws cb \<Longrightarrow> GetDataLength cb p = of_nat (length (GetData cb p))"
  by (simp add: packet_len [symmetric])

lemma packet_store:
  assumes "packet_laws cb" "i + length ws \<le> length (GetData cb p)"
  shows "\<exists>q. store cb i ws p = Some q \<and> GetData cb q = take i (GetData cb p) @ ws @ drop (i + length ws) (GetData cb p)"
  using packet_set [OF assms(1), of "take i (GetData cb p) @ ws @ drop (i + length ws) (GetData cb p)" p] assms(2)
  by (simp add: store_def wr_def)

lemma prepend_with_bytes:
  assumes "packet_laws cb" "n \<le> GetHeadRoom cb p"
    and hdr: "\<And>r room. length room = unat n \<Longrightarrow> length (hdr r room) = unat n"
  shows "\<exists>q r room. prepend_with cb n hdr p = Some q \<and> length room = unat n \<and> GetData cb r = room @ GetData cb p \<and>
     GetData cb q = hdr r room @ GetData cb p \<and> unat (GetHeadRoom cb q) = unat (GetHeadRoom cb p) - unat n"
proof -
  obtain r room where r: "PrependData cb p n = Some r" "length room = unat n" "GetData cb r = room @ GetData cb p"
    "GetHeadRoom cb r = GetHeadRoom cb p - n"
    using packet_prepend [OF assms(1,2)] by blast
  let ?q = "SetData cb (hdr r room @ GetData cb p) r"
  have "prepend_with cb n hdr p = Some ?q"
    using r hdr [of room r] by (simp add: prepend_with_def rdn_def store_def wr_def)
  moreover have "GetData cb ?q = hdr r room @ GetData cb p \<and> GetHeadRoom cb ?q = GetHeadRoom cb r"
    by (rule packet_set [OF assms(1)]) (simp add: r hdr)
  ultimately show ?thesis using r assms(2) by (auto simp: unat_sub)
qed

lemma prepend_with_None: "packet_laws cb \<Longrightarrow> GetHeadRoom cb p < n \<Longrightarrow> prepend_with cb n hdr p = None"
  by (simp add: prepend_with_def packet_prepend_None)

text \<open>What the encapsulation puts in front of a packet: the parts that are not assigned come from the
  memory in front of it.\<close>

definition tunnel_headers :: "app_info \<Rightarrow> pdr_value \<Rightarrow> nat \<Rightarrow> u8 list \<Rightarrow> u8 list \<Rightarrow> u8 list \<Rightarrow> u8 list" where
  "tunnel_headers app v n r1 r2 r4 =
     eth_hdr (ran_mac app) (upf_ran_mac app) @ ip_hdr (of_nat (n + 44)) r4 @ udp_hdr (of_nat (n + 24)) @
     gtp_hdr (of_nat (n + 16)) (ohc_teid v) r2 @ pdu_dl_hdr r1"

lemma downlink_encap_bytes:
  assumes l: "packet_laws cb" and h: "58 \<le> GetHeadRoom cb p"
    and mac: "length (ran_mac app) = 6" "length (upf_ran_mac app) = 6"
  shows "\<exists>q r1 r2 r4. downlink_encap cb app v p = Some q \<and> length r1 = 4 \<and> length r2 = 12 \<and> length r4 = 20 \<and>
    GetData cb q = tunnel_headers app v (length (GetData cb p)) r1 r2 r4 @ GetData cb p"
proof -
  note len = packet_len_of [OF l] and P = prepend_with_bytes [OF l]
  have H: "58 \<le> unat (GetHeadRoom cb p)" using h by (simp add: word_le_nat_alt)
  obtain p1 r1 where 1: "prepend_with cb 4 (\<lambda>_ room. pdu_dl_hdr room) p = Some p1"
    "length r1 = 4" "GetData cb p1 = pdu_dl_hdr r1 @ GetData cb p" "unat (GetHeadRoom cb p1) = unat (GetHeadRoom cb p) - 4"
    using P [of 4 p "\<lambda>_ room. pdu_dl_hdr room"] H by (auto simp: word_le_nat_alt)
  have hd12: "12 \<le> GetHeadRoom cb p1" using H 1(4) by (simp add: word_le_nat_alt)
  obtain p2 q2 r2 where 2: "prepend_with cb 12 (\<lambda>q room. gtp_hdr (GetDataLength cb q) (ohc_teid v) room) p1 = Some p2"
    "length r2 = 12" "GetData cb q2 = r2 @ GetData cb p1"
    "GetData cb p2 = gtp_hdr (GetDataLength cb q2) (ohc_teid v) r2 @ GetData cb p1"
    "unat (GetHeadRoom cb p2) = unat (GetHeadRoom cb p) - 16"
    using hd12 P [of 12 p1 "\<lambda>q room. gtp_hdr (GetDataLength cb q) (ohc_teid v) room"] 1(4)
    by auto
  have hd8: "8 \<le> GetHeadRoom cb p2" using H 2(5) by (simp add: word_le_nat_alt)
  obtain p3 q3 r3 where 3: "prepend_with cb 8 (\<lambda>q room. udp_hdr (GetDataLength cb q)) p2 = Some p3"
    "length r3 = 8" "GetData cb q3 = r3 @ GetData cb p2" "GetData cb p3 = udp_hdr (GetDataLength cb q3) @ GetData cb p2"
    "unat (GetHeadRoom cb p3) = unat (GetHeadRoom cb p) - 24"
    using hd8 P [of 8 p2 "\<lambda>q room. udp_hdr (GetDataLength cb q)"] 2(5) by auto
  have hd20: "20 \<le> GetHeadRoom cb p3" using H 3(5) by (simp add: word_le_nat_alt)
  obtain p4 q4 r4 where 4: "prepend_with cb 20 (\<lambda>q room. ip_hdr (GetDataLength cb q) room) p3 = Some p4"
    "length r4 = 20" "GetData cb q4 = r4 @ GetData cb p3" "GetData cb p4 = ip_hdr (GetDataLength cb q4) r4 @ GetData cb p3"
    "unat (GetHeadRoom cb p4) = unat (GetHeadRoom cb p) - 44"
    using hd20 P [of 20 p3 "\<lambda>q room. ip_hdr (GetDataLength cb q) room"] 3(5) by auto
  have hd14: "14 \<le> GetHeadRoom cb p4" using H 4(5) by (simp add: word_le_nat_alt)
  obtain q where 5: "prepend_with cb 14 (\<lambda>_ _. eth_hdr (ran_mac app) (upf_ran_mac app)) p4 = Some q"
    "GetData cb q = eth_hdr (ran_mac app) (upf_ran_mac app) @ GetData cb p4"
    using hd14 P [of 14 p4 "\<lambda>_ _. eth_hdr (ran_mac app) (upf_ran_mac app)"] mac
    by (auto simp: eth_hdr_bytes)
  have n: "GetDataLength cb q2 = of_nat (length (GetData cb p) + 16)"
    "GetDataLength cb q3 = of_nat (length (GetData cb p) + 24)"
    "GetDataLength cb q4 = of_nat (length (GetData cb p) + 44)"
    using 1(3) 2(2-4) 3(2-4) 4(2-4) unfolding len [of q2] len [of q3] len [of q4] by (simp_all add: add.commute)
  have "GetData cb q = tunnel_headers app v (length (GetData cb p)) r1 r2 r4 @ GetData cb p"
    using 1(3) 2(4) 3(4) 4(4) 5(2) by (simp add: tunnel_headers_def n)
  moreover have "downlink_encap cb app v p = Some q" by (simp add: downlink_encap_def 1(1) 2(1) 3(1) 4(1) 5(1))
  ultimately show ?thesis using 1(2) 2(2) 4(2) by blast
qed

text \<open>What the classification leaves in the lengths of a UDP packet.\<close>

lemma l3_bound: "unat (ipv4_hdr_len b) \<le> 60"
proof -
  have "and (ip_ihl b) 0x0F \<le> (0x0F :: u8)" by (rule word_and_le1)
  then have "unat (and (ip_ihl b) 0x0F) \<le> 15" by (simp add: word_le_nat_alt)
  moreover have "unat (and (ip_ihl b) 0x0F * 4) \<le> unat (and (ip_ihl b) 0x0F) * 4" by (simp add: unat_word_ariths)
  ultimately show ?thesis by (simp add: ipv4_hdr_len_def)
qed

lemma udp_lens:
  assumes "get_packet_type d \<lparr>l2_len = None, l3_len = None, l4_len = None\<rparr> = Some (ty, h)"
    "ty = PTYPE_L4_UDP \<or> ty = PTYPE_5G_GTP"
  shows "\<exists>l3. l3 \<le> 60 \<and> h = \<lparr>l2_len = Some 14, l3_len = Some l3, l4_len = Some 8\<rparr>"
  using assms
  by (auto simp: get_packet_type_def l4_type_def ptype_l4_def Let_def l3_bound split: Option.bind_splits if_splits)

section \<open>Properties\<close>

lemma unat_of_nat_u16: "n < 2 ^ 16 \<Longrightarrow> unat (of_nat n :: u16) = n"
  by (simp only: unsigned_of_nat take_bit_nat_eq_self) (simp add: take_bit_nat_eq_self)

abbreviation no_lens :: hdr_lens where
  "no_lens \<equiv> \<lparr>l2_len = None, l3_len = None, l4_len = None\<rparr>"

text \<open>
  C8: a packet from the data network whose destination address has a forwarding rule with outer
  header creation leaves on the other port behind the tunnel headers of the rule, and the packet
  itself is not changed; the lengths of the headers count what follows them.
\<close>

theorem downlink_forwarded:
  assumes "packet_laws cb" "58 \<le> GetHeadRoom cb p" "length (ran_mac app) = 6" "length (upf_ran_mac app) = 6"
    "get_packet_type (GetData cb p) no_lens = Some (PTYPE_L4_UDP, h)" "rd32 (GetData cb p) 30 = Some daddr"
    "map_of dl \<lparr>dl_srcIface = 1, dl_ueDestIpAddr = htonl daddr\<rparr> = Some v"
    "apply_action v = PFCP_FORW" "and (farMask v) 1 \<noteq> 0"
  shows "\<exists>q r1 r2 r4. packet_processor cb dl ul p recv (Some app) = Some (xor recv 1, q) \<and>
    length r1 = 4 \<and> length r2 = 12 \<and> length r4 = 20 \<and>
    GetData cb q = tunnel_headers app v (length (GetData cb p)) r1 r2 r4 @ GetData cb p"
proof -
  obtain q r1 r2 r4 where q: "downlink_encap cb app v p = Some q" "length r1 = 4" "length r2 = 12" "length r4 = 20"
    "GetData cb q = tunnel_headers app v (length (GetData cb p)) r1 r2 r4 @ GetData cb p"
    using downlink_encap_bytes [OF assms(1-4)] by blast
  obtain l3 where h: "h = \<lparr>l2_len = Some 14, l3_len = Some l3, l4_len = Some 8\<rparr>"
    using udp_lens [OF assms(5)] by blast
  have "downlink_packet cb app dl recv h p = Some (xor recv 1, q)"
    using assms(6-9) q(1) by (simp add: downlink_packet_def h rule_find)
  then have "packet_processor cb dl ul p recv (Some app) = Some (xor recv 1, q)"
    using assms(5) by (simp add: packet_processor_def)
  with q show ?thesis by blast
qed

text \<open>
  C13: a GTP packet from the radio network whose tunnel, session flow and inner source address have
  a forwarding rule with outer header removal leaves on the other port as the inner packet behind
  an Ethernet header for the data network: nothing of the outer headers is left.
\<close>

theorem uplink_forwarded:
  assumes "packet_laws cb" "length (dnn_mac app) = 6" "length (upf_dnn_mac app) = 6"
    "get_packet_type (GetData cb p) no_lens = Some (PTYPE_5G_GTP, h)" "l3_len h = Some l3"
    "parse_gtphdr (GetData cb p) (22 + l3) = Some (n, True, ext)"
    "rd32 (GetData cb p) (22 + l3 + nat n + 12) = Some saddr" "rd32 (GetData cb p) (22 + l3 + 4) = Some teid"
    "(case ext of None \<Rightarrow> Some 0 | Some e \<Rightarrow> map_option (\<lambda>b. and b 0x3F) (rd8 (GetData cb p) (e + 2))) = Some qfi"
    "map_of ul \<lparr>ul_srcIface = 0, ul_ueIpAddr = htonl saddr, ul_teid = htonl teid, ul_qfi = qfi\<rparr> = Some v"
    "apply_action v = PFCP_FORW" "and (pdrMask v) 1 \<noteq> 0"
  shows "\<exists>q. packet_processor cb dl ul p recv (Some app) = Some (xor recv 1, q) \<and>
    GetData cb q = dnn_mac app @ upf_dnn_mac app @ [8, 0] @ drop (22 + l3 + nat n) (GetData cb p)"
proof -
  have h: "h = \<lparr>l2_len = Some 14, l3_len = Some l3, l4_len = Some 8\<rparr>" and l3: "l3 \<le> 60"
    using udp_lens [OF assms(4)] assms(5) by auto
  have n: "n \<in> {12, 16, 20}"
    using assms(6) by (auto simp: parse_gtphdr_def split: Option.bind_splits if_splits)
  have len: "22 + l3 + nat n + 15 < length (GetData cb p)"
    using assms(7) by (simp add: rd32_def split: if_splits)
  let ?k = "of_nat (l3 + 8 + nat n) :: u16"
  have "l3 + 8 + nat n < 2 ^ 16" using l3 n by auto
  then have k: "unat ?k = l3 + 8 + nat n" by (rule unat_of_nat_u16)
  obtain r where r: "AdjustOffset cb p ?k = Some r" "GetData cb r = drop (l3 + 8 + nat n) (GetData cb p)"
    using packet_adjust [OF assms(1), of ?k p] len unfolding k by auto
  have le: "0 + length (eth_hdr (dnn_mac app) (upf_dnn_mac app)) \<le> length (GetData cb r)"
    using len assms(2,3) by (simp add: r(2) eth_hdr_bytes)
  obtain q where q: "store cb 0 (eth_hdr (dnn_mac app) (upf_dnn_mac app)) r = Some q"
    "GetData cb q = eth_hdr (dnn_mac app) (upf_dnn_mac app) @ drop 14 (GetData cb r)"
    using packet_store [OF assms(1) le] assms(2,3) by (auto simp: eth_hdr_bytes)
  have "uplink_packet cb app ul recv h p = Some (xor recv 1, q)"
    using assms(6-12) r(1) q(1) by (simp add: uplink_packet_def h Let_def rule_find add.commute add.left_commute)
  moreover have "GetData cb q = dnn_mac app @ upf_dnn_mac app @ [8, 0] @ drop (22 + l3 + nat n) (GetData cb p)"
    by (simp add: q(2) r(2) eth_hdr_bytes add.commute add.left_commute)
  ultimately show ?thesis using assms(4) by (simp add: packet_processor_def)
qed

text \<open>
  the tunnel headers of the downlink are not what the uplink of the same application expects:
  the destination port is stored in host byte order, so that a packet that was just put into a
  tunnel is classified as plain UDP and not as GTP.
\<close>

theorem tunnel_headers_not_gtp:
  assumes "length (ran_mac app) = 6" "length (upf_ran_mac app) = 6"
  shows "\<exists>h. get_packet_type (tunnel_headers app v n r1 r2 r4 @ data) no_lens = Some (PTYPE_L4_UDP, h)"
proof -
  have f: "\<exists>rest. tunnel_headers app v n r1 r2 r4 @ data = (ran_mac app @ upf_ran_mac app) @ [8, 0] @
      ip_hdr (of_nat (n + 44)) r4 @ [0x68, 0x08, 0x68, 0x08] @ rest"
    by (simp add: tunnel_headers_def eth_hdr_bytes udp_hdr_def put16_def)
  then obtain rest where r: "tunnel_headers app v n r1 r2 r4 @ data = (ran_mac app @ upf_ran_mac app) @ [8, 0] @
      ip_hdr (of_nat (n + 44)) r4 @ [0x68, 0x08, 0x68, 0x08] @ rest" by blast
  have ip: "ip_hdr (of_nat (n + 44)) r4 ! 0 = 0x45" "ip_hdr (of_nat (n + 44)) r4 ! 9 = IPPROTO_UDP"
    by (simp_all add: ip_hdr_def put16_def)
  have rd: "rd16 (tunnel_headers app v n r1 r2 r4 @ data) 12 = Some (le16 8 0)"
    "rd8 (tunnel_headers app v n r1 r2 r4 @ data) 14 = Some 0x45"
    "rd8 (tunnel_headers app v n r1 r2 r4 @ data) 23 = Some IPPROTO_UDP"
    "rd16 (tunnel_headers app v n r1 r2 r4 @ data) 36 = Some (le16 0x68 0x08)"
    unfolding r using assms ip by (simp_all add: rd_append rd16_def rd8_def nth_append)
  have "unat (ipv4_hdr_len 0x45) = 20" by (simp add: ipv4_hdr_len_def ip_ihl_def)
  with rd show ?thesis
    by (simp add: get_packet_type_def l4_type_def ptype_l4_def Let_def htons_def le16_def)
qed

text \<open>
  a rule whose action is to drop does not drop: on both ways the packet leaves unchanged on the
  other port, as it does for every other action than forwarding.
\<close>

theorem drop_rule_forwards:
  assumes "get_packet_type (GetData cb p) no_lens = Some (PTYPE_L4_UDP, h)" "rd32 (GetData cb p) 30 = Some daddr"
    "map_of dl \<lparr>dl_srcIface = 1, dl_ueDestIpAddr = htonl daddr\<rparr> = Some v" "applyAction v = PFCP_DROP"
  shows "packet_processor cb dl ul p recv (Some app) = Some (xor recv 1, p)"
proof -
  obtain l3 where h: "h = \<lparr>l2_len = Some 14, l3_len = Some l3, l4_len = Some 8\<rparr>"
    using udp_lens [OF assms(1)] by blast
  have "apply_action v = PFCP_DROP" using assms(4) by (simp add: apply_action_def)
  then have "downlink_packet cb app dl recv h p = Some (xor recv 1, p)"
    using assms(2,3) by (simp add: downlink_packet_def h rule_find)
  with assms(1) show ?thesis by (simp add: packet_processor_def)
qed

text \<open>
  packets of the control protocol never reach the control plane: a packet classified as PFCP is
  dropped, since the branch that sends it to the kernel falls through to the default.
\<close>

theorem pfcp_dropped:
  assumes "get_packet_type (GetData cb p) no_lens = Some (PTYPE_5G_PFCP, h)"
  shows "packet_processor cb dl ul p recv (Some app) = Some (DROP, p)"
  using assms by (simp add: packet_processor_def)

section \<open>No read outside the frame\<close>

text \<open>
  A frame of 118 bytes holds the longest headers the handler looks at: Ethernet, an internet header with
  options, UDP, GTP with a session container and the inner internet header.
\<close>

lemma packet_type_total: "118 \<le> length d \<Longrightarrow> \<exists>ty h. get_packet_type d no_lens = Some (ty, h)"
  using l3_bound [of "d ! 14"] by (simp add: get_packet_type_def l4_type_def rd16_def rd8_def Let_def)

lemma parse_gtphdr_total:
  assumes "off \<le> 82" "118 \<le> length d"
  shows "\<exists>n found ext. parse_gtphdr d off = Some (n, found, ext) \<and>
    (found \<longrightarrow> n \<in> {12, 16, 20} \<and> (ext = None \<or> ext = Some (off + 12)))"
  using assms by (auto simp: parse_gtphdr_def rd8_def)

lemma downlink_packet_total:
  assumes "packet_laws cb" "58 \<le> GetHeadRoom cb p" "length (ran_mac app) = 6" "length (upf_ran_mac app) = 6"
    "118 \<le> length (GetData cb p)" "l2_len h = Some 14"
  shows "\<exists>v q. downlink_packet cb app dl recv h p = Some (v, q) \<and> v \<in> {xor recv 1, DROP}"
proof -
  have e: "\<exists>q. downlink_encap cb app v p = Some q" for v using downlink_encap_bytes [OF assms(1-4)] by blast
  obtain a where "rd32 (GetData cb p) (14 + 16) = Some a" using assms(5) by (simp add: rd32_def)
  then show ?thesis using e assms(6) by (auto simp: downlink_packet_def split: option.split)
qed

lemma uplink_packet_total:
  assumes "packet_laws cb" "length (dnn_mac app) = 6" "length (upf_dnn_mac app) = 6" "118 \<le> length (GetData cb p)"
    "h = \<lparr>l2_len = Some 14, l3_len = Some l3, l4_len = Some 8\<rparr>" "l3 \<le> 60"
  shows "\<exists>v q. uplink_packet cb app ul recv h p = Some (v, q) \<and> v \<in> {xor recv 1, DROP}"
proof -
  let ?d = "GetData cb p"
  obtain n found ext where g: "parse_gtphdr ?d (22 + l3) = Some (n, found, ext)"
    and n: "found \<longrightarrow> n \<in> {12, 16, 20} \<and> (ext = None \<or> ext = Some (22 + l3 + 12))"
    using parse_gtphdr_total [of "22 + l3" ?d] assms(4,6) by auto
  show ?thesis
  proof (cases found)
    case False
    with g assms(4,5) show ?thesis by (simp add: uplink_packet_def rd32_def Let_def add.commute add.left_commute)
  next
    case True
    then have n: "n \<in> {12, 16, 20}" "ext = None \<or> ext = Some (22 + l3 + 12)" using n by simp_all
    have reads: "\<exists>a. rd32 ?d (22 + l3 + nat n + 12) = Some a" "\<exists>a. rd32 ?d (22 + l3 + 4) = Some a"
      "\<exists>b. (case ext of None \<Rightarrow> Some 0 | Some e \<Rightarrow> map_option (\<lambda>b. and b 0x3F) (rd8 ?d (e + 2))) = Some b"
      using n assms(4,6) by (auto simp: rd32_def rd8_def)
    let ?k = "of_nat (l3 + 8 + nat n) :: u16"
    have "l3 + 8 + nat n < 2 ^ 16" using assms(6) n(1) by auto
    then have k: "unat ?k = l3 + 8 + nat n" by (rule unat_of_nat_u16)
    obtain r where r: "AdjustOffset cb p ?k = Some r" "GetData cb r = drop (l3 + 8 + nat n) ?d"
      using packet_adjust [OF assms(1), of ?k p] assms(4,6) n(1) unfolding k by auto
    have "0 + length (eth_hdr (dnn_mac app) (upf_dnn_mac app)) \<le> length (GetData cb r)"
      using assms(2-4,6) n(1) by (auto simp: r(2) eth_hdr_bytes)
    then obtain q where "store cb 0 (eth_hdr (dnn_mac app) (upf_dnn_mac app)) r = Some q"
      using packet_store [OF assms(1)] by blast
    with reads r(1) g True assms(5) show ?thesis
      by (auto simp: uplink_packet_def Let_def add.commute add.left_commute split: option.split)
  qed
qed

text \<open>The handler never answers with the kernel.\<close>

lemma packet_processor_total:
  assumes "packet_laws cb" "58 \<le> GetHeadRoom cb p" "length (ran_mac app) = 6" "length (upf_ran_mac app) = 6"
    "length (dnn_mac app) = 6" "length (upf_dnn_mac app) = 6" "118 \<le> length (GetData cb p)"
  shows "\<exists>v q. packet_processor cb dl ul p recv (Some app) = Some (v, q) \<and> v \<in> {xor recv 1, DROP}"
proof -
  obtain ty h where t: "get_packet_type (GetData cb p) no_lens = Some (ty, h)" using packet_type_total [OF assms(7)] by blast
  consider "ty = PTYPE_L4_UDP" | "ty = PTYPE_5G_GTP" | "ty \<noteq> PTYPE_L4_UDP" "ty \<noteq> PTYPE_5G_GTP" by blast
  then show ?thesis
  proof cases
    case 1
    obtain l3 where "h = \<lparr>l2_len = Some 14, l3_len = Some l3, l4_len = Some 8\<rparr>" using udp_lens [OF t] 1 by blast
    then have "l2_len h = Some 14" by simp
    from downlink_packet_total [OF assms(1-4,7) this, of dl recv] t 1 show ?thesis by (simp add: packet_processor_def)
  next
    case 2
    obtain l3 where "h = \<lparr>l2_len = Some 14, l3_len = Some l3, l4_len = Some 8\<rparr>" "l3 \<le> 60" using udp_lens [OF t] 2 by blast
    from uplink_packet_total [OF assms(1,5-7) this, of ul recv] t 2 show ?thesis by (simp add: packet_processor_def)
  next
    case 3
    with t show ?thesis by (simp add: packet_processor_def)
  qed
qed

end
