(* ===== verification/Datapath.thy ===== *)
theory Datapath
  imports Frames FwdConfig
begin

text \<open>
  The packet loops of the DPDK data path (\<^verbatim>\<open>run_to_completion\<close>, \<^verbatim>\<open>send_to_kernel\<close>, \<^verbatim>\<open>fnworker_dpdk\<close>,
  \<^verbatim>\<open>master_worker\<close> and one round of \<^verbatim>\<open>run_pkt_fwd_on_lcore\<close> of \<^verbatim>\<open>dpdk.cpp\<close>, the receive and transmit
  helpers of \<^verbatim>\<open>testpmd.h\<close>).  The state has the packet buffers the program owns, by address; freeing a
  buffer, or handing it to the transmit buffer of a queue, ends the ownership, and touching a buffer
  the program does not own is undefined behaviour, the result \<open>None\<close>.  The driver, the rings, the tap
  device and the packet handler of the application are parameters.
\<close>

section \<open>Buffers\<close>

record 'd dp =
  live :: "nat \<Rightarrow> u8 list option"
  dp_dev :: 'd

record 'd dp_api =
  rte_eth_rx_burst :: "u16 \<Rightarrow> u16 \<Rightarrow> u16 \<Rightarrow> 'd \<Rightarrow> (nat \<times> u8 list) list \<times> 'd"
  rte_eth_tx_burst :: "u16 \<Rightarrow> u16 \<Rightarrow> nat list \<Rightarrow> 'd \<Rightarrow> nat \<times> 'd"
  rte_eth_tx_buffer :: "u16 \<Rightarrow> u16 \<Rightarrow> nat \<Rightarrow> u8 list \<Rightarrow> 'd \<Rightarrow> 'd"
  rte_eth_tx_buffer_flush :: "u16 \<Rightarrow> u16 \<Rightarrow> 'd \<Rightarrow> 'd"
  rte_mbuf_raw_free :: "nat \<Rightarrow> 'd \<Rightarrow> 'd"
  tap_write :: "u8 list \<Rightarrow> 'd \<Rightarrow> int \<times> 'd"
  ring_enqueue_bulk :: "nat \<Rightarrow> nat list \<Rightarrow> 'd \<Rightarrow> 'd"
  ring_dequeue_burst :: "nat \<Rightarrow> u16 \<Rightarrow> 'd \<Rightarrow> nat list \<times> nat \<times> 'd"
  ring_dequeue_bulk :: "nat \<Rightarrow> u16 \<Rightarrow> 'd \<Rightarrow> nat list \<times> 'd"
  rte_mbuf_raw_alloc :: "'d \<Rightarrow> nat option \<times> 'd"
  tap_processor :: "u8 list \<Rightarrow> nat \<Rightarrow> int \<times> u8 list"
  processor :: "u8 list \<Rightarrow> int \<Rightarrow> (int \<times> u8 list) option"

definition mbuf_free :: "('d, 'z) dp_api_scheme \<Rightarrow> nat \<Rightarrow> 'd dp \<Rightarrow> 'd dp option" where
  "mbuf_free api a s =
     (case live s a of
        None \<Rightarrow> None
      | Some _ \<Rightarrow> Some (s\<lparr>live := (live s)(a := None), dp_dev := rte_mbuf_raw_free api a (dp_dev s)\<rparr>))"

definition mbuf_send :: "('d, 'z) dp_api_scheme \<Rightarrow> u16 list \<Rightarrow> int \<Rightarrow> u16 \<Rightarrow> nat \<Rightarrow> 'd dp \<Rightarrow> 'd dp option" where
  "mbuf_send api lports verdict q a s =
     (if 0 \<le> verdict \<and> nat verdict < length lports
      then (case live s a of
              None \<Rightarrow> None
            | Some data \<Rightarrow> Some (s\<lparr>live := (live s)(a := None),
                dp_dev := rte_eth_tx_buffer api (lports ! nat verdict) q a data (dp_dev s)\<rparr>))
      else None)"

definition mbuf_set :: "nat \<Rightarrow> u8 list \<Rightarrow> 'd dp \<Rightarrow> 'd dp" where
  "mbuf_set a data s = s\<lparr>live := (live s)(a \<mapsto> data)\<rparr>"

section \<open>Run to completion\<close>

definition send_to_kernel :: "('d, 'z) dp_api_scheme \<Rightarrow> dpm \<Rightarrow> nat \<Rightarrow> 'd dp \<Rightarrow> 'd dp option" where
  "send_to_kernel api m a s = do {
     data \<leftarrow> live s a;
     data' \<leftarrow> wr 0 (tap_mac_addr m) data;
     (case tap_write api data' (dp_dev s) of (_, d) \<Rightarrow> mbuf_free api a ((mbuf_set a data' s)\<lparr>dp_dev := d\<rparr>))
   }"

text \<open>The branch for ARP packets; the flag says whether the loop is left.\<close>

definition rtc_arp ::
  "('d, 'z) dp_api_scheme \<Rightarrow> dpm \<Rightarrow> u16 list \<Rightarrow> fwd_stream \<Rightarrow> nat \<Rightarrow> 'd dp \<Rightarrow> (bool \<times> 'd dp) option" where
  "rtc_arp api m lports fs a s = do {
     data \<leftarrow> live s a;
     (verdict, data') \<leftarrow> arp_handler m data (uint (rx_port fs));
     (let s1 = mbuf_set a data' s in
      if verdict = KERNEL
      then (case tap_write api data' (dp_dev s1) of (_, d) \<Rightarrow>
              map_option (\<lambda>t. (False, t)) (mbuf_free api a (s1\<lparr>dp_dev := d\<rparr>)))
      else if verdict = DROP then map_option (\<lambda>t. (False, t)) (mbuf_free api a s1)
      else map_option (\<lambda>t. (True, t)) (mbuf_send api lports verdict (rx_queue fs) a s1))
   }"

text \<open>
  The filter.  Its second test compares the protocol with two constants by a disjunction of
  inequalities, and no test ends the iteration.
\<close>

definition rtc_filter :: "('d, 'z) dp_api_scheme \<Rightarrow> dpm \<Rightarrow> nat \<Rightarrow> 'd dp \<Rightarrow> 'd dp option" where
  "rtc_filter api m a s = do {
     data \<leftarrow> live s a;
     ty \<leftarrow> rd16 data 12;
     s1 \<leftarrow> (if ty \<noteq> htons ETH_P_IP then send_to_kernel api m a s else Some s);
     data1 \<leftarrow> live s1 a;
     proto \<leftarrow> rd8 data1 23;
     s2 \<leftarrow> (if proto \<noteq> IPPROTO_UDP \<or> proto \<noteq> IPPROTO_TCP then send_to_kernel api m a s1 else Some s1);
     data2 \<leftarrow> live s2 a;
     proto2 \<leftarrow> rd8 data2 23;
     port \<leftarrow> (if proto2 = IPPROTO_UDP \<or> proto2 = IPPROTO_TCP
              then map_option (\<lambda>w. uint (htons w)) (rd16 data2 (14 + 20 + 2)) else Some 0);
     (if filter_packet (fastpath_ports m) port then send_to_kernel api m a s2 else Some s2)
   }"

definition rtc_dispatch ::
  "('d, 'z) dp_api_scheme \<Rightarrow> dpm \<Rightarrow> u16 list \<Rightarrow> fwd_stream \<Rightarrow> nat \<Rightarrow> 'd dp \<Rightarrow> 'd dp option" where
  "rtc_dispatch api m lports fs a s = do {
     data \<leftarrow> live s a;
     (verdict, data') \<leftarrow> processor api data (uint (rx_port fs));
     (let s1 = mbuf_set a data' s in
      if verdict = KERNEL then send_to_kernel api m a s1
      else if verdict = DROP then mbuf_free api a s1
      else mbuf_send api lports verdict (rx_queue fs) a s1)
   }"

fun rtc_loop ::
  "('d, 'z) dp_api_scheme \<Rightarrow> dpm \<Rightarrow> u16 list \<Rightarrow> fwd_stream \<Rightarrow> nat list \<Rightarrow> 'd dp \<Rightarrow> 'd dp option" where
  "rtc_loop api m lports fs [] s = Some s"
| "rtc_loop api m lports fs (a # as) s = do {
     data \<leftarrow> live s a;
     ty \<leftarrow> rd16 data 12;
     (stop, s1) \<leftarrow> (if ty = htons ETH_P_ARP then rtc_arp api m lports fs a s else Some (False, s));
     (if stop then Some s1
      else do {
        s2 \<leftarrow> (if fast_path_filtering m then rtc_filter api m a s1 else Some s1);
        s3 \<leftarrow> rtc_dispatch api m lports fs a s2;
        rtc_loop api m lports fs as s3
      })
   }"

text \<open>The receive helper: the burst becomes ours, and the counters of the stream move.\<close>

fun take_over :: "(nat \<times> u8 list) list \<Rightarrow> 'd dp \<Rightarrow> 'd dp" where
  "take_over [] s = s"
| "take_over ((a, data) # ms) s = take_over ms (mbuf_set a data s)"

definition bump :: "u32 list \<Rightarrow> nat \<Rightarrow> u32 list" where
  "bump xs n = xs[n := xs ! n + 1]"

definition common_fwd_stream_receive ::
  "('d, 'z) dp_api_scheme \<Rightarrow> bool \<Rightarrow> u16 \<Rightarrow> fwd_stream \<Rightarrow> 'd dp \<Rightarrow> nat list \<times> fwd_stream \<times> 'd dp" where
  "common_fwd_stream_receive api record_burst_stats nb_pkts fs s =
     (case rte_eth_rx_burst api (rx_port fs) (rx_queue fs) nb_pkts (dp_dev s) of (ms, d) \<Rightarrow>
        (map fst ms,
         (if record_burst_stats then fs\<lparr>rx_burst_spread := bump (rx_burst_spread fs) (length ms)\<rparr> else fs)
           \<lparr>rx_packets := rx_packets fs + of_nat (length ms)\<rparr>,
         take_over ms (s\<lparr>dp_dev := d\<rparr>)))"

definition run_to_completion ::
  "('d, 'z) dp_api_scheme \<Rightarrow> dpm \<Rightarrow> u16 list \<Rightarrow> bool \<Rightarrow> u16 \<Rightarrow> fwd_stream \<Rightarrow> 'd dp
    \<Rightarrow> (bool \<times> fwd_stream \<times> 'd dp) option" where
  "run_to_completion api m lports record_burst_stats nb_pkts fs s =
     (case common_fwd_stream_receive api record_burst_stats nb_pkts fs s of (ms, fs1, s1) \<Rightarrow>
        if ms = [] then Some (False, fs1, s1)
        else map_option (\<lambda>t. (True, fs1, t))
               (rtc_loop api m lports fs1 ms
                  (s1\<lparr>dp_dev := rte_eth_tx_buffer_flush api (rx_port fs1) (rx_queue fs1) (dp_dev s1)\<rparr>)))"

section \<open>Packets from the kernel\<close>

text \<open>
  A packet of the tap device leaves through queue zero of a port in a buffer of the pool; a pool
  that is empty gives a null pointer, which is dereferenced.
\<close>

definition send_single_packet_dpdk ::
  "('d, 'z) dp_api_scheme \<Rightarrow> u16 list \<Rightarrow> u8 list \<Rightarrow> int \<Rightarrow> 'd dp \<Rightarrow> 'd dp option" where
  "send_single_packet_dpdk api lports data lpid s =
     (case rte_mbuf_raw_alloc api (dp_dev s) of
        (None, _) \<Rightarrow> None
      | (Some a, d) \<Rightarrow> do {
          s1 \<leftarrow> mbuf_send api lports lpid 0 a (mbuf_set a data (s\<lparr>dp_dev := d\<rparr>));
          Some (s1\<lparr>dp_dev := rte_eth_tx_buffer_flush api (lports ! nat lpid) 0 (dp_dev s1)\<rparr>)
        })"

text \<open>An ARP packet goes out of every port, with the hardware address of the port in it.\<close>

fun tap_arp ::
  "('d, 'z) dp_api_scheme \<Rightarrow> u16 list \<Rightarrow> u8 list list \<Rightarrow> nat \<Rightarrow> nat \<Rightarrow> u8 list \<Rightarrow> 'd dp
    \<Rightarrow> (u8 list \<times> 'd dp) option" where
  "tap_arp api lports [] lport read_len buffer s = Some (buffer, s)"
| "tap_arp api lports (mac # macs) lport read_len buffer s = do {
     b1 \<leftarrow> wr 22 mac buffer;
     b2 \<leftarrow> wr 6 mac b1;
     s1 \<leftarrow> send_single_packet_dpdk api lports (take read_len b2) (int lport) s;
     tap_arp api lports macs (Suc lport) read_len b2 s1
   }"

text \<open>
  One packet read from the device: the read overwrites the front of the buffer, whose other bytes
  are those of earlier packets.
\<close>

definition tap_packet ::
  "('d, 'z) dp_api_scheme \<Rightarrow> dpm \<Rightarrow> u16 list \<Rightarrow> u8 list \<Rightarrow> u8 list \<Rightarrow> 'd dp \<Rightarrow> (u8 list \<times> 'd dp) option" where
  "tap_packet api m lports pkt buffer s = do {
     b0 \<leftarrow> wr 0 pkt buffer;
     ty \<leftarrow> get_ether_type b0;
     (if ty = PTYPE_L2_ETHER_ARP
      then tap_arp api lports (lport_mac m) 0 (length pkt) b0 s
      else (case tap_processor api b0 (length pkt) of (verdict, b1) \<Rightarrow>
        if verdict = DROP \<or> verdict = KERNEL then Some (b1, s)
        else if 0 \<le> verdict \<and> nat verdict < length (lport_mac m) then do {
          b2 \<leftarrow> wr 6 (lport_mac m ! nat verdict) b1;
          s1 \<leftarrow> send_single_packet_dpdk api lports (take (length pkt) b2) verdict s;
          Some (b2, s1)
        }
        else None))
   }"

text \<open>
  The thread, over what \<^verbatim>\<open>read\<close> returns and what \<^verbatim>\<open>is_running\<close> then answers; it ends with the first
  read of no bytes.
\<close>

fun tap_handler_dpdk ::
  "('d, 'z) dp_api_scheme \<Rightarrow> dpm \<Rightarrow> u16 list \<Rightarrow> (u8 list \<times> bool) list \<Rightarrow> u8 list \<Rightarrow> 'd dp
    \<Rightarrow> 'd dp option" where
  "tap_handler_dpdk api m lports [] buffer s = Some s"
| "tap_handler_dpdk api m lports ((pkt, running) # reads) buffer s =
     (if pkt = [] \<or> \<not> running then Some s
      else do {
        (b, s1) \<leftarrow> tap_packet api m lports pkt buffer s;
        tap_handler_dpdk api m lports reads b s1
      })"

section \<open>Master and workers\<close>

text \<open>
  Handing packets to a ring: an index outside the array of rings is undefined behaviour.
\<close>

definition to_ring :: "('d, 'z) dp_api_scheme \<Rightarrow> nat \<Rightarrow> int \<Rightarrow> nat list \<Rightarrow> 'd dp \<Rightarrow> 'd dp option" where
  "to_ring api nrings verdict ms s =
     (if 0 \<le> verdict \<and> nat verdict < nrings
      then Some (s\<lparr>dp_dev := ring_enqueue_bulk api (nat verdict) ms (dp_dev s)\<rparr>) else None)"

text \<open>
  One packet of a worker.  The enqueue call is given the start of the array of the burst, whichever
  packet of the burst is at hand; packets that are dropped by the ARP branch or by the filter are
  not freed.
\<close>

definition worker_packet ::
  "('d, 'z) dp_api_scheme \<Rightarrow> dpm \<Rightarrow> nat \<Rightarrow> int \<Rightarrow> nat \<Rightarrow> nat \<Rightarrow> 'd dp \<Rightarrow> 'd dp option" where
  "worker_packet api m nrings lpid first a s = do {
     data \<leftarrow> live s a;
     ty \<leftarrow> get_ether_type data;
     (if ty = PTYPE_L2_ETHER_ARP then do {
        (verdict, data') \<leftarrow> arp_handler m data lpid;
        (let s1 = mbuf_set a data' s in
         if verdict \<noteq> DROP
         then to_ring api nrings verdict [first] s1 else Some s1)
      }
      else do {
        port \<leftarrow> get_packet_port_number data;
        (if filter_packet (fastpath_ports m) port then Some s
         else do {
           (verdict, data') \<leftarrow> processor api data lpid;
           (let s1 = mbuf_set a data' s in
            if verdict = KERNEL then do {
              out \<leftarrow> wr 0 (tap_mac_addr m) data';
              (case tap_write api out (dp_dev s1) of (_, d) \<Rightarrow>
                 mbuf_free api a ((mbuf_set a out s1)\<lparr>dp_dev := d\<rparr>))
            }
            else if verdict = DROP then mbuf_free api a s1
            else to_ring api nrings verdict [first] s1)
         })
      })
   }"

fun worker_burst ::
  "('d, 'z) dp_api_scheme \<Rightarrow> dpm \<Rightarrow> nat \<Rightarrow> int \<Rightarrow> nat \<Rightarrow> nat list \<Rightarrow> 'd dp \<Rightarrow> 'd dp option" where
  "worker_burst api m nrings lpid first [] s = Some s"
| "worker_burst api m nrings lpid first (a # as) s = do {
     s1 \<leftarrow> worker_packet api m nrings lpid first a s;
     worker_burst api m nrings lpid first as s1
   }"

text \<open>One pass of a worker over the rings; the thread repeats it for ever.\<close>

definition worker_visit ::
  "('d, 'z) dp_api_scheme \<Rightarrow> dpm \<Rightarrow> nat \<Rightarrow> u16 \<Rightarrow> nat \<Rightarrow> 'd dp \<Rightarrow> 'd dp option" where
  "worker_visit api m nrings nb_pkts lpid s =
     (case ring_dequeue_bulk api lpid nb_pkts (dp_dev s) of (burst, d) \<Rightarrow>
        (let s1 = s\<lparr>dp_dev := d\<rparr> in
         case burst of
           [] \<Rightarrow> Some s1
         | a # _ \<Rightarrow> worker_burst api m nrings (int lpid) a burst s1))"

fun worker_rings ::
  "('d, 'z) dp_api_scheme \<Rightarrow> dpm \<Rightarrow> nat \<Rightarrow> u16 \<Rightarrow> nat list \<Rightarrow> 'd dp \<Rightarrow> 'd dp option" where
  "worker_rings api m nrings nb_pkts [] s = Some s"
| "worker_rings api m nrings nb_pkts (lpid # ls) s = do {
     s1 \<leftarrow> worker_visit api m nrings nb_pkts lpid s;
     worker_rings api m nrings nb_pkts ls s1
   }"

definition fnworker_dpdk ::
  "('d, 'z) dp_api_scheme \<Rightarrow> dpm \<Rightarrow> nat \<Rightarrow> u16 \<Rightarrow> nat \<Rightarrow> 'd dp \<Rightarrow> 'd dp option" where
  "fnworker_dpdk api m nrings nb_pkts num_worker_rings s =
     worker_rings api m nrings nb_pkts [0..<num_worker_rings] s"

text \<open>The ring of a stream.\<close>

definition worker_ring :: "u16 \<Rightarrow> fwd_stream \<Rightarrow> nat" where
  "worker_ring nb_cfg_ports fs = unat (rx_port fs) * unat nb_cfg_ports + unat (rx_queue fs)"

text \<open>
  The transmit helper: the driver says how many packets of the burst it took; with retries enabled
  it is asked again for the rest, a bounded number of times; the rest is freed and counted.
\<close>

fun tx_retry ::
  "('d, 'z) dp_api_scheme \<Rightarrow> nat \<Rightarrow> fwd_stream \<Rightarrow> nat list \<Rightarrow> nat \<Rightarrow> 'd \<Rightarrow> nat \<times> 'd" where
  "tx_retry api 0 fs ms n d = (n, d)"
| "tx_retry api (Suc retry) fs ms n d =
     (if n < length ms
      then (case rte_eth_tx_burst api (tx_port fs) (tx_queue fs) (drop n ms) d of (k, d') \<Rightarrow>
              tx_retry api retry fs ms (n + k) d')
      else (n, d))"

fun free_all :: "('d, 'z) dp_api_scheme \<Rightarrow> nat list \<Rightarrow> 'd dp \<Rightarrow> 'd dp" where
  "free_all api [] s = s"
| "free_all api (a # as) s =
     free_all api as (s\<lparr>live := (live s)(a := None), dp_dev := rte_mbuf_raw_free api a (dp_dev s)\<rparr>)"

definition common_fwd_stream_transmit ::
  "('d, 'z) dp_api_scheme \<Rightarrow> bool \<Rightarrow> u32 \<Rightarrow> nat list \<Rightarrow> fwd_stream \<Rightarrow> 'd dp \<Rightarrow> nat \<times> fwd_stream \<times> 'd dp" where
  "common_fwd_stream_transmit api record_burst_stats burst_tx_retry_num ms fs s =
     (case rte_eth_tx_burst api (tx_port fs) (tx_queue fs) ms (dp_dev s) of (n0, d0) \<Rightarrow>
      (case (if n0 < length ms \<and> retry_enabled fs \<noteq> 0
             then tx_retry api (unat burst_tx_retry_num) fs ms n0 d0 else (n0, d0)) of (n, d) \<Rightarrow>
        (let fs1 = fs\<lparr>tx_packets := tx_packets fs + of_nat n\<rparr>;
             fs2 = (if record_burst_stats then fs1\<lparr>tx_burst_spread := bump (tx_burst_spread fs1) n\<rparr> else fs1);
             s1 = s\<lparr>dp_dev := d, live := (\<lambda>a. if a \<in> set (take n ms) then None else live s a)\<rparr> in
         if n < length ms
         then (n, fs2\<lparr>fwd_dropped := fwd_dropped fs2 + of_nat (length ms - n)\<rparr>, free_all api (drop n ms) s1)
         else (n, fs2, s1))))"

text \<open>
  The master: the burst goes to the ring of the stream, and what workers put on the transmit ring of
  the same number is sent, until the ring reports nothing left.  The loop may go on for ever; the
  fuel bounds its rounds and running out of it is \<open>None\<close>.
\<close>

fun master_drain ::
  "nat \<Rightarrow> ('d, 'z) dp_api_scheme \<Rightarrow> bool \<Rightarrow> u32 \<Rightarrow> u16 \<Rightarrow> nat \<Rightarrow> fwd_stream \<Rightarrow> 'd dp
    \<Rightarrow> (fwd_stream \<times> 'd dp) option" where
  "master_drain 0 api rbs retries nb_pkts ring fs s = None"
| "master_drain (Suc fuel) api rbs retries nb_pkts ring fs s =
     (case ring_dequeue_burst api ring nb_pkts (dp_dev s) of (ms, available, d) \<Rightarrow>
      (case common_fwd_stream_transmit api rbs retries ms fs (s\<lparr>dp_dev := d\<rparr>) of (_, fs1, s1) \<Rightarrow>
         if available = 0 then Some (fs1, s1)
         else master_drain fuel api rbs retries nb_pkts ring fs1 s1))"

definition master_worker ::
  "nat \<Rightarrow> ('d, 'z) dp_api_scheme \<Rightarrow> nat \<Rightarrow> u16 \<Rightarrow> bool \<Rightarrow> u32 \<Rightarrow> u16 \<Rightarrow> fwd_stream \<Rightarrow> 'd dp
    \<Rightarrow> (bool \<times> fwd_stream \<times> 'd dp) option" where
  "master_worker fuel api nrings nb_cfg_ports rbs retries nb_pkts fs s =
     (case common_fwd_stream_receive api rbs nb_pkts fs s of (ms, fs1, s1) \<Rightarrow>
        if ms = [] then Some (False, fs1, s1)
        else do {
          s2 \<leftarrow> to_ring api nrings (int (worker_ring nb_cfg_ports fs1)) ms s1;
          (fs3, s3) \<leftarrow> master_drain fuel api rbs retries nb_pkts (worker_ring nb_cfg_ports fs1) fs1 s2;
          Some (True, fs3, s3)
        })"

text \<open>
  One round of a core over its streams: a disabled stream is skipped; the engine is an argument.
\<close>

fun lcore_round ::
  "(fwd_stream \<Rightarrow> 'w \<Rightarrow> (bool \<times> fwd_stream \<times> 'w) option) \<Rightarrow> fwd_stream list \<Rightarrow> 'w
    \<Rightarrow> (fwd_stream list \<times> 'w) option" where
  "lcore_round eng [] w = Some ([], w)"
| "lcore_round eng (fs # fss) w = do {
     (fs1, w1) \<leftarrow> (if disabled fs then Some (fs, w)
                  else map_option (\<lambda>(_, fs', w'). (fs', w')) (eng fs w));
     (fss1, w2) \<leftarrow> lcore_round eng fss w1;
     Some (fs1 # fss1, w2)
   }"

section \<open>Ownership\<close>

lemma live_mbuf_set [simp]: "live (mbuf_set a x s) = (live s)(a \<mapsto> x)"
  by (simp add: mbuf_set_def)

lemma send_to_kernel_live:
  assumes "live s a = Some x" "length (tap_mac_addr m) \<le> length x"
  shows "\<exists>t. send_to_kernel api m a s = Some t \<and> live t = (live s)(a := None)"
proof -
  obtain y where y: "wr 0 (tap_mac_addr m) x = Some y" using wr_Some [of 0 "tap_mac_addr m" x] assms(2) by auto
  obtain r d where "tap_write api y (dp_dev s) = (r, d)" by (cases "tap_write api y (dp_dev s)")
  with assms(1) y show ?thesis by (simp add: send_to_kernel_def mbuf_free_def)
qed

lemma send_to_kernel_gone: "send_to_kernel api m a s = Some t \<Longrightarrow> live t a = None"
  by (auto simp: send_to_kernel_def mbuf_free_def split: Option.bind_splits prod.splits option.splits)

text \<open>What the loop relies on: the application handles the packet, and answers with a port, the
  kernel or a drop.\<close>

definition handled :: "('d, 'z) dp_api_scheme \<Rightarrow> dpm \<Rightarrow> u16 list \<Rightarrow> fwd_stream \<Rightarrow> u8 list \<Rightarrow> bool" where
  "handled api m lports fs x \<longleftrightarrow>
     (case processor api x (uint (rx_port fs)) of
        None \<Rightarrow> False
      | Some (v, out) \<Rightarrow>
          v = KERNEL \<and> length (tap_mac_addr m) \<le> length out \<or> v = DROP \<or>
          v \<noteq> KERNEL \<and> v \<noteq> DROP \<and> 0 \<le> v \<and> nat v < length lports)"

lemma rtc_dispatch_live:
  assumes "live s a = Some x" "handled api m lports fs x"
  shows "\<exists>t. rtc_dispatch api m lports fs a s = Some t \<and> live t = (live s)(a := None)"
proof -
  obtain v out where p: "processor api x (uint (rx_port fs)) = Some (v, out)"
    and v: "v = KERNEL \<and> length (tap_mac_addr m) \<le> length out \<or> v = DROP \<or>
      v \<noteq> KERNEL \<and> v \<noteq> DROP \<and> 0 \<le> v \<and> nat v < length lports"
    using assms(2) by (auto simp: handled_def split: option.splits)
  let ?w = "mbuf_set a out s"
  have l: "live ?w a = Some out" by simp
  consider "v = KERNEL" "length (tap_mac_addr m) \<le> length out" | "v = DROP"
    | "v \<noteq> KERNEL" "v \<noteq> DROP" "0 \<le> v" "nat v < length lports" using v by blast
  then show ?thesis
  proof cases
    case 1
    with send_to_kernel_live [OF l, of m api] assms(1) p show ?thesis by (auto simp: rtc_dispatch_def Let_def)
  next
    case 2
    with assms(1) p show ?thesis by (simp add: rtc_dispatch_def Let_def mbuf_free_def)
  next
    case 3
    with assms(1) p show ?thesis by (simp add: rtc_dispatch_def Let_def mbuf_send_def)
  qed
qed

lemma rtc_loop_releases:
  assumes "\<not> fast_path_filtering m" "distinct as"
    "\<forall>a \<in> set as. \<exists>x ty. live s a = Some x \<and> rd16 x 12 = Some ty \<and> ty \<noteq> htons ETH_P_ARP \<and> handled api m lports fs x"
  shows "\<exists>t. rtc_loop api m lports fs as s = Some t \<and>
    live t = (\<lambda>a. if a \<in> set as then None else live s a)"
  using assms(2,3)
proof (induction as arbitrary: s)
  case (Cons a as)
  then obtain x ty where x: "live s a = Some x" "rd16 x 12 = Some ty" "ty \<noteq> htons ETH_P_ARP" "handled api m lports fs x"
    by auto
  obtain t where t: "rtc_dispatch api m lports fs a s = Some t" "live t = (live s)(a := None)"
    using rtc_dispatch_live [OF x(1,4)] by blast
  have "\<forall>b \<in> set as. \<exists>x ty. live t b = Some x \<and> rd16 x 12 = Some ty \<and> ty \<noteq> htons ETH_P_ARP \<and> handled api m lports fs x"
    using Cons.prems t(2) by auto
  then obtain u where u: "rtc_loop api m lports fs as t = Some u"
    "live u = (\<lambda>b. if b \<in> set as then None else live t b)" using Cons.IH [of t] Cons.prems(1) by auto
  have "rtc_loop api m lports fs (a # as) s = Some u"
    using x(1-3) t(1) u(1) assms(1) by simp
  then show ?case using u(2) t(2) by auto
qed simp

lemma live_take_over: "live (take_over ms s) = (\<lambda>a. if a \<in> fst ` set ms then map_of (rev ms) a else live s a)"
proof (induction ms arbitrary: s)
  case (Cons m ms)
  obtain a x where m: "m = (a, x)" by (cases m)
  show ?case
  proof (rule ext)
    fix b
    have "b \<in> fst ` set ms \<longleftrightarrow> map_of (rev ms) b \<noteq> None" by (simp add: map_of_eq_None_iff)
    then show "live (take_over (m # ms) s) b = (if b \<in> fst ` set (m # ms) then map_of (rev (m # ms)) b else live s b)"
      using Cons.IH [of "mbuf_set a x s"] m by (auto simp: map_add_def split: option.splits)
  qed
qed simp

lemma rtc_burst_gone:
  assumes "\<not> fast_path_filtering m" "live s = (\<lambda>_. None)"
    "rte_eth_rx_burst api (rx_port fs) (rx_queue fs) nb_pkts (dp_dev s) = (ms, d)" "ms \<noteq> []" "distinct (map fst ms)"
    "\<And>a x. (a, x) \<in> set ms \<Longrightarrow> \<exists>ty. rd16 x 12 = Some ty \<and> ty \<noteq> htons ETH_P_ARP \<and> handled api m lports fs x"
  shows "\<exists>fs' t. run_to_completion api m lports rbs nb_pkts fs s = Some (True, fs', t) \<and>
    live t = (\<lambda>_. None) \<and> rx_packets fs' = rx_packets fs + of_nat (length ms)"
proof -
  obtain fs1 s1 where r: "common_fwd_stream_receive api rbs nb_pkts fs s = (map fst ms, fs1, s1)"
    and s1: "s1 = take_over ms (s\<lparr>dp_dev := d\<rparr>)" and fs1: "rx_packets fs1 = rx_packets fs + of_nat (length ms)" "rx_port fs1 = rx_port fs"
    using assms(3) by (simp add: common_fwd_stream_receive_def)
  let ?s = "s1\<lparr>dp_dev := rte_eth_tx_buffer_flush api (rx_port fs1) (rx_queue fs1) (dp_dev s1)\<rparr>"
  have h: "handled api m lports fs1 x = handled api m lports fs x" for x by (simp add: handled_def fs1(2))
  have "\<forall>a \<in> set (map fst ms). \<exists>x ty. live ?s a = Some x \<and> rd16 x 12 = Some ty \<and> ty \<noteq> htons ETH_P_ARP \<and> handled api m lports fs1 x"
  proof
    fix a assume "a \<in> set (map fst ms)"
    then obtain x where x: "(a, x) \<in> set ms" by auto
    then have "map_of (rev ms) a = Some x" using assms(5) by (simp add: rev_map [symmetric])
    then have "live ?s a = Some x" using x by (auto simp: s1 live_take_over image_iff)
    then show "\<exists>x ty. live ?s a = Some x \<and> rd16 x 12 = Some ty \<and> ty \<noteq> htons ETH_P_ARP \<and> handled api m lports fs1 x"
      using assms(6) [OF x] h by blast
  qed
  from rtc_loop_releases [OF assms(1,5) this] obtain t where t: "rtc_loop api m lports fs1 (map fst ms) ?s = Some t"
    "live t = (\<lambda>a. if a \<in> set (map fst ms) then None else live ?s a)" by blast
  have "live t = (\<lambda>_. None)" using t(2) assms(2) by (auto simp: s1 live_take_over fun_eq_iff)
  then show ?thesis using r t(1) assms(4) fs1(1) by (simp add: run_to_completion_def)
qed


text \<open>
  C38: with the port filter, every packet that is not ARP is used after it is freed: the filter gives
  it to the kernel whatever its protocol is, and goes on with it, so that no burst that starts with
  such a packet is handled without undefined behaviour.
\<close>

theorem rtc_filter_use_after_free:
  assumes "fast_path_filtering m" "live s a = Some x" "rd16 x 12 \<noteq> Some (htons ETH_P_ARP)"
  shows "rtc_loop api m lports fs (a # as) s = None"
proof -
  have one: "(p \<noteq> IPPROTO_UDP \<or> p \<noteq> IPPROTO_TCP) = True" for p :: u8 by auto
  have "rtc_filter api m a s = None"
  proof (rule ccontr)
    assume "rtc_filter api m a s \<noteq> None"
    then obtain u s1 y where "send_to_kernel api m a s1 = Some u" "live u a = Some y"
      unfolding rtc_filter_def one if_True by (auto simp: bind_eq_Some_conv)
    then show False using send_to_kernel_gone by fastforce
  qed
  with assms show ?thesis by (auto simp: bind_eq_None_conv)
qed

text \<open>
  an ARP packet that is not answered is used after it is freed: a request for another address,
  a reply and any other operation free the buffer and fall through to the packet handler.
\<close>

theorem rtc_arp_use_after_free:
  assumes "\<not> fast_path_filtering m" "live s a = Some x" "rd16 x 12 = Some (htons ETH_P_ARP)"
    "arp_handler m x (uint (rx_port fs)) = Some (v, out)" "v = KERNEL \<or> v = DROP"
  shows "rtc_loop api m lports fs (a # as) s = None"
proof -
  have "stop = False \<and> live t a = None" if "rtc_arp api m lports fs a s = Some (stop, t)" for stop t
    using that assms(2,4,5) by (auto simp: rtc_arp_def Let_def mbuf_free_def split: prod.splits option.splits if_splits)
  then show ?thesis using assms(1-3) by (auto simp: rtc_dispatch_def split: Option.bind_splits)
qed

section \<open>Transmission\<close>

lemma live_free_all: "live (free_all api ms s) = (\<lambda>a. if a \<in> set ms then None else live s a)"
  by (induction ms arbitrary: s) (auto simp: fun_eq_iff)

lemma dp_dev_only [simp]: "live (s\<lparr>dp_dev := d\<rparr>) = live s"
  by simp

definition tx_burst_ok :: "('d, 'z) dp_api_scheme \<Rightarrow> bool" where
  "tx_burst_ok api \<longleftrightarrow> (\<forall>p q ms d. fst (rte_eth_tx_burst api p q ms d) \<le> length ms)"

lemma tx_retry_bounds:
  assumes "tx_burst_ok api" "n \<le> length ms"
  shows "n \<le> fst (tx_retry api r fs ms n d) \<and> fst (tx_retry api r fs ms n d) \<le> length ms"
  using assms(2)
proof (induction r arbitrary: n d)
  case (Suc r)
  obtain k d' where k: "rte_eth_tx_burst api (tx_port fs) (tx_queue fs) (drop n ms) d = (k, d')" by fastforce
  then have "k \<le> length (drop n ms)" using assms(1) unfolding tx_burst_ok_def by (metis fst_conv)
  then have "n + k \<le> length ms" using Suc.prems by simp
  then show ?case using Suc.IH [of "n + k" d'] Suc.prems k by auto
qed simp


text \<open>What a ring promises the master: the number it reports is the number left, which goes down.\<close>

definition ring_drains :: "('d, 'z) dp_api_scheme \<Rightarrow> nat \<Rightarrow> ('d \<Rightarrow> nat) \<Rightarrow> bool" where
  "ring_drains api ring backlog \<longleftrightarrow>
     (\<forall>n d. case ring_dequeue_burst api ring n d of (_, available, d') \<Rightarrow>
        available = backlog d' \<and> (backlog d' < backlog d \<or> backlog d' = 0)) \<and>
     (\<forall>p q ms d. backlog (snd (rte_eth_tx_burst api p q ms d)) = backlog d) \<and>
     (\<forall>a d. backlog (rte_mbuf_raw_free api a d) = backlog d)"

lemma ring_drains_step:
  "ring_drains api ring backlog \<Longrightarrow> ring_dequeue_burst api ring n d = (ms, k, d') \<Longrightarrow>
    k = backlog d' \<and> (backlog d' < backlog d \<or> backlog d' = 0)"
  unfolding ring_drains_def by (fastforce split: prod.splits)

lemma free_all_dev:
  assumes "\<And>a d. f (rte_mbuf_raw_free api a d) = f d"
  shows "f (dp_dev (free_all api ms s)) = f (dp_dev s)"
  by (induction ms arbitrary: s) (auto simp: assms)

lemma tx_retry_dev:
  assumes "\<And>p q ms d. f (snd (rte_eth_tx_burst api p q ms d)) = f d"
  shows "f (snd (tx_retry api r fs ms n d)) = f d"
proof (induction r arbitrary: n d)
  case (Suc r)
  then show ?case using assms [of "tx_port fs" "tx_queue fs" "drop n ms" d]
    by (auto split: prod.splits)
qed simp

lemma transmit_dev:
  assumes "\<And>p q ms d. f (snd (rte_eth_tx_burst api p q ms d)) = f d" "\<And>a d. f (rte_mbuf_raw_free api a d) = f d"
  shows "f (dp_dev (snd (snd (common_fwd_stream_transmit api rbs retries ms fs s)))) = f (dp_dev s)"
proof -
  obtain n0 d0 where t: "rte_eth_tx_burst api (tx_port fs) (tx_queue fs) ms (dp_dev s) = (n0, d0)" by fastforce
  have d0: "f d0 = f (dp_dev s)" using assms(1) [of "tx_port fs" "tx_queue fs" ms "dp_dev s"] t by simp
  obtain n1 d1 where r: "(if n0 < length ms \<and> retry_enabled fs \<noteq> 0
      then tx_retry api (unat retries) fs ms n0 d0 else (n0, d0)) = (n1, d1)" by fastforce
  have "f d1 = f d0"
    using tx_retry_dev [of f api "unat retries" fs ms n0 d0, OF assms(1)] r by (auto split: if_splits)
  then show ?thesis using d0
    by (simp add: common_fwd_stream_transmit_def t r Let_def free_all_dev [of f, OF assms(2)])
qed

text \<open>
  when nothing else feeds the transmit ring, the master leaves its loop after at most as many
  rounds as packets are on the ring, and the ring is then empty.
\<close>

theorem master_drain_returns:
  assumes "ring_drains api ring backlog" "backlog (dp_dev s) \<le> fuel"
  shows "\<exists>fs' s'. master_drain (Suc fuel) api rbs retries nb_pkts ring fs s = Some (fs', s') \<and>
    backlog (dp_dev s') = 0"
  using assms(2)
proof (induction fuel arbitrary: fs s)
  case (0 fs s)
  obtain ms k d where r: "ring_dequeue_burst api ring nb_pkts (dp_dev s) = (ms, k, d)" by (metis prod_cases3)
  obtain n fs1 s1 where t: "common_fwd_stream_transmit api rbs retries ms fs (s\<lparr>dp_dev := d\<rparr>) = (n, fs1, s1)"
    by (metis prod_cases3)
  have "k = backlog d" "backlog d = 0" using ring_drains_step [OF assms(1) r] 0 by auto
  moreover have "backlog (dp_dev s1) = backlog d"
    using transmit_dev [of backlog api rbs retries ms fs "s\<lparr>dp_dev := d\<rparr>"] assms(1) t unfolding ring_drains_def by simp
  ultimately show ?case using r t by simp
next
  case (Suc fuel fs s)
  obtain ms k d where r: "ring_dequeue_burst api ring nb_pkts (dp_dev s) = (ms, k, d)" by (metis prod_cases3)
  obtain n fs1 s1 where t: "common_fwd_stream_transmit api rbs retries ms fs (s\<lparr>dp_dev := d\<rparr>) = (n, fs1, s1)"
    by (metis prod_cases3)
  have k: "k = backlog d" "backlog d < backlog (dp_dev s) \<or> backlog d = 0"
    using ring_drains_step [OF assms(1) r] by auto
  have b: "backlog (dp_dev s1) = backlog d"
    using transmit_dev [of backlog api rbs retries ms fs "s\<lparr>dp_dev := d\<rparr>"] assms(1) t unfolding ring_drains_def by simp
  show ?case
  proof (cases "k = 0")
    case True
    then show ?thesis using r t b k(1) by simp
  next
    case False
    then have "backlog (dp_dev s1) \<le> fuel" using k b Suc.prems by linarith
    then show ?thesis using Suc.IH [of s1 fs1] r t False by simp
  qed
qed

section \<open>Workers\<close>

text \<open>
  a worker that forwards two packets of a burst puts the first of them twice on the ring of the
  verdict, and never the second.
\<close>

theorem worker_enqueues_first:
  assumes "live s a = Some x" "live s b = Some y" "a \<noteq> b"
    "\<And>z. z \<in> {x, y} \<Longrightarrow> (\<exists>ty. get_ether_type z = Some ty \<and> ty \<noteq> PTYPE_L2_ETHER_ARP) \<and>
       (\<exists>p. get_packet_port_number z = Some p \<and> \<not> filter_packet (fastpath_ports m) p) \<and>
       processor api z lpid = Some (v, z)"
    "v \<noteq> KERNEL" "v \<noteq> DROP" "0 \<le> v" "nat v < nrings"
  shows "worker_burst api m nrings lpid a [a, b] s =
    Some (s\<lparr>dp_dev := ring_enqueue_bulk api (nat v) [a] (ring_enqueue_bulk api (nat v) [a] (dp_dev s))\<rparr>)"
proof -
  have one: "worker_packet api m nrings lpid a c s1 = Some (s1\<lparr>dp_dev := ring_enqueue_bulk api (nat v) [a] (dp_dev s1)\<rparr>)"
    if "live s1 c = Some z" "z \<in> {x, y}" for c z s1
  proof -
    have "mbuf_set c z s1 = s1" using that(1) by (simp add: mbuf_set_def fun_upd_idem)
    then show ?thesis using assms(4) [OF that(2)] that(1) assms(5-8)
      by (auto simp: worker_packet_def Let_def to_ring_def)
  qed
  show ?thesis using one [OF assms(1)] one [of "s\<lparr>dp_dev := ring_enqueue_bulk api (nat v) [a] (dp_dev s)\<rparr>" b y] assms(2) by simp
qed

section \<open>The kernel side\<close>

lemma tap_arp_step:
  assumes "rte_mbuf_raw_alloc api (dp_dev s) = (Some c, d)" "live s c = None" "lport < length lports"
  shows "send_single_packet_dpdk api lports data (int lport) s =
    Some (s\<lparr>dp_dev := rte_eth_tx_buffer_flush api (lports ! lport) 0
      (rte_eth_tx_buffer api (lports ! lport) 0 c data d)\<rparr>)"
proof -
  have "(live s)(c := None) = live s" using assms(2) by (simp add: fun_upd_idem)
  then show ?thesis using assms by (simp add: send_single_packet_dpdk_def mbuf_send_def mbuf_set_def)
qed

text \<open>What the transmit side shows: the packets buffered for a port, in order.\<close>

definition tx_log :: "('d, 'z) dp_api_scheme \<Rightarrow> ('d \<Rightarrow> (u16 \<times> u8 list) list) \<Rightarrow> bool" where
  "tx_log api sent \<longleftrightarrow>
     (\<forall>d. \<exists>c d'. rte_mbuf_raw_alloc api d = (Some c, d') \<and> sent d' = sent d) \<and>
     (\<forall>p q c x d. sent (rte_eth_tx_buffer api p q c x d) = sent d @ [(p, x)]) \<and>
     (\<forall>p q d. sent (rte_eth_tx_buffer_flush api p q d) = sent d)"

lemma send_single_sent:
  assumes "tx_log api sent" "live s = (\<lambda>_. None)" "lport < length lports"
  shows "\<exists>t. send_single_packet_dpdk api lports data (int lport) s = Some t \<and> live t = (\<lambda>_. None) \<and>
    sent (dp_dev t) = sent (dp_dev s) @ [(lports ! lport, data)]"
proof -
  obtain c d where c: "rte_mbuf_raw_alloc api (dp_dev s) = (Some c, d)" "sent d = sent (dp_dev s)"
    using assms(1) unfolding tx_log_def by blast
  have "live s c = None" using assms(2) by simp
  from tap_arp_step [OF c(1) this assms(3), of data] show ?thesis
    using assms(1,2) c(2) unfolding tx_log_def by simp
qed

text \<open>The frame with a hardware address as its source, in the Ethernet and in the ARP header.\<close>

definition arp_from :: "u8 list \<Rightarrow> u8 list \<Rightarrow> u8 list" where
  "arp_from mac b = take 6 b @ mac @ take 10 (drop 12 b) @ mac @ drop 28 b"

lemma arp_from_twice:
  assumes "length mac = 6" "length mac' = 6" "28 \<le> length b"
  shows "arp_from mac (arp_from mac' b) = arp_from mac b" "length (arp_from mac b) = length b"
  using assms by (simp_all add: arp_from_def)

lemma arp_from_wr:
  assumes "length mac = 6" "28 \<le> length b"
  shows "Option.bind (wr 22 mac b) (wr 6 mac) = Some (arp_from mac b)"
proof -
  have "take 10 (drop 12 b) = drop 12 (take 22 b)" by (simp add: drop_take)
  with assms show ?thesis by (simp add: wr_def arp_from_def)
qed

lemma tap_arp_sent:
  assumes "tx_log api sent" "live s = (\<lambda>_. None)" "k + length macs \<le> length lports"
    "\<forall>mac \<in> set macs. length mac = 6" "28 \<le> length b"
  shows "\<exists>b' t. tap_arp api lports macs k n b s = Some (b', t) \<and> live t = (\<lambda>_. None) \<and>
    sent (dp_dev t) = sent (dp_dev s) @
      map (\<lambda>(p, mac). (p, take n (arp_from mac b))) (zip (drop k lports) macs)"
  using assms(2-)
proof (induction macs arbitrary: k b s)
  case (Cons mac macs)
  have m: "length mac = 6" "k < length lports" using Cons.prems by auto
  obtain b1 where w: "wr 22 mac b = Some b1" "wr 6 mac b1 = Some (arp_from mac b)"
    using arp_from_wr [OF m(1) Cons.prems(4)] by (auto simp: bind_eq_Some_conv)
  obtain t where t: "send_single_packet_dpdk api lports (take n (arp_from mac b)) (int k) s = Some t"
    "live t = (\<lambda>_. None)" "sent (dp_dev t) = sent (dp_dev s) @ [(lports ! k, take n (arp_from mac b))]"
    using send_single_sent [OF assms(1) Cons.prems(1) m(2)] by blast
  have "28 \<le> length (arp_from mac b)" using Cons.prems(4) m(1) by (simp add: arp_from_def)
  then obtain b' u where u: "tap_arp api lports macs (Suc k) n (arp_from mac b) t = Some (b', u)" "live u = (\<lambda>_. None)"
    "sent (dp_dev u) = sent (dp_dev t) @
      map (\<lambda>(p, mac'). (p, take n (arp_from mac' (arp_from mac b)))) (zip (drop (Suc k) lports) macs)"
    using Cons.IH [OF t(2), of "Suc k" "arp_from mac b"] Cons.prems by auto
  have "arp_from mac' (arp_from mac b) = arp_from mac' b" if "mac' \<in> set macs" for mac'
    using arp_from_twice(1) [of mac' mac b] that Cons.prems(3,4) m(1) by simp
  then have "map (\<lambda>(p, mac'). (p, take n (arp_from mac' (arp_from mac b)))) (zip (drop (Suc k) lports) macs) =
      map (\<lambda>(p, mac'). (p, take n (arp_from mac' b))) (zip (drop (Suc k) lports) macs)"
    by (auto dest: set_zip_rightD)
  moreover have "drop k lports = lports ! k # drop (Suc k) lports" using m(2) by (simp add: Cons_nth_drop_Suc)
  ultimately show ?case using w t u by simp
qed simp

text \<open>
  an ARP packet of the kernel leaves through every logical port, in order and once, with the
  hardware address of the port as the source in its Ethernet and ARP headers and everything else as
  the kernel wrote it.
\<close>

theorem tap_arp_broadcast:
  assumes "tx_log api sent" "live s = (\<lambda>_. None)" "length (lport_mac m) \<le> length lports"
    "\<forall>mac \<in> set (lport_mac m). length mac = 6"
    "28 \<le> length pkt" "length pkt \<le> length buffer" "rd16 pkt 12 = Some (htons ETH_P_ARP)"
  shows "\<exists>b t. tap_packet api m lports pkt buffer s = Some (b, t) \<and> live t = (\<lambda>_. None) \<and>
    sent (dp_dev t) = sent (dp_dev s) @ map (\<lambda>(p, mac). (p, arp_from mac pkt)) (zip lports (lport_mac m))"
proof -
  let ?b = "pkt @ drop (length pkt) buffer"
  have w: "wr 0 pkt buffer = Some ?b" using assms(6) by (simp add: wr_def)
  have "rd16 ?b 12 = rd16 pkt 12" using assms(5) by (simp add: rd16_def nth_append)
  then have ty: "get_ether_type ?b = Some PTYPE_L2_ETHER_ARP" using assms(7) by (simp add: get_ether_type_def)
  obtain b t where t: "tap_arp api lports (lport_mac m) 0 (length pkt) ?b s = Some (b, t)" "live t = (\<lambda>_. None)"
    "sent (dp_dev t) = sent (dp_dev s) @
      map (\<lambda>(p, mac). (p, take (length pkt) (arp_from mac ?b))) (zip lports (lport_mac m))"
    using tap_arp_sent [OF assms(1,2), of 0 "lport_mac m" lports ?b "length pkt"] assms(3-5) by auto
  have "take (length pkt) (arp_from mac ?b) = arp_from mac pkt" if "mac \<in> set (lport_mac m)" for mac
    using that assms(4,5) by (simp add: arp_from_def)
  then have "map (\<lambda>(p, mac). (p, take (length pkt) (arp_from mac ?b))) (zip lports (lport_mac m)) =
      map (\<lambda>(p, mac). (p, arp_from mac pkt)) (zip lports (lport_mac m))"
    by (auto dest: set_zip_rightD)
  with t w ty show ?thesis by (simp add: tap_packet_def)
qed

end
