(* ===== verification/DataWitnesses.thy ===== *)
theory DataWitnesses
  imports FwdWitnesses UpfGtp Datapath
begin

text \<open>
  Concrete packets and devices: the properties of the packet classification, the user plane
  application and the packet loops applied to them.  The packet buffer is the one of the packet
  libraries, bytes with an offset; the card keeps what it is given in lists.
\<close>

section \<open>A packet buffer\<close>

text \<open>A buffer of fixed size with the offset of the data in it, as the packet libraries keep it.\<close>

definition buf :: "u8 list \<times> nat \<Rightarrow> u8 list" where
  "buf p = take 2176 (fst p)"

definition buf_off :: "u8 list \<times> nat \<Rightarrow> nat" where
  "buf_off p = min (snd p) (length (buf p))"

definition sim_callbacks :: "(u8 list \<times> nat) callbacks" where
  "sim_callbacks = \<lparr>GetData = (\<lambda>p. drop (buf_off p) (buf p)),
     SetData = (\<lambda>bs p. (take (buf_off p) (buf p) @ bs, buf_off p)),
     GetHeadRoom = (\<lambda>p. of_nat (buf_off p)),
     GetDataLength = (\<lambda>p. of_nat (length (buf p) - buf_off p)),
     PrependData = (\<lambda>p n. if unat n \<le> buf_off p then Some (buf p, buf_off p - unat n) else None),
     AdjustOffset = (\<lambda>p n. if unat n \<le> length (buf p) - buf_off p then Some (buf p, buf_off p + unat n) else None)\<rparr>"

lemma buf_bounds: "length (buf p) \<le> 2176" "buf_off p \<le> length (buf p)" "buf_off p \<le> 2176"
  by (auto simp: buf_def buf_off_def)

lemma buf_room: "unat (of_nat (buf_off p) :: u16) = buf_off p"
  "unat (of_nat (length (buf p) - buf_off p) :: u16) = length (buf p) - buf_off p"
proof -
  have "buf_off p < 2 ^ 16" "length (buf p) - buf_off p < 2 ^ 16" using buf_bounds [of p] by simp_all
  then show "unat (of_nat (buf_off p) :: u16) = buf_off p"
    "unat (of_nat (length (buf p) - buf_off p) :: u16) = length (buf p) - buf_off p"
    by (simp_all only: unat_of_nat_u16)
qed

lemma buf_again: "k \<le> length (buf p) \<Longrightarrow> buf (buf p, k) = buf p \<and> buf_off (buf p, k) = k"
  by (simp add: buf_def buf_off_def)

lemma buf_stored:
  assumes "length bs = length (buf p) - buf_off p"
  shows "buf (take (buf_off p) (buf p) @ bs, buf_off p) = take (buf_off p) (buf p) @ bs \<and>
    buf_off (take (buf_off p) (buf p) @ bs, buf_off p) = buf_off p"
proof -
  let ?b = "take (buf_off p) (buf p) @ bs"
  have len: "length ?b = length (buf p)" using assms buf_bounds [of p] by simp
  then have "buf (?b, buf_off p) = ?b" using buf_bounds [of p] unfolding buf_def fst_conv by (metis take_all)
  then show ?thesis using len buf_bounds [of p] unfolding buf_off_def [of "(?b, _)"] by simp
qed

lemma sim_packet_laws: "packet_laws sim_callbacks"
proof -
  have pre: "\<exists>q room. PrependData sim_callbacks p n = Some q \<and> length room = unat n \<and>
      GetData sim_callbacks q = room @ GetData sim_callbacks p \<and>
      GetHeadRoom sim_callbacks q = GetHeadRoom sim_callbacks p - n" if "n \<le> GetHeadRoom sim_callbacks p" for p n
  proof -
    have n: "unat n \<le> buf_off p" using that by (simp add: sim_callbacks_def word_le_nat_alt buf_room)
    let ?k = "buf_off p - unat n" and ?room = "take (unat n) (drop (buf_off p - unat n) (buf p))"
    have k: "buf (buf p, ?k) = buf p" "buf_off (buf p, ?k) = ?k" using buf_again [of ?k p] buf_bounds [of p] by auto
    have "drop ?k (buf p) = ?room @ drop (buf_off p) (buf p)"
      using n by (metis append_take_drop_id drop_drop le_add_diff_inverse2 add.commute)
    moreover have "length ?room = unat n" using n buf_bounds [of p] by simp
    moreover have "(of_nat ?k :: u16) = of_nat (buf_off p) - n" using n by simp
    moreover have "PrependData sim_callbacks p n = Some (buf p, ?k)" using n by (simp add: sim_callbacks_def)
    ultimately show ?thesis
      by (intro exI [of _ "(buf p, ?k)"] exI [of _ ?room]) (simp_all add: sim_callbacks_def k)
  qed
  show ?thesis unfolding packet_laws_def
  proof (intro conjI allI impI)
    fix p show "length (GetData sim_callbacks p) = unat (GetDataLength sim_callbacks p)"
      by (simp add: sim_callbacks_def buf_room)
  next
    fix p and bs :: "u8 list" assume "length bs = length (GetData sim_callbacks p)"
    then have "length bs = length (buf p) - buf_off p" by (simp add: sim_callbacks_def)
    note s = buf_stored [OF this]
    show "GetData sim_callbacks (SetData sim_callbacks bs p) = bs" "GetHeadRoom sim_callbacks (SetData sim_callbacks bs p) = GetHeadRoom sim_callbacks p"
      using s buf_bounds [of p] by (simp_all add: sim_callbacks_def)
  next
    fix p n show "GetHeadRoom sim_callbacks p < n \<Longrightarrow> PrependData sim_callbacks p n = None"
      by (simp add: sim_callbacks_def word_less_nat_alt buf_room)
  next
    fix p and n :: u16 assume "unat n \<le> length (GetData sim_callbacks p)"
    then have n: "unat n \<le> length (buf p) - buf_off p" by (simp add: sim_callbacks_def)
    then have "buf_off p + unat n \<le> length (buf p)" using buf_bounds [of p] by simp
    then show "\<exists>q. AdjustOffset sim_callbacks p n = Some q \<and> GetData sim_callbacks q = drop (unat n) (GetData sim_callbacks p)"
      using n buf_again [of "buf_off p + unat n" p] by (simp add: sim_callbacks_def add.commute)
  next
    fix p n show "length (GetData sim_callbacks p) < unat n \<Longrightarrow> AdjustOffset sim_callbacks p n = None"
      by (simp add: sim_callbacks_def)
  qed (rule pre)
qed

section \<open>Frames of a user plane\<close>

definition mac_a :: ether_addr where "mac_a = [2, 0, 0, 0, 0, 1]"
definition mac_b :: ether_addr where "mac_b = [2, 0, 0, 0, 0, 2]"

text \<open>A UDP packet with its destination port in network byte order and its destination address.\<close>

definition udp_frame :: "u8 \<Rightarrow> u8 \<Rightarrow> u8 list \<Rightarrow> u8 list" where
  "udp_frame hi lo payload = mac_a @ mac_b @ [8, 0] @
     [0x45, 0, 0, 60, 0, 0, 0, 0, 64, 17, 0, 0, 10, 0, 0, 9, 10, 0, 0, 1] @ [4, 0, hi, lo, 0, 8, 0, 0] @ payload"

text \<open>A GTP payload: the header with a session container, and an inner IP packet.\<close>

definition gtp_payload :: "u8 list" where
  "gtp_payload = [0x34, 255, 0, 36] @ [0, 0, 0, 7] @ [0, 0, 0, 0x85] @ [1, 0x10, 5, 0] @
     [0x45, 0, 0, 20, 0, 0, 0, 0, 64, 17, 0, 0, 10, 0, 0, 1, 10, 0, 0, 9]"

definition sim_app :: app_info where
  "sim_app = \<lparr>ran_ip = 0, dnn_ip = 0, ran_mac = mac_a, dnn_mac = mac_b, upf_ran_mac = mac_b, upf_dnn_mac = mac_a\<rparr>"

definition sim_pdr :: "u8 \<Rightarrow> pdr_value" where
  "sim_pdr act = \<lparr>SEID = 1, pdrMask = 1, farMask = 1, ohc_teid = 7, applyAction = act, destIface = 1\<rparr>"

definition sim_dl :: "u8 \<Rightarrow> (pdi_info_downlink \<times> pdr_value) list" where
  "sim_dl act = [(\<lparr>dl_srcIface = 1, dl_ueDestIpAddr = 0x0A000001\<rparr>, sim_pdr act)]"

definition sim_ul :: "(pdi_info_uplink \<times> pdr_value) list" where
  "sim_ul = [(\<lparr>ul_srcIface = 0, ul_ueIpAddr = 0x0A000001, ul_teid = 7, ul_qfi = 5\<rparr>, sim_pdr PFCP_FORW)]"

definition sim_packet :: "u8 list \<Rightarrow> u8 list \<times> nat" where
  "sim_packet frame = (replicate 128 0 @ frame, 128)"

lemmas sim_frames = mac_a_def mac_b_def udp_frame_def gtp_payload_def

lemma sim_packet_data: "length frame \<le> 2048 \<Longrightarrow>
  GetData sim_callbacks (sim_packet frame) = frame \<and> GetHeadRoom sim_callbacks (sim_packet frame) = 128"
  by (simp add: sim_callbacks_def sim_packet_def buf_def buf_off_def)

lemma udp_frame_data: "length payload \<le> 100 \<Longrightarrow>
  GetData sim_callbacks (sim_packet (udp_frame hi lo payload)) = udp_frame hi lo payload \<and>
  GetHeadRoom sim_callbacks (sim_packet (udp_frame hi lo payload)) = 128"
  by (rule sim_packet_data) (simp add: sim_frames)

lemma udp_frame_type:
  "get_packet_type (udp_frame hi lo payload) no_lens =
     Some (if le16 hi lo = htons GTP_PORT then PTYPE_5G_GTP
           else if le16 hi lo = htons PFCP_PORT then PTYPE_5G_PFCP else PTYPE_L4_UDP,
           \<lparr>l2_len = Some 14, l3_len = Some 20, l4_len = Some 8\<rparr>)"
proof -
  have "unat (ipv4_hdr_len 0x45) = 20" by (simp add: ipv4_hdr_len_def ip_ihl_def)
  moreover have "rd16 (udp_frame hi lo payload) 12 = Some (htons ETH_P_IP)" "rd8 (udp_frame hi lo payload) 14 = Some 0x45"
    "rd8 (udp_frame hi lo payload) 23 = Some IPPROTO_UDP" "rd16 (udp_frame hi lo payload) 36 = Some (le16 hi lo)"
    by (simp_all add: sim_frames rd16_def rd8_def htons_def le16_def)
  moreover have "htons ETH_P_IP \<noteq> htons ETH_P_ARP" by (simp add: htons_def le16_def)
  ultimately show ?thesis by (simp add: get_packet_type_def l4_type_def ptype_l4_def Let_def)
qed

lemma udp_frame_daddr: "rd32 (udp_frame hi lo payload) 30 = Some (le32 10 0 0 1)"
  by (simp add: sim_frames rd32_def)

lemma sim_addr: "htonl (le32 10 0 0 1) = 0x0A000001" "htonl (le32 0 0 0 7) = 7"
  by (simp_all add: htonl_def le32_def)

lemma sim_ports: "le16 0 80 \<noteq> htons GTP_PORT" "le16 0 80 \<noteq> htons PFCP_PORT" "le16 8 0x68 = htons GTP_PORT"
  "le16 0x22 0x65 = htons PFCP_PORT" "le16 0x22 0x65 \<noteq> htons GTP_PORT"
  by (simp_all add: htons_def le16_def)

lemma sim_dl_find: "map_of (sim_dl act) \<lparr>dl_srcIface = 1, dl_ueDestIpAddr = htonl (le32 10 0 0 1)\<rparr> = Some (sim_pdr act)"
  unfolding sim_addr by (simp add: sim_dl_def)


theorem downlink_forwarded_witness:
  "\<exists>q. packet_processor sim_callbacks (sim_dl PFCP_FORW) [] (sim_packet (udp_frame 0 80 [1, 2])) 0 (Some sim_app) =
     Some (1, q) \<and> drop 58 (GetData sim_callbacks q) = udp_frame 0 80 [1, 2]"
proof -
  note d = udp_frame_data [of "[1, 2]" 0 80]
  obtain q r1 r2 r4 where q: "packet_processor sim_callbacks (sim_dl PFCP_FORW) [] (sim_packet (udp_frame 0 80 [1, 2])) 0 (Some sim_app) =
      Some (xor 0 1, q)" "length r1 = 4" "length r2 = 12" "length r4 = 20"
    "GetData sim_callbacks q = tunnel_headers sim_app (sim_pdr PFCP_FORW) (length (udp_frame 0 80 [1, 2])) r1 r2 r4 @ udp_frame 0 80 [1, 2]"
    using downlink_forwarded [OF sim_packet_laws, where p = "sim_packet (udp_frame 0 80 [1, 2])" and app = sim_app
      and daddr = "le32 10 0 0 1" and dl = "sim_dl PFCP_FORW" and v = "sim_pdr PFCP_FORW" and ul = "[]" and recv = 0] d udp_frame_type [of 0 80 "[1, 2]"] sim_ports udp_frame_daddr sim_dl_find
    by (fastforce simp: sim_app_def mac_a_def mac_b_def apply_action_def sim_pdr_def)
  have "length (tunnel_headers sim_app (sim_pdr PFCP_FORW) (length (udp_frame 0 80 [1, 2])) r1 r2 r4) = 58"
    by (simp add: tunnel_headers_def eth_hdr_bytes sim_app_def mac_a_def mac_b_def)
  with q show ?thesis by simp
qed

theorem uplink_forwarded_witness:
  "\<exists>q. packet_processor sim_callbacks [] sim_ul (sim_packet (udp_frame 8 0x68 gtp_payload)) 1 (Some sim_app) = Some (0, q) \<and>
    GetData sim_callbacks q = mac_b @ mac_a @ [8, 0] @ drop 16 gtp_payload"
proof -
  note d = udp_frame_data [of gtp_payload 8 "0x68"]
  have len: "length gtp_payload \<le> 100" by (simp add: gtp_payload_def)
  let ?f = "udp_frame 8 0x68 gtp_payload"
  have ty: "get_packet_type ?f no_lens = Some (PTYPE_5G_GTP, \<lparr>l2_len = Some 14, l3_len = Some 20, l4_len = Some 8\<rparr>)"
    by (simp add: udp_frame_type sim_ports)
  have pg: "parse_gtphdr ?f (22 + 20) = Some (16, True, Some 54)"
    by (simp add: parse_gtphdr_def sim_frames rd8_def)
  have rd: "rd32 ?f (22 + 20 + nat 16 + 12) = Some (le32 10 0 0 1)" "rd32 ?f (22 + 20 + 4) = Some (le32 0 0 0 7)"
    "(case Some 54 of None \<Rightarrow> Some 0 | Some e \<Rightarrow> map_option (\<lambda>b. and b 0x3F) (rd8 ?f (e + 2))) = Some 5"
    by (simp_all add: sim_frames rd32_def rd8_def)
  have ul: "map_of sim_ul \<lparr>ul_srcIface = 0, ul_ueIpAddr = htonl (le32 10 0 0 1), ul_teid = htonl (le32 0 0 0 7), ul_qfi = 5\<rparr> =
      Some (sim_pdr PFCP_FORW)" unfolding sim_addr by (simp add: sim_ul_def)
  have app: "length (dnn_mac sim_app) = 6" "length (upf_dnn_mac sim_app) = 6"
    "apply_action (sim_pdr PFCP_FORW) = PFCP_FORW" "and (pdrMask (sim_pdr PFCP_FORW)) 1 \<noteq> 0"
    by (simp_all add: sim_app_def mac_a_def mac_b_def apply_action_def sim_pdr_def)
  note D = conjunct1 [OF d [OF len]]
  from uplink_forwarded [OF sim_packet_laws app(1,2), of "sim_packet ?f" _ 20 16 "Some 54" "le32 10 0 0 1" "le32 0 0 0 7" 5
      sim_ul "sim_pdr PFCP_FORW" "[]" 1, unfolded D, OF ty _ pg rd ul app(3,4)]
  have "\<exists>q. packet_processor sim_callbacks [] sim_ul (sim_packet ?f) 1 (Some sim_app) = Some (xor 1 1, q) \<and>
      GetData sim_callbacks q = dnn_mac sim_app @ upf_dnn_mac sim_app @ [8, 0] @ drop (22 + 20 + nat 16) ?f" by simp
  moreover have "drop (22 + 20 + nat 16) ?f = drop 16 gtp_payload" by (simp add: sim_frames)
  ultimately show ?thesis by (simp add: sim_app_def)
qed

theorem tunnel_headers_witness:
  "\<exists>h. get_packet_type (tunnel_headers sim_app (sim_pdr PFCP_FORW) 4 [0, 0, 0, 0] [] [] @ [1, 2, 3, 4]) no_lens =
     Some (PTYPE_L4_UDP, h)"
  by (rule tunnel_headers_not_gtp) (simp_all add: sim_app_def mac_a_def mac_b_def)

theorem drop_rule_witness:
  "packet_processor sim_callbacks (sim_dl PFCP_DROP) [] (sim_packet (udp_frame 0 80 [])) 0 (Some sim_app) =
     Some (1, sim_packet (udp_frame 0 80 []))"
  using drop_rule_forwards [where cb = sim_callbacks and p = "sim_packet (udp_frame 0 80 [])" and daddr = "le32 10 0 0 1"
      and dl = "sim_dl PFCP_DROP" and v = "sim_pdr PFCP_DROP" and ul = "[]" and recv = 0 and app = sim_app]
    udp_frame_data [of "[]" 0 80] udp_frame_type [of 0 80 "[]"] sim_ports udp_frame_daddr sim_dl_find
  by (simp add: sim_pdr_def)

theorem pfcp_dropped_witness:
  "packet_processor sim_callbacks [] [] (sim_packet (udp_frame 0x22 0x65 [])) 0 (Some sim_app) =
     Some (DROP, sim_packet (udp_frame 0x22 0x65 []))"
  using pfcp_dropped [of sim_callbacks "sim_packet (udp_frame 0x22 0x65 [])"] udp_frame_data [of "[]" "0x22" "0x65"]
    udp_frame_type [of "0x22" "0x65" "[]"] sim_ports by simp

section \<open>The ARP responder\<close>

definition sim_dpm :: dpm where
  "sim_dpm = \<lparr>tap_ip_addr = le32 10 0 0 1, tap_mac_addr = mac_a, lport_mac = [mac_a, mac_b],
     fast_path_filtering = False, fastpath_ports = [80]\<rparr>"

definition arp_frame :: "u8 \<Rightarrow> u8 list" where
  "arp_frame op = [255, 255, 255, 255, 255, 255] @ mac_b @ [8, 6] @ [0, 1, 8, 0, 6, 4, 0, op] @ mac_b @ [10, 0, 0, 9] @
     [0, 0, 0, 0, 0, 0] @ [10, 0, 0, 1]"

theorem arp_request_answered_witness:
  "arp_handler sim_dpm (arp_frame 1) 1 =
     Some (1, mac_b @ mac_b @ [8, 6] @ [0, 1, 8, 0, 6, 4, 0, 2] @ mac_b @ [10, 0, 0, 1] @ mac_b @ [10, 0, 0, 9])"
  using arp_request_answered [of "[255, 255, 255, 255, 255, 255]" mac_b mac_b "[0, 0, 0, 0, 0, 0]" mac_b "[10, 0, 0, 9]" 10 0 0 9
      "[10, 0, 0, 1]" 10 0 0 1 sim_dpm 1 "[]"]
  by (simp add: sim_dpm_def arp_frame_def mac_b_def)

section \<open>A card\<close>

record sim_nic =
  nic_rx :: "(nat \<times> u8 list) list"
  nic_tx :: "(u16 \<times> u8 list) list"
  nic_ring :: "nat list"
  nic_next :: nat

text \<open>The card takes one packet of every burst; the rings of workers share one list.\<close>

definition sim_dp_api :: "(u8 list \<Rightarrow> int \<Rightarrow> (int \<times> u8 list) option) \<Rightarrow> sim_nic dp_api" where
  "sim_dp_api handler = \<lparr>
     rte_eth_rx_burst = (\<lambda>p q n d. (take (unat n) (nic_rx d), d\<lparr>nic_rx := drop (unat n) (nic_rx d)\<rparr>)),
     rte_eth_tx_burst = (\<lambda>p q ms d. (min 1 (length ms), d)),
     rte_eth_tx_buffer = (\<lambda>p q c x d. d\<lparr>nic_tx := nic_tx d @ [(p, x)]\<rparr>),
     rte_eth_tx_buffer_flush = (\<lambda>p q d. d),
     rte_mbuf_raw_free = (\<lambda>a d. d),
     tap_write = (\<lambda>x d. (int (length x), d)),
     ring_enqueue_bulk = (\<lambda>r ms d. d\<lparr>nic_ring := nic_ring d @ ms\<rparr>),
     ring_dequeue_burst = (\<lambda>r n d. (take 1 (nic_ring d), length (nic_ring d) - 1, d\<lparr>nic_ring := drop 1 (nic_ring d)\<rparr>)),
     ring_dequeue_bulk = (\<lambda>r n d. (nic_ring d, d\<lparr>nic_ring := []\<rparr>)),
     rte_mbuf_raw_alloc = (\<lambda>d. (Some (nic_next d), d\<lparr>nic_next := Suc (nic_next d)\<rparr>)),
     tap_processor = (\<lambda>x n. (0, x)),
     processor = handler\<rparr>"

text \<open>The user plane application as the packet handler.\<close>

definition upf_handler :: "u8 list \<Rightarrow> int \<Rightarrow> (int \<times> u8 list) option" where
  "upf_handler x port = map_option (\<lambda>(v, q). (v, GetData sim_callbacks q))
     (packet_processor sim_callbacks (sim_dl PFCP_DROP) [] (sim_packet x) port (Some sim_app))"

definition sim_stream :: fwd_stream where
  "sim_stream = \<lparr>rx_port = 0, rx_queue = 0, tx_port = 1, tx_queue = 0, peer_addr = 0, disabled = False,
     retry_enabled = 1, rx_packets = 0, tx_packets = 0, fwd_dropped = 0, rx_bad_ip_csum = 0, rx_bad_l4_csum = 0,
     rx_bad_outer_l4_csum = 0, rx_bad_outer_ip_csum = 0, busy_cycles = 0, rx_burst_spread = replicate 513 0,
     tx_burst_spread = replicate 513 0, fs_lcore = None\<rparr>"

definition sim_dp :: "(nat \<times> u8 list) list \<Rightarrow> sim_nic dp" where
  "sim_dp rx = \<lparr>live = (\<lambda>_. None), dp_dev = \<lparr>nic_rx = rx, nic_tx = [], nic_ring = [], nic_next = 100\<rparr>\<rparr>"

lemma upf_handler_drop_rule: "upf_handler (udp_frame 0 80 []) 0 = Some (1, udp_frame 0 80 [])"
  using udp_frame_data [of "[]" 0 80] udp_frame_type [of 0 80 "[]"] sim_ports udp_frame_daddr sim_dl_find
  by (simp add: upf_handler_def packet_processor_def downlink_packet_def rule_find apply_action_def sim_pdr_def)

lemma udp_frame_ethertype: "rd16 (udp_frame hi lo payload) 12 = Some (htons ETH_P_IP)" "htons ETH_P_IP \<noteq> htons ETH_P_ARP"
  by (simp_all add: sim_frames rd16_def htons_def le16_def)


definition busy_dp :: "u8 list \<Rightarrow> u8 list \<Rightarrow> sim_nic dp" where
  "busy_dp x y = (sim_dp [])\<lparr>live := [0 \<mapsto> x, 1 \<mapsto> y]\<rparr>"

theorem rtc_filter_witness:
  "rtc_loop (sim_dp_api upf_handler) (sim_dpm\<lparr>fast_path_filtering := True\<rparr>) [0, 1] sim_stream [0]
     (busy_dp (udp_frame 0 80 []) []) = None"
  by (rule rtc_filter_use_after_free [where x = "udp_frame 0 80 []"])
    (use udp_frame_ethertype in \<open>simp_all add: busy_dp_def\<close>)

theorem rtc_arp_witness:
  "rtc_loop (sim_dp_api upf_handler) sim_dpm [0, 1] sim_stream [0] (busy_dp (arp_frame 3) []) = None"
proof -
  have "arp_handler sim_dpm (arp_frame 3) (uint (rx_port sim_stream)) = Some (DROP, arp_frame 3)"
    by (simp add: sim_stream_def arp_handler_def sim_dpm_def arp_frame_def sim_frames rd16_def rd32_def rdn_def htons_def le16_def)
  then show ?thesis
    by (intro rtc_arp_use_after_free [where x = "arp_frame 3" and v = DROP and out = "arp_frame 3"])
      (simp_all add: sim_dpm_def busy_dp_def arp_frame_def sim_frames rd16_def htons_def le16_def)
qed


theorem master_drain_witness:
  "\<exists>fs' t. master_drain 4 (sim_dp_api upf_handler) False 1 32 0 sim_stream
      ((sim_dp [])\<lparr>dp_dev := \<lparr>nic_rx = [], nic_tx = [], nic_ring = [4, 5, 6], nic_next = 0\<rparr>\<rparr>) = Some (fs', t) \<and>
    nic_ring (dp_dev t) = []"
proof -
  have "ring_drains (sim_dp_api upf_handler) 0 (\<lambda>d. length (nic_ring d))"
    by (auto simp: ring_drains_def sim_dp_api_def)
  from master_drain_returns [OF this, of "(sim_dp [])\<lparr>dp_dev := \<lparr>nic_rx = [], nic_tx = [], nic_ring = [4, 5, 6], nic_next = 0\<rparr>\<rparr>" 3
      False 1 32 sim_stream] show ?thesis by (simp add: eval_nat_numeral)
qed

theorem worker_enqueues_first_witness:
  "\<exists>t. worker_burst (sim_dp_api (\<lambda>x port. Some (0, x))) sim_dpm 2 0 0 [0, 1] (busy_dp (udp_frame 0 80 [1]) (udp_frame 0 80 [2])) = Some t \<and>
    nic_ring (dp_dev t) = [0, 0]"
proof -
  let ?api = "sim_dp_api (\<lambda>x port. Some (0, x))"
  have u: "unat (ipv4_hdr_len 0x45) = 20" by (simp add: ipv4_hdr_len_def ip_ihl_def)
  have z: "\<exists>ty. get_ether_type (udp_frame 0 80 [k]) = Some ty \<and> ty \<noteq> PTYPE_L2_ETHER_ARP"
    "get_packet_port_number (udp_frame 0 80 [k]) = Some 80" "\<not> filter_packet (fastpath_ports sim_dpm) 80" for k
    by (simp_all add: get_ether_type_def get_packet_port_number_def filter_packet_def sim_dpm_def sim_frames rd16_def rd8_def
        htons_def le16_def ptype_l4_def u)
  have "worker_burst ?api sim_dpm 2 0 0 [0, 1] (busy_dp (udp_frame 0 80 [1]) (udp_frame 0 80 [2])) =
    Some ((busy_dp (udp_frame 0 80 [1]) (udp_frame 0 80 [2]))\<lparr>dp_dev :=
      ring_enqueue_bulk ?api (nat 0) [0] (ring_enqueue_bulk ?api (nat 0) [0] (dp_dev (busy_dp (udp_frame 0 80 [1]) (udp_frame 0 80 [2]))))\<rparr>)"
    by (rule worker_enqueues_first [where x = "udp_frame 0 80 [1]" and y = "udp_frame 0 80 [2]"])
      (use z in \<open>auto simp: busy_dp_def sim_dp_api_def\<close>)
  then show ?thesis by (simp add: sim_dp_api_def busy_dp_def sim_dp_def)
qed

theorem tap_arp_broadcast_witness:
  "\<exists>b t. tap_packet (sim_dp_api upf_handler) sim_dpm [0, 1] (arp_frame 1) (replicate 2048 0) (sim_dp []) = Some (b, t) \<and>
    map fst (nic_tx (dp_dev t)) = [0, 1]"
proof -
  have log: "tx_log (sim_dp_api upf_handler) nic_tx" by (auto simp: tx_log_def sim_dp_api_def)
  have "\<exists>b t. tap_packet (sim_dp_api upf_handler) sim_dpm [0, 1] (arp_frame 1) (replicate 2048 0) (sim_dp []) = Some (b, t) \<and>
      live t = (\<lambda>_. None) \<and> nic_tx (dp_dev t) = nic_tx (dp_dev (sim_dp [])) @
        map (\<lambda>(p, mac). (p, arp_from mac (arp_frame 1))) (zip [0, 1] (lport_mac sim_dpm))"
    by (rule tap_arp_broadcast [OF log])
      (auto simp: sim_dp_def sim_dpm_def sim_frames arp_frame_def rd16_def htons_def le16_def)
  then show ?thesis by (auto simp: sim_dp_def sim_dpm_def)
qed

end
