(* ===== verification/PortQueues.thy ===== *)
theory PortQueues
  imports FlowRules FwdConfig
begin

text \<open>
  The queues of a port (\<^verbatim>\<open>rx_queue_setup\<close>, \<^verbatim>\<open>setup_hairpin_queues\<close>, \<^verbatim>\<open>update_queue_state\<close> of
  \<^verbatim>\<open>dpdk.cpp\<close>, the dump callbacks of \<^verbatim>\<open>config.c\<close>): how they are configured on the device and what the
  port records of them.  The globals that only options set are the record \<open>ctl\<close>; the numbers of queues
  and the NUMA switch are those of the forwarding configuration.
\<close>

section \<open>Interfaces\<close>

record ctl =
  max_ethports :: u16
  proc_primary :: bool
  nb_hairpinq :: u16
  nb_rxd :: u16
  nb_txd :: u16
  hairpin_mode :: u32
  flow_isolate_all :: bool
  no_flow_flush :: bool
  no_link_check :: bool
  lsc_interrupt :: bool
  clear_ptypes :: bool
  verbose_level :: u16
  txring_numa :: "u8 list"
  rxring_numa :: "u8 list"
  mbuf_data_sizes :: "u16 list"
  mbuf_data_size_n :: u32
  multi_rx_mempool :: bool
  rx_pkt_nb_segs :: u8
  rx_pkt_seg_lengths :: "u16 list"
  rx_pkt_nb_offs :: u8
  rx_pkt_seg_offsets :: "u16 list"
  rx_pkt_hdr_protos :: "u32 list"
  xstats_display :: "string list"

text \<open>Where the packets of a receive queue go: segments of a split packet, several pools, one pool.\<close>

record rxseg =
  seg_offset :: u16
  seg_mp :: handle
  seg_length :: u16
  seg_proto_hdr :: u32

datatype rx_pools = RxSplit "rxseg list" | RxMempools "handle list" | RxPool handle

record rte_eth_hairpin_conf =
  hp_peer_port :: u16
  hp_peer_queue :: u16
  hp_manual_bind :: bool
  hp_tx_explicit :: bool
  hp_force_memory :: bool
  hp_use_locked_device_memory :: bool
  hp_use_rte_memory :: bool

record 'd port_api = "'d flow_api" +
  rte_eth_dev_queues :: "u16 \<Rightarrow> 'd \<Rightarrow> int \<times> u16 \<times> u16 \<times> 'd"
  rte_eth_max_rx_mempools :: "u16 \<Rightarrow> 'd \<Rightarrow> int \<times> u32 \<times> 'd"
  rte_eth_add_rx_callback :: "u16 \<Rightarrow> nat \<Rightarrow> 'd \<Rightarrow> handle \<times> 'd"
  rte_eth_add_tx_callback :: "u16 \<Rightarrow> nat \<Rightarrow> 'd \<Rightarrow> handle \<times> 'd"
  rte_eth_remove_rx_callback :: "u16 \<Rightarrow> nat \<Rightarrow> handle \<Rightarrow> 'd \<Rightarrow> 'd"
  rte_eth_remove_tx_callback :: "u16 \<Rightarrow> nat \<Rightarrow> handle \<Rightarrow> 'd \<Rightarrow> 'd"
  mbuf_pool_find :: "u32 \<Rightarrow> u32 \<Rightarrow> 'd \<Rightarrow> handle"
  rte_eth_rx_queue_setup :: "u16 \<Rightarrow> nat \<Rightarrow> u16 \<Rightarrow> u32 \<Rightarrow> rte_eth_rxconf \<Rightarrow> rx_pools \<Rightarrow> 'd \<Rightarrow> int \<times> 'd"
  rte_eth_tx_queue_setup :: "u16 \<Rightarrow> nat \<Rightarrow> u16 \<Rightarrow> u32 \<Rightarrow> rte_eth_txconf \<Rightarrow> 'd \<Rightarrow> int \<times> 'd"
  rte_eth_rx_hairpin_queue_setup :: "u16 \<Rightarrow> nat \<Rightarrow> u16 \<Rightarrow> rte_eth_hairpin_conf \<Rightarrow> 'd \<Rightarrow> int \<times> 'd"
  rte_eth_tx_hairpin_queue_setup :: "u16 \<Rightarrow> nat \<Rightarrow> u16 \<Rightarrow> rte_eth_hairpin_conf \<Rightarrow> 'd \<Rightarrow> int \<times> 'd"
  rte_eth_rx_queue_info_get :: "u16 \<Rightarrow> nat \<Rightarrow> 'd \<Rightarrow> int \<times> u8 \<times> 'd"
  rte_eth_tx_queue_info_get :: "u16 \<Rightarrow> nat \<Rightarrow> 'd \<Rightarrow> int \<times> u8 \<times> 'd"
  rte_eth_dev_hairpin_capability_get :: "u16 \<Rightarrow> 'd \<Rightarrow> int \<times> 'd"
  rte_eth_dev_configure :: "u16 \<Rightarrow> u16 \<Rightarrow> u16 \<Rightarrow> rte_port \<Rightarrow> 'd \<Rightarrow> int \<times> 'd"
  rte_eth_dev_conf_get :: "u16 \<Rightarrow> 'd \<Rightarrow> int \<times> u64 \<times> u64 \<times> 'd"
  rte_eth_dev_set_ptypes :: "u16 \<Rightarrow> 'd \<Rightarrow> int \<times> 'd"
  rte_eth_dev_start :: "u16 \<Rightarrow> 'd \<Rightarrow> int \<times> 'd"
  rte_eth_dev_stop :: "u16 \<Rightarrow> 'd \<Rightarrow> int \<times> 'd"
  rte_eth_dev_reset :: "u16 \<Rightarrow> 'd \<Rightarrow> int \<times> 'd"
  rte_eth_dev_close :: "u16 \<Rightarrow> 'd \<Rightarrow> bool \<times> 'd"
  rte_eth_macaddr_get :: "u16 \<Rightarrow> 'd \<Rightarrow> int \<times> ether_addr \<times> 'd"
  rte_eth_link_get_nowait :: "u16 \<Rightarrow> 'd \<Rightarrow> int \<times> bool \<times> 'd"
  rte_eth_hairpin_get_peer_ports :: "u16 \<Rightarrow> bool \<Rightarrow> 'd \<Rightarrow> int \<times> u16 list \<times> 'd"
  rte_eth_hairpin_bind :: "u16 \<Rightarrow> u16 \<Rightarrow> 'd \<Rightarrow> int \<times> 'd"
  rte_eth_hairpin_unbind :: "u16 \<Rightarrow> u16 \<Rightarrow> 'd \<Rightarrow> 'd"
  rte_eth_xstats_get_id_by_name :: "u16 \<Rightarrow> string \<Rightarrow> 'd \<Rightarrow> int \<times> 'd"

abbreviation RTE_PORT_STOPPED :: u16 where "RTE_PORT_STOPPED \<equiv> 0"
abbreviation RTE_PORT_STARTED :: u16 where "RTE_PORT_STARTED \<equiv> 1"
abbreviation RTE_PORT_CLOSED :: u16 where "RTE_PORT_CLOSED \<equiv> 2"
abbreviation RTE_PORT_HANDLING :: u16 where "RTE_PORT_HANDLING \<equiv> 3"
abbreviation QUEUE_STATE_STOPPED :: u8 where "QUEUE_STATE_STOPPED \<equiv> 0"
abbreviation QUEUE_STATE_STARTED :: u8 where "QUEUE_STATE_STARTED \<equiv> 1"
abbreviation NUMA_NO_CONFIG :: u8 where "NUMA_NO_CONFIG \<equiv> 0xFF"

section \<open>Dump callbacks\<close>

text \<open>The loops over the queues: install where none is, remove where one is.\<close>

fun add_cbs ::
  "(u16 \<Rightarrow> nat \<Rightarrow> 'd \<Rightarrow> handle \<times> 'd) \<Rightarrow> (rte_port \<Rightarrow> handle list) \<Rightarrow> ((handle list \<Rightarrow> handle list) \<Rightarrow> rte_port \<Rightarrow> rte_port)
    \<Rightarrow> u16 \<Rightarrow> nat list \<Rightarrow> 'd st \<Rightarrow> 'd st option" where
  "add_cbs install get put pid [] s = Some s"
| "add_cbs install get put pid (q # qs) s = do {
     port \<leftarrow> port_get s pid;
     (if q < length (get port)
      then (if get port ! q = 0
            then (case install pid q (dev s) of (h, d) \<Rightarrow>
                    add_cbs install get put pid qs (port_upd pid (put (\<lambda>cbs. cbs[q := h])) (s\<lparr>dev := d\<rparr>)))
            else add_cbs install get put pid qs s)
      else None)
   }"

fun remove_cbs ::
  "(u16 \<Rightarrow> nat \<Rightarrow> handle \<Rightarrow> 'd \<Rightarrow> 'd) \<Rightarrow> (rte_port \<Rightarrow> handle list) \<Rightarrow> ((handle list \<Rightarrow> handle list) \<Rightarrow> rte_port \<Rightarrow> rte_port)
    \<Rightarrow> u16 \<Rightarrow> nat list \<Rightarrow> 'd st \<Rightarrow> 'd st option" where
  "remove_cbs uninstall get put pid [] s = Some s"
| "remove_cbs uninstall get put pid (q # qs) s = do {
     port \<leftarrow> port_get s pid;
     (if q < length (get port)
      then (if get port ! q \<noteq> 0
            then remove_cbs uninstall get put pid qs
                   (port_upd pid (put (\<lambda>cbs. cbs[q := 0])) (s\<lparr>dev := uninstall pid q (get port ! q) (dev s)\<rparr>))
            else remove_cbs uninstall get put pid qs s)
      else None)
   }"

text \<open>The head shared by the four functions; the loop gets the numbers of queues of the device.\<close>

definition with_queues ::
  "('d, 'z) port_api_scheme \<Rightarrow> u16 \<Rightarrow> (u16 \<Rightarrow> u16 \<Rightarrow> 'd st \<Rightarrow> 'd st option) \<Rightarrow> 'd st \<Rightarrow> 'd st option" where
  "with_queues api pid loop s =
     (if port_id_is_invalid s pid then Some s
      else (case rte_eth_dev_queues api pid (dev s) of (ret, nrx, ntx, d) \<Rightarrow>
              if ret \<noteq> 0 then Some (s\<lparr>dev := d\<rparr>) else loop nrx ntx (s\<lparr>dev := d\<rparr>)))"

definition add_rx_dump_callbacks :: "('d, 'z) port_api_scheme \<Rightarrow> u16 \<Rightarrow> 'd st \<Rightarrow> 'd st option" where
  "add_rx_dump_callbacks api pid s =
     with_queues api pid (\<lambda>nrx ntx. add_cbs (rte_eth_add_rx_callback api) rx_dump_cb rx_dump_cb_update pid [0..<unat nrx]) s"

definition add_tx_dump_callbacks :: "('d, 'z) port_api_scheme \<Rightarrow> u16 \<Rightarrow> 'd st \<Rightarrow> 'd st option" where
  "add_tx_dump_callbacks api pid s =
     with_queues api pid (\<lambda>nrx ntx. add_cbs (rte_eth_add_tx_callback api) tx_dump_cb tx_dump_cb_update pid [0..<unat ntx]) s"

definition remove_rx_dump_callbacks :: "('d, 'z) port_api_scheme \<Rightarrow> u16 \<Rightarrow> 'd st \<Rightarrow> 'd st option" where
  "remove_rx_dump_callbacks api pid s =
     with_queues api pid (\<lambda>nrx ntx. remove_cbs (rte_eth_remove_rx_callback api) rx_dump_cb rx_dump_cb_update pid [0..<unat nrx]) s"

definition remove_tx_dump_callbacks :: "('d, 'z) port_api_scheme \<Rightarrow> u16 \<Rightarrow> 'd st \<Rightarrow> 'd st option" where
  "remove_tx_dump_callbacks api pid s =
     with_queues api pid (\<lambda>nrx ntx. remove_cbs (rte_eth_remove_tx_callback api) tx_dump_cb tx_dump_cb_update pid [0..<unat ntx]) s"

fun dump_callbacks_loop :: "('d, 'z) port_api_scheme \<Rightarrow> u16 \<Rightarrow> u16 list \<Rightarrow> 'd st \<Rightarrow> 'd st option" where
  "dump_callbacks_loop api verbose [] s = Some s"
| "dump_callbacks_loop api verbose (pid # pids) s = do {
     s1 \<leftarrow> (if verbose = 1 \<or> verbose > 2 then add_rx_dump_callbacks api pid s else remove_rx_dump_callbacks api pid s);
     s2 \<leftarrow> (if verbose \<ge> 2 then add_tx_dump_callbacks api pid s1 else remove_tx_dump_callbacks api pid s1);
     dump_callbacks_loop api verbose pids s2
   }"

definition configure_rxtx_dump_callbacks :: "('d, 'z) port_api_scheme \<Rightarrow> u16 \<Rightarrow> 'd st \<Rightarrow> 'd st option" where
  "configure_rxtx_dump_callbacks api verbose s = dump_callbacks_loop api verbose (eth_devs s) s"

definition set_verbose_level :: "('d, 'z) port_api_scheme \<Rightarrow> u16 \<Rightarrow> ctl \<Rightarrow> 'd st \<Rightarrow> (ctl \<times> 'd st) option" where
  "set_verbose_level api vb c s =
     map_option (\<lambda>t. (c\<lparr>verbose_level := vb\<rparr>, t)) (configure_rxtx_dump_callbacks api vb s)"

section \<open>Receive queues\<close>

text \<open>An entry of an array of a given size, and a field of an element of a queue array.\<close>

definition at :: "'a list \<Rightarrow> nat \<Rightarrow> 'a option" where
  "at xs i = (if i < length xs then Some (xs ! i) else None)"

definition rxq_state_set :: "u16 \<Rightarrow> nat \<Rightarrow> u8 \<Rightarrow> 'd st \<Rightarrow> 'd st option" where
  "rxq_state_set pid q v s = do {
     port \<leftarrow> port_get s pid;
     (if q < length (rxq_state port) then Some (port_upd pid (rxq_state_update (\<lambda>xs. xs[q := v])) s) else None)
   }"

definition txq_state_set :: "u16 \<Rightarrow> nat \<Rightarrow> u8 \<Rightarrow> 'd st \<Rightarrow> 'd st option" where
  "txq_state_set pid q v s = do {
     port \<leftarrow> port_get s pid;
     (if q < length (txq_state port) then Some (port_upd pid (txq_state_update (\<lambda>xs. xs[q := v])) s) else None)
   }"

abbreviation RX_OFFLOAD_BUFFER_SPLIT :: u64 where "RX_OFFLOAD_BUFFER_SPLIT \<equiv> 0x100000"

text \<open>
  The segments of a split packet.  The last pool serves the segments that have none of their own; a
  segment is cut at a protocol header that no earlier segment was cut at, or at a length.
\<close>

fun rx_segs ::
  "(u32 \<Rightarrow> handle) \<Rightarrow> handle \<Rightarrow> ctl \<Rightarrow> nat list \<Rightarrow> u32 \<Rightarrow> rxseg list option" where
  "rx_segs pool mp c [] prev_hdrs = Some []"
| "rx_segs pool mp c (i # is) prev_hdrs = do {
     offs \<leftarrow> (if i < unat (rx_pkt_nb_offs c) then at (rx_pkt_seg_offsets c) i else Some 0);
     proto \<leftarrow> at (rx_pkt_hdr_protos c) i;
     len \<leftarrow> at (rx_pkt_seg_lengths c) i;
     (let mp_n = (if unat (mbuf_data_size_n c) \<le> i then mbuf_data_size_n c - 1 else of_nat i);
          mpx = pool mp_n;
          seg = \<lparr>seg_offset = offs, seg_mp = (if mpx \<noteq> 0 then mpx else mp), seg_length = 0, seg_proto_hdr = 0\<rparr> in
      if proto \<noteq> 0 \<and> len = 0
      then (let h = and proto (not prev_hdrs) in
            map_option (\<lambda>segs. seg\<lparr>seg_proto_hdr := h\<rparr> # segs) (rx_segs pool mp c is (or prev_hdrs h)))
      else do {
        n \<leftarrow> (if len \<noteq> 0 then Some len else at (mbuf_data_sizes c) (unat mp_n));
        map_option (\<lambda>segs. seg\<lparr>seg_length := n\<rparr> # segs) (rx_segs pool mp c is prev_hdrs)
      })
   }"

text \<open>The pools of the queue, or the error of the function; the device may be asked for its limit.\<close>

definition rx_pools_of ::
  "('d, 'z) port_api_scheme \<Rightarrow> ctl \<Rightarrow> u16 \<Rightarrow> u32 \<Rightarrow> rte_eth_rxconf \<Rightarrow> handle \<Rightarrow> 'd \<Rightarrow> ((int + rx_pools) \<times> 'd) option" where
  "rx_pools_of api c pid sock conf mp d =
     (if rx_pkt_nb_segs c > 1 \<and> and (rx_offloads conf) RX_OFFLOAD_BUFFER_SPLIT \<noteq> 0
      then map_option (\<lambda>segs. (Inr (RxSplit segs), d))
             (rx_segs (\<lambda>n. mbuf_pool_find api sock n d) mp c [0..<unat (rx_pkt_nb_segs c)] 0)
      else if multi_rx_mempool c
      then (if mbuf_data_size_n c \<le> 1 then Some (Inl (- EINVAL), d)
            else (case rte_eth_max_rx_mempools api pid d of (ret, n, d1) \<Rightarrow>
                    Some (if ret \<noteq> 0 then Inl ret
                          else if n = 0 then Inl (- ENOTSUP)
                          else Inr (RxMempools (map (\<lambda>i. let mpx = mbuf_pool_find api sock (of_nat i) d1 in
                                 if mpx \<noteq> 0 then mpx else mp) [0..<unat (mbuf_data_size_n c)])), d1)))
      else Some (Inr (RxPool mp), d))"

text \<open>The state of the queue is recorded whether the driver accepted the queue or not.\<close>

definition rx_queue_setup ::
  "('d, 'z) port_api_scheme \<Rightarrow> ctl \<Rightarrow> u16 \<Rightarrow> nat \<Rightarrow> u16 \<Rightarrow> u32 \<Rightarrow> rte_eth_rxconf \<Rightarrow> handle \<Rightarrow> 'd st
    \<Rightarrow> (int \<times> 'd st) option" where
  "rx_queue_setup api c pid q nb_desc sock conf mp s = do {
     (r, d) \<leftarrow> rx_pools_of api c pid sock conf mp (dev s);
     (case r of
        Inl e \<Rightarrow> Some (e, s\<lparr>dev := d\<rparr>)
      | Inr pools \<Rightarrow>
          (case rte_eth_rx_queue_setup api pid q nb_desc sock conf pools d of (ret, d1) \<Rightarrow>
             map_option (\<lambda>t. (ret, t))
               (rxq_state_set pid q (if rx_deferred_start conf then QUEUE_STATE_STOPPED else QUEUE_STATE_STARTED)
                  (s\<lparr>dev := d1\<rparr>))))
   }"

section \<open>Queue states\<close>

definition update_rx_queue_state ::
  "('d, 'z) port_api_scheme \<Rightarrow> ctl \<Rightarrow> u16 \<Rightarrow> nat \<Rightarrow> 'd st \<Rightarrow> 'd st option" where
  "update_rx_queue_state api c pid q s =
     (case rte_eth_rx_queue_info_get api pid q (dev s) of (rc, st, d) \<Rightarrow>
        if rc = 0 then rxq_state_set pid q st (s\<lparr>dev := d\<rparr>)
        else if rc = - ENOTSUP
        then (if proc_primary c then Some (s\<lparr>dev := d\<rparr>) else rxq_state_set pid q QUEUE_STATE_STARTED (s\<lparr>dev := d\<rparr>))
        else Some (s\<lparr>dev := d\<rparr>))"

definition update_tx_queue_state ::
  "('d, 'z) port_api_scheme \<Rightarrow> ctl \<Rightarrow> u16 \<Rightarrow> nat \<Rightarrow> 'd st \<Rightarrow> 'd st option" where
  "update_tx_queue_state api c pid q s =
     (case rte_eth_tx_queue_info_get api pid q (dev s) of (rc, st, d) \<Rightarrow>
        if rc = 0 then txq_state_set pid q st (s\<lparr>dev := d\<rparr>)
        else if rc = - ENOTSUP
        then (if proc_primary c then Some (s\<lparr>dev := d\<rparr>) else txq_state_set pid q QUEUE_STATE_STARTED (s\<lparr>dev := d\<rparr>))
        else Some (s\<lparr>dev := d\<rparr>))"

text \<open>A loop whose body may meet undefined behaviour.\<close>

fun foreach :: "('a \<Rightarrow> 's \<Rightarrow> 's option) \<Rightarrow> 'a list \<Rightarrow> 's \<Rightarrow> 's option" where
  "foreach f [] s = Some s"
| "foreach f (x # xs) s = do { s1 \<leftarrow> f x s; foreach f xs s1 }"

definition update_queue_state ::
  "('d, 'z) port_api_scheme \<Rightarrow> ctl \<Rightarrow> fwd_st \<Rightarrow> u16 \<Rightarrow> 'd st \<Rightarrow> 'd st option" where
  "update_queue_state api c f pid s =
     foreach (\<lambda>pi s. if pid \<noteq> pi \<and> pid \<noteq> RTE_PORT_ALL then Some s
        else do {
          s1 \<leftarrow> foreach (update_rx_queue_state api c pi) [0..<unat (nb_rxq f)] s;
          foreach (update_tx_queue_state api c pi) [0..<unat (nb_txq f)] s1
        }) (eth_devs s) s"

section \<open>Hairpin queues\<close>

text \<open>The next device from a number on, or the number of ports when there is none.\<close>

definition next_dev :: "ctl \<Rightarrow> 'd st \<Rightarrow> nat \<Rightarrow> u16" where
  "next_dev c s i = (case find (\<lambda>p. i \<le> unat p) (eth_devs s) of None \<Rightarrow> max_ethports c | Some p \<Rightarrow> p)"

text \<open>The ports the hairpin queues of a port are connected with, and whether they are bound by hand.\<close>

definition hairpin_peers :: "ctl \<Rightarrow> 'd st \<Rightarrow> u16 \<Rightarrow> u16 \<Rightarrow> u16 \<Rightarrow> u16 \<times> u16 \<times> bool" where
  "hairpin_peers c s pi p_pi cnt_pi =
     (let m = hairpin_mode c in
      if and m 0xF = 0 then (pi, pi, False)
      else if and m 1 \<noteq> 0
      then (if p_pi \<noteq> max_ethports c then p_pi else last (pi # eth_devs s),
            (let t = next_dev c s (unat pi + 1) in if t \<ge> max_ethports c then next_dev c s 0 else t), True)
      else if and m 2 \<noteq> 0
      then (let r = (if odd (unat cnt_pi) then p_pi
                     else (let t = next_dev c s (unat pi + 1) in if t \<ge> max_ethports c then pi else t)) in (r, r, True))
      else (pi, pi, True))"

text \<open>A failure on the way of a port from stopped to started puts it back.\<close>

definition set_back :: "u16 \<Rightarrow> 'd st \<Rightarrow> 'd st" where
  "set_back pi s = port_upd pi (\<lambda>p. if port_status p = RTE_PORT_HANDLING then p\<lparr>port_status := RTE_PORT_STOPPED\<rparr> else p) s"

definition queues_again :: "u16 \<Rightarrow> 'd st \<Rightarrow> 'd st" where
  "queues_again pi s = port_upd pi (\<lambda>p. p\<lparr>need_reconfig_queues := 1\<rparr>) (set_back pi s)"

fun hairpin_loop ::
  "(nat \<Rightarrow> rte_eth_hairpin_conf \<Rightarrow> 'd \<Rightarrow> int \<times> 'd) \<Rightarrow> u16 \<Rightarrow> (nat \<Rightarrow> rte_eth_hairpin_conf) \<Rightarrow> nat \<Rightarrow> nat list \<Rightarrow> 'd st
    \<Rightarrow> bool \<times> 'd st" where
  "hairpin_loop hq pi conf i [] s = (True, s)"
| "hairpin_loop hq pi conf i (q # qs) s =
     (case hq q (conf i) (dev s) of (diag, d) \<Rightarrow>
        if diag = 0 then hairpin_loop hq pi conf (Suc i) qs (s\<lparr>dev := d\<rparr>)
        else (False, queues_again pi (s\<lparr>dev := d\<rparr>)))"

text \<open>
  The queue counters are 16 bits wide, so that the loops do not end when the queues exceed them: the
  result is then \<open>None\<close>.
\<close>

definition setup_hairpin_queues ::
  "('d, 'z) port_api_scheme \<Rightarrow> ctl \<Rightarrow> fwd_st \<Rightarrow> u16 \<Rightarrow> u16 \<Rightarrow> u16 \<Rightarrow> 'd st \<Rightarrow> (int \<times> 'd st) option" where
  "setup_hairpin_queues api c f pi p_pi cnt_pi s =
     (let m = hairpin_mode c; nh = unat (nb_hairpinq c); nt = unat (nb_txq f); nr = unat (nb_rxq f) in
      if port_get s pi = None \<or> 2 ^ 16 \<le> nh + nt \<or> 2 ^ 16 \<le> nh + nr then None
      else (case hairpin_peers c s pi p_pi cnt_pi of (peer_rx, peer_tx, manual) \<Rightarrow>
        (let conf = (\<lambda>peer base force locked rte i. \<lparr>hp_peer_port = peer, hp_peer_queue = of_nat (i + base),
               hp_manual_bind = manual, hp_tx_explicit = and m 0x10 \<noteq> 0, hp_force_memory = and m force \<noteq> 0,
               hp_use_locked_device_memory = and m locked \<noteq> 0, hp_use_rte_memory = and m rte \<noteq> 0\<rparr>) in
         case hairpin_loop (\<lambda>q. rte_eth_tx_hairpin_queue_setup api pi q (nb_txd c)) pi
                (conf peer_rx nr 0x200 0x10000 0x20000) 0 [nt..<nh + nt] s of (ok, s1) \<Rightarrow>
           if \<not> ok then Some (- 1, s1)
           else (case hairpin_loop (\<lambda>q. rte_eth_rx_hairpin_queue_setup api pi q (nb_rxd c)) pi
                        (conf peer_tx nt 0x100 0x1000 0x2000) 0 [nr..<nh + nr] s1 of (ok2, s2) \<Rightarrow>
                   Some (if ok2 then 0 else - 1, s2)))))"

end
