(* ===== verification/Mcast.thy ===== *)
theory Mcast
  imports Testpmd "HOL-Library.Sublist"
begin

text \<open>
  The multicast address filter of a port (\<^verbatim>\<open>mcast_addr_pool_extend\<close> to \<^verbatim>\<open>mcast_addr_flush\<close> of
  \<^verbatim>\<open>config.c\<close>): a contiguous pool of addresses that grows by 32 entries, kept in step with the driver.
  The pool of a port is the list of its allocated entries, \<^verbatim>\<open>mc_addr_nb\<close> of which are valid; a read
  or write outside the allocated entries is the result \<open>None\<close>.
\<close>

section \<open>Operations\<close>

record 'd mc_api =
  mc_realloc :: "ether_addr list \<Rightarrow> nat \<Rightarrow> 'd \<Rightarrow> ether_addr list option \<times> 'd"
  rte_eth_dev_set_mc_addr_list :: "u16 \<Rightarrow> ether_addr list \<Rightarrow> 'd \<Rightarrow> int \<times> 'd"

abbreviation MCAST_POOL_INC :: u32 where "MCAST_POOL_INC \<equiv> 32"

definition mcast_addr_pool_extend ::
  "('d, 'z) mc_api_scheme \<Rightarrow> rte_port \<Rightarrow> 'd \<Rightarrow> int \<times> rte_port \<times> 'd" where
  "mcast_addr_pool_extend api port d =
     (if mc_addr_nb port mod MCAST_POOL_INC \<noteq> 0
      then (0, port\<lparr>mc_addr_nb := mc_addr_nb port + 1\<rparr>, d)
      else (case mc_realloc api (mc_addr_pool port) (unat (mc_addr_nb port + MCAST_POOL_INC)) d of
              (None, d1) \<Rightarrow> (- ENOMEM, port, d1)
            | (Some pool, d1) \<Rightarrow>
                (0, port\<lparr>mc_addr_pool := pool, mc_addr_nb := mc_addr_nb port + 1\<rparr>, d1)))"

definition mcast_addr_pool_append ::
  "('d, 'z) mc_api_scheme \<Rightarrow> ether_addr \<Rightarrow> rte_port \<Rightarrow> 'd \<Rightarrow> (rte_port \<times> 'd) option" where
  "mcast_addr_pool_append api mc_addr port d =
     (case mcast_addr_pool_extend api port d of (rc, port1, d1) \<Rightarrow>
        if rc \<noteq> 0 then Some (port1, d1)
        else (let i = unat (mc_addr_nb port1 - 1) in
              if i < length (mc_addr_pool port1)
              then Some (port1\<lparr>mc_addr_pool := (mc_addr_pool port1)[i := mc_addr]\<rparr>, d1)
              else None))"

definition mcast_addr_pool_remove :: "u32 \<Rightarrow> rte_port \<Rightarrow> rte_port option" where
  "mcast_addr_pool_remove addr_idx port =
     (let nb = mc_addr_nb port - 1; port1 = port\<lparr>mc_addr_nb := nb\<rparr> in
      if addr_idx = nb
      then Some (if nb = 0 then port1\<lparr>mc_addr_pool := []\<rparr> else port1)
      else (let i = unat addr_idx; n = unat (nb - addr_idx); pool = mc_addr_pool port1 in
            if i + 1 + n \<le> length pool
            then Some (port1\<lparr>mc_addr_pool := take i pool @ take n (drop (i + 1) pool) @ drop (i + n) pool\<rparr>)
            else None))"

definition mcast_addr_pool_destroy :: "u16 \<Rightarrow> 'd st \<Rightarrow> (int \<times> 'd st) option" where
  "mcast_addr_pool_destroy pid s =
     (if bad_port s pid then Some (- EINVAL, s)
      else do {
        port \<leftarrow> port_get s pid;
        Some (0, if mc_addr_nb port \<noteq> 0
                 then port_upd pid (\<lambda>p. p\<lparr>mc_addr_pool := [], mc_addr_nb := 0\<rparr>) s else s)
      })"

text \<open>The driver reads as many entries of the pool as it is told.\<close>

definition eth_port_multicast_addr_list_set ::
  "('d, 'z) mc_api_scheme \<Rightarrow> u16 \<Rightarrow> rte_port \<Rightarrow> 'd \<Rightarrow> (int \<times> 'd) option" where
  "eth_port_multicast_addr_list_set api pid port d =
     (if unat (mc_addr_nb port) \<le> length (mc_addr_pool port)
      then Some (rte_eth_dev_set_mc_addr_list api pid (take (unat (mc_addr_nb port)) (mc_addr_pool port)) d)
      else None)"

text \<open>The search loop: the index of the first match, or the number of addresses.\<close>

fun mc_search :: "ether_addr \<Rightarrow> ether_addr list \<Rightarrow> nat \<Rightarrow> nat option" where
  "mc_search a pool 0 = Some 0"
| "mc_search a [] (Suc n) = None"
| "mc_search a (x # pool) (Suc n) = (if x = a then Some 0 else map_option Suc (mc_search a pool n))"

definition mcast_addr_add ::
  "('d, 'z) mc_api_scheme \<Rightarrow> u16 \<Rightarrow> ether_addr \<Rightarrow> 'd st \<Rightarrow> 'd st option" where
  "mcast_addr_add api pid mc_addr s =
     (if port_id_is_invalid s pid then Some s
      else do {
        port \<leftarrow> port_get s pid;
        i \<leftarrow> mc_search mc_addr (mc_addr_pool port) (unat (mc_addr_nb port));
        (if i < unat (mc_addr_nb port) then Some s
         else do {
           (port1, d1) \<leftarrow> mcast_addr_pool_append api mc_addr port (dev s);
           (diag, d2) \<leftarrow> eth_port_multicast_addr_list_set api pid port1 d1;
           port2 \<leftarrow> (if diag < 0 then mcast_addr_pool_remove (of_nat i) port1 else Some port1);
           Some ((port_upd pid (\<lambda>_. port2) s)\<lparr>dev := d2\<rparr>)
         })
      })"

definition mcast_addr_remove ::
  "('d, 'z) mc_api_scheme \<Rightarrow> u16 \<Rightarrow> ether_addr \<Rightarrow> 'd st \<Rightarrow> 'd st option" where
  "mcast_addr_remove api pid mc_addr s =
     (if port_id_is_invalid s pid then Some s
      else do {
        port \<leftarrow> port_get s pid;
        i \<leftarrow> mc_search mc_addr (mc_addr_pool port) (unat (mc_addr_nb port));
        (if i = unat (mc_addr_nb port) then Some s
         else do {
           port1 \<leftarrow> mcast_addr_pool_remove (of_nat i) port;
           (diag, d1) \<leftarrow> eth_port_multicast_addr_list_set api pid port1 (dev s);
           (port2, d2) \<leftarrow> (if diag < 0 then mcast_addr_pool_append api mc_addr port1 d1 else Some (port1, d1));
           Some ((port_upd pid (\<lambda>_. port2) s)\<lparr>dev := d2\<rparr>)
         })
      })"

definition mcast_addr_flush :: "('d, 'z) mc_api_scheme \<Rightarrow> u16 \<Rightarrow> 'd st \<Rightarrow> 'd st option" where
  "mcast_addr_flush api pid s =
     (if port_id_is_invalid s pid then Some s
      else (case rte_eth_dev_set_mc_addr_list api pid [] (dev s) of (ret, d) \<Rightarrow>
        if ret \<noteq> 0 then Some (s\<lparr>dev := d\<rparr>)
        else map_option snd (mcast_addr_pool_destroy pid (s\<lparr>dev := d\<rparr>))))"

section \<open>The pool\<close>

text \<open>The valid addresses, and what the operations keep: no address twice, and room for a whole
  number of chunks.\<close>

definition mc_list :: "rte_port \<Rightarrow> ether_addr list" where
  "mc_list port = take (unat (mc_addr_nb port)) (mc_addr_pool port)"

definition mc_ok :: "rte_port \<Rightarrow> bool" where
  "mc_ok port \<longleftrightarrow> distinct (mc_list port) \<and>
     32 * ((unat (mc_addr_nb port) + 31) div 32) \<le> length (mc_addr_pool port)"

definition realloc_ok :: "('d, 'z) mc_api_scheme \<Rightarrow> bool" where
  "realloc_ok api \<longleftrightarrow>
     (\<forall>pool n d. \<exists>pool' d'. mc_realloc api pool n d = (Some pool', d') \<and> length pool' = n \<and>
        take (min (length pool) n) pool' = take (min (length pool) n) pool)"

lemma chunks:
  fixes n :: nat
  shows "n \<le> 32 * ((n + 31) div 32)" "32 * ((Suc n + 31) div 32) \<le> n + 32"
    "n mod 32 \<noteq> 0 \<Longrightarrow> n < 32 * ((n + 31) div 32) \<and> (Suc n + 31) div 32 = (n + 31) div 32"
proof -
  obtain q r where n: "n = 32 * q + r" "r < 32" using mult_div_mod_eq [of 32 n] by (metis mod_less_divisor zero_less_numeral)
  have d: "(32 * q + k) div 32 = q + k div 32" for k :: nat by simp
  have c: "(n + 31) div 32 = q + (r + 31) div 32" "(Suc n + 31) div 32 = q + (r + 32) div 32"
    unfolding n(1) using d [of "r + 31"] d [of "r + 32"] by (simp_all add: add.assoc)
  have r: "(r + 31) div 32 = (if r = 0 then 0 else 1)" "(r + 32) div 32 = 1" using n(2) by (auto simp: div_nat_eqI)
  show "n \<le> 32 * ((n + 31) div 32)" "32 * ((Suc n + 31) div 32) \<le> n + 32" using c r n by auto
  show "n mod 32 \<noteq> 0 \<Longrightarrow> n < 32 * ((n + 31) div 32) \<and> (Suc n + 31) div 32 = (n + 31) div 32"
    using c r n by auto
qed

lemma mc_ok_room: "mc_ok port \<Longrightarrow> unat (mc_addr_nb port) \<le> length (mc_addr_pool port)"
proof -
  assume "mc_ok port"
  moreover have "unat (mc_addr_nb port) \<le> 32 * ((unat (mc_addr_nb port) + 31) div 32)" by (rule chunks)
  ultimately show ?thesis unfolding mc_ok_def by linarith
qed

lemma length_mc_list: "mc_ok port \<Longrightarrow> length (mc_list port) = unat (mc_addr_nb port)"
  using mc_ok_room by (simp add: mc_list_def)

lemma mc_search_take:
  "n \<le> length pool \<Longrightarrow> mc_search a pool n = Some (length (takeWhile (\<lambda>x. x \<noteq> a) (take n pool)))"
  by (induction a pool n rule: mc_search.induct) auto

lemma mc_search_new: "n \<le> length pool \<Longrightarrow> a \<notin> set (take n pool) \<Longrightarrow> mc_search a pool n = Some n"
proof -
  assume n: "n \<le> length pool" and a: "a \<notin> set (take n pool)"
  have "takeWhile (\<lambda>x. x \<noteq> a) (take n pool) = take n pool"
    unfolding takeWhile_eq_all_conv using a by metis
  from arg_cong [OF this, of length] show ?thesis using mc_search_take [OF n, of a] n by (simp only: length_take min.absorb2)
qed

lemma mc_search_old:
  assumes "n \<le> length pool" "a \<in> set (take n pool)"
  shows "\<exists>i. mc_search a pool n = Some i \<and> i < n \<and> pool ! i = a"
proof -
  let ?k = "length (takeWhile (\<lambda>x. x \<noteq> a) (take n pool))"
  have "?k < length (take n pool)"
  proof -
    have "takeWhile (\<lambda>x. x \<noteq> a) (take n pool) \<noteq> take n pool"
      using assms(2) unfolding takeWhile_eq_all_conv by metis
    moreover have "take ?k (take n pool) = takeWhile (\<lambda>x. x \<noteq> a) (take n pool)"
      by (rule takeWhile_eq_take [symmetric])
    ultimately show ?thesis by (metis linorder_not_le take_all)
  qed
  moreover from this have "take n pool ! ?k = a" using nth_length_takeWhile [of "\<lambda>x. x \<noteq> a" "take n pool"] by simp
  ultimately show ?thesis using assms(1) mc_search_take [OF assms(1), of a] by simp
qed

lemma unat_suc: "unat (x :: u32) + 32 < 2 ^ 32 \<Longrightarrow> unat (x + 1) = Suc (unat x) \<and> unat (x + 32) = unat x + 32"
  by (simp add: unat_word_ariths)

lemma append_in_room:
  assumes "n < length pool" "m = Suc n"
  shows "take m (pool[n := a]) = take n pool @ [a]"
  using assms by (simp add: take_Suc_conv_app_nth)

lemma mcast_append_ok:
  assumes "realloc_ok api" "mc_ok port" "unat (mc_addr_nb port) + 32 < 2 ^ 32" "a \<notin> set (mc_list port)"
  shows "\<exists>pool d1. mcast_addr_pool_append api a port d =
      Some (port\<lparr>mc_addr_pool := pool, mc_addr_nb := mc_addr_nb port + 1\<rparr>, d1) \<and>
    take (Suc (unat (mc_addr_nb port))) pool = mc_list port @ [a] \<and>
    32 * ((Suc (unat (mc_addr_nb port)) + 31) div 32) \<le> length pool"
proof -
  let ?n = "unat (mc_addr_nb port)"
  note u = unat_suc [OF assms(3)]
  have m: "mc_addr_nb port mod 32 \<noteq> 0 \<longleftrightarrow> ?n mod 32 \<noteq> 0"
    using unat_mod [of "mc_addr_nb port" 32] unat_eq_0 [of "mc_addr_nb port mod 32"] by simp
  show ?thesis
  proof (cases "?n mod 32 = 0")
    case False
    have n: "?n < length (mc_addr_pool port)" "32 * ((Suc ?n + 31) div 32) \<le> length (mc_addr_pool port)"
    proof -
      have "?n < 32 * ((?n + 31) div 32)" "(Suc ?n + 31) div 32 = (?n + 31) div 32" using chunks(3) False by blast+
      then show "?n < length (mc_addr_pool port)" "32 * ((Suc ?n + 31) div 32) \<le> length (mc_addr_pool port)"
        using assms(2) unfolding mc_ok_def by linarith+
    qed
    have "mcast_addr_pool_append api a port d =
        Some (port\<lparr>mc_addr_pool := (mc_addr_pool port)[?n := a], mc_addr_nb := mc_addr_nb port + 1\<rparr>, d)"
      using False m n by (simp add: mcast_addr_pool_append_def mcast_addr_pool_extend_def Let_def)
    then show ?thesis using append_in_room [OF n(1) refl, of a] n(2) by (auto simp: mc_list_def)
  next
    case True
    obtain pool d1 where p: "mc_realloc api (mc_addr_pool port) (?n + 32) d = (Some pool, d1)" "length pool = ?n + 32"
      "take (min (length (mc_addr_pool port)) (?n + 32)) pool = take (min (length (mc_addr_pool port)) (?n + 32)) (mc_addr_pool port)"
      using assms(1) unfolding realloc_ok_def by blast
    have "take ?n pool = take ?n (mc_addr_pool port)"
      using arg_cong [OF p(3), of "take ?n"] mc_ok_room [OF assms(2)] by (simp add: min_def split: if_splits)
    then have "take (Suc ?n) (pool[?n := a]) = mc_list port @ [a]"
      using append_in_room [of ?n pool "Suc ?n" a] p(2) by (simp add: mc_list_def)
    moreover have "32 * ((Suc ?n + 31) div 32) \<le> ?n + 32" by (rule chunks)
    moreover have "mcast_addr_pool_append api a port d =
        Some (port\<lparr>mc_addr_pool := pool[?n := a], mc_addr_nb := mc_addr_nb port + 1\<rparr>, d1)"
      using True m u p(1,2) by (simp add: mcast_addr_pool_append_def mcast_addr_pool_extend_def Let_def)
    ultimately show ?thesis using p(2) by (intro exI [of _ "pool[?n := a]"] exI [of _ d1]) simp
  qed
qed

lemma mcast_remove_ok:
  assumes "mc_ok port" "i < unat (mc_addr_nb port)"
  shows "\<exists>pool. mcast_addr_pool_remove (of_nat i) port =
      Some (port\<lparr>mc_addr_pool := pool, mc_addr_nb := mc_addr_nb port - 1\<rparr>) \<and>
    take (unat (mc_addr_nb port) - 1) pool = take i (mc_list port) @ drop (Suc i) (mc_list port) \<and>
    32 * ((unat (mc_addr_nb port) - 1 + 31) div 32) \<le> length pool"
proof -
  let ?n = "unat (mc_addr_nb port)" and ?pool = "mc_addr_pool port"
  have n1: "unat (mc_addr_nb port - 1) = ?n - 1"
  proof -
    have "1 \<le> mc_addr_nb port" using assms(2) by (simp add: word_le_nat_alt)
    then show ?thesis by (simp add: unat_sub)
  qed
  have "unat (mc_addr_nb port) < 2 ^ LENGTH(32)" by (rule unsigned_less)
  then have "i < 2 ^ 32" using assms(2) by simp
  then have i: "unat (of_nat i :: u32) = i" by (simp add: unsigned_of_nat take_bit_nat_eq_self)
  have room: "?n \<le> length ?pool" "32 * ((?n + 31) div 32) \<le> length ?pool"
    using mc_ok_room [OF assms(1)] assms(1) by (simp_all add: mc_ok_def)
  have chunk: "32 * ((?n - 1 + 31) div 32) \<le> 32 * ((?n + 31) div 32)"
    by (intro mult_le_mono2 div_le_mono) simp
  show ?thesis
  proof (cases "i = ?n - 1")
    case True
    then have e: "(of_nat i :: u32) = mc_addr_nb port - 1" using n1 i by (metis unsigned_word_eqI)
    have t: "take i (mc_list port) @ drop (Suc i) (mc_list port) = take (?n - 1) ?pool"
      using True assms(2) by (simp add: mc_list_def min_def)
    show ?thesis
    proof (cases "?n = 1")
      case True
      then have "mc_addr_nb port - 1 = 0" using n1 by (simp add: unat_eq_0 [symmetric])
      then show ?thesis using e t True by (intro exI [of _ "[]"]) (simp add: mcast_addr_pool_remove_def Let_def)
    next
      case False
      then have "mc_addr_nb port - 1 \<noteq> 0" using n1 assms(2) by (metis One_nat_def Suc_leI diff_is_0_eq le_antisym less_le_trans unat_0 zero_less_Suc le_eq_less_or_eq less_nat_zero_code)
      then show ?thesis using e t room chunk
        by (intro exI [of _ ?pool]) (simp add: mcast_addr_pool_remove_def Let_def)
    qed
  next
    case False
    then have ne: "(of_nat i :: u32) \<noteq> mc_addr_nb port - 1" using n1 i by metis
    have le: "(of_nat i :: u32) \<le> mc_addr_nb port - 1" using assms(2) n1 i by (simp add: word_le_nat_alt)
    have k: "unat (mc_addr_nb port - 1 - of_nat i) = ?n - 1 - i" using unat_sub [OF le] n1 i by simp
    let ?new = "take i ?pool @ take (?n - 1 - i) (drop (i + 1) ?pool) @ drop (i + (?n - 1 - i)) ?pool"
    have "length (take i ?pool @ take (?n - 1 - i) (drop (i + 1) ?pool)) = ?n - 1" using assms(2) room(1) by simp
    then have "take (?n - 1) ?new = take i ?pool @ take (?n - 1 - i) (drop (i + 1) ?pool)"
      unfolding append_assoc [symmetric] by (metis append_eq_conv_conj)
    then have "take (?n - 1) ?new = take i (mc_list port) @ drop (Suc i) (mc_list port)"
      using assms(2) room(1) by (simp add: mc_list_def drop_take)
    moreover have "length ?new = length ?pool" using assms(2) room(1) by simp
    ultimately show ?thesis using ne k i room chunk assms(2)
      by (intro exI [of _ ?new]) (simp add: mcast_addr_pool_remove_def Let_def)
  qed
qed

section \<open>The filter as a set\<close>

lemma mc_ok_keep:
  assumes "take (unat nb) pool = xs" "distinct xs" "32 * ((unat nb + 31) div 32) \<le> length pool"
  shows "mc_ok (port\<lparr>mc_addr_pool := pool, mc_addr_nb := nb\<rparr>) \<and>
    mc_list (port\<lparr>mc_addr_pool := pool, mc_addr_nb := nb\<rparr>) = xs"
  using assms by (simp add: mc_ok_def mc_list_def)

lemma drop_one: "i < length xs \<Longrightarrow> distinct xs \<Longrightarrow> distinct (take i xs @ drop (Suc i) xs) \<and> set (take i xs @ drop (Suc i) xs) = set xs - {xs ! i}"
proof -
  assume i: "i < length xs" "distinct xs"
  have "xs = take i xs @ xs ! i # drop (Suc i) xs" using i(1) by (rule id_take_nth_drop)
  then have d: "distinct (take i xs @ xs ! i # drop (Suc i) xs)" and s: "set (take i xs @ xs ! i # drop (Suc i) xs) = set xs"
    using i(2) by simp_all
  then show ?thesis by auto
qed

text \<open>One command and what it may do to the set of addresses.\<close>

datatype mc_cmd = McAdd ether_addr | McRemove ether_addr | McFlush

fun mc_exec :: "('d, 'z) mc_api_scheme \<Rightarrow> u16 \<Rightarrow> mc_cmd \<Rightarrow> 'd st \<Rightarrow> 'd st option" where
  "mc_exec api pid (McAdd a) s = mcast_addr_add api pid a s"
| "mc_exec api pid (McRemove a) s = mcast_addr_remove api pid a s"
| "mc_exec api pid McFlush s = mcast_addr_flush api pid s"

fun mc_spec :: "mc_cmd \<Rightarrow> ether_addr set \<Rightarrow> ether_addr set" where
  "mc_spec (McAdd a) S = insert a S"
| "mc_spec (McRemove a) S = S - {a}"
| "mc_spec McFlush S = {}"

definition mc_port_ok :: "'d st \<Rightarrow> u16 \<Rightarrow> nat \<Rightarrow> bool" where
  "mc_port_ok s pid n \<longleftrightarrow> \<not> bad_port s pid \<and>
     (\<exists>port. port_get s pid = Some port \<and> mc_ok port \<and> unat (mc_addr_nb port) + n + 32 < 2 ^ 32)"

definition mc_set :: "'d st \<Rightarrow> u16 \<Rightarrow> ether_addr set" where
  "mc_set s pid = (case port_get s pid of None \<Rightarrow> {} | Some port \<Rightarrow> set (mc_list port))"

lemma mc_port_upd:
  assumes "port_get s pid = Some port" "\<not> bad_port s pid" "mc_ok port'" "unat (mc_addr_nb port') + n + 32 < 2 ^ 32"
  shows "mc_port_ok ((port_upd pid (\<lambda>_. port') s)\<lparr>dev := d\<rparr>) pid n \<and>
    mc_set ((port_upd pid (\<lambda>_. port') s)\<lparr>dev := d\<rparr>) pid = set (mc_list port')"
  using assms bad_port_cong [of "(port_upd pid (\<lambda>_. port') s)\<lparr>dev := d\<rparr>" s pid]
  by (simp add: mc_port_ok_def mc_set_def port_get_upd)

lemma mcast_add_step:
  assumes "realloc_ok api" "mc_port_ok s pid (Suc n)"
  shows "\<exists>s'. mcast_addr_add api pid a s = Some s' \<and> mc_port_ok s' pid n \<and>
    (mc_set s' pid = insert a (mc_set s pid) \<or> mc_set s' pid = mc_set s pid)"
proof -
  obtain port where v: "\<not> bad_port s pid" "port_get s pid = Some port" "mc_ok port" "unat (mc_addr_nb port) + Suc n + 32 < 2 ^ 32"
    using assms(2) unfolding mc_port_ok_def by blast
  have inv: "\<not> port_id_is_invalid s pid" using v(1) by (simp add: bad_port_def)
  note room = mc_ok_room [OF v(3)]
  show ?thesis
  proof (cases "a \<in> set (mc_list port)")
    case True
    then obtain i where "mc_search a (mc_addr_pool port) (unat (mc_addr_nb port)) = Some i" "i < unat (mc_addr_nb port)"
      using mc_search_old [OF room, of a] by (auto simp: mc_list_def)
    then have "mcast_addr_add api pid a s = Some s" using v inv by (simp add: mcast_addr_add_def)
    moreover have "mc_port_ok s pid n" using v unfolding mc_port_ok_def by auto
    ultimately show ?thesis by blast
  next
    case False
    have small: "unat (mc_addr_nb port) + 32 < 2 ^ 32" using v(4) by linarith
    note u = conjunct1 [OF unat_suc [OF small]]
    have sr: "mc_search a (mc_addr_pool port) (unat (mc_addr_nb port)) = Some (unat (mc_addr_nb port))"
      using mc_search_new [OF room, of a] False by (simp add: mc_list_def)
    obtain pool d1 where ap: "mcast_addr_pool_append api a port (dev s) =
        Some (port\<lparr>mc_addr_pool := pool, mc_addr_nb := mc_addr_nb port + 1\<rparr>, d1)"
      "take (Suc (unat (mc_addr_nb port))) pool = mc_list port @ [a]"
      "32 * ((Suc (unat (mc_addr_nb port)) + 31) div 32) \<le> length pool"
      using mcast_append_ok [OF assms(1) v(3) small False, of "dev s"] by blast
    let ?p1 = "port\<lparr>mc_addr_pool := pool, mc_addr_nb := mc_addr_nb port + 1\<rparr>"
    have "distinct (mc_list port @ [a])" using False v(3) by (simp add: mc_ok_def)
    then have p1: "mc_ok ?p1" "mc_list ?p1 = mc_list port @ [a]"
      using mc_ok_keep [of "mc_addr_nb port + 1" pool "mc_list port @ [a]" port] ap(2,3) u by auto
    have l: "unat (mc_addr_nb port) + 1 \<le> length pool" using mc_ok_room [OF p1(1)] u by simp
    obtain diag d2 where dr: "eth_port_multicast_addr_list_set api pid ?p1 d1 = Some (diag, d2)"
      using l u by (cases "rte_eth_dev_set_mc_addr_list api pid (take (Suc (unat (mc_addr_nb port))) pool) d1")
        (auto simp: eth_port_multicast_addr_list_set_def)
    show ?thesis
    proof (cases "diag < 0")
      case True
      have lt: "unat (mc_addr_nb port) < unat (mc_addr_nb ?p1)" using u by simp
      obtain pool' where rm: "mcast_addr_pool_remove (of_nat (unat (mc_addr_nb port))) ?p1 =
          Some (?p1\<lparr>mc_addr_pool := pool', mc_addr_nb := mc_addr_nb ?p1 - 1\<rparr>)"
        "take (unat (mc_addr_nb ?p1) - 1) pool' = take (unat (mc_addr_nb port)) (mc_list ?p1) @ drop (Suc (unat (mc_addr_nb port))) (mc_list ?p1)"
        "32 * ((unat (mc_addr_nb ?p1) - 1 + 31) div 32) \<le> length pool'"
        using mcast_remove_ok [OF p1(1) lt] by blast
      let ?p2 = "?p1\<lparr>mc_addr_pool := pool', mc_addr_nb := mc_addr_nb ?p1 - 1\<rparr>"
      have L: "take (unat (mc_addr_nb port)) (mc_list ?p1) @ drop (Suc (unat (mc_addr_nb port))) (mc_list ?p1) = mc_list port"
        using p1(2) length_mc_list [OF v(3)] by simp
      have p2: "mc_ok ?p2 \<and> mc_list ?p2 = mc_list port"
        using mc_ok_keep [of "mc_addr_nb ?p1 - 1" pool' "mc_list port" ?p1] rm(2,3) L u v(3) by (simp add: mc_ok_def)
      have "mcast_addr_add api pid a s = Some ((port_upd pid (\<lambda>_. ?p2) s)\<lparr>dev := d2\<rparr>)"
        using v(2) inv sr ap(1) dr True rm(1) by (simp add: mcast_addr_add_def)
      then show ?thesis using mc_port_upd [OF v(2,1), of ?p2 n d2] p2 v(4) by (auto simp: mc_set_def v(2))
    next
      case False
      then have "mcast_addr_add api pid a s = Some ((port_upd pid (\<lambda>_. ?p1) s)\<lparr>dev := d2\<rparr>)"
        using v(2) inv sr ap(1) dr by (simp add: mcast_addr_add_def)
      moreover have "unat (mc_addr_nb ?p1) + n + 32 < 2 ^ 32" using u v(4) by simp
      ultimately show ?thesis using mc_port_upd [OF v(2,1) p1(1), of n d2] p1(2) by (auto simp: mc_set_def v(2))
    qed
  qed
qed

lemma mcast_remove_step:
  assumes "realloc_ok api" "mc_port_ok s pid (Suc n)"
  shows "\<exists>s'. mcast_addr_remove api pid a s = Some s' \<and> mc_port_ok s' pid n \<and>
    (mc_set s' pid = mc_set s pid - {a} \<or> mc_set s' pid = mc_set s pid)"
proof -
  obtain port where v: "\<not> bad_port s pid" "port_get s pid = Some port" "mc_ok port" "unat (mc_addr_nb port) + Suc n + 32 < 2 ^ 32"
    using assms(2) unfolding mc_port_ok_def by blast
  have inv: "\<not> port_id_is_invalid s pid" using v(1) by (simp add: bad_port_def)
  note room = mc_ok_room [OF v(3)]
  show ?thesis
  proof (cases "a \<in> set (mc_list port)")
    case False
    then have "mcast_addr_remove api pid a s = Some s"
      using v(2) inv mc_search_new [OF room, of a] by (simp add: mc_list_def mcast_addr_remove_def)
    moreover have "mc_port_ok s pid n" using v unfolding mc_port_ok_def by auto
    ultimately show ?thesis by blast
  next
    case True
    then obtain i where i: "mc_search a (mc_addr_pool port) (unat (mc_addr_nb port)) = Some i" "i < unat (mc_addr_nb port)"
      "mc_addr_pool port ! i = a" using mc_search_old [OF room, of a] by (auto simp: mc_list_def)
    then have il: "i < length (mc_list port)" "mc_list port ! i = a" using length_mc_list [OF v(3)] by (simp_all add: mc_list_def)
    obtain pool where rm: "mcast_addr_pool_remove (of_nat i) port =
        Some (port\<lparr>mc_addr_pool := pool, mc_addr_nb := mc_addr_nb port - 1\<rparr>)"
      "take (unat (mc_addr_nb port) - 1) pool = take i (mc_list port) @ drop (Suc i) (mc_list port)"
      "32 * ((unat (mc_addr_nb port) - 1 + 31) div 32) \<le> length pool"
      using mcast_remove_ok [OF v(3) i(2)] by blast
    let ?p1 = "port\<lparr>mc_addr_pool := pool, mc_addr_nb := mc_addr_nb port - 1\<rparr>"
    have "1 \<le> mc_addr_nb port" using i(2) by (simp add: word_le_nat_alt)
    then have u: "unat (mc_addr_nb port - 1) = unat (mc_addr_nb port) - 1" by (simp add: unat_sub)
    have one: "distinct (take i (mc_list port) @ drop (Suc i) (mc_list port))"
      "set (take i (mc_list port) @ drop (Suc i) (mc_list port)) = set (mc_list port) - {a}"
      using drop_one [OF il(1)] v(3) il(2) by (simp_all add: mc_ok_def)
    have p1: "mc_ok ?p1" "mc_list ?p1 = take i (mc_list port) @ drop (Suc i) (mc_list port)"
      using mc_ok_keep [of "mc_addr_nb port - 1" pool _ port] rm(2,3) one(1) u by auto
    obtain diag d1 where dr: "eth_port_multicast_addr_list_set api pid ?p1 (dev s) = Some (diag, d1)"
      using mc_ok_room [OF p1(1)]
      by (cases "rte_eth_dev_set_mc_addr_list api pid (take (unat (mc_addr_nb port - 1)) pool) (dev s)")
        (auto simp: eth_port_multicast_addr_list_set_def)
    show ?thesis
    proof (cases "diag < 0")
      case True
      have small: "unat (mc_addr_nb ?p1) + 32 < 2 ^ 32" using u v(4) by simp
      have new: "a \<notin> set (mc_list ?p1)" using p1(2) one(2) by simp
      obtain pool' d2 where ap: "mcast_addr_pool_append api a ?p1 d1 =
          Some (?p1\<lparr>mc_addr_pool := pool', mc_addr_nb := mc_addr_nb ?p1 + 1\<rparr>, d2)"
        "take (Suc (unat (mc_addr_nb ?p1))) pool' = mc_list ?p1 @ [a]"
        "32 * ((Suc (unat (mc_addr_nb ?p1)) + 31) div 32) \<le> length pool'"
        using mcast_append_ok [OF assms(1) p1(1) small new, of d1] by blast
      let ?p2 = "?p1\<lparr>mc_addr_pool := pool', mc_addr_nb := mc_addr_nb ?p1 + 1\<rparr>"
      note u2 = conjunct1 [OF unat_suc [OF small]]
      have "distinct (mc_list ?p1 @ [a])" using new p1(1) by (simp add: mc_ok_def)
      then have p2: "mc_ok ?p2" "mc_list ?p2 = mc_list ?p1 @ [a]"
        using mc_ok_keep [of "mc_addr_nb ?p1 + 1" pool' "mc_list ?p1 @ [a]" ?p1] ap(2,3) u2 by auto
      have "set (mc_list ?p2) = set (mc_list port)" unfolding p2(2) p1(2) set_append [of _ "[a]"] one(2)
        using nth_mem [OF il(1)] il(2) by auto
      moreover have "unat (mc_addr_nb ?p2) + n + 32 < 2 ^ 32" using v(4) by simp
      moreover have "mcast_addr_remove api pid a s = Some ((port_upd pid (\<lambda>_. ?p2) s)\<lparr>dev := d2\<rparr>)"
        using v(2) inv i rm(1) dr True ap(1) by (simp add: mcast_addr_remove_def)
      ultimately show ?thesis using mc_port_upd [OF v(2,1) p2(1), of n d2] by (auto simp: mc_set_def v(2))
    next
      case False
      have "mcast_addr_remove api pid a s = Some ((port_upd pid (\<lambda>_. ?p1) s)\<lparr>dev := d1\<rparr>)"
        using v(2) inv i rm(1) dr False by (simp add: mcast_addr_remove_def)
      moreover have "unat (mc_addr_nb ?p1) + n + 32 < 2 ^ 32" using v(4) u by simp
      ultimately show ?thesis using mc_port_upd [OF v(2,1) p1(1), of n d1] p1(2) one(2) by (auto simp: mc_set_def v(2))
    qed
  qed
qed

lemma mcast_flush_step:
  assumes "mc_port_ok s pid (Suc n)"
  shows "\<exists>s'. mcast_addr_flush api pid s = Some s' \<and> mc_port_ok s' pid n \<and>
    (mc_set s' pid = {} \<or> mc_set s' pid = mc_set s pid)"
proof -
  obtain port where v: "\<not> bad_port s pid" "port_get s pid = Some port" "mc_ok port" "unat (mc_addr_nb port) + Suc n + 32 < 2 ^ 32"
    using assms unfolding mc_port_ok_def by blast
  have inv: "\<not> port_id_is_invalid s pid" using v(1) by (simp add: bad_port_def)
  obtain ret d where r: "rte_eth_dev_set_mc_addr_list api pid [] (dev s) = (ret, d)" by fastforce
  have b: "bad_port (s\<lparr>dev := d\<rparr>) pid = bad_port s pid" by (rule bad_port_cong) simp
  have same: "mc_port_ok (s\<lparr>dev := d\<rparr>) pid n" "mc_set (s\<lparr>dev := d\<rparr>) pid = mc_set s pid"
    using v b by (auto simp: mc_port_ok_def mc_set_def)
  let ?t = "port_upd pid (\<lambda>p. p\<lparr>mc_addr_pool := [], mc_addr_nb := 0\<rparr>) (s\<lparr>dev := d\<rparr>)"
  have t: "mc_port_ok ?t pid n" "mc_set ?t pid = {}"
    using v(1,2,4) bad_port_cong [of ?t s pid] by (auto simp: mc_port_ok_def mc_set_def port_get_upd mc_ok_def mc_list_def)
  have z: "mc_addr_nb port = 0 \<Longrightarrow> mc_set s pid = {}" using v(2) by (simp add: mc_set_def mc_list_def)
  show ?thesis
  proof (cases "ret = 0")
    case True
    then have "mcast_addr_flush api pid s = Some (if mc_addr_nb port \<noteq> 0 then ?t else s\<lparr>dev := d\<rparr>)"
      using v(1,2) inv r b by (simp add: mcast_addr_flush_def mcast_addr_pool_destroy_def)
    then show ?thesis using t same z by (cases "mc_addr_nb port = 0") auto
  next
    case False
    then show ?thesis using inv r same by (simp add: mcast_addr_flush_def)
  qed
qed

lemma mc_exec_step:
  assumes "realloc_ok api" "mc_port_ok s pid (Suc n)"
  shows "\<exists>s'. mc_exec api pid c s = Some s' \<and> mc_port_ok s' pid n \<and>
    (mc_set s' pid = mc_spec c (mc_set s pid) \<or> mc_set s' pid = mc_set s pid)"
  using mcast_add_step [OF assms] mcast_remove_step [OF assms] mcast_flush_step [OF assms(2)] by (cases c) simp_all

text \<open>A script of commands, and the set a script can leave when some commands are refused.\<close>

fun mc_run :: "('d, 'z) mc_api_scheme \<Rightarrow> u16 \<Rightarrow> mc_cmd list \<Rightarrow> 'd st \<Rightarrow> 'd st option" where
  "mc_run api pid [] s = Some s"
| "mc_run api pid (c # cs) s = do { s1 \<leftarrow> mc_exec api pid c s; mc_run api pid cs s1 }"

lemma mc_run_steps:
  assumes "realloc_ok api" "mc_port_ok s pid (length cs)"
  shows "\<exists>s' done. mc_run api pid cs s = Some s' \<and> mc_port_ok s' pid 0 \<and> subseq done cs \<and>
    mc_set s' pid = fold mc_spec done (mc_set s pid)"
  using assms(2)
proof (induction cs arbitrary: s)
  case (Cons c cs)
  from Cons.prems have "mc_port_ok s pid (Suc (length cs))" by simp
  from mc_exec_step [OF assms(1) this, of c] obtain s1 where s1: "mc_exec api pid c s = Some s1" "mc_port_ok s1 pid (length cs)"
    "mc_set s1 pid = mc_spec c (mc_set s pid) \<or> mc_set s1 pid = mc_set s pid" by blast
  obtain s' ds where s': "mc_run api pid cs s1 = Some s'" "mc_port_ok s' pid 0" "subseq ds cs"
    "mc_set s' pid = fold mc_spec ds (mc_set s1 pid)" using Cons.IH [OF s1(2)] by blast
  show ?case
  proof (cases "mc_set s1 pid = mc_set s pid")
    case True
    with s1(1) s' show ?thesis by (intro exI [of _ s'] exI [of _ ds]) (simp add: list_emb_Cons)
  next
    case False
    with s1 s' show ?thesis by (intro exI [of _ s'] exI [of _ "c # ds"]) simp
  qed
qed auto


text \<open>
  C39: when the pool cannot grow and the driver then refuses the unchanged list, the rollback of the
  add command removes an entry that was never added and moves memory outside the pool.
\<close>

theorem mcast_add_rollback_overrun:
  assumes "\<not> bad_port s pid" "port_get s pid = Some port" "mc_ok port" "a \<notin> set (mc_list port)"
    "mc_addr_nb port mod 32 = 0" "mc_realloc api (mc_addr_pool port) (unat (mc_addr_nb port + 32)) (dev s) = (None, d)"
    "fst (rte_eth_dev_set_mc_addr_list api pid (mc_list port) d) < 0" "length (mc_addr_pool port) < 2 ^ 32 - 1"
  shows "mcast_addr_add api pid a s = None"
proof -
  let ?n = "mc_addr_nb port"
  note room = mc_ok_room [OF assms(3)]
  have "mc_search a (mc_addr_pool port) (unat ?n) = Some (unat ?n)"
    using mc_search_new [OF room, of a] assms(4) by (simp add: mc_list_def)
  moreover have "mcast_addr_pool_append api a port (dev s) = Some (port, d)"
    using assms(5,6) by (simp add: mcast_addr_pool_append_def mcast_addr_pool_extend_def)
  moreover have "\<exists>r d'. eth_port_multicast_addr_list_set api pid port d = Some (r, d') \<and> r < 0"
    using assms(7) room by (cases "rte_eth_dev_set_mc_addr_list api pid (mc_list port) d")
      (auto simp: eth_port_multicast_addr_list_set_def mc_list_def)
  moreover have "mcast_addr_pool_remove (of_nat (unat ?n)) port = None"
  proof -
    have "?n \<noteq> ?n - 1" by simp
    moreover have "unat (?n - 1 - ?n) = 2 ^ 32 - 1"
    proof -
      have "?n - 1 - ?n = - 1" by simp
      then show ?thesis by (simp add: unsigned_minus_1_eq_mask mask_eq_exp_minus_1)
    qed
    ultimately show ?thesis using assms(8) by (simp add: mcast_addr_pool_remove_def Let_def)
  qed
  ultimately show ?thesis using assms(1,2) by (auto simp: mcast_addr_add_def bad_port_def)
qed

end
