(* ===== verification/PortControl.thy ===== *)
theory PortControl
  imports PortQueues IndirectActions Mcast
begin

text \<open>
  The life of a port (\<^verbatim>\<open>start_port\<close>, \<^verbatim>\<open>stop_port\<close>, \<^verbatim>\<open>close_port\<close>, \<^verbatim>\<open>reset_port\<close> of \<^verbatim>\<open>dpdk.cpp\<close> with the
  functions they use): stopped, started and closed, and handling while a command is at work.  The
  commands act on one port or on all; the state is the one of the flow commands and, for the lists
  of ports, the one of the forwarding configuration.
\<close>

section \<open>Questions about ports\<close>

definition port_is_forwarding :: "fwd_st \<Rightarrow> 'd st \<Rightarrow> u16 \<Rightarrow> int option" where
  "port_is_forwarding f s pid =
     (if port_id_is_invalid s pid then Some (- 1)
      else if length (fwd_ports_ids f) < unat (g_nb_fwd_ports f) then None
      else Some (if pid \<in> set (take (unat (g_nb_fwd_ports f)) (fwd_ports_ids f)) then 1 else 0))"

definition port_is_stopped :: "'d st \<Rightarrow> u16 \<Rightarrow> bool option" where
  "port_is_stopped s pid =
     map_option (\<lambda>p. \<not> (port_status p \<noteq> RTE_PORT_STOPPED \<and> \<not> member_flag p)) (port_get s pid)"

fun all_stopped :: "u16 list \<Rightarrow> 'd st \<Rightarrow> bool option" where
  "all_stopped [] s = Some True"
| "all_stopped (p # ps) s = do { b \<leftarrow> port_is_stopped s p; (if b then all_stopped ps s else Some False) }"

definition all_ports_stopped :: "'d st \<Rightarrow> bool option" where
  "all_ports_stopped s = all_stopped (eth_devs s) s"

fun all_started :: "u16 list \<Rightarrow> 'd st \<Rightarrow> bool option" where
  "all_started [] s = Some True"
| "all_started (p # ps) s = do {
     port \<leftarrow> port_get s p;
     (if port_status port \<noteq> RTE_PORT_STARTED \<and> \<not> member_flag port then Some False else all_started ps s)
   }"

definition all_ports_started :: "'d st \<Rightarrow> bool option" where
  "all_ports_started s = all_started (eth_devs s) s"

definition port_is_started :: "'d st \<Rightarrow> u16 \<Rightarrow> bool option" where
  "port_is_started s pid =
     (if port_id_is_invalid s pid then Some False
      else map_option (\<lambda>p. port_status p = RTE_PORT_STARTED) (port_get s pid))"

section \<open>Links\<close>

text \<open>One look at all links: whether all are up; it ends at the first that is down, unless it prints.\<close>

fun link_round ::
  "('d, 'z) port_api_scheme \<Rightarrow> u32 \<Rightarrow> bool \<Rightarrow> u16 list \<Rightarrow> bool \<Rightarrow> 'd \<Rightarrow> bool \<times> 'd" where
  "link_round api port_mask print_flag [] up d = (up, d)"
| "link_round api port_mask print_flag (p # ps) up d =
     (if \<not> bit port_mask (unat p) then link_round api port_mask print_flag ps up d
      else (case rte_eth_link_get_nowait api p d of (ret, lnk, d1) \<Rightarrow>
        if ret < 0 then link_round api port_mask print_flag ps False d1
        else if print_flag then link_round api port_mask print_flag ps up d1
        else if \<not> lnk then (False, d1)
        else link_round api port_mask print_flag ps up d1))"

text \<open>The rounds: one more to print when all links are up, at most ninety to wait.\<close>

fun link_rounds ::
  "('d, 'z) port_api_scheme \<Rightarrow> bool \<Rightarrow> u32 \<Rightarrow> u16 list \<Rightarrow> nat list \<Rightarrow> bool \<Rightarrow> 'd \<Rightarrow> 'd" where
  "link_rounds api lsc port_mask devs [] print_flag d = d"
| "link_rounds api lsc port_mask devs (n # ns) print_flag d =
     (case link_round api port_mask print_flag devs True d of (up, d1) \<Rightarrow>
        if print_flag \<or> lsc then d1
        else link_rounds api lsc port_mask devs ns (up \<or> n = 89) d1)"

definition check_all_ports_link_status ::
  "('d, 'z) port_api_scheme \<Rightarrow> ctl \<Rightarrow> u32 \<Rightarrow> 'd st \<Rightarrow> 'd st" where
  "check_all_ports_link_status api c port_mask s =
     s\<lparr>dev := link_rounds api (lsc_interrupt c) port_mask (eth_devs s) [0..<91] False (dev s)\<rparr>"

section \<open>Extended statistics\<close>

text \<open>A failed allocation ends the process and is no result.\<close>

fun xstats_ids :: "('d, 'z) port_api_scheme \<Rightarrow> u16 \<Rightarrow> string list \<Rightarrow> nat \<Rightarrow> 'd \<Rightarrow> nat \<times> 'd" where
  "xstats_ids api pi [] n d = (n, d)"
| "xstats_ids api pi (x # xs) n d =
     (case rte_eth_xstats_get_id_by_name api pi x d of (rc, d1) \<Rightarrow>
        xstats_ids api pi xs (if rc \<noteq> 0 then n else Suc n) d1)"

definition alloc_xstats_display_info ::
  "('d, 'z) port_api_scheme \<Rightarrow> ctl \<Rightarrow> u16 \<Rightarrow> 'd st \<Rightarrow> int \<times> 'd st" where
  "alloc_xstats_display_info api c pi s =
     (if xstats_display c = [] then (0, s)
      else (case c_calloc api s of (ok1, s1) \<Rightarrow> if \<not> ok1 then (- ENOMEM, s1)
      else (case c_calloc api s1 of (ok2, s2) \<Rightarrow> if \<not> ok2 then (- ENOMEM, s2)
      else (case c_calloc api s2 of (ok3, s3) \<Rightarrow> if \<not> ok3 then (- ENOMEM, s3)
      else (0, port_upd pi (\<lambda>p. p\<lparr>xstats_allocated := True\<rparr>) s3)))))"

definition free_xstats_display_info :: "u16 \<Rightarrow> 'd st \<Rightarrow> 'd st option" where
  "free_xstats_display_info pi s = do {
     port \<leftarrow> port_get s pi;
     Some (if \<not> xstats_allocated port then s else port_upd pi (\<lambda>p. p\<lparr>xstats_allocated := False\<rparr>) s)
   }"

definition fill_xstats_one :: "('d, 'z) port_api_scheme \<Rightarrow> ctl \<Rightarrow> u16 \<Rightarrow> 'd st \<Rightarrow> 'd st option" where
  "fill_xstats_one api c pi s = do {
     port \<leftarrow> port_get s pi;
     (if port_status port \<noteq> RTE_PORT_STARTED then Some s
      else (case (if xstats_allocated port then (0, s) else alloc_xstats_display_info api c pi s) of (rc, s1) \<Rightarrow>
        if rc \<noteq> 0 then None
        else (case xstats_ids api pi (xstats_display c) 0 (dev s1) of (n, d) \<Rightarrow>
                Some (port_upd pi (\<lambda>p. p\<lparr>ids_supp_sz := n\<rparr>) (s1\<lparr>dev := d\<rparr>)))))
   }"

definition fill_xstats_display_info :: "('d, 'z) port_api_scheme \<Rightarrow> ctl \<Rightarrow> 'd st \<Rightarrow> 'd st option" where
  "fill_xstats_display_info api c s =
     (if xstats_display c = [] then Some s else foreach (fill_xstats_one api c) (eth_devs s) s)"

definition fill_xstats_display_info_for_port ::
  "('d, 'z) port_api_scheme \<Rightarrow> ctl \<Rightarrow> u16 \<Rightarrow> 'd st \<Rightarrow> 'd st option" where
  "fill_xstats_display_info_for_port api c pi s =
     (if xstats_display c = [] then Some s
      else if pi = RTE_PORT_ALL then fill_xstats_display_info api c s
      else fill_xstats_one api c pi s)"

section \<open>Starting\<close>

text \<open>
  The steps of one port.  A step answers whether the command goes on; when it does not, the command
  returns the error \<open>-1\<close> at once.
\<close>

definition eth_dev_configure_mp ::
  "('d, 'z) port_api_scheme \<Rightarrow> ctl \<Rightarrow> u16 \<Rightarrow> u16 \<Rightarrow> u16 \<Rightarrow> rte_port \<Rightarrow> 'd \<Rightarrow> int \<times> 'd" where
  "eth_dev_configure_mp api c pi nrx ntx port d =
     (if proc_primary c then rte_eth_dev_configure api pi nrx ntx port d else (0, d))"

definition eth_dev_start_mp :: "('d, 'z) port_api_scheme \<Rightarrow> ctl \<Rightarrow> u16 \<Rightarrow> 'd \<Rightarrow> int \<times> 'd" where
  "eth_dev_start_mp api c pi d = (if proc_primary c then rte_eth_dev_start api pi d else (0, d))"

definition eth_dev_stop_mp :: "('d, 'z) port_api_scheme \<Rightarrow> ctl \<Rightarrow> u16 \<Rightarrow> 'd \<Rightarrow> int \<times> 'd" where
  "eth_dev_stop_mp api c pi d = (if proc_primary c then rte_eth_dev_stop api pi d else (0, d))"

text \<open>The offloads the device reports are added to those of the port and of its queues.\<close>

definition apply_offloads :: "u64 \<Rightarrow> u64 \<Rightarrow> rte_port \<Rightarrow> rte_port option" where
  "apply_offloads rxo txo p = do {
     p1 \<leftarrow> (if rxo = rxmode_offloads p then Some p
            else if unat (max_rx_queues (dev_info p)) \<le> length (rxq_conf p)
            then Some (p\<lparr>rxmode_offloads := or (rxmode_offloads p) rxo,
                   rxq_conf := map (\<lambda>q. q\<lparr>rx_offloads := or (rx_offloads q) rxo\<rparr>)
                       (take (unat (max_rx_queues (dev_info p))) (rxq_conf p)) @
                     drop (unat (max_rx_queues (dev_info p))) (rxq_conf p)\<rparr>)
            else None);
     (if txo = txmode_offloads p1 then Some p1
      else if unat (max_tx_queues (dev_info p1)) \<le> length (txq_conf p1)
      then Some (p1\<lparr>txmode_offloads := or (txmode_offloads p1) txo,
             txq_conf := map (\<lambda>q. q\<lparr>tx_offloads := or (tx_offloads q) txo\<rparr>)
                 (take (unat (max_tx_queues (dev_info p1))) (txq_conf p1)) @
               drop (unat (max_tx_queues (dev_info p1))) (txq_conf p1)\<rparr>)
      else None)
   }"

definition start_configure ::
  "('d, 'z) port_api_scheme \<Rightarrow> ctl \<Rightarrow> fwd_st \<Rightarrow> u16 \<Rightarrow> 'd st \<Rightarrow> (bool \<times> 'd st) option" where
  "start_configure api c f pi s0 =
     (let s = port_upd pi (\<lambda>p. p\<lparr>need_reconfig := 0\<rparr>) s0;
          (iso, s1) = (if flow_isolate_all c then port_flow_isolate api pi 1 s else (0, s)) in
      if iso \<noteq> 0 then Some (False, s1)
      else do {
        s2 \<leftarrow> configure_rxtx_dump_callbacks api 0 s1;
        (let (cap, d2) = (if nb_hairpinq c > 0 then rte_eth_dev_hairpin_capability_get api pi (dev s2) else (0, dev s2));
             s3 = s2\<lparr>dev := d2\<rparr> in
         if cap \<noteq> 0 then Some (False, s3)
         else do {
           port \<leftarrow> port_get s3 pi;
           (case eth_dev_configure_mp api c pi (nb_rxq f + nb_hairpinq c) (nb_txq f + nb_hairpinq c) port (dev s3) of
              (diag, d4) \<Rightarrow>
              (let s4 = s3\<lparr>dev := d4\<rparr> in
               if diag \<noteq> 0 then Some (False, port_upd pi (\<lambda>p. p\<lparr>need_reconfig := 1\<rparr>) (set_back pi s4))
               else (case rte_eth_dev_conf_get api pi (dev s4) of (ret, rxo, txo, d5) \<Rightarrow>
                 (let s5 = s4\<lparr>dev := d5\<rparr> in
                  if ret \<noteq> 0 then Some (False, s5)
                  else do {
                    port5 \<leftarrow> port_get s5 pi;
                    port6 \<leftarrow> apply_offloads rxo txo port5;
                    Some (True, port_upd pi (\<lambda>_. port6) s5)
                  }))))
         })
      })"

text \<open>The socket of the rings of a port.\<close>

definition ring_socket :: "fwd_st \<Rightarrow> u8 list \<Rightarrow> u16 \<Rightarrow> rte_port \<Rightarrow> u32 option" where
  "ring_socket f numa pi port =
     (if numa_support f
      then map_option (\<lambda>n. if n \<noteq> NUMA_NO_CONFIG then ucast n else socket_id port) (at numa (unat pi))
      else Some (socket_id port))"

fun start_txqs ::
  "('d, 'z) port_api_scheme \<Rightarrow> ctl \<Rightarrow> fwd_st \<Rightarrow> u16 \<Rightarrow> nat list \<Rightarrow> 'd st \<Rightarrow> (bool \<times> 'd st) option" where
  "start_txqs api c f pi [] s = Some (True, s)"
| "start_txqs api c f pi (q # qs) s = do {
     port \<leftarrow> port_get s pi;
     conf \<leftarrow> at (txq_conf port) q;
     nb \<leftarrow> at (nb_tx_desc port) q;
     sock \<leftarrow> ring_socket f (txring_numa c) pi port;
     (case rte_eth_tx_queue_setup api pi q nb sock conf (dev s) of (diag, d) \<Rightarrow>
        if diag = 0 then do {
          s1 \<leftarrow> txq_state_set pi q (if tx_deferred_start conf then QUEUE_STATE_STOPPED else QUEUE_STATE_STARTED)
                 (s\<lparr>dev := d\<rparr>);
          start_txqs api c f pi qs s1
        }
        else Some (False, queues_again pi (s\<lparr>dev := d\<rparr>)))
   }"

fun start_rxqs ::
  "('d, 'z) port_api_scheme \<Rightarrow> ctl \<Rightarrow> fwd_st \<Rightarrow> u16 \<Rightarrow> nat list \<Rightarrow> 'd st \<Rightarrow> (bool \<times> 'd st) option" where
  "start_rxqs api c f pi [] s = Some (True, s)"
| "start_rxqs api c f pi (q # qs) s = do {
     port \<leftarrow> port_get s pi;
     sock \<leftarrow> ring_socket f (rxring_numa c) pi port;
     (let mp = mbuf_pool_find api sock 0 (dev s) in
      if mp = 0 then Some (False, s)
      else do {
        conf \<leftarrow> at (rxq_conf port) q;
        nb \<leftarrow> at (nb_rx_desc port) q;
        (diag, s1) \<leftarrow> rx_queue_setup api c pi q nb sock conf mp s;
        (if diag = 0 then start_rxqs api c f pi qs s1 else Some (False, queues_again pi s1))
      })
   }"

definition start_queues ::
  "('d, 'z) port_api_scheme \<Rightarrow> ctl \<Rightarrow> fwd_st \<Rightarrow> u16 \<Rightarrow> u16 \<Rightarrow> u16 \<Rightarrow> 'd st \<Rightarrow> (bool \<times> 'd st) option" where
  "start_queues api c f pi p_pi cnt_pi s = do {
     (ok1, s1) \<leftarrow> start_txqs api c f pi [0..<unat (nb_txq f)] (port_upd pi (\<lambda>p. p\<lparr>need_reconfig_queues := 0\<rparr>) s);
     (if \<not> ok1 then Some (False, s1)
      else do {
        (ok2, s2) \<leftarrow> start_rxqs api c f pi [0..<unat (nb_rxq f)] s1;
        (if \<not> ok2 then Some (False, s2)
         else do {
           (rc, s3) \<leftarrow> setup_hairpin_queues api c f pi p_pi cnt_pi s2;
           Some (rc = 0, s3)
         })
      })
   }"

text \<open>The last step; it answers whether the port was started.\<close>

definition start_device ::
  "('d, 'z) port_api_scheme \<Rightarrow> ctl \<Rightarrow> u16 \<Rightarrow> 'd st \<Rightarrow> (bool \<times> 'd st) option" where
  "start_device api c pi s0 = do {
     s1 \<leftarrow> configure_rxtx_dump_callbacks api (verbose_level c) s0;
     (let s2 = s1\<lparr>dev := (if clear_ptypes c then snd (rte_eth_dev_set_ptypes api pi (dev s1)) else dev s1)\<rparr> in
      case eth_dev_start_mp api c pi (dev s2) of (diag, d3) \<Rightarrow>
        (let s3 = s2\<lparr>dev := d3\<rparr> in
         if diag < 0 then Some (False, set_back pi s3)
         else (let s4 = port_upd pi (\<lambda>p. if port_status p = RTE_PORT_HANDLING then p\<lparr>port_status := RTE_PORT_STARTED\<rparr> else p) s3 in
               case rte_eth_macaddr_get api pi (dev s4) of (ret, mac, d5) \<Rightarrow>
                 Some (True, (if ret = 0 then port_upd pi (\<lambda>p. p\<lparr>eth_addr := mac\<rparr>) s4 else s4)\<lparr>dev := d5\<rparr>))))
   }"

text \<open>What the loop over the ports carries along.\<close>

record start_acc =
  p_pi :: u16
  cnt_pi :: u16
  started :: "u16 list"

definition start_one ::
  "('d, 'z) port_api_scheme \<Rightarrow> ctl \<Rightarrow> fwd_st \<Rightarrow> u16 \<Rightarrow> start_acc \<Rightarrow> 'd st \<Rightarrow> (bool \<times> start_acc \<times> 'd st) option" where
  "start_one api c f pi a s = do {
     port \<leftarrow> port_get s pi;
     (if port_status port \<noteq> RTE_PORT_STOPPED then Some (True, a, s)
      else do {
        (let s0 = port_upd pi (\<lambda>p. p\<lparr>port_status := RTE_PORT_HANDLING\<rparr>) s in do {
           (ok1, s1) \<leftarrow> (if need_reconfig port > 0 then start_configure api c f pi s0 else Some (True, s0));
           (if \<not> ok1 then Some (False, a, s1)
            else do {
              port1 \<leftarrow> port_get s1 pi;
              (ok2, s2) \<leftarrow> (if need_reconfig_queues port1 > 0 \<and> proc_primary c
                            then start_queues api c f pi (p_pi a) (cnt_pi a) s1 else Some (True, s1));
              (if \<not> ok2 then Some (False, a, s2)
               else do {
                 (up, s3) \<leftarrow> start_device api c pi s2;
                 Some (True, \<lparr>p_pi = pi, cnt_pi = cnt_pi a + 1, started = started a @ (if up then [pi] else [])\<rparr>, s3)
               })
            })
         })
      })
   }"

fun start_loop ::
  "('d, 'z) port_api_scheme \<Rightarrow> ctl \<Rightarrow> fwd_st \<Rightarrow> u16 \<Rightarrow> u16 list \<Rightarrow> start_acc \<Rightarrow> 'd st
    \<Rightarrow> (bool \<times> start_acc \<times> 'd st) option" where
  "start_loop api c f pid [] a s = Some (True, a, s)"
| "start_loop api c f pid (pi # pis) a s =
     (if pid \<noteq> pi \<and> pid \<noteq> RTE_PORT_ALL then start_loop api c f pid pis a s
      else do {
        (ok, a1, s1) \<leftarrow> start_one api c f pi a s;
        (if ok then start_loop api c f pid pis a1 s1 else Some (False, a1, s1))
      })"

text \<open>Binding the hairpin queues of the ports that were started with those of their peers.\<close>

fun bind_peers ::
  "('d, 'z) port_api_scheme \<Rightarrow> (u16 \<Rightarrow> 'd \<Rightarrow> int \<times> 'd) \<Rightarrow> u16 list \<Rightarrow> 'd st \<Rightarrow> (int \<times> 'd st) option" where
  "bind_peers api bindp [] s = Some (0, s)"
| "bind_peers api bindp (peer # peers) s = do {
     up \<leftarrow> port_is_started s peer;
     (if \<not> up then bind_peers api bindp peers s
      else (case bindp peer (dev s) of (diag, d) \<Rightarrow>
              if diag < 0 then Some (- 1, s\<lparr>dev := d\<rparr>) else bind_peers api bindp peers (s\<lparr>dev := d\<rparr>)))
   }"

fun bind_hairpins :: "('d, 'z) port_api_scheme \<Rightarrow> u16 list \<Rightarrow> 'd st \<Rightarrow> (int \<times> 'd st) option" where
  "bind_hairpins api [] s = Some (0, s)"
| "bind_hairpins api (pi # pis) s =
     (case rte_eth_hairpin_get_peer_ports api pi True (dev s) of (n1, peers1, d1) \<Rightarrow>
        if n1 < 0 then Some (n1, s\<lparr>dev := d1\<rparr>)
        else do {
          (r1, s1) \<leftarrow> bind_peers api (rte_eth_hairpin_bind api pi) (take (nat n1) peers1) (s\<lparr>dev := d1\<rparr>);
          (if r1 \<noteq> 0 then Some (r1, s1)
           else (case rte_eth_hairpin_get_peer_ports api pi False (dev s1) of (n2, peers2, d2) \<Rightarrow>
             if n2 < 0 then Some (n2, s1\<lparr>dev := d2\<rparr>)
             else do {
               (r2, s2) \<leftarrow> bind_peers api (\<lambda>peer. rte_eth_hairpin_bind api peer pi) (take (nat n2) peers2) (s1\<lparr>dev := d2\<rparr>);
               (if r2 \<noteq> 0 then Some (r2, s2) else bind_hairpins api pis s2)
             }))
        })"

text \<open>
  The loop variable is the number of ports when the loop over the devices has ended; the queue
  states are refreshed for that number.
\<close>

definition start_port ::
  "('d, 'z) port_api_scheme \<Rightarrow> ctl \<Rightarrow> fwd_st \<Rightarrow> u16 \<Rightarrow> 'd st \<Rightarrow> (int \<times> 'd st) option" where
  "start_port api c f pid s =
     (if port_id_is_invalid s pid then Some (0, s)
      else do {
        (ok, a, s1) \<leftarrow> start_loop api c f pid (eth_devs s) \<lparr>p_pi = max_ethports c, cnt_pi = 0, started = []\<rparr> s;
        (if \<not> ok then Some (- 1, s1)
         else do {
           s2 \<leftarrow> update_queue_state api c f (max_ethports c) s1;
           (let s3 = (if started a \<noteq> [] \<and> \<not> no_link_check c
                      then check_all_ports_link_status api c (ucast RTE_PORT_ALL) s2 else s2) in do {
              (rc, s4) \<leftarrow> (if and (hairpin_mode c) 0xF \<noteq> 0 then bind_hairpins api (started a) s3 else Some (0, s3));
              (if rc \<noteq> 0 then Some (rc, s4)
               else map_option (\<lambda>t. (0, t)) (fill_xstats_display_info_for_port api c pid s4))
            })
         })
      })"

section \<open>Stopping\<close>

fun unbind_peers ::
  "('d, 'z) port_api_scheme \<Rightarrow> u16 \<Rightarrow> u16 list \<Rightarrow> 'd st \<Rightarrow> 'd st option" where
  "unbind_peers api pi [] s = Some s"
| "unbind_peers api pi (peer # peers) s = do {
     up \<leftarrow> port_is_started s peer;
     unbind_peers api pi peers (if up then s\<lparr>dev := rte_eth_hairpin_unbind api peer pi (dev s)\<rparr> else s)
   }"

text \<open>It answers whether the iteration goes on behind the hairpin part.\<close>

definition stop_hairpin ::
  "('d, 'z) port_api_scheme \<Rightarrow> ctl \<Rightarrow> u16 \<Rightarrow> 'd st \<Rightarrow> (bool \<times> 'd st) option" where
  "stop_hairpin api c pi s =
     (if and (hairpin_mode c) 0xF = 0 then Some (True, s)
      else (case rte_eth_hairpin_get_peer_ports api pi False (rte_eth_hairpin_unbind api pi (max_ethports c) (dev s)) of
              (n, peers, d) \<Rightarrow>
              if n < 0 then Some (False, s\<lparr>dev := d\<rparr>)
              else map_option (\<lambda>t. (True, t)) (unbind_peers api pi (take (nat n) peers) (s\<lparr>dev := d\<rparr>))))"

text \<open>One port; it answers whether the links are to be looked at.\<close>

definition stop_one ::
  "('d, 'z) port_api_scheme \<Rightarrow> ctl \<Rightarrow> fwd_st \<Rightarrow> u16 \<Rightarrow> 'd st \<Rightarrow> (bool \<times> 'd st) option" where
  "stop_one api c f pi s = do {
     fwd \<leftarrow> port_is_forwarding f s pi;
     (if fwd \<noteq> 0 then Some (False, s)
      else do {
        port \<leftarrow> port_get s pi;
        (if port_status port \<noteq> RTE_PORT_STARTED then Some (False, s)
         else do {
           (go, s1) \<leftarrow> stop_hairpin api c pi (port_upd pi (\<lambda>p. p\<lparr>port_status := RTE_PORT_HANDLING\<rparr>) s);
           (if \<not> go then Some (False, s1)
            else do {
              port1 \<leftarrow> port_get s1 pi;
              (_, s2) \<leftarrow> (if flow_list port1 \<noteq> [] \<and> \<not> no_flow_flush c then port_flow_flush api pi s1 else Some (0, s1));
              (case eth_dev_stop_mp api c pi (dev s2) of (ret, d) \<Rightarrow>
                 if ret \<noteq> 0
                 then Some (False, port_upd pi (\<lambda>p. p\<lparr>port_status := RTE_PORT_STARTED\<rparr>) (s2\<lparr>dev := d\<rparr>))
                 else Some (True, set_back pi (s2\<lparr>dev := d\<rparr>)))
            })
         })
      })
   }"

fun stop_loop ::
  "('d, 'z) port_api_scheme \<Rightarrow> ctl \<Rightarrow> fwd_st \<Rightarrow> u16 \<Rightarrow> u16 list \<Rightarrow> bool \<Rightarrow> 'd st \<Rightarrow> (bool \<times> 'd st) option" where
  "stop_loop api c f pid [] chk s = Some (chk, s)"
| "stop_loop api c f pid (pi # pis) chk s =
     (if pid \<noteq> pi \<and> pid \<noteq> RTE_PORT_ALL then stop_loop api c f pid pis chk s
      else do { (b, s1) \<leftarrow> stop_one api c f pi s; stop_loop api c f pid pis (chk \<or> b) s1 })"

definition stop_port ::
  "('d, 'z) port_api_scheme \<Rightarrow> ctl \<Rightarrow> fwd_st \<Rightarrow> u16 \<Rightarrow> 'd st \<Rightarrow> 'd st option" where
  "stop_port api c f pid s =
     (if port_id_is_invalid s pid then Some s
      else do {
        (chk, s1) \<leftarrow> stop_loop api c f pid (eth_devs s) False s;
        Some (if chk \<and> \<not> no_link_check c then check_all_ports_link_status api c (ucast RTE_PORT_ALL) s1 else s1)
      })"

section \<open>Closing\<close>

definition remove_invalid_ports_in :: "'d st \<Rightarrow> u16 list \<Rightarrow> u16 \<Rightarrow> (u16 list \<times> u16) option" where
  "remove_invalid_ports_in s array tot =
     (if length array < unat tot then None
      else (let valid = filter (\<lambda>p. \<not> port_id_is_invalid s p) (take (unat tot) array) in
            Some (valid @ drop (length valid) array, of_nat (length valid))))"

text \<open>The lists of ports outside the forwarding configuration.\<close>

record port_lists =
  ports_ids :: "u16 list"
  nb_cfg_ports :: u16

definition remove_invalid_ports :: "'d st \<Rightarrow> port_lists \<Rightarrow> fwd_st \<Rightarrow> (port_lists \<times> fwd_st) option" where
  "remove_invalid_ports s l f = do {
     (ids, n) \<leftarrow> remove_invalid_ports_in s (ports_ids l) (nb_ports f);
     (fids, fn) \<leftarrow> remove_invalid_ports_in s (fwd_ports_ids f) (g_nb_fwd_ports f);
     Some (l\<lparr>ports_ids := ids, nb_cfg_ports := fn\<rparr>,
           f\<lparr>nb_ports := n, fwd_ports_ids := fids, g_nb_fwd_ports := fn\<rparr>)
   }"

definition flush_port_owned_resources ::
  "('d, 'z) port_api_scheme \<Rightarrow> u16 \<Rightarrow> 'd st \<Rightarrow> 'd st option" where
  "flush_port_owned_resources api pi s = do {
     (_, s1) \<leftarrow> mcast_addr_pool_destroy pi s;
     (_, s2) \<leftarrow> port_flow_flush api pi s1;
     (_, s3) \<leftarrow> port_flow_template_table_flush api pi s2;
     (_, s4) \<leftarrow> port_flow_pattern_template_flush api pi s3;
     (_, s5) \<leftarrow> port_flow_actions_template_flush api pi s4;
     (_, s6) \<leftarrow> port_action_handle_flush api pi s5;
     Some s6
   }"

text \<open>
  Closing the device: when the library closes it, the port leaves the iterator and the event
  handler of the program, \<^verbatim>\<open>eth_event_callback\<close>, is called with the destroy event.
\<close>

definition eth_event_destroy :: "u16 \<Rightarrow> 'd st \<Rightarrow> 'd st" where
  "eth_event_destroy pi s = port_upd pi (\<lambda>p. p\<lparr>port_status := RTE_PORT_CLOSED\<rparr>) s"

definition dev_close :: "('d, 'z) port_api_scheme \<Rightarrow> u16 \<Rightarrow> 'd st \<Rightarrow> 'd st" where
  "dev_close api pi s =
     (case rte_eth_dev_close api pi (dev s) of (closed, d) \<Rightarrow>
        (let s1 = s\<lparr>dev := d\<rparr> in
         if closed then (eth_event_destroy pi s1)\<lparr>eth_devs := filter (\<lambda>p. p \<noteq> pi) (eth_devs s)\<rparr> else s1))"

definition close_one ::
  "('d, 'z) port_api_scheme \<Rightarrow> ctl \<Rightarrow> fwd_st \<Rightarrow> u16 \<Rightarrow> 'd st \<Rightarrow> 'd st option" where
  "close_one api c f pi s = do {
     fwd \<leftarrow> port_is_forwarding f s pi;
     (if fwd \<noteq> 0 then Some s
      else do {
        port \<leftarrow> port_get s pi;
        (if port_status port = RTE_PORT_CLOSED then Some s
         else do {
           s1 \<leftarrow> (if proc_primary c then map_option (dev_close api pi) (flush_port_owned_resources api pi s) else Some s);
           free_xstats_display_info pi s1
         })
      })
   }"

definition close_port ::
  "('d, 'z) port_api_scheme \<Rightarrow> ctl \<Rightarrow> u16 \<Rightarrow> port_lists \<Rightarrow> fwd_st \<Rightarrow> 'd st
    \<Rightarrow> (port_lists \<times> fwd_st \<times> 'd st) option" where
  "close_port api c pid l f s =
     (if port_id_is_invalid s pid then Some (l, f, s)
      else do {
        s1 \<leftarrow> foreach (\<lambda>pi s. if pid \<noteq> pi \<and> pid \<noteq> RTE_PORT_ALL then Some s else close_one api c f pi s) (eth_devs s) s;
        (l1, f1) \<leftarrow> remove_invalid_ports s1 l f;
        Some (l1, f1, s1)
      })"

section \<open>Resetting\<close>

definition reset_one ::
  "('d, 'z) port_api_scheme \<Rightarrow> ctl \<Rightarrow> fwd_st \<Rightarrow> u16 \<Rightarrow> 'd st \<Rightarrow> 'd st option" where
  "reset_one api c f pi s = do {
     fwd \<leftarrow> port_is_forwarding f s pi;
     (if fwd \<noteq> 0 \<or> \<not> proc_primary c then Some s
      else (case rte_eth_dev_reset api pi (dev s) of (diag, d) \<Rightarrow>
        if diag \<noteq> 0 then Some (s\<lparr>dev := d\<rparr>)
        else if port_get s pi = None then None
        else Some (port_upd pi (\<lambda>p. p\<lparr>need_reconfig := 1, need_reconfig_queues := 1\<rparr>) (s\<lparr>dev := d\<rparr>))))
   }"

definition reset_port ::
  "('d, 'z) port_api_scheme \<Rightarrow> ctl \<Rightarrow> fwd_st \<Rightarrow> u16 \<Rightarrow> 'd st \<Rightarrow> 'd st option" where
  "reset_port api c f pid s =
     (if port_id_is_invalid s pid then Some s
      else do {
        stopped \<leftarrow> (if pid = RTE_PORT_ALL then all_ports_stopped s else port_is_stopped s pid);
        (if \<not> stopped then Some s
         else foreach (\<lambda>pi s. if pid \<noteq> pi \<and> pid \<noteq> RTE_PORT_ALL then Some s else reset_one api c f pi s) (eth_devs s) s)
      })"

end
