(* ===== verification/PortLife.thy ===== *)
theory PortLife
  imports PortControl
begin

text \<open>
  What the port commands do to the status of ports: every command leaves alone what it is not asked
  for, and the status moves along a small state machine, the relation \<open>life\<close>.  The lemmas named
  \<open>keeps\<close> say that an operation changes no status; those named \<open>at_work\<close> follow a port through the
  steps of the start command.
\<close>

section \<open>Frames\<close>

definition status :: "'d st \<Rightarrow> u16 \<Rightarrow> u16 option" where
  "status s p = map_option port_status (port_get s p)"

text \<open>Nothing changes in the status of any port; nothing changes but in the status of one port.\<close>

definition keeps :: "'d st \<Rightarrow> 'd st \<Rightarrow> bool" where
  "keeps s t \<longleftrightarrow> eth_devs t = eth_devs s \<and> status t = status s"

lemma keepsD: "keeps s t \<Longrightarrow> eth_devs t = eth_devs s \<and> status t = status s"
  by (simp add: keeps_def)

lemma keeps_refl [simp]: "keeps s s"
  by (simp add: keeps_def)

lemma keeps_trans [trans]: "keeps s t \<Longrightarrow> keeps t u \<Longrightarrow> keeps s u"
  by (simp add: keeps_def)

lemma status_dev [simp]: "status (s\<lparr>dev := d\<rparr>) = status s"
  by (simp add: status_def fun_eq_iff)

lemma keeps_dev [simp]: "keeps s (s\<lparr>dev := d\<rparr>)"
  by (simp add: keeps_def)

lemma keeps_dev_iff [simp]: "keeps (s\<lparr>dev := d\<rparr>) t = keeps s t"
  by (simp add: keeps_def)

lemma status_upd:
  "status (port_upd pid g s) p =
     (if p = pid then map_option (\<lambda>port. port_status (g port)) (port_get s p) else status s p)"
  by (simp add: status_def port_get_upd option.map_comp comp_def)

lemma keeps_upd: "(\<And>port. port_status (g port) = port_status port) \<Longrightarrow> keeps s (port_upd pid g s)"
  by (auto simp: keeps_def status_upd fun_eq_iff) (simp add: status_def)

lemma keeps_upd_iff: "(\<And>port. port_status (g port) = port_status port) \<Longrightarrow> keeps (port_upd pid g s) t = keeps s t"
  using keeps_upd [of g s pid] by (auto simp: keeps_def)

lemma foreach_keeps:
  assumes "\<And>x s t. f x s = Some t \<Longrightarrow> keeps s t"
  shows "foreach f xs s = Some t \<Longrightarrow> keeps s t"
proof (induction xs arbitrary: s)
  case (Cons x xs)
  then obtain s1 where "f x s = Some s1" "foreach f xs s1 = Some t" by (auto simp: bind_eq_Some_conv)
  with Cons.IH assms show ?case by (blast intro: keeps_trans)
qed simp

lemma add_cbs_keeps:
  assumes "\<And>g port. port_status (put g port) = port_status port"
  shows "add_cbs install get put pid qs s = Some t \<Longrightarrow> keeps s t"
proof (induction qs arbitrary: s)
  case (Cons q qs)
  then obtain port where p: "port_get s pid = Some port" by (auto simp: bind_eq_Some_conv)
  obtain h d where i: "install pid q (dev s) = (h, d)" by fastforce
  show ?case
  proof (cases "get port ! q = 0")
    case True
    with Cons p i have "keeps (port_upd pid (put (\<lambda>cbs. cbs[q := h])) (s\<lparr>dev := d\<rparr>)) t" by (auto split: if_splits)
    then show ?thesis by (simp add: keeps_upd_iff assms)
  next
    case False
    with Cons p show ?thesis by (auto split: if_splits)
  qed
qed simp

lemma remove_cbs_keeps:
  assumes "\<And>g port. port_status (put g port) = port_status port"
  shows "remove_cbs uninstall get put pid qs s = Some t \<Longrightarrow> keeps s t"
proof (induction qs arbitrary: s)
  case (Cons q qs)
  then obtain port where p: "port_get s pid = Some port" by (auto simp: bind_eq_Some_conv)
  show ?case
  proof (cases "get port ! q = 0")
    case False
    with Cons p have "keeps (port_upd pid (put (\<lambda>cbs. cbs[q := 0])) (s\<lparr>dev := uninstall pid q (get port ! q) (dev s)\<rparr>)) t"
      by (auto split: if_splits)
    then show ?thesis by (simp add: keeps_upd_iff assms)
  next
    case True
    with Cons p show ?thesis by (auto split: if_splits)
  qed
qed simp

lemma with_queues_keeps:
  assumes "\<And>nrx ntx s t. loop nrx ntx s = Some t \<Longrightarrow> keeps s t" "with_queues api pid loop s = Some t"
  shows "keeps s t"
proof (cases "port_id_is_invalid s pid")
  case False
  obtain ret nrx ntx d where "rte_eth_dev_queues api pid (dev s) = (ret, nrx, ntx, d)" by (metis prod_cases4)
  with assms(2) False have "t = s\<lparr>dev := d\<rparr> \<or> loop nrx ntx (s\<lparr>dev := d\<rparr>) = Some t"
    by (simp add: with_queues_def split: if_splits)
  then show ?thesis using assms(1) [of nrx ntx "s\<lparr>dev := d\<rparr>" t] by auto
qed (use assms(2) in \<open>simp add: with_queues_def\<close>)

lemma dump_callbacks_keep:
  "add_rx_dump_callbacks api pid s = Some t \<Longrightarrow> keeps s t" "add_tx_dump_callbacks api pid s = Some t \<Longrightarrow> keeps s t"
  "remove_rx_dump_callbacks api pid s = Some t \<Longrightarrow> keeps s t" "remove_tx_dump_callbacks api pid s = Some t \<Longrightarrow> keeps s t"
  unfolding add_rx_dump_callbacks_def add_tx_dump_callbacks_def remove_rx_dump_callbacks_def remove_tx_dump_callbacks_def
  by (erule with_queues_keeps [rotated]; erule add_cbs_keeps [rotated] remove_cbs_keeps [rotated]; simp)+

lemma configure_dump_keeps: "configure_rxtx_dump_callbacks api verbose s = Some t \<Longrightarrow> keeps s t"
proof -
  have "dump_callbacks_loop api verbose pids s = Some t \<Longrightarrow> keeps s t" for pids
  proof (induction pids arbitrary: s)
    case (Cons p ps)
    then obtain s1 s2 where s1: "(if verbose = 1 \<or> verbose > 2 then add_rx_dump_callbacks api p s else remove_rx_dump_callbacks api p s) = Some s1"
      and s2: "(if verbose \<ge> 2 then add_tx_dump_callbacks api p s1 else remove_tx_dump_callbacks api p s1) = Some s2"
      and t: "dump_callbacks_loop api verbose ps s2 = Some t" by (auto simp: bind_eq_Some_conv)
    have "keeps s s1" using s1 dump_callbacks_keep(1,3) by (metis (mono_tags))
    also have "keeps s1 s2" using s2 dump_callbacks_keep(2,4) by (metis (mono_tags))
    also have "keeps s2 t" by (rule Cons.IH [OF t])
    finally show ?case .
  qed simp
  then show "configure_rxtx_dump_callbacks api verbose s = Some t \<Longrightarrow> keeps s t"
    by (simp add: configure_rxtx_dump_callbacks_def)
qed

lemma queue_state_set_keeps:
  "rxq_state_set pid q v s = Some t \<Longrightarrow> keeps s t" "txq_state_set pid q v s = Some t \<Longrightarrow> keeps s t"
  by (auto simp: rxq_state_set_def txq_state_set_def bind_eq_Some_conv split: if_splits intro: keeps_upd)

lemma rx_queue_setup_keeps: "rx_queue_setup api c pid q nb sock conf mp s = Some (rc, t) \<Longrightarrow> keeps s t"
proof -
  assume a: "rx_queue_setup api c pid q nb sock conf mp s = Some (rc, t)"
  then obtain r d where r: "rx_pools_of api c pid sock conf mp (dev s) = Some (r, d)"
    by (auto simp: rx_queue_setup_def bind_eq_Some_conv)
  show ?thesis
  proof (cases r)
    case (Inl e)
    with a r show ?thesis by (auto simp: rx_queue_setup_def)
  next
    case (Inr pools)
    obtain ret d1 where "rte_eth_rx_queue_setup api pid q nb sock conf pools d = (ret, d1)" by fastforce
    with a r Inr have "rxq_state_set pid q (if rx_deferred_start conf then QUEUE_STATE_STOPPED else QUEUE_STATE_STARTED)
        (s\<lparr>dev := d1\<rparr>) = Some t" by (simp add: rx_queue_setup_def)
    from queue_state_set_keeps(1) [OF this] show ?thesis by simp
  qed
qed

lemma update_queue_keeps:
  "update_rx_queue_state api c pid q s = Some t \<Longrightarrow> keeps s t" "update_tx_queue_state api c pid q s = Some t \<Longrightarrow> keeps s t"
  by (auto simp: update_rx_queue_state_def update_tx_queue_state_def split: prod.splits if_splits dest: queue_state_set_keeps)

lemma update_queue_state_keeps: "update_queue_state api c f pid s = Some t \<Longrightarrow> keeps s t"
  unfolding update_queue_state_def
  by (erule foreach_keeps [rotated])
    (auto simp: bind_eq_Some_conv split: if_splits intro: keeps_trans dest!: foreach_keeps [rotated] update_queue_keeps)

section \<open>One port on its way\<close>

text \<open>A step of the start of a port: the others stay as they are, and it goes on handling or, when
  the step fails, may be put back.\<close>

definition at_work :: "u16 \<Rightarrow> 'd st \<Rightarrow> bool \<Rightarrow> 'd st \<Rightarrow> bool" where
  "at_work pi s ok t \<longleftrightarrow> eth_devs t = eth_devs s \<and> (\<forall>p. p \<noteq> pi \<longrightarrow> status t p = status s p) \<and>
     (status t pi = Some RTE_PORT_HANDLING \<or> \<not> ok \<and> status t pi = Some RTE_PORT_STOPPED)"

lemma keeps_at_work: "keeps s t \<Longrightarrow> status s pi = Some RTE_PORT_HANDLING \<Longrightarrow> at_work pi s ok t"
  by (simp add: at_work_def keeps_def)

lemma at_work_trans: "at_work pi s True t \<Longrightarrow> at_work pi t ok u \<Longrightarrow> at_work pi s ok u"
  by (simp add: at_work_def)

lemma keeps_at_work_trans: "keeps s t \<Longrightarrow> at_work pi t ok u \<Longrightarrow> at_work pi s ok u"
  by (simp add: at_work_def keeps_def)

lemma at_work_keeps_trans: "at_work pi s ok t \<Longrightarrow> keeps t u \<Longrightarrow> at_work pi s ok u"
  by (simp add: at_work_def keeps_def)

lemma at_work_status: "at_work pi s True t \<Longrightarrow> status t pi = Some RTE_PORT_HANDLING"
  by (simp add: at_work_def)

lemma status_handling: "status s pi = Some v \<Longrightarrow> \<exists>port. port_get s pi = Some port \<and> port_status port = v"
  by (auto simp: status_def)

lemma set_back_at_work: "status s pi = Some RTE_PORT_HANDLING \<Longrightarrow> at_work pi s False (set_back pi s)"
  by (auto simp: at_work_def set_back_def status_upd dest: status_handling)

lemma queues_again_at_work: "status s pi = Some RTE_PORT_HANDLING \<Longrightarrow> at_work pi s False (queues_again pi s)"
  unfolding queues_again_def
  by (rule at_work_keeps_trans [OF set_back_at_work]) (auto intro: keeps_upd)

lemma hairpin_loop_at_work:
  "status s pi = Some RTE_PORT_HANDLING \<Longrightarrow> hairpin_loop hq pi conf i qs s = (ok, t) \<Longrightarrow> at_work pi s ok t"
proof (induction hq pi conf i qs s rule: hairpin_loop.induct)
  case (1 hq pi conf i s)
  then show ?case by (auto intro: keeps_at_work)
next
  case (2 hq pi conf i q qs s)
  obtain diag d where d: "hq q (conf i) (dev s) = (diag, d)" by fastforce
  show ?case
  proof (cases "diag = 0")
    case True
    with 2 d have "at_work pi (s\<lparr>dev := d\<rparr>) ok t" by simp
    then show ?thesis by (rule keeps_at_work_trans [OF keeps_dev])
  next
    case False
    with 2 d have "\<not> ok" "t = queues_again pi (s\<lparr>dev := d\<rparr>)" by auto
    then show ?thesis using queues_again_at_work [of "s\<lparr>dev := d\<rparr>" pi] 2(2)
      by (auto intro: keeps_at_work_trans [OF keeps_dev])
  qed
qed

lemma setup_hairpin_at_work:
  assumes "status s pi = Some RTE_PORT_HANDLING" "setup_hairpin_queues api c f pi prev cnt s = Some (rc, t)"
  shows "at_work pi s (rc = 0) t"
proof -
  let ?m = "hairpin_mode c" and ?nh = "unat (nb_hairpinq c)" and ?nt = "unat (nb_txq f)" and ?nr = "unat (nb_rxq f)"
  obtain prx ptx man where pe: "hairpin_peers c s pi prev cnt = (prx, ptx, man)" by (metis prod_cases3)
  define conf where "conf = (\<lambda>peer base force locked rte i. \<lparr>hp_peer_port = peer, hp_peer_queue = of_nat (i + base),
     hp_manual_bind = man, hp_tx_explicit = and ?m 0x10 \<noteq> 0, hp_force_memory = and ?m force \<noteq> 0,
     hp_use_locked_device_memory = and ?m locked \<noteq> 0, hp_use_rte_memory = and ?m rte \<noteq> 0\<rparr>)"
  obtain ok1 s1 where l1: "hairpin_loop (\<lambda>q. rte_eth_tx_hairpin_queue_setup api pi q (nb_txd c)) pi
      (conf prx ?nr 0x200 0x10000 0x20000) 0 [?nt..<?nh + ?nt] s = (ok1, s1)" by fastforce
  obtain ok2 s2 where l2: "hairpin_loop (\<lambda>q. rte_eth_rx_hairpin_queue_setup api pi q (nb_rxd c)) pi
      (conf ptx ?nt 0x100 0x1000 0x2000) 0 [?nr..<?nh + ?nr] s1 = (ok2, s2)" by fastforce
  note w1 = hairpin_loop_at_work [OF assms(1) l1]
  have "if ok1 then rc = (if ok2 then 0 else - 1) \<and> t = s2 else rc = - 1 \<and> t = s1"
    using assms(2) l1 l2 by (simp add: setup_hairpin_queues_def Let_def pe conf_def split: if_splits)
  then show ?thesis
  proof (cases ok1)
    case True
    with w1 have "status s1 pi = Some RTE_PORT_HANDLING" by (simp add: at_work_def)
    from hairpin_loop_at_work [OF this l2] have "at_work pi s1 ok2 s2" .
    with w1 True show ?thesis using \<open>if ok1 then _ else _\<close> by (auto intro: at_work_trans)
  next
    case False
    with w1 show ?thesis using \<open>if ok1 then _ else _\<close> by auto
  qed
qed

lemma start_txqs_at_work:
  "status s pi = Some RTE_PORT_HANDLING \<Longrightarrow> start_txqs api c f pi qs s = Some (ok, t) \<Longrightarrow> at_work pi s ok t"
proof (induction qs arbitrary: s)
  case (Cons q qs)
  then obtain port conf nb sock where e: "port_get s pi = Some port" "at (txq_conf port) q = Some conf"
    "at (nb_tx_desc port) q = Some nb" "ring_socket f (txring_numa c) pi port = Some sock" by (auto simp: bind_eq_Some_conv)
  obtain diag d where d: "rte_eth_tx_queue_setup api pi q nb sock conf (dev s) = (diag, d)" by fastforce
  show ?case
  proof (cases "diag = 0")
    case True
    with Cons.prems e d obtain s1 where s1: "txq_state_set pi q (if tx_deferred_start conf then QUEUE_STATE_STOPPED else QUEUE_STATE_STARTED) (s\<lparr>dev := d\<rparr>) = Some s1"
      "start_txqs api c f pi qs s1 = Some (ok, t)" by (auto simp: bind_eq_Some_conv)
    have k: "keeps s s1" using queue_state_set_keeps(2) [OF s1(1)] by simp
    then have "status s1 pi = Some RTE_PORT_HANDLING" using Cons.prems(1) by (simp add: keeps_def)
    from Cons.IH [OF this s1(2)] k show ?thesis by (rule keeps_at_work_trans [rotated])
  next
    case False
    with Cons.prems e d have "\<not> ok" "t = queues_again pi (s\<lparr>dev := d\<rparr>)" by auto
    then show ?thesis using queues_again_at_work [of "s\<lparr>dev := d\<rparr>" pi] Cons.prems(1)
      by (auto intro: keeps_at_work_trans [OF keeps_dev])
  qed
qed (auto intro: keeps_at_work)

lemma start_rxqs_at_work:
  "status s pi = Some RTE_PORT_HANDLING \<Longrightarrow> start_rxqs api c f pi qs s = Some (ok, t) \<Longrightarrow> at_work pi s ok t"
proof (induction qs arbitrary: s)
  case (Cons q qs)
  then obtain port sock where e: "port_get s pi = Some port" "ring_socket f (rxring_numa c) pi port = Some sock"
    by (auto simp: bind_eq_Some_conv)
  show ?case
  proof (cases "mbuf_pool_find api sock 0 (dev s) = 0")
    case True
    with Cons.prems e show ?thesis by (auto intro: keeps_at_work)
  next
    case False
    with Cons.prems e obtain conf nb diag s1 where r: "rx_queue_setup api c pi q nb sock conf (mbuf_pool_find api sock 0 (dev s)) s = Some (diag, s1)"
      "(if diag = 0 then start_rxqs api c f pi qs s1 else Some (False, queues_again pi s1)) = Some (ok, t)"
      by (auto simp: bind_eq_Some_conv Let_def)
    note k = rx_queue_setup_keeps [OF r(1)]
    then have h: "status s1 pi = Some RTE_PORT_HANDLING" using Cons.prems(1) by (simp add: keeps_def)
    have "at_work pi s1 ok t" using r(2) Cons.IH [OF h] queues_again_at_work [OF h] by (auto split: if_splits)
    with k show ?thesis by (rule keeps_at_work_trans)
  qed
qed (auto intro: keeps_at_work)

lemma apply_offloads_status: "apply_offloads rxo txo p = Some q \<Longrightarrow> port_status q = port_status p"
  by (auto simp: apply_offloads_def bind_eq_Some_conv split: if_splits)

lemma isolate_keeps: "port_flow_isolate api pi on s = (rc, t) \<Longrightarrow> keeps s t"
  by (auto simp: port_flow_isolate_def Let_def split: prod.splits)

lemma start_configure_at_work:
  assumes "status s pi = Some RTE_PORT_HANDLING" "start_configure api c f pi s = Some (ok, t)"
  shows "at_work pi s ok t"
proof -
  let ?s = "port_upd pi (\<lambda>p. p\<lparr>need_reconfig := 0\<rparr>) s"
  have k0: "keeps s ?s" by (rule keeps_upd) simp
  obtain iso s1 where i: "(if flow_isolate_all c then port_flow_isolate api pi 1 ?s else (0, ?s)) = (iso, s1)" by fastforce
  then have k1: "keeps s s1" using isolate_keeps [of api pi 1 ?s iso s1] k0 by (auto split: if_splits intro: keeps_trans)
  show ?thesis
  proof (cases "iso = 0")
    case False
    with assms(2) i have "t = s1" by (simp add: start_configure_def)
    with k1 assms(1) show ?thesis by (simp add: keeps_at_work)
  next
    case True
    with assms(2) i obtain s2 where s2: "configure_rxtx_dump_callbacks api 0 s1 = Some s2"
      by (auto simp: start_configure_def bind_eq_Some_conv)
    have k2: "keeps s s2" using keeps_trans [OF k1 configure_dump_keeps [OF s2]] .
    obtain cap d2 where cap: "(if nb_hairpinq c > 0 then rte_eth_dev_hairpin_capability_get api pi (dev s2) else (0, dev s2)) = (cap, d2)" by fastforce
    let ?s3 = "s2\<lparr>dev := d2\<rparr>"
    have k3: "keeps s ?s3" using k2 by (simp add: keeps_def)
    show ?thesis
    proof (cases "cap = 0")
      case False
      with assms(2) i True s2 cap have "t = ?s3" by (simp add: start_configure_def)
      with k3 assms(1) show ?thesis by (simp add: keeps_at_work)
    next
      case cap0: True
      obtain port where p: "port_get s2 pi = Some port" using k2 assms(1) by (metis keeps_def status_handling)
      obtain diag d4 where cf: "eth_dev_configure_mp api c pi (nb_rxq f + nb_hairpinq c) (nb_txq f + nb_hairpinq c) port d2 = (diag, d4)" by fastforce
      obtain ret rxo txo d5 where cg: "rte_eth_dev_conf_get api pi d4 = (ret, rxo, txo, d5)" by (metis prod_cases4)
      have h4: "status (s2\<lparr>dev := d4\<rparr>) pi = Some RTE_PORT_HANDLING" using k2 assms(1) by (simp add: keeps_def)
      consider "diag \<noteq> 0" "\<not> ok" "t = port_upd pi (\<lambda>p. p\<lparr>need_reconfig := 1\<rparr>) (set_back pi (s2\<lparr>dev := d4\<rparr>))"
        | "t = s2\<lparr>dev := d5\<rparr>" | q where "apply_offloads rxo txo port = Some q" "t = port_upd pi (\<lambda>_. q) (s2\<lparr>dev := d5\<rparr>)"
        using assms(2) i True s2 cap cap0 p cf cg
        by (auto simp: start_configure_def Let_def bind_eq_Some_conv split: if_splits)
      then show ?thesis
      proof cases
        case 1
        have "at_work pi s2 False (set_back pi (s2\<lparr>dev := d4\<rparr>))"
          using set_back_at_work [OF h4] by (rule keeps_at_work_trans [OF keeps_dev])
        then have "at_work pi s2 False t" unfolding 1(3) by (rule at_work_keeps_trans) (rule keeps_upd, simp)
        with k2 1(2) show ?thesis by (auto intro: keeps_at_work_trans)
      next
        case 2
        with k2 assms(1) show ?thesis by (simp add: keeps_at_work keeps_def)
      next
        case 3
        have "status t = status (s2\<lparr>dev := d5\<rparr>)" using 3 p apply_offloads_status [OF 3(1)]
          by (auto simp: fun_eq_iff status_upd) (simp add: status_def)
        then have "keeps s t" using k2 3(2) by (simp add: keeps_def)
        with assms(1) show ?thesis by (simp add: keeps_at_work)
      qed
    qed
  qed
qed

lemma start_queues_at_work:
  assumes "status s pi = Some RTE_PORT_HANDLING" "start_queues api c f pi prev cnt s = Some (ok, t)"
  shows "at_work pi s ok t"
proof -
  let ?s = "port_upd pi (\<lambda>p. p\<lparr>need_reconfig_queues := 0\<rparr>) s"
  have k: "keeps s ?s" by (rule keeps_upd) simp
  then have h: "status ?s pi = Some RTE_PORT_HANDLING" using assms(1) by (simp add: keeps_def)
  obtain ok1 s1 where 1: "start_txqs api c f pi [0..<unat (nb_txq f)] ?s = Some (ok1, s1)"
    using assms(2) by (auto simp: start_queues_def bind_eq_Some_conv)
  note w1 = keeps_at_work_trans [OF k start_txqs_at_work [OF h 1]]
  show ?thesis
  proof (cases ok1)
    case False
    with assms(2) 1 w1 show ?thesis by (auto simp: start_queues_def)
  next
    case ok1: True
    then have h1: "status s1 pi = Some RTE_PORT_HANDLING" using w1 by (simp add: at_work_def)
    obtain ok2 s2 where 2: "start_rxqs api c f pi [0..<unat (nb_rxq f)] s1 = Some (ok2, s2)"
      using assms(2) 1 ok1 by (auto simp: start_queues_def bind_eq_Some_conv)
    have w2: "at_work pi s ok2 s2" using at_work_trans [OF _ start_rxqs_at_work [OF h1 2]] w1 ok1 by simp
    show ?thesis
    proof (cases ok2)
      case False
      with assms(2) 1 2 ok1 w2 show ?thesis by (auto simp: start_queues_def)
    next
      case ok2: True
      then have h2: "status s2 pi = Some RTE_PORT_HANDLING" using w2 by (simp add: at_work_def)
      obtain rc where 3: "setup_hairpin_queues api c f pi prev cnt s2 = Some (rc, t)" "ok = (rc = 0)"
        using assms(2) 1 2 ok1 ok2 by (auto simp: start_queues_def bind_eq_Some_conv)
      show ?thesis using at_work_trans [OF _ setup_hairpin_at_work [OF h2 3(1)]] w2 ok2 3(2) by simp
    qed
  qed
qed

lemma start_device_effect:
  assumes "status s pi = Some RTE_PORT_HANDLING" "start_device api c pi s = Some (up, t)"
  shows "eth_devs t = eth_devs s \<and> (\<forall>p. p \<noteq> pi \<longrightarrow> status t p = status s p) \<and>
    status t pi = Some (if up then RTE_PORT_STARTED else RTE_PORT_STOPPED)"
proof -
  obtain s1 where s1: "configure_rxtx_dump_callbacks api (verbose_level c) s = Some s1"
    using assms(2) by (auto simp: start_device_def bind_eq_Some_conv)
  note k = configure_dump_keeps [OF s1]
  let ?d2 = "if clear_ptypes c then snd (rte_eth_dev_set_ptypes api pi (dev s1)) else dev s1"
  obtain diag d3 where st: "eth_dev_start_mp api c pi ?d2 = (diag, d3)" by fastforce
  let ?s4 = "port_upd pi (\<lambda>p. if port_status p = RTE_PORT_HANDLING then p\<lparr>port_status := RTE_PORT_STARTED\<rparr> else p) (s1\<lparr>dev := d3\<rparr>)"
  obtain ret mac d5 where m: "rte_eth_macaddr_get api pi d3 = (ret, mac, d5)" by (metis prod_cases3)
  obtain port where p: "port_get s1 pi = Some port" "port_status port = RTE_PORT_HANDLING"
    using k assms(1) by (metis keeps_def status_handling)
  have s4: "status ?s4 q = (if q = pi then Some RTE_PORT_STARTED else status s q)" for q
    using k p by (auto simp: status_upd keeps_def)
  show ?thesis
  proof (cases "diag < 0")
    case True
    then have "\<not> up" "t = set_back pi (s1\<lparr>dev := d3\<rparr>)" using assms(2) s1 st by (auto simp: start_device_def Let_def)
    then show ?thesis using k p by (auto simp: set_back_def status_upd keeps_def)
  next
    case False
    then have u: "up" "t = (if ret = 0 then port_upd pi (\<lambda>p. p\<lparr>eth_addr := mac\<rparr>) ?s4 else ?s4)\<lparr>dev := d5\<rparr>"
      using assms(2) s1 st m by (simp_all add: start_device_def Let_def)
    have "keeps ?s4 t" unfolding u(2) by (auto simp: keeps_def intro: keeps_upd [THEN keepsD, THEN conjunct2])
    then show ?thesis using s4 k u(1) by (simp add: keeps_def)
  qed
qed

section \<open>The commands\<close>

text \<open>What a start command may do to the status of a port it is asked to start.\<close>

definition start_move :: "bool \<Rightarrow> u16 option \<Rightarrow> u16 option \<Rightarrow> bool" where
  "start_move ok v v' \<longleftrightarrow> v' = v \<or> v = Some RTE_PORT_STOPPED \<and>
     (v' = Some RTE_PORT_STARTED \<or> \<not> ok \<and> v' = Some RTE_PORT_HANDLING)"

lemma start_one_effect:
  assumes "start_one api c f pi a s = Some (ok, a', t)"
  shows "eth_devs t = eth_devs s \<and> (\<forall>p. p \<noteq> pi \<longrightarrow> status t p = status s p) \<and> start_move ok (status s pi) (status t pi)"
proof -
  obtain port where p: "port_get s pi = Some port" using assms by (auto simp: start_one_def bind_eq_Some_conv)
  show ?thesis
  proof (cases "port_status port = RTE_PORT_STOPPED")
    case False
    with assms p have "t = s" by (simp add: start_one_def)
    then show ?thesis by (simp add: start_move_def)
  next
    case True
    let ?s0 = "port_upd pi (\<lambda>p. p\<lparr>port_status := RTE_PORT_HANDLING\<rparr>) s"
    have st: "status s pi = Some RTE_PORT_STOPPED" using p True by (simp add: status_def)
    have h0: "status ?s0 pi = Some RTE_PORT_HANDLING" "eth_devs ?s0 = eth_devs s" "p \<noteq> pi \<Longrightarrow> status ?s0 p = status s p" for p
      using p by (simp_all add: status_upd)
    obtain ok1 s1 where 1: "(if need_reconfig port > 0 then start_configure api c f pi ?s0 else Some (True, ?s0)) = Some (ok1, s1)"
      using assms p True by (auto simp: start_one_def Let_def bind_eq_Some_conv)
    have w1: "at_work pi ?s0 ok1 s1"
      using 1 start_configure_at_work [OF h0(1)] keeps_at_work [OF keeps_refl h0(1)] by (auto split: if_splits)
    show ?thesis
    proof (cases ok1)
      case False
      with assms p True 1 have "t = s1" "\<not> ok" by (auto simp: start_one_def Let_def)
      with w1 False h0 st show ?thesis by (auto simp: at_work_def start_move_def)
    next
      case ok1: True
      then have h1: "status s1 pi = Some RTE_PORT_HANDLING" using w1 by (simp add: at_work_def)
      then obtain port1 where p1: "port_get s1 pi = Some port1" by (metis status_handling)
      obtain ok2 s2 where 2: "(if need_reconfig_queues port1 > 0 \<and> proc_primary c
          then start_queues api c f pi (p_pi a) (cnt_pi a) s1 else Some (True, s1)) = Some (ok2, s2)"
        using assms p True 1 ok1 p1 by (auto simp: start_one_def Let_def bind_eq_Some_conv)
      have w12: "at_work pi s1 ok2 s2"
        using 2 start_queues_at_work [OF h1] keeps_at_work [OF keeps_refl h1] by (auto split: if_splits)
      have w2: "at_work pi ?s0 ok2 s2" using at_work_trans [OF _ w12] w1 ok1 by simp
      show ?thesis
      proof (cases ok2)
        case False
        with assms p True 1 ok1 p1 2 have "t = s2" "\<not> ok" by (auto simp: start_one_def Let_def)
        with w2 False h0 st show ?thesis by (auto simp: at_work_def start_move_def)
      next
        case ok2: True
        then have h2: "status s2 pi = Some RTE_PORT_HANDLING" using w2 by (simp add: at_work_def)
        obtain up where 3: "start_device api c pi s2 = Some (up, t)"
          using assms p True 1 ok1 p1 2 ok2 by (auto simp: start_one_def Let_def bind_eq_Some_conv)
        from start_device_effect [OF h2 3] w2 h0 st show ?thesis by (auto simp: at_work_def start_move_def)
      qed
    qed
  qed
qed

definition selected :: "u16 \<Rightarrow> u16 list \<Rightarrow> u16 \<Rightarrow> bool" where
  "selected pid devs p \<longleftrightarrow> p \<in> set devs \<and> (pid = p \<or> pid = RTE_PORT_ALL)"

lemma start_loop_effect:
  "start_loop api c f pid pis a s = Some (ok, a', t) \<Longrightarrow>
    eth_devs t = eth_devs s \<and> (\<forall>p. if selected pid pis p then start_move ok (status s p) (status t p) else status t p = status s p)"
proof (induction pis arbitrary: a s)
  case (Cons pi pis)
  show ?case
  proof (cases "pid \<noteq> pi \<and> pid \<noteq> RTE_PORT_ALL")
    case True
    with Cons have "eth_devs t = eth_devs s" "\<forall>p. if selected pid pis p then start_move ok (status s p) (status t p) else status t p = status s p"
      by auto
    moreover have "selected pid (pi # pis) p = selected pid pis p" for p using True by (auto simp: selected_def)
    ultimately show ?thesis by simp
  next
    case False
    with Cons.prems obtain ok1 a1 s1 where 1: "start_one api c f pi a s = Some (ok1, a1, s1)"
      "(if ok1 then start_loop api c f pid pis a1 s1 else Some (False, a1, s1)) = Some (ok, a', t)" by (auto simp: bind_eq_Some_conv)
    note e1 = start_one_effect [OF 1(1)]
    have sel: "selected pid (pi # pis) p \<longleftrightarrow> p = pi \<or> selected pid pis p" for p using False by (auto simp: selected_def)
    show ?thesis
    proof (cases ok1)
      case True
      with 1 Cons.IH have e2: "eth_devs t = eth_devs s1" "\<forall>p. if selected pid pis p then start_move ok (status s1 p) (status t p) else status t p = status s1 p"
        by auto
      have "if selected pid (pi # pis) p then start_move ok (status s p) (status t p) else status t p = status s p" for p
        using e1 spec [OF e2(2), of p] True unfolding sel by (cases "p = pi") (auto simp: start_move_def split: if_splits)
      then show ?thesis using e1 e2 by simp
    next
      case False
      with 1 have t: "t = s1" "\<not> ok" by auto
      have "if selected pid (pi # pis) p then start_move ok (status s p) (status t p) else status t p = status s p" for p
        using e1 t False unfolding sel by (cases "p = pi") (auto simp: start_move_def)
      then show ?thesis using e1 t(1) by blast
    qed
  qed
qed (simp add: selected_def)

lemma bind_peers_keeps: "bind_peers api bindp peers s = Some (rc, t) \<Longrightarrow> keeps s t"
proof (induction peers arbitrary: s)
  case (Cons peer peers)
  obtain diag d where "bindp peer (dev s) = (diag, d)" by fastforce
  with Cons Cons.IH [of s] Cons.IH [of "s\<lparr>dev := d\<rparr>"] show ?case by (auto simp: bind_eq_Some_conv split: if_splits)
qed simp

lemma bind_hairpins_keeps: "bind_hairpins api pis s = Some (rc, t) \<Longrightarrow> keeps s t"
proof (induction pis arbitrary: s)
  case (Cons pi pis)
  obtain n1 peers1 d1 where g1: "rte_eth_hairpin_get_peer_ports api pi True (dev s) = (n1, peers1, d1)" by (metis prod_cases3)
  show ?case
  proof (cases "n1 < 0")
    case True
    with Cons.prems g1 show ?thesis by auto
  next
    case False
    with Cons.prems g1 obtain r1 s1 where b1: "bind_peers api (rte_eth_hairpin_bind api pi) (take (nat n1) peers1) (s\<lparr>dev := d1\<rparr>) = Some (r1, s1)"
      by (auto simp: bind_eq_Some_conv)
    have k1: "keeps s s1" using bind_peers_keeps [OF b1] by simp
    obtain n2 peers2 d2 where g2: "rte_eth_hairpin_get_peer_ports api pi False (dev s1) = (n2, peers2, d2)" by (metis prod_cases3)
    have k2: "keeps s (s1\<lparr>dev := d2\<rparr>)" using k1 by (simp add: keeps_def)
    consider "t = s1" | "t = s1\<lparr>dev := d2\<rparr>"
      | r2 s2 where "bind_peers api (\<lambda>peer. rte_eth_hairpin_bind api peer pi) (take (nat n2) peers2) (s1\<lparr>dev := d2\<rparr>) = Some (r2, s2)"
        "t = s2 \<or> bind_hairpins api pis s2 = Some (rc, t)"
      using Cons.prems g1 False b1 g2 by (auto simp: bind_eq_Some_conv split: if_splits)
    then show ?thesis
    proof cases
      case 3
      have "keeps s s2" using keeps_trans [OF k1, of s2] bind_peers_keeps [OF 3(1)] by simp
      then show ?thesis using 3(2) Cons.IH [of s2] by (auto intro: keeps_trans)
    qed (use k1 k2 in auto)
  qed
qed simp

lemma check_links_keeps [simp]: "keeps s (check_all_ports_link_status api c m s)"
  by (simp add: check_all_ports_link_status_def)

lemma calloc_keeps: "c_calloc api s = (ok, t) \<Longrightarrow> keeps s t"
  by (auto simp: c_calloc_def split: prod.splits)

lemma alloc_xstats_keeps: "alloc_xstats_display_info api c pi s = (rc, t) \<Longrightarrow> keeps s t"
  using keeps_upd [of "xstats_allocated_update (\<lambda>_. True)" _ pi]
  by (auto simp: alloc_xstats_display_info_def split: if_splits prod.splits dest!: calloc_keeps intro: keeps_trans)

lemma fill_xstats_one_keeps: "fill_xstats_one api c pi s = Some t \<Longrightarrow> keeps s t"
proof -
  assume a: "fill_xstats_one api c pi s = Some t"
  then obtain port where p: "port_get s pi = Some port" by (auto simp: fill_xstats_one_def bind_eq_Some_conv)
  obtain rc s1 where r: "(if xstats_allocated port then (0, s) else alloc_xstats_display_info api c pi s) = (rc, s1)" by fastforce
  then have k: "keeps s s1" by (auto split: if_splits dest: alloc_xstats_keeps)
  obtain n d where "xstats_ids api pi (xstats_display c) 0 (dev s1) = (n, d)" by fastforce
  with a p r have "t = s \<or> t = port_upd pi (\<lambda>p. p\<lparr>ids_supp_sz := n\<rparr>) (s1\<lparr>dev := d\<rparr>)"
    by (auto simp: fill_xstats_one_def split: if_splits)
  moreover have "keeps s1 (port_upd pi (\<lambda>p. p\<lparr>ids_supp_sz := n\<rparr>) (s1\<lparr>dev := d\<rparr>))"
    using keeps_upd [of "\<lambda>p. p\<lparr>ids_supp_sz := n\<rparr>" "s1\<lparr>dev := d\<rparr>" pi] by simp
  ultimately show ?thesis using k by (auto intro: keeps_trans)
qed

lemma fill_xstats_keeps: "fill_xstats_display_info_for_port api c pi s = Some t \<Longrightarrow> keeps s t"
proof -
  have "foreach (fill_xstats_one api c) xs s = Some t \<Longrightarrow> keeps s t" for xs
    by (rule foreach_keeps) (auto dest: fill_xstats_one_keeps)
  then show "fill_xstats_display_info_for_port api c pi s = Some t \<Longrightarrow> keeps s t"
    by (auto simp: fill_xstats_display_info_for_port_def fill_xstats_display_info_def split: if_splits
        dest: fill_xstats_one_keeps)
qed

lemma start_port_moves:
  assumes "start_port api c f pid s = Some (rc, t)"
  shows "eth_devs t = eth_devs s \<and>
    (\<forall>p. if selected pid (eth_devs s) p then start_move (rc = 0) (status s p) (status t p) else status t p = status s p)"
proof (cases "port_id_is_invalid s pid")
  case True
  with assms show ?thesis by (simp add: start_port_def start_move_def)
next
  case False
  then obtain ok a s1 where l: "start_loop api c f pid (eth_devs s) \<lparr>p_pi = max_ethports c, cnt_pi = 0, started = []\<rparr> s = Some (ok, a, s1)"
    using assms by (auto simp: start_port_def bind_eq_Some_conv)
  note e = start_loop_effect [OF l]
  show ?thesis
  proof (cases ok)
    case False
    with assms \<open>\<not> port_id_is_invalid s pid\<close> l have "rc = - 1" "t = s1" by (auto simp: start_port_def)
    then have "ok = (rc = 0)" "t = s1" using False by simp_all
    with e show ?thesis by blast
  next
    case True
    with assms False l obtain s2 where s2: "update_queue_state api c f (max_ethports c) s1 = Some s2"
      by (auto simp: start_port_def bind_eq_Some_conv)
    define s3 where "s3 = (if started a \<noteq> [] \<and> \<not> no_link_check c then check_all_ports_link_status api c (ucast RTE_PORT_ALL) s2 else s2)"
    have k3: "keeps s1 s3" using update_queue_state_keeps [OF s2] unfolding s3_def by (auto intro: keeps_trans)
    have rest: "Option.bind (if and (hairpin_mode c) 0xF \<noteq> 0 then bind_hairpins api (started a) s3 else Some (0, s3))
        (\<lambda>(rc, s4). if rc \<noteq> 0 then Some (rc, s4) else map_option (\<lambda>t. (0, t)) (fill_xstats_display_info_for_port api c pid s4)) = Some (rc, t)"
      using assms False l True s2 unfolding s3_def start_port_def Let_def by simp
    then obtain r4 s4 where s4: "(if and (hairpin_mode c) 0xF \<noteq> 0 then bind_hairpins api (started a) s3 else Some (0, s3)) = Some (r4, s4)"
      "(if r4 \<noteq> 0 then Some (r4, s4) else map_option (\<lambda>t. (0, t)) (fill_xstats_display_info_for_port api c pid s4)) = Some (rc, t)"
      unfolding bind_eq_Some_conv by fastforce
    have k4: "keeps s1 s4"
    proof (cases "and (hairpin_mode c) 0xF = 0")
      case True
      with s4(1) k3 show ?thesis by simp
    next
      case False
      with s4(1) have "bind_hairpins api (started a) s3 = Some (r4, s4)" by simp
      from keeps_trans [OF k3 bind_hairpins_keeps [OF this]] show ?thesis .
    qed
    have "t = s4 \<or> fill_xstats_display_info_for_port api c pid s4 = Some t"
      using s4(2) by (cases "r4 = 0") auto
    then have "keeps s1 t" using k4 keeps_trans [OF k4 fill_xstats_keeps] by blast
    then have "eth_devs t = eth_devs s1" "status t = status s1" by (simp_all add: keeps_def)
    moreover have "start_move ok v w \<Longrightarrow> start_move (rc = 0) v w" for v w using True by (auto simp: start_move_def)
    ultimately show ?thesis using e by metis
  qed
qed

lemma port_flow_flush_keeps: "port_flow_flush api pid s = Some (rc, t) \<Longrightarrow> keeps s t"
proof -
  assume a: "port_flow_flush api pid s = Some (rc, t)"
  obtain r d where d: "rte_flow_flush api pid (dev s) = (r, d)" by fastforce
  have "t = s \<or> t = port_upd pid (flow_list_update (\<lambda>_. [])) (s\<lparr>dev := d\<rparr>)"
    using a d by (auto simp: port_flow_flush_def bind_eq_Some_conv split: if_splits)
  moreover have "keeps s (port_upd pid (flow_list_update (\<lambda>_. [])) (s\<lparr>dev := d\<rparr>))"
    using keeps_upd [of "flow_list_update (\<lambda>_. [])" "s\<lparr>dev := d\<rparr>" pid] by simp
  ultimately show ?thesis by auto
qed

definition stop_move :: "u16 option \<Rightarrow> u16 option \<Rightarrow> bool" where
  "stop_move v v' \<longleftrightarrow> v' = v \<or> v = Some RTE_PORT_STARTED \<and> (v' = Some RTE_PORT_STOPPED \<or> v' = Some RTE_PORT_HANDLING)"

lemma unbind_peers_keeps: "unbind_peers api pi peers s = Some t \<Longrightarrow> keeps s t"
proof (induction peers arbitrary: s)
  case (Cons peer peers)
  then obtain up where "unbind_peers api pi peers (if up then s\<lparr>dev := rte_eth_hairpin_unbind api peer pi (dev s)\<rparr> else s) = Some t"
    by (auto simp: bind_eq_Some_conv)
  from Cons.IH [OF this] show ?case by (auto split: if_splits)
qed simp

lemma stop_hairpin_keeps: "stop_hairpin api c pi s = Some (go, t) \<Longrightarrow> keeps s t"
  by (auto simp: stop_hairpin_def split: if_splits prod.splits dest: unbind_peers_keeps)

lemma stop_one_effect:
  assumes "stop_one api c f pi s = Some (b, t)"
  shows "eth_devs t = eth_devs s \<and> (\<forall>p. p \<noteq> pi \<longrightarrow> status t p = status s p) \<and> stop_move (status s pi) (status t pi) \<and>
    (and (hairpin_mode c) 0xF = 0 \<longrightarrow> status t pi = Some RTE_PORT_HANDLING \<longrightarrow> status s pi = Some RTE_PORT_HANDLING)"
proof -
  obtain fwd where f: "port_is_forwarding f s pi = Some fwd" using assms by (auto simp: stop_one_def bind_eq_Some_conv)
  show ?thesis
  proof (cases "fwd = 0 \<and> status s pi = Some RTE_PORT_STARTED")
    case False
    with assms f have "t = s" by (auto simp: stop_one_def status_def bind_eq_Some_conv split: if_splits)
    then show ?thesis by (simp add: stop_move_def)
  next
    case True
    then obtain port where p: "port_get s pi = Some port" "port_status port = RTE_PORT_STARTED" by (metis status_handling)
    let ?s0 = "port_upd pi (\<lambda>p. p\<lparr>port_status := RTE_PORT_HANDLING\<rparr>) s"
    have h0: "status ?s0 pi = Some RTE_PORT_HANDLING" "eth_devs ?s0 = eth_devs s" "q \<noteq> pi \<Longrightarrow> status ?s0 q = status s q" for q
      using p by (simp_all add: status_upd)
    obtain go s1 where s1: "stop_hairpin api c pi ?s0 = Some (go, s1)"
      using assms f True p by (auto simp: stop_one_def bind_eq_Some_conv)
    note k1 = stop_hairpin_keeps [OF s1]
    show ?thesis
    proof (cases go)
      case False
      with s1 have "and (hairpin_mode c) 0xF \<noteq> 0" by (auto simp: stop_hairpin_def)
      moreover have "t = s1" using assms f True p s1 False by (simp add: stop_one_def)
      ultimately show ?thesis using k1 h0 True by (simp add: stop_move_def keeps_def)
    next
      case go: True
      obtain port1 where p1: "port_get s1 pi = Some port1" using k1 h0(1) by (metis keeps_def status_handling)
      obtain r s2 where s2: "(if flow_list port1 \<noteq> [] \<and> \<not> no_flow_flush c then port_flow_flush api pi s1 else Some (0, s1)) = Some (r, s2)"
        using assms f True p s1 go p1 by (auto simp: stop_one_def bind_eq_Some_conv)
      then have "keeps s1 s2" using port_flow_flush_keeps [of api pi s1 r s2] by (cases "flow_list port1 \<noteq> [] \<and> \<not> no_flow_flush c") auto
      with k1 have k2: "keeps ?s0 s2" by (rule keeps_trans)
      then obtain port2 where p2: "port_get s2 pi = Some port2" "port_status port2 = RTE_PORT_HANDLING" using h0(1) by (metis keeps_def status_handling)
      obtain ret d where d: "eth_dev_stop_mp api c pi (dev s2) = (ret, d)" by fastforce
      have "t = (if ret \<noteq> 0 then port_upd pi (\<lambda>p. p\<lparr>port_status := RTE_PORT_STARTED\<rparr>) (s2\<lparr>dev := d\<rparr>) else set_back pi (s2\<lparr>dev := d\<rparr>))"
        using assms f True p s1 go p1 s2 d by (auto simp: stop_one_def)
      then have "status t q = (if q = pi then Some (if ret \<noteq> 0 then RTE_PORT_STARTED else RTE_PORT_STOPPED) else status s2 q)" "eth_devs t = eth_devs s2" for q
        using p2 by (auto simp: status_upd set_back_def)
      with k2 h0 True show ?thesis by (auto simp: stop_move_def keeps_def)
    qed
  qed
qed

lemma stop_loop_effect:
  "stop_loop api c f pid pis chk s = Some (b, t) \<Longrightarrow>
    eth_devs t = eth_devs s \<and> (\<forall>p. if selected pid pis p then stop_move (status s p) (status t p) else status t p = status s p)"
proof (induction pis arbitrary: chk s)
  case (Cons pi pis)
  show ?case
  proof (cases "pid \<noteq> pi \<and> pid \<noteq> RTE_PORT_ALL")
    case True
    then have sel: "selected pid (pi # pis) p = selected pid pis p" for p by (auto simp: selected_def)
    from True Cons.prems have "stop_loop api c f pid pis chk s = Some (b, t)" by simp
    from Cons.IH [OF this] show ?thesis unfolding sel .
  next
    case False
    with Cons.prems obtain b1 s1 where 1: "stop_one api c f pi s = Some (b1, s1)" "stop_loop api c f pid pis (chk \<or> b1) s1 = Some (b, t)"
      by (auto simp: bind_eq_Some_conv)
    note e1 = stop_one_effect [OF 1(1)] and e2 = Cons.IH [OF 1(2)]
    have sel: "selected pid (pi # pis) p \<longleftrightarrow> p = pi \<or> selected pid pis p" for p using False by (auto simp: selected_def)
    have "if selected pid (pi # pis) p then stop_move (status s p) (status t p) else status t p = status s p" for p
      using e1 spec [OF conjunct2 [OF e2], of p] unfolding sel by (cases "p = pi") (auto simp: stop_move_def split: if_splits)
    moreover have "eth_devs t = eth_devs s" using e1 e2 by simp
    ultimately show ?thesis by blast
  qed
qed (simp add: selected_def)

lemma stop_port_moves:
  assumes "stop_port api c f pid s = Some t"
  shows "eth_devs t = eth_devs s \<and>
    (\<forall>p. if selected pid (eth_devs s) p then stop_move (status s p) (status t p) else status t p = status s p)"
proof (cases "port_id_is_invalid s pid")
  case True
  with assms show ?thesis by (simp add: stop_port_def stop_move_def)
next
  case False
  then obtain b s1 where l: "stop_loop api c f pid (eth_devs s) False s = Some (b, s1)"
    "t = (if b \<and> \<not> no_link_check c then check_all_ports_link_status api c (ucast RTE_PORT_ALL) s1 else s1)"
    using assms by (auto simp: stop_port_def bind_eq_Some_conv)
  have "keeps s1 t" unfolding l(2) by simp
  then show ?thesis using stop_loop_effect [OF l(1)] by (metis keeps_def)
qed

lemma flush_in_keeps:
  assumes "keeps_heap kill" "\<And>g port. port_status (put g port) = port_status port" "flush_in kill get put pid s = Some (rc, t)"
  shows "keeps s t"
proof (cases "bad_port s pid")
  case True
  with assms(3) show ?thesis by (simp add: flush_in_def)
next
  case False
  then obtain port where p: "port_get s pid = Some port" using assms(3) by (auto simp: flush_in_def bind_eq_Some_conv)
  obtain r l s1 where f: "flush_loop kill (get port) 0 s = (r, l, s1)" by (metis prod_cases3)
  have t: "t = port_upd pid (put (\<lambda>_. l)) s1" using assms(3) False p f by (simp add: flush_in_def)
  from flush_loop_heap [OF assms(1) f] have "keeps s s1" by (auto simp: same_heap_def)
  also have "keeps s1 t" unfolding t by (rule keeps_upd) (rule assms(2))
  finally show ?thesis .
qed

lemma flushes_keep:
  "port_flow_template_table_flush api pid s = Some (rc, t) \<Longrightarrow> keeps s t"
  "port_flow_pattern_template_flush api pid s = Some (rc, t) \<Longrightarrow> keeps s t"
  "port_flow_actions_template_flush api pid s = Some (rc, t) \<Longrightarrow> keeps s t"
  "port_action_handle_flush api pid s = Some (rc, t) \<Longrightarrow> keeps s t"
  unfolding port_flow_template_table_flush_def port_flow_pattern_template_flush_def
    port_flow_actions_template_flush_def port_action_handle_flush_def
  by (erule flush_in_keeps [rotated 2];
      simp add: table_kill_def pattern_template_kill_def actions_template_kill_def pmd_kill_heap action_flush_heap)+

lemma mcast_destroy_keeps: "mcast_addr_pool_destroy pid s = Some (rc, t) \<Longrightarrow> keeps s t"
  by (auto simp: mcast_addr_pool_destroy_def bind_eq_Some_conv split: if_splits intro: keeps_upd)

lemma flush_resources_keeps: "flush_port_owned_resources api pi s = Some t \<Longrightarrow> keeps s t"
  unfolding flush_port_owned_resources_def bind_eq_Some_conv
  by (auto dest!: mcast_destroy_keeps port_flow_flush_keeps flushes_keep simp: bind_eq_Some_conv) (simp add: keeps_def)

definition close_move :: "u16 option \<Rightarrow> u16 option \<Rightarrow> bool" where
  "close_move v v' \<longleftrightarrow> v' = v \<or> v \<noteq> None \<and> v' = Some RTE_PORT_CLOSED"

lemma free_xstats_keeps: "free_xstats_display_info pi s = Some t \<Longrightarrow> keeps s t"
  using keeps_upd [of "xstats_allocated_update (\<lambda>_. False)" s pi]
  by (auto simp: free_xstats_display_info_def bind_eq_Some_conv)

lemma status_devs [simp]: "status (s\<lparr>eth_devs := x\<rparr>) = status s"
  by (simp add: status_def fun_eq_iff port_get_def)

lemma dev_close_effect:
  "(\<forall>p. p \<noteq> pi \<longrightarrow> status (dev_close api pi s) p = status s p) \<and> close_move (status s pi) (status (dev_close api pi s) pi) \<and>
    (eth_devs (dev_close api pi s) = eth_devs s \<or>
     eth_devs (dev_close api pi s) = filter (\<lambda>p. p \<noteq> pi) (eth_devs s) \<and> (status s pi \<noteq> None \<longrightarrow> status (dev_close api pi s) pi = Some RTE_PORT_CLOSED))"
  by (cases "port_get s pi")
    (auto simp: dev_close_def eth_event_destroy_def status_upd status_def [of s pi] close_move_def Let_def split: prod.splits)

lemma close_one_effect:
  assumes "close_one api c f pi s = Some t"
  shows "(\<forall>p. p \<noteq> pi \<longrightarrow> status t p = status s p) \<and> close_move (status s pi) (status t pi)"
proof -
  obtain fwd where f: "port_is_forwarding f s pi = Some fwd" using assms by (auto simp: close_one_def bind_eq_Some_conv)
  show ?thesis
  proof (cases "fwd = 0 \<and> status s pi \<noteq> Some RTE_PORT_CLOSED")
    case False
    with assms f have "t = s" by (auto simp: close_one_def status_def bind_eq_Some_conv split: if_splits)
    then show ?thesis by (simp add: close_move_def)
  next
    case True
    with assms f obtain s1 where s1: "(if proc_primary c then map_option (dev_close api pi) (flush_port_owned_resources api pi s) else Some s) = Some s1"
      "free_xstats_display_info pi s1 = Some t" by (auto simp: close_one_def status_def bind_eq_Some_conv)
    have "(\<forall>p. p \<noteq> pi \<longrightarrow> status s1 p = status s p) \<and> close_move (status s pi) (status s1 pi)"
    proof (cases "proc_primary c")
      case True
      with s1(1) obtain s0 where s0: "flush_port_owned_resources api pi s = Some s0" "s1 = dev_close api pi s0" by auto
      from flush_resources_keeps [OF s0(1)] have "status s0 = status s" by (simp add: keeps_def)
      with dev_close_effect [of pi api s0] s0(2) show ?thesis by simp
    next
      case False
      with s1(1) show ?thesis by (simp add: close_move_def)
    qed
    with free_xstats_keeps [OF s1(2)] show ?thesis by (simp add: keeps_def)
  qed
qed

lemma foreach_status:
  assumes "\<And>x s t. f x s = Some t \<Longrightarrow> R (status s p) (status t p)" "\<And>v. R v v" "\<And>u v w. R u v \<Longrightarrow> R v w \<Longrightarrow> R u w"
  shows "foreach f xs s = Some t \<Longrightarrow> R (status s p) (status t p)"
proof (induction xs arbitrary: s)
  case (Cons x xs)
  then obtain s1 where "f x s = Some s1" "foreach f xs s1 = Some t" by (auto simp: bind_eq_Some_conv)
  with Cons.IH assms show ?case by blast
qed (simp add: assms(2))

lemma close_port_moves:
  assumes "close_port api c pid l f s = Some (l', f', t)"
  shows "close_move (status s p) (status t p)"
proof (cases "port_id_is_invalid s pid")
  case True
  with assms show ?thesis by (simp add: close_port_def close_move_def)
next
  case False
  then have fe: "foreach (\<lambda>pi s. if pid \<noteq> pi \<and> pid \<noteq> RTE_PORT_ALL then Some s else close_one api c f pi s) (eth_devs s) s = Some t"
    using assms by (auto simp: close_port_def bind_eq_Some_conv)
  show ?thesis
  proof (rule foreach_status [OF _ _ _ fe])
    fix x and s t :: "'a st"
    assume "(if pid \<noteq> x \<and> pid \<noteq> RTE_PORT_ALL then Some s else close_one api c f x s) = Some t"
    then have "t = s \<or> close_one api c f x s = Some t" by (auto split: if_splits)
    then show "close_move (status s p) (status t p)"
      using close_one_effect [of api c f x s t] by (cases "p = x") (auto simp: close_move_def)
  qed (auto simp: close_move_def)
qed

lemma reset_one_keeps: "reset_one api c f pi s = Some t \<Longrightarrow> keeps s t"
proof -
  assume a: "reset_one api c f pi s = Some t"
  obtain diag d where d: "rte_eth_dev_reset api pi (dev s) = (diag, d)" by fastforce
  have "t = s \<or> t = s\<lparr>dev := d\<rparr> \<or> t = port_upd pi (\<lambda>p. p\<lparr>need_reconfig := 1, need_reconfig_queues := 1\<rparr>) (s\<lparr>dev := d\<rparr>)"
    using a d by (auto simp: reset_one_def bind_eq_Some_conv split: if_splits)
  moreover have "keeps s (port_upd pi (\<lambda>p. p\<lparr>need_reconfig := 1, need_reconfig_queues := 1\<rparr>) (s\<lparr>dev := d\<rparr>))"
    using keeps_upd [of "\<lambda>p. p\<lparr>need_reconfig := 1, need_reconfig_queues := 1\<rparr>" "s\<lparr>dev := d\<rparr>" pi] by simp
  ultimately show ?thesis by auto
qed

lemma reset_port_keeps: "reset_port api c f pid s = Some t \<Longrightarrow> keeps s t"
proof -
  assume a: "reset_port api c f pid s = Some t"
  have "foreach (\<lambda>pi s. if pid \<noteq> pi \<and> pid \<noteq> RTE_PORT_ALL then Some s else reset_one api c f pi s) xs s = Some t \<Longrightarrow> keeps s t" for xs
    by (rule foreach_keeps) (auto split: if_splits dest: reset_one_keeps)
  with a show ?thesis by (auto simp: reset_port_def bind_eq_Some_conv split: if_splits)
qed

section \<open>The life of a port\<close>

text \<open>The abstract state machine: where the status of a port may go in one command.\<close>

inductive life :: "u16 \<Rightarrow> u16 \<Rightarrow> bool" where
  life_stay: "life v v"
| life_start: "life RTE_PORT_STOPPED RTE_PORT_STARTED"
| life_start_stuck: "life RTE_PORT_STOPPED RTE_PORT_HANDLING"
| life_stop: "life RTE_PORT_STARTED RTE_PORT_STOPPED"
| life_stop_stuck: "life RTE_PORT_STARTED RTE_PORT_HANDLING"
| life_close: "life v RTE_PORT_CLOSED"

text \<open>The commands of the program.\<close>

inductive port_cmd ::
  "('d, 'z) port_api_scheme \<Rightarrow> ctl \<Rightarrow> port_lists \<times> fwd_st \<times> 'd st \<Rightarrow> port_lists \<times> fwd_st \<times> 'd st \<Rightarrow> bool" for api c where
  cmd_start: "start_port api c f pid s = Some (rc, t) \<Longrightarrow> port_cmd api c (l, f, s) (l, f, t)"
| cmd_stop: "stop_port api c f pid s = Some t \<Longrightarrow> port_cmd api c (l, f, s) (l, f, t)"
| cmd_reset: "reset_port api c f pid s = Some t \<Longrightarrow> port_cmd api c (l, f, s) (l, f, t)"
| cmd_close: "close_port api c pid l f s = Some (l', f', t) \<Longrightarrow> port_cmd api c (l, f, s) (l', f', t)"

lemma port_cmd_life:
  assumes "port_cmd api c (l, f, s) (l', f', t)" "port_get s p = Some port"
  shows "\<exists>port'. port_get t p = Some port' \<and> life (port_status port) (port_status port')"
proof -
  have v: "status s p = Some (port_status port)" using assms(2) by (simp add: status_def)
  have "\<exists>v'. status t p = Some v' \<and> life (port_status port) v'"
    using assms(1)
  proof cases
    case (cmd_start pid rc)
    have "start_move (rc = 0) (status s p) (status t p)"
      using spec [OF conjunct2 [OF start_port_moves [OF cmd_start(3)]], of p] by (auto simp: start_move_def split: if_splits)
    with v show ?thesis by (auto simp: start_move_def intro: life.intros)
  next
    case (cmd_stop pid)
    have "stop_move (status s p) (status t p)"
      using spec [OF conjunct2 [OF stop_port_moves [OF cmd_stop(3)]], of p] by (auto simp: stop_move_def split: if_splits)
    with v show ?thesis by (auto simp: stop_move_def intro: life.intros)
  next
    case (cmd_reset pid)
    from reset_port_keeps [OF cmd_reset(3)] v show ?thesis by (auto simp: keeps_def intro: life.intros)
  next
    case (cmd_close pid)
    from close_port_moves [OF cmd_close, of p] v show ?thesis by (auto simp: close_move_def intro: life.intros)
  qed
  then show ?thesis by (auto simp: status_def)
qed

inductive_cases life_handlingE: "life RTE_PORT_HANDLING v"
inductive_cases life_closedE: "life RTE_PORT_CLOSED v"


lemma life_handling: "life\<^sup>*\<^sup>* RTE_PORT_HANDLING v \<Longrightarrow> v = RTE_PORT_HANDLING \<or> v = RTE_PORT_CLOSED"
proof (induction rule: rtranclp_induct)
  case (step y z)
  then show ?case by (auto elim: life.cases)
qed simp

text \<open>
  a port that a command left in handling never runs again: no sequence of commands brings it
  back to stopped or started, only closing it ends the state.
\<close>

theorem handling_is_stuck:
  assumes "(port_cmd api c)\<^sup>*\<^sup>* (l, f, s) (l', f', t)" "port_get s p = Some port" "port_status port = RTE_PORT_HANDLING"
  shows "\<exists>port'. port_get t p = Some port' \<and> port_status port' \<in> {RTE_PORT_HANDLING, RTE_PORT_CLOSED}"
  using assms(1)
proof (induction "(l', f', t)" arbitrary: l' f' t rule: rtranclp_induct)
  case base
  then show ?case using assms(2,3) by auto
next
  case (step y)
  obtain l1 f1 s1 where y: "y = (l1, f1, s1)" by (metis prod_cases3)
  from step(3) [OF y] obtain port1 where p1: "port_get s1 p = Some port1" "port_status port1 \<in> {RTE_PORT_HANDLING, RTE_PORT_CLOSED}" by blast
  from port_cmd_life [OF step(2) [unfolded y] p1(1)] p1(2) show ?case by (auto elim: life.cases)
qed

text \<open>
  a start command that returns success leaves every port it was asked to start, and that was
  stopped, started or stopped, never in between, and touches the status of no other port.
\<close>

theorem start_port_effect:
  assumes "start_port api c f pid s = Some (0, t)" "port_get s p = Some port"
  shows "\<exists>port'. port_get t p = Some port' \<and>
    (if p \<in> set (eth_devs s) \<and> (pid = p \<or> pid = RTE_PORT_ALL) \<and> port_status port = RTE_PORT_STOPPED
     then port_status port' \<in> {RTE_PORT_STARTED, RTE_PORT_STOPPED} else port_status port' = port_status port)"
proof -
  have v: "status s p = Some (port_status port)" using assms(2) by (simp add: status_def)
  note m = spec [OF conjunct2 [OF start_port_moves [OF assms(1)]], of p]
  obtain port' where p': "port_get t p = Some port'" using m v by (auto simp: status_def start_move_def split: if_splits)
  then have "status t p = Some (port_status port')" by (simp add: status_def)
  with m v p' show ?thesis by (auto simp: selected_def start_move_def split: if_splits)
qed

text \<open>
  when the device cannot be isolated, the start command returns its error and leaves the port in
  handling.
\<close>

theorem start_port_stuck:
  assumes "pid \<in> set (eth_devs s)" "pid \<noteq> RTE_PORT_ALL" "port_get s pid = Some port" "port_status port = RTE_PORT_STOPPED"
    "need_reconfig port > 0" "flow_isolate_all c" "rte_flow_isolate api pid 1 (dev s) = (e, d)" "e \<noteq> 0" "rte_errno api d \<noteq> 0"
  shows "\<exists>t port'. start_port api c f pid s = Some (- 1, t) \<and> port_get t pid = Some port' \<and>
    port_status port' = RTE_PORT_HANDLING"
proof -
  let ?s0 = "port_upd pid (\<lambda>p. p\<lparr>port_status := RTE_PORT_HANDLING\<rparr>) s"
  let ?s1 = "(port_upd pid (\<lambda>p. p\<lparr>need_reconfig := 0\<rparr>) ?s0)\<lparr>dev := d\<rparr>"
  have iso: "port_flow_isolate api pid 1 (port_upd pid (\<lambda>p. p\<lparr>need_reconfig := 0\<rparr>) ?s0) = (- rte_errno api d, ?s1)"
    using assms(7,8) by (simp add: port_flow_isolate_def port_flow_complain_def)
  have one: "start_one api c f pid a s = Some (False, a, ?s1)" for a
    using assms(3-6,9) iso by (simp add: start_one_def start_configure_def Let_def)
  have "start_loop api c f pid devs a s = Some (False, a, ?s1)" if "pid \<in> set devs" for devs a
    using that assms(2) by (induction devs arbitrary: a) (auto simp: one)
  then have "start_port api c f pid s = Some (- 1, ?s1)"
    using assms(1,2) by (simp add: start_port_def port_id_is_invalid_def)
  moreover have "\<exists>port'. port_get ?s1 pid = Some port' \<and> port_status port' = RTE_PORT_HANDLING"
    using assms(3) by (simp add: port_get_upd)
  ultimately show ?thesis by blast
qed

end
