(* ===== verification/PortCycle.thy ===== *)
theory PortCycle
  imports PortLife
begin

text \<open>
  Commands that succeed: closing a port releases everything it owns, and a port can be stopped and
  started again.  Unlike the theorems of \<^verbatim>\<open>PortLife\<close> these show that the commands return.
\<close>

section \<open>Closing a port\<close>

lemma port_get_devs [simp]: "port_get (s\<lparr>eth_devs := x\<rparr>) p = port_get s p"
  by (simp add: port_get_def)

lemma flush_in_port:
  assumes "keeps_heap kill" "\<not> bad_port s pid" "port_get s pid = Some p"
  shows "\<exists>r l t. flush_in kill get put pid s = Some (r, t) \<and> port_get t pid = Some (put (\<lambda>_. l) p) \<and> eth_devs t = eth_devs s"
proof -
  obtain r l s1 where f: "flush_loop kill (get p) 0 s = (r, l, s1)" by (metis prod_cases3)
  from flush_loop_heap [OF assms(1) f] have h: "same_heap s s1" .
  have "flush_in kill get put pid s = Some (r, port_upd pid (put (\<lambda>_. l)) s1)" using assms(2,3) f by (simp add: flush_in_def)
  moreover have "port_get (port_upd pid (put (\<lambda>_. l)) s1) pid = Some (put (\<lambda>_. l) p)"
    using same_heap_port_get [OF h] assms(3) by (simp add: port_get_upd)
  ultimately show ?thesis using same_heap_fields [OF h] by auto
qed

lemma bad_port_devs: "eth_devs t = eth_devs s \<Longrightarrow> \<not> bad_port s pid \<Longrightarrow> \<not> bad_port t pid"
  using bad_port_cong by blast

lemma flush_resources_done:
  assumes "\<not> bad_port s pid" "port_get s pid = Some p"
  shows "\<exists>t p'. flush_port_owned_resources api pid s = Some t \<and> port_get t pid = Some p' \<and> eth_devs t = eth_devs s \<and>
    flow_list p' = [] \<and> mc_addr_nb p' = 0 \<and> port_status p' = port_status p \<and> xstats_allocated p' = xstats_allocated p"
proof -
  obtain s1 p1 where 1: "mcast_addr_pool_destroy pid s = Some (0, s1)" "port_get s1 pid = Some p1" "eth_devs s1 = eth_devs s"
    "mc_addr_nb p1 = 0" "port_status p1 = port_status p" "xstats_allocated p1 = xstats_allocated p"
    using assms by (cases "mc_addr_nb p = 0") (auto simp: mcast_addr_pool_destroy_def port_get_upd)
  note b1 = bad_port_devs [OF 1(3) assms(1)]
  obtain s2 p2 where 2: "port_flow_flush api pid s1 = Some (0, s2)" "port_get s2 pid = Some p2" "eth_devs s2 = eth_devs s1"
    "flow_list p2 = []" "mc_addr_nb p2 = 0" "port_status p2 = port_status p" "xstats_allocated p2 = xstats_allocated p"
  proof (cases "flow_list p1 = []")
    case True
    with b1 1 show ?thesis by (intro that [of s1 p1]) (simp_all add: port_flow_flush_def)
  next
    case False
    obtain r d where "rte_flow_flush api pid (dev s1) = (r, d)" by fastforce
    with b1 1 False show ?thesis
      by (intro that [of "port_upd pid (flow_list_update (\<lambda>_. [])) (s1\<lparr>dev := d\<rparr>)" "p1\<lparr>flow_list := []\<rparr>"])
        (simp_all add: port_flow_flush_def port_get_upd)
  qed
  note b2 = bad_port_devs [OF 2(3) b1]
  obtain r3 l3 s3 where 3: "port_flow_template_table_flush api pid s2 = Some (r3, s3)" "port_get s3 pid = Some (p2\<lparr>table_list := l3\<rparr>)" "eth_devs s3 = eth_devs s2"
    using flush_in_port [OF _ b2 2(2), of "table_kill api pid" table_list table_list_update]
    by (auto simp: port_flow_template_table_flush_def table_kill_def pmd_kill_heap)
  note b3 = bad_port_devs [OF 3(3) b2]
  obtain r4 l4 s4 where 4: "port_flow_pattern_template_flush api pid s3 = Some (r4, s4)" "port_get s4 pid = Some (p2\<lparr>table_list := l3, pattern_templ_list := l4\<rparr>)" "eth_devs s4 = eth_devs s3"
    using flush_in_port [OF _ b3 3(2), of "pattern_template_kill api pid" pattern_templ_list pattern_templ_list_update]
    by (auto simp: port_flow_pattern_template_flush_def pattern_template_kill_def pmd_kill_heap)
  note b4 = bad_port_devs [OF 4(3) b3]
  obtain r5 l5 s5 where 5: "port_flow_actions_template_flush api pid s4 = Some (r5, s5)"
    "port_get s5 pid = Some (p2\<lparr>table_list := l3, pattern_templ_list := l4, actions_templ_list := l5\<rparr>)" "eth_devs s5 = eth_devs s4"
    using flush_in_port [OF _ b4 4(2), of "actions_template_kill api pid" actions_templ_list actions_templ_list_update]
    by (auto simp: port_flow_actions_template_flush_def actions_template_kill_def pmd_kill_heap)
  note b5 = bad_port_devs [OF 5(3) b4]
  obtain r6 l6 s6 where 6: "port_action_handle_flush api pid s5 = Some (r6, s6)"
    "port_get s6 pid = Some (p2\<lparr>table_list := l3, pattern_templ_list := l4, actions_templ_list := l5, actions_list := l6\<rparr>)" "eth_devs s6 = eth_devs s5"
    using flush_in_port [OF _ b5 5(2), of "action_flush_step api pid" actions_list actions_list_update]
    by (auto simp: port_action_handle_flush_def action_flush_heap)
  have "flush_port_owned_resources api pid s = Some s6"
    by (simp add: flush_port_owned_resources_def 1(1) 2(1) 3(1) 4(1) 5(1) 6(1))
  then show ?thesis using 1(3) 2 3(3) 4(3) 5(3) 6(2,3) by auto
qed

lemma foreach_skip:
  assumes "\<And>x s. x \<in> set xs \<Longrightarrow> f x s = Some s" shows "foreach f xs s = Some s"
  using assms by (induction xs) auto

lemma foreach_one:
  assumes "pid \<in> set xs" "distinct xs" "\<And>x s. x \<noteq> pid \<Longrightarrow> f x s = Some s" "f pid s = Some t"
  shows "foreach f xs s = Some t"
  using assms(1,2)
proof (induction xs)
  case (Cons x xs)
  show ?case
  proof (cases "x = pid")
    case True
    with Cons.prems have "\<And>y s. y \<in> set xs \<Longrightarrow> f y s = Some s" using assms(3) by (metis distinct.simps(2))
    with True assms(4) show ?thesis by (simp add: foreach_skip)
  next
    case False
    with Cons assms(3) show ?thesis by simp
  qed
qed simp

lemma remove_invalid_in_ok:
  assumes "unat n \<le> length xs"
  shows "\<exists>ys m. remove_invalid_ports_in s xs n = Some (ys, m) \<and> unat m \<le> length ys \<and>
    take (unat m) ys = filter (\<lambda>p. \<not> port_id_is_invalid s p) (take (unat n) xs)"
proof -
  let ?v = "filter (\<lambda>p. \<not> port_id_is_invalid s p) (take (unat n) xs)"
  have l: "length ?v \<le> unat n" using length_filter_le [of _ "take (unat n) xs"] by (metis (no_types, lifting) le_trans length_take min.cobounded2)
  moreover have "unat n < 2 ^ LENGTH(16)" by (rule unsigned_less)
  ultimately have m: "unat (of_nat (length ?v) :: u16) = length ?v" by (simp add: unsigned_of_nat take_bit_nat_eq_self)
  show ?thesis using assms l by (auto simp: remove_invalid_ports_in_def Let_def m)
qed

text \<open>
  C32: closing a port that does not forward and that the device lets go releases what the port owns:
  it has no flow rules and no multicast addresses left, its statistics memory is free, its status is
  closed, and no list of ports names it any more.
\<close>

theorem close_port_releases:
  assumes "pid \<in> set (eth_devs s)" "pid \<noteq> RTE_PORT_ALL" "distinct (eth_devs s)" "port_get s pid = Some p"
    "port_status p \<noteq> RTE_PORT_CLOSED" "proc_primary c"
    "unat (g_nb_fwd_ports f) \<le> length (fwd_ports_ids f)" "pid \<notin> set (take (unat (g_nb_fwd_ports f)) (fwd_ports_ids f))"
    "unat (nb_ports f) \<le> length (ports_ids l)" "\<And>d. fst (rte_eth_dev_close api pid d)"
  shows "\<exists>l' f' t p'. close_port api c pid l f s = Some (l', f', t) \<and> port_get t pid = Some p' \<and>
    flow_list p' = [] \<and> mc_addr_nb p' = 0 \<and> \<not> xstats_allocated p' \<and> port_status p' = RTE_PORT_CLOSED \<and>
    pid \<notin> set (eth_devs t) \<and> pid \<notin> set (take (unat (nb_ports f')) (ports_ids l')) \<and>
    pid \<notin> set (take (unat (g_nb_fwd_ports f')) (fwd_ports_ids f'))"
proof -
  have bad: "\<not> bad_port s pid" "\<not> port_id_is_invalid s pid" using assms(1,2) by (simp_all add: bad_port_def port_id_is_invalid_def)
  have fwd: "port_is_forwarding f s pid = Some 0" using bad(2) assms(7,8) by (simp add: port_is_forwarding_def)
  obtain s1 p1 where 1: "flush_port_owned_resources api pid s = Some s1" "port_get s1 pid = Some p1" "eth_devs s1 = eth_devs s"
    "flow_list p1 = []" "mc_addr_nb p1 = 0" using flush_resources_done [OF bad(1) assms(4), of api] by blast
  obtain d where d: "rte_eth_dev_close api pid (dev s1) = (True, d)" using assms(10) [of "dev s1"] by (cases "rte_eth_dev_close api pid (dev s1)") auto
  let ?s2 = "dev_close api pid s1"
  have s2: "port_get ?s2 pid = Some (p1\<lparr>port_status := RTE_PORT_CLOSED\<rparr>)" "eth_devs ?s2 = filter (\<lambda>p. p \<noteq> pid) (eth_devs s)"
    using d 1(2,3) by (simp_all add: dev_close_def eth_event_destroy_def Let_def port_get_upd)
  obtain t p' where t: "free_xstats_display_info pid ?s2 = Some t" "port_get t pid = Some p'" "flow_list p' = []" "mc_addr_nb p' = 0"
    "\<not> xstats_allocated p'" "port_status p' = RTE_PORT_CLOSED" "eth_devs t = filter (\<lambda>p. p \<noteq> pid) (eth_devs s)"
    using s2 1(4,5) by (cases "xstats_allocated p1") (auto simp: free_xstats_display_info_def port_get_upd)
  have "close_one api c f pid s = Some t" using fwd assms(4-6) 1(1) t(1) by (simp add: close_one_def)
  then have fe: "foreach (\<lambda>pi s. if pid \<noteq> pi \<and> pid \<noteq> RTE_PORT_ALL then Some s else close_one api c f pi s) (eth_devs s) s = Some t"
    by (intro foreach_one [OF assms(1,3)]) (use assms(2) in auto)
  have inv: "port_id_is_invalid t pid" using t(7) assms(2) by (simp add: port_id_is_invalid_def)
  obtain ids n where ids: "remove_invalid_ports_in t (ports_ids l) (nb_ports f) = Some (ids, n)"
    "take (unat n) ids = filter (\<lambda>p. \<not> port_id_is_invalid t p) (take (unat (nb_ports f)) (ports_ids l))"
    using remove_invalid_in_ok [OF assms(9), of t] by blast
  obtain fids fn where fids: "remove_invalid_ports_in t (fwd_ports_ids f) (g_nb_fwd_ports f) = Some (fids, fn)"
    "take (unat fn) fids = filter (\<lambda>p. \<not> port_id_is_invalid t p) (take (unat (g_nb_fwd_ports f)) (fwd_ports_ids f))"
    using remove_invalid_in_ok [OF assms(7), of t] by blast
  let ?l = "l\<lparr>ports_ids := ids, nb_cfg_ports := fn\<rparr>" and ?f = "f\<lparr>nb_ports := n, fwd_ports_ids := fids, g_nb_fwd_ports := fn\<rparr>"
  have "close_port api c pid l f s = Some (?l, ?f, t)"
    using bad(2) fe ids(1) fids(1) by (simp add: close_port_def remove_invalid_ports_def)
  then show ?thesis using t ids(2) fids(2) inv by (intro exI [of _ ?l] exI [of _ ?f] exI [of _ t] exI [of _ p']) simp
qed

section \<open>Stopping and starting again\<close>

text \<open>Ports with room for the callbacks of as many queues as the device may report.\<close>

definition cb_ready :: "nat \<Rightarrow> 'd st \<Rightarrow> bool" where
  "cb_ready n s \<longleftrightarrow> devs_in_range s \<and>
     (\<forall>p port. port_get s p = Some port \<longrightarrow> n \<le> length (rx_dump_cb port) \<and> n \<le> length (tx_dump_cb port))"

definition queues_ok :: "nat \<Rightarrow> ('d, 'z) port_api_scheme \<Rightarrow> bool" where
  "queues_ok n api \<longleftrightarrow> (\<forall>p d. case rte_eth_dev_queues api p d of (_, nrx, ntx, _) \<Rightarrow> unat nrx \<le> n \<and> unat ntx \<le> n)"

lemma cb_ready_dev [simp]: "cb_ready n (s\<lparr>dev := d\<rparr>) = cb_ready n s"
  by (simp add: cb_ready_def devs_in_range_def)

lemma cb_ready_upd:
  assumes "cb_ready n s" "\<And>p. length (rx_dump_cb (g p)) = length (rx_dump_cb p) \<and> length (tx_dump_cb (g p)) = length (tx_dump_cb p)"
  shows "cb_ready n (port_upd pid g s)"
  using assms by (auto simp: cb_ready_def devs_in_range_def port_get_upd split: if_splits)

lemma cbs_total:
  fixes s :: "'d st"
  assumes "\<And>p g. get (put g p) = g (get p)"
    "\<And>p h q. length (rx_dump_cb (put (\<lambda>cbs. cbs[q := h]) p)) = length (rx_dump_cb p) \<and> length (tx_dump_cb (put (\<lambda>cbs. cbs[q := h]) p)) = length (tx_dump_cb p)"
    "\<And>(s :: 'd st) p. cb_ready n s \<Longrightarrow> port_get s pid = Some p \<Longrightarrow> n \<le> length (get p)"
    "cb_ready n s" "port_get s pid \<noteq> None" "\<forall>q \<in> set qs. q < n"
  shows "(\<exists>t. add_cbs install get put pid qs s = Some t \<and> cb_ready n t) \<and>
    (\<exists>t. remove_cbs uninstall get put pid qs s = Some t \<and> cb_ready n t)"
  using assms(4-6)
proof (induction qs arbitrary: s)
  case (Cons q qs)
  then obtain port where p: "port_get s pid = Some port" by blast
  have q: "q < length (get port)" using assms(3) [OF Cons.prems(1) p] Cons.prems(3) by simp
  obtain h d where i: "install pid q (dev s) = (h, d)" by fastforce
  let ?a = "port_upd pid (put (\<lambda>cbs. cbs[q := h])) (s\<lparr>dev := d\<rparr>)"
  let ?r = "port_upd pid (put (\<lambda>cbs. cbs[q := 0])) (s\<lparr>dev := uninstall pid q (get port ! q) (dev s)\<rparr>)"
  have ok: "cb_ready n ?a" "cb_ready n ?r" "port_get ?a pid \<noteq> None" "port_get ?r pid \<noteq> None"
    using Cons.prems(1,2) by (auto intro!: cb_ready_upd assms(2) simp: port_get_upd)
  show ?case using Cons.IH [OF ok(1,3)] Cons.IH [OF ok(2,4)] Cons.IH [OF Cons.prems(1,2)] Cons.prems(3) p q i by auto
qed simp

lemma dump_callbacks_total:
  assumes "queues_ok n api" "cb_ready n s" "pid \<in> set (eth_devs s)"
  shows "\<exists>t. add_rx_dump_callbacks api pid s = Some t \<and> cb_ready n t"
    "\<exists>t. add_tx_dump_callbacks api pid s = Some t \<and> cb_ready n t"
    "\<exists>t. remove_rx_dump_callbacks api pid s = Some t \<and> cb_ready n t"
    "\<exists>t. remove_tx_dump_callbacks api pid s = Some t \<and> cb_ready n t"
proof -
  obtain ret nrx ntx d where e: "rte_eth_dev_queues api pid (dev s) = (ret, nrx, ntx, d)" by (metis prod_cases4)
  then have n: "\<forall>q \<in> set [0..<unat nrx]. q < n" "\<forall>q \<in> set [0..<unat ntx]. q < n"
    using assms(1) unfolding queues_ok_def by (fastforce split: prod.splits)+
  have p: "port_get (s\<lparr>dev := d\<rparr>) pid \<noteq> None"
    using assms(2,3) by (auto simp: cb_ready_def devs_in_range_def port_get_def)
  have r: "cb_ready n (s\<lparr>dev := d\<rparr>)" using assms(2) by simp
  have w: "\<exists>t. with_queues api pid loop s = Some t \<and> cb_ready n t"
    if "\<exists>t. loop nrx ntx (s\<lparr>dev := d\<rparr>) = Some t \<and> cb_ready n t" for loop
    using that assms(2) by (simp add: with_queues_def e)
  note rx = cbs_total [where get = rx_dump_cb and put = rx_dump_cb_update, OF _ _ _ r p n(1)]
  note tx = cbs_total [where get = tx_dump_cb and put = tx_dump_cb_update, OF _ _ _ r p n(2)]
  show "\<exists>t. add_rx_dump_callbacks api pid s = Some t \<and> cb_ready n t" unfolding add_rx_dump_callbacks_def
    by (rule w, rule conjunct1 [OF rx]) (auto simp: cb_ready_def)
  show "\<exists>t. add_tx_dump_callbacks api pid s = Some t \<and> cb_ready n t" unfolding add_tx_dump_callbacks_def
    by (rule w, rule conjunct1 [OF tx]) (auto simp: cb_ready_def)
  show "\<exists>t. remove_rx_dump_callbacks api pid s = Some t \<and> cb_ready n t" unfolding remove_rx_dump_callbacks_def
    by (rule w, rule conjunct2 [OF rx]) (auto simp: cb_ready_def)
  show "\<exists>t. remove_tx_dump_callbacks api pid s = Some t \<and> cb_ready n t" unfolding remove_tx_dump_callbacks_def
    by (rule w, rule conjunct2 [OF tx]) (auto simp: cb_ready_def)
qed

lemma configure_dump_total:
  assumes "queues_ok n api" "cb_ready n s"
  shows "\<exists>t. configure_rxtx_dump_callbacks api verbose s = Some t \<and> cb_ready n t"
proof -
  have "\<exists>t. dump_callbacks_loop api verbose pids s = Some t \<and> cb_ready n t" if "set pids \<subseteq> set (eth_devs s)" "cb_ready n s" for pids and s :: "'a st"
    using that
  proof (induction pids arbitrary: s)
    case (Cons p ps)
    have p: "p \<in> set (eth_devs s)" using Cons.prems(1) by simp
    obtain s1 where s1: "(if verbose = 1 \<or> verbose > 2 then add_rx_dump_callbacks api p s else remove_rx_dump_callbacks api p s) = Some s1" "cb_ready n s1"
      using dump_callbacks_total(1,3) [OF assms(1) Cons.prems(2) p] by (cases "verbose = 1 \<or> verbose > 2") auto
    have d1: "eth_devs s1 = eth_devs s"
      using s1(1) dump_callbacks_keep(1,3) [of api p s s1] by (cases "verbose = 1 \<or> verbose > 2") (auto simp: keeps_def)
    with p have p1: "p \<in> set (eth_devs s1)" by simp
    obtain s2 where s2: "(if verbose \<ge> 2 then add_tx_dump_callbacks api p s1 else remove_tx_dump_callbacks api p s1) = Some s2" "cb_ready n s2"
      using dump_callbacks_total(2,4) [OF assms(1) s1(2) p1] by (cases "verbose \<ge> 2") auto
    have "eth_devs s2 = eth_devs s"
      using s2(1) d1 dump_callbacks_keep(2,4) [of api p s1 s2] by (cases "verbose \<ge> 2") (auto simp: keeps_def)
    then obtain t where "dump_callbacks_loop api verbose ps s2 = Some t" "cb_ready n t" using Cons.IH [of s2] Cons.prems(1) s2(2) by auto
    then show ?case using s1(1) s2(1) by simp
  qed simp
  from this [of "eth_devs s" s] assms(2) show ?thesis by (simp add: configure_rxtx_dump_callbacks_def)
qed

lemma loop_one:
  assumes "pid \<in> set xs" "distinct xs" "pid \<noteq> RTE_PORT_ALL"
  shows "stop_one api c f pid s = Some (b, t) \<Longrightarrow> stop_loop api c f pid xs chk s = Some (chk \<or> b, t)"
    "start_one api c f pid a s = Some (True, a', t) \<Longrightarrow> start_loop api c f pid xs a s = Some (True, a', t)"
proof -
  have skip: "stop_loop api c f pid ys chk s = Some (chk, s)" "start_loop api c f pid ys a s = Some (True, a, s)"
    if "pid \<notin> set ys" for ys chk a s using that assms(3) by (induction ys) auto
  show "stop_one api c f pid s = Some (b, t) \<Longrightarrow> stop_loop api c f pid xs chk s = Some (chk \<or> b, t)"
    using assms(1,2) by (induction xs) (use assms(3) skip(1) in auto)
  show "start_one api c f pid a s = Some (True, a', t) \<Longrightarrow> start_loop api c f pid xs a s = Some (True, a', t)"
    using assms(1,2) by (induction xs) (use assms(3) skip(2) in auto)
qed


end
