(* ===== verification/PortWitnesses.thy ===== *)
theory PortWitnesses
  imports PortCycle FwdWitnesses
begin

text \<open>
  The simulated driver of \<^verbatim>\<open>FlowWitnesses\<close> with the calls of the port commands: every call succeeds
  unless the flag of the driver is set.  Each witness applies one property to a concrete state.
\<close>

definition sim_port_api :: "sim port_api" where
  "sim_port_api = flow_api.extend (flow_api.truncate sim_api) (port_api.fields
     (\<lambda>_ d. (0, 1, 1, d)) (\<lambda>_ d. (0, 0, d)) (\<lambda>_ _ d. (9, d)) (\<lambda>_ _ d. (9, d)) (\<lambda>_ _ _ d. d) (\<lambda>_ _ _ d. d)
     (\<lambda>_ _ _. 3) (\<lambda>_ _ _ _ _ _. sim_ack) (\<lambda>_ _ _ _ _. sim_ack) (\<lambda>_ _ _ _. sim_ack) (\<lambda>_ _ _ _. sim_ack)
     (\<lambda>_ _ d. (0, 1, d)) (\<lambda>_ _ d. (0, 1, d)) (\<lambda>_. sim_ack) (\<lambda>_ _ _ _. sim_ack) (\<lambda>_ d. (0, 0, 0, d))
     (\<lambda>_. sim_ack) (\<lambda>_ d. (0, d)) (\<lambda>_ d. (0, d)) (\<lambda>_. sim_ack) (\<lambda>_ d. (True, d)) (\<lambda>_ d. (0, replicate 6 1, d))
     (\<lambda>_ d. (0, True, d)) (\<lambda>_ _ d. (0, [], d)) (\<lambda>_ _. sim_ack) (\<lambda>_ _ d. d) (\<lambda>_ _. sim_ack))"

definition sim_ctl :: ctl where
  "sim_ctl = \<lparr>max_ethports = 32, proc_primary = True, nb_hairpinq = 0, nb_rxd = 512, nb_txd = 512, hairpin_mode = 0,
     flow_isolate_all = True, no_flow_flush = False, no_link_check = True, lsc_interrupt = True, clear_ptypes = False,
     verbose_level = 0, txring_numa = [255], rxring_numa = [255], mbuf_data_sizes = [2176], mbuf_data_size_n = 1,
     multi_rx_mempool = False, rx_pkt_nb_segs = 0, rx_pkt_seg_lengths = [], rx_pkt_nb_offs = 0, rx_pkt_seg_offsets = [],
     rx_pkt_hdr_protos = [], xstats_display = []\<rparr>"

text \<open>The forwarding configuration without ports.\<close>

definition idle_fwd :: fwd_st where
  "idle_fwd = sim_fwd\<lparr>fwd_ports_ids := [], g_nb_fwd_ports := 0, nb_ports := 1\<rparr>"

definition port_st :: "u16 \<Rightarrow> u8 \<Rightarrow> bool \<Rightarrow> sim st" where
  "port_st v reconf refuse = sim_st\<lparr>ports := [sim_port\<lparr>port_status := v, need_reconfig := reconf\<rparr>],
     dev := sim_dev\<lparr>sim_refuse := refuse\<rparr>\<rparr>"

lemmas sim_port_defs = sim_port_api_def flow_api.defs port_api.defs sim_api_def

lemma port_st_get: "port_get (port_st v r b) 0 = Some (sim_port\<lparr>port_status := v, need_reconfig := r\<rparr>)"
  "eth_devs (port_st v r b) = [0]"
  by (simp_all add: port_st_def sim_st_def port_get_def)

theorem start_port_stuck_witness:
  "\<exists>t port'. start_port sim_port_api sim_ctl idle_fwd 0 (port_st RTE_PORT_STOPPED 1 True) = Some (- 1, t) \<and>
     port_get t 0 = Some port' \<and> port_status port' = RTE_PORT_HANDLING"
proof (rule start_port_stuck [where e = "- 1" and d = "sim_dev\<lparr>sim_refuse := True, sim_errno := 5\<rparr>"])
  show "rte_flow_isolate sim_port_api 0 1 (dev (port_st RTE_PORT_STOPPED 1 True)) = (- 1, sim_dev\<lparr>sim_refuse := True, sim_errno := 5\<rparr>)"
    "rte_errno sim_port_api (sim_dev\<lparr>sim_refuse := True, sim_errno := 5\<rparr>) \<noteq> 0"
    by (simp_all add: sim_port_defs port_st_def sim_ack_def sim_dev_def)
qed (auto simp: port_st_get sim_ctl_def)

lemma sim_stop:
  "\<exists>t. stop_port sim_port_api sim_ctl idle_fwd 0 (port_st v 0 False) = Some t"
  by (simp add: stop_port_def stop_one_def port_st_get port_id_is_invalid_def port_is_forwarding_def idle_fwd_def
      stop_hairpin_def sim_ctl_def port_get_upd eth_dev_stop_mp_def sim_port_defs sim_port_def)


theorem handling_is_stuck_witness:
  "\<exists>t port'. stop_port sim_port_api sim_ctl idle_fwd 0 (port_st RTE_PORT_HANDLING 0 False) = Some t \<and>
     port_get t 0 = Some port' \<and> port_status port' \<in> {RTE_PORT_HANDLING, RTE_PORT_CLOSED}"
proof -
  let ?l = "\<lparr>ports_ids = [0], nb_cfg_ports = 0\<rparr>"
  obtain t where t: "stop_port sim_port_api sim_ctl idle_fwd 0 (port_st RTE_PORT_HANDLING 0 False) = Some t" using sim_stop by blast
  then have "(port_cmd sim_port_api sim_ctl)\<^sup>*\<^sup>* (?l, idle_fwd, port_st RTE_PORT_HANDLING 0 False) (?l, idle_fwd, t)"
    by (intro r_into_rtranclp cmd_stop)
  from handling_is_stuck [OF this port_st_get(1)] t show ?thesis by simp
qed

theorem start_port_effect_witness:
  "\<exists>port'. port_get (port_st RTE_PORT_STARTED 0 False) 0 = Some port' \<and> port_status port' = RTE_PORT_STARTED"
proof -
  have "start_port sim_port_api sim_ctl idle_fwd RTE_PORT_ALL (port_st RTE_PORT_STARTED 0 False) = Some (0, port_st RTE_PORT_STARTED 0 False)"
    by (simp add: start_port_def port_id_is_invalid_def port_st_get start_one_def update_queue_state_def sim_ctl_def
        fill_xstats_display_info_for_port_def)
  from start_port_effect [OF this port_st_get(1)] show ?thesis by simp
qed

lemma sim_queues: "queues_ok 1 sim_port_api" "cb_ready 1 (port_st v r b)"
proof -
  show "queues_ok 1 sim_port_api" by (simp add: queues_ok_def sim_port_defs)
  have "length (rx_dump_cb port) = 1 \<and> length (tx_dump_cb port) = 1" if "port_get (port_st v r b) p = Some port" for p port
    using that by (auto simp: port_get_def port_st_def sim_st_def sim_port_def split: if_splits)
  moreover have "devs_in_range (port_st v r b)" by (simp add: devs_in_range_def port_st_def sim_st_def)
  ultimately show "cb_ready 1 (port_st v r b)" by (simp add: cb_ready_def)
qed


theorem close_port_releases_witness:
  "\<exists>l' f' t p'. close_port sim_port_api sim_ctl 0 \<lparr>ports_ids = [0], nb_cfg_ports = 0\<rparr> idle_fwd
       (port_st RTE_PORT_STOPPED 0 False) = Some (l', f', t) \<and> port_get t 0 = Some p' \<and>
     flow_list p' = [] \<and> port_status p' = RTE_PORT_CLOSED \<and> 0 \<notin> set (take (unat (nb_ports f')) (ports_ids l'))"
proof -
  have "\<exists>l' f' t p'. close_port sim_port_api sim_ctl 0 \<lparr>ports_ids = [0], nb_cfg_ports = 0\<rparr> idle_fwd
       (port_st RTE_PORT_STOPPED 0 False) = Some (l', f', t) \<and> port_get t 0 = Some p' \<and>
     flow_list p' = [] \<and> mc_addr_nb p' = 0 \<and> \<not> xstats_allocated p' \<and> port_status p' = RTE_PORT_CLOSED \<and>
     0 \<notin> set (eth_devs t) \<and> 0 \<notin> set (take (unat (nb_ports f')) (ports_ids l')) \<and>
     0 \<notin> set (take (unat (g_nb_fwd_ports f')) (fwd_ports_ids f'))"
    by (rule close_port_releases [OF _ _ _ port_st_get(1)])
      (simp_all add: port_st_get sim_ctl_def idle_fwd_def sim_port_defs)
  then show ?thesis by blast
qed

section \<open>Multicast addresses\<close>

definition sim_mc_api :: "bool \<Rightarrow> int \<Rightarrow> sim mc_api" where
  "sim_mc_api ok rc = \<lparr>mc_realloc = (\<lambda>pool n d. (if ok then Some (take n pool @ replicate (n - length pool) []) else None, d)),
     rte_eth_dev_set_mc_addr_list = (\<lambda>_ _ d. (rc, d))\<rparr>"

lemma sim_mc_ok: "mc_ok sim_port" "mc_list sim_port = []" "mc_addr_nb sim_port = 0" "mc_addr_pool sim_port = []"
  by (simp_all add: mc_ok_def mc_list_def sim_port_def)


theorem mcast_rollback_witness: "mcast_addr_add (sim_mc_api False (- 1)) 0 [1, 0, 0x5E, 0, 0, 1] sim_st = None"
  by (rule mcast_add_rollback_overrun [OF sim_port_ok sim_mc_ok(1), where d = "dev sim_st"])
    (simp_all add: sim_mc_ok sim_mc_api_def)

end
