(* ===== verification/PortLimits.thy ===== *)
theory PortLimits
  imports PortQueues
begin

text \<open>
  What the attached devices allow (\<^verbatim>\<open>get_allowed_max_nb_rxq\<close> to \<^verbatim>\<open>check_nb_hairpinq\<close> of \<^verbatim>\<open>dpdk.cpp\<close>) and the
  size of the frames of a port (\<^verbatim>\<open>eth_dev_validate_mtu\<close>, \<^verbatim>\<open>port_mtu_set\<close> of \<^verbatim>\<open>config.c\<close>,
  \<^verbatim>\<open>get_eth_overhead\<close>, \<^verbatim>\<open>update_mtu_from_frame_size\<close> of \<^verbatim>\<open>dpdk.cpp\<close>).  The limits are checked before a
  number of queues or descriptors is accepted; the theorems say that the checks accept exactly the
  numbers every device that answers can take.
\<close>

section \<open>Interface\<close>

text \<open>Asking a device does not change it; setting its frame size may.\<close>

record 'd conf_api = "'d port_api" +
  rte_eth_dev_info_get :: "u16 \<Rightarrow> 'd \<Rightarrow> int \<times> rte_eth_dev_info"
  hairpin_max_nb_queues :: "u16 \<Rightarrow> 'd \<Rightarrow> int \<times> u16"
  rte_eth_dev_get_mtu :: "u16 \<Rightarrow> 'd \<Rightarrow> int \<times> u16"
  rte_eth_dev_set_mtu :: "u16 \<Rightarrow> u16 \<Rightarrow> 'd \<Rightarrow> int \<times> 'd"
  rte_eth_rx_metadata_negotiate :: "u16 \<Rightarrow> 'd \<Rightarrow> int \<times> 'd"
  tx_buffer_create :: "u16 \<Rightarrow> nat \<Rightarrow> 'd \<Rightarrow> 'd"

abbreviation RTE_MAX_QUEUES_PER_PORT :: u16 where "RTE_MAX_QUEUES_PER_PORT \<equiv> 1024"

definition eth_dev_info_get_print_err :: "('d, 'z) conf_api_scheme \<Rightarrow> u16 \<Rightarrow> 'd \<Rightarrow> int \<times> rte_eth_dev_info" where
  "eth_dev_info_get_print_err api pid d = rte_eth_dev_info_get api pid d"

section \<open>Limits of all devices\<close>

text \<open>
  The loop the functions share: the best value so far, the device that gave it, and whether a
  device answered at all.
\<close>

fun scan_limit ::
  "('d, 'z) conf_api_scheme \<Rightarrow> (rte_eth_dev_info \<Rightarrow> u16) \<Rightarrow> (u16 \<Rightarrow> u16 \<Rightarrow> bool) \<Rightarrow> 'd \<Rightarrow> u16 list \<Rightarrow> u16 \<times> u16 \<times> bool
    \<Rightarrow> u16 \<times> u16 \<times> bool" where
  "scan_limit api field better d [] acc = acc"
| "scan_limit api field better d (pi # pis) acc =
     (case eth_dev_info_get_print_err api pi d of (ret, info) \<Rightarrow>
      (case acc of (best, pid, valid) \<Rightarrow>
        scan_limit api field better d pis
          (if ret \<noteq> 0 then acc
           else if better (field info) best then (field info, pi, True) else (best, pid, True))))"

definition get_allowed_max_nb_rxq :: "('d, 'z) conf_api_scheme \<Rightarrow> u16 \<Rightarrow> 'd st \<Rightarrow> u16 \<times> u16" where
  "get_allowed_max_nb_rxq api pid s =
     (case scan_limit api max_rx_queues (<) (dev s) (eth_devs s) (RTE_MAX_QUEUES_PER_PORT, pid, False) of
        (best, p, valid) \<Rightarrow> (if valid then best else 0, p))"

definition get_allowed_max_nb_txq :: "('d, 'z) conf_api_scheme \<Rightarrow> u16 \<Rightarrow> 'd st \<Rightarrow> u16 \<times> u16" where
  "get_allowed_max_nb_txq api pid s =
     (case scan_limit api max_tx_queues (<) (dev s) (eth_devs s) (RTE_MAX_QUEUES_PER_PORT, pid, False) of
        (best, p, valid) \<Rightarrow> (if valid then best else 0, p))"

definition get_allowed_max_nb_rxd :: "('d, 'z) conf_api_scheme \<Rightarrow> u16 \<Rightarrow> 'd st \<Rightarrow> u16 \<times> u16" where
  "get_allowed_max_nb_rxd api pid s =
     (case scan_limit api rx_desc_nb_max (<) (dev s) (eth_devs s) (0xFFFF, pid, False) of (best, p, _) \<Rightarrow> (best, p))"

definition get_allowed_min_nb_rxd :: "('d, 'z) conf_api_scheme \<Rightarrow> u16 \<Rightarrow> 'd st \<Rightarrow> u16 \<times> u16" where
  "get_allowed_min_nb_rxd api pid s =
     (case scan_limit api rx_desc_nb_min (>) (dev s) (eth_devs s) (0, pid, False) of (best, p, _) \<Rightarrow> (best, p))"

definition get_allowed_max_nb_txd :: "('d, 'z) conf_api_scheme \<Rightarrow> u16 \<Rightarrow> 'd st \<Rightarrow> u16 \<times> u16" where
  "get_allowed_max_nb_txd api pid s =
     (case scan_limit api tx_desc_nb_max (<) (dev s) (eth_devs s) (0xFFFF, pid, False) of (best, p, _) \<Rightarrow> (best, p))"

definition get_allowed_min_nb_txd :: "('d, 'z) conf_api_scheme \<Rightarrow> u16 \<Rightarrow> 'd st \<Rightarrow> u16 \<times> u16" where
  "get_allowed_min_nb_txd api pid s =
     (case scan_limit api tx_desc_nb_min (>) (dev s) (eth_devs s) (0, pid, False) of (best, p, _) \<Rightarrow> (best, p))"

text \<open>The first device that cannot tell its limit ends the search with zero.\<close>

fun scan_hairpin :: "('d, 'z) conf_api_scheme \<Rightarrow> 'd \<Rightarrow> u16 list \<Rightarrow> u16 \<times> u16 \<Rightarrow> u16 \<times> u16" where
  "scan_hairpin api d [] acc = acc"
| "scan_hairpin api d (pi # pis) acc =
     (case hairpin_max_nb_queues api pi d of (ret, n) \<Rightarrow>
        if ret \<noteq> 0 then (0, pi)
        else scan_hairpin api d pis (if n < fst acc then (n, pi) else acc))"

definition get_allowed_max_nb_hairpinq :: "('d, 'z) conf_api_scheme \<Rightarrow> u16 \<Rightarrow> 'd st \<Rightarrow> u16 \<times> u16" where
  "get_allowed_max_nb_hairpinq api pid s = scan_hairpin api (dev s) (eth_devs s) (RTE_MAX_QUEUES_PER_PORT, pid)"

definition check_nb_rxq :: "('d, 'z) conf_api_scheme \<Rightarrow> u16 \<Rightarrow> 'd st \<Rightarrow> int" where
  "check_nb_rxq api rxq s = (if rxq > fst (get_allowed_max_nb_rxq api 0 s) then - 1 else 0)"

definition check_nb_txq :: "('d, 'z) conf_api_scheme \<Rightarrow> u16 \<Rightarrow> 'd st \<Rightarrow> int" where
  "check_nb_txq api txq s = (if txq > fst (get_allowed_max_nb_txq api 0 s) then - 1 else 0)"

definition check_nb_rxd :: "('d, 'z) conf_api_scheme \<Rightarrow> u16 \<Rightarrow> 'd st \<Rightarrow> int" where
  "check_nb_rxd api rxd s =
     (case get_allowed_max_nb_rxd api 0 s of (most, pid) \<Rightarrow>
        if rxd > most then - 1
        else if rxd < fst (get_allowed_min_nb_rxd api pid s) then - 1
        else 0)"

definition check_nb_txd :: "('d, 'z) conf_api_scheme \<Rightarrow> u16 \<Rightarrow> 'd st \<Rightarrow> int" where
  "check_nb_txd api txd s =
     (case get_allowed_max_nb_txd api 0 s of (most, pid) \<Rightarrow>
        if txd > most then - 1
        else if txd < fst (get_allowed_min_nb_txd api pid s) then - 1
        else 0)"

definition check_nb_hairpinq :: "('d, 'z) conf_api_scheme \<Rightarrow> u16 \<Rightarrow> 'd st \<Rightarrow> int" where
  "check_nb_hairpinq api hairpinq s = (if hairpinq > fst (get_allowed_max_nb_hairpinq api 0 s) then - 1 else 0)"

section \<open>Frame sizes\<close>

definition get_eth_overhead :: "rte_eth_dev_info \<Rightarrow> u32" where
  "get_eth_overhead info =
     (if max_mtu info \<noteq> 0xFFFF \<and> max_rx_pktlen info > ucast (max_mtu info)
      then max_rx_pktlen info - ucast (max_mtu info) else 14 + 4)"

definition eth_dev_get_overhead_len :: "u32 \<Rightarrow> u16 \<Rightarrow> u32" where
  "eth_dev_get_overhead_len pktlen mtu =
     (if mtu \<noteq> 0xFFFF \<and> pktlen > ucast mtu then pktlen - ucast mtu else 14 + 4)"

definition eth_dev_validate_mtu :: "('d, 'z) conf_api_scheme \<Rightarrow> u16 \<Rightarrow> u16 \<Rightarrow> 'd st \<Rightarrow> int" where
  "eth_dev_validate_mtu api pid mtu s =
     (case rte_eth_dev_info_get api pid (dev s) of (ret, info) \<Rightarrow>
        if ret \<noteq> 0 then ret
        else if mtu < min_mtu info then - EINVAL
        else if mtu > max_mtu info then - EINVAL
        else if ucast mtu + eth_dev_get_overhead_len (max_rx_pktlen info) (max_mtu info) > max_rx_pktlen info then - EINVAL
        else 0)"

definition port_mtu_set :: "('d, 'z) conf_api_scheme \<Rightarrow> u16 \<Rightarrow> u16 \<Rightarrow> 'd st \<Rightarrow> 'd st option" where
  "port_mtu_set api pid mtu s =
     (if port_id_is_invalid s pid then Some s
      else if eth_dev_validate_mtu api pid mtu s \<noteq> 0 then Some s
      else do {
        port \<leftarrow> port_get s pid;
        (let (diag, d) = (if need_reconfig port = 0 then rte_eth_dev_set_mtu api pid mtu (dev s) else (0, dev s)) in
         Some (if diag \<noteq> 0 then s\<lparr>dev := d\<rparr>
               else port_upd pid (\<lambda>p. p\<lparr>rxmode_mtu := ucast mtu\<rparr>) (s\<lparr>dev := d\<rparr>)))
      })"

definition eth_dev_set_mtu_mp :: "('d, 'z) conf_api_scheme \<Rightarrow> ctl \<Rightarrow> u16 \<Rightarrow> u16 \<Rightarrow> 'd \<Rightarrow> int \<times> 'd" where
  "eth_dev_set_mtu_mp api c pid mtu d = (if proc_primary c then rte_eth_dev_set_mtu api pid mtu d else (0, d))"

text \<open>The difference of the frame size and the overhead is cut to the sixteen bits of a frame size.\<close>

definition update_mtu_from_frame_size ::
  "('d, 'z) conf_api_scheme \<Rightarrow> ctl \<Rightarrow> u16 \<Rightarrow> u32 \<Rightarrow> 'd st \<Rightarrow> (int \<times> 'd st) option" where
  "update_mtu_from_frame_size api c pid pktlen s = do {
     port \<leftarrow> port_get s pid;
     (case rte_eth_dev_get_mtu api pid (dev s) of (ret, mtu) \<Rightarrow>
        if ret \<noteq> 0 then Some (- 1, s)
        else (let new_mtu = ucast (pktlen - get_eth_overhead (dev_info port)) in
              if mtu = new_mtu then Some (0, s)
              else (case eth_dev_set_mtu_mp api c pid new_mtu (dev s) of (diag, d) \<Rightarrow>
                      Some (if diag \<noteq> 0 then (- 1, s\<lparr>dev := d\<rparr>)
                            else (0, port_upd pid (\<lambda>p. p\<lparr>rxmode_mtu := ucast new_mtu\<rparr>) (s\<lparr>dev := d\<rparr>))))))
   }"

section \<open>The limits are those of all devices\<close>

definition answers :: "('d, 'z) conf_api_scheme \<Rightarrow> 'd \<Rightarrow> u16 \<Rightarrow> bool" where
  "answers api d p \<longleftrightarrow> fst (rte_eth_dev_info_get api p d) = 0"

definition told :: "('d, 'z) conf_api_scheme \<Rightarrow> 'd \<Rightarrow> u16 \<Rightarrow> rte_eth_dev_info" where
  "told api d p = snd (rte_eth_dev_info_get api p d)"

lemma scan_limit_Cons:
  "scan_limit api field better d (pi # pis) (best, pid, valid) =
     scan_limit api field better d pis
       (if \<not> answers api d pi then (best, pid, valid)
        else if better (field (told api d pi)) best then (field (told api d pi), pi, True) else (best, pid, True))"
  by (simp add: answers_def told_def eth_dev_info_get_print_err_def split: prod.split)

declare scan_limit.simps(2) [simp del] scan_limit_Cons [simp]

text \<open>
  Whether a number respects a limit, and which of two limits is the stricter one: the loop keeps the
  strictest.
\<close>

locale limit =
  fixes within :: "u16 \<Rightarrow> u16 \<Rightarrow> bool" and better :: "u16 \<Rightarrow> u16 \<Rightarrow> bool"
  assumes stricter: "within n (if better x y then x else y) \<longleftrightarrow> within n x \<and> within n y"
begin

lemma scan_within:
  "within n (fst (scan_limit api field better d pis (best, pid, valid))) \<longleftrightarrow>
     within n best \<and> (\<forall>p \<in> set pis. answers api d p \<longrightarrow> within n (field (told api d p)))"
proof (induction pis arbitrary: best pid valid)
  case (Cons p ps)
  show ?case
    using stricter [of n "field (told api d p)" best] by (auto simp: Cons.IH split: if_splits)
qed simp

end

interpretation upper: limit "(\<le>)" "(<)"
  by unfold_locales auto

interpretation lower: limit "(\<ge>)" "(>)"
  by unfold_locales auto

lemma scan_valid:
  "snd (snd (scan_limit api field better d pis (best, pid, valid))) \<longleftrightarrow> valid \<or> (\<exists>p \<in> set pis. answers api d p)"
  by (induction pis arbitrary: best pid valid) auto

text \<open>The device that is named is one that gave the limit.\<close>

lemma scan_blames:
  "scan_limit api field better d pis (best, pid, valid) = (m, p, v) \<Longrightarrow>
     (m, p) = (best, pid) \<or> p \<in> set pis \<and> answers api d p \<and> m = field (told api d p)"
proof (induction pis arbitrary: best pid valid)
  case (Cons q qs)
  then show ?case by (auto split: if_splits)
qed simp

lemma code_zero: "(if m < n then - 1 else 0) = (0 :: int) \<longleftrightarrow> n \<le> (m :: u16)"
  by auto

lemma allowed_queues:
  "n \<le> fst (case scan_limit api field (<) (dev s) (eth_devs s) (RTE_MAX_QUEUES_PER_PORT, pid, False) of
        (best, p, valid) \<Rightarrow> (if valid then best else 0, p)) \<longleftrightarrow>
     n = 0 \<or> (\<exists>p \<in> set (eth_devs s). answers api (dev s) p) \<and> n \<le> RTE_MAX_QUEUES_PER_PORT \<and>
       (\<forall>p \<in> set (eth_devs s). answers api (dev s) p \<longrightarrow> n \<le> field (told api (dev s) p))"
proof -
  obtain b p v where r: "scan_limit api field (<) (dev s) (eth_devs s) (RTE_MAX_QUEUES_PER_PORT, pid, False) = (b, p, v)"
    by (rule prod_cases3)
  show ?thesis
    using upper.scan_within [of n api field "dev s" "eth_devs s" RTE_MAX_QUEUES_PER_PORT pid False]
      scan_valid [of api field "(<)" "dev s" "eth_devs s" RTE_MAX_QUEUES_PER_PORT pid False]
    by (auto simp: r)
qed

text \<open>
  The checks of the numbers of queues accept a number exactly when it is zero or some device
  answers, it is not above the built-in maximum, and no device that answers has fewer queues.
\<close>

theorem queue_limits_exact:
  "(check_nb_rxq api n s = 0 \<longleftrightarrow>
     n = 0 \<or> (\<exists>p \<in> set (eth_devs s). answers api (dev s) p) \<and> n \<le> RTE_MAX_QUEUES_PER_PORT \<and>
       (\<forall>p \<in> set (eth_devs s). answers api (dev s) p \<longrightarrow> n \<le> max_rx_queues (told api (dev s) p))) \<and>
   (check_nb_txq api n s = 0 \<longleftrightarrow>
     n = 0 \<or> (\<exists>p \<in> set (eth_devs s). answers api (dev s) p) \<and> n \<le> RTE_MAX_QUEUES_PER_PORT \<and>
       (\<forall>p \<in> set (eth_devs s). answers api (dev s) p \<longrightarrow> n \<le> max_tx_queues (told api (dev s) p)))"
  using allowed_queues [of n api max_rx_queues s 0] allowed_queues [of n api max_tx_queues s 0]
  by (simp add: check_nb_rxq_def check_nb_txq_def get_allowed_max_nb_rxq_def get_allowed_max_nb_txq_def code_zero)

text \<open>
  The checks of the numbers of descriptors accept a number exactly when every device that answers
  takes it; the number is compared with the smallest maximum and the largest minimum.
\<close>

theorem descriptor_limits_exact:
  "(check_nb_rxd api n s = 0 \<longleftrightarrow>
     (\<forall>p \<in> set (eth_devs s). answers api (dev s) p \<longrightarrow>
        rx_desc_nb_min (told api (dev s) p) \<le> n \<and> n \<le> rx_desc_nb_max (told api (dev s) p))) \<and>
   (check_nb_txd api n s = 0 \<longleftrightarrow>
     (\<forall>p \<in> set (eth_devs s). answers api (dev s) p \<longrightarrow>
        tx_desc_nb_min (told api (dev s) p) \<le> n \<and> n \<le> tx_desc_nb_max (told api (dev s) p)))"
proof -
  have most: "n \<le> 0xFFFF" using u16_bound [of n] by (simp add: word_le_nat_alt)
  have two: "(if m < n then - 1 else if n < k then - 1 else 0) = (0 :: int) \<longleftrightarrow> n \<le> m \<and> k \<le> n" for m k :: u16
    by auto
  show ?thesis
    by (simp add: check_nb_rxd_def check_nb_txd_def get_allowed_max_nb_rxd_def get_allowed_min_nb_rxd_def
      get_allowed_max_nb_txd_def get_allowed_min_nb_txd_def split_beta two upper.scan_within lower.scan_within most) blast
qed

lemma scan_hairpin_exact:
  "n \<le> fst (scan_hairpin api d pis acc) \<longleftrightarrow>
     n = 0 \<or> n \<le> fst acc \<and> (\<forall>p \<in> set pis. fst (hairpin_max_nb_queues api p d) = 0 \<and> n \<le> snd (hairpin_max_nb_queues api p d))"
proof (induction pis arbitrary: acc)
  case (Cons p ps)
  obtain r m where h: "hairpin_max_nb_queues api p d = (r, m)" by fastforce
  show ?case
  proof (cases "r = 0")
    case True
    then show ?thesis using Cons.IH [of "(m, p)"] Cons.IH [of acc] by (auto simp: h)
  qed (simp add: h)
qed auto

lemma check_nb_hairpinq_exact:
  "check_nb_hairpinq api n s = 0 \<longleftrightarrow>
     n = 0 \<or> n \<le> RTE_MAX_QUEUES_PER_PORT \<and>
       (\<forall>p \<in> set (eth_devs s). fst (hairpin_max_nb_queues api p (dev s)) = 0 \<and> n \<le> snd (hairpin_max_nb_queues api p (dev s)))"
  using scan_hairpin_exact [of n api "dev s" "eth_devs s" "(RTE_MAX_QUEUES_PER_PORT, 0)"]
  by (simp add: check_nb_hairpinq_def get_allowed_max_nb_hairpinq_def code_zero)

section \<open>The limits are enough for the streams\<close>

text \<open>
  The forwarding state sees the devices: the array holds for every device what the device tells,
  and the sockets can be chosen.
\<close>

definition sees_devices :: "('d, 'z) conf_api_scheme \<Rightarrow> 'd st \<Rightarrow> u16 list \<Rightarrow> fwd_st \<Rightarrow> bool" where
  "sees_devices api s pids f \<longleftrightarrow>
     (\<forall>p \<in> set pids. answers api (dev s) p \<and> unat p < length (fwd_ports f) \<and>
        dev_info (fwd_ports f ! unat p) = told api (dev s) p \<and> socket_of f p \<noteq> None)"

lemma socket_of_ports [simp]: "socket_of (f\<lparr>fwd_ports := ps\<rparr>) p = socket_of f p"
  by (simp add: socket_of_def)

lemma init_ports_accepts:
  assumes "sees_devices api s pids f"
    "\<forall>p \<in> set pids. nb_rxq f \<le> max_rx_queues (told api (dev s) p) \<and> nb_txq f \<le> max_tx_queues (told api (dev s) p)"
  shows "\<exists>ps. init_ports pids f = Some (True, f\<lparr>fwd_ports := ps\<rparr>)"
  using assms
proof (induction pids arbitrary: f)
  case Nil
  have "init_ports [] f = Some (True, f\<lparr>fwd_ports := fwd_ports f\<rparr>)" by simp
  then show ?case by blast
next
  case (Cons p ps)
  have p: "unat p < length (fwd_ports f)" "dev_info (fwd_ports f ! unat p) = told api (dev s) p" "socket_of f p \<noteq> None"
    using Cons.prems(1) by (simp_all add: sees_devices_def)
  then obtain sock where sock: "socket_of f p = Some sock" by blast
  let ?f = "f\<lparr>fwd_ports := (fwd_ports f)[unat p := (fwd_ports f ! unat p)\<lparr>socket_id := sock\<rparr>]\<rparr>"
  have "sees_devices api s ps ?f"
    using Cons.prems(1) by (simp add: sees_devices_def nth_list_update)
  moreover have "\<forall>p \<in> set ps. nb_rxq ?f \<le> max_rx_queues (told api (dev s) p) \<and> nb_txq ?f \<le> max_tx_queues (told api (dev s) p)"
    using Cons.prems(2) by simp
  ultimately obtain ps' where r: "init_ports ps ?f = Some (True, ?f\<lparr>fwd_ports := ps'\<rparr>)"
    using Cons.IH by blast
  have "\<not> (nb_rxq f > max_rx_queues (dev_info (fwd_ports f ! unat p)) \<or> nb_txq f > max_tx_queues (dev_info (fwd_ports f ! unat p)))"
    using Cons.prems(2) p(2) by (simp add: not_less)
  then have "init_ports (p # ps) f = init_ports ps ?f"
    using p(1) sock by (simp only: init_ports.simps Let_def if_True if_False bind.bind_lunit)
  with r have "init_ports (p # ps) f = Some (True, f\<lparr>fwd_ports := ps'\<rparr>)" by simp
  then show ?case by blast
qed

text \<open>
  Numbers of queues that the two checks accept never make the set up of the streams fail: when all
  devices answer, the function returns success, with one stream for every port and queue.
\<close>

theorem checked_queues_accepted:
  assumes "check_nb_rxq api (nb_rxq f) s = 0" "check_nb_txq api (nb_txq f) s = 0"
    and "0 < nb_rxq f \<or> 0 < nb_txq f"
    and "sees_devices api s (fwd_devs f) f" "fwd_devs f = eth_devs s"
  shows "\<exists>f'. init_fwd_streams f = Some (0, f') \<and> g_nb_fwd_streams f' = nb_ports f * max (nb_rxq f) (nb_txq f) \<and>
    nb_rxq f' = nb_rxq f \<and> nb_txq f' = nb_txq f"
proof -
  have "\<forall>p \<in> set (fwd_devs f). nb_rxq f \<le> max_rx_queues (told api (dev s) p) \<and> nb_txq f \<le> max_tx_queues (told api (dev s) p)"
    using assms(1,2,4,5) allowed_queues [of "nb_rxq f" api max_rx_queues s 0] allowed_queues [of "nb_txq f" api max_tx_queues s 0]
    by (simp add: check_nb_rxq_def check_nb_txq_def get_allowed_max_nb_rxq_def get_allowed_max_nb_txq_def code_zero
      sees_devices_def) (metis word_le_0_iff word_zero_le)
  from init_ports_accepts [OF assms(4) this]
  obtain ps where i: "init_ports (fwd_devs f) f = Some (True, f\<lparr>fwd_ports := ps\<rparr>)" by blast
  have "max (nb_rxq f) (nb_txq f) \<noteq> 0" using assms(3) by (auto simp: max_def)
  with i show ?thesis by (simp add: init_fwd_streams_def Let_def)
qed

section \<open>Frame sizes are exact\<close>

lemma ucast_u16_u32: "unat (ucast (m :: u16) :: u32) = unat m"
  using u16_bound [of m] by (simp add: unsigned_ucast_eq take_bit_nat_eq_self)

lemma overhead_fits:
  assumes "m \<le> most"
  shows "\<not> (ucast (m :: u16) + eth_dev_get_overhead_len pktlen most > pktlen) \<longleftrightarrow>
    most \<noteq> 0xFFFF \<and> unat most < unat pktlen \<or> unat m + 18 \<le> unat pktlen"
proof (cases "most \<noteq> 0xFFFF \<and> pktlen > ucast most")
  case True
  have "unat m \<le> unat most" using assms by (simp add: word_le_nat_alt)
  moreover have "unat most < unat pktlen" using True by (simp add: word_less_nat_alt ucast_u16_u32)
  ultimately have "unat (ucast m + (pktlen - ucast most) :: u32) \<le> unat pktlen"
    using True by (simp add: unat_sub unat_word_ariths word_less_nat_alt word_le_nat_alt ucast_u16_u32)
  with True \<open>unat most < unat pktlen\<close> show ?thesis by (auto simp: eth_dev_get_overhead_len_def word_le_nat_alt not_less)
next
  case False
  have "unat m < 65536" using u16_bound [of m] by simp
  then have "unat (ucast m + 18 :: u32) = unat m + 18" by (simp add: unat_word_ariths ucast_u16_u32)
  with False show ?thesis by (auto simp: eth_dev_get_overhead_len_def word_less_nat_alt ucast_u16_u32 not_less)
qed

text \<open>
  C25: A frame size is valid exactly when the device answers, the size is in the range of the device,
  and the frame fits: for a device that tells both its largest frame size and its largest frame, that follows from
  the range, for the others the size and eighteen bytes of header and check sum must fit, with no wrap-around.
\<close>

theorem mtu_valid_exact:
  "eth_dev_validate_mtu api pid mtu s = 0 \<longleftrightarrow>
     (let info = told api (dev s) pid in
      answers api (dev s) pid \<and> unat (min_mtu info) \<le> unat mtu \<and> unat mtu \<le> unat (max_mtu info) \<and>
      (max_mtu info \<noteq> 0xFFFF \<and> unat (max_mtu info) < unat (max_rx_pktlen info) \<or> unat mtu + 18 \<le> unat (max_rx_pktlen info)))"
proof (cases "mtu \<le> max_mtu (told api (dev s) pid)")
  case True
  then show ?thesis
    using overhead_fits [OF True, of "max_rx_pktlen (told api (dev s) pid)"]
    by (auto simp: eth_dev_validate_mtu_def told_def answers_def Let_def word_le_nat_alt word_less_nat_alt
      split: prod.splits)
next
  case False
  then show ?thesis
    by (auto simp: eth_dev_validate_mtu_def told_def answers_def Let_def word_le_nat_alt word_less_nat_alt split: prod.splits)
qed

end
