(* ===== verification/PortConfig.thy ===== *)
theory PortConfig
  imports PortLimits
begin

text \<open>
  The configuration a port gets before it is started (\<^verbatim>\<open>init_config_port_offloads\<close>, \<^verbatim>\<open>rxtx_port_config\<close>,
  \<^verbatim>\<open>init_port_config\<close>, \<^verbatim>\<open>reconfig\<close> and the loop over the devices in \<^verbatim>\<open>init_config\<close>, all of \<^verbatim>\<open>dpdk.cpp\<close>): offloads of
  the port and its queues, descriptors, shared receive queues, RSS and interrupts.  A call of
  \<^verbatim>\<open>rte_exit\<close> is no result, as is an access behind the queue arrays of the port.
\<close>

section \<open>Options\<close>

text \<open>
  The globals that hold defaults and options.  A threshold of \<open>-1\<close> (\<^verbatim>\<open>RTE_PMD_PARAM_UNSET\<close>) leaves the
  default of the driver.  The RSS key is set to nothing on every path and not carried.
\<close>

record port_opts =
  rx_mode_offloads :: u64
  rx_mode_mtu :: u32
  rx_mode_mq_mode :: u32
  tx_mode_offloads :: u64
  eth_link_speed :: u32
  max_rx_pkt_len :: u32
  rss_hf :: u64
  rx_mq_mode :: u32
  rmv_interrupt :: bool
  rx_pthresh :: int
  rx_hthresh :: int
  rx_wthresh :: int
  rx_free_thresh :: int
  rx_drop_en :: int
  tx_pthresh :: int
  tx_hthresh :: int
  tx_wthresh :: int
  tx_rs_thresh :: int
  tx_free_thresh :: int

abbreviation TX_OFFLOAD_MBUF_FAST_FREE :: u64 where "TX_OFFLOAD_MBUF_FAST_FREE \<equiv> 0x10000"
abbreviation RX_OFFLOAD_RSS_HASH :: u64 where "RX_OFFLOAD_RSS_HASH \<equiv> 0x80000"
abbreviation DEV_CAPA_RXQ_SHARE :: u64 where "DEV_CAPA_RXQ_SHARE \<equiv> 4"
abbreviation ETH_MQ_RX_RSS :: u32 where "ETH_MQ_RX_RSS \<equiv> 1"
abbreviation ETH_DEV_INTR_LSC :: u32 where "ETH_DEV_INTR_LSC \<equiv> 2"
abbreviation ETH_DEV_INTR_RMV :: u32 where "ETH_DEV_INTR_RMV \<equiv> 8"
abbreviation RTE_PKTMBUF_HEADROOM :: u16 where "RTE_PKTMBUF_HEADROOM \<equiv> 128"

definition unless_unset :: "int \<Rightarrow> 'a::len word \<Rightarrow> 'a word" where
  "unless_unset v old = (if v \<noteq> - 1 then word_of_int v else old)"

section \<open>Offloads\<close>

definition eth_rx_metadata_negotiate_mp :: "('d, 'z) conf_api_scheme \<Rightarrow> ctl \<Rightarrow> u16 \<Rightarrow> 'd \<Rightarrow> 'd option" where
  "eth_rx_metadata_negotiate_mp api c pid d =
     (if \<not> proc_primary c then Some d
      else (case rte_eth_rx_metadata_negotiate api pid d of (ret, d1) \<Rightarrow>
              if ret = 0 \<or> ret = - ENOTSUP then Some d1 else None))"

text \<open>The offloads of the first queues, as many as the device has.\<close>

definition rx_offloads_all :: "nat \<Rightarrow> (u64 \<Rightarrow> u64) \<Rightarrow> rte_port \<Rightarrow> rte_port option" where
  "rx_offloads_all n f p =
     (if n \<le> length (rxq_conf p)
      then Some (p\<lparr>rxq_conf := map (rx_offloads_update f) (take n (rxq_conf p)) @ drop n (rxq_conf p)\<rparr>) else None)"

definition tx_offloads_all :: "nat \<Rightarrow> (u64 \<Rightarrow> u64) \<Rightarrow> rte_port \<Rightarrow> rte_port option" where
  "tx_offloads_all n f p =
     (if n \<le> length (txq_conf p)
      then Some (p\<lparr>txq_conf := map (tx_offloads_update f) (take n (txq_conf p)) @ drop n (txq_conf p)\<rparr>) else None)"

text \<open>The first segment must hold its share of a frame of the current size.\<close>

definition segment_size :: "('d, 'z) conf_api_scheme \<Rightarrow> u16 \<Rightarrow> rte_eth_dev_info \<Rightarrow> 'd \<Rightarrow> ctl \<Rightarrow> ctl option" where
  "segment_size api pid info d c =
     (if nb_mtu_seg_max info \<noteq> 0xFFFF \<and> nb_mtu_seg_max info \<noteq> 0
      then (case rte_eth_dev_get_mtu api pid d of (ret, mtu) \<Rightarrow>
        if ret = 0
        then (let data_size = ucast ((ucast mtu + get_eth_overhead info) div ucast (nb_mtu_seg_max info));
                  buffer_size = data_size + RTE_PKTMBUF_HEADROOM in do {
          old \<leftarrow> at (mbuf_data_sizes c) 0;
          Some (if buffer_size > old then c\<lparr>mbuf_data_sizes := (mbuf_data_sizes c)[0 := buffer_size]\<rparr> else c)
        })
        else Some c)
      else Some c)"

definition init_config_port_offloads ::
  "('d, 'z) conf_api_scheme \<Rightarrow> port_opts \<Rightarrow> u16 \<Rightarrow> u32 \<Rightarrow> ctl \<times> 'd st \<Rightarrow> (ctl \<times> 'd st) option" where
  "init_config_port_offloads api opts pid sock cs = (case cs of (c, s) \<Rightarrow> do {
     d \<leftarrow> eth_rx_metadata_negotiate_mp api c pid (dev s);
     port \<leftarrow> port_get s pid;
     (case eth_dev_info_get_print_err api pid d of (ret, info) \<Rightarrow>
        if ret \<noteq> 0 then None
        else (let txo = (if and (tx_offload_capa info) TX_OFFLOAD_MBUF_FAST_FREE = 0
                         then and (tx_mode_offloads opts) (not TX_OFFLOAD_MBUF_FAST_FREE) else tx_mode_offloads opts);
                  port1 = port\<lparr>rxmode_offloads := rx_mode_offloads opts, rxmode_mtu := rx_mode_mtu opts,
                    mq_mode := rx_mode_mq_mode opts, txmode_offloads := txo, dev_info := info\<rparr> in do {
          port2 \<leftarrow> rx_offloads_all (unat (max_rx_queues info)) (\<lambda>_. rx_mode_offloads opts) port1;
          port3 \<leftarrow> tx_offloads_all (unat (max_tx_queues info)) (\<lambda>_. txo) port2;
          (let port4 = port3\<lparr>
                 link_speeds := (if eth_link_speed opts \<noteq> 0 then eth_link_speed opts else link_speeds port3),
                 rxmode_mtu := (if max_rx_pkt_len opts \<noteq> 0 then max_rx_pkt_len opts - get_eth_overhead info else rxmode_mtu port3),
                 need_reconfig := 1, need_reconfig_queues := 1, socket_id := sock, tx_metadata := 0\<rparr> in do {
            c1 \<leftarrow> segment_size api pid info d c;
            Some (c1, port_upd pid (\<lambda>_. port4) (s\<lparr>dev := d\<rparr>))
          })
        }))
   })"

text \<open>The loop over the devices at the start of the program.\<close>

definition init_devices ::
  "('d, 'z) conf_api_scheme \<Rightarrow> port_opts \<Rightarrow> fwd_st \<Rightarrow> ctl \<times> 'd st \<Rightarrow> (ctl \<times> 'd st) option" where
  "init_devices api opts f cs =
     foreach (\<lambda>pid cs. do { sock \<leftarrow> socket_of f pid; init_config_port_offloads api opts pid sock cs })
       (eth_devs (snd cs)) cs"

section \<open>Queues\<close>

definition rxq_conf_of :: "port_opts \<Rightarrow> u32 \<Rightarrow> rte_eth_dev_info \<Rightarrow> u16 \<Rightarrow> nat \<Rightarrow> rte_eth_rxconf \<Rightarrow> rte_eth_rxconf" where
  "rxq_conf_of opts share info pid q old =
     (let conf = default_rxconf info;
          conf1 = (if share > 0 \<and> and (dev_capa info) DEV_CAPA_RXQ_SHARE \<noteq> 0
                   then conf\<lparr>share_group := ucast (ucast pid div share + 1), share_qid := of_nat q\<rparr> else conf);
          conf2 = (if rx_offloads old \<noteq> 0 then conf1\<lparr>rx_offloads := rx_offloads old\<rparr> else conf1) in
      conf2\<lparr>rxc_pthresh := unless_unset (rx_pthresh opts) (rxc_pthresh conf2),
        rxc_hthresh := unless_unset (rx_hthresh opts) (rxc_hthresh conf2),
        rxc_wthresh := unless_unset (rx_wthresh opts) (rxc_wthresh conf2),
        rxc_free_thresh := unless_unset (rx_free_thresh opts) (rxc_free_thresh conf2),
        rxc_drop_en := unless_unset (rx_drop_en opts) (rxc_drop_en conf2)\<rparr>)"

definition txq_conf_of :: "port_opts \<Rightarrow> rte_eth_dev_info \<Rightarrow> rte_eth_txconf \<Rightarrow> rte_eth_txconf" where
  "txq_conf_of opts info old =
     (let conf = default_txconf info;
          conf1 = (if tx_offloads old \<noteq> 0 then conf\<lparr>tx_offloads := tx_offloads old\<rparr> else conf) in
      conf1\<lparr>txc_pthresh := unless_unset (tx_pthresh opts) (txc_pthresh conf1),
        txc_hthresh := unless_unset (tx_hthresh opts) (txc_hthresh conf1),
        txc_wthresh := unless_unset (tx_wthresh opts) (txc_wthresh conf1),
        txc_rs_thresh := unless_unset (tx_rs_thresh opts) (txc_rs_thresh conf1),
        txc_free_thresh := unless_unset (tx_free_thresh opts) (txc_free_thresh conf1)\<rparr>)"

text \<open>
  One turn of each loop.  The buffer of a transmit queue is allocated in the loop over the receive
  queues; the test behind the allocation looks at the row of the port and not at the new buffer, so that
  a failed allocation is not noticed.
\<close>

definition config_rxq ::
  "('d, 'z) conf_api_scheme \<Rightarrow> ctl \<Rightarrow> port_opts \<Rightarrow> fwd_st \<Rightarrow> u16 \<Rightarrow> nat \<Rightarrow> 'd st \<Rightarrow> 'd st option" where
  "config_rxq api c opts f pid q s = do {
     port \<leftarrow> port_get s pid;
     conf \<leftarrow> at (rxq_conf port) q;
     (if q < length (nb_rx_desc port) \<and> q < unat RTE_MAX_QUEUES_PER_PORT
      then Some (port_upd pid (\<lambda>p. p\<lparr>rxq_conf := (rxq_conf p)[q := rxq_conf_of opts (rxq_share f) (dev_info port) pid q conf],
                    nb_rx_desc := (nb_rx_desc p)[q := nb_rxd c]\<rparr>)
                  (s\<lparr>dev := tx_buffer_create api pid q (dev s)\<rparr>))
      else None)
   }"

definition config_txq :: "ctl \<Rightarrow> port_opts \<Rightarrow> u16 \<Rightarrow> nat \<Rightarrow> 'd st \<Rightarrow> 'd st option" where
  "config_txq c opts pid q s = do {
     port \<leftarrow> port_get s pid;
     conf \<leftarrow> at (txq_conf port) q;
     (if q < length (nb_tx_desc port)
      then Some (port_upd pid (\<lambda>p. p\<lparr>txq_conf := (txq_conf p)[q := txq_conf_of opts (dev_info port) conf],
                    nb_tx_desc := (nb_tx_desc p)[q := nb_txd c]\<rparr>) s)
      else None)
   }"

definition rxtx_port_config ::
  "('d, 'z) conf_api_scheme \<Rightarrow> ctl \<Rightarrow> port_opts \<Rightarrow> fwd_st \<Rightarrow> u16 \<Rightarrow> 'd st \<Rightarrow> 'd st option" where
  "rxtx_port_config api c opts f pid s = do {
     s1 \<leftarrow> foreach (config_rxq api c opts f pid) [0..<unat (nb_rxq f)] s;
     foreach (config_txq c opts pid) [0..<unat (nb_txq f)] s1
   }"

section \<open>Ports\<close>

definition rss_config :: "port_opts \<Rightarrow> fwd_st \<Rightarrow> rte_port \<Rightarrow> rte_port option" where
  "rss_config opts f p0 =
     (let p = p0\<lparr>port_rss_hf := (if nb_rxq f > 1 then and (rss_hf opts) (flow_type_rss_offloads (dev_info p0)) else 0)\<rparr> in
      if dcb_flag p \<noteq> 0 then Some p
      else if port_rss_hf p \<noteq> 0 then Some (p\<lparr>mq_mode := and (rx_mq_mode opts) ETH_MQ_RX_RSS\<rparr>)
      else rx_offloads_all (unat (nb_rx_queues (dev_info p))) (\<lambda>x. and x (not RX_OFFLOAD_RSS_HASH))
             (p\<lparr>mq_mode := 0, rxmode_offloads := and (rxmode_offloads p) (not RX_OFFLOAD_RSS_HASH)\<rparr>))"

text \<open>The configuration of one port; the answer is whether the loop goes on.\<close>

definition init_port_one ::
  "('d, 'z) conf_api_scheme \<Rightarrow> ctl \<Rightarrow> port_opts \<Rightarrow> fwd_st \<Rightarrow> u16 \<Rightarrow> 'd st \<Rightarrow> (bool \<times> 'd st) option" where
  "init_port_one api c opts f pid s =
     (case eth_dev_info_get_print_err api pid (dev s) of (ret, info) \<Rightarrow> do {
        port \<leftarrow> port_get s pid;
        (if ret \<noteq> 0 then Some (False, port_upd pid (\<lambda>p. p\<lparr>dev_info := info\<rparr>) s)
         else do {
           port1 \<leftarrow> rss_config opts f (port\<lparr>dev_info := info\<rparr>);
           s1 \<leftarrow> rxtx_port_config api c opts f pid (port_upd pid (\<lambda>_. port1) s);
           (case rte_eth_macaddr_get api pid (dev s1) of (ret1, mac, d) \<Rightarrow>
              if ret1 \<noteq> 0 then Some (False, s1\<lparr>dev := d\<rparr>)
              else Some (True, port_upd pid (\<lambda>p. p\<lparr>eth_addr := mac,
                     intr_lsc := (lsc_interrupt c \<and> and (dev_flags info) ETH_DEV_INTR_LSC \<noteq> 0 \<or> intr_lsc p),
                     intr_rmv := (rmv_interrupt opts \<and> and (dev_flags info) ETH_DEV_INTR_RMV \<noteq> 0 \<or> intr_rmv p)\<rparr>)
                     (s1\<lparr>dev := d\<rparr>)))
         })
      })"

fun init_port_loop ::
  "('d, 'z) conf_api_scheme \<Rightarrow> ctl \<Rightarrow> port_opts \<Rightarrow> fwd_st \<Rightarrow> u16 list \<Rightarrow> 'd st \<Rightarrow> 'd st option" where
  "init_port_loop api c opts f [] s = Some s"
| "init_port_loop api c opts f (pid # pids) s = do {
     (go, s1) \<leftarrow> init_port_one api c opts f pid s;
     (if go then init_port_loop api c opts f pids s1 else Some s1)
   }"

definition init_port_config ::
  "('d, 'z) conf_api_scheme \<Rightarrow> ctl \<Rightarrow> port_opts \<Rightarrow> fwd_st \<Rightarrow> 'd st \<Rightarrow> 'd st option" where
  "init_port_config api c opts f s = init_port_loop api c opts f (eth_devs s) s"

definition reconfig ::
  "('d, 'z) conf_api_scheme \<Rightarrow> port_opts \<Rightarrow> fwd_st \<Rightarrow> u16 \<Rightarrow> u32 \<Rightarrow> ctl \<times> 'd st \<Rightarrow> (ctl \<times> 'd st) option" where
  "reconfig api opts f new_port_id sock cs = do {
     (c1, s1) \<leftarrow> init_config_port_offloads api opts new_port_id sock cs;
     s2 \<leftarrow> init_port_config api c1 opts f s1;
     Some (c1, s2)
   }"

section \<open>What the loops over the queues do\<close>

lemma foreach_append: "foreach f (xs @ ys) s = do { s1 \<leftarrow> foreach f xs s; foreach f ys s1 }"
proof (induction xs arbitrary: s)
  case (Cons x xs)
  then show ?case by (cases "f x s") simp_all
qed simp

lemma foreach_snoc: "foreach f (xs @ [x]) s = do { s1 \<leftarrow> foreach f xs s; f x s1 }"
proof (cases "foreach f xs s")
  case (Some t)
  then show ?thesis by (cases "f x t") (simp_all add: foreach_append)
qed (simp add: foreach_append)

lemma port_upd_id: "port_get s pid = Some p \<Longrightarrow> port_upd pid (\<lambda>_. p) s = s"
  by (auto simp: port_get_def port_upd_def split: if_splits)

definition rx_confs :: "port_opts \<Rightarrow> u32 \<Rightarrow> rte_eth_dev_info \<Rightarrow> u16 \<Rightarrow> nat \<Rightarrow> rte_eth_rxconf list \<Rightarrow> rte_eth_rxconf list" where
  "rx_confs opts share info pid n cs = map (\<lambda>q. rxq_conf_of opts share info pid q (cs ! q)) [0..<n] @ drop n cs"

definition tx_confs :: "port_opts \<Rightarrow> rte_eth_dev_info \<Rightarrow> nat \<Rightarrow> rte_eth_txconf list \<Rightarrow> rte_eth_txconf list" where
  "tx_confs opts info n cs = map (\<lambda>q. txq_conf_of opts info (cs ! q)) [0..<n] @ drop n cs"

lemma overwrite_Suc:
  assumes "n < length cs"
  shows "(map g [0..<n] @ drop n cs)[n := g n] = map g [0..<Suc n] @ drop (Suc n) cs" "(map g [0..<n] @ drop n cs) ! n = cs ! n"
  using assms by (simp_all add: nth_append list_update_append Cons_nth_drop_Suc [symmetric])

lemma fill_Suc: "n < length cs \<Longrightarrow> (replicate n v @ drop n cs)[n := v] = replicate (Suc n) v @ drop (Suc n) cs"
  by (simp add: list_update_append Cons_nth_drop_Suc [symmetric] replicate_append_same)

lemma config_rxq_step:
  assumes "port_get s pid = Some p0" "q < length (rxq_conf p)" "q < length (nb_rx_desc p)" "q < unat RTE_MAX_QUEUES_PER_PORT"
  shows "config_rxq api c opts f pid q (port_upd pid (\<lambda>_. p) s) =
    Some (port_upd pid (\<lambda>_. p\<lparr>rxq_conf := (rxq_conf p)[q := rxq_conf_of opts (rxq_share f) (dev_info p) pid q (rxq_conf p ! q)],
        nb_rx_desc := (nb_rx_desc p)[q := nb_rxd c]\<rparr>) (s\<lparr>dev := tx_buffer_create api pid q (dev s)\<rparr>))"
  using assms by (simp add: config_rxq_def port_get_upd at_def port_upd_dev port_upd_upd comp_def)

lemma config_txq_step:
  assumes "port_get s pid = Some p0" "q < length (txq_conf p)" "q < length (nb_tx_desc p)"
  shows "config_txq c opts pid q (port_upd pid (\<lambda>_. p) s) =
    Some (port_upd pid (\<lambda>_. p\<lparr>txq_conf := (txq_conf p)[q := txq_conf_of opts (dev_info p) (txq_conf p ! q)],
        nb_tx_desc := (nb_tx_desc p)[q := nb_txd c]\<rparr>) s)"
  using assms by (simp add: config_txq_def port_get_upd at_def port_upd_upd comp_def)

lemma config_rxqs:
  assumes "port_get s pid = Some p" "n \<le> length (rxq_conf p)" "n \<le> length (nb_rx_desc p)" "n \<le> unat RTE_MAX_QUEUES_PER_PORT"
  shows "foreach (config_rxq api c opts f pid) [0..<n] s =
    Some (port_upd pid (\<lambda>_. p\<lparr>rxq_conf := rx_confs opts (rxq_share f) (dev_info p) pid n (rxq_conf p),
        nb_rx_desc := replicate n (nb_rxd c) @ drop n (nb_rx_desc p)\<rparr>)
      (s\<lparr>dev := fold (tx_buffer_create api pid) [0..<n] (dev s)\<rparr>))"
  using assms(2-4)
proof (induction n)
  case 0
  then show ?case using port_upd_id [OF assms(1)] by (simp add: rx_confs_def)
next
  case (Suc n)
  have "foreach (config_rxq api c opts f pid) [0..<Suc n] s =
    config_rxq api c opts f pid n (port_upd pid (\<lambda>_. p\<lparr>rxq_conf := rx_confs opts (rxq_share f) (dev_info p) pid n (rxq_conf p),
        nb_rx_desc := replicate n (nb_rxd c) @ drop n (nb_rx_desc p)\<rparr>)
      (s\<lparr>dev := fold (tx_buffer_create api pid) [0..<n] (dev s)\<rparr>))"
    using Suc by (simp add: foreach_snoc)
  moreover have "config_rxq api c opts f pid n
      (port_upd pid (\<lambda>_. p\<lparr>rxq_conf := rx_confs opts (rxq_share f) (dev_info p) pid n (rxq_conf p),
          nb_rx_desc := replicate n (nb_rxd c) @ drop n (nb_rx_desc p)\<rparr>)
        (s\<lparr>dev := fold (tx_buffer_create api pid) [0..<n] (dev s)\<rparr>)) =
    Some (port_upd pid (\<lambda>_. p\<lparr>rxq_conf := rx_confs opts (rxq_share f) (dev_info p) pid (Suc n) (rxq_conf p),
          nb_rx_desc := replicate (Suc n) (nb_rxd c) @ drop (Suc n) (nb_rx_desc p)\<rparr>)
        (s\<lparr>dev := tx_buffer_create api pid n (fold (tx_buffer_create api pid) [0..<n] (dev s))\<rparr>))"
    using Suc.prems assms(1) config_rxq_step [of "s\<lparr>dev := fold (tx_buffer_create api pid) [0..<n] (dev s)\<rparr>" pid p n
      "p\<lparr>rxq_conf := rx_confs opts (rxq_share f) (dev_info p) pid n (rxq_conf p),
          nb_rx_desc := replicate n (nb_rxd c) @ drop n (nb_rx_desc p)\<rparr>" api c opts f]
    by (simp add: rx_confs_def overwrite_Suc [where g = "\<lambda>q. rxq_conf_of opts (rxq_share f) (dev_info p) pid q (rxq_conf p ! q)"]
      fill_Suc del: upt_Suc replicate_Suc)
  ultimately show ?case by simp
qed

lemma config_txqs:
  assumes "port_get s pid = Some p" "n \<le> length (txq_conf p)" "n \<le> length (nb_tx_desc p)"
  shows "foreach (config_txq c opts pid) [0..<n] s =
    Some (port_upd pid (\<lambda>_. p\<lparr>txq_conf := tx_confs opts (dev_info p) n (txq_conf p),
        nb_tx_desc := replicate n (nb_txd c) @ drop n (nb_tx_desc p)\<rparr>) s)"
  using assms(2-3)
proof (induction n)
  case 0
  then show ?case using port_upd_id [OF assms(1)] by (simp add: tx_confs_def)
next
  case (Suc n)
  have "foreach (config_txq c opts pid) [0..<Suc n] s =
    config_txq c opts pid n (port_upd pid (\<lambda>_. p\<lparr>txq_conf := tx_confs opts (dev_info p) n (txq_conf p),
        nb_tx_desc := replicate n (nb_txd c) @ drop n (nb_tx_desc p)\<rparr>) s)"
    using Suc by (simp add: foreach_snoc)
  moreover have "config_txq c opts pid n
      (port_upd pid (\<lambda>_. p\<lparr>txq_conf := tx_confs opts (dev_info p) n (txq_conf p),
          nb_tx_desc := replicate n (nb_txd c) @ drop n (nb_tx_desc p)\<rparr>) s) =
    Some (port_upd pid (\<lambda>_. p\<lparr>txq_conf := tx_confs opts (dev_info p) (Suc n) (txq_conf p),
          nb_tx_desc := replicate (Suc n) (nb_txd c) @ drop (Suc n) (nb_tx_desc p)\<rparr>) s)"
    using Suc.prems assms(1) config_txq_step [of s pid p n
      "p\<lparr>txq_conf := tx_confs opts (dev_info p) n (txq_conf p),
          nb_tx_desc := replicate n (nb_txd c) @ drop n (nb_tx_desc p)\<rparr>" c opts]
    by (simp add: tx_confs_def overwrite_Suc [where g = "\<lambda>q. txq_conf_of opts (dev_info p) (txq_conf p ! q)"]
      fill_Suc del: upt_Suc replicate_Suc)
  ultimately show ?case by simp
qed

section \<open>What a port is configured to\<close>

text \<open>The arrays of the port are large enough for its device and for the queues in use.\<close>

definition roomy :: "fwd_st \<Rightarrow> rte_eth_dev_info \<Rightarrow> rte_port \<Rightarrow> bool" where
  "roomy f info p \<longleftrightarrow> unat (nb_rx_queues info) \<le> length (rxq_conf p) \<and>
     unat (nb_rxq f) \<le> length (rxq_conf p) \<and> unat (nb_rxq f) \<le> length (nb_rx_desc p) \<and>
     unat (nb_rxq f) \<le> unat RTE_MAX_QUEUES_PER_PORT \<and>
     unat (nb_txq f) \<le> length (txq_conf p) \<and> unat (nb_txq f) \<le> length (nb_tx_desc p)"

text \<open>
  What a configured port looks like: the information is that of the device, the queues in use have the
  numbers of descriptors and the thresholds of the options, shared queues are grouped by the number of the port,
  and RSS is off unless several queues are in use and device and options agree on a field to hash.
\<close>

definition configured ::
  "ctl \<Rightarrow> port_opts \<Rightarrow> fwd_st \<Rightarrow> rte_eth_dev_info \<Rightarrow> u16 \<Rightarrow> rte_port \<Rightarrow> rte_port \<Rightarrow> bool" where
  "configured c opts f info pid old p \<longleftrightarrow>
     dev_info p = info \<and>
     take (unat (nb_rxq f)) (nb_rx_desc p) = replicate (unat (nb_rxq f)) (nb_rxd c) \<and>
     take (unat (nb_txq f)) (nb_tx_desc p) = replicate (unat (nb_txq f)) (nb_txd c) \<and>
     (\<forall>q < unat (nb_rxq f). \<exists>cf. rxq_conf p ! q = rxq_conf_of opts (rxq_share f) info pid q cf \<and>
        rx_offloads cf \<in> {rx_offloads (rxq_conf old ! q), and (rx_offloads (rxq_conf old ! q)) (not RX_OFFLOAD_RSS_HASH)}) \<and>
     (\<forall>q < unat (nb_txq f). txq_conf p ! q = txq_conf_of opts info (txq_conf old ! q)) \<and>
     port_rss_hf p = (if nb_rxq f > 1 then and (rss_hf opts) (flow_type_rss_offloads info) else 0) \<and>
     (dcb_flag old = 0 \<and> port_rss_hf p = 0 \<longrightarrow> mq_mode p = 0 \<and> and (rxmode_offloads p) RX_OFFLOAD_RSS_HASH = 0)"

text \<open>Asking for the address of a device and creating buffers changes nothing a device tells.\<close>

definition tells_the_same :: "('d, 'z) conf_api_scheme \<Rightarrow> bool" where
  "tells_the_same api \<longleftrightarrow>
     (\<forall>p p' q d. rte_eth_dev_info_get api p (tx_buffer_create api p' q d) = rte_eth_dev_info_get api p d) \<and>
     (\<forall>p p' d. rte_eth_dev_info_get api p (snd (snd (rte_eth_macaddr_get api p' d))) = rte_eth_dev_info_get api p d)"

lemma told_fold:
  assumes "tells_the_same api"
  shows "rte_eth_dev_info_get api p (fold (tx_buffer_create api p') qs d) = rte_eth_dev_info_get api p d"
  using assms by (induction qs arbitrary: d) (simp_all add: tells_the_same_def)

lemma cleared [simp]: "and (and x (not m)) m = (0 :: 'a::len word)"
  by (rule bit_word_eqI) (auto simp: bit_simps)

definition rss_done :: "port_opts \<Rightarrow> fwd_st \<Rightarrow> rte_port \<Rightarrow> rte_port \<Rightarrow> bool" where
  "rss_done opts f p p1 \<longleftrightarrow> dev_info p1 = dev_info p \<and> length (rxq_conf p1) = length (rxq_conf p) \<and>
    txq_conf p1 = txq_conf p \<and> nb_rx_desc p1 = nb_rx_desc p \<and> nb_tx_desc p1 = nb_tx_desc p \<and>
    (\<forall>q < length (rxq_conf p). rx_offloads (rxq_conf p1 ! q) \<in>
       {rx_offloads (rxq_conf p ! q), and (rx_offloads (rxq_conf p ! q)) (not RX_OFFLOAD_RSS_HASH)}) \<and>
    port_rss_hf p1 = (if nb_rxq f > 1 then and (rss_hf opts) (flow_type_rss_offloads (dev_info p)) else 0) \<and>
    (dcb_flag p = 0 \<and> port_rss_hf p1 = 0 \<longrightarrow> mq_mode p1 = 0 \<and> and (rxmode_offloads p1) RX_OFFLOAD_RSS_HASH = 0)"

lemma rss_config_ok:
  assumes "unat (nb_rx_queues (dev_info p)) \<le> length (rxq_conf p)"
  shows "\<exists>p1. rss_config opts f p = Some p1 \<and> rss_done opts f p p1"
  using assms cleared [of "rxmode_offloads p" RX_OFFLOAD_RSS_HASH]
  by (auto simp: rss_done_def rss_config_def rx_offloads_all_def Let_def nth_append)

lemma rx_confs_nth: "q < n \<Longrightarrow> rx_confs opts share info pid n cs ! q = rxq_conf_of opts share info pid q (cs ! q)"
  by (simp add: rx_confs_def nth_append)

lemma tx_confs_nth: "q < n \<Longrightarrow> tx_confs opts info n cs ! q = txq_conf_of opts info (cs ! q)"
  by (simp add: tx_confs_def nth_append)

lemma rxtx_port_config_ok:
  assumes "port_get s pid = Some p" "roomy f (dev_info p) p"
  shows "rxtx_port_config api c opts f pid s =
    Some (port_upd pid (\<lambda>_. p\<lparr>rxq_conf := rx_confs opts (rxq_share f) (dev_info p) pid (unat (nb_rxq f)) (rxq_conf p),
        nb_rx_desc := replicate (unat (nb_rxq f)) (nb_rxd c) @ drop (unat (nb_rxq f)) (nb_rx_desc p),
        txq_conf := tx_confs opts (dev_info p) (unat (nb_txq f)) (txq_conf p),
        nb_tx_desc := replicate (unat (nb_txq f)) (nb_txd c) @ drop (unat (nb_txq f)) (nb_tx_desc p)\<rparr>)
      (s\<lparr>dev := fold (tx_buffer_create api pid) [0..<unat (nb_rxq f)] (dev s)\<rparr>))"
proof -
  let ?p = "p\<lparr>rxq_conf := rx_confs opts (rxq_share f) (dev_info p) pid (unat (nb_rxq f)) (rxq_conf p),
        nb_rx_desc := replicate (unat (nb_rxq f)) (nb_rxd c) @ drop (unat (nb_rxq f)) (nb_rx_desc p)\<rparr>"
  let ?s = "port_upd pid (\<lambda>_. ?p) (s\<lparr>dev := fold (tx_buffer_create api pid) [0..<unat (nb_rxq f)] (dev s)\<rparr>)"
  have "foreach (config_rxq api c opts f pid) [0..<unat (nb_rxq f)] s = Some ?s"
    using assms by (intro config_rxqs) (simp_all add: roomy_def)
  moreover have "port_get ?s pid = Some ?p" using assms(1) by (simp add: port_get_upd)
  ultimately show ?thesis
    using config_txqs [of ?s pid ?p "unat (nb_txq f)" c opts] assms(2)
    by (simp add: rxtx_port_config_def roomy_def port_upd_upd comp_def)
qed

lemma init_port_one_ok:
  assumes "port_get s pid = Some p" "answers api (dev s) pid" "roomy f (told api (dev s) pid) p"
    "tells_the_same api" "\<And>d. fst (rte_eth_macaddr_get api pid d) = 0"
  shows "\<exists>p' d. init_port_one api c opts f pid s = Some (True, port_upd pid (\<lambda>_. p') (s\<lparr>dev := d\<rparr>)) \<and>
    configured c opts f (told api (dev s) pid) pid p p' \<and>
    (\<forall>q. rte_eth_dev_info_get api q d = rte_eth_dev_info_get api q (dev s))"
proof -
  let ?i = "told api (dev s) pid" and ?n = "unat (nb_rxq f)" and ?m = "unat (nb_txq f)"
  let ?p = "p\<lparr>dev_info := ?i\<rparr>" and ?d = "fold (tx_buffer_create api pid) [0..<?n] (dev s)"
  have info: "rte_eth_dev_info_get api pid (dev s) = (0, ?i)"
    using assms(2) by (simp add: answers_def told_def prod_eq_iff)
  have "unat (nb_rx_queues (dev_info ?p)) \<le> length (rxq_conf ?p)" using assms(3) by (simp add: roomy_def)
  from rss_config_ok [OF this, of opts f]
  obtain p1 where p1: "rss_config opts f ?p = Some p1" and rd: "rss_done opts f ?p p1" by blast
  have d1: "dev_info p1 = ?i" using rd by (simp add: rss_done_def)
  have r1: "roomy f (dev_info p1) p1" using assms(3) rd by (simp add: roomy_def rss_done_def)
  let ?p2 = "p1\<lparr>rxq_conf := rx_confs opts (rxq_share f) ?i pid ?n (rxq_conf p1),
        nb_rx_desc := replicate ?n (nb_rxd c) @ drop ?n (nb_rx_desc p1),
        txq_conf := tx_confs opts ?i ?m (txq_conf p1),
        nb_tx_desc := replicate ?m (nb_txd c) @ drop ?m (nb_tx_desc p1)\<rparr>"
  have cfg: "rxtx_port_config api c opts f pid (port_upd pid (\<lambda>_. p1) s) = Some (port_upd pid (\<lambda>_. ?p2) (s\<lparr>dev := ?d\<rparr>))"
    using rxtx_port_config_ok [OF _ r1, of "port_upd pid (\<lambda>_. p1) s" pid api c opts] assms(1)
    by (simp add: port_get_upd d1 port_upd_dev port_upd_upd comp_def)
  obtain mac d where mac: "rte_eth_macaddr_get api pid ?d = (0, mac, d)"
    using assms(5) [of ?d] by (metis prod.collapse)
  let ?p3 = "?p2\<lparr>eth_addr := mac, intr_lsc := (lsc_interrupt c \<and> and (dev_flags ?i) ETH_DEV_INTR_LSC \<noteq> 0 \<or> intr_lsc ?p2),
        intr_rmv := (rmv_interrupt opts \<and> and (dev_flags ?i) ETH_DEV_INTR_RMV \<noteq> 0 \<or> intr_rmv ?p2)\<rparr>"
  have "init_port_one api c opts f pid s = Some (True, port_upd pid (\<lambda>_. ?p3) (s\<lparr>dev := d\<rparr>))"
    using assms(1) by (simp add: init_port_one_def eth_dev_info_get_print_err_def info p1 cfg mac port_upd_dev port_upd_upd comp_def)
  moreover have "configured c opts f ?i pid p ?p3"
    unfolding configured_def
  proof (intro conjI)
    have "rx_offloads (rxq_conf p1 ! q) \<in>
        {rx_offloads (rxq_conf p ! q), and (rx_offloads (rxq_conf p ! q)) (not RX_OFFLOAD_RSS_HASH)}" if "q < ?n" for q
      using rd assms(3) that by (simp add: rss_done_def roomy_def)
    then show "\<forall>q < ?n. \<exists>cf. rxq_conf ?p3 ! q = rxq_conf_of opts (rxq_share f) ?i pid q cf \<and>
        rx_offloads cf \<in> {rx_offloads (rxq_conf p ! q), and (rx_offloads (rxq_conf p ! q)) (not RX_OFFLOAD_RSS_HASH)}"
      by (auto simp: rx_confs_nth intro!: exI [of _ "rxq_conf p1 ! _"])
  qed (use rd assms(3) d1 in \<open>simp_all add: rss_done_def roomy_def tx_confs_nth\<close>)
  moreover have "rte_eth_dev_info_get api q d = rte_eth_dev_info_get api q (dev s)" for q
    using assms(4) told_fold [OF assms(4)] mac by (metis snd_conv tells_the_same_def)
  ultimately show ?thesis by blast
qed

lemma init_port_loop_ok:
  assumes "distinct pids" "tells_the_same api"
    "\<And>p. p \<in> set pids \<Longrightarrow> \<exists>port. port_get s p = Some port \<and> roomy f (told api (dev s) p) port \<and> answers api (dev s) p \<and>
       (\<forall>d. fst (rte_eth_macaddr_get api p d) = 0)"
  shows "\<exists>t. init_port_loop api c opts f pids s = Some t \<and> eth_devs t = eth_devs s \<and>
    (\<forall>p. p \<notin> set pids \<longrightarrow> port_get t p = port_get s p) \<and>
    (\<forall>p \<in> set pids. \<exists>old new. port_get s p = Some old \<and> port_get t p = Some new \<and>
       configured c opts f (told api (dev s) p) p old new)"
  using assms(1,3)
proof (induction pids arbitrary: s)
  case (Cons p ps)
  obtain port where port: "port_get s p = Some port" "answers api (dev s) p" "roomy f (told api (dev s) p) port"
    "\<And>d. fst (rte_eth_macaddr_get api p d) = 0" using Cons.prems(2) [of p] by auto
  obtain p' d where one: "init_port_one api c opts f p s = Some (True, port_upd p (\<lambda>_. p') (s\<lparr>dev := d\<rparr>))"
    and conf: "configured c opts f (told api (dev s) p) p port p'"
    and same: "\<And>q. rte_eth_dev_info_get api q d = rte_eth_dev_info_get api q (dev s)"
    using init_port_one_ok [OF port(1,2,3) assms(2) port(4)] by blast
  let ?s = "port_upd p (\<lambda>_. p') (s\<lparr>dev := d\<rparr>)"
  have told: "told api d q = told api (dev s) q" "answers api d q = answers api (dev s) q" for q
    by (simp_all add: told_def answers_def same)
  have get: "port_get ?s q = port_get s q" if "q \<noteq> p" for q using that by (simp add: port_get_upd)
  obtain t where t: "init_port_loop api c opts f ps ?s = Some t" "eth_devs t = eth_devs ?s"
    "\<forall>q. q \<notin> set ps \<longrightarrow> port_get t q = port_get ?s q"
    "\<forall>q \<in> set ps. \<exists>old new. port_get ?s q = Some old \<and> port_get t q = Some new \<and>
       configured c opts f (told api (dev ?s) q) q old new"
  proof -
    have "\<exists>port. port_get ?s q = Some port \<and> roomy f (told api (dev ?s) q) port \<and> answers api (dev ?s) q \<and>
       (\<forall>d. fst (rte_eth_macaddr_get api q d) = 0)" if "q \<in> set ps" for q
    proof -
      have "q \<noteq> p" using that Cons.prems(1) by auto
      then show ?thesis using Cons.prems(2) [of q] that by (simp add: told get)
    qed
    with Cons.IH [of ?s] Cons.prems(1) that show ?thesis by auto
  qed
  have "port_get t p = Some p'" using t(3) Cons.prems(1) port(1) by (simp add: port_get_upd)
  moreover have "\<exists>old new. port_get s q = Some old \<and> port_get t q = Some new \<and> configured c opts f (told api (dev s) q) q old new"
    if "q \<in> set ps" for q
  proof -
    have "q \<noteq> p" using that Cons.prems(1) by auto
    from bspec [OF t(4) that] show ?thesis by (simp add: told get [OF \<open>q \<noteq> p\<close>])
  qed
  ultimately show ?case
    using one t(1-3) get port(1) conf Cons.prems(1) by (auto simp: told)
qed simp


text \<open>Ports of one share group have the same quotient by the size of a group, and share queues of the same number.\<close>

lemma share_group_of:
  "share > 0 \<Longrightarrow> and (dev_capa info) DEV_CAPA_RXQ_SHARE \<noteq> 0 \<Longrightarrow>
     share_group (rxq_conf_of opts share info pid q old) = ucast (ucast pid div share + 1) \<and>
     share_qid (rxq_conf_of opts share info pid q old) = of_nat q"
  by (simp add: rxq_conf_of_def Let_def)

lemma share_group_eq:
  fixes p p' :: u16
  assumes "share > 0" "unat p < 0xFFFF" "unat p' < 0xFFFF"
  shows "(ucast (ucast p div share + 1 :: u32) :: u16) = ucast (ucast p' div share + 1) \<longleftrightarrow>
    unat p div unat share = unat p' div unat share"
proof -
  have u: "unat (ucast (ucast (x :: u16) div share + 1 :: u32) :: u16) = unat x div unat share + 1" if "unat x < 0xFFFF" for x
  proof -
    have le: "unat x div unat share \<le> unat x" by simp
    have "unat (ucast x div share + 1 :: u32) = unat x div unat share + 1"
      using le that by (simp add: unat_word_ariths unat_div ucast_u16_u32 del: div_le_dividend)
    moreover have "take_bit 16 (unat x div unat share + 1) = unat x div unat share + 1"
      using le that by (intro take_bit_nat_eq_self) (simp del: div_le_dividend)
    ultimately show ?thesis by (simp add: unsigned_ucast_eq)
  qed
  show ?thesis using u [OF assms(2)] u [OF assms(3)] by (metis add_right_cancel word_unat_eq_iff)
qed

section \<open>What the offloads of a port are set to\<close>

text \<open>
  The set up of the offloads either ends the process or marks the port for configuration, stores what the
  device tells, gives every queue of the device the offloads of the port, and never enables fast
  freeing on a device that cannot do it.
\<close>

theorem port_offloads_set:
  assumes "init_config_port_offloads api opts pid sock (c, s) = Some (c', t)"
  shows "\<exists>old new. port_get s pid = Some old \<and> port_get t pid = Some new \<and>
    answers api (dev t) pid \<and> dev_info new = told api (dev t) pid \<and>
    need_reconfig new = 1 \<and> need_reconfig_queues new = 1 \<and> socket_id new = sock \<and>
    port_status new = port_status old \<and> flow_list new = flow_list old \<and>
    (\<forall>q < unat (max_rx_queues (dev_info new)). rx_offloads (rxq_conf new ! q) = rxmode_offloads new) \<and>
    (\<forall>q < unat (max_tx_queues (dev_info new)). tx_offloads (txq_conf new ! q) = txmode_offloads new) \<and>
    (and (txmode_offloads new) TX_OFFLOAD_MBUF_FAST_FREE \<noteq> 0 \<longrightarrow>
       and (tx_offload_capa (dev_info new)) TX_OFFLOAD_MBUF_FAST_FREE \<noteq> 0)"
proof -
  obtain d where a: "eth_rx_metadata_negotiate_mp api c pid (dev s) = Some d"
    using assms by (auto simp: init_config_port_offloads_def bind_eq_Some_conv)
  obtain old where b: "port_get s pid = Some old"
    using assms a by (auto simp: init_config_port_offloads_def bind_eq_Some_conv)
  obtain ret info where i: "rte_eth_dev_info_get api pid d = (ret, info)" by fastforce
  with assms a b have "ret = 0"
    by (auto simp: init_config_port_offloads_def eth_dev_info_get_print_err_def split: if_splits)
  show ?thesis
    using assms a b i \<open>ret = 0\<close> cleared [of "tx_mode_offloads opts" TX_OFFLOAD_MBUF_FAST_FREE]
    by (auto simp: init_config_port_offloads_def eth_dev_info_get_print_err_def bind_eq_Some_conv Let_def
      rx_offloads_all_def tx_offloads_all_def port_get_upd answers_def told_def nth_append split: if_splits)
qed

end
