(* ===== verification/Vlan.thy ===== *)
theory Vlan
  imports PortLimits
begin

text \<open>
  The VLAN commands of a port (\<^verbatim>\<open>vlan_extend_set\<close> to \<^verbatim>\<open>tx_vlan_pvid_set\<close> and \<^verbatim>\<open>set_qmap\<close> of \<^verbatim>\<open>config.c\<close>).  On the
  receive side four offloads are kept twice, as flags of the device and as offloads of the port; on the
  transmit side a port tags its packets with one identifier, with two, or not at all.
\<close>

section \<open>Interface\<close>

record 'd vlan_api = "'d conf_api" +
  rte_eth_dev_get_vlan_offload :: "u16 \<Rightarrow> 'd \<Rightarrow> int"
  rte_eth_dev_set_vlan_offload :: "u16 \<Rightarrow> int \<Rightarrow> 'd \<Rightarrow> int \<times> 'd"
  rte_eth_dev_set_vlan_strip_on_queue :: "u16 \<Rightarrow> u16 \<Rightarrow> int \<Rightarrow> 'd \<Rightarrow> int \<times> 'd"
  rte_eth_dev_vlan_filter :: "u16 \<Rightarrow> u16 \<Rightarrow> int \<Rightarrow> 'd \<Rightarrow> int \<times> 'd"
  rte_eth_dev_set_vlan_ether_type :: "u16 \<Rightarrow> u32 \<Rightarrow> u16 \<Rightarrow> 'd \<Rightarrow> int \<times> 'd"
  rte_eth_dev_set_vlan_pvid :: "u16 \<Rightarrow> u16 \<Rightarrow> int \<Rightarrow> 'd \<Rightarrow> int \<times> 'd"
  rte_eth_dev_set_tx_queue_stats_mapping :: "u16 \<Rightarrow> u16 \<Rightarrow> u8 \<Rightarrow> 'd \<Rightarrow> int \<times> 'd"
  rte_eth_dev_set_rx_queue_stats_mapping :: "u16 \<Rightarrow> u16 \<Rightarrow> u8 \<Rightarrow> 'd \<Rightarrow> int \<times> 'd"

abbreviation TX_OFFLOAD_VLAN_INSERT :: u64 where "TX_OFFLOAD_VLAN_INSERT \<equiv> 1"
abbreviation TX_OFFLOAD_QINQ_INSERT :: u64 where "TX_OFFLOAD_QINQ_INSERT \<equiv> 0x100"
abbreviation RTE_ETHDEV_QUEUE_STAT_CNTRS :: u8 where "RTE_ETHDEV_QUEUE_STAT_CNTRS \<equiv> 16"

section \<open>Receive side\<close>

text \<open>
  The four functions that switch an offload differ in the flag and the offload.  The offloads of the
  port are read before the port is checked.
\<close>

definition rx_offload_set :: "('d, 'z) vlan_api_scheme \<Rightarrow> nat \<Rightarrow> nat \<Rightarrow> u16 \<Rightarrow> int \<Rightarrow> 'd st \<Rightarrow> 'd st option" where
  "rx_offload_set api vbit rbit pid on s = do {
     port \<leftarrow> port_get s pid;
     (if port_id_is_invalid s pid then Some s
      else (let vlan_offload = rte_eth_dev_get_vlan_offload api pid (dev s);
                vlan_offload' = (if on \<noteq> 0 then set_bit vbit vlan_offload else unset_bit vbit vlan_offload);
                offloads = (if on \<noteq> 0 then set_bit rbit (rxmode_offloads port) else unset_bit rbit (rxmode_offloads port)) in
            case rte_eth_dev_set_vlan_offload api pid vlan_offload' (dev s) of (diag, d) \<Rightarrow>
              Some (if diag < 0 then s\<lparr>dev := d\<rparr>
                    else port_upd pid (\<lambda>p. p\<lparr>rxmode_offloads := offloads\<rparr>) (s\<lparr>dev := d\<rparr>))))
   }"

definition vlan_extend_set :: "('d, 'z) vlan_api_scheme \<Rightarrow> u16 \<Rightarrow> int \<Rightarrow> 'd st \<Rightarrow> 'd st option" where
  "vlan_extend_set api = rx_offload_set api 2 10"

definition rx_vlan_strip_set :: "('d, 'z) vlan_api_scheme \<Rightarrow> u16 \<Rightarrow> int \<Rightarrow> 'd st \<Rightarrow> 'd st option" where
  "rx_vlan_strip_set api = rx_offload_set api 0 0"

definition rx_vlan_filter_set :: "('d, 'z) vlan_api_scheme \<Rightarrow> u16 \<Rightarrow> int \<Rightarrow> 'd st \<Rightarrow> 'd st option" where
  "rx_vlan_filter_set api = rx_offload_set api 1 9"

definition rx_vlan_qinq_strip_set :: "('d, 'z) vlan_api_scheme \<Rightarrow> u16 \<Rightarrow> int \<Rightarrow> 'd st \<Rightarrow> 'd st option" where
  "rx_vlan_qinq_strip_set api = rx_offload_set api 3 5"

definition rx_vlan_strip_set_on_queue :: "('d, 'z) vlan_api_scheme \<Rightarrow> u16 \<Rightarrow> u16 \<Rightarrow> int \<Rightarrow> 'd st \<Rightarrow> 'd st" where
  "rx_vlan_strip_set_on_queue api pid q on s =
     (if port_id_is_invalid s pid then s
      else s\<lparr>dev := snd (rte_eth_dev_set_vlan_strip_on_queue api pid q on (dev s))\<rparr>)"

definition vlan_id_is_invalid :: "u16 \<Rightarrow> bool" where
  "vlan_id_is_invalid vlan_id \<longleftrightarrow> \<not> vlan_id < 4096"

definition rx_vft_set :: "('d, 'z) vlan_api_scheme \<Rightarrow> u16 \<Rightarrow> u16 \<Rightarrow> int \<Rightarrow> 'd st \<Rightarrow> int \<times> 'd st" where
  "rx_vft_set api pid vlan_id on s =
     (if port_id_is_invalid s pid then (1, s)
      else if vlan_id_is_invalid vlan_id then (1, s)
      else (case rte_eth_dev_vlan_filter api pid vlan_id on (dev s) of (diag, d) \<Rightarrow>
              (if diag = 0 then 0 else - 1, s\<lparr>dev := d\<rparr>)))"

fun vft_loop :: "('d, 'z) vlan_api_scheme \<Rightarrow> u16 \<Rightarrow> int \<Rightarrow> nat list \<Rightarrow> 'd st \<Rightarrow> 'd st" where
  "vft_loop api pid on [] s = s"
| "vft_loop api pid on (v # vs) s =
     (case rx_vft_set api pid (of_nat v) on s of (ret, s1) \<Rightarrow> if ret \<noteq> 0 then s1 else vft_loop api pid on vs s1)"

definition rx_vlan_all_filter_set :: "('d, 'z) vlan_api_scheme \<Rightarrow> u16 \<Rightarrow> int \<Rightarrow> 'd st \<Rightarrow> 'd st" where
  "rx_vlan_all_filter_set api pid on s =
     (if port_id_is_invalid s pid then s else vft_loop api pid on [0..<4096] s)"

section \<open>Transmit side\<close>

definition vlan_tpid_set :: "('d, 'z) vlan_api_scheme \<Rightarrow> u16 \<Rightarrow> u32 \<Rightarrow> u16 \<Rightarrow> 'd st \<Rightarrow> 'd st" where
  "vlan_tpid_set api pid vlan_type tp_id s =
     (if port_id_is_invalid s pid then s
      else s\<lparr>dev := snd (rte_eth_dev_set_vlan_ether_type api pid vlan_type tp_id (dev s))\<rparr>)"

definition tx_vlan_reset :: "u16 \<Rightarrow> 'd st \<Rightarrow> 'd st option" where
  "tx_vlan_reset pid s = do {
     _ \<leftarrow> port_get s pid;
     Some (port_upd pid (\<lambda>p. p\<lparr>txmode_offloads := and (txmode_offloads p) (not (or TX_OFFLOAD_VLAN_INSERT TX_OFFLOAD_QINQ_INSERT)),
             tx_vlan_id := 0, tx_vlan_id_outer := 0\<rparr>) s)
   }"

text \<open>Neither of the two functions checks the port.\<close>

definition tx_vlan_set :: "('d, 'z) vlan_api_scheme \<Rightarrow> u16 \<Rightarrow> u16 \<Rightarrow> 'd st \<Rightarrow> 'd st option" where
  "tx_vlan_set api pid vlan_id s =
     (if vlan_id_is_invalid vlan_id then Some s
      else do {
        port \<leftarrow> port_get s pid;
        (if and (txmode_offloads port) TX_OFFLOAD_QINQ_INSERT \<noteq> 0 then Some s
         else (case eth_dev_info_get_print_err api pid (dev s) of (ret, info) \<Rightarrow>
           if ret \<noteq> 0 then Some s
           else if and (tx_offload_capa info) TX_OFFLOAD_VLAN_INSERT = 0 then Some s
           else do {
             s1 \<leftarrow> tx_vlan_reset pid s;
             Some (port_upd pid (\<lambda>p. p\<lparr>txmode_offloads := or (txmode_offloads p) TX_OFFLOAD_VLAN_INSERT, tx_vlan_id := vlan_id\<rparr>) s1)
           }))
      })"

definition tx_qinq_set :: "('d, 'z) vlan_api_scheme \<Rightarrow> u16 \<Rightarrow> u16 \<Rightarrow> u16 \<Rightarrow> 'd st \<Rightarrow> 'd st option" where
  "tx_qinq_set api pid vlan_id vlan_id_outer s =
     (if vlan_id_is_invalid vlan_id then Some s
      else if vlan_id_is_invalid vlan_id_outer then Some s
      else (case eth_dev_info_get_print_err api pid (dev s) of (ret, info) \<Rightarrow>
        if ret \<noteq> 0 then Some s
        else if and (tx_offload_capa info) TX_OFFLOAD_QINQ_INSERT = 0 then Some s
        else do {
          s1 \<leftarrow> tx_vlan_reset pid s;
          Some (port_upd pid (\<lambda>p. p\<lparr>
                  txmode_offloads := or (txmode_offloads p) (or TX_OFFLOAD_VLAN_INSERT TX_OFFLOAD_QINQ_INSERT),
                  tx_vlan_id := vlan_id, tx_vlan_id_outer := vlan_id_outer\<rparr>) s1)
        }))"

definition tx_vlan_pvid_set :: "('d, 'z) vlan_api_scheme \<Rightarrow> u16 \<Rightarrow> u16 \<Rightarrow> int \<Rightarrow> 'd st \<Rightarrow> 'd st" where
  "tx_vlan_pvid_set api pid vlan_id on s =
     (if port_id_is_invalid s pid then s
      else s\<lparr>dev := snd (rte_eth_dev_set_vlan_pvid api pid vlan_id on (dev s))\<rparr>)"

section \<open>Queue counters\<close>

definition rx_queue_id_is_invalid :: "fwd_st \<Rightarrow> u16 \<Rightarrow> bool" where
  "rx_queue_id_is_invalid f q \<longleftrightarrow> \<not> q < nb_rxq f"

definition tx_queue_id_is_invalid :: "fwd_st \<Rightarrow> u16 \<Rightarrow> bool" where
  "tx_queue_id_is_invalid f q \<longleftrightarrow> \<not> q < nb_txq f"

definition set_qmap :: "('d, 'z) vlan_api_scheme \<Rightarrow> fwd_st \<Rightarrow> u16 \<Rightarrow> u8 \<Rightarrow> u16 \<Rightarrow> u8 \<Rightarrow> 'd st \<Rightarrow> 'd st" where
  "set_qmap api f pid is_rx q map_value s =
     (if port_id_is_invalid s pid then s
      else if (if is_rx \<noteq> 0 then rx_queue_id_is_invalid f q else tx_queue_id_is_invalid f q) then s
      else if map_value \<ge> RTE_ETHDEV_QUEUE_STAT_CNTRS then s
      else s\<lparr>dev := snd ((if is_rx = 0 then rte_eth_dev_set_tx_queue_stats_mapping api else rte_eth_dev_set_rx_queue_stats_mapping api)
                       pid q map_value (dev s))\<rparr>)"

section \<open>The tags of a port\<close>

datatype tags = Untagged | Single u16 | Double u16 u16

definition tags_of :: "rte_port \<Rightarrow> tags" where
  "tags_of p =
     (if and (txmode_offloads p) TX_OFFLOAD_QINQ_INSERT \<noteq> 0 then Double (tx_vlan_id p) (tx_vlan_id_outer p)
      else if and (txmode_offloads p) TX_OFFLOAD_VLAN_INSERT \<noteq> 0 then Single (tx_vlan_id p) else Untagged)"

datatype tag_cmd = TxVlan u16 u16 | TxQinq u16 u16 u16 | TxReset u16

text \<open>The code, and what it promises: a port tagged twice must be reset before it can be tagged once.\<close>

fun tag_exec :: "('d, 'z) vlan_api_scheme \<Rightarrow> tag_cmd list \<Rightarrow> 'd st \<Rightarrow> 'd st option" where
  "tag_exec api [] s = Some s"
| "tag_exec api (TxVlan pid v # cs) s = do { s1 \<leftarrow> tx_vlan_set api pid v s; tag_exec api cs s1 }"
| "tag_exec api (TxQinq pid v w # cs) s = do { s1 \<leftarrow> tx_qinq_set api pid v w s; tag_exec api cs s1 }"
| "tag_exec api (TxReset pid # cs) s = do { s1 \<leftarrow> tx_vlan_reset pid s; tag_exec api cs s1 }"

fun tag_spec :: "(u16 \<Rightarrow> bool) \<Rightarrow> (u16 \<Rightarrow> bool) \<Rightarrow> tag_cmd list \<Rightarrow> (u16 \<Rightarrow> tags) \<Rightarrow> u16 \<Rightarrow> tags" where
  "tag_spec can1 can2 [] t = t"
| "tag_spec can1 can2 (TxVlan pid v # cs) t =
     tag_spec can1 can2 cs (if v < 4096 \<and> can1 pid \<and> (\<forall>x y. t pid \<noteq> Double x y) then t(pid := Single v) else t)"
| "tag_spec can1 can2 (TxQinq pid v w # cs) t =
     tag_spec can1 can2 cs (if v < 4096 \<and> w < 4096 \<and> can2 pid then t(pid := Double v w) else t)"
| "tag_spec can1 can2 (TxReset pid # cs) t = tag_spec can1 can2 cs (t(pid := Untagged))"

definition can_insert :: "('d, 'z) conf_api_scheme \<Rightarrow> u64 \<Rightarrow> 'd \<Rightarrow> u16 \<Rightarrow> bool" where
  "can_insert api offload d pid \<longleftrightarrow> answers api d pid \<and> and (tx_offload_capa (told api d pid)) offload \<noteq> 0"

lemma vlan_bits:
  "and x TX_OFFLOAD_VLAN_INSERT = 0 \<longleftrightarrow> \<not> bit x 0" "and x TX_OFFLOAD_QINQ_INSERT = 0 \<longleftrightarrow> \<not> bit x 8" for x :: u64
  using and_exp_eq_0_iff_not_bit [of x 0] and_exp_eq_0_iff_not_bit [of x 8] by simp_all

lemma vlan_masks:
  "bit (or TX_OFFLOAD_VLAN_INSERT TX_OFFLOAD_QINQ_INSERT :: u64) n \<longleftrightarrow> n = 0 \<or> n = 8"
  "bit TX_OFFLOAD_VLAN_INSERT n \<longleftrightarrow> n = 0"
proof -
  have "TX_OFFLOAD_QINQ_INSERT = 2 ^ 8" by simp
  then show "bit (or TX_OFFLOAD_VLAN_INSERT TX_OFFLOAD_QINQ_INSERT :: u64) n \<longleftrightarrow> n = 0 \<or> n = 8"
    by (simp only: bit_or_iff bit_exp_iff bit_1_iff) (auto simp: bit_simps)
qed (simp add: bit_1_iff)

lemma tags_reset:
  "tags_of (p\<lparr>txmode_offloads := and (txmode_offloads p) (not (or TX_OFFLOAD_VLAN_INSERT TX_OFFLOAD_QINQ_INSERT)),
     tx_vlan_id := 0, tx_vlan_id_outer := 0\<rparr>) = Untagged"
  by (simp add: tags_of_def vlan_bits bit_and_iff bit_not_iff vlan_masks)

lemma tags_single:
  "tags_of (p\<lparr>tx_vlan_id_outer := w,
     txmode_offloads := or (and (txmode_offloads p) (not (or TX_OFFLOAD_VLAN_INSERT TX_OFFLOAD_QINQ_INSERT))) TX_OFFLOAD_VLAN_INSERT,
     tx_vlan_id := v\<rparr>) = Single v"
  by (simp add: tags_of_def vlan_bits bit_and_iff bit_or_iff bit_not_iff vlan_masks)

lemma tags_double:
  "tags_of (p\<lparr>txmode_offloads := or (and (txmode_offloads p) (not (or TX_OFFLOAD_VLAN_INSERT TX_OFFLOAD_QINQ_INSERT)))
       (or TX_OFFLOAD_VLAN_INSERT TX_OFFLOAD_QINQ_INSERT), tx_vlan_id := v, tx_vlan_id_outer := w\<rparr>) = Double v w"
  by (simp add: tags_of_def vlan_bits bit_and_iff bit_or_iff bit_not_iff vlan_masks)

lemma tags_twice: "and (txmode_offloads p) TX_OFFLOAD_QINQ_INSERT = 0 \<longleftrightarrow> (\<forall>x y. tags_of p \<noteq> Double x y)"
  by (simp add: tags_of_def)

definition tags_in :: "'d st \<Rightarrow> u16 \<Rightarrow> tags" where
  "tags_in s p = tags_of (ports s ! unat p)"

lemma tags_in_upd:
  assumes "port_get s pid = Some p0" "tags_of (f p0) = t"
  shows "tags_in (port_upd pid f s) = (tags_in s)(pid := t)"
proof
  fix q
  have "unat q = unat pid \<longleftrightarrow> q = pid" by (metis word_unat_eq_iff)
  then show "tags_in (port_upd pid f s) q = ((tags_in s)(pid := t)) q"
    using assms by (auto simp: tags_in_def port_upd_def port_get_def nth_list_update split: if_splits)
qed

lemma tags_get: "port_get s pid = Some p0 \<Longrightarrow> tags_of p0 = tags_in s pid"
  by (auto simp: tags_in_def port_get_def split: if_splits)

text \<open>One command on a port of the array: it returns, leaves the device alone, and does what is promised.\<close>

lemma tx_vlan_set_tags:
  assumes "port_get s pid = Some p0"
  shows "\<exists>s1. tx_vlan_set api pid v s = Some s1 \<and> dev s1 = dev s \<and> length (ports s1) = length (ports s) \<and>
    tags_in s1 = (if v < 4096 \<and> can_insert api TX_OFFLOAD_VLAN_INSERT (dev s) pid \<and> (\<forall>x y. tags_in s pid \<noteq> Double x y)
                  then (tags_in s)(pid := Single v) else tags_in s)"
proof (cases "v < 4096 \<and> can_insert api TX_OFFLOAD_VLAN_INSERT (dev s) pid \<and> (\<forall>x y. tags_in s pid \<noteq> Double x y)")
  case True
  obtain info where i: "rte_eth_dev_info_get api pid (dev s) = (0, info)" "and (tx_offload_capa info) TX_OFFLOAD_VLAN_INSERT \<noteq> 0"
    using True by (auto simp: can_insert_def answers_def told_def prod_eq_iff)
  have q: "and (txmode_offloads p0) TX_OFFLOAD_QINQ_INSERT = 0"
    using True tags_twice [of p0] tags_get [OF assms] by simp
  let ?f = "\<lambda>p. p\<lparr>tx_vlan_id_outer := 0,
     txmode_offloads := or (and (txmode_offloads p) (not (or TX_OFFLOAD_VLAN_INSERT TX_OFFLOAD_QINQ_INSERT))) TX_OFFLOAD_VLAN_INSERT,
     tx_vlan_id := v\<rparr>"
  have "tx_vlan_set api pid v s = Some (port_upd pid ?f s)"
    using True assms q i by (simp add: tx_vlan_set_def vlan_id_is_invalid_def eth_dev_info_get_print_err_def tx_vlan_reset_def port_upd_upd comp_def)
  moreover have "tags_in (port_upd pid ?f s) = (tags_in s)(pid := Single v)"
    by (rule tags_in_upd [OF assms]) (rule tags_single)
  ultimately show ?thesis using True by simp
next
  case False
  have "tx_vlan_set api pid v s = Some s"
  proof (cases "v < 4096 \<and> and (txmode_offloads p0) TX_OFFLOAD_QINQ_INSERT = 0")
    case True
    then have "\<not> can_insert api TX_OFFLOAD_VLAN_INSERT (dev s) pid"
      using False tags_twice [of p0] tags_get [OF assms] by simp
    then show ?thesis
      using True assms
      by (auto simp: tx_vlan_set_def vlan_id_is_invalid_def eth_dev_info_get_print_err_def can_insert_def answers_def told_def split: prod.splits)
  qed (auto simp: tx_vlan_set_def vlan_id_is_invalid_def assms)
  then show ?thesis using False by auto
qed

lemma tx_qinq_set_tags:
  assumes "port_get s pid = Some p0"
  shows "\<exists>s1. tx_qinq_set api pid v w s = Some s1 \<and> dev s1 = dev s \<and> length (ports s1) = length (ports s) \<and>
    tags_in s1 = (if v < 4096 \<and> w < 4096 \<and> can_insert api TX_OFFLOAD_QINQ_INSERT (dev s) pid
                  then (tags_in s)(pid := Double v w) else tags_in s)"
proof (cases "v < 4096 \<and> w < 4096 \<and> can_insert api TX_OFFLOAD_QINQ_INSERT (dev s) pid")
  case True
  obtain info where i: "rte_eth_dev_info_get api pid (dev s) = (0, info)" "and (tx_offload_capa info) TX_OFFLOAD_QINQ_INSERT \<noteq> 0"
    using True by (auto simp: can_insert_def answers_def told_def prod_eq_iff)
  let ?f = "\<lambda>p. p\<lparr>txmode_offloads := or (and (txmode_offloads p) (not (or TX_OFFLOAD_VLAN_INSERT TX_OFFLOAD_QINQ_INSERT)))
       (or TX_OFFLOAD_VLAN_INSERT TX_OFFLOAD_QINQ_INSERT), tx_vlan_id := v, tx_vlan_id_outer := w\<rparr>"
  have "tx_qinq_set api pid v w s = Some (port_upd pid ?f s)"
    using True assms i by (simp add: tx_qinq_set_def vlan_id_is_invalid_def eth_dev_info_get_print_err_def tx_vlan_reset_def port_upd_upd comp_def)
  moreover have "tags_in (port_upd pid ?f s) = (tags_in s)(pid := Double v w)"
    by (rule tags_in_upd [OF assms]) (rule tags_double)
  ultimately show ?thesis using True by simp
next
  case False
  then have "tx_qinq_set api pid v w s = Some s"
    by (auto simp: tx_qinq_set_def vlan_id_is_invalid_def eth_dev_info_get_print_err_def can_insert_def answers_def told_def split: prod.splits)
  with False show ?thesis by auto
qed

lemma tx_vlan_reset_tags:
  assumes "port_get s pid = Some p0"
  shows "\<exists>s1. tx_vlan_reset pid s = Some s1 \<and> dev s1 = dev s \<and> length (ports s1) = length (ports s) \<and>
    tags_in s1 = (tags_in s)(pid := Untagged)"
proof -
  let ?f = "\<lambda>p. p\<lparr>txmode_offloads := and (txmode_offloads p) (not (or TX_OFFLOAD_VLAN_INSERT TX_OFFLOAD_QINQ_INSERT)),
     tx_vlan_id := 0, tx_vlan_id_outer := 0\<rparr>"
  have "tags_in (port_upd pid ?f s) = (tags_in s)(pid := Untagged)" by (rule tags_in_upd [OF assms]) (rule tags_reset)
  with assms show ?thesis by (simp add: tx_vlan_reset_def)
qed

fun tag_port :: "tag_cmd \<Rightarrow> u16" where
  "tag_port (TxVlan pid v) = pid"
| "tag_port (TxQinq pid v w) = pid"
| "tag_port (TxReset pid) = pid"

text \<open>
  C16: The commands that tag the packets a port sends implement a machine with three states: untagged, one
  identifier, two identifiers.  For any script of commands on ports of the array the code returns and its state is the one the
  machine reaches.
\<close>

theorem tags_refine:
  assumes "\<forall>c \<in> set cs. unat (tag_port c) < length (ports s)"
  shows "\<exists>t. tag_exec api cs s = Some t \<and> dev t = dev s \<and>
    tags_in t = tag_spec (can_insert api TX_OFFLOAD_VLAN_INSERT (dev s)) (can_insert api TX_OFFLOAD_QINQ_INSERT (dev s)) cs (tags_in s)"
  using assms
proof (induction cs arbitrary: s)
  case (Cons c cs)
  obtain p0 where p0: "port_get s (tag_port c) = Some p0" using Cons.prems by (auto simp: port_get_def)
  have go: "\<exists>t. tag_exec api cs s1 = Some t \<and> dev t = dev s \<and>
      tags_in t = tag_spec (can_insert api TX_OFFLOAD_VLAN_INSERT (dev s)) (can_insert api TX_OFFLOAD_QINQ_INSERT (dev s)) cs (tags_in s1)"
    if "dev s1 = dev s" "length (ports s1) = length (ports s)" for s1
    using Cons.IH [of s1] Cons.prems that by simp
  show ?case
  proof (cases c)
    case (TxVlan pid v)
    then show ?thesis using tx_vlan_set_tags [of s pid p0 api v] p0 go by fastforce
  next
    case (TxQinq pid v w)
    then show ?thesis using tx_qinq_set_tags [of s pid p0 api v w] p0 go by fastforce
  next
    case (TxReset pid)
    then show ?thesis using tx_vlan_reset_tags [of s pid p0] p0 go by fastforce
  qed
qed simp

section \<open>Flags and offloads in step\<close>

text \<open>The four offloads: the bit of the flag and the bit of the offload.\<close>

definition rx_pairs :: "(nat \<times> nat) list" where
  "rx_pairs = [(0, 0), (1, 9), (2, 10), (3, 5)]"

definition in_step :: "('d, 'z) vlan_api_scheme \<Rightarrow> 'd st \<Rightarrow> u16 \<Rightarrow> bool" where
  "in_step api s pid \<longleftrightarrow> (\<forall>(v, r) \<in> set rx_pairs. \<forall>p. port_get s pid = Some p \<longrightarrow>
     bit (rte_eth_dev_get_vlan_offload api pid (dev s)) v = bit (rxmode_offloads p) r)"

text \<open>What the driver library says of the flags: they are as set, or unchanged when the call fails.\<close>

definition flags_law :: "('d, 'z) vlan_api_scheme \<Rightarrow> bool" where
  "flags_law api \<longleftrightarrow> (\<forall>pid x d ret d'. rte_eth_dev_set_vlan_offload api pid x d = (ret, d') \<longrightarrow>
     (\<forall>q. rte_eth_dev_get_vlan_offload api q d' =
        (if q = pid \<and> \<not> ret < 0 then x else rte_eth_dev_get_vlan_offload api q d)))"

datatype rx_cmd = Extend u16 int | Strip u16 int | Filter u16 int | QinqStrip u16 int

fun rx_run :: "('d, 'z) vlan_api_scheme \<Rightarrow> rx_cmd \<Rightarrow> 'd st \<Rightarrow> 'd st option" where
  "rx_run api (Extend pid on) s = vlan_extend_set api pid on s"
| "rx_run api (Strip pid on) s = rx_vlan_strip_set api pid on s"
| "rx_run api (Filter pid on) s = rx_vlan_filter_set api pid on s"
| "rx_run api (QinqStrip pid on) s = rx_vlan_qinq_strip_set api pid on s"

lemma pair_bits:
  assumes "(v, r) \<in> set rx_pairs" "(v', r') \<in> set rx_pairs"
  shows "v = v' \<longleftrightarrow> r = r'" "r < 64"
  using assms by (auto simp: rx_pairs_def)

lemma rx_offload_in_step:
  assumes "flags_law api" "(v, r) \<in> set rx_pairs" "rx_offload_set api v r pid on s = Some t" "\<And>q. in_step api s q"
  shows "in_step api t q"
proof -
  obtain port where port: "port_get s pid = Some port" using assms(3) by (auto simp: rx_offload_set_def bind_eq_Some_conv)
  let ?f = "rte_eth_dev_get_vlan_offload api pid (dev s)"
  let ?x = "if on \<noteq> 0 then set_bit v ?f else unset_bit v ?f"
  let ?o = "if on \<noteq> 0 then set_bit r (rxmode_offloads port) else unset_bit r (rxmode_offloads port)"
  obtain diag d where set: "rte_eth_dev_set_vlan_offload api pid ?x (dev s) = (diag, d)" by fastforce
  have flags: "rte_eth_dev_get_vlan_offload api q d =
      (if q = pid \<and> \<not> diag < 0 then ?x else rte_eth_dev_get_vlan_offload api q (dev s))" for q
    using assms(1) set unfolding flags_law_def by blast
  have t: "t = s \<or> t = (if diag < 0 then s\<lparr>dev := d\<rparr> else port_upd pid (\<lambda>p. p\<lparr>rxmode_offloads := ?o\<rparr>) (s\<lparr>dev := d\<rparr>))"
    using assms(3) port set by (auto simp: rx_offload_set_def Let_def split: if_splits)
  have old: "bit ?f v' = bit (rxmode_offloads port) r'" if "(v', r') \<in> set rx_pairs" for v' r'
    using assms(4) [of pid] port that by (auto simp: in_step_def)
  have new: "bit ?x v' = bit ?o r'" if "(v', r') \<in> set rx_pairs" for v' r'
    using old [OF that] pair_bits [OF that assms(2)] by (auto simp: bit_simps)
  show ?thesis
  proof (cases "q = pid \<and> \<not> diag < 0 \<and> t \<noteq> s")
    case True
    then show ?thesis using t new port by (auto simp: in_step_def flags port_get_upd)
  next
    case False
    then show ?thesis using t assms(4) [of q] by (auto simp: in_step_def flags port_get_upd split: if_splits)
  qed
qed

text \<open>
  C24: The commands for the receive side keep the VLAN flags of the device and the offloads of the port in step: if they
  agree for every port before a script of commands, they agree after it, whatever calls the driver refuses.
\<close>

theorem rx_flags_in_step:
  assumes "flags_law api" "foreach (rx_run api) cs s = Some t" "\<forall>q. in_step api s q"
  shows "in_step api t q"
proof -
  have step: "in_step api s1 q" if "rx_run api c s0 = Some s1" "\<And>q. in_step api s0 q" for c s0 s1 q
  proof (cases c)
    case (Extend pid on)
    then show ?thesis using rx_offload_in_step [OF assms(1), of 2 10] that by (simp add: vlan_extend_set_def rx_pairs_def)
  next
    case (Strip pid on)
    then show ?thesis using rx_offload_in_step [OF assms(1), of 0 0] that by (simp add: rx_vlan_strip_set_def rx_pairs_def)
  next
    case (Filter pid on)
    then show ?thesis using rx_offload_in_step [OF assms(1), of 1 9] that by (simp add: rx_vlan_filter_set_def rx_pairs_def)
  next
    case (QinqStrip pid on)
    then show ?thesis using rx_offload_in_step [OF assms(1), of 3 5] that by (simp add: rx_vlan_qinq_strip_set_def rx_pairs_def)
  qed
  have "foreach (rx_run api) cs s = Some t \<Longrightarrow> \<forall>q. in_step api s q \<Longrightarrow> \<forall>q. in_step api t q"
  proof (induction cs arbitrary: s)
    case (Cons c cs)
    then obtain s1 where "rx_run api c s = Some s1" "foreach (rx_run api) cs s1 = Some t" by (auto simp: bind_eq_Some_conv)
    with Cons step show ?case by blast
  qed simp
  with assms(2,3) show ?thesis by blast
qed

text \<open>The filter of all identifiers stops at the first one the driver refuses.\<close>

lemma vft_loop_prefix:
  assumes "\<not> port_id_is_invalid s pid" "\<forall>v \<in> set vs. v < 4096"
  shows "\<exists>k \<le> length vs.
    vft_loop api pid on vs s = s\<lparr>dev := fold (\<lambda>v d. snd (rte_eth_dev_vlan_filter api pid (of_nat v) on d)) (take k vs) (dev s)\<rparr> \<and>
    (k = length vs \<or> 0 < k \<and>
      fst (rte_eth_dev_vlan_filter api pid (of_nat (vs ! (k - 1))) on
        (fold (\<lambda>v d. snd (rte_eth_dev_vlan_filter api pid (of_nat v) on d)) (take (k - 1) vs) (dev s))) \<noteq> 0)"
  using assms
proof (induction vs arbitrary: s)
  case (Cons v vs)
  obtain diag d where f: "rte_eth_dev_vlan_filter api pid (of_nat v) on (dev s) = (diag, d)" by fastforce
  have "unat (of_nat v :: u16) = v" using Cons.prems(2) by (intro unat_u16) auto
  then have ok: "\<not> vlan_id_is_invalid (of_nat v)" using Cons.prems(2) by (simp add: vlan_id_is_invalid_def word_less_nat_alt)
  have one: "rx_vft_set api pid (of_nat v) on s = (if diag = 0 then 0 else - 1, s\<lparr>dev := d\<rparr>)"
    using Cons.prems(1) ok f by (simp add: rx_vft_set_def)
  show ?case
  proof (cases "diag = 0")
    case True
    have "\<not> port_id_is_invalid (s\<lparr>dev := d\<rparr>) pid" using Cons.prems(1) by (auto simp: port_id_is_invalid_def split: if_splits)
    from Cons.IH [OF this] Cons.prems(2)
    obtain k where "k \<le> length vs" "vft_loop api pid on vs (s\<lparr>dev := d\<rparr>) =
        s\<lparr>dev := fold (\<lambda>v d. snd (rte_eth_dev_vlan_filter api pid (of_nat v) on d)) (take k vs) d\<rparr>"
      "k = length vs \<or> 0 < k \<and> fst (rte_eth_dev_vlan_filter api pid (of_nat (vs ! (k - 1))) on
        (fold (\<lambda>v d. snd (rte_eth_dev_vlan_filter api pid (of_nat v) on d)) (take (k - 1) vs) d)) \<noteq> 0" by auto
    then show ?thesis using True one f by (intro exI [of _ "Suc k"]) (auto simp: take_Cons' nth_Cons')
  next
    case False
    then show ?thesis using one f by (intro exI [of _ 1]) simp
  qed
qed simp

end
