(* ===== verification/CString.thy ===== *)
theory CString
  imports Prelude
begin

text \<open>
  The parts of the C string library the parsers use: blanks and spaces, decimal numbers with
  \<^verbatim>\<open>strtol\<close>, and decimal output.  A C string is the list of its characters before the terminating zero, so
  that the empty list is a pointer to the terminator.
\<close>

section \<open>Characters and numbers\<close>

definition isblank :: "char \<Rightarrow> bool" where
  "isblank c \<longleftrightarrow> c = CHR '' '' \<or> c = CHR 0x09"

definition isspace :: "char \<Rightarrow> bool" where
  "isspace c \<longleftrightarrow> c \<in> {CHR '' '', CHR 0x09, CHR 0x0A, CHR 0x0B, CHR 0x0C, CHR 0x0D}"

definition isdigit :: "char \<Rightarrow> bool" where
  "isdigit c \<longleftrightarrow> 48 \<le> (of_char c :: nat) \<and> (of_char c :: nat) \<le> 57"

definition digit_val :: "char \<Rightarrow> int" where
  "digit_val c = int (of_char c) - 48"

definition digits_val :: "string \<Rightarrow> int" where
  "digits_val ds = foldl (\<lambda>a c. 10 * a + digit_val c) 0 ds"

abbreviation LONG_MAX :: int where "LONG_MAX \<equiv> 0x7FFFFFFFFFFFFFFF"

text \<open>The sign and the rest.\<close>

definition split_sign :: "string \<Rightarrow> bool \<times> string" where
  "split_sign s = (case s of [] \<Rightarrow> (False, []) | c # r \<Rightarrow>
     if c = CHR ''-'' then (True, r) else if c = CHR ''+'' then (False, r) else (False, s))"

text \<open>
  \<^verbatim>\<open>strtol\<close> with base ten: the value, the rest, and whether \<^verbatim>\<open>errno\<close> tells that the number is out of range.
  Without a digit nothing is consumed and the value is zero.
\<close>

definition strtol :: "string \<Rightarrow> int \<times> string \<times> bool" where
  "strtol s =
     (case split_sign (dropWhile isspace s) of (neg, u) \<Rightarrow>
      (let ds = takeWhile isdigit u; rest = dropWhile isdigit u; v = (if neg then - digits_val ds else digits_val ds) in
       if ds = [] then (0, s, False)
       else if v > LONG_MAX then (LONG_MAX, rest, True)
       else if v < - LONG_MAX - 1 then (- LONG_MAX - 1, rest, True)
       else (v, rest, False)))"

text \<open>The conversion of a \<^verbatim>\<open>long\<close> to an \<^verbatim>\<open>int\<close>.\<close>

definition to_int :: "int \<Rightarrow> int" where
  "to_int v = signed_take_bit 31 v"

fun dec :: "nat \<Rightarrow> string" where
  "dec n = (if n < 10 then [char_of (48 + n)] else dec (n div 10) @ [char_of (48 + n mod 10)])"

declare dec.simps [simp del]

text \<open>Writing a list over the beginning of an array.\<close>

definition overwrite :: "'a list \<Rightarrow> 'a list \<Rightarrow> 'a list option" where
  "overwrite xs arr = (if length xs \<le> length arr then Some (xs @ drop (length xs) arr) else None)"

text \<open>Fields with commas between them.\<close>

fun commas :: "string list \<Rightarrow> string" where
  "commas [] = []"
| "commas [x] = x"
| "commas (x # y # zs) = x @ '','' @ commas (y # zs)"

section \<open>Laws\<close>

lemma split_sign_rest: "split_sign s = (neg, u) \<Longrightarrow> length u \<le> length s"
  by (cases s) (auto simp: split_sign_def split: if_splits)

lemma strtol_rest: "strtol s = (v, e, r) \<Longrightarrow> length e \<le> length s"
proof -
  assume a: "strtol s = (v, e, r)"
  obtain neg u where u: "split_sign (dropWhile isspace s) = (neg, u)" by fastforce
  have "length u \<le> length (dropWhile isspace s)" using split_sign_rest [OF u] .
  then have "length (dropWhile isdigit u) \<le> length s"
    using length_dropWhile_le [of isdigit u] length_dropWhile_le [of isspace s] by linarith
  with a u show ?thesis by (auto simp: strtol_def Let_def split: if_splits)
qed

lemma isdigit_char: "k < 10 \<Longrightarrow> isdigit (char_of (48 + k :: nat))"
  by (simp add: isdigit_def)

lemma digit_val_char: "k < 10 \<Longrightarrow> digit_val (char_of (48 + k :: nat)) = int k"
  by (simp add: digit_val_def)

lemma digits_val_snoc: "digits_val (ds @ [c]) = 10 * digits_val ds + digit_val c"
  by (simp add: digits_val_def)

lemma dec_digits: "\<forall>c \<in> set (dec n). isdigit c" "dec n \<noteq> []"
proof -
  show "\<forall>c \<in> set (dec n). isdigit c"
  proof (induction n rule: dec.induct)
    case (1 n)
    then show ?case by (cases "n < 10") (auto simp: dec.simps [of n] isdigit_char)
  qed
qed (simp add: dec.simps [of n])

lemma dec_val: "digits_val (dec n) = int n"
proof (induction n rule: dec.induct)
  case (1 n)
  have "10 * int (n div 10) + int (n mod 10) = int n"
    by (metis mult_div_mod_eq of_nat_add of_nat_mult of_nat_numeral)
  with 1 show ?case
    by (cases "n < 10") (auto simp: dec.simps [of n] digits_val_snoc digit_val_char digits_val_def [of "[_]"])
qed

text \<open>Reading a printed number returns it with the text behind it.\<close>

lemma isdigit_sep: "\<not> isspace c \<and> c \<noteq> CHR ''-'' \<and> c \<noteq> CHR ''+''" if "isdigit c"
  using that by (auto simp: isdigit_def isspace_def)

lemma strtol_dec:
  assumes "int n \<le> LONG_MAX" "rest = [] \<or> \<not> isdigit (hd rest)"
  shows "strtol (dec n @ rest) = (int n, rest, False)"
proof -
  obtain c ds where d: "dec n = c # ds" using dec_digits(2) [of n] by (cases "dec n") auto
  have c: "isdigit c" using dec_digits(1) [of n] d by simp
  have t: "takeWhile isdigit (dec n @ rest) = dec n" "dropWhile isdigit (dec n @ rest) = rest"
    using dec_digits(1) [of n] assms(2) by (cases rest; auto simp: takeWhile_append dropWhile_append)+
  have "split_sign (dropWhile isspace (dec n @ rest)) = (False, dec n @ rest)"
    using isdigit_sep [OF c] by (simp add: d split_sign_def)
  then show ?thesis using t assms(1) dec_val [of n] dec_digits(2) [of n] by (simp add: strtol_def)
qed

lemma to_int_small: "0 \<le> v \<Longrightarrow> v < 2 ^ 31 \<Longrightarrow> to_int v = v"
  by (simp add: to_int_def signed_take_bit_int_eq_self)

end
