(* ===== verification/Segments.thy ===== *)
theory Segments
  imports PortQueues CString
begin

text \<open>
  How packets are cut into segments (\<^verbatim>\<open>set_rx_pkt_offsets\<close>, \<^verbatim>\<open>set_rx_pkt_segments\<close>, \<^verbatim>\<open>set_rx_pkt_hdrs\<close>,
  \<^verbatim>\<open>set_tx_pkt_segments\<close>, \<^verbatim>\<open>set_tx_pkt_split\<close>, \<^verbatim>\<open>get_ptype_str\<close> and the ring sizes of \<^verbatim>\<open>config.c\<close>), and the parsers
  of the lists the commands take (\<^verbatim>\<open>parse_item_list\<close>, \<^verbatim>\<open>get_ptype\<close>, \<^verbatim>\<open>parse_hdrs_list\<close> of \<^verbatim>\<open>util.c\<close>).  The receive side
  is part of the options \<open>ctl\<close>, from which the receive queues are set up.
\<close>

section \<open>State\<close>

datatype tx_pkt_split = TX_PKT_SPLIT_OFF | TX_PKT_SPLIT_ON | TX_PKT_SPLIT_RND

record tx_segs =
  tx_pkt_length :: u16
  tx_pkt_seg_lengths :: "u16 list"
  tx_pkt_nb_segs :: u8
  tx_split :: tx_pkt_split
  tx_pkt_times_inter :: u32
  tx_pkt_times_intra :: u32

record 'd seg_api = "'d port_api" +
  rx_queue_nb_desc :: "u16 \<Rightarrow> nat \<Rightarrow> 'd \<Rightarrow> int \<times> u16"
  tx_queue_nb_desc :: "u16 \<Rightarrow> nat \<Rightarrow> 'd \<Rightarrow> int \<times> u16"

abbreviation MAX_SEGS_BUFFER_SPLIT :: nat where "MAX_SEGS_BUFFER_SPLIT \<equiv> 8"
abbreviation RTE_MAX_SEGS_PER_PKT :: nat where "RTE_MAX_SEGS_PER_PKT \<equiv> 255"
abbreviation FALLBACK_RINGSIZE :: u16 where "FALLBACK_RINGSIZE \<equiv> 512"

section \<open>Lists of numbers\<close>

text \<open>
  The loop over the characters: the value so far, whether it has a digit, the number of
  items and the stored items.  From the number of items on nothing is stored, and the value of the item is kept.
\<close>

record item_acc =
  ia_value :: u32
  ia_ok :: bool
  ia_nb :: nat
  ia_items :: "u32 list"

fun item_chars :: "nat \<Rightarrow> string \<Rightarrow> item_acc \<Rightarrow> item_acc option" where
  "item_chars max_items [] a = Some a"
| "item_chars max_items (c # cs) a =
     (if isdigit c then item_chars max_items cs (a\<lparr>ia_value := ia_value a * 10 + word_of_int (digit_val c), ia_ok := True\<rparr>)
      else if c \<noteq> CHR '','' then None
      else if \<not> ia_ok a then None
      else item_chars max_items cs
             (if ia_nb a < max_items
              then a\<lparr>ia_items := ia_items a @ [ia_value a], ia_ok := False, ia_value := 0, ia_nb := ia_nb a + 1\<rparr>
              else a\<lparr>ia_nb := ia_nb a + 1\<rparr>))"

text \<open>Only the first 128 characters are read.  The result is the list of items; it is empty when zero is returned.\<close>

definition parse_item_list :: "string \<Rightarrow> nat \<Rightarrow> bool \<Rightarrow> u32 list" where
  "parse_item_list str max_items check_unique_values =
     (case item_chars max_items (take 128 str) \<lparr>ia_value = 0, ia_ok = False, ia_nb = 0, ia_items = []\<rparr> of
        None \<Rightarrow> []
      | Some a \<Rightarrow>
          if ia_nb a \<ge> max_items then []
          else (let items = ia_items a @ [ia_value a] in
                if check_unique_values \<and> \<not> distinct items then [] else items))"

section \<open>Headers\<close>

definition ptype_table :: "(string \<times> u32) list" where
  "ptype_table =
     [(''eth'', 0x1), (''ipv4'', 0x91), (''ipv6'', 0xE1),
      (''ipv4-tcp'', 0x191), (''ipv4-udp'', 0x291), (''ipv4-sctp'', 0x491),
      (''ipv6-tcp'', 0x1E1), (''ipv6-udp'', 0x2E1), (''ipv6-sctp'', 0x4E1),
      (''grenat'', 0x6000), (''inner-eth'', 0x16000), (''inner-ipv4'', 0x416000), (''inner-ipv6'', 0x616000),
      (''inner-ipv4-tcp'', 0x1416000), (''inner-ipv4-udp'', 0x2416000), (''inner-ipv4-sctp'', 0x4416000),
      (''inner-ipv6-tcp'', 0x1616000), (''inner-ipv6-udp'', 0x2616000), (''inner-ipv6-sctp'', 0x4616000)]"

definition get_ptype :: "string \<Rightarrow> u32" where
  "get_ptype v = (case map_of ptype_table v of None \<Rightarrow> 0 | Some p \<Rightarrow> p)"

definition get_ptype_str :: "u32 \<Rightarrow> string" where
  "get_ptype_str p = (case map_of (map (\<lambda>(n, v). (v, n)) ptype_table) p of None \<Rightarrow> ''unsupported'' | Some n \<Rightarrow> n)"

text \<open>The fields between commas that are not empty, as \<^verbatim>\<open>strtok_r\<close> yields them.\<close>

fun fields :: "string \<Rightarrow> string \<Rightarrow> string list" where
  "fields cur [] = (if cur = [] then [] else [cur])"
| "fields cur (c # cs) =
     (if c = CHR '','' then (if cur = [] then fields [] cs else cur # fields [] cs) else fields (cur @ [c]) cs)"

text \<open>The items are stored before their number is compared with the size of the array.\<close>

definition parse_hdrs_list :: "string \<Rightarrow> nat \<Rightarrow> u32 list option" where
  "parse_hdrs_list str max_items =
     (let items = map get_ptype (fields [] str) in if length items > max_items then None else Some items)"

section \<open>Receive side\<close>

definition set_rx_pkt_offsets :: "u32 list \<Rightarrow> ctl \<Rightarrow> ctl option" where
  "set_rx_pkt_offsets offs c =
     (if length offs \<ge> MAX_SEGS_BUFFER_SPLIT then Some c
      else if \<exists>x \<in> set offs. x \<ge> 0xFFFF then Some c
      else map_option (\<lambda>os. c\<lparr>rx_pkt_seg_offsets := os, rx_pkt_nb_offs := of_nat (length offs)\<rparr>)
             (overwrite (map ucast offs) (rx_pkt_seg_offsets c)))"

definition set_rx_pkt_segments :: "u32 list \<Rightarrow> ctl \<Rightarrow> ctl option" where
  "set_rx_pkt_segments lens c =
     (if length lens \<ge> MAX_SEGS_BUFFER_SPLIT then Some c
      else if \<exists>x \<in> set lens. x \<ge> 0xFFFF then Some c
      else map_option (\<lambda>ls. c\<lparr>rx_pkt_seg_lengths := ls, rx_pkt_nb_segs := of_nat (length lens)\<rparr>)
             (overwrite (map ucast lens) (rx_pkt_seg_lengths c)))"

definition set_rx_pkt_hdrs :: "u32 list \<Rightarrow> ctl \<Rightarrow> ctl option" where
  "set_rx_pkt_hdrs hdrs c =
     (if length hdrs + 1 > MAX_SEGS_BUFFER_SPLIT then Some c
      else map_option (\<lambda>hs. c\<lparr>rx_pkt_hdr_protos := hs, rx_pkt_nb_segs := of_nat (length hdrs + 1)\<rparr>)
             (overwrite hdrs (map (\<lambda>_. 0) (rx_pkt_hdr_protos c))))"

text \<open>The names of the headers, as they are printed.\<close>

definition show_rx_pkt_hdrs :: "ctl \<Rightarrow> string list option" where
  "show_rx_pkt_hdrs c =
     (if rx_pkt_nb_segs c = 0 then Some []
      else map_option (map get_ptype_str) (those (map (at (rx_pkt_hdr_protos c)) [0..<unat (rx_pkt_nb_segs c) - 1])))"

section \<open>Transmit side\<close>

definition get_tx_ring_size :: "('d, 'z) seg_api_scheme \<Rightarrow> u16 \<Rightarrow> nat \<Rightarrow> 'd st \<Rightarrow> (int \<times> u16) option" where
  "get_tx_ring_size api pid q s =
     (case tx_queue_nb_desc api pid q (dev s) of (ret, n) \<Rightarrow>
        if ret = 0 then Some (0, n)
        else if ret \<noteq> - ENOTSUP then Some (ret, 0)
        else do {
          port \<leftarrow> port_get s pid;
          nb \<leftarrow> at (nb_tx_desc port) q;
          Some (0, if nb \<noteq> 0 then nb
                   else if default_tx_ring_size (dev_info port) \<noteq> 0 then default_tx_ring_size (dev_info port) else FALLBACK_RINGSIZE)
        })"

definition get_rx_ring_size :: "('d, 'z) seg_api_scheme \<Rightarrow> u16 \<Rightarrow> nat \<Rightarrow> 'd st \<Rightarrow> (int \<times> u16) option" where
  "get_rx_ring_size api pid q s =
     (case rx_queue_nb_desc api pid q (dev s) of (ret, n) \<Rightarrow>
        if ret = 0 then Some (0, n)
        else if ret \<noteq> - ENOTSUP then Some (ret, 0)
        else do {
          port \<leftarrow> port_get s pid;
          nb \<leftarrow> at (nb_rx_desc port) q;
          Some (0, if nb \<noteq> 0 then nb
                   else if default_rx_ring_size (dev_info port) \<noteq> 0 then default_rx_ring_size (dev_info port) else FALLBACK_RINGSIZE)
        })"

definition rx_desc_id_is_invalid :: "('d, 'z) seg_api_scheme \<Rightarrow> u16 \<Rightarrow> nat \<Rightarrow> u16 \<Rightarrow> 'd st \<Rightarrow> bool option" where
  "rx_desc_id_is_invalid api pid q desc s =
     map_option (\<lambda>(ret, n). ret \<noteq> 0 \<or> \<not> desc < n) (get_rx_ring_size api pid q s)"

definition tx_desc_id_is_invalid :: "('d, 'z) seg_api_scheme \<Rightarrow> u16 \<Rightarrow> nat \<Rightarrow> u16 \<Rightarrow> 'd st \<Rightarrow> bool option" where
  "tx_desc_id_is_invalid api pid q desc s =
     map_option (\<lambda>(ret, n). ret \<noteq> 0 \<or> \<not> desc < n) (get_tx_ring_size api pid q s)"

fun segs_scan :: "('d, 'z) seg_api_scheme \<Rightarrow> nat \<Rightarrow> (u16 \<times> nat) list \<Rightarrow> 'd st \<Rightarrow> bool option" where
  "segs_scan api nb_segs [] s = Some False"
| "segs_scan api nb_segs ((p, q) # pqs) s = do {
     (ret, n) \<leftarrow> get_tx_ring_size api p q s;
     (if ret \<noteq> 0 then segs_scan api nb_segs pqs s
      else if unat n < nb_segs then Some True
      else segs_scan api nb_segs pqs s)
   }"

definition nb_segs_is_invalid :: "('d, 'z) seg_api_scheme \<Rightarrow> fwd_st \<Rightarrow> nat \<Rightarrow> 'd st \<Rightarrow> bool option" where
  "nb_segs_is_invalid api f nb_segs s =
     segs_scan api nb_segs (List.product (eth_devs s) [0..<unat (nb_txq f)]) s"

text \<open>The length of the packet is the sum of the segments in sixteen bits.\<close>

definition seg_sum :: "u32 list \<Rightarrow> u16" where
  "seg_sum lens = foldl (\<lambda>a x. a + ucast x) 0 lens"

definition set_tx_pkt_segments ::
  "('d, 'z) seg_api_scheme \<Rightarrow> ctl \<Rightarrow> fwd_st \<Rightarrow> 'd st \<Rightarrow> u32 list \<Rightarrow> tx_segs \<Rightarrow> tx_segs option" where
  "set_tx_pkt_segments api c f s lens t = do {
     bad \<leftarrow> (if length lens > 1 then nb_segs_is_invalid api f (length lens) s else Some False);
     (if bad then Some t
      else if length lens > RTE_MAX_SEGS_PER_PKT then Some t
      else do {
        size0 \<leftarrow> at (mbuf_data_sizes c) 0;
        (if \<exists>x \<in> set lens. x > ucast size0 then Some t
         else if seg_sum lens < 14 + 20 + 8 then Some t
         else map_option (\<lambda>ls. t\<lparr>tx_pkt_seg_lengths := ls, tx_pkt_length := seg_sum lens, tx_pkt_nb_segs := of_nat (length lens)\<rparr>)
                (overwrite (map ucast lens) (tx_pkt_seg_lengths t)))
      })
   }"

definition split_names :: "(string \<times> tx_pkt_split) list" where
  "split_names = [(''off'', TX_PKT_SPLIT_OFF), (''on'', TX_PKT_SPLIT_ON), (''rand'', TX_PKT_SPLIT_RND)]"

definition set_tx_pkt_split :: "string \<Rightarrow> tx_segs \<Rightarrow> tx_segs" where
  "set_tx_pkt_split name t = (case map_of split_names name of None \<Rightarrow> t | Some x \<Rightarrow> t\<lparr>tx_split := x\<rparr>)"

definition tx_split_get_name :: "tx_pkt_split \<Rightarrow> string option" where
  "tx_split_get_name x = map_of (map (\<lambda>(n, v). (v, n)) split_names) x"

definition set_tx_pkt_times :: "u32 list \<Rightarrow> tx_segs \<Rightarrow> tx_segs option" where
  "set_tx_pkt_times ts t = do {
     a \<leftarrow> at ts 0;
     b \<leftarrow> at ts 1;
     Some (t\<lparr>tx_pkt_times_inter := a, tx_pkt_times_intra := b\<rparr>)
   }"

section \<open>Receive splits stay in bounds\<close>

text \<open>The arrays have eight places and so has the table of buffer sizes, of which at least one is used.\<close>

definition segs_wf :: "ctl \<Rightarrow> bool" where
  "segs_wf c \<longleftrightarrow>
     length (rx_pkt_seg_offsets c) = 8 \<and> length (rx_pkt_seg_lengths c) = 8 \<and> length (rx_pkt_hdr_protos c) = 8 \<and>
     length (mbuf_data_sizes c) = 8 \<and> unat (rx_pkt_nb_segs c) \<le> 8 \<and> unat (rx_pkt_nb_offs c) \<le> 8 \<and>
     0 < mbuf_data_size_n c \<and> mbuf_data_size_n c \<le> 8"

datatype seg_cmd = Offsets "u32 list" | Lengths "u32 list" | Headers "u32 list"

fun seg_run :: "seg_cmd list \<Rightarrow> ctl \<Rightarrow> ctl option" where
  "seg_run [] c = Some c"
| "seg_run (x # xs) c = do {
     c1 \<leftarrow> (case x of Offsets os \<Rightarrow> set_rx_pkt_offsets os c | Lengths ls \<Rightarrow> set_rx_pkt_segments ls c | Headers hs \<Rightarrow> set_rx_pkt_hdrs hs c);
     seg_run xs c1
   }"

lemma small_u8: "n \<le> 8 \<Longrightarrow> unat (of_nat n :: u8) = n"
  by (simp add: unat_of_nat take_bit_nat_eq_self)

lemma set_rx_pkt_wf:
  assumes "segs_wf c"
  shows "\<exists>c'. set_rx_pkt_offsets xs c = Some c' \<and> segs_wf c'"
    and "\<exists>c'. set_rx_pkt_segments xs c = Some c' \<and> segs_wf c'"
    and "\<exists>c'. set_rx_pkt_hdrs xs c = Some c' \<and> segs_wf c'"
  using assms small_u8 [of "length xs"] small_u8 [of "Suc (length xs)"]
  by (auto simp: set_rx_pkt_offsets_def set_rx_pkt_segments_def set_rx_pkt_hdrs_def overwrite_def segs_wf_def)

lemma seg_run_wf: "segs_wf c \<Longrightarrow> \<exists>c'. seg_run xs c = Some c' \<and> segs_wf c'"
proof (induction xs arbitrary: c)
  case (Cons x xs)
  obtain c1 where "(case x of Offsets os \<Rightarrow> set_rx_pkt_offsets os c | Lengths ls \<Rightarrow> set_rx_pkt_segments ls c
      | Headers hs \<Rightarrow> set_rx_pkt_hdrs hs c) = Some c1" "segs_wf c1"
    using set_rx_pkt_wf [OF Cons.prems] by (cases x) (simp, blast)+
  with Cons.IH [of c1] show ?case by simp
qed simp

text \<open>The headers a segment is cut at are none of those before it.\<close>

lemma hdr_new: "and (and p (not q)) q = (0 :: u32)"
  by (rule bit_word_eqI) (simp add: bit_simps)

lemma hdr_apart:
  assumes "and x (or p h) = (0 :: u32)"
  shows "and x p = 0 \<and> and h x = 0"
proof -
  have "\<not> bit (and x (or p h)) n" for n using assms by simp
  then show ?thesis by (auto simp: bit_simps intro!: bit_word_eqI)
qed

lemma those_Some: "those (map Some xs) = Some xs"
  by (induction xs) simp_all

lemma rx_segs_total:
  assumes "segs_wf c" "\<forall>i \<in> set is. i < 8"
  shows "\<exists>segs. rx_segs pool mp c is prev = Some segs \<and> length segs = length is \<and>
     sorted_wrt (\<lambda>s t. and (seg_proto_hdr s) (seg_proto_hdr t) = 0) segs \<and>
     (\<forall>s \<in> set segs. and (seg_proto_hdr s) prev = 0)"
  using assms(2)
proof (induction "is" arbitrary: prev)
  case (Cons i "is")
  define mp_n where "mp_n = (if unat (mbuf_data_size_n c) \<le> i then mbuf_data_size_n c - 1 else of_nat i)"
  have w: "length (rx_pkt_seg_offsets c) = 8" "length (rx_pkt_seg_lengths c) = 8" "length (rx_pkt_hdr_protos c) = 8"
    "length (mbuf_data_sizes c) = 8" "0 < mbuf_data_size_n c" "mbuf_data_size_n c \<le> 8"
    using assms(1) by (auto simp: segs_wf_def)
  have i: "i < 8" using Cons.prems by simp
  have "unat (mbuf_data_size_n c - 1) < unat (mbuf_data_size_n c)"     using w(5) by (metis less_irrefl measure_unat)
  then have "unat mp_n < 8"
    using i by (auto simp: mp_n_def unat_of_nat take_bit_nat_eq_self split: if_splits)
  then have [simp]: "at (mbuf_data_sizes c) (unat mp_n) = Some (mbuf_data_sizes c ! unat mp_n)" using w by (simp add: at_def)
  have [simp]: "at (rx_pkt_seg_offsets c) i = Some (rx_pkt_seg_offsets c ! i)"
    "at (rx_pkt_hdr_protos c) i = Some (rx_pkt_hdr_protos c ! i)"
    "at (rx_pkt_seg_lengths c) i = Some (rx_pkt_seg_lengths c ! i)" using w i by (simp_all add: at_def)
  obtain off where off [simp]: "(if i < unat (rx_pkt_nb_offs c) then at (rx_pkt_seg_offsets c) i else Some 0) = Some off" by fastforce
  define h where "h = and (rx_pkt_hdr_protos c ! i) (not prev)"
  obtain segs where s: "rx_segs pool mp c is prev = Some segs" "length segs = length is"
    "sorted_wrt (\<lambda>s t. and (seg_proto_hdr s) (seg_proto_hdr t) = 0) segs" "\<forall>s \<in> set segs. and (seg_proto_hdr s) prev = 0"
    using Cons.IH [of prev] Cons.prems by auto
  obtain segs' where t: "rx_segs pool mp c is (or prev h) = Some segs'" "length segs' = length is"
    "sorted_wrt (\<lambda>s t. and (seg_proto_hdr s) (seg_proto_hdr t) = 0) segs'" "\<forall>s \<in> set segs'. and (seg_proto_hdr s) (or prev h) = 0"
    using Cons.IH [of "or prev h"] Cons.prems by auto
  have a: "and h prev = 0" by (simp add: h_def hdr_new)
  have b: "\<And>x. and x (or prev h) = 0 \<Longrightarrow> and x prev = 0 \<and> and h x = 0" by (rule hdr_apart)
  show ?case
  proof (cases "rx_pkt_hdr_protos c ! i \<noteq> 0 \<and> rx_pkt_seg_lengths c ! i = 0")
    case True
    then obtain x where e: "rx_segs pool mp c (i # is) prev = Some (x # segs')" "seg_proto_hdr x = h"
      using t(1) by (simp add: Let_def h_def [symmetric])
    have "\<forall>y \<in> set segs'. and (seg_proto_hdr x) (seg_proto_hdr y) = 0" "\<forall>y \<in> set segs'. and (seg_proto_hdr y) prev = 0"
      using t(4) b e(2) by simp_all
    then show ?thesis using e t(2,3) a by (intro exI [of _ "x # segs'"]) simp
  next
    case False
    then obtain x where e: "rx_segs pool mp c (i # is) prev = Some (x # segs)" "seg_proto_hdr x = 0"
      using s(1) by (cases "rx_pkt_seg_lengths c ! i = 0") (simp_all add: Let_def mp_n_def [symmetric])
    then show ?thesis using s(2-4) by (intro exI [of _ "x # segs"]) simp
  qed
qed simp

text \<open>
  Whatever offsets, lengths and headers the commands are given, the arrays keep their size and the setup of a receive
  queue finds all segments without leaving them; no header is given to two segments.
\<close>

theorem rx_split_in_bounds:
  assumes "segs_wf c"
  shows "\<exists>c' segs. seg_run cmds c = Some c' \<and> segs_wf c' \<and>
     rx_segs pool mp c' [0..<unat (rx_pkt_nb_segs c')] 0 = Some segs \<and> length segs = unat (rx_pkt_nb_segs c') \<and>
     (\<forall>i j. i < j \<and> j < length segs \<longrightarrow> and (seg_proto_hdr (segs ! i)) (seg_proto_hdr (segs ! j)) = 0)"
proof -
  obtain c' where c: "seg_run cmds c = Some c'" "segs_wf c'" using seg_run_wf [OF assms] by blast
  then have "\<forall>i \<in> set [0..<unat (rx_pkt_nb_segs c')]. i < 8" by (auto simp: segs_wf_def)
  from rx_segs_total [OF c(2) this, of pool mp 0] obtain segs where
    "rx_segs pool mp c' [0..<unat (rx_pkt_nb_segs c')] 0 = Some segs" "length segs = unat (rx_pkt_nb_segs c')"
    "sorted_wrt (\<lambda>s t. and (seg_proto_hdr s) (seg_proto_hdr t) = 0) segs" by auto
  with c show ?thesis by (auto simp: sorted_wrt_iff_nth_less)
qed

section \<open>Headers by name\<close>

lemma ptype_back: "get_ptype n \<noteq> 0 \<Longrightarrow> get_ptype_str (get_ptype n) = n"
  by (simp add: get_ptype_def get_ptype_str_def ptype_table_def split: if_splits)

lemma fields_plain: "CHR '','' \<notin> set x \<Longrightarrow> fields cur (x @ s) = fields (cur @ x) s"
  by (induction x arbitrary: cur) auto

lemma fields_commas: "\<forall>n \<in> set ns. n \<noteq> [] \<and> CHR '','' \<notin> set n \<Longrightarrow> fields [] (commas ns) = ns"
proof (induction ns rule: commas.induct)
  case (2 x)
  then show ?case using fields_plain [of x "[]" "[]"] by simp
qed (simp_all add: fields_plain)

lemma ptype_known: "get_ptype n \<noteq> 0 \<Longrightarrow> n \<noteq> [] \<and> CHR '','' \<notin> set n"
  by (auto simp: get_ptype_def ptype_table_def split: if_splits)

text \<open>
  Up to seven header names that the parser knows can be set as the places where received packets are cut, and the
  display prints them in the same order.
\<close>

theorem rx_hdrs_roundtrip:
  assumes "\<forall>n \<in> set names. get_ptype n \<noteq> 0" "length names \<le> 7" "length (rx_pkt_hdr_protos c) = 8"
  shows "\<exists>hdrs c'. parse_hdrs_list (commas names) 8 = Some hdrs \<and> set_rx_pkt_hdrs hdrs c = Some c' \<and>
     unat (rx_pkt_nb_segs c') = length names + 1 \<and> show_rx_pkt_hdrs c' = Some names"
proof -
  define hs where "hs = map get_ptype names"
  have f: "fields [] (commas names) = names" by (rule fields_commas) (use assms(1) ptype_known in blast)
  have p: "parse_hdrs_list (commas names) 8 = Some hs" using f assms(2) by (simp add: parse_hdrs_list_def hs_def)
  define arr where "arr = hs @ drop (length hs) (map (\<lambda>_. 0) (rx_pkt_hdr_protos c))"
  define c' where "c' = c\<lparr>rx_pkt_hdr_protos := arr, rx_pkt_nb_segs := of_nat (length hs + 1)\<rparr>"
  have s: "set_rx_pkt_hdrs hs c = Some c'"
    using assms(2,3) by (simp add: set_rx_pkt_hdrs_def hs_def overwrite_def c'_def arr_def)
  have n: "unat (rx_pkt_nb_segs c') = length names + 1" using assms(2) small_u8 [of "length names + 1"] by (simp add: c'_def hs_def)
  have "map (at (rx_pkt_hdr_protos c')) [0..<length names] = map Some hs"
    by (rule nth_equalityI) (simp_all add: c'_def arr_def at_def hs_def nth_append)
  moreover have "map get_ptype_str hs = names"
    using assms(1) by (simp add: hs_def map_idI ptype_back)
  ultimately have "show_rx_pkt_hdrs c' = Some names"
    using n by (simp add: show_rx_pkt_hdrs_def unat_eq_0 [symmetric] those_Some)
  with p s n show ?thesis by blast
qed

section \<open>Lists of numbers\<close>

lemma item_digits:
  "\<forall>c \<in> set ds. isdigit c \<Longrightarrow> ds \<noteq> [] \<Longrightarrow>
   item_chars m (ds @ s) a = item_chars m s (a\<lparr>ia_value := word_of_int (foldl (\<lambda>v c. 10 * v + digit_val c) (uint (ia_value a)) ds), ia_ok := True\<rparr>)"
proof (induction ds arbitrary: a)
  case (Cons d ds)
  have v: "word_of_int (foldl (\<lambda>v c. 10 * v + digit_val c) (uint (ia_value a * 10 + word_of_int (digit_val d))) ds) =
     (word_of_int (foldl (\<lambda>v c. 10 * v + digit_val c) (10 * uint (ia_value a) + digit_val d) ds) :: u32)"
  proof -
    have "(word_of_int (foldl (\<lambda>v c. 10 * v + digit_val c) x ds) :: u32) = word_of_int (foldl (\<lambda>v c. 10 * v + digit_val c) y ds)"
      if "(word_of_int x :: u32) = word_of_int y" for x y
      using that by (induction ds arbitrary: x y) (simp_all add: wi_hom_syms)
    then show ?thesis by (simp add: wi_hom_syms mult.commute)
  qed
  show ?case
  proof (cases "ds = []")
    case True
    then show ?thesis using Cons.prems by (simp add: wi_hom_syms mult.commute)
  next
    case False
    then show ?thesis using Cons.prems Cons.IH [of "a\<lparr>ia_value := ia_value a * 10 + word_of_int (digit_val d), ia_ok := True\<rparr>"]
      by (simp add: v)
  qed
qed simp

lemma item_dec:
  "ia_value a = 0 \<Longrightarrow> item_chars m (dec n @ s) a = item_chars m s (a\<lparr>ia_value := of_nat n, ia_ok := True\<rparr>)"
  using item_digits [OF dec_digits, of m n s a] dec_val [of n] by (simp add: digits_val_def)

lemma commas_Cons: "xs \<noteq> [] \<Longrightarrow> commas (x # xs) = x @ CHR '','' # commas xs"
  by (cases xs) simp_all

lemma item_commas:
  "ns \<noteq> [] \<Longrightarrow> ia_nb a + length ns \<le> m \<Longrightarrow> ia_value a = 0 \<Longrightarrow>
   item_chars m (commas (map dec ns)) a =
     Some (a\<lparr>ia_value := of_nat (last ns), ia_ok := True, ia_nb := ia_nb a + length ns - 1, ia_items := ia_items a @ map of_nat (butlast ns)\<rparr>)"
proof (induction ns arbitrary: a rule: list_nonempty_induct)
  case (single n)
  then show ?case using item_dec [of a m n "[]"] by simp
next
  case (cons n ns)
  have c: "\<not> isdigit CHR '',''" by (simp add: isdigit_def)
  have "commas (map dec (n # ns)) = dec n @ CHR '','' # commas (map dec ns)" using cons.hyps by (simp add: commas_Cons)
  then show ?case
    using item_dec [of a m n "CHR '','' # commas (map dec ns)"] cons.prems cons.hyps c
      cons.IH [of "a\<lparr>ia_items := ia_items a @ [of_nat n], ia_ok := False, ia_value := 0, ia_nb := ia_nb a + 1\<rparr>"]
    by simp
qed

text \<open>
  A list of numbers of at most the wanted length, printed with commas in at most 128 characters, is read back
  number by number (when the items have to be different, for numbers that are).
\<close>

theorem parse_item_list_roundtrip:
  assumes "ns \<noteq> []" "length ns \<le> max_items" "length (commas (map dec ns)) \<le> 128"
    and "\<forall>n \<in> set ns. n < 2 ^ 32" "uniq \<longrightarrow> distinct ns"
  shows "map unat (parse_item_list (commas (map dec ns)) max_items uniq) = ns"
proof -
  have items: "(map of_nat (butlast ns) @ [of_nat (last ns)] :: u32 list) = map of_nat ns"
    using assms(1) by (metis append_butlast_last_id list.simps(8,9) map_append)
  have "item_chars max_items (take 128 (commas (map dec ns))) \<lparr>ia_value = 0, ia_ok = False, ia_nb = 0, ia_items = []\<rparr> =
     Some \<lparr>ia_value = of_nat (last ns), ia_ok = True, ia_nb = length ns - 1, ia_items = map of_nat (butlast ns)\<rparr>"
    using item_commas [OF assms(1), of "\<lparr>ia_value = 0, ia_ok = False, ia_nb = 0, ia_items = []\<rparr>" max_items] assms(2,3) by simp
  moreover have u: "map unat (map of_nat ns :: u32 list) = ns"
    using assms(4) by (simp add: map_idI unat_of_nat take_bit_nat_eq_self)
  moreover have "distinct (map of_nat ns :: u32 list)" if uniq using that assms(5) u by (metis distinct_map)
  moreover have "\<not> length ns - 1 \<ge> max_items" using assms(1,2) by (cases ns) auto
  ultimately show ?thesis unfolding parse_item_list_def by (cases uniq) (simp_all add: items Let_def del: map_map)
qed

section \<open>Transmit segments\<close>

lemma segs_scan_exact:
  assumes "\<forall>(p, q) \<in> set pqs. get_tx_ring_size api p q s = Some (ring p q)"
  shows "segs_scan api n pqs s = Some (\<exists>(p, q) \<in> set pqs. fst (ring p q) = 0 \<and> unat (snd (ring p q)) < n)"
  using assms
proof (induction pqs)
  case (Cons x pqs)
  obtain p q where x: "x = (p, q)" by fastforce
  obtain r n where r: "ring p q = (r, n)" by fastforce
  have "get_tx_ring_size api p q s = Some (r, n)" using Cons.prems x r by simp
  with Cons x r show ?case by simp
qed simp

lemma seg_sum_foldl: "unat (foldl (\<lambda>a x. a + ucast x) v lens :: u16) = (unat v + sum_list (map unat (lens :: u32 list))) mod 2 ^ 16"
proof (induction lens arbitrary: v)
  case Nil
  have "unat v < 2 ^ 16" by (rule u16_bound)
  then show ?case by simp
next
  case (Cons x lens)
  have "unat (v + ucast x) = (unat v + unat x) mod 2 ^ 16"
    by (simp add: unat_word_ariths unsigned_ucast_eq take_bit_eq_mod mod_simps)
  then show ?case using Cons.IH [of "v + ucast x"] by (simp add: mod_simps ac_simps)
qed

lemma seg_sum_mod: "unat (seg_sum lens) = sum_list (map unat lens) mod 2 ^ 16"
  by (simp add: seg_sum_def seg_sum_foldl)

text \<open>
  C26: The segments of sent packets are taken over exactly when no transmit ring is too small for them, there are at most
  255, each fits into a buffer and their sum modulo 65536 is the length of a UDP packet at least; that sum becomes the length
  of the packets.  Otherwise nothing changes.
\<close>

theorem set_tx_pkt_segments_exact:
  assumes "\<forall>p \<in> set (eth_devs s). \<forall>q < unat (nb_txq f). get_tx_ring_size api p q s = Some (ring p q)"
    and "mbuf_data_sizes c \<noteq> []" "length (tx_pkt_seg_lengths t) = 255"
  shows "set_tx_pkt_segments api c f s lens t = Some
     (if (length lens \<le> 1 \<or> (\<forall>p \<in> set (eth_devs s). \<forall>q < unat (nb_txq f). fst (ring p q) = 0 \<longrightarrow> length lens \<le> unat (snd (ring p q)))) \<and>
         length lens \<le> 255 \<and> (\<forall>x \<in> set lens. unat x \<le> unat (mbuf_data_sizes c ! 0)) \<and> 42 \<le> sum_list (map unat lens) mod 2 ^ 16
      then t\<lparr>tx_pkt_seg_lengths := map ucast lens @ drop (length lens) (tx_pkt_seg_lengths t),
             tx_pkt_length := of_nat (sum_list (map unat lens)), tx_pkt_nb_segs := of_nat (length lens)\<rparr>
      else t)"
proof -
  have "\<forall>(p, q) \<in> set (List.product (eth_devs s) [0..<unat (nb_txq f)]). get_tx_ring_size api p q s = Some (ring p q)"
    using assms(1) by auto
  from segs_scan_exact [OF this, of "length lens"]
  have scan: "nb_segs_is_invalid api f (length lens) s = Some (\<not> (\<forall>p \<in> set (eth_devs s). \<forall>q < unat (nb_txq f).
      fst (ring p q) = 0 \<longrightarrow> length lens \<le> unat (snd (ring p q))))"
    by (fastforce simp: nb_segs_is_invalid_def not_le)
  have sum: "seg_sum lens = of_nat (sum_list (map unat lens))"
    by (rule word_unat_eq_iff [THEN iffD2]) (simp add: seg_sum_mod unat_of_nat take_bit_eq_mod)
  have small: "seg_sum lens < 14 + 20 + 8 \<longleftrightarrow> \<not> 42 \<le> sum_list (map unat lens) mod 2 ^ 16"
    by (simp add: word_less_nat_alt seg_sum_mod not_le)
  have size0: "at (mbuf_data_sizes c) 0 = Some (mbuf_data_sizes c ! 0)" using assms(2) by (simp add: at_def)
  have big: "(\<exists>x \<in> set lens. x > ucast (mbuf_data_sizes c ! 0)) \<longleftrightarrow> \<not> (\<forall>x \<in> set lens. unat x \<le> unat (mbuf_data_sizes c ! 0))"
    by (simp add: word_less_nat_alt unsigned_ucast_eq not_le take_bit_nat_eq_self order_less_trans [OF u16_bound])
  show ?thesis
    unfolding set_tx_pkt_segments_def scan size0 Option.bind.simps big small using assms(3)
    by (cases "length lens \<le> 1") (auto simp: overwrite_def sum)
qed

end
