(* ===== verification/ConfWitnesses.thy ===== *)
theory ConfWitnesses
  imports PortWitnesses PortConfig Vlan Segments
begin

text \<open>
  The simulated driver with the calls of the port configuration.  The device tells the information of
  \<^verbatim>\<open>FlowWitnesses\<close> and can insert one tag or two; it keeps the VLAN flags of its first port in its error number
  and refuses those of the others.  Each witness applies one property to a concrete state.
\<close>

definition tag_info :: rte_eth_dev_info where
  "tag_info = sim_info\<lparr>tx_offload_capa := 0x101\<rparr>"

definition sim_conf_api :: "sim conf_api" where
  "sim_conf_api = port_api.extend sim_port_api (conf_api.fields
     (\<lambda>_ _. (0, tag_info)) (\<lambda>_ _. (0, 1)) (\<lambda>_ _. (0, 1500)) (\<lambda>_ _. sim_ack) (\<lambda>_ d. (0, d)) (\<lambda>_ _ d. d))"

definition sim_vlan_api :: "sim vlan_api" where
  "sim_vlan_api = conf_api.extend sim_conf_api (vlan_api.fields
     (\<lambda>p d. if p = 0 then sim_errno d else 0) (\<lambda>p x d. if p = 0 then (0, d\<lparr>sim_errno := x\<rparr>) else (- 1, d))
     (\<lambda>_ _ _. sim_ack) (\<lambda>_ _ _. sim_ack) (\<lambda>_ _ _. sim_ack) (\<lambda>_ _ _. sim_ack) (\<lambda>_ _ _. sim_ack) (\<lambda>_ _ _. sim_ack))"

lemma sim_conf_calls [simp]:
  "rte_eth_dev_info_get sim_conf_api p d = (0, tag_info)" "rte_eth_dev_info_get sim_vlan_api p d = (0, tag_info)"
  "tx_buffer_create sim_conf_api p q d = d" "rte_eth_macaddr_get sim_conf_api p d = (0, replicate 6 1, d)"
  "rte_eth_rx_metadata_negotiate sim_conf_api p d = (0, d)"
  "rte_eth_dev_get_vlan_offload sim_vlan_api p d = (if p = 0 then sim_errno d else 0)"
  "rte_eth_dev_set_vlan_offload sim_vlan_api p x d = (if p = 0 then (0, d\<lparr>sim_errno := x\<rparr>) else (- 1, d))"
  by (simp_all add: sim_conf_api_def conf_api.defs sim_vlan_api_def vlan_api.defs sim_port_defs)

lemma sim_conf_told [simp]:
  "answers sim_conf_api d p" "told sim_conf_api d p = tag_info" "answers sim_vlan_api d p" "told sim_vlan_api d p = tag_info"
  by (simp_all add: answers_def told_def)

lemma sim_st_devs [simp]: "eth_devs sim_st = [0]"
  by (simp add: sim_st_def)

section \<open>Limits\<close>

text \<open>Two ports of two queues.\<close>

definition two_fwd :: fwd_st where
  "two_fwd = sim_fwd\<lparr>fwd_ports := [sim_port\<lparr>dev_info := tag_info\<rparr>, sim_port\<lparr>dev_info := tag_info\<rparr>]\<rparr>"

theorem checked_queues_accepted_witness:
  "check_nb_rxq sim_conf_api 2 (sim_st\<lparr>eth_devs := [0, 1]\<rparr>) = 0 \<and>
   (\<exists>f'. init_fwd_streams two_fwd = Some (0, f') \<and> g_nb_fwd_streams f' = 4)"
proof -
  let ?s = "sim_st\<lparr>eth_devs := [0, 1]\<rparr>"
  have q: "check_nb_rxq sim_conf_api 2 ?s = 0" "check_nb_txq sim_conf_api 2 ?s = 0"
    by (simp_all add: check_nb_rxq_def get_allowed_max_nb_rxq_def check_nb_txq_def get_allowed_max_nb_txq_def tag_info_def sim_info_def)
  have f: "nb_rxq two_fwd = 2" "nb_txq two_fwd = 2" "nb_ports two_fwd = 2" "fwd_devs two_fwd = eth_devs ?s"
    by (simp_all add: two_fwd_def sim_fwd_def)
  have "sees_devices sim_conf_api ?s (fwd_devs two_fwd) two_fwd"
    by (simp add: sees_devices_def two_fwd_def sim_fwd_def socket_of_def)
  with checked_queues_accepted [of sim_conf_api two_fwd ?s] q f show ?thesis by auto
qed

theorem mtu_valid_witness:
  "eth_dev_validate_mtu sim_conf_api 0 1500 sim_st = 0 \<and> eth_dev_validate_mtu sim_conf_api 0 9001 sim_st \<noteq> 0"
  using mtu_valid_exact [of sim_conf_api 0 1500 sim_st] mtu_valid_exact [of sim_conf_api 0 9001 sim_st]
  by (simp add: Let_def tag_info_def sim_info_def)

theorem queue_limits_witness:
  "check_nb_rxq sim_conf_api 4 sim_st = 0 \<and> check_nb_txq sim_conf_api 5 sim_st \<noteq> 0"
  using queue_limits_exact [of sim_conf_api 4 sim_st] queue_limits_exact [of sim_conf_api 5 sim_st]
  by (simp add: sim_st_def tag_info_def sim_info_def)

theorem descriptor_limits_witness:
  "check_nb_rxd sim_conf_api 512 sim_st = 0 \<and> check_nb_txd sim_conf_api 31 sim_st \<noteq> 0"
  using descriptor_limits_exact [of sim_conf_api 512 sim_st] descriptor_limits_exact [of sim_conf_api 31 sim_st]
  by (simp add: sim_st_def tag_info_def sim_info_def)

section \<open>Tags\<close>

theorem tags_refine_witness:
  "\<exists>t. tag_exec sim_vlan_api [TxQinq 0 5 6, TxVlan 0 7, TxReset 0, TxVlan 0 8] sim_st = Some t \<and> tags_in t 0 = Single 8"
proof -
  have "\<forall>c \<in> set [TxQinq 0 5 6, TxVlan 0 7, TxReset 0, TxVlan 0 8]. unat (tag_port c) < length (ports sim_st)"
    by (simp add: sim_st_def)
  from tags_refine [OF this, of sim_vlan_api] show ?thesis
    by (auto simp: can_insert_def tag_info_def)
qed

theorem rx_flags_in_step_witness:
  "\<exists>t. foreach (rx_run sim_vlan_api) [Strip 0 1] sim_st = Some t \<and> in_step sim_vlan_api t 0"
proof -
  have law: "flags_law sim_vlan_api" by (auto simp: flags_law_def split: if_splits)
  have s: "in_step sim_vlan_api sim_st q" for q
    by (auto simp: in_step_def sim_st_def sim_dev_def port_get_def sim_port_def split: if_splits)
  obtain t where t: "foreach (rx_run sim_vlan_api) [Strip 0 1] sim_st = Some t"
    by (simp add: rx_vlan_strip_set_def rx_offload_set_def Let_def port_id_is_invalid_def)
  from rx_flags_in_step [OF law t] s t show ?thesis by blast
qed

section \<open>Configuration\<close>

definition sim_opts :: port_opts where
  "sim_opts = \<lparr>rx_mode_offloads = 0, rx_mode_mtu = 1500, rx_mode_mq_mode = 1, tx_mode_offloads = 0x10000, eth_link_speed = 0,
     max_rx_pkt_len = 0, rss_hf = 0xC, rx_mq_mode = 7, rmv_interrupt = True, rx_pthresh = - 1, rx_hthresh = 8, rx_wthresh = - 1,
     rx_free_thresh = - 1, rx_drop_en = - 1, tx_pthresh = - 1, tx_hthresh = - 1, tx_wthresh = - 1, tx_rs_thresh = - 1,
     tx_free_thresh = - 1\<rparr>"


theorem port_offloads_witness:
  "\<exists>c' t new. init_config_port_offloads sim_conf_api sim_opts 0 0
       (sim_ctl, sim_st\<lparr>ports := [sim_port\<lparr>rxq_conf := replicate 4 sim_rxconf, txq_conf := replicate 4 sim_txconf\<rparr>]\<rparr>) = Some (c', t) \<and>
     port_get t 0 = Some new \<and> need_reconfig new = 1 \<and> and (txmode_offloads new) TX_OFFLOAD_MBUF_FAST_FREE = 0"
proof -
  let ?s = "sim_st\<lparr>ports := [sim_port\<lparr>rxq_conf := replicate 4 sim_rxconf, txq_conf := replicate 4 sim_txconf\<rparr>]\<rparr>"
  have "port_get ?s 0 = Some (sim_port\<lparr>rxq_conf := replicate 4 sim_rxconf, txq_conf := replicate 4 sim_txconf\<rparr>)"
    by (simp add: port_get_def)
  then obtain c' t where e: "init_config_port_offloads sim_conf_api sim_opts 0 0 (sim_ctl, ?s) = Some (c', t)"
    by (simp add: init_config_port_offloads_def eth_rx_metadata_negotiate_mp_def eth_dev_info_get_print_err_def rx_offloads_all_def
        tx_offloads_all_def segment_size_def tag_info_def sim_info_def sim_ctl_def Let_def)
  from port_offloads_set [OF e] obtain new where "port_get t 0 = Some new" "need_reconfig new = 1" "dev_info new = tag_info"
    "and (txmode_offloads new) TX_OFFLOAD_MBUF_FAST_FREE \<noteq> 0 \<longrightarrow> and (tx_offload_capa (dev_info new)) TX_OFFLOAD_MBUF_FAST_FREE \<noteq> 0"
    by auto
  moreover have "and (tx_offload_capa tag_info) TX_OFFLOAD_MBUF_FAST_FREE = 0" by (simp add: tag_info_def)
  ultimately show ?thesis using e by auto
qed

section \<open>Segments\<close>

definition seg_ctl :: ctl where
  "seg_ctl = sim_ctl\<lparr>mbuf_data_sizes := replicate 8 2176, rx_pkt_seg_lengths := replicate 8 0, rx_pkt_seg_offsets := replicate 8 0,
     rx_pkt_hdr_protos := replicate 8 0\<rparr>"

lemma seg_ctl_wf: "segs_wf seg_ctl"
  by (simp add: segs_wf_def seg_ctl_def sim_ctl_def)

theorem rx_split_witness:
  "\<exists>c' segs. seg_run [Headers [0x91, 0x191], Offsets [70000], Lengths []] seg_ctl = Some c' \<and>
     rx_segs (\<lambda>_. 3) 3 c' [0..<unat (rx_pkt_nb_segs c')] 0 = Some segs"
  using rx_split_in_bounds [OF seg_ctl_wf, of "[Headers [0x91, 0x191], Offsets [70000], Lengths []]" "\<lambda>_. 3" 3] by blast

theorem rx_hdrs_witness:
  "\<exists>hdrs c'. parse_hdrs_list ''ipv4,ipv4-udp'' 8 = Some hdrs \<and> set_rx_pkt_hdrs hdrs seg_ctl = Some c' \<and>
     show_rx_pkt_hdrs c' = Some [''ipv4'', ''ipv4-udp'']"
proof -
  have "\<forall>n \<in> set [''ipv4'', ''ipv4-udp'']. get_ptype n \<noteq> 0" "length [''ipv4'', ''ipv4-udp''] \<le> 7"
    "length (rx_pkt_hdr_protos seg_ctl) = 8"
    by (simp_all add: get_ptype_def ptype_table_def seg_ctl_def)
  from rx_hdrs_roundtrip [OF this] show ?thesis by auto
qed

theorem parse_item_list_witness: "map unat (parse_item_list ''64,128,7'' 8 True) = [64, 128, 7]"
proof -
  have "dec 64 = ''64''" "dec 128 = ''128''" "dec 7 = ''7''" by (simp_all add: dec.simps char_of_def bit_Suc_0_iff)
  then show ?thesis using parse_item_list_roundtrip [of "[64, 128, 7]" 8 True] by simp
qed

definition sim_seg_api :: "sim seg_api" where
  "sim_seg_api = port_api.extend sim_port_api (seg_api.fields (\<lambda>_ _ _. (0, 512)) (\<lambda>_ _ _. (0, 512)))"

definition sim_txs :: tx_segs where
  "sim_txs = \<lparr>tx_pkt_length = 64, tx_pkt_seg_lengths = replicate 255 0, tx_pkt_nb_segs = 1, tx_split = TX_PKT_SPLIT_OFF,
     tx_pkt_times_inter = 0, tx_pkt_times_intra = 0\<rparr>"

text \<open>Thirty-three segments of 2000 bytes make packets whose recorded length is 464.\<close>

theorem set_tx_pkt_segments_witness:
  "\<exists>t. set_tx_pkt_segments sim_seg_api seg_ctl sim_fwd sim_st (replicate 33 2000) sim_txs = Some t \<and> tx_pkt_length t = 464"
proof -
  have "\<forall>p \<in> set (eth_devs sim_st). \<forall>q < unat (nb_txq sim_fwd). get_tx_ring_size sim_seg_api p q sim_st = Some (0, 512)"
    by (simp add: get_tx_ring_size_def sim_seg_api_def seg_api.defs sim_port_defs)
  moreover have "mbuf_data_sizes seg_ctl \<noteq> []" "length (tx_pkt_seg_lengths sim_txs) = 255"
    by (simp_all add: seg_ctl_def sim_txs_def)
  moreover have "mbuf_data_sizes seg_ctl ! 0 = 2176" by (simp add: seg_ctl_def)
  moreover have "sum_list (map unat (replicate 33 (2000 :: u32))) = 66000" by (simp add: sum_list_replicate)
  ultimately show ?thesis
    using set_tx_pkt_segments_exact [of sim_st sim_fwd sim_seg_api "\<lambda>_ _. (0, 512)" seg_ctl sim_txs "replicate 33 2000"]
    by simp
qed

end
