(* ===== verification/FwdSets.thy ===== *)
theory FwdSets
  imports FwdConfig CString
begin

text \<open>
  The choice of the forwarding cores and ports (\<^verbatim>\<open>set_default_fwd_lcores_config\<close>, \<^verbatim>\<open>set_default_fwd_ports_config\<close> of
  \<^verbatim>\<open>dpdk.cpp\<close>; \<^verbatim>\<open>set_fwd_lcores_list\<close> to \<^verbatim>\<open>set_fwd_ports_number\<close> of \<^verbatim>\<open>config.c\<close>), with the parser of port lists.  The source documents
  the invariant of the numbers: forwarding is at most configured is at most available, for cores and for ports.
\<close>

section \<open>State\<close>

text \<open>The cores are those of the environment; a core identifier beyond \<^verbatim>\<open>RTE_MAX_LCORE\<close> is never enabled.\<close>

record lcore_env =
  rte_lcore_is_enabled :: "u32 \<Rightarrow> bool"
  rte_get_main_lcore :: u32
  rte_lcore_to_socket_id :: "u32 \<Rightarrow> u32"

abbreviation RTE_MAX_LCORE :: nat where "RTE_MAX_LCORE \<equiv> 128"
abbreviation RTE_MAX_NUMA_NODES :: nat where "RTE_MAX_NUMA_NODES \<equiv> 32"
abbreviation RTE_MAX_ETHPORTS :: nat where "RTE_MAX_ETHPORTS \<equiv> 32"

text \<open>The globals besides those of the forwarding configuration.\<close>

record sets =
  fw :: fwd_st
  nb_cfg_ports :: u16
  nb_cfg_lcores :: u8
  nb_lcores :: u8
  fwd_lcores_cpuids :: "u32 list"
  peer_eth_addrs :: "ether_addr list"

section \<open>Cores\<close>

definition lcore_usable :: "lcore_env \<Rightarrow> u32 \<Rightarrow> bool" where
  "lcore_usable env c \<longleftrightarrow> rte_lcore_is_enabled env c \<and> c \<noteq> rte_get_main_lcore env"

text \<open>The first pass over the list checks, the second records.\<close>

definition set_fwd_lcores_list :: "lcore_env \<Rightarrow> u32 list \<Rightarrow> sets \<Rightarrow> (int \<times> sets) option" where
  "set_fwd_lcores_list env lcorelist s =
     (if \<not> list_all (lcore_usable env) lcorelist then Some (- 1, s)
      else do {
        cpuids \<leftarrow> overwrite lcorelist (fwd_lcores_cpuids s);
        Some (0, s\<lparr>fwd_lcores_cpuids := cpuids, nb_cfg_lcores := of_nat (length lcorelist),
                fw := (fw s)\<lparr>g_nb_fwd_lcores := of_nat (length lcorelist)\<rparr>\<rparr>)
      })"

definition set_fwd_lcores_mask :: "lcore_env \<Rightarrow> u64 \<Rightarrow> sets \<Rightarrow> (int \<times> sets) option" where
  "set_fwd_lcores_mask env lcoremask s =
     (if lcoremask = 0 then Some (- 1, s)
      else set_fwd_lcores_list env (map of_nat (filter (bit lcoremask) [0..<64])) s)"

definition set_fwd_lcores_number :: "u16 \<Rightarrow> sets \<Rightarrow> sets" where
  "set_fwd_lcores_number nb_lc s =
     (if nb_lc > ucast (nb_cfg_lcores s) then s else s\<lparr>fw := (fw s)\<lparr>g_nb_fwd_lcores := ucast nb_lc\<rparr>\<rparr>)"

section \<open>Ports\<close>

definition set_fwd_ports_list :: "'d st \<Rightarrow> u32 list \<Rightarrow> sets \<Rightarrow> sets option" where
  "set_fwd_ports_list d portlist s =
     (let ps = map ucast portlist :: u16 list in
      if \<not> list_all (\<lambda>p. \<not> port_id_is_invalid d p) ps then Some s
      else do {
        ids \<leftarrow> overwrite ps (fwd_ports_ids (fw s));
        Some (s\<lparr>nb_cfg_ports := of_nat (length ps),
                fw := (fw s)\<lparr>fwd_ports_ids := ids, g_nb_fwd_ports := of_nat (length ps)\<rparr>\<rparr>)
      })"

definition add_range :: "nat \<Rightarrow> int \<Rightarrow> int \<Rightarrow> int list \<Rightarrow> int list" where
  "add_range maxsize lo hi acc =
     foldl (\<lambda>acc i. if length acc < maxsize \<and> i \<notin> set acc then acc @ [i] else acc) acc [lo..hi]"

lemma item_shorter:
  assumes "strtol (dropWhile isblank list) = (v, e, oor)" "dropWhile isblank e = c # r"
  shows "length r < length list"
  using assms length_dropWhile_le [of isblank e] length_dropWhile_le [of isblank list]
    strtol_rest [of "dropWhile isblank list" v e oor] by simp

text \<open>
  The loop over the items of a list of ports and ranges.  The beginning of a range waits for its end; the values stored so far
  are those that are marked.  Any mistake makes the function return zero, here \<open>None\<close>.
\<close>

function port_items :: "nat \<Rightarrow> int option \<Rightarrow> string \<Rightarrow> int list \<Rightarrow> int list option" where
  "port_items maxsize lo list acc =
     (let l = dropWhile isblank list in
      if l = [] then Some acc
      else (case strtol l of (v, e, oor) \<Rightarrow>
        (let value = to_int v in
         if oor \<or> value < 0 \<or> value \<ge> int maxsize then None
         else (let acc' = add_range maxsize (case lo of None \<Rightarrow> value | Some m \<Rightarrow> m) value acc in
               case dropWhile isblank e of
                 [] \<Rightarrow> Some acc'
               | c # r \<Rightarrow>
                   if c = CHR ''-'' \<and> lo = None then port_items maxsize (Some value) r acc
                   else if c = CHR '','' then port_items maxsize None r acc'
                   else None))))"
  by pat_completeness auto

termination
  by (relation "measure (\<lambda>(m, lo, l, acc). length l)") (auto intro: item_shorter [OF sym])

declare port_items.simps [simp del]

definition parse_port_list :: "string \<Rightarrow> nat \<Rightarrow> int list" where
  "parse_port_list list maxsize = (case port_items maxsize None list [] of None \<Rightarrow> [] | Some vs \<Rightarrow> vs)"

text \<open>An empty result ends the process.\<close>

definition parse_fwd_portlist :: "'d st \<Rightarrow> string \<Rightarrow> sets \<Rightarrow> sets option" where
  "parse_fwd_portlist d portlist s =
     (let portindex = parse_port_list portlist RTE_MAX_ETHPORTS in
      if portindex = [] then None
      else set_fwd_ports_list d (map word_of_int (filter (\<lambda>p. word_of_int p \<in> set (eth_devs d)) portindex)) s)"

text \<open>The shift by the number of a port is undefined from sixty-four on.\<close>

definition set_fwd_ports_mask :: "'d st \<Rightarrow> u64 \<Rightarrow> sets \<Rightarrow> sets option" where
  "set_fwd_ports_mask d portmask s =
     (if portmask = 0 then Some s
      else if \<not> list_all (\<lambda>p. unat p < 64) (eth_devs d) then None
      else set_fwd_ports_list d (map ucast (filter (\<lambda>p. bit portmask (unat p)) (eth_devs d))) s)"

definition set_fwd_ports_number :: "u16 \<Rightarrow> sets \<Rightarrow> sets" where
  "set_fwd_ports_number nb_pt s =
     (if nb_pt > nb_cfg_ports s then s else s\<lparr>fw := (fw s)\<lparr>g_nb_fwd_ports := nb_pt\<rparr>\<rparr>)"

section \<open>Defaults\<close>

text \<open>A socket that is not known yet; too many of them end the process.\<close>

definition add_socket :: "u32 \<Rightarrow> u32 list \<Rightarrow> u32 list option" where
  "add_socket sock socks =
     (if new_socket_id socks sock
      then (if length socks \<ge> RTE_MAX_NUMA_NODES then None else Some (socks @ [sock])) else Some socks)"

fun default_lcores :: "lcore_env \<Rightarrow> u32 list \<Rightarrow> u32 list \<times> u32 list \<Rightarrow> (u32 list \<times> u32 list) option" where
  "default_lcores env [] acc = Some acc"
| "default_lcores env (i # is) acc =
     (case acc of (socks, cpus) \<Rightarrow>
        if \<not> rte_lcore_is_enabled env i then default_lcores env is acc
        else do {
          socks1 \<leftarrow> add_socket (rte_lcore_to_socket_id env i) socks;
          default_lcores env is (socks1, if i = rte_get_main_lcore env then cpus else cpus @ [i])
        })"

definition set_default_fwd_lcores_config :: "lcore_env \<Rightarrow> sets \<Rightarrow> sets option" where
  "set_default_fwd_lcores_config env s = do {
     (socks, cpus) \<leftarrow> default_lcores env (map of_nat [0..<RTE_MAX_LCORE]) (socket_ids (fw s), []);
     cpuids \<leftarrow> overwrite cpus (fwd_lcores_cpuids s);
     Some (s\<lparr>fwd_lcores_cpuids := cpuids, nb_lcores := of_nat (length cpus), nb_cfg_lcores := of_nat (length cpus),
             fw := (fw s)\<lparr>socket_ids := socks, g_nb_fwd_lcores := 1\<rparr>\<rparr>)
   }"

definition set_def_peer_eth_addrs :: "sets \<Rightarrow> sets" where
  "set_def_peer_eth_addrs s =
     s\<lparr>peer_eth_addrs := map (\<lambda>i. (peer_eth_addrs s ! i)[0 := 2, 5 := of_nat i]) [0..<RTE_MAX_ETHPORTS]\<rparr>"

fun default_sockets :: "(u16 \<Rightarrow> u32) \<Rightarrow> u16 list \<Rightarrow> u32 list \<Rightarrow> u32 list option" where
  "default_sockets sock [] socks = Some socks"
| "default_sockets sock (p # ps) socks = do {
     socks1 \<leftarrow> (if sint (sock p) \<ge> 0 then add_socket (sock p) socks else Some socks);
     default_sockets sock ps socks1
   }"

definition set_default_fwd_ports_config :: "'d st \<Rightarrow> sets \<Rightarrow> sets option" where
  "set_default_fwd_ports_config d s = do {
     ids \<leftarrow> overwrite (eth_devs d) (fwd_ports_ids (fw s));
     socks \<leftarrow> default_sockets (eth_dev_socket (fw s)) (eth_devs d) (socket_ids (fw s));
     Some (s\<lparr>nb_cfg_ports := nb_ports (fw s),
             fw := (fw s)\<lparr>fwd_ports_ids := ids, socket_ids := socks, g_nb_fwd_ports := nb_ports (fw s)\<rparr>\<rparr>)
   }"

definition set_def_fwd_config :: "lcore_env \<Rightarrow> 'd st \<Rightarrow> sets \<Rightarrow> sets option" where
  "set_def_fwd_config env d s = do {
     s1 \<leftarrow> set_default_fwd_lcores_config env s;
     set_default_fwd_ports_config d (set_def_peer_eth_addrs s1)
   }"

section \<open>Lists of ports\<close>

definition fits :: "nat \<Rightarrow> int list \<Rightarrow> bool" where
  "fits m vs \<longleftrightarrow> distinct vs \<and> set vs \<subseteq> {0..<int m}"

lemma fits_length: "fits m vs \<Longrightarrow> length vs \<le> m"
  using card_mono [of "{0..<int m}" "set vs"] by (simp add: fits_def distinct_card)

lemma fits_room: "fits m vs \<Longrightarrow> 0 \<le> i \<Longrightarrow> i < int m \<Longrightarrow> i \<notin> set vs \<Longrightarrow> length vs < m"
  using fits_length [of m "i # vs"] by (simp add: fits_def)

text \<open>There is always room for a new value, and the result has each value once.\<close>

definition add_all :: "nat \<Rightarrow> int list \<Rightarrow> int list \<Rightarrow> int list" where
  "add_all m = foldl (\<lambda>acc i. if length acc < m \<and> i \<notin> set acc then acc @ [i] else acc)"

lemma add_all_simps [simp]:
  "add_all m acc [] = acc"
  "add_all m acc (v # vs) = add_all m (if length acc < m \<and> v \<notin> set acc then acc @ [v] else acc) vs"
  by (simp_all add: add_all_def)

lemma add_all_append: "add_all m acc (vs @ ws) = add_all m (add_all m acc vs) ws"
  by (simp add: add_all_def)

lemma add_values:
  assumes "fits m acc" "set vs \<subseteq> {0..<int m}"
  shows "fits m (add_all m acc vs) \<and> set (add_all m acc vs) = set acc \<union> set vs \<and>
    (distinct (acc @ vs) \<longrightarrow> add_all m acc vs = acc @ vs)"
  using assms
proof (induction vs arbitrary: acc)
  case (Cons v vs)
  show ?case
  proof (cases "v \<in> set acc")
    case True
    then show ?thesis using Cons.IH [of acc] Cons.prems by auto
  next
    case False
    then have "length acc < m" "fits m (acc @ [v])"
      using fits_room [of m acc v] Cons.prems by (auto simp: fits_def)
    then show ?thesis using False Cons.IH [of "acc @ [v]"] Cons.prems(2) by auto
  qed
qed simp

lemma add_range_all: "add_range m lo hi acc = add_all m acc [lo..hi]"
  by (simp add: add_range_def add_all_def)

lemma add_range_fits: "fits m acc \<Longrightarrow> 0 \<le> lo \<Longrightarrow> hi < int m \<Longrightarrow> fits m (add_range m lo hi acc)"
  using add_values [of m acc "[lo..hi]"] by (auto simp: add_range_all subset_iff)

lemma port_items_step:
  assumes "strtol (dropWhile isblank s) = (v, e, oor)"
    "\<not> (dropWhile isblank s = [] \<or> oor \<or> to_int v < 0 \<or> to_int v \<ge> int m)"
  shows "port_items m lo s acc =
    (let acc' = add_range m (case lo of None \<Rightarrow> to_int v | Some x \<Rightarrow> x) (to_int v) acc in
     case dropWhile isblank e of [] \<Rightarrow> Some acc'
     | c # r \<Rightarrow> if c = CHR ''-'' \<and> lo = None then port_items m (Some (to_int v)) r acc
                else if c = CHR '','' then port_items m None r acc' else None)"
  using assms by (subst port_items.simps) (simp add: Let_def del: dropWhile_eq_Nil_conv)

lemma port_items_fits:
  "port_items m lo s acc = Some vs \<Longrightarrow> fits m acc \<Longrightarrow> (\<forall>x. lo = Some x \<longrightarrow> 0 \<le> x) \<Longrightarrow> fits m vs"
proof (induction m lo s acc rule: port_items.induct)
  case (1 m lo s acc)
  obtain v e oor where st: "strtol (dropWhile isblank s) = (v, e, oor)" by (rule prod_cases3)
  show ?case
  proof (cases "dropWhile isblank s = [] \<or> oor \<or> to_int v < 0 \<or> to_int v \<ge> int m")
    case True
    then show ?thesis using 1(3,4) by (auto simp: port_items.simps [of m lo s] st Let_def split: if_splits)
  next
    case False
    let ?acc = "add_range m (case lo of None \<Rightarrow> to_int v | Some x \<Rightarrow> x) (to_int v) acc"
    have f: "fits m ?acc" using 1(4,5) False by (intro add_range_fits) (auto split: option.splits)
    show ?thesis
    proof (cases "dropWhile isblank e")
      case Nil
      then show ?thesis
        using 1(3) f port_items_step [OF st False, of lo acc] by (simp add: Let_def del: dropWhile_eq_Nil_conv)
    next
      case (Cons c r)
      consider "c = CHR ''-'' \<and> lo = None" | "\<not> (c = CHR ''-'' \<and> lo = None)" "c = CHR '',''"
        using 1(3) Cons port_items_step [OF st False, of lo acc] by (auto simp: Let_def split: if_splits)
      then show ?thesis
      proof cases
        case 1
        with "1.prems" Cons port_items_step [OF st False, of lo acc] have "port_items m (Some (to_int v)) r acc = Some vs"
          by (simp add: Let_def)
        with "1.IH"(1) [OF refl _ st [symmetric] refl refl _ refl Cons] "1.prems" False 1 show ?thesis by simp
      next
        case 2
        with "1.prems" Cons port_items_step [OF st False, of lo acc] have "port_items m None r ?acc = Some vs"
          by (simp add: Let_def)
        with "1.IH"(2) [OF refl _ st [symmetric] refl refl _ refl Cons] f False 2 show ?thesis by simp
      qed
    qed
  qed
qed

lemma parse_port_list_fits: "fits m (parse_port_list s m)"
  using port_items_fits [of m None s "[]"] by (auto simp: parse_port_list_def fits_def split: option.splits)

section \<open>Reading a printed list\<close>

datatype item = One nat | Span nat nat

fun item_text :: "item \<Rightarrow> string" where
  "item_text (One a) = dec a"
| "item_text (Span a b) = dec a @ ''-'' @ dec b"

definition items_text :: "item list \<Rightarrow> string" where
  "items_text is = commas (map item_text is)"

fun item_values :: "item \<Rightarrow> int list" where
  "item_values (One a) = [int a]"
| "item_values (Span a b) = [int a..int b]"

fun item_ok :: "nat \<Rightarrow> item \<Rightarrow> bool" where
  "item_ok m (One a) \<longleftrightarrow> a < m"
| "item_ok m (Span a b) \<longleftrightarrow> a < m \<and> b < m"

lemma dec_noblank: "dropWhile isblank (dec n @ s) = dec n @ s"
proof -
  obtain c ds where d: "dec n = c # ds" using dec_digits(2) [of n] by (cases "dec n") auto
  have "isdigit c" using dec_digits(1) [of n] d by simp
  then have "\<not> isblank c" by (auto simp: isdigit_def isblank_def)
  with d show ?thesis by simp
qed

lemma port_items_number:
  assumes "n < m" "m < 2 ^ 31" "rest = [] \<or> hd rest \<in> {CHR ''-'', CHR '',''}"
  shows "port_items m lo (dec n @ rest) acc =
    (let acc' = add_range m (case lo of None \<Rightarrow> int n | Some x \<Rightarrow> x) (int n) acc in
     case rest of [] \<Rightarrow> Some acc'
     | c # r \<Rightarrow> if c = CHR ''-'' \<and> lo = None then port_items m (Some (int n)) r acc
                else if c = CHR '','' then port_items m None r acc' else None)"
proof -
  have "rest = [] \<or> \<not> isdigit (hd rest)" using assms(3) by (auto simp: isdigit_def)
  then have st: "strtol (dropWhile isblank (dec n @ rest)) = (int n, rest, False)"
    using assms by (simp only: dec_noblank) (intro strtol_dec, auto)
  have r: "dropWhile isblank rest = rest" using assms(3) by (cases rest) (auto simp: isblank_def)
  have i: "to_int (int n) = int n" using assms(1,2) by (intro to_int_small) auto
  have "\<not> (dropWhile isblank (dec n @ rest) = [] \<or> False \<or> to_int (int n) < 0 \<or> to_int (int n) \<ge> int m)"
    using assms(1) dec_digits(2) [of n] i by (simp only: dec_noblank) simp
  from port_items_step [OF st this] show ?thesis by (simp only: i r)
qed

lemma item_read:
  assumes "item_ok m i" "m < 2 ^ 31"
  shows "port_items m None (item_text i) acc = Some (add_all m acc (item_values i))"
    "port_items m None (item_text i @ '','' @ r) acc = port_items m None r (add_all m acc (item_values i))"
proof -
  have "port_items m None (item_text i) acc = Some (add_all m acc (item_values i)) \<and>
    port_items m None (item_text i @ '','' @ r) acc = port_items m None r (add_all m acc (item_values i))"
  proof (cases i)
    case (One a)
    with assms port_items_number [of a m "[]" None acc] port_items_number [of a m "'','' @ r" None acc]
    show ?thesis by (simp add: add_range_all)
  next
    case (Span a b)
    with assms port_items_number [of a m "''-'' @ dec b" None acc] port_items_number [of b m "[]" "Some (int a)" acc]
      port_items_number [of a m "''-'' @ dec b @ '','' @ r" None acc] port_items_number [of b m "'','' @ r" "Some (int a)" acc]
    show ?thesis by (simp add: add_range_all)
  qed
  then show "port_items m None (item_text i) acc = Some (add_all m acc (item_values i))"
    "port_items m None (item_text i @ '','' @ r) acc = port_items m None r (add_all m acc (item_values i))" by simp_all
qed

lemma items_read:
  "list_all (item_ok m) is \<Longrightarrow> m < 2 ^ 31 \<Longrightarrow>
     port_items m None (items_text is) acc = Some (add_all m acc (concat (map item_values is)))"
proof (induction "is" arbitrary: acc rule: induct_list012)
  case 1
  then show ?case by (simp add: items_text_def port_items.simps [of m None "[]"])
next
  case (2 i)
  then show ?case by (simp add: items_text_def item_read)
next
  case (3 i j "is")
  then show ?case by (simp add: items_text_def item_read(2) [simplified] add_all_append)
qed

text \<open>
  C19: Reading a list of ports and ranges back from its text gives exactly the ports of the list, each once, and in
  the order of the text when the text names none twice; whatever the text is, the result has only ports below the bound
  and none twice.
\<close>

theorem parse_port_list_roundtrip:
  assumes "list_all (item_ok m) is" "m < 2 ^ 31"
  shows "set (parse_port_list (items_text is) m) = set (concat (map item_values is)) \<and>
    (distinct (concat (map item_values is)) \<longrightarrow> parse_port_list (items_text is) m = concat (map item_values is)) \<and>
    (\<forall>txt. distinct (parse_port_list txt m) \<and> set (parse_port_list txt m) \<subseteq> {0..<int m})"
proof -
  have "item_ok m i \<Longrightarrow> set (item_values i) \<subseteq> {0..<int m}" for i by (cases i) auto
  then have "set (concat (map item_values is)) \<subseteq> {0..<int m}" using assms(1) by (auto simp: list_all_iff)
  from add_values [OF _ this, of "[]"] have
    "set (parse_port_list (items_text is) m) = set (concat (map item_values is)) \<and>
     (distinct (concat (map item_values is)) \<longrightarrow> parse_port_list (items_text is) m = concat (map item_values is))"
    by (simp add: parse_port_list_def items_read [OF assms] fits_def)
  with parse_port_list_fits [of m] show ?thesis by (auto simp: fits_def)
qed

section \<open>The documented invariant\<close>

definition workers :: "lcore_env \<Rightarrow> u32 list" where
  "workers env = filter (lcore_usable env) (map of_nat [0..<RTE_MAX_LCORE])"

text \<open>What holds of the environment: the arrays have their sizes, and devices and cores are in range.\<close>

definition env_ok :: "lcore_env \<Rightarrow> 'd st \<Rightarrow> sets \<Rightarrow> bool" where
  "env_ok env d s \<longleftrightarrow> distinct (eth_devs d) \<and> (\<forall>p \<in> set (eth_devs d). unat p < RTE_MAX_ETHPORTS) \<and>
     nb_ports (fw s) = of_nat (length (eth_devs d)) \<and> length (fwd_ports_ids (fw s)) = RTE_MAX_ETHPORTS \<and>
     length (fwd_lcores_cpuids s) = RTE_MAX_LCORE \<and> (\<forall>c. rte_lcore_is_enabled env c \<longrightarrow> unat c < RTE_MAX_LCORE)"

definition sets_inv :: "lcore_env \<Rightarrow> 'd st \<Rightarrow> sets \<Rightarrow> bool" where
  "sets_inv env d s \<longleftrightarrow>
     g_nb_fwd_lcores (fw s) \<le> nb_cfg_lcores s \<and> nb_cfg_lcores s \<le> nb_lcores s \<and>
     g_nb_fwd_ports (fw s) \<le> nb_cfg_ports s \<and> nb_cfg_ports s \<le> nb_ports (fw s) \<and>
     unat (nb_lcores s) = length (workers env) \<and>
     distinct (take (unat (nb_cfg_ports s)) (fwd_ports_ids (fw s))) \<and>
     set (take (unat (nb_cfg_ports s)) (fwd_ports_ids (fw s))) \<subseteq> set (eth_devs d) \<and>
     distinct (take (unat (nb_cfg_lcores s)) (fwd_lcores_cpuids s)) \<and>
     list_all (lcore_usable env) (take (unat (nb_cfg_lcores s)) (fwd_lcores_cpuids s))"

datatype set_cmd = CoreMask u64 | CoreNumber u16 | PortMask u64 | PortNumber u16 | PortList string

fun set_run :: "lcore_env \<Rightarrow> 'd st \<Rightarrow> set_cmd \<Rightarrow> sets \<Rightarrow> sets option" where
  "set_run env d (CoreMask m) s = map_option snd (set_fwd_lcores_mask env m s)"
| "set_run env d (CoreNumber n) s = Some (set_fwd_lcores_number n s)"
| "set_run env d (PortMask m) s = set_fwd_ports_mask d m s"
| "set_run env d (PortNumber n) s = Some (set_fwd_ports_number n s)"
| "set_run env d (PortList txt) s = parse_fwd_portlist d txt s"

fun set_script :: "lcore_env \<Rightarrow> 'd st \<Rightarrow> set_cmd list \<Rightarrow> sets \<Rightarrow> sets option" where
  "set_script env d [] s = Some s"
| "set_script env d (c # cs) s = do { s1 \<leftarrow> set_run env d c s; set_script env d cs s1 }"

lemma devs_few:
  assumes "env_ok env d s"
  shows "length (eth_devs d) \<le> RTE_MAX_ETHPORTS"
proof -
  have "inj_on unat (set (eth_devs d))" by (rule inj_onI) (simp add: word_unat_eq_iff)
  then have "length (eth_devs d) = card (unat ` set (eth_devs d))"
    using assms by (simp add: env_ok_def card_image distinct_card)
  also have "\<dots> \<le> card {..<RTE_MAX_ETHPORTS}" using assms by (intro card_mono) (auto simp: env_ok_def)
  finally show ?thesis by simp
qed

lemma cores_few:
  assumes "env_ok env d s" "distinct cs" "list_all (lcore_usable env) cs"
  shows "length cs \<le> length (workers env)" "length (workers env) \<le> RTE_MAX_LCORE"
proof -
  have "c \<in> set (workers env)" if "c \<in> set cs" for c
  proof -
    have c: "lcore_usable env c" "unat c < RTE_MAX_LCORE"
      using assms(1,3) that by (auto simp: env_ok_def list_all_iff lcore_usable_def)
    then have "c = of_nat (unat c)" "unat c \<in> set [0..<RTE_MAX_LCORE]" by auto
    then have "c \<in> set (map of_nat [0..<RTE_MAX_LCORE])" unfolding set_map by (rule image_eqI)
    with c(1) show ?thesis unfolding workers_def by simp
  qed
  then have "card (set cs) \<le> card (set (workers env))" by (intro card_mono) auto
  then show "length cs \<le> length (workers env)"
    using card_length [of "workers env"] distinct_card [OF assms(2)] by simp
  show "length (workers env) \<le> RTE_MAX_LCORE"
    unfolding workers_def by (rule order_trans [OF length_filter_le]) simp
qed

lemma ports_kept:
  assumes "env_ok env d s" "sets_inv env d s" "distinct ps" "set ps \<subseteq> set (eth_devs d)"
    "overwrite ps (fwd_ports_ids (fw s)) = Some ids"
  shows "sets_inv env d (s\<lparr>nb_cfg_ports := of_nat (length ps),
    fw := (fw s)\<lparr>fwd_ports_ids := ids, g_nb_fwd_ports := of_nat (length ps)\<rparr>\<rparr>)"
proof -
  have "length ps \<le> length (eth_devs d)" using assms(3,4) by (metis List.finite_set card_mono card_length distinct_card order_trans)
  with devs_few [OF assms(1)] have n: "length ps < 2 ^ 16" "length (eth_devs d) < 2 ^ 16" "length ps \<le> length (eth_devs d)" by auto
  then have "unat (of_nat (length ps) :: u16) = length ps" "unat (of_nat (length (eth_devs d)) :: u16) = length (eth_devs d)"
    by (simp_all add: unat_u16)
  with assms n show ?thesis
    by (auto simp: sets_inv_def env_ok_def overwrite_def word_le_nat_alt split: if_splits)
qed

lemma set_fwd_ports_list_kept:
  assumes "env_ok env d s" "sets_inv env d s" "distinct (map ucast portlist :: u16 list)"
    "set (map ucast portlist :: u16 list) \<subseteq> set (eth_devs d)" "set_fwd_ports_list d portlist s = Some t"
  shows "sets_inv env d t" "env_ok env d t"
proof -
  obtain ids where t: "t = s \<or> overwrite (map ucast portlist) (fwd_ports_ids (fw s)) = Some ids \<and>
      t = s\<lparr>nb_cfg_ports := of_nat (length portlist),
            fw := (fw s)\<lparr>fwd_ports_ids := ids, g_nb_fwd_ports := of_nat (length portlist)\<rparr>\<rparr>"
    using assms(5) by (auto simp: set_fwd_ports_list_def Let_def bind_eq_Some_conv split: if_splits)
  then show "sets_inv env d t" using ports_kept [OF assms(1-4), of ids] assms(2) by auto
  show "env_ok env d t" using t assms(1) by (auto simp: env_ok_def overwrite_def split: if_splits)
qed

lemma set_fwd_lcores_list_kept:
  assumes "env_ok env d s" "sets_inv env d s" "distinct cs" "set_fwd_lcores_list env cs s = Some (r, t)"
  shows "sets_inv env d t" "env_ok env d t"
proof -
  obtain cpuids where t: "t = s \<or> list_all (lcore_usable env) cs \<and> overwrite cs (fwd_lcores_cpuids s) = Some cpuids \<and>
      t = s\<lparr>fwd_lcores_cpuids := cpuids, nb_cfg_lcores := of_nat (length cs), fw := (fw s)\<lparr>g_nb_fwd_lcores := of_nat (length cs)\<rparr>\<rparr>"
    using assms(4) by (auto simp: set_fwd_lcores_list_def bind_eq_Some_conv split: if_splits)
  show "sets_inv env d t"
  proof (cases "t = s")
    case False
    with t have a: "list_all (lcore_usable env) cs" by auto
    from cores_few [OF assms(1,3) a] have n: "length cs \<le> length (workers env)" "length cs < 2 ^ 8" by auto
    then have "unat (of_nat (length cs) :: u8) = length cs" by (simp add: take_bit_nat_eq_self unsigned_of_nat)
    with False t assms(2,3) n show ?thesis
      by (auto simp: sets_inv_def overwrite_def word_le_nat_alt split: if_splits)
  qed (use assms(2) in simp)
  show "env_ok env d t" using t assms(1) by (auto simp: env_ok_def overwrite_def split: if_splits)
qed

lemma ucast_back: "(ucast (ucast (p :: u16) :: u32) :: u16) = p"
  by (rule bit_word_eqI) (simp add: bit_simps)

lemma ucast_int: "(ucast (word_of_int x :: u32) :: u16) = word_of_int x"
  by (rule bit_word_eqI) (simp add: bit_simps)

lemma set_run_kept:
  assumes "env_ok env d s" "sets_inv env d s" "set_run env d c s = Some t"
  shows "sets_inv env d t \<and> env_ok env d t"
proof (cases c)
  case (CoreMask m)
  have "distinct (map of_nat (filter (bit m) [0..<64]) :: u32 list)"
    by (auto simp: distinct_map inj_on_def unsigned_of_nat take_bit_nat_eq_self word_unat_eq_iff)
  then show ?thesis
    using assms CoreMask set_fwd_lcores_list_kept [OF assms(1,2)] by (auto simp: set_fwd_lcores_mask_def split: if_splits)
next
  case (CoreNumber n)
  have le: "(ucast n :: u8) \<le> k" if "\<not> ucast k < n" for k :: u8
  proof -
    have "unat n \<le> unat k" using that by (simp add: word_less_nat_alt unsigned_ucast_eq take_bit_nat_eq_self less_trans [OF unsigned_less])
    moreover have "unat k < 2 ^ 8" using unsigned_less [of k] by simp
    ultimately show ?thesis by (simp add: word_le_nat_alt unsigned_ucast_eq take_bit_nat_eq_self)
  qed
  show ?thesis
    using assms CoreNumber le [of "nb_cfg_lcores s"]
    by (cases "n > ucast (nb_cfg_lcores s)") (auto simp: set_fwd_lcores_number_def sets_inv_def env_ok_def)
next
  case (PortMask m)
  have "map ucast (map ucast (filter P (eth_devs d)) :: u32 list) = filter P (eth_devs d)" for P
    by (simp add: o_def ucast_back)
  then show ?thesis
    using assms PortMask set_fwd_ports_list_kept [OF assms(1,2), of "map ucast (filter (\<lambda>p. bit m (unat p)) (eth_devs d))"]
    by (auto simp: set_fwd_ports_mask_def env_ok_def split: if_splits)
next
  case (PortNumber n)
  then show ?thesis
    using assms by (cases "n > nb_cfg_ports s") (auto simp: set_fwd_ports_number_def sets_inv_def env_ok_def not_less)
next
  case (PortList w)
  let ?v = "filter (\<lambda>p. word_of_int p \<in> set (eth_devs d)) (parse_port_list w RTE_MAX_ETHPORTS)"
  have f: "fits RTE_MAX_ETHPORTS (parse_port_list w RTE_MAX_ETHPORTS)" by (rule parse_port_list_fits)
  have m: "map ucast (map word_of_int ?v :: u32 list) = (map word_of_int ?v :: u16 list)"
    by (simp add: o_def ucast_int)
  have "inj_on (word_of_int :: int \<Rightarrow> u16) {0..<32}"
    by (rule inj_onI) (simp add: word_of_int_eq_iff take_bit_int_eq_self)
  then have "distinct (map word_of_int ?v :: u16 list)"
    using f by (auto simp: fits_def distinct_map intro: inj_on_subset)
  moreover have "set (map word_of_int ?v :: u16 list) \<subseteq> set (eth_devs d)" by auto
  moreover have "set_fwd_ports_list d (map word_of_int ?v) s = Some t"
    using assms(3) PortList by (auto simp: parse_fwd_portlist_def Let_def split: if_splits)
  ultimately show ?thesis
    using set_fwd_ports_list_kept [OF assms(1,2), of "map word_of_int ?v"] unfolding m by blast
qed

lemma set_script_kept:
  "set_script env d cs s = Some t \<Longrightarrow> env_ok env d s \<Longrightarrow> sets_inv env d s \<Longrightarrow> sets_inv env d t"
proof (induction cs arbitrary: s)
  case (Cons c cs)
  then obtain s1 where "set_run env d c s = Some s1" "set_script env d cs s1 = Some t" by (auto simp: bind_eq_Some_conv)
  with Cons set_run_kept show ?case by blast
qed simp

lemma default_lcores_cpus:
  "default_lcores env is (socks, cpus) = Some (socks', cpus') \<Longrightarrow> cpus' = cpus @ filter (lcore_usable env) is"
proof (induction "is" arbitrary: socks cpus)
  case (Cons i "is")
  show ?case
  proof (cases "rte_lcore_is_enabled env i")
    case True
    then obtain y where "default_lcores env is (y, if i = rte_get_main_lcore env then cpus else cpus @ [i]) = Some (socks', cpus')"
      using Cons.prems by (auto simp: bind_eq_Some_conv)
    from Cons.IH [OF this] True show ?thesis by (simp add: lcore_usable_def)
  next
    case False
    then show ?thesis using Cons by (simp add: lcore_usable_def)
  qed
qed simp

lemma default_config_inv:
  assumes "set_def_fwd_config env d s0 = Some s" "env_ok env d s0" "workers env \<noteq> []"
  shows "env_ok env d s \<and> sets_inv env d s"
proof -
  obtain s1 where s1: "set_default_fwd_lcores_config env s0 = Some s1"
    "set_default_fwd_ports_config d (set_def_peer_eth_addrs s1) = Some s"
    using assms(1) by (auto simp: set_def_fwd_config_def bind_eq_Some_conv)
  obtain socks cpus cpuids where c: "cpus = workers env" "overwrite cpus (fwd_lcores_cpuids s0) = Some cpuids"
    "s1 = s0\<lparr>fwd_lcores_cpuids := cpuids, nb_lcores := of_nat (length cpus), nb_cfg_lcores := of_nat (length cpus),
             fw := (fw s0)\<lparr>socket_ids := socks, g_nb_fwd_lcores := 1\<rparr>\<rparr>"
    using s1(1) default_lcores_cpus [of env "map of_nat [0..<RTE_MAX_LCORE]" "socket_ids (fw s0)" "[]"]
    by (auto simp: set_default_fwd_lcores_config_def bind_eq_Some_conv workers_def)
  obtain ids socks' where i: "overwrite (eth_devs d) (fwd_ports_ids (fw s0)) = Some ids"
    "s = (set_def_peer_eth_addrs s1)\<lparr>nb_cfg_ports := nb_ports (fw s0),
       fw := (fw s1)\<lparr>fwd_ports_ids := ids, socket_ids := socks', g_nb_fwd_ports := nb_ports (fw s0)\<rparr>\<rparr>"
    using s1(2) by (auto simp: set_default_fwd_ports_config_def bind_eq_Some_conv c(3) set_def_peer_eth_addrs_def)
  have e: "env_ok env d s"
    using assms(2) c(2,3) i by (auto simp: env_ok_def overwrite_def set_def_peer_eth_addrs_def split: if_splits)
  have w: "distinct (workers env)" "list_all (lcore_usable env) (workers env)"
    by (auto simp: workers_def list_all_iff distinct_map inj_on_def word_unat_eq_iff unsigned_of_nat take_bit_nat_eq_self intro!: distinct_filter)
  have "length (workers env) < 2 ^ 8" using cores_few(2) [OF assms(2) w] by simp
  then have u: "unat (of_nat (length (workers env)) :: u8) = length (workers env)" by (simp add: take_bit_nat_eq_self unsigned_of_nat)
  have n: "unat (of_nat (length (eth_devs d)) :: u16) = length (eth_devs d)"
    using devs_few [OF assms(2)] by (intro unat_u16) auto
  have "1 \<le> length (workers env)" using assms(3) by (cases "workers env") auto
  then have "sets_inv env d s"
    using assms(2) c i u n w by (auto simp: sets_inv_def env_ok_def overwrite_def set_def_peer_eth_addrs_def word_le_nat_alt split: if_splits)
  with e show ?thesis by blast
qed

text \<open>
  C17: The documented invariant of the forwarding sets holds after the defaults and after every script of commands that choose
  cores and ports by mask, by number or by a list: forwarding is at most configured is at most available, the configured
  ports are attached devices and the configured cores are usable, none twice.
\<close>

theorem forwarding_sets_invariant:
  assumes "env_ok env d s0" "workers env \<noteq> []"
    and "set_def_fwd_config env d s0 = Some s" "set_script env d cs s = Some t"
  shows "sets_inv env d t"
  using set_script_kept [OF assms(4)] default_config_inv [OF assms(3,1,2)] by blast

end
