(* ===== verification/FwdStart.thy ===== *)
theory FwdStart
  imports PortControl SharedRxq FwdSets
begin

text \<open>
  Starting and stopping the forwarding of packets (\<^verbatim>\<open>start_packet_forwarding\<close>, \<^verbatim>\<open>stop_packet_forwarding\<close> and what
  they use: \<^verbatim>\<open>common_fwd_stream_init\<close>, \<^verbatim>\<open>flush_fwd_rx_queues\<close>, \<^verbatim>\<open>fwd_stats_reset\<close>, \<^verbatim>\<open>launch_packet_forwarding\<close> of \<^verbatim>\<open>dpdk.cpp\<close>;
  \<^verbatim>\<open>set_pkt_forwarding_mode\<close> of \<^verbatim>\<open>config.c\<close>).  This is where the ports, the forwarding configuration, the check of
  shared queues and the queue states meet.  Both engines of the program set up streams with the common function and have
  no functions for the beginning and the end of a port.
\<close>

section \<open>Interface\<close>

text \<open>
  Receiving a burst and freeing it tells how many packets came; reading the clock takes time; the statistics of a port are
  read into a record that only the display functions use.
\<close>

record 'd fwd_api = "'d port_api" +
  rx_burst_free :: "u16 \<Rightarrow> nat \<Rightarrow> 'd \<Rightarrow> nat \<times> 'd"
  rte_rdtsc :: "'d \<Rightarrow> u64 \<times> 'd"
  rte_get_timer_hz :: u64
  rte_eth_stats_get :: "u16 \<Rightarrow> 'd \<Rightarrow> 'd"
  rte_eal_remote_launch :: "nat \<Rightarrow> u32 \<Rightarrow> 'd \<Rightarrow> int \<times> 'd"
  rte_eal_mp_wait_lcore :: "'d \<Rightarrow> 'd"
  rte_delay_ms :: "'d \<Rightarrow> 'd"
  this_lcore :: u32

record run_opts =
  interactive :: bool
  no_flush_rx :: bool
  share_capa :: u64

section \<open>Modes\<close>

definition fwd_engines :: "string list" where
  "fwd_engines = [''run_to_completion'', ''master_worker'']"

fun engine_index :: "string \<Rightarrow> string list \<Rightarrow> nat \<Rightarrow> nat option" where
  "engine_index name [] i = None"
| "engine_index name (e # es) i = (if e = name then Some i else engine_index name es (Suc i))"

definition set_pkt_forwarding_mode :: "string \<Rightarrow> fwd_st \<Rightarrow> fwd_st" where
  "set_pkt_forwarding_mode name f =
     (case engine_index name fwd_engines 0 of None \<Rightarrow> f | Some i \<Rightarrow> f\<lparr>cur_fwd_eng := i\<rparr>)"

section \<open>Streams\<close>

definition common_fwd_stream_init :: "'d st \<Rightarrow> fwd_stream \<Rightarrow> fwd_stream option" where
  "common_fwd_stream_init s fs = do {
     rp \<leftarrow> port_get s (rx_port fs);
     rx \<leftarrow> at (rxq_state rp) (unat (rx_queue fs));
     tp \<leftarrow> port_get s (tx_port fs);
     tx \<leftarrow> at (txq_state tp) (unat (tx_queue fs));
     Some (fs\<lparr>disabled := (rx = QUEUE_STATE_STOPPED \<or> tx = QUEUE_STATE_STOPPED)\<rparr>)
   }"

fun init_streams :: "'d st \<Rightarrow> nat list \<Rightarrow> fwd_st \<Rightarrow> fwd_st option" where
  "init_streams s [] f = Some f"
| "init_streams s (i # is) f = do {
     fs \<leftarrow> at (fwd_streams f) i;
     fs' \<leftarrow> common_fwd_stream_init s fs;
     init_streams s is (f\<lparr>fwd_streams := (fwd_streams f)[i := fs']\<rparr>)
   }"

definition clear_stream :: "fwd_stream \<Rightarrow> fwd_stream" where
  "clear_stream fs = fs\<lparr>rx_packets := 0, tx_packets := 0, fwd_dropped := 0, rx_bad_ip_csum := 0, rx_bad_l4_csum := 0,
     rx_bad_outer_l4_csum := 0, rx_bad_outer_ip_csum := 0, rx_burst_spread := map (\<lambda>_. 0) (rx_burst_spread fs),
     tx_burst_spread := map (\<lambda>_. 0) (tx_burst_spread fs), busy_cycles := 0\<rparr>"

definition fwd_stats_reset :: "('d, 'z) fwd_api_scheme \<Rightarrow> fwd_st \<Rightarrow> 'd st \<Rightarrow> (fwd_st \<times> 'd st) option" where
  "fwd_stats_reset api f s =
     (let n = unat (nb_fwd_ports (cur_fwd_config f)); m = unat (nb_fwd_streams (cur_fwd_config f)) in
      if n \<le> length (fwd_ports_ids f) \<and> m \<le> length (fwd_streams f)
      then Some (f\<lparr>fwd_streams := map clear_stream (take m (fwd_streams f)) @ drop m (fwd_streams f)\<rparr>,
                 s\<lparr>dev := fold (rte_eth_stats_get api) (take n (fwd_ports_ids f)) (dev s)\<rparr>)
      else None)"

section \<open>Flushing\<close>

text \<open>
  One queue is read until it is empty or a second has passed.  The time since the beginning is added
  in every round, and the loop may run for ever when the clock stands still: then there is no result.
\<close>

partial_function (option) drain_queue ::
  "('d, 'z) fwd_api_scheme \<Rightarrow> u16 \<Rightarrow> nat \<Rightarrow> u64 \<Rightarrow> u64 \<Rightarrow> 'd \<Rightarrow> 'd option" where
  "drain_queue api p q prev timer d =
     (case rx_burst_free api p q d of (n, d1) \<Rightarrow>
      (case rte_rdtsc api d1 of (cur, d2) \<Rightarrow>
        (let timer' = timer + (cur - prev) in
         if n > 0 \<and> timer' < rte_get_timer_hz api then drain_queue api p q prev timer' d2 else Some d2)))"

definition flush_queue :: "('d, 'z) fwd_api_scheme \<Rightarrow> u16 \<Rightarrow> nat \<Rightarrow> 'd st \<Rightarrow> 'd st option" where
  "flush_queue api p q s = do {
     port \<leftarrow> port_get s p;
     st \<leftarrow> at (rxq_state port) q;
     (if st = QUEUE_STATE_STOPPED then Some s
      else (case rte_rdtsc api (dev s) of (prev, d) \<Rightarrow>
              map_option (\<lambda>d'. s\<lparr>dev := d'\<rparr>) (drain_queue api p q prev 0 d)))
   }"

definition flush_round :: "('d, 'z) fwd_api_scheme \<Rightarrow> fwd_st \<Rightarrow> 'd st \<Rightarrow> 'd st option" where
  "flush_round api f s =
     (let n = unat (nb_fwd_ports (cur_fwd_config f)) in
      if n \<le> length (fwd_ports_ids f)
      then map_option (\<lambda>t. t\<lparr>dev := rte_delay_ms api (dev t)\<rparr>)
             (foreach (\<lambda>p. foreach (flush_queue api p) [0..<unat (nb_rxq f)]) (take n (fwd_ports_ids f)) s)
      else None)"

definition flush_fwd_rx_queues :: "('d, 'z) fwd_api_scheme \<Rightarrow> fwd_st \<Rightarrow> 'd st \<Rightarrow> 'd st option" where
  "flush_fwd_rx_queues api f s =
     (if num_procs f > 1 then Some s else do { s1 \<leftarrow> flush_round api f s; flush_round api f s1 })"

section \<open>Starting and stopping\<close>

text \<open>A core whose launch fails is reported and keeps its cleared flag.\<close>

fun launch_cores ::
  "('d, 'z) fwd_api_scheme \<Rightarrow> run_opts \<Rightarrow> nat list \<Rightarrow> sets \<times> 'd st \<Rightarrow> (sets \<times> 'd st) option" where
  "launch_cores api ro [] x = Some x"
| "launch_cores api ro (i # is) x = (case x of (g, s) \<Rightarrow> do {
     lc_id \<leftarrow> at (fwd_lcores_cpuids g) i;
     (if interactive ro \<and> lc_id = this_lcore api then launch_cores api ro is x
      else do {
        fc \<leftarrow> at (fwd_lcores (fw g)) i;
        (case rte_eal_remote_launch api i lc_id (dev s) of (diag, d) \<Rightarrow>
           launch_cores api ro is
             (g\<lparr>fw := (fw g)\<lparr>fwd_lcores := (fwd_lcores (fw g))[i := fc\<lparr>stopped := False\<rparr>]\<rparr>\<rparr>, s\<lparr>dev := d\<rparr>))
      })
   })"

definition launch_packet_forwarding ::
  "('d, 'z) fwd_api_scheme \<Rightarrow> run_opts \<Rightarrow> sets \<times> 'd st \<Rightarrow> (sets \<times> 'd st) option" where
  "launch_packet_forwarding api ro x =
     launch_cores api ro [0..<unat (nb_fwd_lcores (cur_fwd_config (fw (fst x))))] x"

text \<open>
  The forwarding configuration works on the array of ports and the attached devices of the program; it
  writes the sockets of the ports.
\<close>

definition with_ports :: "'d st \<Rightarrow> fwd_st \<Rightarrow> fwd_st" where
  "with_ports s f = f\<lparr>fwd_ports := ports s, fwd_devs := eth_devs s\<rparr>"

text \<open>The answer tells whether the cores were launched.\<close>

definition start_packet_forwarding ::
  "('d, 'z) fwd_api_scheme \<Rightarrow> ctl \<Rightarrow> run_opts \<Rightarrow> sets \<times> 'd st \<Rightarrow> (bool \<times> sets \<times> 'd st) option" where
  "start_packet_forwarding api c ro x = (case x of (g, s) \<Rightarrow>
     if nb_rxq (fw g) = 0 \<or> nb_txq (fw g) = 0 then None
     else do {
       started \<leftarrow> all_ports_started s;
       (if \<not> started then Some (False, g, s)
        else do {
          f1 \<leftarrow> fwd_config_setup (with_ports s (fw g));
          (ok, f2) \<leftarrow> pkt_fwd_shared_rxq_check (share_capa ro) f1;
          (let s1 = s\<lparr>ports := fwd_ports f2\<rparr> in
           if \<not> ok then Some (False, g\<lparr>fw := f2\<rparr>, s1)
           else do {
             s2 \<leftarrow> update_queue_state api c f2 RTE_PORT_ALL s1;
             f3 \<leftarrow> init_streams s2 [0..<unat (nb_fwd_streams (cur_fwd_config f2))] f2;
             s3 \<leftarrow> (if no_flush_rx ro then Some s2 else flush_fwd_rx_queues api f3 s2);
             (f4, s4) \<leftarrow> fwd_stats_reset api f3 s3;
             (g5, s5) \<leftarrow> launch_packet_forwarding api ro (g\<lparr>fw := f4\<rparr>, s4);
             Some (True, g5, s5)
           })
        })
     })"

text \<open>The display of the statistics at the end changes nothing.\<close>

definition stop_packet_forwarding :: "('d, 'z) fwd_api_scheme \<Rightarrow> sets \<times> 'd st \<Rightarrow> (sets \<times> 'd st) option" where
  "stop_packet_forwarding api x = (case x of (g, s) \<Rightarrow>
     (let n = unat (nb_fwd_lcores (cur_fwd_config (fw g))); ls = fwd_lcores (fw g) in
      if n \<le> length ls
      then Some (g\<lparr>fw := (fw g)\<lparr>fwd_lcores := map (\<lambda>l. l\<lparr>stopped := True\<rparr>) (take n ls) @ drop n ls\<rparr>\<rparr>,
                 s\<lparr>dev := rte_eal_mp_wait_lcore api (dev s)\<rparr>)
      else None))"

section \<open>The flush ends\<close>

text \<open>
  What is assumed of the clock: it shows a time that every reading moves on, and no call takes
  more than \<open>b\<close> ticks.
\<close>

definition clock_law :: "('d, 'z) fwd_api_scheme \<Rightarrow> ('d \<Rightarrow> nat) \<Rightarrow> nat \<Rightarrow> bool" where
  "clock_law api clock b \<longleftrightarrow>
     (\<forall>d. fst (rte_rdtsc api d) = of_nat (clock d) \<and> clock d < clock (snd (rte_rdtsc api d)) \<and>
        clock (snd (rte_rdtsc api d)) \<le> clock d + b) \<and>
     (\<forall>p q d. clock d \<le> clock (snd (rx_burst_free api p q d)) \<and> clock (snd (rx_burst_free api p q d)) \<le> clock d + b)"

lemma drain_returns:
  assumes law: "clock_law api clock b" and hz: "2 * b * unat (rte_get_timer_hz api) < 2 ^ 63"
  shows "c0 < clock d \<Longrightarrow> clock d \<le> c0 + (2 * unat timer + 1) * b \<Longrightarrow> timer < rte_get_timer_hz api \<Longrightarrow>
    \<exists>d'. drain_queue api p q (of_nat c0) timer d = Some d'"
proof (induction "unat (rte_get_timer_hz api) - unat timer" arbitrary: timer d rule: less_induct)
  case less
  let ?hz = "unat (rte_get_timer_hz api)"
  obtain n d1 where r: "rx_burst_free api p q d = (n, d1)" by fastforce
  obtain cur d2 where t: "rte_rdtsc api d1 = (cur, d2)" by fastforce
  have c1: "clock d \<le> clock d1" "clock d1 \<le> clock d + b" using law r unfolding clock_law_def by (metis snd_conv)+
  have c2: "cur = of_nat (clock d1)" "clock d1 < clock d2" "clock d2 \<le> clock d1 + b"
    using law t unfolding clock_law_def by (metis fst_conv snd_conv)+
  define diff where "diff = clock d1 - c0"
  have tm: "unat timer < ?hz" using less.prems(3) by (simp add: word_less_nat_alt)
  have "0 < b" using c2(2,3) by simp
  have "diff \<le> (2 * unat timer + 2) * b" using less.prems(2) c1(2) by (simp add: diff_def algebra_simps)
  also have "\<dots> \<le> 2 * b * ?hz" using tm by (simp add: algebra_simps) (metis Suc_leI add_mult_distrib2 mult.commute mult_Suc_right mult_le_mono2)
  finally have small: "diff < 2 ^ 63" using hz by linarith
  have "?hz < 2 ^ 63" using hz \<open>0 < b\<close> by (metis (no_types) le_less_trans mult_le_mono2 nat_mult_1_right mult.commute mult_1 Suc_leI One_nat_def mult_le_mono one_le_numeral)
  have pos: "0 < diff" using less.prems(1) c1(1) by (simp add: diff_def)
  have "cur - of_nat c0 = of_nat diff"
    using less.prems(1) c1(1) by (simp add: c2(1) diff_def of_nat_diff)
  then have "unat (timer + (cur - of_nat c0)) = unat timer + diff"
    using small tm \<open>?hz < 2 ^ 63\<close> by (simp add: unat_word_ariths unsigned_of_nat take_bit_nat_eq_self)
  note tm' = this
  show ?case
  proof (cases "n > 0 \<and> timer + (cur - of_nat c0) < rte_get_timer_hz api")
    case True
    have "clock d2 \<le> c0 + (2 * unat (timer + (cur - of_nat c0)) + 1) * b"
    proof -
      have "clock d2 \<le> c0 + (2 * unat timer + 3) * b" using less.prems(2) c1(2) c2(3) by (simp add: algebra_simps)
      also have "\<dots> \<le> c0 + (2 * (unat timer + diff) + 1) * b" using pos by (intro add_left_mono mult_right_mono) auto
      finally show ?thesis by (simp only: tm')
    qed
    moreover have "?hz - unat (timer + (cur - of_nat c0)) < ?hz - unat timer" using tm tm' pos by simp
    moreover have "c0 < clock d2" using less.prems(1) c1(1) c2(2) by simp
    ultimately obtain d' where "drain_queue api p q (of_nat c0) (timer + (cur - of_nat c0)) d2 = Some d'"
      using less.hyps True by blast
    then show ?thesis using True by (subst drain_queue.simps) (simp add: r t Let_def)
  next
    case False
    then show ?thesis by (subst drain_queue.simps) (auto simp add: r t Let_def)
  qed
qed

lemma flush_queue_returns:
  assumes "clock_law api clock b" "2 * b * unat (rte_get_timer_hz api) < 2 ^ 63" "0 < rte_get_timer_hz api"
    "port_get s p = Some port" "q < length (rxq_state port)"
  shows "\<exists>d. flush_queue api p q s = Some (s\<lparr>dev := d\<rparr>)"
proof (cases "rxq_state port ! q = QUEUE_STATE_STOPPED")
  case True
  then show ?thesis using assms(4,5) by (intro exI [of _ "dev s"]) (simp add: flush_queue_def at_def)
next
  case False
  obtain prev d where t: "rte_rdtsc api (dev s) = (prev, d)" by fastforce
  have "prev = of_nat (clock (dev s))" "clock (dev s) < clock d" "clock d \<le> clock (dev s) + b"
    using assms(1) t unfolding clock_law_def by (metis fst_conv snd_conv)+
  with drain_returns [OF assms(1,2), of "clock (dev s)" d 0] assms(3)
  obtain d' where "drain_queue api p q prev 0 d = Some d'" by auto
  with False assms(4,5) t have "flush_queue api p q s = Some (s\<lparr>dev := d'\<rparr>)" by (simp add: flush_queue_def at_def)
  then show ?thesis by blast
qed

lemma foreach_dev:
  assumes "\<And>x s. x \<in> set xs \<Longrightarrow> ports s = ps \<Longrightarrow> \<exists>d. f x s = Some (s\<lparr>dev := d\<rparr>)" "ports s = ps"
  shows "\<exists>d. foreach f xs s = Some (s\<lparr>dev := d\<rparr>)"
  using assms
proof (induction xs arbitrary: s)
  case Nil
  have "foreach f [] s = Some (s\<lparr>dev := dev s\<rparr>)" by simp
  then show ?case by blast
next
  case (Cons x xs)
  obtain d where d: "f x s = Some (s\<lparr>dev := d\<rparr>)" using Cons.prems by (metis list.set_intros(1))
  obtain d' where "foreach f xs (s\<lparr>dev := d\<rparr>) = Some (s\<lparr>dev := d\<rparr>\<lparr>dev := d'\<rparr>)"
    using Cons.IH [of "s\<lparr>dev := d\<rparr>"] Cons.prems by (metis list.set_intros(2) st.select_convs(1) st.surjective st.update_convs(8))
  with d have "foreach f (x # xs) s = Some (s\<lparr>dev := d'\<rparr>)" by simp
  then show ?case by blast
qed

text \<open>The forwarding ports exist and have a state for every receive queue in use.\<close>

definition queues_known :: "fwd_st \<Rightarrow> 'd st \<Rightarrow> bool" where
  "queues_known f s \<longleftrightarrow> unat (nb_fwd_ports (cur_fwd_config f)) \<le> length (fwd_ports_ids f) \<and>
     (\<forall>p \<in> set (take (unat (nb_fwd_ports (cur_fwd_config f))) (fwd_ports_ids f)).
        \<exists>port. port_get s p = Some port \<and> unat (nb_rxq f) \<le> length (rxq_state port))"

lemma flush_round_returns:
  assumes "clock_law api clock b" "2 * b * unat (rte_get_timer_hz api) < 2 ^ 63" "0 < rte_get_timer_hz api" "queues_known f s"
  shows "\<exists>d. flush_round api f s = Some (s\<lparr>dev := d\<rparr>)"
proof -
  let ?ps = "take (unat (nb_fwd_ports (cur_fwd_config f))) (fwd_ports_ids f)"
  have one: "\<exists>d. foreach (flush_queue api p) [0..<unat (nb_rxq f)] s1 = Some (s1\<lparr>dev := d\<rparr>)"
    if p: "p \<in> set ?ps" and s1: "ports s1 = ports s" for p s1
  proof -
    obtain port where port: "port_get s p = Some port" "unat (nb_rxq f) \<le> length (rxq_state port)"
      using assms(4) p by (auto simp: queues_known_def)
    have "\<exists>d. flush_queue api p q s2 = Some (s2\<lparr>dev := d\<rparr>)" if "q \<in> set [0..<unat (nb_rxq f)]" "ports s2 = ports s" for q s2
      using flush_queue_returns [OF assms(1-3), of s2 p port q] port port_get_cong [OF that(2)] that(1) by simp
    then show ?thesis using foreach_dev [of "[0..<unat (nb_rxq f)]" "ports s" "flush_queue api p" s1] s1 by blast
  qed
  obtain d where d: "foreach (\<lambda>p. foreach (flush_queue api p) [0..<unat (nb_rxq f)]) ?ps s = Some (s\<lparr>dev := d\<rparr>)"
    using foreach_dev [of ?ps "ports s" "\<lambda>p. foreach (flush_queue api p) [0..<unat (nb_rxq f)]" s] one by blast
  have "flush_round api f s = Some (s\<lparr>dev := rte_delay_ms api d\<rparr>)"
    using assms(4) d by (simp add: flush_round_def queues_known_def Let_def)
  then show ?thesis by blast
qed


section \<open>The plan is carried out\<close>

text \<open>The plan of the forwarding: which stream polls which queue and which core runs which streams.\<close>

definition same_plan :: "fwd_st \<Rightarrow> fwd_st \<Rightarrow> bool" where
  "same_plan f t \<longleftrightarrow> cur_fwd_config t = cur_fwd_config f \<and> fwd_ports_ids t = fwd_ports_ids f \<and>
     length (fwd_lcores t) = length (fwd_lcores f) \<and> length (fwd_streams t) = length (fwd_streams f) \<and>
     (\<forall>k < length (fwd_lcores f). stream_idx (fwd_lcores t ! k) = stream_idx (fwd_lcores f ! k) \<and>
        stream_nb (fwd_lcores t ! k) = stream_nb (fwd_lcores f ! k)) \<and>
     (\<forall>i < length (fwd_streams f). rx_port (fwd_streams t ! i) = rx_port (fwd_streams f ! i) \<and>
        rx_queue (fwd_streams t ! i) = rx_queue (fwd_streams f ! i) \<and>
        tx_port (fwd_streams t ! i) = tx_port (fwd_streams f ! i) \<and> tx_queue (fwd_streams t ! i) = tx_queue (fwd_streams f ! i))"

lemma same_plan_refl [simp]: "same_plan f f"
  by (simp add: same_plan_def)

lemma same_plan_trans [trans]: "same_plan f g \<Longrightarrow> same_plan g h \<Longrightarrow> same_plan f h"
  by (simp add: same_plan_def)

lemma check_streams_plan: "check_streams b lc rest is s = Some (ok, t) \<Longrightarrow> same_plan s t \<and> fwd_ports t = fwd_ports s"
proof (induction "is" arbitrary: s)
  case (Cons i "is")
  from Cons.prems obtain s1 where s1: "set_stream i (\<lambda>fs. fs\<lparr>fs_lcore := Some lc\<rparr>) s = Some s1"
    and t: "t = s1 \<or> check_streams b lc rest is s1 = Some (ok, t)"
    by (auto simp: bind_eq_Some_conv split: option.splits if_splits)
  have "same_plan s s1 \<and> fwd_ports s1 = fwd_ports s"
    using s1 by (auto simp: set_stream_def same_plan_def nth_list_update split: if_splits)
  with t Cons.IH show ?case by (auto intro: same_plan_trans)
qed simp

lemma check_lcores_plan: "check_lcores b lcs s = Some (ok, t) \<Longrightarrow> same_plan s t \<and> fwd_ports t = fwd_ports s"
proof (induction lcs arbitrary: s)
  case (Cons lc lcs)
  from Cons.prems obtain "is" ok1 s1 where "check_streams b lc lcs is s = Some (ok1, s1)"
    "(if ok1 then check_lcores b lcs s1 else Some (False, s1)) = Some (ok, t)"
    by (auto split: Option.bind_splits)
  with check_streams_plan Cons.IH show ?case by (cases ok1) (fastforce intro: same_plan_trans)+
qed simp

lemma shared_check_plan:
  "pkt_fwd_shared_rxq_check b s = Some (ok, t) \<Longrightarrow> same_plan s t \<and> fwd_ports t = fwd_ports s"
  using check_lcores_plan by (auto simp: pkt_fwd_shared_rxq_check_def split: if_splits)

lemma stream_init_plan: "common_fwd_stream_init s fs = Some fs' \<Longrightarrow> \<exists>b. fs' = fs\<lparr>disabled := b\<rparr>"
  by (auto simp: common_fwd_stream_init_def bind_eq_Some_conv)

lemma init_streams_plan:
  "init_streams s is f = Some t \<Longrightarrow> distinct is \<Longrightarrow> same_plan f t \<and>
    (\<forall>i \<in> set is. i < length (fwd_streams f) \<and> common_fwd_stream_init s (fwd_streams f ! i) = Some (fwd_streams t ! i)) \<and>
    (\<forall>i. i \<notin> set is \<longrightarrow> fwd_streams t ! i = fwd_streams f ! i)"
proof (induction "is" arbitrary: f)
  case (Cons i "is")
  from Cons.prems(1) obtain fs' where i: "i < length (fwd_streams f)"
    and fs': "common_fwd_stream_init s (fwd_streams f ! i) = Some fs'"
    and t: "init_streams s is (f\<lparr>fwd_streams := (fwd_streams f)[i := fs']\<rparr>) = Some t"
    by (auto simp: bind_eq_Some_conv at_def split: if_splits)
  let ?f = "f\<lparr>fwd_streams := (fwd_streams f)[i := fs']\<rparr>"
  have p: "same_plan f ?f"
    using stream_init_plan [OF fs'] i by (auto simp: same_plan_def nth_list_update)
  have ih: "same_plan ?f t" "\<forall>j \<in> set is. j < length (fwd_streams ?f) \<and> common_fwd_stream_init s (fwd_streams ?f ! j) = Some (fwd_streams t ! j)"
    "\<forall>j. j \<notin> set is \<longrightarrow> fwd_streams t ! j = fwd_streams ?f ! j"
    using Cons.IH [OF t] Cons.prems(2) by auto
  have ne: "j \<noteq> i" if "j \<in> set is" for j using that Cons.prems(2) by auto
  have "common_fwd_stream_init s (fwd_streams f ! j) = Some (fwd_streams t ! j)" if "j \<in> set is" for j
    using bspec [OF ih(2) that] ne [OF that] by simp
  then show ?case
    using same_plan_trans [OF p ih(1)] ih(2,3) i fs' Cons.prems(2) by auto
qed simp

lemma stats_reset_plan:
  assumes "fwd_stats_reset api f s = Some (f', t)"
  shows "same_plan f f' \<and> (\<exists>d. t = s\<lparr>dev := d\<rparr>) \<and>
    (\<forall>i < unat (nb_fwd_streams (cur_fwd_config f)). i < length (fwd_streams f) \<and> fwd_streams f' ! i = clear_stream (fwd_streams f ! i)) \<and>
    fwd_lcores f' = fwd_lcores f"
  using assms
  by (auto simp: fwd_stats_reset_def same_plan_def Let_def clear_stream_def nth_append split: if_splits)

lemma launch_cores_plan:
  "launch_cores api ro is (g, s) = Some (g', t) \<Longrightarrow> \<not> interactive ro \<Longrightarrow>
    same_plan (fw g) (fw g') \<and> (\<exists>d. t = s\<lparr>dev := d\<rparr>) \<and> fwd_streams (fw g') = fwd_streams (fw g) \<and>
    (\<forall>k. k \<in> set is \<or> \<not> stopped (fwd_lcores (fw g) ! k) \<longrightarrow> \<not> stopped (fwd_lcores (fw g') ! k)) \<and>
    (\<forall>k \<in> set is. k < length (fwd_lcores (fw g)))"
proof (induction "is" arbitrary: g s)
  case Nil
  have "t = s\<lparr>dev := dev s\<rparr>" using Nil by simp
  with Nil show ?case by (metis launch_cores.simps(1) option.inject prod.inject same_plan_refl emptyE list.set(1))
next
  case (Cons i "is")
  from Cons.prems obtain lc_id d where i: "i < length (fwd_lcores (fw g))"
    and n: "launch_cores api ro is (g\<lparr>fw := (fw g)\<lparr>fwd_lcores := (fwd_lcores (fw g))[i := (fwd_lcores (fw g) ! i)\<lparr>stopped := False\<rparr>]\<rparr>\<rparr>,
        s\<lparr>dev := d\<rparr>) = Some (g', t)"
    by (auto simp: bind_eq_Some_conv at_def split: if_splits prod.splits)
  let ?g = "g\<lparr>fw := (fw g)\<lparr>fwd_lcores := (fwd_lcores (fw g))[i := (fwd_lcores (fw g) ! i)\<lparr>stopped := False\<rparr>]\<rparr>\<rparr>"
  have p: "same_plan (fw g) (fw ?g)" using i by (auto simp: same_plan_def nth_list_update)
  have st: "\<not> stopped (fwd_lcores (fw ?g) ! k)" if "k = i \<or> \<not> stopped (fwd_lcores (fw g) ! k)" for k
    using that i by (cases "k = i") auto
  from Cons.IH [OF n Cons.prems(2)] same_plan_trans [OF p] st i show ?case by auto
qed

lemma foreach_frame:
  assumes "\<And>x s t. f x s = Some t \<Longrightarrow> \<exists>d. t = s\<lparr>dev := d\<rparr>"
  shows "foreach f xs s = Some t \<Longrightarrow> \<exists>d. t = s\<lparr>dev := d\<rparr>"
proof (induction xs arbitrary: s)
  case Nil
  then have "t = s\<lparr>dev := dev s\<rparr>" by simp
  then show ?case by blast
next
  case (Cons x xs)
  then obtain s1 where "f x s = Some s1" "foreach f xs s1 = Some t" by (auto simp: bind_eq_Some_conv)
  with Cons.IH [of s1] assms [of x s s1] show ?case by auto
qed

lemma flush_frame:
  assumes "flush_fwd_rx_queues api f s = Some t"
  shows "\<exists>d. t = s\<lparr>dev := d\<rparr>"
proof -
  have q: "flush_queue api p q s = Some t \<Longrightarrow> \<exists>d. t = s\<lparr>dev := d\<rparr>" for p q s t
    by (auto simp: flush_queue_def bind_eq_Some_conv split: if_splits prod.splits intro: exI [of _ "dev s"])
  have "foreach (flush_queue api p) qs s = Some t \<Longrightarrow> \<exists>d. t = s\<lparr>dev := d\<rparr>" for p qs s t
    by (rule foreach_frame [OF q])
  then have "foreach (\<lambda>p. foreach (flush_queue api p) qs) ps s = Some t \<Longrightarrow> \<exists>d. t = s\<lparr>dev := d\<rparr>" for ps qs s t
    by (rule foreach_frame)
  then have "flush_round api f s = Some t \<Longrightarrow> \<exists>d. t = s\<lparr>dev := d\<rparr>" for s t
    by (fastforce simp: flush_round_def Let_def split: if_splits)
  note r = this
  show ?thesis
  proof (cases "num_procs f > 1")
    case True
    with assms have "t = s\<lparr>dev := dev s\<rparr>" by (simp add: flush_fwd_rx_queues_def)
    then show ?thesis by blast
  next
    case False
    with assms obtain s1 where "flush_round api f s = Some s1" "flush_round api f s1 = Some t"
      by (auto simp: flush_fwd_rx_queues_def bind_eq_Some_conv)
    with r [of s s1] r [of s1 t] show ?thesis by auto
  qed
qed

lemma stream_init_again:
  "common_fwd_stream_init s fs = Some fs' \<Longrightarrow> common_fwd_stream_init s fs' = Some fs'"
  by (auto simp: common_fwd_stream_init_def bind_eq_Some_conv)

lemma stream_init_clear:
  assumes "common_fwd_stream_init s fs = Some fs" "ports t = ports s"
  shows "common_fwd_stream_init t (clear_stream fs) = Some (clear_stream fs)"
proof -
  have "port_get t p = port_get s p" for p by (rule port_get_cong [OF assms(2)])
  then have "common_fwd_stream_init t (clear_stream fs) = map_option clear_stream (common_fwd_stream_init s fs)"
    by (simp add: common_fwd_stream_init_def clear_stream_def split: Option.bind_splits)
  with assms(1) show ?thesis by simp
qed

text \<open>The steps of a start that launched the cores.\<close>

lemma start_steps:
  assumes "start_packet_forwarding api c ro (g, s) = Some (True, g', s')"
  shows "\<exists>f1 ok f2 s2 f3 s3 f4 s4. all_ports_started s = Some True \<and>
    fwd_config_setup (with_ports s (fw g)) = Some f1 \<and> pkt_fwd_shared_rxq_check (share_capa ro) f1 = Some (ok, f2) \<and>
    init_streams s2 [0..<unat (nb_fwd_streams (cur_fwd_config f2))] f2 = Some f3 \<and>
    (if no_flush_rx ro then Some s2 else flush_fwd_rx_queues api f3 s2) = Some s3 \<and>
    fwd_stats_reset api f3 s3 = Some (f4, s4) \<and> launch_packet_forwarding api ro (g\<lparr>fw := f4\<rparr>, s4) = Some (g', s')"
proof -
  have q: "\<not> (nb_rxq (fw g) = 0 \<or> nb_txq (fw g) = 0)"
    using assms by (cases "nb_rxq (fw g) = 0 \<or> nb_txq (fw g) = 0") (simp_all add: start_packet_forwarding_def)
  obtain st where st: "all_ports_started s = Some st"
    using assms q by (auto simp: start_packet_forwarding_def bind_eq_Some_conv)
  have st': "st" using assms q st by (cases st) (simp_all add: start_packet_forwarding_def)
  obtain f1 ok f2 where f: "fwd_config_setup (with_ports s (fw g)) = Some f1" "pkt_fwd_shared_rxq_check (share_capa ro) f1 = Some (ok, f2)"
    using assms q st st' by (auto simp: start_packet_forwarding_def bind_eq_Some_conv)
  have ok: "ok" using assms q st st' f by (cases ok) (simp_all add: start_packet_forwarding_def Let_def)
  from assms q st st' f ok obtain s2 f3 s3 f4 s4 where
    "init_streams s2 [0..<unat (nb_fwd_streams (cur_fwd_config f2))] f2 = Some f3"
    "(if no_flush_rx ro then Some s2 else flush_fwd_rx_queues api f3 s2) = Some s3"
    "fwd_stats_reset api f3 s3 = Some (f4, s4)" "launch_packet_forwarding api ro (g\<lparr>fw := f4\<rparr>, s4) = Some (g', s')"
    by (simp add: start_packet_forwarding_def Let_def bind_eq_Some_conv) blast
  with st st' f show ?thesis by metis
qed

lemma start_runs_plan:
  assumes "start_packet_forwarding api c ro (g, s) = Some (True, g', s')" "\<not> interactive ro"
  shows "all_ports_started s = Some True \<and>
    (\<exists>f1. fwd_config_setup (with_ports s (fw g)) = Some f1 \<and> same_plan f1 (fw g') \<and>
       unat (nb_fwd_streams (cur_fwd_config f1)) \<le> length (fwd_streams f1) \<and> unat (nb_fwd_lcores (cur_fwd_config f1)) \<le> length (fwd_lcores f1)) \<and>
    (\<forall>k < unat (nb_fwd_lcores (cur_fwd_config (fw g'))). \<not> stopped (fwd_lcores (fw g') ! k)) \<and>
    (\<forall>i < unat (nb_fwd_streams (cur_fwd_config (fw g'))).
       rx_packets (fwd_streams (fw g') ! i) = 0 \<and> tx_packets (fwd_streams (fw g') ! i) = 0 \<and> fwd_dropped (fwd_streams (fw g') ! i) = 0 \<and>
       common_fwd_stream_init s' (fwd_streams (fw g') ! i) = Some (fwd_streams (fw g') ! i))"
proof -
  from assms(1) obtain f1 ok f2 s2 f3 s3 f4 s4 where
    st: "all_ports_started s = Some True"
    and f1: "fwd_config_setup (with_ports s (fw g)) = Some f1"
    and f2: "pkt_fwd_shared_rxq_check (share_capa ro) f1 = Some (ok, f2)"
    and f3: "init_streams s2 [0..<unat (nb_fwd_streams (cur_fwd_config f2))] f2 = Some f3"
    and s3: "(if no_flush_rx ro then Some s2 else flush_fwd_rx_queues api f3 s2) = Some s3"
    and f4: "fwd_stats_reset api f3 s3 = Some (f4, s4)"
    and l: "launch_packet_forwarding api ro (g\<lparr>fw := f4\<rparr>, s4) = Some (g', s')"
    using start_steps [OF assms(1)] by blast
  have p2: "same_plan f1 f2" using shared_check_plan [OF f2] by simp
  have p3: "same_plan f2 f3" and i3: "\<And>i. i < unat (nb_fwd_streams (cur_fwd_config f2)) \<Longrightarrow>
      i < length (fwd_streams f2) \<and> common_fwd_stream_init s2 (fwd_streams f2 ! i) = Some (fwd_streams f3 ! i)"
    using init_streams_plan [OF f3] by auto
  have p4: "same_plan f3 f4" and d4: "\<exists>d. s4 = s3\<lparr>dev := d\<rparr>" and c4: "\<And>i. i < unat (nb_fwd_streams (cur_fwd_config f3)) \<Longrightarrow>
      fwd_streams f4 ! i = clear_stream (fwd_streams f3 ! i)"
    using stats_reset_plan [OF f4] by auto
  have p5: "same_plan f4 (fw g')" and d5: "\<exists>d. s' = s4\<lparr>dev := d\<rparr>" and e5: "fwd_streams (fw g') = fwd_streams f4"
    and r5: "\<And>k. k < unat (nb_fwd_lcores (cur_fwd_config f4)) \<Longrightarrow> \<not> stopped (fwd_lcores (fw g') ! k)"
    and b5: "\<And>k. k < unat (nb_fwd_lcores (cur_fwd_config f4)) \<Longrightarrow> k < length (fwd_lcores f4)"
    using launch_cores_plan [OF l [unfolded launch_packet_forwarding_def] assms(2)] by auto
  have d3: "\<exists>d. s3 = s2\<lparr>dev := d\<rparr>"
    using s3 flush_frame [of api f3 s2 s3] by (cases "no_flush_rx ro") (auto intro: exI [of _ "dev s2"])
  have conf: "cur_fwd_config f2 = cur_fwd_config (fw g')" "cur_fwd_config f3 = cur_fwd_config (fw g')" "cur_fwd_config f4 = cur_fwd_config (fw g')"
    using p3 p4 p5 by (simp_all add: same_plan_def)
  have ports: "ports s' = ports s2" using d3 d4 d5 by auto
  have "rx_packets (fwd_streams (fw g') ! i) = 0 \<and> tx_packets (fwd_streams (fw g') ! i) = 0 \<and> fwd_dropped (fwd_streams (fw g') ! i) = 0 \<and>
      common_fwd_stream_init s' (fwd_streams (fw g') ! i) = Some (fwd_streams (fw g') ! i)"
    if "i < unat (nb_fwd_streams (cur_fwd_config (fw g')))" for i
  proof -
    have e: "fwd_streams (fw g') ! i = clear_stream (fwd_streams f3 ! i)" using c4 [of i] that e5 conf by simp
    have "common_fwd_stream_init s2 (fwd_streams f2 ! i) = Some (fwd_streams f3 ! i)" using i3 [of i] that conf by simp
    then have "common_fwd_stream_init s2 (fwd_streams f3 ! i) = Some (fwd_streams f3 ! i)"
      by (rule stream_init_again)
    then have "common_fwd_stream_init s' (clear_stream (fwd_streams f3 ! i)) = Some (clear_stream (fwd_streams f3 ! i))"
      using stream_init_clear ports by blast
    then show ?thesis by (simp add: e clear_stream_def)
  qed
  moreover have "same_plan f1 (fw g')" using p2 p3 p4 p5 by (blast intro: same_plan_trans)
  moreover have len: "unat (nb_fwd_streams (cur_fwd_config f2)) \<le> length (fwd_streams f2)" "unat (nb_fwd_lcores (cur_fwd_config f4)) \<le> length (fwd_lcores f4)"
    using i3 b5 by (meson not_le order_less_irrefl)+
  moreover have eqs: "cur_fwd_config f1 = cur_fwd_config f2" "cur_fwd_config f1 = cur_fwd_config f4"
    "length (fwd_streams f1) = length (fwd_streams f2)" "length (fwd_lcores f1) = length (fwd_lcores f4)"
    using p2 p3 p4 by (simp_all add: same_plan_def)
  moreover have "unat (nb_fwd_streams (cur_fwd_config f1)) \<le> length (fwd_streams f1)" "unat (nb_fwd_lcores (cur_fwd_config f1)) \<le> length (fwd_lcores f1)"
    using len eqs by metis+
  ultimately show ?thesis using st f1 r5 conf by auto
qed


section \<open>A refused start, and stopping\<close>

lemma assign_lcores_stopped: "assign_lcores n i sm nb ls = Some (sm', ls') \<Longrightarrow> map stopped ls' = map stopped ls"
proof (induction n arbitrary: i sm ls)
  case (Suc n)
  have "map stopped (ls[i := (ls ! i)\<lparr>stream_idx := sm, stream_nb := nb\<rparr>]) = map stopped ls"
    by (cases "i < length ls") (auto simp: nth_list_update list_update_beyond split: if_splits intro!: nth_equalityI)
  with Suc show ?case by (auto split: if_splits)
qed simp

lemma setup_lcores_stopped: "setup_lcores f = Some f' \<Longrightarrow> map stopped (fwd_lcores f') = map stopped (fwd_lcores f)"
  by (auto simp: setup_lcores_def setup_fwd_config_of_each_lcore_def Let_def bind_eq_Some_conv dest!: assign_lcores_stopped
    split: if_splits)

lemma init_ports_lcores: "init_ports ps f = Some (ok, f') \<Longrightarrow> fwd_lcores f' = fwd_lcores f"
proof (induction ps arbitrary: f)
  case (Cons p ps)
  then show ?case by (fastforce simp: Let_def bind_eq_Some_conv split: if_splits)
qed simp

lemma init_fwd_streams_lcores: "init_fwd_streams f = Some (rc, f') \<Longrightarrow> fwd_lcores f' = fwd_lcores f"
  by (auto simp: init_fwd_streams_def Let_def bind_eq_Some_conv dest!: init_ports_lcores split: if_splits)

lemma set_stream_lcores: "set_stream i u f = Some f' \<Longrightarrow> fwd_lcores f' = fwd_lcores f"
  by (auto simp: set_stream_def split: if_splits)

lemma rss_loop_lcores: "rss_loop a b n sm p q f = Some f' \<Longrightarrow> fwd_lcores f' = fwd_lcores f"
proof (induction n arbitrary: sm p q f)
  case (Suc n)
  then show ?case by (fastforce simp: Let_def bind_eq_Some_conv dest!: set_stream_lcores split: if_splits)
qed simp

lemma simple_loop_lcores: "simple_loop n i f = Some f' \<Longrightarrow> fwd_lcores f' = fwd_lcores f"
proof (induction n arbitrary: i f)
  case (Suc n)
  then show ?case by (fastforce simp: bind_eq_Some_conv dest!: set_stream_lcores)
qed simp

lemma fwd_config_setup_stopped:
  assumes "fwd_config_setup f = Some f'"
  shows "map stopped (fwd_lcores f') = map stopped (fwd_lcores f)"
  using assms
  by (auto simp: fwd_config_setup_def rss_fwd_config_setup_def simple_fwd_config_setup_def Let_def bind_eq_Some_conv
    dest!: init_fwd_streams_lcores setup_lcores_stopped rss_loop_lcores simple_loop_lcores split: if_splits)

lemma shared_check_lcores: "pkt_fwd_shared_rxq_check b f = Some (ok, f') \<Longrightarrow> fwd_lcores f' = fwd_lcores f"
  using check_lcores_spec by (fastforce simp: pkt_fwd_shared_rxq_check_def same_keys_def split: if_splits)

text \<open>
  A start that is refused, because a port is not started or two cores would poll the same shared queue, touches neither the
  device nor a running core, and a stop leaves every core of the plan stopped.
\<close>

theorem refused_start_and_stop:
  "(start_packet_forwarding api c ro (g, s) = Some (False, g', s') \<longrightarrow>
      dev s' = dev s \<and> map stopped (fwd_lcores (fw g')) = map stopped (fwd_lcores (fw g))) \<and>
   (stop_packet_forwarding api (g, s) = Some (g', s') \<longrightarrow>
      (\<forall>k < unat (nb_fwd_lcores (cur_fwd_config (fw g'))). stopped (fwd_lcores (fw g') ! k)) \<and> same_plan (fw g) (fw g'))"
proof (intro conjI impI)
  assume a: "start_packet_forwarding api c ro (g, s) = Some (False, g', s')"
  have "g' = g \<and> s' = s \<or> (\<exists>f1 f2. fwd_config_setup (with_ports s (fw g)) = Some f1 \<and>
      pkt_fwd_shared_rxq_check (share_capa ro) f1 = Some (False, f2) \<and> g' = g\<lparr>fw := f2\<rparr> \<and> s' = s\<lparr>ports := fwd_ports f2\<rparr>)"
    using a by (auto simp: start_packet_forwarding_def Let_def bind_eq_Some_conv split: if_split_asm)
  then show "dev s' = dev s" "map stopped (fwd_lcores (fw g')) = map stopped (fwd_lcores (fw g))"
    by (auto dest!: fwd_config_setup_stopped shared_check_lcores simp: with_ports_def)
next
  assume a: "stop_packet_forwarding api (g, s) = Some (g', s')"
  let ?n = "unat (nb_fwd_lcores (cur_fwd_config (fw g)))" and ?ls = "fwd_lcores (fw g)"
  have g': "?n \<le> length ?ls" "g' = g\<lparr>fw := (fw g)\<lparr>fwd_lcores := map (\<lambda>l. l\<lparr>stopped := True\<rparr>) (take ?n ?ls) @ drop ?n ?ls\<rparr>\<rparr>"
    using a by (auto simp: stop_packet_forwarding_def Let_def split: if_splits)
  then show "\<forall>k < unat (nb_fwd_lcores (cur_fwd_config (fw g'))). stopped (fwd_lcores (fw g') ! k)"
    by (auto simp: nth_append)
  show "same_plan (fw g) (fw g')" using g' by (auto simp: same_plan_def nth_append)
qed

end
