(* ===== verification/RunWitnesses.thy ===== *)
theory RunWitnesses
  imports PortWitnesses FwdStart
begin

text \<open>
  The properties of \<^verbatim>\<open>FwdSets\<close> and \<^verbatim>\<open>FwdStart\<close> applied to concrete states.  The clock of the simulated device is the length of
  its list of aged rules, which grows with every reading; its queues are never empty.
\<close>

definition sim_fwd_api :: "sim fwd_api" where
  "sim_fwd_api = port_api.extend sim_port_api (fwd_api.fields
     (\<lambda>_ _ d. (1, d)) (\<lambda>d. (of_nat (length (sim_aged d)), d\<lparr>sim_aged := None # sim_aged d\<rparr>)) 1000
     (\<lambda>_ d. d) (\<lambda>_ _. sim_ack) (\<lambda>d. d) (\<lambda>d. d) 0)"

lemma sim_clock: "clock_law sim_fwd_api (\<lambda>d. length (sim_aged d)) 1" "rte_get_timer_hz sim_fwd_api = 1000"
  by (simp_all add: clock_law_def sim_fwd_api_def fwd_api.defs sim_port_defs)

section \<open>Sets\<close>

definition sim_env :: lcore_env where
  "sim_env = \<lparr>rte_lcore_is_enabled = (\<lambda>c. c < 4), rte_get_main_lcore = 0, rte_lcore_to_socket_id = (\<lambda>_. 0)\<rparr>"

definition sim_sets :: sets where
  "sim_sets = \<lparr>fw = sim_fwd\<lparr>fwd_ports_ids := replicate 32 0, nb_ports := 2\<rparr>, nb_cfg_ports = 0, nb_cfg_lcores = 0, nb_lcores = 0,
     fwd_lcores_cpuids = replicate 128 0, peer_eth_addrs = []\<rparr>"

lemma sim_env_ok: "env_ok sim_env (sim_st\<lparr>eth_devs := [0, 1]\<rparr>) sim_sets"
  by (auto simp: env_ok_def sim_env_def sim_sets_def sim_fwd_def word_less_nat_alt)

lemma sim_workers: "workers sim_env = [1, 2, 3]"
  by code_simp

theorem forwarding_sets_witness:
  "\<exists>s t. set_def_fwd_config sim_env (sim_st\<lparr>eth_devs := [0, 1]\<rparr>) sim_sets = Some s \<and>
     set_script sim_env (sim_st\<lparr>eth_devs := [0, 1]\<rparr>) [CoreMask 6, PortList ''1'', CoreNumber 1] s = Some t \<and>
     sets_inv sim_env (sim_st\<lparr>eth_devs := [0, 1]\<rparr>) t"
proof -
  let ?d = "sim_st\<lparr>eth_devs := [0, 1]\<rparr>"
  have "Option.bind (set_def_fwd_config sim_env ?d sim_sets) (set_script sim_env ?d [CoreMask 6, PortList ''1'', CoreNumber 1]) \<noteq> None"
    by code_simp
  then obtain s t where "set_def_fwd_config sim_env ?d sim_sets = Some s"
    "set_script sim_env ?d [CoreMask 6, PortList ''1'', CoreNumber 1] s = Some t"
    by (cases "set_def_fwd_config sim_env ?d sim_sets") auto
  with forwarding_sets_invariant [OF sim_env_ok _ this] sim_workers show ?thesis by auto
qed

theorem parse_port_list_witness: "parse_port_list ''0,2-4,7'' 32 = [0, 2, 3, 4, 7]"
proof -
  have "items_text [One 0, Span 2 4, One 7] = ''0,2-4,7''" by code_simp
  moreover have "list_all (item_ok 32) [One 0, Span 2 4, One 7]" by simp
  moreover have "concat (map item_values [One 0, Span 2 4, One 7]) = [0, 2, 3, 4, 7]" by code_simp
  ultimately show ?thesis using parse_port_list_roundtrip [of 32 "[One 0, Span 2 4, One 7]"] by simp
qed

section \<open>Start\<close>

definition run_sets :: sets where
  "run_sets = \<lparr>fw = sim_fwd\<lparr>fwd_lcores := [sim_lcore], fwd_ports_ids := [0], g_nb_fwd_lcores := 1, g_nb_fwd_ports := 1, nb_ports := 1,
     nb_rxq := 1, nb_txq := 1\<rparr>,
     nb_cfg_ports = 1, nb_cfg_lcores = 1, nb_lcores = 1, fwd_lcores_cpuids = [1], peer_eth_addrs = []\<rparr>"

definition run_st :: "u16 \<Rightarrow> sim st" where
  "run_st v = sim_st\<lparr>ports := [sim_port\<lparr>port_status := v\<rparr>]\<rparr>"

definition sim_run :: run_opts where
  "sim_run = \<lparr>interactive = False, no_flush_rx = True, share_capa = 0\<rparr>"



theorem refused_start_witness:
  "\<exists>g' s'. start_packet_forwarding sim_fwd_api sim_ctl sim_run (run_sets, run_st RTE_PORT_STOPPED) = Some (False, g', s') \<and>
     dev s' = sim_dev"
proof -
  let ?r = "start_packet_forwarding sim_fwd_api sim_ctl sim_run (run_sets, run_st RTE_PORT_STOPPED)"
  have "map_option fst ?r = Some False" by code_simp
  then obtain g' s' where r: "?r = Some (False, g', s')" by auto
  with refused_start_and_stop [of sim_fwd_api sim_ctl sim_run run_sets "run_st RTE_PORT_STOPPED" g' s'] show ?thesis
    by (simp add: run_st_def sim_st_def)
qed

end
