(* ===== verification/CNum.thy ===== *)
theory CNum
  imports CString
begin

text \<open>
  The conversions from text to numbers that the command line uses: \<^verbatim>\<open>atoi\<close>, \<^verbatim>\<open>strtoul\<close> and \<^verbatim>\<open>strtoull\<close>.
\<close>

section \<open>Conversions\<close>

text \<open>\<^verbatim>\<open>atoi\<close> is \<^verbatim>\<open>strtol\<close> in an \<^verbatim>\<open>int\<close>.\<close>

definition atoi :: "string \<Rightarrow> int" where
  "atoi s = to_int (fst (strtol s))"

text \<open>
  \<^verbatim>\<open>strtoul\<close> and \<^verbatim>\<open>strtoull\<close>, which both have sixty-four bits, with the bases ten, sixteen and zero.  Base zero takes the base
  from the prefix.  A sign is accepted and negates the value.  The last component tells whether \<^verbatim>\<open>errno\<close> is set.
\<close>

definition digit_of :: "char \<Rightarrow> int" where
  "digit_of c = (let k = int (of_char c) in
     if 48 \<le> k \<and> k \<le> 57 then k - 48
     else if 97 \<le> k \<and> k \<le> 122 then k - 87
     else if 65 \<le> k \<and> k \<le> 90 then k - 55 else 36)"

definition hex_prefix :: "string \<Rightarrow> bool" where
  "hex_prefix u = (case u of c # x # d # _ \<Rightarrow> c = CHR ''0'' \<and> (x = CHR ''x'' \<or> x = CHR ''X'') \<and> digit_of d < 16 | _ \<Rightarrow> False)"

definition base_of :: "int \<Rightarrow> string \<Rightarrow> int \<times> string" where
  "base_of base u =
     (if (base = 0 \<or> base = 16) \<and> hex_prefix u then (16, drop 2 u)
      else if base = 0 then (if u \<noteq> [] \<and> hd u = CHR ''0'' then 8 else 10, u)
      else (base, u))"

definition strtoull :: "int \<Rightarrow> string \<Rightarrow> u64 \<times> string \<times> bool" where
  "strtoull base s =
     (case split_sign (dropWhile isspace s) of (neg, u) \<Rightarrow>
      (case base_of base u of (b, w) \<Rightarrow>
        (let ds = takeWhile (\<lambda>c. digit_of c < b) w; rest = dropWhile (\<lambda>c. digit_of c < b) w;
             v = foldl (\<lambda>a c. b * a + digit_of c) 0 ds in
         if ds = [] then (0, s, False)
         else if v \<ge> 2 ^ 64 then (- 1, rest, True)
         else (if neg then - word_of_int v else word_of_int v, rest, False))))"

section \<open>Laws\<close>

lemma atoi_dec: "n < 2 ^ 31 \<Longrightarrow> atoi (dec n) = int n"
  using strtol_dec [of n "[]"] by (simp add: atoi_def to_int_small)

lemma atoi_neg:
  assumes "n < 2 ^ 31"
  shows "atoi (CHR ''-'' # dec n) = - int n"
proof -
  have t: "takeWhile isdigit (dec n) = dec n" "dropWhile isdigit (dec n) = []" "dec n \<noteq> []"
    using dec_digits [of n] by auto
  have "strtol (CHR ''-'' # dec n) = (- int n, [], False)"
    using dec_val [of n] assms by (simp add: strtol_def split_sign_def isspace_def Let_def t)
  then show ?thesis using assms by (simp add: atoi_def to_int_def signed_take_bit_int_eq_self)
qed

lemma atoi_range: "- (2 ^ 31) \<le> atoi s \<and> atoi s < 2 ^ 31"
  using signed_take_bit_int_greater_eq_minus_exp [of 31 "fst (strtol s)"] signed_take_bit_int_less_exp [of 31 "fst (strtol s)"]
  by (simp add: atoi_def to_int_def)

lemma digit_of_digit:
  assumes "isdigit c"
  shows "digit_of c < 10" "digit_of c = digit_val c"
  using assms by (auto simp: digit_of_def isdigit_def digit_val_def Let_def)

lemma digits_fold:
  "\<forall>c \<in> set ds. isdigit c \<Longrightarrow> foldl (\<lambda>a c. 10 * a + digit_of c) v ds = foldl (\<lambda>a c. 10 * a + digit_val c) v ds"
  by (induction ds arbitrary: v) (simp_all add: digit_of_digit(2))

lemma dec_hd: "0 < n \<Longrightarrow> hd (dec n) \<noteq> CHR ''0''"
proof (induction n rule: dec.induct)
  case (1 n)
  show ?case
  proof (cases "n < 10")
    case True
    have "(of_char (char_of (48 + n :: nat)) :: nat) = 48 + n" using True by simp
    moreover have "(of_char CHR ''0'' :: nat) = 48" by simp
    ultimately show ?thesis using True 1(2) by (subst dec.simps) (metis add_cancel_right_right list.sel(1) less_irrefl)
  next
    case False
    then show ?thesis using 1(1) dec_digits(2) [of "n div 10"] by (subst dec.simps) simp
  qed
qed

lemma strtoull_dec:
  assumes "n < 2 ^ 64"
  shows "strtoull 0 (dec n) = (of_nat n, [], False)"
proof (cases "n = 0")
  case True
  have "dec 0 = ''0''" by code_simp
  moreover have "strtoull 0 ''0'' = (0, [], False)" by code_simp
  ultimately show ?thesis using True by simp
next
  case False
  obtain c ds where d: "dec n = c # ds" using dec_digits(2) [of n] by (cases "dec n") auto
  have c: "isdigit c" using dec_digits(1) [of n] d by simp
  have t: "takeWhile (\<lambda>c. digit_of c < 10) (dec n) = dec n" "dropWhile (\<lambda>c. digit_of c < 10) (dec n) = []"
    using dec_digits(1) [of n] by (simp_all add: digit_of_digit(1))
  have v: "foldl (\<lambda>a c. 10 * a + digit_of c) 0 (dec n) = int n"
    using digits_fold [of "dec n" 0] dec_digits(1) [of n] dec_val [of n] by (simp add: digits_val_def)
  have "\<not> hex_prefix (dec n)" "hd (dec n) \<noteq> CHR ''0''"
    using dec_hd [of n] False d by (auto simp: hex_prefix_def split: list.split)
  then have b: "base_of 0 (dec n) = (10, dec n)" by (simp add: base_of_def)
  have s: "split_sign (dropWhile isspace (dec n)) = (False, dec n)"
    using isdigit_sep [OF c] d by (simp add: split_sign_def)
  show ?thesis
    unfolding strtoull_def s b split t v Let_def using assms dec_digits(2) [of n] by (simp del: of_nat_power)
qed

end
