(* ===== verification/Options.thy ===== *)
theory Options
  imports FwdStart PortConfig Segments CNum
begin

text \<open>
  The command line (\<^verbatim>\<open>parameters.c\<close>): the parsers of masks, of the placement of ports and rings on sockets, of events, of
  statistics names and of the link speed, and \<^verbatim>\<open>launch_args_parse\<close>, which goes through the options.  Three outcomes are kept apart:
  the process ends (\<open>Exit\<close>), the function returns in the middle of the options (\<open>Return\<close>), the next option follows
  (\<open>Next\<close>).  Behaviour that the language does not define is \<open>None\<close>.
\<close>

section \<open>State\<close>

text \<open>
  The globals the options set, besides those of the other components: \<open>sets\<close> with the forwarding configuration,
  \<open>ctl\<close>, \<open>port_opts\<close>, \<open>run_opts\<close> and \<open>tx_segs\<close>.  The two offload fields are local variables of the function.  The
  cores of the two statistics are \<open>None\<close> as long as the flag that enables the statistics is not set.
\<close>

datatype mp_alloc = MP_ALLOC_NATIVE | MP_ALLOC_ANON | MP_ALLOC_XMEM | MP_ALLOC_XMEM_HUGE | MP_ALLOC_XBUF

record args =
  a_sets :: sets
  a_ctl :: ctl
  a_opts :: port_opts
  a_run :: run_opts
  a_tx :: tx_segs
  loc_rx_offloads :: u64
  loc_tx_offloads :: u64
  nb_peer_eth_addrs :: u16
  cmdline_filename :: string
  auto_start :: bool
  tx_first :: bool
  stats_period :: u16
  mp_alloc_type :: mp_alloc
  param_total_num_mbufs :: u32
  max_lro_pkt_size :: u32
  latencystats_lcore_id :: "u8 option"
  bitrate_lcore_id :: "u8 option"
  nb_pkt_per_burst :: u16
  nb_pkt_flowgen_clones :: u16
  nb_flows_flowgen :: int
  mb_mempool_cache :: u16
  txonly_multi_flow :: bool
  no_device_start :: bool
  event_print_mask :: u32
  hot_plug :: bool
  do_mlockall :: bool
  noisy_tx_sw_bufsz :: u16
  noisy_tx_sw_buf_flush_time :: u16
  noisy_lkup_mem_sz :: u64
  noisy_lkup_num_writes :: u64
  noisy_lkup_num_reads :: u64
  noisy_lkup_num_reads_writes :: u64
  noisy_fwd_mode :: nat
  mempool_flags :: u16
  record_core_cycles :: bool
  record_burst_stats :: bool

text \<open>
  What the function gets from libraries: splitting a text into at most a number of fields, reading an Ethernet address, the
  lines of a file as \<^verbatim>\<open>fgets\<close> yields them with a buffer of fifty characters, and whether memory is left.
\<close>

record arg_lib =
  rte_strsplit :: "string \<Rightarrow> nat \<Rightarrow> char \<Rightarrow> string list"
  rte_ether_unformat_addr :: "string \<Rightarrow> ether_addr option"
  file_lines :: "string \<Rightarrow> string list option"
  memory_left :: bool

datatype 'a outcome = Exit int | Return 'a | Next 'a

abbreviation EXIT_SUCCESS :: int where "EXIT_SUCCESS \<equiv> 0"
abbreviation EXIT_FAILURE :: int where "EXIT_FAILURE \<equiv> 1"
abbreviation MAX_PKT_BURST :: int where "MAX_PKT_BURST \<equiv> 512"
abbreviation RTE_MEMPOOL_CACHE_MAX_SIZE :: int where "RTE_MEMPOOL_CACHE_MAX_SIZE \<equiv> 512"
abbreviation MIN_TOTAL_NUM_MBUFS :: int where "MIN_TOTAL_NUM_MBUFS \<equiv> 1024"
abbreviation MEMPOOL_F_NO_IOVA_CONTIG :: u16 where "MEMPOOL_F_NO_IOVA_CONTIG \<equiv> 0x20"

abbreviation fails :: "'a outcome option" where "fails \<equiv> Some (Exit EXIT_FAILURE)"
abbreviation ok :: "'a \<Rightarrow> 'a outcome option" where "ok a \<equiv> Some (Next a)"

definition require :: "bool \<Rightarrow> 'a \<Rightarrow> 'a outcome option" where
  "require b a = (if b then ok a else fails)"

definition lift_set :: "args \<Rightarrow> sets option \<Rightarrow> args outcome option" where
  "lift_set a r = map_option (\<lambda>s. Next (a\<lparr>a_sets := s\<rparr>)) r"

definition upd_fw :: "(fwd_st \<Rightarrow> fwd_st) \<Rightarrow> args \<Rightarrow> args" where
  "upd_fw f a = a\<lparr>a_sets := (a_sets a)\<lparr>fw := f (fw (a_sets a))\<rparr>\<rparr>"

definition upd_ctl :: "(ctl \<Rightarrow> ctl) \<Rightarrow> args \<Rightarrow> args" where
  "upd_ctl f a = a\<lparr>a_ctl := f (a_ctl a)\<rparr>"

definition upd_opts :: "(port_opts \<Rightarrow> port_opts) \<Rightarrow> args \<Rightarrow> args" where
  "upd_opts f a = a\<lparr>a_opts := f (a_opts a)\<rparr>"

section \<open>Parsers of single arguments\<close>

fun read_peers :: "arg_lib \<Rightarrow> nat \<Rightarrow> string list \<Rightarrow> sets \<Rightarrow> nat option \<times> sets" where
  "read_peers lib i [] s = (Some i, s)"
| "read_peers lib i (l # ls) s =
     (if i \<ge> RTE_MAX_ETHPORTS then (Some i, s)
      else (case rte_ether_unformat_addr lib l of
              None \<Rightarrow> (None, s)
            | Some m \<Rightarrow> read_peers lib (i + 1) ls (s\<lparr>peer_eth_addrs := (peer_eth_addrs s)[i := m]\<rparr>)))"

definition init_peer_eth_addrs :: "arg_lib \<Rightarrow> string \<Rightarrow> args \<Rightarrow> int \<times> args" where
  "init_peer_eth_addrs lib name a =
     (case file_lines lib name of
        None \<Rightarrow> (- 1, a)
      | Some ls \<Rightarrow>
          (case read_peers lib 0 ls (a_sets a) of
             (None, s) \<Rightarrow> (- 1, a\<lparr>a_sets := s\<rparr>)
           | (Some i, s) \<Rightarrow> (0, a\<lparr>a_sets := s, nb_peer_eth_addrs := of_nat i\<rparr>)))"

definition parse_fwd_coremask :: "lcore_env \<Rightarrow> string \<Rightarrow> args \<Rightarrow> args outcome option" where
  "parse_fwd_coremask env coremask a =
     (case strtoull 16 coremask of (cm, rest, _) \<Rightarrow>
        if coremask = [] \<or> rest \<noteq> [] then fails
        else (case set_fwd_lcores_mask env cm (a_sets a) of
                None \<Rightarrow> None
              | Some (ret, s) \<Rightarrow> if ret < 0 then fails else ok (a\<lparr>a_sets := s\<rparr>)))"

definition parse_fwd_portmask :: "'d st \<Rightarrow> string \<Rightarrow> args \<Rightarrow> args outcome option" where
  "parse_fwd_portmask d portmask a =
     (case strtoull 16 portmask of (pm, rest, _) \<Rightarrow>
        if portmask = [] \<or> rest \<noteq> [] then fails
        else lift_set a (set_fwd_ports_mask d pm (a_sets a)))"

text \<open>
  The groups in parentheses.  The next group is read as numbers up to 255; there is none, it is wrong, or it is read and
  the text goes on behind it.
\<close>

datatype group = NoGroup | BadGroup | Group "u8 list" string

definition numa_number :: "string \<Rightarrow> u8 option" where
  "numa_number s = (case strtoull 0 s of (v, rest, err) \<Rightarrow> if err \<or> rest = s \<or> v > 255 then None else Some (ucast v))"

definition next_group :: "arg_lib \<Rightarrow> nat \<Rightarrow> string \<Rightarrow> group" where
  "next_group lib n p0 =
     (case dropWhile (\<lambda>c. c \<noteq> CHR ''('') p0 of
        [] \<Rightarrow> NoGroup
      | _ # p \<Rightarrow>
          (let s = takeWhile (\<lambda>c. c \<noteq> CHR '')'') p; rest = dropWhile (\<lambda>c. c \<noteq> CHR '')'') p in
           if rest = [] then BadGroup
           else if length s \<ge> 256 then BadGroup
           else (let flds = rte_strsplit lib s n (CHR '','') in
                 if length flds \<noteq> n then BadGroup
                 else (case those (map numa_number flds) of None \<Rightarrow> BadGroup | Some vs \<Rightarrow> Group vs rest))))"

lemma next_group_rest: "next_group lib n p0 = Group vs rest \<Longrightarrow> length rest < length p0"
proof -
  assume a: "next_group lib n p0 = Group vs rest"
  then obtain c p where p: "dropWhile (\<lambda>c. c \<noteq> CHR ''('') p0 = c # p" "rest = dropWhile (\<lambda>c. c \<noteq> CHR '')'') p"
    by (auto simp: next_group_def Let_def split: list.splits if_splits option.splits)
  then show ?thesis
    using length_dropWhile_le [of "\<lambda>c. c \<noteq> CHR ''(''" p0] length_dropWhile_le [of "\<lambda>c. c \<noteq> CHR '')''" p] by simp
qed

lemma next_group_length: "next_group lib n p0 = Group vs rest \<Longrightarrow> length vs = n"
proof -
  have those_length: "those xs = Some ys \<Longrightarrow> length ys = length xs" for xs :: "u8 option list" and ys
    by (induction xs arbitrary: ys) (auto split: option.splits)
  show "next_group lib n p0 = Group vs rest \<Longrightarrow> length vs = n"
    by (auto simp: next_group_def Let_def dest!: those_length split: list.splits if_splits option.splits)
qed

definition numa_socket :: "u8 \<Rightarrow> fwd_st \<Rightarrow> fwd_st option" where
  "numa_socket sock f =
     (if new_socket_id (socket_ids f) (ucast sock)
      then (if length (socket_ids f) \<ge> RTE_MAX_NUMA_NODES then None
            else Some (f\<lparr>socket_ids := socket_ids f @ [ucast sock]\<rparr>))
      else Some f)"

function parse_portnuma_config :: "arg_lib \<Rightarrow> 'd st \<Rightarrow> string \<Rightarrow> args \<Rightarrow> (int \<times> args) option" where
  "parse_portnuma_config lib d p0 a =
     (case next_group lib 2 p0 of
        NoGroup \<Rightarrow> Some (0, a)
      | BadGroup \<Rightarrow> Some (- 1, a)
      | Group vs rest \<Rightarrow>
          (let pid = ucast (vs ! 0) in
           if bad_port d pid then Some (- 1, a)
           else (case numa_socket (vs ! 1) (fw (a_sets a)) of
                   None \<Rightarrow> Some (- 1, a)
                 | Some f \<Rightarrow>
                     if unat pid < length (port_numa f)
                     then parse_portnuma_config lib d rest (upd_fw (\<lambda>_. f\<lparr>port_numa := (port_numa f)[unat pid := vs ! 1]\<rparr>) a)
                     else None)))"
  by pat_completeness auto

termination
  by (relation "measure (\<lambda>(lib, d, p0, a). length p0)") (auto dest: next_group_rest [OF sym] next_group_rest)

declare parse_portnuma_config.simps [simp del]

text \<open>The socket is recorded before the flag is checked.\<close>

definition set_rings :: "u8 \<Rightarrow> u16 \<Rightarrow> u8 \<Rightarrow> ctl \<Rightarrow> ctl option" where
  "set_rings flag pid sock c =
     (if unat pid < length (rxring_numa c) \<and> unat pid < length (txring_numa c)
      then Some (c\<lparr>rxring_numa := (if and flag 1 \<noteq> 0 then (rxring_numa c)[unat pid := sock] else rxring_numa c),
                   txring_numa := (if and flag 2 \<noteq> 0 then (txring_numa c)[unat pid := sock] else txring_numa c)\<rparr>)
      else None)"

function parse_ringnuma_config :: "arg_lib \<Rightarrow> 'd st \<Rightarrow> string \<Rightarrow> args \<Rightarrow> (int \<times> args) option" where
  "parse_ringnuma_config lib d p0 a =
     (case next_group lib 3 p0 of
        NoGroup \<Rightarrow> Some (0, a)
      | BadGroup \<Rightarrow> Some (- 1, a)
      | Group vs rest \<Rightarrow>
          (let pid = ucast (vs ! 0) in
           if bad_port d pid then Some (- 1, a)
           else (case numa_socket (vs ! 2) (fw (a_sets a)) of
                   None \<Rightarrow> Some (- 1, a)
                 | Some f \<Rightarrow>
                     (let a1 = upd_fw (\<lambda>_. f) a in
                      if vs ! 1 < 1 \<or> vs ! 1 > 3 then Some (- 1, a1)
                      else (case set_rings (vs ! 1) pid (vs ! 2) (a_ctl a1) of
                              None \<Rightarrow> None
                            | Some c \<Rightarrow> parse_ringnuma_config lib d rest (upd_ctl (\<lambda>_. c) a1))))))"
  by pat_completeness auto

termination
  by (relation "measure (\<lambda>(lib, d, p0, a). length p0)") (auto dest: next_group_rest [OF sym] next_group_rest)

declare parse_ringnuma_config.simps [simp del]

definition event_table :: "(string \<times> u32) list" where
  "event_table =
     [(''unknown'', 0x1), (''intr_lsc'', 0x2), (''queue_state'', 0x4), (''intr_reset'', 0x8), (''vf_mbox'', 0x10),
      (''ipsec'', 0x200), (''macsec'', 0x20), (''intr_rmv'', 0x40), (''dev_probed'', 0x80), (''dev_released'', 0x100),
      (''flow_aged'', 0x400), (''err_recovering'', 0x1000), (''recovery_success'', 0x2000), (''recovery_failed'', 0x4000),
      (''all'', 0xFFFFFFFF)]"

definition parse_event_printing_config :: "string \<Rightarrow> bool \<Rightarrow> u32 \<Rightarrow> int \<times> u32" where
  "parse_event_printing_config arg enable old =
     (case map_of event_table arg of
        None \<Rightarrow> (- 1, old)
      | Some m \<Rightarrow> (0, if enable then or old m else and old (not m)))"

text \<open>The names that are not empty; a name keeps its first 63 characters.\<close>

definition parse_xstats_list :: "arg_lib \<Rightarrow> string \<Rightarrow> (int \<times> string list)" where
  "parse_xstats_list lib txt =
     (if \<not> memory_left lib then (- 12, [])
      else (0, map (take 63) (filter (\<lambda>x. x \<noteq> []) (rte_strsplit lib txt (length (filter (\<lambda>c. c = CHR '','') txt) + 1) (CHR '','')))))"

definition speed_table :: "(int \<times> int) list" where
  "speed_table =
     [(1000, 0x20), (2500, 0x40), (5000, 0x80), (10000, 0x100), (25000, 0x400), (40000, 0x800), (50000, 0x1000),
      (100000, 0x4000), (200000, 0x8000), (400000, 0x10000)]"

definition parse_link_speed :: "int \<Rightarrow> int" where
  "parse_link_speed n = (case map_of speed_table n of None \<Rightarrow> 0 | Some v \<Rightarrow> v + 1)"

section \<open>Groups of options\<close>

text \<open>
  The options as \<^verbatim>\<open>getopt_long\<close> knows them, with whether they have an argument (one), may have one (two) or have none.
\<close>

definition lgopts :: "(string \<times> nat) list" where
  "lgopts =
     map (\<lambda>n. (n, 0)) [''help'', ''interactive'', ''auto-start'', ''tx-first'', ''numa'', ''no-numa'', ''mp-anon'',
       ''disable-crc-strip'', ''enable-lro'', ''enable-rx-cksum'', ''enable-rx-timestamp'', ''enable-scatter'', ''enable-hw-vlan'',
       ''enable-hw-vlan-filter'', ''enable-hw-vlan-strip'', ''enable-hw-vlan-extend'', ''enable-hw-qinq-strip'', ''enable-drop-en'',
       ''disable-rss'', ''rss-ip'', ''rss-udp'', ''rss-level-outer'', ''rss-level-inner'', ''no-flush-rx'', ''flow-isolate-all'',
       ''disable-flow-flush'', ''multi-rx-mempool'', ''txonly-multi-flow'', ''disable-link-check'', ''disable-device-start'',
       ''no-lsc-interrupt'', ''no-rmv-interrupt'', ''hot-plug'', ''mlockall'', ''no-mlockall'', ''no-iova-contig'',
       ''record-core-cycles'', ''record-burst-stats''] @
     map (\<lambda>n. (n, 1)) [''cmdline-file'', ''eth-peers-configfile'', ''eth-peer'', ''stats-period'', ''display-xstats'', ''nb-cores'',
       ''nb-ports'', ''coremask'', ''portmask'', ''portlist'', ''port-numa-config'', ''ring-numa-config'', ''socket-num'', ''mbuf-size'',
       ''total-num-mbufs'', ''max-pkt-len'', ''max-lro-pkt-size'', ''latencystats'', ''bitrate-stats'', ''port-topology'',
       ''forward-mode'', ''rxq'', ''txq'', ''rxd'', ''txd'', ''hairpinq'', ''hairpin-mode'', ''burst'', ''flowgen-clones'',
       ''flowgen-flows'', ''mbcache'', ''txpt'', ''txht'', ''txwt'', ''txfreet'', ''txrst'', ''rxpt'', ''rxht'', ''rxwt'', ''rxfreet'',
       ''rxoffs'', ''rxpkts'', ''rxhdrs'', ''txpkts'', ''eth-link-speed'', ''print-event'', ''mask-event'', ''tx-offloads'',
       ''rx-offloads'', ''vxlan-gpe-port'', ''geneve-parsed-port'', ''mp-alloc'', ''tx-ip'', ''tx-udp'', ''noisy-forward-mode'',
       ''noisy-tx-sw-buffer-size'', ''noisy-tx-sw-buffer-flushtime'', ''noisy-lkup-memory'', ''noisy-lkup-num-writes'',
       ''noisy-lkup-num-reads'', ''noisy-lkup-num-reads-writes'', ''rx-mq-mode'', ''num-procs'', ''proc-id''] @
     [(''rxq-share'', 2)]"

text \<open>
  The function compares the name of the option with one literal after the other.  The groups follow the text; a name that
  a group does not know leaves the state alone.
\<close>

definition eth_peer :: "arg_lib \<Rightarrow> string \<Rightarrow> args \<Rightarrow> args outcome option" where
  "eth_peer lib t a =
     (case strtoull 10 t of (v, rest, err) \<Rightarrow>
      (let n = sint (ucast v :: u32) in
       if err \<or> rest = t \<or> rest = [] \<or> hd rest \<noteq> CHR '','' then fails
       else if n \<ge> int RTE_MAX_ETHPORTS then fails
       else if n < 0 then None
       else (case rte_ether_unformat_addr lib (tl rest) of
               None \<Rightarrow> fails
             | Some m \<Rightarrow>
                 ok (a\<lparr>a_sets := (a_sets a)\<lparr>peer_eth_addrs := (peer_eth_addrs (a_sets a))[nat n := m]\<rparr>,
                           nb_peer_eth_addrs := nb_peer_eth_addrs a + 1\<rparr>))))"

definition opt_general :: "arg_lib \<Rightarrow> string \<Rightarrow> string \<Rightarrow> args \<Rightarrow> args outcome option" where
  "opt_general lib name t a =
     (if name = ''help'' then Some (Exit EXIT_SUCCESS)
      else if name = ''interactive'' then ok (a\<lparr>a_run := (a_run a)\<lparr>interactive := True\<rparr>\<rparr>)
      else if name = ''cmdline-file'' then ok (a\<lparr>cmdline_filename := take 4095 t\<rparr>)
      else if name = ''auto-start'' then ok (a\<lparr>auto_start := True\<rparr>)
      else if name = ''tx-first'' then ok (a\<lparr>tx_first := True\<rparr>)
      else if name = ''stats-period'' then
        (case strtoull 10 t of (v, rest, _) \<Rightarrow> ok (if t = [] \<or> rest \<noteq> [] then a else a\<lparr>stats_period := ucast (ucast v :: u32)\<rparr>))
      else if name = ''display-xstats'' then
        (case parse_xstats_list lib t of (rc, names) \<Rightarrow>
           require (rc = 0) (upd_ctl (\<lambda>c. c\<lparr>xstats_display := names\<rparr>) a))
      else if name = ''eth-peers-configfile'' then (case init_peer_eth_addrs lib t a of (rc, a1) \<Rightarrow> require (rc = 0) a1)
      else if name = ''eth-peer'' then eth_peer lib t a
      else ok a)"

definition mp_alloc_table :: "(string \<times> mp_alloc) list" where
  "mp_alloc_table = [(''native'', MP_ALLOC_NATIVE), (''anon'', MP_ALLOC_ANON), (''xmem'', MP_ALLOC_XMEM),
     (''xmemhuge'', MP_ALLOC_XMEM_HUGE), (''xbuf'', MP_ALLOC_XBUF)]"

definition opt_sets :: "arg_lib \<Rightarrow> lcore_env \<Rightarrow> 'd st \<Rightarrow> string \<Rightarrow> string \<Rightarrow> args \<Rightarrow> args outcome option" where
  "opt_sets lib env d name t a =
     (let n = atoi t in
      if name = ''nb-ports'' then
        require (n > 0 \<and> n \<le> uint (nb_ports (fw (a_sets a)))) (upd_fw (\<lambda>f. f\<lparr>g_nb_fwd_ports := word_of_int n\<rparr>) a)
      else if name = ''nb-cores'' then
        require (n > 0 \<and> n \<le> uint (nb_lcores (a_sets a))) (upd_fw (\<lambda>f. f\<lparr>g_nb_fwd_lcores := word_of_int n\<rparr>) a)
      else if name = ''coremask'' then parse_fwd_coremask env t a
      else if name = ''portmask'' then parse_fwd_portmask d t a
      else if name = ''portlist'' then
        (if parse_port_list t RTE_MAX_ETHPORTS = [] then fails else lift_set a (parse_fwd_portlist d t (a_sets a)))
      else if name = ''no-numa'' then ok (upd_fw (\<lambda>f. f\<lparr>numa_support := False\<rparr>) a)
      else if name = ''numa'' then ok (upd_fw (\<lambda>f. f\<lparr>numa_support := True\<rparr>) a)
      else if name = ''mp-anon'' then ok (a\<lparr>mp_alloc_type := MP_ALLOC_ANON\<rparr>)
      else if name = ''mp-alloc'' then
        (case map_of mp_alloc_table t of None \<Rightarrow> fails | Some m \<Rightarrow> ok (a\<lparr>mp_alloc_type := m\<rparr>))
      else if name = ''port-numa-config'' then
        (case parse_portnuma_config lib d t a of None \<Rightarrow> None | Some (ret, a1) \<Rightarrow> require (ret = 0) a1)
      else if name = ''ring-numa-config'' then
        (case parse_ringnuma_config lib d t a of None \<Rightarrow> None | Some (ret, a1) \<Rightarrow> require (ret = 0) a1)
      else if name = ''socket-num'' then
        require (\<not> new_socket_id (socket_ids (fw (a_sets a))) (ucast (word_of_int n :: u8)))
          (upd_fw (\<lambda>f. f\<lparr>socket_num := word_of_int n\<rparr>) a)
      else ok a)"

definition mbuf_size_option :: "string \<Rightarrow> args \<Rightarrow> args outcome option" where
  "mbuf_size_option t a =
     (let mb_sz = parse_item_list t MAX_SEGS_BUFFER_SPLIT False in
      if mb_sz = [] then fails
      else if \<exists>x \<in> set mb_sz. x = 0 \<or> x > 0xFFFF then fails
      else (case overwrite (map ucast mb_sz) (mbuf_data_sizes (a_ctl a)) of
              None \<Rightarrow> None
            | Some xs \<Rightarrow> ok (upd_ctl (\<lambda>c. c\<lparr>mbuf_data_sizes := xs, mbuf_data_size_n := of_nat (length mb_sz)\<rparr>) a)))"

definition opt_memory :: "string \<Rightarrow> string \<Rightarrow> args \<Rightarrow> args outcome option" where
  "opt_memory name t a =
     (let n = atoi t in
      if name = ''mbuf-size'' then mbuf_size_option t a
      else if name = ''total-num-mbufs'' then require (n > MIN_TOTAL_NUM_MBUFS) (a\<lparr>param_total_num_mbufs := word_of_int n\<rparr>)
      else if name = ''max-pkt-len'' then require (n \<ge> 64) (upd_opts (\<lambda>p. p\<lparr>max_rx_pkt_len := word_of_int n\<rparr>) a)
      else if name = ''max-lro-pkt-size'' then ok (a\<lparr>max_lro_pkt_size := word_of_int n\<rparr>)
      else if name = ''latencystats'' then require (n \<ge> 0) (a\<lparr>latencystats_lcore_id := Some (word_of_int n)\<rparr>)
      else if name = ''bitrate-stats'' then require (n \<ge> 0) (a\<lparr>bitrate_lcore_id := Some (word_of_int n)\<rparr>)
      else ok a)"

definition rx_flag_table :: "(string \<times> u64) list" where
  "rx_flag_table =
     [(''disable-crc-strip'', 0x10000), (''enable-lro'', 0x10), (''enable-scatter'', 0x2000), (''enable-rx-cksum'', 0xE),
      (''enable-rx-timestamp'', 0x4000), (''enable-hw-vlan'', 0x621), (''enable-hw-vlan-filter'', 0x200),
      (''enable-hw-vlan-strip'', 0x1), (''enable-hw-vlan-extend'', 0x400), (''enable-hw-qinq-strip'', 0x20)]"

definition topology_table :: "(string \<times> port_topology) list" where
  "topology_table = [(''paired'', PORT_TOPOLOGY_PAIRED), (''chained'', PORT_TOPOLOGY_CHAINED), (''loop'', PORT_TOPOLOGY_LOOP)]"

definition opt_modes :: "string \<Rightarrow> string \<Rightarrow> args \<Rightarrow> args outcome option" where
  "opt_modes name t a =
     (case map_of rx_flag_table name of
        Some m \<Rightarrow> ok (a\<lparr>loc_rx_offloads := or (loc_rx_offloads a) m\<rparr>)
      | None \<Rightarrow>
          if name = ''enable-drop-en'' then ok (upd_opts (\<lambda>p. p\<lparr>rx_drop_en := 1\<rparr>) a)
          else if name = ''disable-rss'' then ok (upd_opts (\<lambda>p. p\<lparr>rss_hf := 0\<rparr>) a)
          else if name = ''port-topology'' then
            (case map_of topology_table t of None \<Rightarrow> fails | Some x \<Rightarrow> ok (upd_fw (\<lambda>f. f\<lparr>topology := x\<rparr>) a))
          else if name = ''forward-mode'' then ok (upd_fw (set_pkt_forwarding_mode t) a)
          else if name = ''rss-ip'' then ok (upd_opts (\<lambda>p. p\<lparr>rss_hf := 0xA38C\<rparr>) a)
          else if name = ''rss-udp'' then ok (upd_opts (\<lambda>p. p\<lparr>rss_hf := 0x20820\<rparr>) a)
          else if name = ''rss-level-inner'' then ok (upd_opts (\<lambda>p. p\<lparr>rss_hf := or (rss_hf p) (push_bit 51 1)\<rparr>) a)
          else if name = ''rss-level-outer'' then ok (upd_opts (\<lambda>p. p\<lparr>rss_hf := or (rss_hf p) (push_bit 50 1)\<rparr>) a)
          else ok a)"

text \<open>
  The numbers of queues are checked after their conversion to sixteen bits.  The sums with the hairpin queues are sums of
  \<^verbatim>\<open>int\<close>, whose overflow is undefined.
\<close>

definition opt_queues :: "('d, 'z) conf_api_scheme \<Rightarrow> 'd st \<Rightarrow> string \<Rightarrow> string \<Rightarrow> args \<Rightarrow> args outcome option" where
  "opt_queues api d name t a =
     (let n = atoi t; f = fw (a_sets a) in
      if name = ''rxq'' then
        require (n \<ge> 0 \<and> check_nb_rxq api (word_of_int n) d = 0) (upd_fw (\<lambda>f. f\<lparr>nb_rxq := word_of_int n\<rparr>) a)
      else if name = ''txq'' then
        require (n \<ge> 0 \<and> check_nb_txq api (word_of_int n) d = 0) (upd_fw (\<lambda>f. f\<lparr>nb_txq := word_of_int n\<rparr>) a)
      else if name = ''hairpinq'' then
        (if \<not> (n \<ge> 0 \<and> check_nb_hairpinq api (word_of_int n) d = 0) then fails
         else if n + uint (nb_txq f) \<ge> 2 ^ 31 then None
         else if check_nb_txq api (word_of_int (n + uint (nb_txq f))) d \<noteq> 0 then fails
         else if n + uint (nb_rxq f) \<ge> 2 ^ 31 then None
         else if check_nb_rxq api (word_of_int (n + uint (nb_rxq f))) d \<noteq> 0 then fails
         else ok (upd_ctl (\<lambda>c. c\<lparr>nb_hairpinq := word_of_int n\<rparr>) a))
      else ok a)"

text \<open>
  A burst of zero takes what the first device recommends; when the device does not answer, the whole function returns.  A
  negative number is converted to sixteen bits.
\<close>

definition burst_option :: "('d, 'z) conf_api_scheme \<Rightarrow> 'd st \<Rightarrow> int \<Rightarrow> args \<Rightarrow> args outcome option" where
  "burst_option api d n a =
     (if n = 0 then
        (case eth_dev_info_get_print_err api 0 (dev d) of (ret, info) \<Rightarrow>
           if ret \<noteq> 0 then Some (Return a)
           else require (default_rx_burst_size info \<noteq> 0 \<and> uint (default_rx_burst_size info) \<le> MAX_PKT_BURST)
                  (a\<lparr>nb_pkt_per_burst := default_rx_burst_size info\<rparr>))
      else require (n \<le> MAX_PKT_BURST) (a\<lparr>nb_pkt_per_burst := word_of_int n\<rparr>))"

definition opt_numbers :: "('d, 'z) conf_api_scheme \<Rightarrow> 'd st \<Rightarrow> string \<Rightarrow> string \<Rightarrow> args \<Rightarrow> args outcome option" where
  "opt_numbers api d name t a =
     (let n = atoi t in
      if name = ''hairpin-mode'' then
        (case strtoull 0 t of (v, rest, err) \<Rightarrow>
           require (\<not> err \<and> rest \<noteq> t) (upd_ctl (\<lambda>c. c\<lparr>hairpin_mode := ucast v\<rparr>) a))
      else if name = ''burst'' then burst_option api d n a
      else if name = ''flowgen-clones'' then require (n \<ge> 0) (a\<lparr>nb_pkt_flowgen_clones := word_of_int n\<rparr>)
      else if name = ''flowgen-flows'' then require (n > 0) (a\<lparr>nb_flows_flowgen := n\<rparr>)
      else if name = ''mbcache'' then require (n \<ge> 0 \<and> n \<le> RTE_MEMPOOL_CACHE_MAX_SIZE) (a\<lparr>mb_mempool_cache := word_of_int n\<rparr>)
      else if name = ''txfreet'' then require (n \<ge> 0) (upd_opts (\<lambda>p. p\<lparr>tx_free_thresh := signed_take_bit 15 n\<rparr>) a)
      else if name = ''txrst'' then require (n \<ge> 0) (upd_opts (\<lambda>p. p\<lparr>tx_rs_thresh := signed_take_bit 15 n\<rparr>) a)
      else if name = ''rxd'' then
        require (n > 0 \<and> \<not> rx_free_thresh (a_opts a) \<ge> n) (upd_ctl (\<lambda>c. c\<lparr>nb_rxd := word_of_int n\<rparr>) a)
      else if name = ''txd'' then require (n > 0) (upd_ctl (\<lambda>c. c\<lparr>nb_txd := word_of_int n\<rparr>) a)
      else ok a)"

definition opt_thresholds :: "string \<Rightarrow> string \<Rightarrow> args \<Rightarrow> args outcome option" where
  "opt_thresholds name t a =
     (let n = atoi t; v = signed_take_bit 7 n in
      if name = ''txpt'' then require (n \<ge> 0) (upd_opts (\<lambda>p. p\<lparr>tx_pthresh := v\<rparr>) a)
      else if name = ''txht'' then require (n \<ge> 0) (upd_opts (\<lambda>p. p\<lparr>tx_hthresh := v\<rparr>) a)
      else if name = ''txwt'' then require (n \<ge> 0) (upd_opts (\<lambda>p. p\<lparr>tx_wthresh := v\<rparr>) a)
      else if name = ''rxpt'' then require (n \<ge> 0) (upd_opts (\<lambda>p. p\<lparr>rx_pthresh := v\<rparr>) a)
      else if name = ''rxht'' then require (n \<ge> 0) (upd_opts (\<lambda>p. p\<lparr>rx_hthresh := v\<rparr>) a)
      else if name = ''rxwt'' then require (n \<ge> 0) (upd_opts (\<lambda>p. p\<lparr>rx_wthresh := v\<rparr>) a)
      else if name = ''rxfreet'' then require (n \<ge> 0) (upd_opts (\<lambda>p. p\<lparr>rx_free_thresh := signed_take_bit 15 n\<rparr>) a)
      else ok a)"

section \<open>Packets, flags and events\<close>

definition lift_ctl :: "args \<Rightarrow> ctl option \<Rightarrow> args outcome option" where
  "lift_ctl a r = map_option (\<lambda>c. Next (a\<lparr>a_ctl := c\<rparr>)) r"

definition opt_packets :: "('d, 'z) seg_api_scheme \<Rightarrow> 'd st \<Rightarrow> string \<Rightarrow> string \<Rightarrow> args \<Rightarrow> args outcome option" where
  "opt_packets sapi d name t a =
     (if name = ''rxoffs'' then
        (let xs = parse_item_list t MAX_SEGS_BUFFER_SPLIT False in
         if xs = [] then fails else lift_ctl a (set_rx_pkt_offsets xs (a_ctl a)))
      else if name = ''rxpkts'' then
        (let xs = parse_item_list t MAX_SEGS_BUFFER_SPLIT False in
         if xs = [] then fails else lift_ctl a (set_rx_pkt_segments xs (a_ctl a)))
      else if name = ''rxhdrs'' then
        (case parse_hdrs_list t MAX_SEGS_BUFFER_SPLIT of
           None \<Rightarrow> None
         | Some hs \<Rightarrow> if hs = [] then fails else lift_ctl a (set_rx_pkt_hdrs hs (a_ctl a)))
      else if name = ''txpkts'' then
        (let xs = parse_item_list t RTE_MAX_SEGS_PER_PKT False in
         if xs = [] then fails
         else map_option (\<lambda>x. Next (a\<lparr>a_tx := x\<rparr>)) (set_tx_pkt_segments sapi (a_ctl a) (fw (a_sets a)) d xs (a_tx a)))
      else ok a)"

definition opt_flags :: "string \<Rightarrow> string option \<Rightarrow> args \<Rightarrow> args outcome option" where
  "opt_flags name x a =
     (let n = atoi (case x of None \<Rightarrow> [] | Some t \<Rightarrow> t) in
      if name = ''multi-rx-mempool'' then ok (upd_ctl (\<lambda>c. c\<lparr>multi_rx_mempool := True\<rparr>) a)
      else if name = ''txonly-multi-flow'' then ok (a\<lparr>txonly_multi_flow := True\<rparr>)
      else if name = ''rxq-share'' then
        (if x = None then ok (upd_fw (\<lambda>f. f\<lparr>rxq_share := UINT32_MAX\<rparr>) a)
         else require (n \<ge> 0) (upd_fw (\<lambda>f. f\<lparr>rxq_share := word_of_int n\<rparr>) a))
      else if name = ''no-flush-rx'' then ok (a\<lparr>a_run := (a_run a)\<lparr>no_flush_rx := True\<rparr>\<rparr>)
      else if name = ''eth-link-speed'' then
        ok (if n \<ge> 0 \<and> parse_link_speed n > 0 then upd_opts (\<lambda>p. p\<lparr>eth_link_speed := word_of_int (parse_link_speed n)\<rparr>) a else a)
      else if name = ''disable-link-check'' then ok (upd_ctl (\<lambda>c. c\<lparr>no_link_check := True\<rparr>) a)
      else if name = ''disable-device-start'' then ok (a\<lparr>no_device_start := True\<rparr>)
      else if name = ''no-lsc-interrupt'' then ok (upd_ctl (\<lambda>c. c\<lparr>lsc_interrupt := False\<rparr>) a)
      else if name = ''no-rmv-interrupt'' then ok (upd_opts (\<lambda>p. p\<lparr>rmv_interrupt := False\<rparr>) a)
      else if name = ''flow-isolate-all'' then ok (upd_ctl (\<lambda>c. c\<lparr>flow_isolate_all := True\<rparr>) a)
      else if name = ''disable-flow-flush'' then ok (upd_ctl (\<lambda>c. c\<lparr>no_flow_flush := True\<rparr>) a)
      else ok a)"

text \<open>The offloads are read with 64 bits and stored in an \<^verbatim>\<open>int\<close> before they are checked.\<close>

definition opt_events :: "string \<Rightarrow> string \<Rightarrow> args \<Rightarrow> args outcome option" where
  "opt_events name t a =
     (let n = sint (ucast (fst (strtoull 16 t)) :: u32) in
      if name = ''tx-offloads'' then require (n \<ge> 0) (a\<lparr>loc_tx_offloads := word_of_int n\<rparr>)
      else if name = ''rx-offloads'' then require (n \<ge> 0) (a\<lparr>loc_rx_offloads := word_of_int n\<rparr>)
      else if name = ''print-event'' then
        (case parse_event_printing_config t True (event_print_mask a) of (ret, m) \<Rightarrow> require (ret = 0) (a\<lparr>event_print_mask := m\<rparr>))
      else if name = ''mask-event'' then
        (case parse_event_printing_config t False (event_print_mask a) of (ret, m) \<Rightarrow> require (ret = 0) (a\<lparr>event_print_mask := m\<rparr>))
      else if name = ''hot-plug'' then ok (a\<lparr>hot_plug := True\<rparr>)
      else if name = ''mlockall'' then ok (a\<lparr>do_mlockall := True\<rparr>)
      else if name = ''no-mlockall'' then ok (a\<lparr>do_mlockall := False\<rparr>)
      else ok a)"

definition noisy_fwd_mode_desc :: "(string \<times> nat) list" where
  "noisy_fwd_mode_desc = [(''io'', 0), (''mac'', 1), (''macswap'', 2), (''5tswap'', 3)]"

definition opt_noisy :: "string \<Rightarrow> string \<Rightarrow> args \<Rightarrow> args outcome option" where
  "opt_noisy name t a =
     (let n = atoi t in
      if name = ''noisy-tx-sw-buffer-size'' then require (n \<ge> 0) (a\<lparr>noisy_tx_sw_bufsz := word_of_int n\<rparr>)
      else if name = ''noisy-tx-sw-buffer-flushtime'' then require (n \<ge> 0) (a\<lparr>noisy_tx_sw_buf_flush_time := word_of_int n\<rparr>)
      else if name = ''noisy-lkup-memory'' then require (n \<ge> 0) (a\<lparr>noisy_lkup_mem_sz := word_of_int n\<rparr>)
      else if name = ''noisy-lkup-num-writes'' then require (n \<ge> 0) (a\<lparr>noisy_lkup_num_writes := word_of_int n\<rparr>)
      else if name = ''noisy-lkup-num-reads'' then require (n \<ge> 0) (a\<lparr>noisy_lkup_num_reads := word_of_int n\<rparr>)
      else if name = ''noisy-lkup-num-reads-writes'' then require (n \<ge> 0) (a\<lparr>noisy_lkup_num_reads_writes := word_of_int n\<rparr>)
      else if name = ''noisy-forward-mode'' then
        (case map_of noisy_fwd_mode_desc t of None \<Rightarrow> fails | Some m \<Rightarrow> ok (a\<lparr>noisy_fwd_mode := m\<rparr>))
      else ok a)"

definition opt_process :: "string \<Rightarrow> string \<Rightarrow> args \<Rightarrow> args outcome option" where
  "opt_process name t a =
     (if name = ''no-iova-contig'' then ok (a\<lparr>mempool_flags := MEMPOOL_F_NO_IOVA_CONTIG\<rparr>)
      else if name = ''rx-mq-mode'' then
        (let n = sint (ucast (fst (strtoull 16 t)) :: u32) in
         require (n \<ge> 0 \<and> n \<le> 7) (upd_opts (\<lambda>p. p\<lparr>rx_mq_mode := word_of_int n\<rparr>) a))
      else if name = ''record-core-cycles'' then ok (a\<lparr>record_core_cycles := True\<rparr>)
      else if name = ''record-burst-stats'' then ok (a\<lparr>record_burst_stats := True\<rparr>)
      else if name = ''num-procs'' then ok (upd_fw (\<lambda>f. f\<lparr>num_procs := take_bit 32 (atoi t)\<rparr>) a)
      else if name = ''proc-id'' then ok (upd_fw (\<lambda>f. f\<lparr>proc_id := atoi t\<rparr>) a)
      else ok a)"

section \<open>The loop over the options\<close>

text \<open>What \<^verbatim>\<open>getopt_long\<close> yields: a short option, a long option with its argument, or a mistake.\<close>

datatype opt = OptI | OptA | OptH | OptLong string "string option" | OptBad

definition andthen :: "args outcome option \<Rightarrow> (args \<Rightarrow> args outcome option) \<Rightarrow> args outcome option" where
  "andthen r k = (case r of Some (Next a) \<Rightarrow> k a | _ \<Rightarrow> r)"

definition some_queues :: "args \<Rightarrow> args outcome option" where
  "some_queues a = require (nb_rxq (fw (a_sets a)) \<noteq> 0 \<or> nb_txq (fw (a_sets a)) \<noteq> 0) a"

text \<open>
  A long option.  An argument that is missing would be read through a null pointer.  The period of the statistics leaves the
  sequence of comparisons at once, before the check of the queues in their middle.
\<close>

definition long_option ::
  "('d, 'z) conf_api_scheme \<Rightarrow> ('d, 'y) seg_api_scheme \<Rightarrow> arg_lib \<Rightarrow> lcore_env \<Rightarrow> 'd st \<Rightarrow> string \<Rightarrow> string option \<Rightarrow> args
    \<Rightarrow> args outcome option" where
  "long_option api sapi lib env d name x a =
     (if map_of lgopts name = Some 1 \<and> x = None then None
      else (let t = (case x of None \<Rightarrow> [] | Some t \<Rightarrow> t) in
        if name = ''stats-period'' then opt_general lib name t a
        else foldl andthen (opt_general lib name t a)
          [opt_sets lib env d name t, opt_memory name t, opt_modes name t, opt_queues api d name t, some_queues,
           opt_numbers api d name t, opt_thresholds name t, opt_packets sapi d name t, opt_flags name x,
           opt_events name t, opt_noisy name t, opt_process name t]))"

fun options_loop ::
  "('d, 'z) conf_api_scheme \<Rightarrow> ('d, 'y) seg_api_scheme \<Rightarrow> arg_lib \<Rightarrow> lcore_env \<Rightarrow> 'd st \<Rightarrow> opt list \<Rightarrow> args
    \<Rightarrow> args outcome option" where
  "options_loop api sapi lib env d [] a = ok a"
| "options_loop api sapi lib env d (x # xs) a =
     andthen (case x of
        OptI \<Rightarrow> ok (a\<lparr>a_run := (a_run a)\<lparr>interactive := True\<rparr>\<rparr>)
      | OptA \<Rightarrow> ok (a\<lparr>auto_start := True\<rparr>)
      | OptH \<Rightarrow> Some (Exit EXIT_SUCCESS)
      | OptLong name v \<Rightarrow> long_option api sapi lib env d name v a
      | OptBad \<Rightarrow> fails)
       (options_loop api sapi lib env d xs)"

text \<open>Behind the loop: what is left of the line, the number of the process, the offloads and the flags of the pools.\<close>

definition finish_args :: "bool \<Rightarrow> args \<Rightarrow> args outcome option" where
  "finish_args rest a =
     (if rest then fails
      else if proc_id (fw (a_sets a)) \<ge> to_int (num_procs (fw (a_sets a))) then fails
      else (let a1 = upd_opts (\<lambda>p. p\<lparr>rx_mode_offloads := loc_rx_offloads a, tx_mode_offloads := loc_tx_offloads a\<rparr>) a in
        Some (Return (if and (mempool_flags a1) MEMPOOL_F_NO_IOVA_CONTIG \<noteq> 0 \<and> mp_alloc_type a1 \<noteq> MP_ALLOC_ANON
                      then a1\<lparr>mempool_flags := 0\<rparr> else a1))))"

definition launch_args_parse ::
  "('d, 'z) conf_api_scheme \<Rightarrow> ('d, 'y) seg_api_scheme \<Rightarrow> arg_lib \<Rightarrow> lcore_env \<Rightarrow> 'd st \<Rightarrow> opt list \<Rightarrow> bool \<Rightarrow> args
    \<Rightarrow> args outcome option" where
  "launch_args_parse api sapi lib env d opts rest a =
     andthen (options_loop api sapi lib env d opts
         (a\<lparr>loc_rx_offloads := rx_mode_offloads (a_opts a), loc_tx_offloads := tx_mode_offloads (a_opts a)\<rparr>))
       (finish_args rest)"

end
