(* ===== verification/OptionLaws.thy ===== *)
theory OptionLaws
  imports Options
begin

text \<open>
  The options keep the arrays and the limits in order: whatever the command line says, the function ends the process or
  returns with a state the other components can start from.  The two options that can leave an array are named.
\<close>

section \<open>Outcomes\<close>

text \<open>A result that is defined, and whose state satisfies what is asked of it.\<close>

definition fine :: "('a \<Rightarrow> bool) \<Rightarrow> ('a \<Rightarrow> bool) \<Rightarrow> 'a outcome option \<Rightarrow> bool" where
  "fine R P r = (case r of None \<Rightarrow> False | Some (Exit _) \<Rightarrow> True | Some (Return a) \<Rightarrow> R a | Some (Next a) \<Rightarrow> P a)"

lemma fine_simps [simp]:
  "fine R P (Some (Exit n))" "fine R P (Some (Return a)) \<longleftrightarrow> R a" "fine R P (ok a) \<longleftrightarrow> P a" "\<not> fine R P None"
  by (simp_all add: fine_def)

lemma fine_if: "(b \<Longrightarrow> fine R P x) \<Longrightarrow> (\<not> b \<Longrightarrow> fine R P y) \<Longrightarrow> fine R P (if b then x else y)"
  by simp

lemma fine_require: "(b \<Longrightarrow> P a) \<Longrightarrow> fine R P (require b a)"
  by (simp add: require_def)

lemma fine_table: "(\<And>m. P (f m)) \<Longrightarrow> fine R P (case r of None \<Rightarrow> fails | Some m \<Rightarrow> ok (f m))"
  by (simp split: option.split)

lemma fine_andthen:
  assumes "fine R P r" "\<And>a. P a \<Longrightarrow> fine R Q (k a)"
  shows "fine R Q (andthen r k)"
  using assms by (cases r rule: option.exhaust; cases "the r") (auto simp: andthen_def fine_def)

lemma fine_mono: "fine R P r \<Longrightarrow> (\<And>a. R a \<Longrightarrow> R' a) \<Longrightarrow> fine R' P r"
  by (auto simp: fine_def split: option.splits outcome.splits)

lemmas fine_intros = fine_if fine_require fine_table

section \<open>What the options keep\<close>

text \<open>The documented invariant of the forwarding sets is kept as well when it is asked for.\<close>

definition args_wf :: "bool \<Rightarrow> ('d, 'z) conf_api_scheme \<Rightarrow> lcore_env \<Rightarrow> 'd st \<Rightarrow> args \<Rightarrow> bool" where
  "args_wf b api env d a \<longleftrightarrow>
     env_ok env d (a_sets a) \<and> segs_wf (a_ctl a) \<and> length (tx_pkt_seg_lengths (a_tx a)) = RTE_MAX_SEGS_PER_PKT \<and>
     length (peer_eth_addrs (a_sets a)) = RTE_MAX_ETHPORTS \<and> length (port_numa (fw (a_sets a))) = RTE_MAX_ETHPORTS \<and>
     length (rxring_numa (a_ctl a)) = RTE_MAX_ETHPORTS \<and> length (txring_numa (a_ctl a)) = RTE_MAX_ETHPORTS \<and>
     length (socket_ids (fw (a_sets a))) \<le> RTE_MAX_NUMA_NODES \<and>
     check_nb_rxq api (nb_rxq (fw (a_sets a))) d = 0 \<and> check_nb_txq api (nb_txq (fw (a_sets a))) d = 0 \<and>
     (b \<longrightarrow> sets_inv env d (a_sets a))"

definition args_inv :: "bool \<Rightarrow> ('d, 'z) conf_api_scheme \<Rightarrow> lcore_env \<Rightarrow> 'd st \<Rightarrow> args \<Rightarrow> bool" where
  "args_inv b api env d a \<longleftrightarrow> args_wf b api env d a \<and> (nb_rxq (fw (a_sets a)) \<noteq> 0 \<or> nb_txq (fw (a_sets a)) \<noteq> 0)"

text \<open>Updates of other fields.\<close>

lemma args_wf_fields [simp]:
  "args_wf b api env d (a\<lparr>a_run := x0\<rparr>) = args_wf b api env d a"
  "args_wf b api env d (a\<lparr>cmdline_filename := x1\<rparr>) = args_wf b api env d a"
  "args_wf b api env d (a\<lparr>auto_start := x2\<rparr>) = args_wf b api env d a"
  "args_wf b api env d (a\<lparr>tx_first := x3\<rparr>) = args_wf b api env d a"
  "args_wf b api env d (a\<lparr>stats_period := x4\<rparr>) = args_wf b api env d a"
  "args_wf b api env d (a\<lparr>mp_alloc_type := x5\<rparr>) = args_wf b api env d a"
  "args_wf b api env d (a\<lparr>loc_rx_offloads := x6\<rparr>) = args_wf b api env d a"
  "args_wf b api env d (a\<lparr>loc_tx_offloads := x7\<rparr>) = args_wf b api env d a"
  "args_wf b api env d (a\<lparr>param_total_num_mbufs := x8\<rparr>) = args_wf b api env d a"
  "args_wf b api env d (a\<lparr>max_lro_pkt_size := x9\<rparr>) = args_wf b api env d a"
  "args_wf b api env d (a\<lparr>latencystats_lcore_id := x10\<rparr>) = args_wf b api env d a"
  "args_wf b api env d (a\<lparr>bitrate_lcore_id := x11\<rparr>) = args_wf b api env d a"
  "args_wf b api env d (a\<lparr>nb_pkt_per_burst := x12\<rparr>) = args_wf b api env d a"
  "args_wf b api env d (a\<lparr>nb_pkt_flowgen_clones := x13\<rparr>) = args_wf b api env d a"
  "args_wf b api env d (a\<lparr>nb_flows_flowgen := x14\<rparr>) = args_wf b api env d a"
  "args_wf b api env d (a\<lparr>mb_mempool_cache := x15\<rparr>) = args_wf b api env d a"
  "args_wf b api env d (a\<lparr>txonly_multi_flow := x16\<rparr>) = args_wf b api env d a"
  "args_wf b api env d (a\<lparr>no_device_start := x17\<rparr>) = args_wf b api env d a"
  "args_wf b api env d (a\<lparr>event_print_mask := x18\<rparr>) = args_wf b api env d a"
  "args_wf b api env d (a\<lparr>hot_plug := x19\<rparr>) = args_wf b api env d a"
  "args_wf b api env d (a\<lparr>do_mlockall := x20\<rparr>) = args_wf b api env d a"
  "args_wf b api env d (a\<lparr>noisy_tx_sw_bufsz := x21\<rparr>) = args_wf b api env d a"
  "args_wf b api env d (a\<lparr>noisy_tx_sw_buf_flush_time := x22\<rparr>) = args_wf b api env d a"
  "args_wf b api env d (a\<lparr>noisy_lkup_mem_sz := x23\<rparr>) = args_wf b api env d a"
  "args_wf b api env d (a\<lparr>noisy_lkup_num_writes := x24\<rparr>) = args_wf b api env d a"
  "args_wf b api env d (a\<lparr>noisy_lkup_num_reads := x25\<rparr>) = args_wf b api env d a"
  "args_wf b api env d (a\<lparr>noisy_lkup_num_reads_writes := x26\<rparr>) = args_wf b api env d a"
  "args_wf b api env d (a\<lparr>noisy_fwd_mode := x27\<rparr>) = args_wf b api env d a"
  "args_wf b api env d (a\<lparr>mempool_flags := x28\<rparr>) = args_wf b api env d a"
  "args_wf b api env d (a\<lparr>record_core_cycles := x29\<rparr>) = args_wf b api env d a"
  "args_wf b api env d (a\<lparr>record_burst_stats := x30\<rparr>) = args_wf b api env d a"
  "args_wf b api env d (upd_opts f a) = args_wf b api env d a"
  by (simp_all add: args_wf_def upd_opts_def)

lemma args_wf_fw [simp]:
  "args_wf False api env d (upd_fw (g_nb_fwd_ports_update (\<lambda>_. x0)) a) = args_wf False api env d a"
  "args_wf False api env d (upd_fw (g_nb_fwd_lcores_update (\<lambda>_. x1)) a) = args_wf False api env d a"
  "args_wf b api env d (upd_fw (numa_support_update (\<lambda>_. x2)) a) = args_wf b api env d a"
  "args_wf b api env d (upd_fw (socket_num_update (\<lambda>_. x3)) a) = args_wf b api env d a"
  "args_wf b api env d (upd_fw (topology_update (\<lambda>_. x4)) a) = args_wf b api env d a"
  "args_wf b api env d (upd_fw (rxq_share_update (\<lambda>_. x5)) a) = args_wf b api env d a"
  "args_wf b api env d (upd_fw (num_procs_update (\<lambda>_. x6)) a) = args_wf b api env d a"
  "args_wf b api env d (upd_fw (proc_id_update (\<lambda>_. x7)) a) = args_wf b api env d a"
  by (simp_all add: args_wf_def upd_fw_def env_ok_def sets_inv_def)

lemma args_wf_ctl [simp]:
  "args_wf b api env d (upd_ctl (nb_hairpinq_update (\<lambda>_. x0)) a) = args_wf b api env d a"
  "args_wf b api env d (upd_ctl (nb_rxd_update (\<lambda>_. x1)) a) = args_wf b api env d a"
  "args_wf b api env d (upd_ctl (nb_txd_update (\<lambda>_. x2)) a) = args_wf b api env d a"
  "args_wf b api env d (upd_ctl (hairpin_mode_update (\<lambda>_. x3)) a) = args_wf b api env d a"
  "args_wf b api env d (upd_ctl (flow_isolate_all_update (\<lambda>_. x4)) a) = args_wf b api env d a"
  "args_wf b api env d (upd_ctl (no_flow_flush_update (\<lambda>_. x5)) a) = args_wf b api env d a"
  "args_wf b api env d (upd_ctl (no_link_check_update (\<lambda>_. x6)) a) = args_wf b api env d a"
  "args_wf b api env d (upd_ctl (lsc_interrupt_update (\<lambda>_. x7)) a) = args_wf b api env d a"
  "args_wf b api env d (upd_ctl (multi_rx_mempool_update (\<lambda>_. x8)) a) = args_wf b api env d a"
  "args_wf b api env d (upd_ctl (xstats_display_update (\<lambda>_. x9)) a) = args_wf b api env d a"
  by (simp_all add: args_wf_def upd_ctl_def segs_wf_def)

lemma sets_fw [simp]:
  "fwd_ports_ids f = fwd_ports_ids (fw s) \<Longrightarrow> nb_ports f = nb_ports (fw s) \<Longrightarrow> env_ok env d (s\<lparr>fw := f\<rparr>) = env_ok env d s"
  "fwd_ports_ids f = fwd_ports_ids (fw s) \<Longrightarrow> nb_ports f = nb_ports (fw s) \<Longrightarrow> g_nb_fwd_ports f = g_nb_fwd_ports (fw s) \<Longrightarrow>
     g_nb_fwd_lcores f = g_nb_fwd_lcores (fw s) \<Longrightarrow> sets_inv env d (s\<lparr>fw := f\<rparr>) = sets_inv env d s"
  by (simp_all add: env_ok_def sets_inv_def)

lemmas wf_defs = args_wf_def segs_wf_def upd_fw_def upd_ctl_def

section \<open>Groups of options before the check of the queues\<close>

lemma read_peers_kept:
  "read_peers lib i ls s = (r, t) \<Longrightarrow> length (peer_eth_addrs t) = length (peer_eth_addrs s) \<and>
     t = s\<lparr>peer_eth_addrs := peer_eth_addrs t\<rparr>"
proof (induction ls arbitrary: i s)
  case (Cons l ls)
  show ?case
  proof (cases "i \<ge> RTE_MAX_ETHPORTS \<or> rte_ether_unformat_addr lib l = None")
    case False
    then obtain m where "rte_ether_unformat_addr lib l = Some m" by blast
    with False Cons.prems Cons.IH [of "i + 1" "s\<lparr>peer_eth_addrs := (peer_eth_addrs s)[i := m]\<rparr>"] show ?thesis by simp
  qed (use Cons.prems in \<open>auto split: if_splits\<close>)
qed auto

lemma peers_irrelevant [simp]:
  "env_ok env d (s\<lparr>peer_eth_addrs := ps\<rparr>) = env_ok env d s" "sets_inv env d (s\<lparr>peer_eth_addrs := ps\<rparr>) = sets_inv env d s"
  by (simp_all add: env_ok_def sets_inv_def)

lemma init_peers_wf:
  assumes "args_wf b api env d a" "init_peer_eth_addrs lib name a = (r, a')"
  shows "args_wf b api env d a'"
proof (cases "file_lines lib name")
  case (Some ls)
  obtain i t where r: "read_peers lib 0 ls (a_sets a) = (i, t)" by fastforce
  obtain ps where t: "t = (a_sets a)\<lparr>peer_eth_addrs := ps\<rparr>" "length ps = length (peer_eth_addrs (a_sets a))"
    using read_peers_kept [OF r] by metis
  with assms Some r show ?thesis
    by (auto simp: init_peer_eth_addrs_def args_wf_def split: option.splits)
qed (use assms in \<open>simp add: init_peer_eth_addrs_def\<close>)

text \<open>The arguments that the two options with unchecked arrays can take.\<close>

definition peer_safe :: "string \<Rightarrow> bool" where
  "peer_safe t \<longleftrightarrow> 0 \<le> sint (ucast (fst (strtoull 10 t)) :: u32)"

lemma eth_peer_fine:
  assumes "args_wf b api env d a" "peer_safe t"
  shows "fine R (args_wf b api env d) (eth_peer lib t a)"
proof -
  obtain v rest err where v: "strtoull 10 t = (v, rest, err)" by (rule prod_cases3)
  show ?thesis
    using assms by (auto simp: eth_peer_def v peer_safe_def Let_def args_wf_def split: option.split)
qed

lemma opt_general_fine:
  assumes "args_wf b api env d a" "name = ''eth-peer'' \<longrightarrow> peer_safe t"
  shows "fine R (args_wf b api env d) (opt_general lib name t a)"
proof -
  obtain r names where x: "parse_xstats_list lib t = (r, names)" by fastforce
  obtain i a1 where p: "init_peer_eth_addrs lib t a = (i, a1)" by fastforce
  from assms init_peers_wf [OF assms(1) p] eth_peer_fine [OF assms(1), of t R lib] show ?thesis
    unfolding opt_general_def x p split
    by (intro fine_intros) (auto split: prod.split)
qed

text \<open>A command that chooses cores or ports.\<close>

lemma set_run_wf:
  assumes "args_wf b api env d a" "set_run env d c (a_sets a) = Some s"
    "length (peer_eth_addrs s) = length (peer_eth_addrs (a_sets a))" "port_numa (fw s) = port_numa (fw (a_sets a))"
    "socket_ids (fw s) = socket_ids (fw (a_sets a))" "nb_rxq (fw s) = nb_rxq (fw (a_sets a))" "nb_txq (fw s) = nb_txq (fw (a_sets a))"
    "env_ok env d s"
  shows "args_wf b api env d (a\<lparr>a_sets := s\<rparr>)"
  using assms set_run_kept [OF _ _ assms(2)] by (auto simp: args_wf_def)

lemma cores_mask_fine:
  assumes "args_wf b api env d a"
  shows "fine R (args_wf b api env d) (parse_fwd_coremask env t a)"
proof -
  obtain cm rest e where v: "strtoull 16 t = (cm, rest, e)" by (rule prod_cases3)
  have "length (filter (bit cm) [0..<64]) \<le> length [0..<64]" by (rule length_filter_le)
  then have n: "length (filter (bit cm) [0..<64]) \<le> 128" by simp
  have e: "env_ok env d (a_sets a)" using assms by (simp add: args_wf_def)
  show ?thesis
  proof (cases "cm = 0 \<or> \<not> list_all (lcore_usable env) (map of_nat (filter (bit cm) [0..<64]))")
    case True
    then show ?thesis
      using assms by (auto simp: parse_fwd_coremask_def v set_fwd_lcores_mask_def set_fwd_lcores_list_def)
  next
    case False
    then obtain ids k l where m: "set_fwd_lcores_mask env cm (a_sets a) = Some (0, (a_sets a)\<lparr>fwd_lcores_cpuids := ids,
        nb_cfg_lcores := k, fw := (fw (a_sets a))\<lparr>g_nb_fwd_lcores := l\<rparr>\<rparr>)" "length ids = RTE_MAX_LCORE"
      using n e by (simp add: set_fwd_lcores_mask_def set_fwd_lcores_list_def overwrite_def env_ok_def)
    then show ?thesis
      using set_run_wf [OF assms, of "CoreMask cm"] e by (simp add: parse_fwd_coremask_def v env_ok_def)
  qed
qed

lemma ports_run_fine:
  assumes "args_wf b api env d a" "set_run env d c (a_sets a) = set_fwd_ports_list d ps (a_sets a)" "length ps \<le> RTE_MAX_ETHPORTS"
  shows "fine R (args_wf b api env d) (lift_set a (set_fwd_ports_list d ps (a_sets a)))"
proof -
  have e: "env_ok env d (a_sets a)" using assms by (simp add: args_wf_def)
  consider "set_fwd_ports_list d ps (a_sets a) = Some (a_sets a)" | ids n where
      "set_fwd_ports_list d ps (a_sets a) = Some ((a_sets a)\<lparr>nb_cfg_ports := n,
         fw := (fw (a_sets a))\<lparr>fwd_ports_ids := ids, g_nb_fwd_ports := n\<rparr>\<rparr>)" "length ids = RTE_MAX_ETHPORTS"
    using e assms(3) by (cases "list_all (\<lambda>p. \<not> port_id_is_invalid d p) (map ucast ps)")
      (simp_all add: set_fwd_ports_list_def overwrite_def Let_def env_ok_def)
  then show ?thesis
  proof cases
    case 2
    then show ?thesis using set_run_wf [OF assms(1), of c] e assms(2) by (auto simp: lift_set_def env_ok_def)
  qed (use assms(1) in \<open>simp add: lift_set_def\<close>)
qed

lemma ports_mask_fine:
  assumes "args_wf b api env d a"
  shows "fine R (args_wf b api env d) (parse_fwd_portmask d t a)"
proof -
  obtain pm rest e where v: "strtoull 16 t = (pm, rest, e)" by (rule prod_cases3)
  have e: "env_ok env d (a_sets a)" using assms by (simp add: args_wf_def)
  have small: "list_all (\<lambda>p. unat p < 64) (eth_devs d)" using e by (auto simp: env_ok_def list_all_iff)
  let ?ps = "map ucast (filter (\<lambda>p. bit pm (unat p)) (eth_devs d)) :: u32 list"
  have n: "length ?ps \<le> RTE_MAX_ETHPORTS"
    using devs_few [OF e] length_filter_le [of _ "eth_devs d"] order_trans by (metis length_map)
  have "fine R (args_wf b api env d) (lift_set a (set_fwd_ports_mask d pm (a_sets a)))"
  proof (cases "pm = 0")
    case False
    then show ?thesis using small ports_run_fine [OF assms _ n, of "PortMask pm" R] by (simp add: set_fwd_ports_mask_def)
  qed (use assms in \<open>simp add: set_fwd_ports_mask_def lift_set_def\<close>)
  then show ?thesis by (simp add: parse_fwd_portmask_def v)
qed

lemma ports_list_fine:
  assumes "args_wf b api env d a" "parse_port_list t RTE_MAX_ETHPORTS \<noteq> []"
  shows "fine R (args_wf b api env d) (lift_set a (parse_fwd_portlist d t (a_sets a)))"
proof -
  let ?ps = "map word_of_int (filter (\<lambda>p. word_of_int p \<in> set (eth_devs d)) (parse_port_list t RTE_MAX_ETHPORTS)) :: u32 list"
  have n: "length ?ps \<le> RTE_MAX_ETHPORTS"
    using fits_length [OF parse_port_list_fits [of RTE_MAX_ETHPORTS t]] length_filter_le order_trans by (metis length_map)
  show ?thesis using assms(2) ports_run_fine [OF assms(1) _ n, of "PortList t" R] by (simp add: parse_fwd_portlist_def Let_def)
qed

text \<open>The places of ports and rings on sockets.\<close>

lemma good_port:
  assumes "args_wf b api env d a" "\<not> bad_port d pid"
  shows "unat pid < RTE_MAX_ETHPORTS"
  using assms by (auto simp: args_wf_def env_ok_def bad_port_def port_id_is_invalid_def split: if_splits)

lemma numa_socket_wf:
  assumes "args_wf b api env d a" "numa_socket sock (fw (a_sets a)) = Some f"
  shows "args_wf b api env d (upd_fw (\<lambda>_. f) a)"
  using assms by (auto simp: numa_socket_def wf_defs split: if_splits)

lemma portnuma_wf:
  "args_wf b api env d a \<Longrightarrow> \<exists>r a'. parse_portnuma_config lib d t a = Some (r, a') \<and> args_wf b api env d a'"
proof (induction lib d t a rule: parse_portnuma_config.induct)
  case (1 lib d t a)
  show ?case
  proof (cases "next_group lib 2 t")
    case (Group vs rest)
    let ?pid = "ucast (vs ! 0) :: u16"
    show ?thesis
    proof (cases "bad_port d ?pid \<or> numa_socket (vs ! 1) (fw (a_sets a)) = None")
      case True
      then show ?thesis using Group 1(2) by (subst parse_portnuma_config.simps) (auto simp: Let_def split: option.split)
    next
      case False
      then obtain f where f: "numa_socket (vs ! 1) (fw (a_sets a)) = Some f" by blast
      have l: "unat ?pid < length (port_numa f)"
        using good_port [OF 1(2), of ?pid] False numa_socket_wf [OF 1(2) f] by (simp add: args_wf_def upd_fw_def)
      have "args_wf b api env d (upd_fw (\<lambda>_. f\<lparr>port_numa := (port_numa f)[unat ?pid := vs ! 1]\<rparr>) a)"
        using numa_socket_wf [OF 1(2) f]
        by (simp add: args_wf_def upd_fw_def sets_fw [of "f\<lparr>port_numa := _\<rparr>" "(a_sets a)\<lparr>fw := f\<rparr>", simplified])
      from "1.IH" [OF Group refl _ f l this] False show ?thesis
        using Group f l by (subst parse_portnuma_config.simps) (simp add: Let_def)
    qed
  qed (use 1(2) in \<open>simp_all add: parse_portnuma_config.simps [of lib d t]\<close>)
qed

lemma ringnuma_wf:
  "args_wf b api env d a \<Longrightarrow> \<exists>r a'. parse_ringnuma_config lib d t a = Some (r, a') \<and> args_wf b api env d a'"
proof (induction lib d t a rule: parse_ringnuma_config.induct)
  case (1 lib d t a)
  show ?case
  proof (cases "next_group lib 3 t")
    case (Group vs rest)
    let ?pid = "ucast (vs ! 0) :: u16"
    show ?thesis
    proof (cases "bad_port d ?pid \<or> numa_socket (vs ! 2) (fw (a_sets a)) = None")
      case True
      then show ?thesis using Group 1(2) by (subst parse_ringnuma_config.simps) (auto simp: Let_def split: option.split)
    next
      case False
      then obtain f where f: "numa_socket (vs ! 2) (fw (a_sets a)) = Some f" by blast
      let ?a = "upd_fw (\<lambda>_. f) a"
      have w: "args_wf b api env d ?a" by (rule numa_socket_wf [OF 1(2) f])
      show ?thesis
      proof (cases "vs ! 1 < 1 \<or> vs ! 1 > 3")
        case True
        then show ?thesis using Group f False w by (subst parse_ringnuma_config.simps) (simp add: Let_def)
      next
        case ring: False
        obtain c where c: "set_rings (vs ! 1) ?pid (vs ! 2) (a_ctl ?a) = Some c" "args_wf b api env d (upd_ctl (\<lambda>_. c) ?a)"
          using good_port [OF 1(2), of ?pid] False w by (auto simp: set_rings_def wf_defs)
        from "1.IH" [OF Group refl _ f refl ring c] False show ?thesis
          using Group f ring c by (subst parse_ringnuma_config.simps) (simp add: Let_def)
      qed
    qed
  qed (use 1(2) in \<open>simp_all add: parse_ringnuma_config.simps [of lib d t]\<close>)
qed

lemma opt_sets_fine:
  assumes "args_wf b api env d a" "b \<longrightarrow> name \<notin> {''nb-ports'', ''nb-cores''}"
  shows "fine R (args_wf b api env d) (opt_sets lib env d name t a)"
proof -
  obtain r1 a1 r2 a2 where n: "parse_portnuma_config lib d t a = Some (r1, a1)" "args_wf b api env d a1"
    "parse_ringnuma_config lib d t a = Some (r2, a2)" "args_wf b api env d a2"
    using portnuma_wf [OF assms(1)] ringnuma_wf [OF assms(1)] by metis
  show ?thesis
    unfolding opt_sets_def Let_def n option.case split
    by (intro fine_intros cores_mask_fine ports_mask_fine ports_list_fine assms(1)) (use assms n in \<open>cases b; simp\<close>)+
qed

lemma item_chars_length: "item_chars m s a = Some b \<Longrightarrow> length (ia_items a) \<le> ia_nb a \<Longrightarrow> length (ia_items b) \<le> ia_nb b"
  by (induction m s a rule: item_chars.induct) (auto split: if_splits)

lemma parse_item_list_length: "length (parse_item_list s m u) \<le> m"
  using item_chars_length [of m "take 128 s" "\<lparr>ia_value = 0, ia_ok = False, ia_nb = 0, ia_items = []\<rparr>"]
  by (auto simp: parse_item_list_def Let_def split: option.split)

lemma opt_memory_fine:
  assumes "args_wf b api env d a"
  shows "fine R (args_wf b api env d) (opt_memory name t a)"
proof -
  let ?xs = "parse_item_list t MAX_SEGS_BUFFER_SPLIT False"
  have l: "length ?xs \<le> 8" by (rule parse_item_list_length)
  then have u: "unat (of_nat (length ?xs) :: u32) = length ?xs" by (simp add: unat_of_nat take_bit_nat_eq_self)
  have "fine R (args_wf b api env d) (mbuf_size_option t a)"
    using assms l u by (auto simp: mbuf_size_option_def Let_def overwrite_def wf_defs word_less_nat_alt word_le_nat_alt)
  then show ?thesis
    unfolding opt_memory_def Let_def using assms by (intro fine_intros) simp_all
qed

lemma opt_modes_fine:
  assumes "args_wf b api env d a"
  shows "fine R (args_wf b api env d) (opt_modes name t a)"
proof -
  have "args_wf b api env d (upd_fw (set_pkt_forwarding_mode t) a)"
    using assms by (simp add: wf_defs set_pkt_forwarding_mode_def split: option.split)
  then show ?thesis
    unfolding opt_modes_def using assms
    by (cases "map_of rx_flag_table name"; simp only: option.case; (intro fine_intros)?; simp)
qed

lemma hairpin_small: "check_nb_hairpinq api w d = 0 \<Longrightarrow> w \<le> 1024"
  using check_nb_hairpinq_exact [of api w d] word_zero_le [of "1024 :: u16"] by blast

lemma hairpin_sum:
  assumes "check_nb_hairpinq api (word_of_int n) d = 0" "n < 2 ^ 31" "unat (q :: u16) \<le> 1024"
  shows "n + uint q < 2 ^ 31"
proof -
  have a: "n mod 65536 \<le> 1024" using hairpin_small [OF assms(1)] by (simp add: word_le_def uint_word_of_int)
  have b: "n div 65536 \<le> 32767" by (rule order_trans [OF zdiv_mono1 [of n 2147483647 65536]]) (use assms(2) in simp_all)
  have c: "uint q \<le> 1024" using assms(3) unfolding unat_eq_nat_uint nat_le_iff by simp
  define k r where "k = n div 65536" and "r = n mod 65536"
  have "n = k * 65536 + r" unfolding k_def r_def by (rule div_mult_mod_eq [symmetric])
  moreover have "r \<le> 1024" "k \<le> 32767" using a b by (simp_all only: k_def r_def)
  ultimately show ?thesis using c by simp
qed

lemma queues_bounded:
  assumes "args_wf b api env d a"
  shows "unat (nb_rxq (fw (a_sets a))) \<le> 1024" "unat (nb_txq (fw (a_sets a))) \<le> 1024"
  using assms queue_limits_exact [of api "nb_rxq (fw (a_sets a))" d] queue_limits_exact [of api "nb_txq (fw (a_sets a))" d]
  by (auto simp: args_wf_def word_le_nat_alt)

lemma opt_queues_fine:
  assumes "args_wf b api env d a"
  shows "fine R (args_wf b api env d) (opt_queues api d name t a)"
proof -
  let ?n = "atoi t"
  have "?n < 2 ^ 31" using atoi_range by blast
  then have h: "?n + uint (nb_txq (fw (a_sets a))) < 2 ^ 31 \<and> ?n + uint (nb_rxq (fw (a_sets a))) < 2 ^ 31"
    if "check_nb_hairpinq api (word_of_int ?n) d = 0"
    using hairpin_sum [OF that] queues_bounded [OF assms] by blast
  have q: "args_wf b api env d (upd_fw (\<lambda>f. f\<lparr>nb_rxq := word_of_int ?n\<rparr>) a)" if "check_nb_rxq api (word_of_int ?n) d = 0"
    using assms that by (simp add: wf_defs)
  have q': "args_wf b api env d (upd_fw (\<lambda>f. f\<lparr>nb_txq := word_of_int ?n\<rparr>) a)" if "check_nb_txq api (word_of_int ?n) d = 0"
    using assms that by (simp add: wf_defs)
  show ?thesis
    unfolding opt_queues_def Let_def by (intro fine_intros) (use assms h q q' in \<open>auto simp: not_less\<close>)
qed

lemma some_queues_fine: "args_wf b api env d a \<Longrightarrow> fine R (args_inv b api env d) (some_queues a)"
  by (simp add: some_queues_def require_def args_inv_def)

section \<open>Groups of options behind it\<close>

lemma upd_sets [simp]:
  "a_sets (upd_opts f a) = a_sets a" "a_sets (upd_ctl g a) = a_sets a" "fw (a_sets (upd_fw h a)) = h (fw (a_sets a))"
  by (simp_all add: upd_opts_def upd_ctl_def upd_fw_def)

text \<open>
  The function returns in the middle of the options only when the first device does not answer; otherwise the process
  number has been checked when it returns.
\<close>

definition args_early :: "bool \<Rightarrow> ('d, 'z) conf_api_scheme \<Rightarrow> lcore_env \<Rightarrow> 'd st \<Rightarrow> args \<Rightarrow> bool" where
  "args_early b api env d a \<longleftrightarrow> args_inv b api env d a \<and> \<not> answers api (dev d) 0"

definition args_done :: "bool \<Rightarrow> ('d, 'z) conf_api_scheme \<Rightarrow> lcore_env \<Rightarrow> 'd st \<Rightarrow> args \<Rightarrow> bool" where
  "args_done b api env d a \<longleftrightarrow> args_inv b api env d a \<and>
     (answers api (dev d) 0 \<longrightarrow> proc_id (fw (a_sets a)) < to_int (num_procs (fw (a_sets a))))"

lemma opt_numbers_fine:
  assumes "args_inv b api env d a"
  shows "fine (args_early b api env d) (args_inv b api env d) (opt_numbers api d name t a)"
proof -
  obtain v rest err where v: "strtoull 0 t = (v, rest, err)" by (rule prod_cases3)
  obtain ret info where i: "eth_dev_info_get_print_err api 0 (dev d) = (ret, info)" by fastforce
  then have "ret \<noteq> 0 \<Longrightarrow> \<not> answers api (dev d) 0" by (simp add: answers_def eth_dev_info_get_print_err_def)
  then have "fine (args_early b api env d) (args_inv b api env d) (burst_option api d (atoi t) a)"
    unfolding burst_option_def i split
    by (intro fine_intros) (use assms in \<open>simp_all add: args_inv_def args_early_def\<close>)
  then show ?thesis
    unfolding opt_numbers_def Let_def v split
    by (intro fine_intros) (use assms in \<open>simp_all add: args_inv_def\<close>)
qed

lemma opt_thresholds_fine:
  assumes "args_inv b api env d a"
  shows "fine R (args_inv b api env d) (opt_thresholds name t a)"
  unfolding opt_thresholds_def Let_def by (intro fine_intros) (use assms in \<open>simp_all add: args_inv_def\<close>)

text \<open>The devices have port descriptors with an array of ring sizes for every queue.\<close>

definition devs_known :: "'d st \<Rightarrow> bool" where
  "devs_known d \<longleftrightarrow> (\<forall>p \<in> set (eth_devs d). \<exists>port. port_get d p = Some port \<and> 1024 \<le> length (nb_tx_desc port))"

lemma ring_sizes_known:
  assumes "devs_known d" "p \<in> set (eth_devs d)" "q < 1024"
  shows "get_tx_ring_size sapi p q d \<noteq> None"
proof -
  obtain port where "port_get d p = Some port" "1024 \<le> length (nb_tx_desc port)"
    using assms(1,2) by (auto simp: devs_known_def)
  with assms(3) show ?thesis by (simp add: get_tx_ring_size_def at_def split: prod.split)
qed

lemma tx_segments_total:
  assumes "args_wf b api env d a" "devs_known d"
  shows "\<exists>x. set_tx_pkt_segments sapi (a_ctl a) (fw (a_sets a)) d lens (a_tx a) = Some x \<and> length (tx_pkt_seg_lengths x) = 255"
proof -
  let ?q = "unat (nb_txq (fw (a_sets a)))"
  have "\<forall>(p, q) \<in> set (List.product (eth_devs d) [0..<?q]). get_tx_ring_size sapi p q d = Some (the (get_tx_ring_size sapi p q d))"
    using ring_sizes_known [OF assms(2), of _ _ sapi] queues_bounded(2) [OF assms(1)] by auto
  from segs_scan_exact [OF this] obtain b where "nb_segs_is_invalid sapi (fw (a_sets a)) (length lens) d = Some b"
    unfolding nb_segs_is_invalid_def by blast
  moreover have "at (mbuf_data_sizes (a_ctl a)) 0 = Some (mbuf_data_sizes (a_ctl a) ! 0)"
    using assms(1) by (simp add: args_wf_def segs_wf_def at_def)
  ultimately show ?thesis
    using assms(1) by (auto simp: set_tx_pkt_segments_def overwrite_def args_wf_def)
qed

definition hdrs_safe :: "string \<Rightarrow> bool" where
  "hdrs_safe t \<longleftrightarrow> length (Segments.fields [] t) \<le> MAX_SEGS_BUFFER_SPLIT"

lemma opt_packets_fine:
  assumes "args_inv b api env d a" "devs_known d" "name = ''rxhdrs'' \<longrightarrow> hdrs_safe t"
  shows "fine R (args_inv b api env d) (opt_packets sapi d name t a)"
proof -
  have w: "args_wf b api env d a" using assms(1) by (simp add: args_inv_def)
  then have s: "segs_wf (a_ctl a)" by (simp add: args_wf_def)
  have c: "fine R (args_inv b api env d) (lift_ctl a r)"
    if "\<exists>c'. r = Some c' \<and> segs_wf c' \<and> rxring_numa c' = rxring_numa (a_ctl a) \<and> txring_numa c' = txring_numa (a_ctl a)" for r
    using that assms(1) by (auto simp: lift_ctl_def args_inv_def args_wf_def)
  have k: "\<exists>c'. f xs (a_ctl a) = Some c' \<and> segs_wf c' \<and> rxring_numa c' = rxring_numa (a_ctl a) \<and> txring_numa c' = txring_numa (a_ctl a)"
    if "f \<in> {set_rx_pkt_offsets, set_rx_pkt_segments, set_rx_pkt_hdrs}" for f xs
    using set_rx_pkt_wf [OF s, of xs] that
    by (auto simp: set_rx_pkt_offsets_def set_rx_pkt_segments_def set_rx_pkt_hdrs_def split: if_splits)
  obtain x where x: "set_tx_pkt_segments sapi (a_ctl a) (fw (a_sets a)) d (parse_item_list t RTE_MAX_SEGS_PER_PKT False) (a_tx a) = Some x"
    "length (tx_pkt_seg_lengths x) = 255"
    using tx_segments_total [OF w assms(2)] by blast
  have h: "name = ''rxhdrs'' \<Longrightarrow> parse_hdrs_list t MAX_SEGS_BUFFER_SPLIT = Some (map get_ptype (Segments.fields [] t))"
    using assms(3) by (simp add: hdrs_safe_def parse_hdrs_list_def Let_def)
  show ?thesis
    unfolding opt_packets_def Let_def x option.map
    by (intro fine_if c k) (use assms(1) x h c k in \<open>auto simp: args_inv_def args_wf_def split: option.split\<close>)
qed

lemma opt_flags_fine:
  assumes "args_inv b api env d a"
  shows "fine R (args_inv b api env d) (opt_flags name x a)"
  unfolding opt_flags_def Let_def
  by (intro fine_intros) (use assms in \<open>simp_all add: args_inv_def\<close>)

lemma opt_events_fine:
  assumes "args_inv b api env d a"
  shows "fine R (args_inv b api env d) (opt_events name t a)"
proof -
  have p: "fine R (args_inv b api env d) (case r of (ret, m) \<Rightarrow> require (ret = 0) (a\<lparr>event_print_mask := m\<rparr>))" for r :: "int \<times> u32"
    using assms by (cases r) (simp add: require_def args_inv_def)
  show ?thesis
    unfolding opt_events_def Let_def by (intro fine_intros p) (use assms in \<open>simp_all add: args_inv_def\<close>)
qed

lemma opt_noisy_fine:
  assumes "args_inv b api env d a"
  shows "fine R (args_inv b api env d) (opt_noisy name t a)"
  unfolding opt_noisy_def Let_def by (intro fine_intros) (use assms in \<open>simp_all add: args_inv_def\<close>)

lemma opt_process_fine:
  assumes "args_inv b api env d a"
  shows "fine R (args_inv b api env d) (opt_process name t a)"
  unfolding opt_process_def Let_def by (intro fine_intros) (use assms in \<open>simp_all add: args_inv_def\<close>)

section \<open>The command line\<close>

text \<open>
  An option that the code can take: its argument is there when the table of options asks for one, and the arguments of
  the two options that write to an array without a complete check stay inside.
\<close>

fun opt_safe :: "bool \<Rightarrow> opt \<Rightarrow> bool" where
  "opt_safe b (OptLong name x) \<longleftrightarrow>
     (b \<longrightarrow> name \<notin> {''nb-ports'', ''nb-cores''}) \<and>
     (map_of lgopts name = Some 1 \<longrightarrow> x \<noteq> None) \<and>
     (name = ''eth-peer'' \<longrightarrow> (\<forall>t. x = Some t \<longrightarrow> peer_safe t)) \<and> (name = ''rxhdrs'' \<longrightarrow> (\<forall>t. x = Some t \<longrightarrow> hdrs_safe t))"
| "opt_safe b _ \<longleftrightarrow> True"

lemma long_option_fine:
  assumes "args_inv b api env d a" "devs_known d" "opt_safe b (OptLong name x)"
  shows "fine (args_early b api env d) (args_inv b api env d) (long_option api sapi lib env d name x a)"
proof -
  define t where "t = (case x of None \<Rightarrow> [] | Some t \<Rightarrow> t)"
  have e: "peer_safe []" "hdrs_safe []" by (simp_all add: peer_safe_def hdrs_safe_def strtoull_def split_sign_def base_of_def)
  have p: "name = ''eth-peer'' \<longrightarrow> peer_safe t" "name = ''rxhdrs'' \<longrightarrow> hdrs_safe t"
    using assms(3) e by (auto simp: t_def split: option.split)
  have w: "args_wf b api env d a" using assms(1) by (simp add: args_inv_def)
  have n: "b \<longrightarrow> name \<notin> {''nb-ports'', ''nb-cores''}" using assms(3) by simp
  have s: "fine (args_early b api env d) (args_inv b api env d) (opt_general lib name t a)" if "name = ''stats-period''"
    using assms(1) that by (auto simp: opt_general_def args_inv_def split: prod.split)
  have g: "fine (args_early b api env d) (args_inv b api env d) (foldl andthen (opt_general lib name t a)
      [opt_sets lib env d name t, opt_memory name t, opt_modes name t, opt_queues api d name t, some_queues,
       opt_numbers api d name t, opt_thresholds name t, opt_packets sapi d name t, opt_flags name x,
       opt_events name t, opt_noisy name t, opt_process name t])"
    unfolding foldl.simps
    by (rule fine_andthen opt_general_fine [OF w p(1)] opt_sets_fine [OF _ n] opt_memory_fine opt_modes_fine opt_queues_fine
        some_queues_fine opt_numbers_fine opt_thresholds_fine opt_packets_fine [OF _ assms(2) p(2)] opt_flags_fine
        opt_events_fine opt_noisy_fine opt_process_fine | assumption)+
  have "\<not> (map_of lgopts name = Some 1 \<and> x = None)" using assms(3) by auto
  then show ?thesis
    unfolding long_option_def Let_def t_def [symmetric] using s g by simp
qed

lemma options_loop_fine:
  assumes "devs_known d" "\<forall>x \<in> set xs. opt_safe b x" "args_inv b api env d a"
  shows "fine (args_early b api env d) (args_inv b api env d) (options_loop api sapi lib env d xs a)"
  using assms(2,3)
proof (induction xs arbitrary: a)
  case (Cons x xs)
  have "fine (args_early b api env d) (args_inv b api env d) (case x of
        OptI \<Rightarrow> ok (a\<lparr>a_run := (a_run a)\<lparr>interactive := True\<rparr>\<rparr>)
      | OptA \<Rightarrow> ok (a\<lparr>auto_start := True\<rparr>)
      | OptH \<Rightarrow> Some (Exit EXIT_SUCCESS)
      | OptLong name v \<Rightarrow> long_option api sapi lib env d name v a
      | OptBad \<Rightarrow> fails)"
    using Cons.prems long_option_fine [OF Cons.prems(2) assms(1)] by (cases x) (auto simp: args_inv_def)
  then show ?case unfolding options_loop.simps by (rule fine_andthen) (use Cons.IH Cons.prems(1) in simp)
qed simp

text \<open>
  C18: Every command line whose options have their arguments, with a peer number that is not negative and at most eight
  headers, is taken without undefined behaviour: the process ends, or the function returns with all arrays of their size,
  the tables of sockets not overfull, numbers of queues that all devices accept and that are not both zero and, when the
  first device answers, a process number below the number of processes.
\<close>

theorem launch_args_parse_safe:
  assumes "args_inv b api env d a" "devs_known d" "\<forall>x \<in> set opts. opt_safe b x"
  shows "(\<exists>code. launch_args_parse api sapi lib env d opts rest a = Some (Exit code)) \<or>
    (\<exists>a'. launch_args_parse api sapi lib env d opts rest a = Some (Return a') \<and> args_inv b api env d a' \<and>
       (answers api (dev d) 0 \<longrightarrow> proc_id (fw (a_sets a')) < to_int (num_procs (fw (a_sets a')))))"
proof -
  let ?a = "a\<lparr>loc_rx_offloads := rx_mode_offloads (a_opts a), loc_tx_offloads := tx_mode_offloads (a_opts a)\<rparr>"
  have "args_inv b api env d ?a" using assms(1) by (simp add: args_inv_def)
  from options_loop_fine [OF assms(2,3) this]
  have "fine (args_done b api env d) (args_inv b api env d) (options_loop api sapi lib env d opts ?a)"
    by (rule fine_mono) (simp add: args_early_def args_done_def)
  moreover have "fine (args_done b api env d) (\<lambda>_. False) (finish_args rest c)" if "args_inv b api env d c" for c
    using that by (simp add: finish_args_def Let_def args_done_def args_inv_def)
  ultimately have "fine (args_done b api env d) (\<lambda>_. False) (launch_args_parse api sapi lib env d opts rest a)"
    unfolding launch_args_parse_def by (rule fine_andthen)
  then show ?thesis
    unfolding fine_def args_done_def by (auto split: option.splits outcome.splits)
qed

section \<open>Single options\<close>

lemma andthen_ok [simp]: "andthen (ok a) k = k a"
  by (simp add: andthen_def)

lemma andthen_id [simp]: "andthen r (\<lambda>a. ok a) = r"
  by (simp add: andthen_def split: option.split outcome.split)

lemma long_option_burst:
  "long_option api sapi lib env d ''burst'' (Some t) a = andthen (some_queues a) (burst_option api d (atoi t))"
proof -
  have "opt_general lib ''burst'' t a = ok a" "opt_sets lib env d ''burst'' t a = ok a" "opt_memory ''burst'' t a = ok a"
    "opt_modes ''burst'' t a = ok a" "opt_queues api d ''burst'' t a = ok a" for a
    by (simp_all add: opt_general_def opt_sets_def opt_memory_def opt_modes_def opt_queues_def rx_flag_table_def)
  moreover have "opt_numbers api d ''burst'' t = burst_option api d (atoi t)"
    by (rule ext) (simp add: opt_numbers_def)
  moreover have "opt_thresholds ''burst'' t = (\<lambda>a. ok a)" "opt_packets sapi d ''burst'' t = (\<lambda>a. ok a)"
    "opt_flags ''burst'' (Some t) = (\<lambda>a. ok a)" "opt_events ''burst'' t = (\<lambda>a. ok a)" "opt_noisy ''burst'' t = (\<lambda>a. ok a)"
    "opt_process ''burst'' t = (\<lambda>a. ok a)"
    by (simp_all add: fun_eq_iff opt_thresholds_def opt_packets_def opt_flags_def opt_events_def opt_noisy_def opt_process_def)
  ultimately show ?thesis by (simp add: long_option_def)
qed


section \<open>Places on sockets\<close>

text \<open>
  Splitting a text at a character: the fields come back when there are as many as asked for, none is empty and none
  has the character.
\<close>

definition strsplit_law :: "arg_lib \<Rightarrow> bool" where
  "strsplit_law lib \<longleftrightarrow> (\<forall>xs. xs \<noteq> [] \<and> (\<forall>x \<in> set xs. x \<noteq> [] \<and> CHR '','' \<notin> set x) \<longrightarrow>
     rte_strsplit lib (commas xs) (length xs) (CHR '','') = xs)"

definition group_text :: "nat \<times> nat \<Rightarrow> string" where
  "group_text g = (case g of (p, s) \<Rightarrow> ''('' @ commas [dec p, dec s] @ '')'')"

lemma dec_plain: "c \<in> set (dec n) \<Longrightarrow> c \<noteq> CHR '','' \<and> c \<noteq> CHR ''('' \<and> c \<noteq> CHR '')''"
  using dec_digits(1) [of n] by (auto simp: isdigit_def)

lemma dec_short: "n < 256 \<Longrightarrow> length (dec n) \<le> 3"
  by (simp add: dec.simps [of n] dec.simps [of "n div 10"] dec.simps [of "n div 10 div 10"])

lemma numa_number_dec: "n < 256 \<Longrightarrow> numa_number (dec n) = Some (of_nat n)"
  using dec_digits(2) [of n]
  by (simp add: numa_number_def strtoull_dec word_less_nat_alt unat_of_nat take_bit_nat_eq_self unsigned_of_nat)

lemma next_group_text:
  assumes "strsplit_law lib" "p < 256" "s < 256" "CHR ''('' \<notin> set pre"
  shows "next_group lib 2 (pre @ group_text (p, s) @ rest) = Group [of_nat p, of_nat s] (CHR '')'' # rest)"
proof -
  let ?w = "dec p @ '','' @ dec s"
  have split: "rte_strsplit lib ?w 2 (CHR '','') = [dec p, dec s]"
  proof -
    have "\<forall>x \<in> set [dec p, dec s]. x \<noteq> [] \<and> CHR '','' \<notin> set x"
      using dec_digits(2) dec_plain by (metis empty_iff insert_iff list.set(1,2))
    then have "rte_strsplit lib (commas [dec p, dec s]) (length [dec p, dec s]) (CHR '','') = [dec p, dec s]"
      using assms(1) unfolding strsplit_law_def by (metis list.distinct(1))
    then show ?thesis by (simp add: numeral_2_eq_2)
  qed
  have d: "dropWhile (\<lambda>c. c \<noteq> CHR ''('') (pre @ group_text (p, s) @ rest) = CHR ''('' # ?w @ CHR '')'' # rest"
  proof -
    have "\<forall>c \<in> set pre. c \<noteq> CHR ''(''" using assms(4) by auto
    then show ?thesis by (simp add: dropWhile_append2 group_text_def)
  qed
  have plain: "\<forall>c \<in> set ?w. c \<noteq> CHR '')''" using dec_plain by (auto)
  then have t: "takeWhile (\<lambda>c. c \<noteq> CHR '')'') (?w @ CHR '')'' # rest) = ?w"
    "dropWhile (\<lambda>c. c \<noteq> CHR '')'') (?w @ CHR '')'' # rest) = CHR '')'' # rest"
    using takeWhile_append2 [of ?w "\<lambda>c. c \<noteq> CHR '')''"] dropWhile_append2 [of ?w "\<lambda>c. c \<noteq> CHR '')''"] by auto
  have "length ?w < 256" using dec_short [OF assms(2)] dec_short [OF assms(3)] by simp
  then show ?thesis
    unfolding next_group_def d list.case t Let_def split
    using assms(2,3) by (simp add: numa_number_dec)
qed

text \<open>What one group does.\<close>

definition place :: "args \<Rightarrow> nat \<times> nat \<Rightarrow> args" where
  "place a g = (case g of (p, s) \<Rightarrow> upd_fw (\<lambda>f.
     (if new_socket_id (socket_ids f) (of_nat s) then f\<lparr>socket_ids := socket_ids f @ [of_nat s]\<rparr> else f)
       \<lparr>port_numa := (port_numa f)[p := of_nat s]\<rparr>) a)"

lemma parse_groups:
  assumes "strsplit_law lib" "\<forall>(p, s) \<in> set gs. of_nat p \<in> set (eth_devs d) \<and> p < 32 \<and> s < 256" "CHR ''('' \<notin> set pre"
    "length (port_numa (fw (a_sets a))) = 32" "length (socket_ids (fw (a_sets a))) + length gs \<le> 32"
  shows "parse_portnuma_config lib d (pre @ concat (map group_text gs)) a = Some (0, foldl place a gs)"
  using assms(2-5)
proof (induction gs arbitrary: pre a)
  case Nil
  then have "dropWhile (\<lambda>c. c \<noteq> CHR ''('') pre = []" by auto
  then have "next_group lib 2 pre = NoGroup" unfolding next_group_def by (simp only: list.case)
  then show ?case by (subst parse_portnuma_config.simps) simp
next
  case (Cons g gs)
  obtain p s where g: "g = (p, s)" by fastforce
  then have p: "of_nat p \<in> set (eth_devs d)" "p < 32" "s < 256" using Cons.prems(1) by auto
  have n: "next_group lib 2 (pre @ concat (map group_text (g # gs))) = Group [of_nat p, of_nat s] (CHR '')'' # concat (map group_text gs))"
    using next_group_text [OF assms(1), of p s pre] p Cons.prems(2) g by simp
  have w: "(ucast (of_nat p :: u8) :: u16) = of_nat p" "unat (of_nat p :: u16) = p" "(ucast (of_nat s :: u8) :: u32) = of_nat s"
    using p by (simp_all add: unsigned_of_nat unat_of_nat take_bit_nat_eq_self)
  then have "of_nat p \<noteq> RTE_PORT_ALL" using p(2) by auto
  with p have b: "\<not> bad_port d (of_nat p)" by (simp add: bad_port_def port_id_is_invalid_def)
  obtain f where f: "numa_socket (of_nat s) (fw (a_sets a)) = Some f" "place a g = upd_fw (\<lambda>_. f\<lparr>port_numa := (port_numa f)[p := of_nat s]\<rparr>) a"
    "length (port_numa f) = 32"
    using Cons.prems(3,4) w(3)
    by (cases "new_socket_id (socket_ids (fw (a_sets a))) (of_nat s)") (simp_all add: numa_socket_def place_def g upd_fw_def)
  have "parse_portnuma_config lib d (pre @ concat (map group_text (g # gs))) a =
      parse_portnuma_config lib d ('')'' @ concat (map group_text gs)) (place a g)"
    using f b w p(2) by (subst parse_portnuma_config.simps) (simp add: n [simplified] Let_def)
  also have "\<dots> = Some (0, foldl place (place a g) gs)"
    using Cons.prems by (intro Cons.IH) (auto simp: place_def g upd_fw_def)
  finally show ?case by simp
qed

lemma place_foldl:
  "port_numa (fw (a_sets (foldl place a gs))) = foldl (\<lambda>xs (p, s). xs[p := of_nat s]) (port_numa (fw (a_sets a))) gs"
  "set (socket_ids (fw (a_sets (foldl place a gs)))) = set (socket_ids (fw (a_sets a))) \<union> (\<lambda>(p, s). of_nat s) ` set gs"
  by (induction gs arbitrary: a) (auto simp: place_def upd_fw_def new_socket_id_def split: prod.splits)

text \<open>
  C20: A line that gives sockets to ports, printed with a group for every port, is read back: the table of sockets has
  for every port the socket of its last group, all other entries are as before, and the known sockets are those before and
  those of the line.
\<close>

theorem portnuma_roundtrip:
  assumes "strsplit_law lib" "\<forall>(p, s) \<in> set gs. of_nat p \<in> set (eth_devs d) \<and> p < 32 \<and> s < 256"
    and "length (port_numa (fw (a_sets a))) = 32" "length (socket_ids (fw (a_sets a))) + length gs \<le> 32"
  shows "\<exists>a'. parse_portnuma_config lib d (concat (map group_text gs)) a = Some (0, a') \<and>
    port_numa (fw (a_sets a')) = foldl (\<lambda>xs (p, s). xs[p := of_nat s]) (port_numa (fw (a_sets a))) gs \<and>
    set (socket_ids (fw (a_sets a'))) = set (socket_ids (fw (a_sets a))) \<union> (\<lambda>(p, s). of_nat s) ` set gs"
  using parse_groups [OF assms(1,2), of "[]" a] assms(3,4) place_foldl by auto

end
