(* ===== verification/Launch.thy ===== *)
theory Launch
  imports OptionLaws
begin

text \<open>
  How the data plane is launched (\<^verbatim>\<open>count_args\<close>, \<^verbatim>\<open>create_eal_params\<close>, \<^verbatim>\<open>init_port\<close> and the first half of
  \<^verbatim>\<open>start_dpdk_datapath\<close> of \<^verbatim>\<open>dpdk.cpp\<close>): the configuration file becomes a command line, which is split into words, given to the
  environment library and then to the parser of the options.
\<close>

section \<open>Configuration\<close>

text \<open>
  What the configuration file holds, as the JSON library delivers it: texts, texts of members that may be missing,
  the number of descriptors as a number and as a text, and the logical ports with the number of their cores.
\<close>

record config =
  lcore_related :: string
  memory_related :: string
  device_related :: string
  multi_process_related :: string
  debugging_related :: string
  mp_alloc_conf :: "string option"
  mbuf_size_conf :: "string option"
  total_num_mbufs_conf :: "string option"
  mbcache_conf :: "string option"
  max_pkt_len_conf :: "string option"
  burst_conf :: "string option"
  num_rx_tx_desc :: "int \<times> string"
  lports_conf :: "(string \<times> nat) list"

definition conf_option :: "string \<Rightarrow> string option \<Rightarrow> string" where
  "conf_option tag v = (case v of None \<Rightarrow> [] | Some t \<Rightarrow> ''--'' @ tag @ ''='' @ t @ '' '')"

definition num_cores :: "config \<Rightarrow> nat" where
  "num_cores cfg = sum_list (map snd (lports_conf cfg))"

definition num_ports :: "config \<Rightarrow> nat" where
  "num_ports cfg = length (lports_conf cfg)"

definition count_args :: "config \<Rightarrow> string" where
  "count_args cfg =
     ''./APPNAME '' @ lcore_related cfg @ '' '' @ memory_related cfg @ '' '' @ device_related cfg @ '' '' @
     multi_process_related cfg @ '' '' @ debugging_related cfg @ '' -- '' @
     conf_option ''mp-alloc'' (mp_alloc_conf cfg) @ conf_option ''mbuf-size'' (mbuf_size_conf cfg) @
     conf_option ''total-num-mbufs'' (total_num_mbufs_conf cfg) @ conf_option ''mbcache'' (mbcache_conf cfg) @
     conf_option ''max-pkt-len'' (max_pkt_len_conf cfg) @ conf_option ''burst'' (burst_conf cfg) @
     (if fst (num_rx_tx_desc cfg) > 0
      then ''--rxd='' @ snd (num_rx_tx_desc cfg) @ '' '' @ ''--txd='' @ snd (num_rx_tx_desc cfg) @ '' '' else []) @
     ''--nb-cores='' @ dec (num_cores cfg) @ '' '' @ ''--nb-ports='' @ dec (num_ports cfg) @ '' '' @
     ''--rxq='' @ dec (num_cores cfg) @ '' '' @ ''--txq='' @ dec (num_cores cfg) @ '' ''"

text \<open>The words of a text, as the extraction operator of a stream yields them; the array has as many places as were counted.\<close>

fun words :: "string \<Rightarrow> string \<Rightarrow> string list" where
  "words cur [] = (if cur = [] then [] else [cur])"
| "words cur (c # cs) = (if isspace c then (if cur = [] then words [] cs else cur # words [] cs) else words (cur @ [c]) cs)"

definition create_eal_params :: "string \<Rightarrow> nat \<Rightarrow> string list option" where
  "create_eal_params str argc = (if length (words [] str) \<le> argc then Some (words [] str) else None)"

section \<open>Ports\<close>

text \<open>All bits zero.\<close>

definition zero_rxconf :: rte_eth_rxconf where
  "zero_rxconf = \<lparr>share_group = 0, share_qid = 0, rx_offloads = 0, rx_deferred_start = False, rxc_pthresh = 0, rxc_hthresh = 0,
     rxc_wthresh = 0, rxc_free_thresh = 0, rxc_drop_en = 0\<rparr>"

definition zero_txconf :: rte_eth_txconf where
  "zero_txconf = \<lparr>tx_offloads = 0, tx_deferred_start = False, txc_pthresh = 0, txc_hthresh = 0, txc_wthresh = 0, txc_rs_thresh = 0,
     txc_free_thresh = 0\<rparr>"

definition zero_info :: rte_eth_dev_info where
  "zero_info = \<lparr>min_mtu = 0, max_mtu = 0, max_rx_pktlen = 0, max_rx_queues = 0, max_tx_queues = 0, nb_rx_queues = 0, nb_tx_queues = 0,
     tx_offload_capa = 0, dev_capa = 0, switch_domain_id = 0, default_rx_ring_size = 0, default_tx_ring_size = 0,
     default_rx_burst_size = 0, rx_desc_nb_max = 0, rx_desc_nb_min = 0, tx_desc_nb_max = 0, tx_desc_nb_min = 0, nb_mtu_seg_max = 0,
     flow_type_rss_offloads = 0, dev_flags = 0, default_rxconf = zero_rxconf, default_txconf = zero_txconf\<rparr>"

definition zero_port :: rte_port where
  "zero_port = \<lparr>dev_info = zero_info, rxmode_mtu = 0, rxmode_offloads = 0, txmode_offloads = 0, socket_id = 0, tx_vlan_id = 0,
     tx_vlan_id_outer = 0, port_status = 0, need_reconfig = 0, need_reconfig_queues = 0, nb_rx_desc = replicate 1025 0,
     nb_tx_desc = replicate 1025 0, rxq_conf = replicate 1025 zero_rxconf, rxq_state = replicate 1025 0,
     txq_conf = replicate 1025 zero_txconf, txq_state = replicate 1025 0, member_flag = False, mc_addr_pool = [], mc_addr_nb = 0,
     queue_nb = 0, queue_sz = 0, pattern_templ_list = [], actions_templ_list = [], table_list = [], flow_list = [], actions_list = [],
     flow_tunnel_list = [], rx_dump_cb = replicate 1025 0, tx_dump_cb = replicate 1025 0, tx_metadata = 0,
     tx_set_md_cb = replicate 1025 0, mbuf_dynf = 0, tx_set_dynf_cb = replicate 1025 0, eth_addr = replicate 6 0,
     xstats_allocated = False, ids_supp_sz = 0, link_speeds = 0, mq_mode = 0, port_rss_hf = 0, dcb_flag = 0, intr_lsc = False,
     intr_rmv = False\<rparr>"

abbreviation NUMA_NO_CONFIG :: u8 where "NUMA_NO_CONFIG \<equiv> 0xFF"

definition init_port :: "'d st \<Rightarrow> args \<Rightarrow> 'd st \<times> args" where
  "init_port d a =
     (d\<lparr>ports := replicate RTE_MAX_ETHPORTS zero_port\<rparr>,
      upd_ctl (\<lambda>c. c\<lparr>rxring_numa := replicate RTE_MAX_ETHPORTS NUMA_NO_CONFIG, txring_numa := replicate RTE_MAX_ETHPORTS NUMA_NO_CONFIG\<rparr>)
        (upd_fw (\<lambda>f. f\<lparr>port_numa := replicate RTE_MAX_ETHPORTS NUMA_NO_CONFIG\<rparr>) a))"

section \<open>Launch\<close>

text \<open>
  The environment: the number of words the environment library takes (negative when it fails), whether log type and
  event callback can be registered, the options \<^verbatim>\<open>getopt_long\<close> finds in the remaining words with whether some are left, and the
  port of a logical port.
\<close>

record sys =
  rte_eal_init :: "string list \<Rightarrow> int"
  registered :: bool
  getopt_long :: "string list \<Rightarrow> opt list \<times> bool"
  rte_eth_dev_get_port_by_name :: "string \<Rightarrow> u16 option"

fun find_lports :: "sys \<Rightarrow> string list \<Rightarrow> u16 list \<Rightarrow> u16 list outcome option" where
  "find_lports sys [] ids = ok ids"
| "find_lports sys (n # ns) ids =
     (case rte_eth_dev_get_port_by_name sys n of
        None \<Rightarrow> fails
      | Some p \<Rightarrow> if length ids \<ge> RTE_MAX_ETHPORTS then None else find_lports sys ns (ids @ [p]))"

definition count_ports :: "'d st \<Rightarrow> args \<Rightarrow> args" where
  "count_ports d a = upd_fw (\<lambda>f. f\<lparr>nb_ports := of_nat (length (eth_devs d))\<rparr>) a"

text \<open>
  Up to the return of the parser of the options: the ports, the logical ports and the globals.  Where the defaults of the
  forwarding configuration end the process because of too many sockets, the result is \<open>None\<close> as in \<^verbatim>\<open>FwdSets\<close>.
\<close>

definition launch ::
  "('d, 'z) conf_api_scheme \<Rightarrow> ('d, 'y) seg_api_scheme \<Rightarrow> arg_lib \<Rightarrow> sys \<Rightarrow> lcore_env \<Rightarrow> config \<Rightarrow> 'd st \<Rightarrow> args
    \<Rightarrow> ('d st \<times> u16 list \<times> args) outcome option" where
  "launch api sapi lib sys env cfg d a =
     (let str = count_args cfg in
      case create_eal_params str (length (words [] str)) of
        None \<Rightarrow> None
      | Some argv \<Rightarrow>
         (let diag = rte_eal_init sys argv; args = drop (nat diag) argv in
          if diag < 0 then fails
          else if \<not> memory_left lib \<or> \<not> registered sys then fails
          else (case init_port d a of (d1, a1) \<Rightarrow>
           (case find_lports sys (map fst (lports_conf cfg)) [] of
              None \<Rightarrow> None
            | Some (Next ids) \<Rightarrow>
               (case set_def_fwd_config env d1 (a_sets (count_ports d1 a1)) of
                  None \<Rightarrow> None
                | Some s \<Rightarrow>
                   if nb_lcores s = 0 then fails
                   else (let a2 = a1\<lparr>a_sets := s, bitrate_lcore_id := None, latencystats_lcore_id := None, do_mlockall := True\<rparr> in
                     map_option (map_outcome (\<lambda>a3. (d1, ids, a3)))
                       (if length args > 1
                        then (case getopt_long sys (tl args) of (opts, rest) \<Rightarrow> launch_args_parse api sapi lib env d1 opts rest a2)
                        else Some (Return a2))))
            | _ \<Rightarrow> fails))))"

section \<open>The command line of a configuration\<close>

definition member :: "string \<Rightarrow> string option \<Rightarrow> (string \<times> string) list" where
  "member n v = (case v of None \<Rightarrow> [] | Some t \<Rightarrow> [(n, t)])"

definition conf_opts :: "config \<Rightarrow> (string \<times> string) list" where
  "conf_opts cfg =
     member ''mp-alloc'' (mp_alloc_conf cfg) @ member ''mbuf-size'' (mbuf_size_conf cfg) @
     member ''total-num-mbufs'' (total_num_mbufs_conf cfg) @ member ''mbcache'' (mbcache_conf cfg) @
     member ''max-pkt-len'' (max_pkt_len_conf cfg) @ member ''burst'' (burst_conf cfg) @
     (if fst (num_rx_tx_desc cfg) > 0 then [(''rxd'', snd (num_rx_tx_desc cfg)), (''txd'', snd (num_rx_tx_desc cfg))] else [])"

definition size_opts :: "config \<Rightarrow> (string \<times> string) list" where
  "size_opts cfg = [(''nb-cores'', dec (num_cores cfg)), (''nb-ports'', dec (num_ports cfg)), (''rxq'', dec (num_cores cfg)),
     (''txq'', dec (num_cores cfg))]"

definition opt_word :: "string \<times> string \<Rightarrow> string" where
  "opt_word x = (case x of (n, v) \<Rightarrow> ''--'' @ n @ ''='' @ v)"

definition eal_text :: "config \<Rightarrow> string" where
  "eal_text cfg = lcore_related cfg @ '' '' @ memory_related cfg @ '' '' @ device_related cfg @ '' '' @
     multi_process_related cfg @ '' '' @ debugging_related cfg"

lemma words_append: "isspace c \<Longrightarrow> words cur (s @ c # r) = words cur s @ words [] r"
  by (induction s arbitrary: cur) auto

lemma words_plain: "\<forall>c \<in> set s. \<not> isspace c \<Longrightarrow> cur @ s \<noteq> [] \<Longrightarrow> words cur s = [cur @ s]"
  by (induction s arbitrary: cur) auto

lemma words_list:
  "\<forall>w \<in> set ws. w \<noteq> [] \<and> (\<forall>c \<in> set w. \<not> isspace c) \<Longrightarrow> words [] (concat (map (\<lambda>w. w @ '' '') ws)) = ws"
proof (induction ws)
  case (Cons w ws)
  have "isspace (CHR '' '')" by (simp add: isspace_def)
  from words_append [OF this, of "[]" w "concat (map (\<lambda>w. w @ '' '') ws)"] Cons words_plain [of w "[]"] show ?case by simp
qed simp

lemma conf_option_member: "conf_option n v = concat (map (\<lambda>x. opt_word x @ '' '') (member n v))"
  by (cases v) (simp_all add: conf_option_def member_def opt_word_def)

lemma count_args_words:
  "count_args cfg = ''./APPNAME '' @ eal_text cfg @ '' -- '' @ concat (map (\<lambda>x. opt_word x @ '' '') (conf_opts cfg @ size_opts cfg))"
proof -
  have "concat (map (\<lambda>x. opt_word x @ '' '') (size_opts cfg)) =
      ''--nb-cores='' @ dec (num_cores cfg) @ '' '' @ ''--nb-ports='' @ dec (num_ports cfg) @ '' '' @
      ''--rxq='' @ dec (num_cores cfg) @ '' '' @ ''--txq='' @ dec (num_cores cfg) @ '' ''"
    by (simp add: size_opts_def opt_word_def)
  moreover have "concat (map (\<lambda>x. opt_word x @ '' '')
        (if fst (num_rx_tx_desc cfg) > 0 then [(''rxd'', snd (num_rx_tx_desc cfg)), (''txd'', snd (num_rx_tx_desc cfg))] else [])) =
      (if fst (num_rx_tx_desc cfg) > 0
       then ''--rxd='' @ snd (num_rx_tx_desc cfg) @ '' '' @ ''--txd='' @ snd (num_rx_tx_desc cfg) @ '' '' else [])"
    by (simp add: opt_word_def)
  ultimately show ?thesis
    unfolding count_args_def eal_text_def conf_opts_def map_append concat_append conf_option_member append_assoc by simp
qed

text \<open>Texts in which no character is blank, and texts for the environment library that do not end its words.\<close>

definition config_ok :: "config \<Rightarrow> bool" where
  "config_ok cfg \<longleftrightarrow> (\<forall>(n, v) \<in> set (conf_opts cfg). \<forall>c \<in> set v. \<not> isspace c) \<and> ''--'' \<notin> set (words [] (eal_text cfg))"

lemma size_plain: "\<forall>(n, v) \<in> set (size_opts cfg). \<forall>c \<in> set v. \<not> isspace c"
  using dec_digits(1) isdigit_sep by (auto simp: size_opts_def)

definition conf_names :: "string set" where
  "conf_names = set [''mp-alloc'', ''mbuf-size'', ''total-num-mbufs'', ''mbcache'', ''max-pkt-len'', ''burst'', ''rxd'', ''txd'', ''nb-cores'',
     ''nb-ports'', ''rxq'', ''txq'']"

lemma member_name: "(n, v) \<in> set (member m w) \<Longrightarrow> n = m"
  by (simp add: member_def split: option.splits)

lemma opts_named:
  assumes "(n, v) \<in> set (conf_opts cfg @ size_opts cfg)"
  shows "n \<in> conf_names"
proof -
  have "(n, v) \<in> set (if fst (num_rx_tx_desc cfg) > 0 then [(''rxd'', snd (num_rx_tx_desc cfg)), (''txd'', snd (num_rx_tx_desc cfg))] else []) \<Longrightarrow>
      n \<in> conf_names"
    by (auto simp: conf_names_def split: if_splits)
  moreover have "(n, v) \<in> set (size_opts cfg) \<Longrightarrow> n \<in> conf_names"
    by (auto simp: conf_names_def size_opts_def)
  moreover have "(n, v) \<in> set (member m w) \<Longrightarrow> m \<in> conf_names \<Longrightarrow> n \<in> conf_names" for m w
    using member_name by blast
  moreover have "''mp-alloc'' \<in> conf_names" "''mbuf-size'' \<in> conf_names" "''total-num-mbufs'' \<in> conf_names" "''mbcache'' \<in> conf_names"
    "''max-pkt-len'' \<in> conf_names" "''burst'' \<in> conf_names"
    by (simp_all add: conf_names_def)
  ultimately show ?thesis using assms unfolding conf_opts_def set_append Un_iff by (elim disjE) blast+
qed

lemma names_known: "\<forall>n \<in> conf_names. map_of lgopts n = Some 1 \<and> (\<forall>c \<in> set n. \<not> isspace c) \<and> n \<noteq> ''eth-peer'' \<and> n \<noteq> ''rxhdrs''"
  unfolding conf_names_def by code_simp

lemma argv_words:
  assumes "config_ok cfg"
  shows "words [] (count_args cfg) = ''./APPNAME'' # words [] (eal_text cfg) @ ''--'' # map opt_word (conf_opts cfg @ size_opts cfg)"
proof -
  let ?os = "conf_opts cfg @ size_opts cfg"
  have sp: "isspace (CHR '' '')" by (simp add: isspace_def)
  have p: "\<forall>c \<in> set v. \<not> isspace c" if "(n, v) \<in> set ?os" for n v
    using that assms size_plain [of cfg] by (auto simp: config_ok_def)
  have "\<forall>w \<in> set (map opt_word ?os). w \<noteq> [] \<and> (\<forall>c \<in> set w. \<not> isspace c)"
  proof
    fix w assume "w \<in> set (map opt_word ?os)"
    then obtain n v where w: "(n, v) \<in> set ?os" "w = ''--'' @ n @ ''='' @ v" by (auto simp: opt_word_def)
    with p [OF w(1)] bspec [OF names_known opts_named [OF w(1)]] show "w \<noteq> [] \<and> (\<forall>c \<in> set w. \<not> isspace c)"
      by (auto simp: isspace_def)
  qed
  from words_list [OF this] have os: "words [] (concat (map (\<lambda>w. w @ '' '') (map opt_word ?os))) = map opt_word ?os" .
  have "count_args cfg = ''./APPNAME'' @ CHR '' '' # eal_text cfg @ CHR '' '' # ''--'' @ CHR '' '' # concat (map (\<lambda>w. w @ '' '') (map opt_word ?os))"
    by (simp add: count_args_words o_def)
  then show ?thesis
    using words_plain [of "''./APPNAME''" "[]"] words_plain [of "''--''" "[]"] os
    by (simp only: words_append [OF sp]) (simp add: isspace_def)
qed

section \<open>Options of the launch\<close>

lemma options_loop_append:
  "options_loop api sapi lib env d (xs @ ys) a = andthen (options_loop api sapi lib env d xs a) (options_loop api sapi lib env d ys)"
proof (induction xs arbitrary: a)
  case (Cons x xs)
  have assoc: "andthen r (\<lambda>a. andthen (k a) l) = andthen (andthen r k) l" for r k l
    by (simp add: andthen_def split: option.split outcome.split)
  have "options_loop api sapi lib env d (xs @ ys) = (\<lambda>a. andthen (options_loop api sapi lib env d xs a) (options_loop api sapi lib env d ys))"
    by (rule ext) (rule Cons.IH)
  then show ?case by (simp only: append_Cons options_loop.simps assoc)
qed simp

text \<open>The last four options of the line.\<close>

lemma numbers_only:
  assumes "name \<in> {''nb-cores'', ''nb-ports'', ''rxq'', ''txq''}"
  shows "opt_general lib name t a = ok a" "opt_memory name t = (\<lambda>a. ok a)" "opt_modes name t = (\<lambda>a. ok a)"
    "opt_numbers api d name t = (\<lambda>a. ok a)" "opt_thresholds name t = (\<lambda>a. ok a)" "opt_packets sapi d name t = (\<lambda>a. ok a)"
    "opt_flags name (Some t) = (\<lambda>a. ok a)" "opt_events name t = (\<lambda>a. ok a)" "opt_noisy name t = (\<lambda>a. ok a)"
    "opt_process name t = (\<lambda>a. ok a)" "name \<noteq> ''stats-period''"
  using assms
  by (elim insertE emptyE; simp add: fun_eq_iff opt_general_def opt_memory_def opt_modes_def rx_flag_table_def opt_numbers_def
    opt_thresholds_def opt_packets_def opt_flags_def opt_events_def opt_noisy_def opt_process_def)+

lemma long_option_sizes:
  assumes "name \<in> {''nb-cores'', ''nb-ports'', ''rxq'', ''txq''}"
  shows "long_option api sapi lib env d name (Some t) a =
    andthen (andthen (opt_sets lib env d name t a) (opt_queues api d name t)) some_queues"
  unfolding long_option_def Let_def option.case foldl.simps numbers_only [OF assms] using numbers_only(11) [OF assms] by simp

lemma size_options:
  assumes "n < 2 ^ 31"
  shows "long_option api sapi lib env d ''nb-cores'' (Some (dec n)) a =
      andthen (require (0 < n \<and> n \<le> unat (nb_lcores (a_sets a))) (upd_fw (\<lambda>f. f\<lparr>g_nb_fwd_lcores := of_nat n\<rparr>) a)) some_queues"
    "long_option api sapi lib env d ''nb-ports'' (Some (dec n)) a =
      andthen (require (0 < n \<and> n \<le> unat (nb_ports (fw (a_sets a)))) (upd_fw (\<lambda>f. f\<lparr>g_nb_fwd_ports := of_nat n\<rparr>) a)) some_queues"
    "long_option api sapi lib env d ''rxq'' (Some (dec n)) a =
      andthen (require (check_nb_rxq api (of_nat n) d = 0) (upd_fw (\<lambda>f. f\<lparr>nb_rxq := of_nat n\<rparr>) a)) some_queues"
    "long_option api sapi lib env d ''txq'' (Some (dec n)) a =
      andthen (require (check_nb_txq api (of_nat n) d = 0) (upd_fw (\<lambda>f. f\<lparr>nb_txq := of_nat n\<rparr>) a)) some_queues"
proof -
  have u: "int n \<le> uint w \<longleftrightarrow> n \<le> unat w" for w :: "'l::len word" 
    unfolding uint_nat by (rule of_nat_le_iff)
  have q: "opt_queues api d name t = (\<lambda>a. ok a)" if "name \<in> {''nb-cores'', ''nb-ports''}" for name t
    using that by (elim insertE emptyE) (simp_all add: fun_eq_iff opt_queues_def)
  have s: "opt_sets lib env d name t a = ok a" if "name \<in> {''rxq'', ''txq''}" for name t a
    using that by (elim insertE emptyE) (simp_all add: opt_sets_def)
  show "long_option api sapi lib env d ''nb-cores'' (Some (dec n)) a =
      andthen (require (0 < n \<and> n \<le> unat (nb_lcores (a_sets a))) (upd_fw (\<lambda>f. f\<lparr>g_nb_fwd_lcores := of_nat n\<rparr>) a)) some_queues"
    by (simp add: long_option_sizes q) (simp add: opt_sets_def Let_def atoi_dec [OF assms] u)
  show "long_option api sapi lib env d ''nb-ports'' (Some (dec n)) a =
      andthen (require (0 < n \<and> n \<le> unat (nb_ports (fw (a_sets a)))) (upd_fw (\<lambda>f. f\<lparr>g_nb_fwd_ports := of_nat n\<rparr>) a)) some_queues"
    by (simp add: long_option_sizes q) (simp add: opt_sets_def Let_def atoi_dec [OF assms] u)
  show "long_option api sapi lib env d ''rxq'' (Some (dec n)) a =
      andthen (require (check_nb_rxq api (of_nat n) d = 0) (upd_fw (\<lambda>f. f\<lparr>nb_rxq := of_nat n\<rparr>) a)) some_queues"
    by (simp add: long_option_sizes s) (simp add: opt_queues_def Let_def atoi_dec [OF assms])
  show "long_option api sapi lib env d ''txq'' (Some (dec n)) a =
      andthen (require (check_nb_txq api (of_nat n) d = 0) (upd_fw (\<lambda>f. f\<lparr>nb_txq := of_nat n\<rparr>) a)) some_queues"
    by (simp add: long_option_sizes s) (simp add: opt_queues_def Let_def atoi_dec [OF assms])
qed

lemma andthen_Next: "andthen r k = Some (Next a') \<longleftrightarrow> (\<exists>a. r = Some (Next a) \<and> k a = Some (Next a'))"
  by (auto simp: andthen_def split: option.splits outcome.splits)

lemma require_Next: "require b a = Some (Next a') \<longleftrightarrow> b \<and> a' = a"
  by (auto simp: require_def)

lemma sizes_set:
  assumes "options_loop api sapi lib env d (map (\<lambda>(n, v). OptLong n (Some v)) (size_opts cfg)) a = Some (Next a')"
    and "num_cores cfg < 2 ^ 31" "num_ports cfg < 2 ^ 31"
  shows "nb_rxq (fw (a_sets a')) = of_nat (num_cores cfg) \<and> nb_txq (fw (a_sets a')) = of_nat (num_cores cfg) \<and>
     g_nb_fwd_lcores (fw (a_sets a')) = of_nat (num_cores cfg) \<and> g_nb_fwd_ports (fw (a_sets a')) = of_nat (num_ports cfg) \<and>
     0 < num_cores cfg \<and> num_cores cfg \<le> unat (nb_lcores (a_sets a)) \<and>
     0 < num_ports cfg \<and> num_ports cfg \<le> unat (nb_ports (fw (a_sets a)))"
  using assms(1)
  by (auto simp: size_opts_def size_options [OF assms(2)] size_options [OF assms(3)] andthen_Next require_Next some_queues_def upd_fw_def)

section \<open>Defaults\<close>

text \<open>The numbers of sockets are those of the at most 32 nodes.\<close>

definition few :: "u32 list \<Rightarrow> bool" where
  "few xs \<longleftrightarrow> distinct xs \<and> (\<forall>x \<in> set xs. unat x < RTE_MAX_NUMA_NODES)"

definition sockets_ok :: "lcore_env \<Rightarrow> fwd_st \<Rightarrow> bool" where
  "sockets_ok env f \<longleftrightarrow> few (socket_ids f) \<and> (\<forall>c. unat (rte_lcore_to_socket_id env c) < RTE_MAX_NUMA_NODES) \<and>
     (\<forall>p. 0 \<le> sint (eth_dev_socket f p) \<longrightarrow> unat (eth_dev_socket f p) < RTE_MAX_NUMA_NODES)"

lemma few_length:
  assumes "few xs"
  shows "length xs \<le> RTE_MAX_NUMA_NODES"
proof -
  have "card (unat ` set xs) \<le> card {..<RTE_MAX_NUMA_NODES}" using assms by (intro card_mono) (auto simp: few_def)
  moreover have "card (unat ` set xs) = length xs"
    using assms by (simp add: few_def card_image inj_on_def word_unat_eq_iff distinct_card)
  ultimately show ?thesis by simp
qed

lemma add_socket_few:
  assumes "few xs" "unat x < RTE_MAX_NUMA_NODES"
  shows "\<exists>ys. add_socket x xs = Some ys \<and> few ys"
proof (cases "x \<in> set xs")
  case False
  then have "few (x # xs)" using assms by (simp add: few_def)
  from few_length [OF this] False assms show ?thesis by (simp add: add_socket_def new_socket_id_def few_def)
qed (use assms in \<open>simp add: add_socket_def new_socket_id_def\<close>)

lemma default_lcores_few:
  "few xs \<Longrightarrow> \<forall>c. unat (rte_lcore_to_socket_id env c) < RTE_MAX_NUMA_NODES \<Longrightarrow>
     \<exists>ys cpus'. default_lcores env is (xs, cpus) = Some (ys, cpus') \<and> few ys"
proof (induction "is" arbitrary: xs cpus)
  case (Cons i "is")
  obtain ys where "add_socket (rte_lcore_to_socket_id env i) xs = Some ys" "few ys"
    using add_socket_few [OF Cons.prems(1)] Cons.prems(2) by blast
  then show ?case using Cons by simp
qed simp

lemma default_sockets_few:
  "few xs \<Longrightarrow> \<forall>p. 0 \<le> sint (sock p) \<longrightarrow> unat (sock p) < RTE_MAX_NUMA_NODES \<Longrightarrow> \<exists>ys. default_sockets sock ps xs = Some ys \<and> few ys"
proof (induction ps arbitrary: xs)
  case (Cons p ps)
  obtain ys where "(if sint (sock p) \<ge> 0 then add_socket (sock p) xs else Some xs) = Some ys" "few ys"
    using add_socket_few [OF Cons.prems(1), of "sock p"] Cons.prems by (cases "sint (sock p) \<ge> 0") auto
  then show ?case using Cons by simp
qed simp

lemma set_def_total:
  assumes "env_ok env d s" "sockets_ok env (fw s)" "workers env \<noteq> []"
  shows "\<exists>t. set_def_fwd_config env d s = Some t \<and> env_ok env d t \<and> length (peer_eth_addrs t) = RTE_MAX_ETHPORTS \<and>
     port_numa (fw t) = port_numa (fw s) \<and> nb_rxq (fw t) = nb_rxq (fw s) \<and> nb_txq (fw t) = nb_txq (fw s) \<and>
     length (socket_ids (fw t)) \<le> RTE_MAX_NUMA_NODES \<and> nb_lcores t = of_nat (length (workers env))"
proof -
  obtain xs cpus where l: "default_lcores env (map of_nat [0..<RTE_MAX_LCORE]) (socket_ids (fw s), []) = Some (xs, cpus)" "few xs"
    using default_lcores_few [of "socket_ids (fw s)" env] assms(2) unfolding sockets_ok_def by blast
  then have c: "cpus = workers env" using default_lcores_cpus [OF l(1)] by (simp add: workers_def)
  have "length (workers env) \<le> RTE_MAX_LCORE"
    unfolding workers_def by (rule order_trans [OF length_filter_le]) simp
  then obtain ids where i: "overwrite cpus (fwd_lcores_cpuids s) = Some ids"
    using assms(1) c by (simp add: overwrite_def env_ok_def)
  obtain ys where y: "default_sockets (eth_dev_socket (fw s)) (eth_devs d) xs = Some ys" "few ys"
    using default_sockets_few [OF l(2), of "eth_dev_socket (fw s)"] assms(2) unfolding sockets_ok_def by blast
  obtain pids where p: "overwrite (eth_devs d) (fwd_ports_ids (fw s)) = Some pids"
    using assms(1) devs_few [OF assms(1)] by (simp add: overwrite_def env_ok_def)
  obtain t where t: "set_def_fwd_config env d s = Some t" "length (peer_eth_addrs t) = RTE_MAX_ETHPORTS"
     "port_numa (fw t) = port_numa (fw s)" "nb_rxq (fw t) = nb_rxq (fw s)" "nb_txq (fw t) = nb_txq (fw s)" "socket_ids (fw t) = ys"
     "nb_lcores t = of_nat (length cpus)"
    using l i y p
    by (simp add: set_def_fwd_config_def set_default_fwd_lcores_config_def set_default_fwd_ports_config_def set_def_peer_eth_addrs_def)
  with default_config_inv [OF t(1) assms(1,3)] few_length [OF y(2)] c show ?thesis by simp
qed

section \<open>The launch\<close>

text \<open>
  What the two libraries do: the environment library takes the words before the one that ends them, or fails;
  \<^verbatim>\<open>getopt_long\<close> finds an option in every word that gives a known option its argument.
\<close>

definition eal_law :: "sys \<Rightarrow> bool" where
  "eal_law sys \<longleftrightarrow> (\<forall>prog xs ys. ''--'' \<notin> set xs \<longrightarrow>
     (let diag = rte_eal_init sys (prog # xs @ ''--'' # ys) in diag < 0 \<or> diag = int (length xs) + 1))"

definition getopt_law :: "sys \<Rightarrow> bool" where
  "getopt_law sys \<longleftrightarrow> (\<forall>nvs. (\<forall>(n, v) \<in> set nvs. map_of lgopts n = Some 1) \<longrightarrow>
     getopt_long sys (map opt_word nvs) = (map (\<lambda>(n, v). OptLong n (Some v)) nvs, False))"

lemma find_lports_length:
  "length ids + length ns \<le> RTE_MAX_ETHPORTS \<Longrightarrow>
     find_lports sys ns ids = fails \<or> (\<exists>out. find_lports sys ns ids = ok out \<and> length out = length ids + length ns)"
proof (induction ns arbitrary: ids)
  case (Cons n ns)
  show ?case
  proof (cases "rte_eth_dev_get_port_by_name sys n")
    case (Some p)
    then show ?thesis using Cons.IH [of "ids @ [p]"] Cons.prems by simp
  qed simp
qed simp

lemma args_wf_ports [simp]: "args_wf b api env (d\<lparr>ports := ps\<rparr>) a = args_wf b api env d a"
  by (simp add: args_wf_def env_ok_def sets_inv_def check_nb_rxq_def check_nb_txq_def get_allowed_max_nb_rxq_def get_allowed_max_nb_txq_def)

lemma fresh_known: "env_ok env d s \<Longrightarrow> devs_known (d\<lparr>ports := replicate RTE_MAX_ETHPORTS zero_port\<rparr>)"
  by (simp add: devs_known_def env_ok_def port_get_def zero_port_def)

lemma fresh_inv:
  assumes "args_inv False api env d (count_ports d a)" "init_port d a = (d1, a1)"
  shows "args_inv False api env d1 (count_ports d1 a1)"
proof -
  have d1: "d1 = d\<lparr>ports := replicate RTE_MAX_ETHPORTS zero_port\<rparr>" using assms(2) by (simp add: init_port_def)
  have a1: "count_ports d1 a1 = upd_ctl (\<lambda>c. c\<lparr>rxring_numa := replicate RTE_MAX_ETHPORTS NUMA_NO_CONFIG,
        txring_numa := replicate RTE_MAX_ETHPORTS NUMA_NO_CONFIG\<rparr>)
      (upd_fw (\<lambda>f. f\<lparr>port_numa := replicate RTE_MAX_ETHPORTS NUMA_NO_CONFIG\<rparr>) (count_ports d a))"
    using assms(2) d1 by (auto simp: init_port_def count_ports_def upd_fw_def upd_ctl_def)
  show ?thesis using assms(1) unfolding a1 unfolding d1 args_inv_def args_wf_ports by (simp add: wf_defs)
qed

text \<open>The options of a launch: the four numbers at the end are set, unless the first device does not answer.\<close>

lemma conf_parse:
  assumes "args_inv False api env d a" "devs_known d" "num_cores cfg < 2 ^ 31" "num_ports cfg < 2 ^ 31"
  shows "fine (\<lambda>a'. args_inv False api env d a' \<and> (answers api (dev d) 0 \<longrightarrow>
       unat (nb_rxq (fw (a_sets a'))) = num_cores cfg \<and> unat (nb_txq (fw (a_sets a'))) = num_cores cfg \<and>
       unat (g_nb_fwd_lcores (fw (a_sets a'))) = num_cores cfg \<and> unat (g_nb_fwd_ports (fw (a_sets a'))) = num_ports cfg \<and>
       0 < num_cores cfg \<and> 0 < num_ports cfg)) (\<lambda>_. False)
     (launch_args_parse api sapi lib env d (map (\<lambda>(n, v). OptLong n (Some v)) (conf_opts cfg @ size_opts cfg)) False a)"
    (is "fine ?R _ (launch_args_parse _ _ _ _ _ ?opts _ _)")
proof -
  let ?a = "a\<lparr>loc_rx_offloads := rx_mode_offloads (a_opts a), loc_tx_offloads := tx_mode_offloads (a_opts a)\<rparr>"
  let ?r = "options_loop api sapi lib env d ?opts ?a"
  have "opt_safe False (OptLong n (Some v))" if "(n, v) \<in> set (conf_opts cfg @ size_opts cfg)" for n v
    using bspec [OF names_known opts_named [OF that]] by simp
  then have "\<forall>x \<in> set ?opts. opt_safe False x" unfolding set_map by (auto simp del: opt_safe.simps set_append)
  moreover have "args_inv False api env d ?a" using assms(1) by (simp add: args_inv_def)
  ultimately have f: "fine (args_early False api env d) (args_inv False api env d) ?r" using options_loop_fine [OF assms(2)] by blast
  have fin: "fine ?R (\<lambda>_. False) (finish_args False b)" if b: "?r = Some (Next b)" "args_inv False api env d b" for b
  proof -
    obtain m where m: "options_loop api sapi lib env d (map (\<lambda>(n, v). OptLong n (Some v)) (size_opts cfg)) m = Some (Next b)"
      using b(1) by (auto simp: options_loop_append andthen_Next)
    have "unat (nb_lcores (a_sets m)) < 2 ^ 8" using unsigned_less [of "nb_lcores (a_sets m)"] by simp
    then have c: "num_cores cfg < 2 ^ 8" "num_ports cfg < 2 ^ 16"
      using sizes_set [OF m assms(3,4)] u16_bound [of "nb_ports (fw (a_sets m))"] by auto
    then have w: "unat (of_nat (num_cores cfg) :: u16) = num_cores cfg" "unat (of_nat (num_cores cfg) :: u8) = num_cores cfg"
      "unat (of_nat (num_ports cfg) :: u16) = num_ports cfg" by (simp_all add: unat_of_nat take_bit_nat_eq_self)
    show ?thesis using sizes_set [OF m assms(3,4)] b(2) by (simp add: finish_args_def Let_def args_inv_def w)
  qed
  show ?thesis
  proof (cases ?r)
    case None
    with f show ?thesis by simp
  next
    case (Some x)
    show ?thesis
    proof (cases x)
      case (Next b)
      then show ?thesis unfolding launch_args_parse_def using Some f fin by simp
    qed (use Some f in \<open>simp_all add: launch_args_parse_def andthen_def args_early_def\<close>)
  qed
qed

text \<open>
  C4: A configuration file whose texts have no blanks is launched without undefined behaviour, from the text of the
  command line to the parsed options: the process ends, or every logical port is found, all arrays have their size, and (when the
  first device answers) the numbers of receive queues, of transmit queues and of forwarding cores are the number of cores in the file and
  the number of forwarding ports is the number of its logical ports, none of them zero or cut off.
\<close>

theorem launch_takes_over_configuration:
  assumes "config_ok cfg" "num_cores cfg < 2 ^ 31" "num_ports cfg \<le> RTE_MAX_ETHPORTS" "eal_law sys" "getopt_law sys"
    and "args_inv False api env d (count_ports d a)" "sockets_ok env (fw (a_sets a))" "workers env \<noteq> []"
  shows "(\<exists>code. launch api sapi lib sys env cfg d a = Some (Exit code)) \<or>
    (\<exists>d' ids a'. launch api sapi lib sys env cfg d a = Some (Return (d', ids, a')) \<and> length ids = num_ports cfg \<and>
       args_inv False api env d' a' \<and> (answers api (dev d) 0 \<longrightarrow>
       unat (nb_rxq (fw (a_sets a'))) = num_cores cfg \<and> unat (nb_txq (fw (a_sets a'))) = num_cores cfg \<and>
       unat (g_nb_fwd_lcores (fw (a_sets a'))) = num_cores cfg \<and> unat (g_nb_fwd_ports (fw (a_sets a'))) = num_ports cfg \<and>
       0 < num_cores cfg \<and> 0 < num_ports cfg))"
proof -
  let ?argv = "words [] (count_args cfg)" and ?os = "conf_opts cfg @ size_opts cfg" and ?d = "d\<lparr>ports := replicate RTE_MAX_ETHPORTS zero_port\<rparr>"
  obtain a1 where i: "init_port d a = (?d, a1)" by (simp add: init_port_def)
  have a1: "args_inv False api env ?d (count_ports ?d a1)" "fw (a_sets a1) = (fw (a_sets a))\<lparr>port_numa := port_numa (fw (a_sets a1))\<rparr>"
    using fresh_inv [OF assms(6) i] i by (auto simp: init_port_def upd_ctl_def upd_fw_def)
  let ?s = "a_sets (count_ports ?d a1)"
  have e: "env_ok env ?d ?s" using a1(1) by (simp add: args_inv_def args_wf_def)
  have "sockets_ok env (fw ?s)"
    using assms(7) arg_cong [OF a1(2), of socket_ids] arg_cong [OF a1(2), of eth_dev_socket] by (simp add: sockets_ok_def count_ports_def)
  from set_def_total [OF e this assms(8)] obtain t where t: "set_def_fwd_config env ?d ?s = Some t" "env_ok env ?d t"
    "length (peer_eth_addrs t) = RTE_MAX_ETHPORTS" "port_numa (fw t) = port_numa (fw ?s)" "nb_rxq (fw t) = nb_rxq (fw ?s)"
    "nb_txq (fw t) = nb_txq (fw ?s)" "length (socket_ids (fw t)) \<le> RTE_MAX_NUMA_NODES" by blast
  let ?a = "a1\<lparr>a_sets := t, bitrate_lcore_id := None, latencystats_lcore_id := None, do_mlockall := True\<rparr>"
  have inv: "args_inv False api env ?d ?a"
    using a1(1) t by (simp add: args_inv_def args_wf_def count_ports_def upd_fw_def)
  have opts: "getopt_long sys (map opt_word ?os) = (map (\<lambda>(n, v). OptLong n (Some v)) ?os, False)"
  proof -
    have "\<forall>(n, v) \<in> set ?os. map_of lgopts n = Some 1" using bspec [OF names_known opts_named [of _ _ cfg]] by blast
    with assms(5) show ?thesis unfolding getopt_law_def by blast
  qed
  have argv: "?argv = ''./APPNAME'' # words [] (eal_text cfg) @ ''--'' # map opt_word ?os" by (rule argv_words [OF assms(1)])
  show ?thesis
  proof (cases "rte_eal_init sys ?argv < 0 \<or> \<not> memory_left lib \<or> \<not> registered sys \<or> find_lports sys (map fst (lports_conf cfg)) [] = fails \<or> nb_lcores t = 0")
    case True
    then show ?thesis
      using find_lports_length [of "[]" "map fst (lports_conf cfg)" sys] assms(3) t(1)
      by (auto simp: launch_def create_eal_params_def i num_ports_def Let_def)
  next
    case False
    then obtain ids where ids: "find_lports sys (map fst (lports_conf cfg)) [] = ok ids" "length ids = num_ports cfg"
      using find_lports_length [of "[]" "map fst (lports_conf cfg)" sys] assms(3) by (auto simp: num_ports_def)
    have "rte_eal_init sys ?argv = int (length (words [] (eal_text cfg))) + 1"
      using False assms(1,4) unfolding argv eal_law_def config_ok_def by (metis (no_types, lifting))
    then have rest: "drop (nat (rte_eal_init sys ?argv)) ?argv = ''--'' # map opt_word ?os" unfolding argv by (simp add: nat_add_distrib)
    have "launch api sapi lib sys env cfg d a = map_option (map_outcome (\<lambda>a3. (?d, ids, a3)))
        (launch_args_parse api sapi lib env ?d (map (\<lambda>(n, v). OptLong n (Some v)) ?os) False ?a)"
    proof -
      have "create_eal_params (count_args cfg) (length ?argv) = Some ?argv" by (simp add: create_eal_params_def)
      moreover have "1 < length (''--'' # map opt_word ?os)" by (simp add: size_opts_def)
      ultimately show ?thesis
        using False i ids(1) t(1) opts unfolding launch_def Let_def by (simp only: rest option.case split outcome.case list.sel if_True if_False de_Morgan_disj) simp
    qed
    moreover have "devs_known ?d" using fresh_known [OF e] by simp
    moreover have "num_ports cfg < 2 ^ 31" using assms(3) by simp
    ultimately show ?thesis
      using conf_parse [OF inv _ assms(2), of sapi lib] ids(2)
      by (auto simp: fine_def split: option.splits outcome.splits)
  qed
qed

end
