(* ===== verification/OptWitnesses.thy ===== *)
theory OptWitnesses
  imports ConfWitnesses RunWitnesses Launch
begin

text \<open>The properties of the command line applied to concrete lines, for one device of the simulated driver.\<close>

definition line_sets :: sets where
  "line_sets = \<lparr>fw = sim_fwd\<lparr>fwd_ports_ids := replicate 32 0, g_nb_fwd_ports := 1, g_nb_fwd_lcores := 1, nb_ports := 1,
       port_numa := replicate 32 255\<rparr>,
     nb_cfg_ports = 1, nb_cfg_lcores = 3, nb_lcores = 3, fwd_lcores_cpuids = [1, 2, 3] @ replicate 125 0,
     peer_eth_addrs = replicate 32 []\<rparr>"

definition line_st :: "sim st" where
  "line_st = sim_st\<lparr>ports := [sim_port\<lparr>nb_tx_desc := replicate 1024 512\<rparr>]\<rparr>"

definition line_args :: args where
  "line_args = \<lparr>a_sets = line_sets, a_ctl = seg_ctl\<lparr>rxring_numa := replicate 32 255, txring_numa := replicate 32 255\<rparr>,
     a_opts = sim_opts, a_run = sim_run, a_tx = sim_txs, loc_rx_offloads = 0, loc_tx_offloads = 0, nb_peer_eth_addrs = 0,
     cmdline_filename = [], auto_start = False, tx_first = False, stats_period = 0, mp_alloc_type = MP_ALLOC_NATIVE,
     param_total_num_mbufs = 0, max_lro_pkt_size = 0, latencystats_lcore_id = None, bitrate_lcore_id = None, nb_pkt_per_burst = 32,
     nb_pkt_flowgen_clones = 0, nb_flows_flowgen = 1024, mb_mempool_cache = 250, txonly_multi_flow = False, no_device_start = False,
     event_print_mask = 0, hot_plug = False, do_mlockall = False, noisy_tx_sw_bufsz = 0, noisy_tx_sw_buf_flush_time = 0,
     noisy_lkup_mem_sz = 0, noisy_lkup_num_writes = 0, noisy_lkup_num_reads = 0, noisy_lkup_num_reads_writes = 0, noisy_fwd_mode = 0,
     mempool_flags = 0, record_core_cycles = False, record_burst_stats = False\<rparr>"

definition line_lib :: arg_lib where
  "line_lib = \<lparr>rte_strsplit = (\<lambda>t n c. Segments.fields [] t), rte_ether_unformat_addr = (\<lambda>t. Some (replicate 6 0)),
     file_lines = (\<lambda>_. None), memory_left = True\<rparr>"

lemma line_lib_splits: "strsplit_law line_lib"
  by (simp add: strsplit_law_def line_lib_def fields_commas)

lemma line_queues: "check_nb_rxq sim_conf_api 2 line_st = 0" "check_nb_txq sim_conf_api 2 line_st = 0"
  by (simp_all add: check_nb_rxq_def get_allowed_max_nb_rxq_def check_nb_txq_def get_allowed_max_nb_txq_def tag_info_def sim_info_def
      line_st_def sim_st_def)

lemma line_env [simp]: "rte_lcore_is_enabled sim_env c = (c < 4)" "rte_get_main_lcore sim_env = 0"
  by (simp_all add: sim_env_def)

lemma line_sets_ok: "env_ok sim_env line_st line_sets" "sets_inv sim_env line_st line_sets"
  by (auto simp: env_ok_def sets_inv_def line_sets_def sim_fwd_def line_st_def sim_st_def word_less_nat_alt sim_workers lcore_usable_def)

lemma line_ok: "args_inv True sim_conf_api sim_env line_st line_args"
  using line_sets_ok line_queues
  by (simp add: args_inv_def args_wf_def line_args_def segs_wf_def seg_ctl_def sim_ctl_def sim_txs_def) (simp add: line_sets_def sim_fwd_def)

lemma line_known: "devs_known line_st"
  by (simp add: devs_known_def line_st_def sim_st_def port_get_def)

definition line_opts :: "opt list" where
  "line_opts = [OptI, OptLong ''rxq'' (Some ''3''), OptLong ''portmask'' (Some ''0x1''), OptLong ''port-numa-config'' (Some ''(0,1)''),
     OptLong ''txpkts'' (Some ''64,64''), OptLong ''eth-peer'' (Some ''1,02:00:00:00:00:01''), OptLong ''rx-offloads'' (Some ''0x2000'')]"

theorem launch_args_parse_witness:
  "\<exists>a'. launch_args_parse sim_conf_api sim_seg_api line_lib sim_env line_st line_opts False line_args = Some (Return a') \<and>
     args_inv True sim_conf_api sim_env line_st a' \<and> nb_rxq (fw (a_sets a')) = 3 \<and> rx_mode_offloads (a_opts a') = 0x2000"
proof -
  let ?r = "launch_args_parse sim_conf_api sim_seg_api line_lib sim_env line_st line_opts False line_args"
  have "(case ?r of Some (Return a') \<Rightarrow> nb_rxq (fw (a_sets a')) = 3 \<and> rx_mode_offloads (a_opts a') = 0x2000 | _ \<Rightarrow> False)" by code_simp
  then obtain a' where r: "?r = Some (Return a')" "nb_rxq (fw (a_sets a')) = 3" "rx_mode_offloads (a_opts a') = 0x2000"
    by (auto split: option.splits outcome.splits)
  have "peer_safe ''1,02:00:00:00:00:01''" by code_simp
  then have "\<forall>x \<in> set line_opts. opt_safe True x" by (simp add: line_opts_def)
  from launch_args_parse_safe [OF line_ok line_known this, of sim_seg_api line_lib False] r show ?thesis by auto
qed


theorem portnuma_witness:
  "\<exists>a'. parse_portnuma_config line_lib line_st (group_text (0, 3)) line_args = Some (0, a') \<and> port_numa (fw (a_sets a')) ! 0 = 3"
proof -
  have "\<forall>(p, s) \<in> set [(0 :: nat, 3 :: nat)]. of_nat p \<in> set (eth_devs line_st) \<and> p < 32 \<and> s < 256"
    "length (port_numa (fw (a_sets line_args))) = 32" "length (socket_ids (fw (a_sets line_args))) + length [(0 :: nat, 3 :: nat)] \<le> 32"
    by (simp_all add: line_st_def sim_st_def line_args_def line_sets_def sim_fwd_def)
  from portnuma_roundtrip [OF line_lib_splits this] show ?thesis by (auto simp: line_args_def line_sets_def)
qed

section \<open>Launch\<close>

definition read_opt :: "string \<Rightarrow> opt" where
  "read_opt w = OptLong (takeWhile (\<lambda>c. c \<noteq> CHR ''='') (drop 2 w)) (Some (tl (dropWhile (\<lambda>c. c \<noteq> CHR ''='') (drop 2 w))))"

definition line_sys :: sys where
  "line_sys = \<lparr>rte_eal_init = (\<lambda>argv. int (length (takeWhile (\<lambda>w. w \<noteq> ''--'') (tl argv))) + 1), registered = True,
     getopt_long = (\<lambda>ws. (map read_opt ws, False)), rte_eth_dev_get_port_by_name = (\<lambda>_. Some 0)\<rparr>"

definition line_config :: config where
  "line_config = \<lparr>lcore_related = ''-l 0-3'', memory_related = [], device_related = ''-a 0'', multi_process_related = [],
     debugging_related = [], mp_alloc_conf = None, mbuf_size_conf = None, total_num_mbufs_conf = None, mbcache_conf = None,
     max_pkt_len_conf = None, burst_conf = None, num_rx_tx_desc = (0, []), lports_conf = [(''p0'', 2)]\<rparr>"

lemma lgopts_plain: "map_of lgopts n = Some k \<Longrightarrow> CHR ''='' \<notin> set n"
proof -
  have "list_all (\<lambda>(n, k). CHR ''='' \<notin> set n) lgopts" by code_simp
  then show "map_of lgopts n = Some k \<Longrightarrow> CHR ''='' \<notin> set n" by (auto simp: list_all_iff dest: map_of_SomeD)
qed

lemma line_sys_laws: "eal_law line_sys" "getopt_law line_sys"
proof -
  show "eal_law line_sys" by (auto simp: eal_law_def line_sys_def Let_def takeWhile_append)
  have "read_opt (opt_word (n, v)) = OptLong n (Some v)" if "map_of lgopts n = Some 1" for n v
  proof -
    have "\<forall>c \<in> set n. c \<noteq> CHR ''=''" using lgopts_plain [OF that] by auto
    then show ?thesis by (simp add: read_opt_def opt_word_def takeWhile_append dropWhile_append)
  qed
  then show "getopt_law line_sys" by (auto simp: getopt_law_def line_sys_def)
qed

lemma set_def_ports: "set_def_fwd_config env (d\<lparr>ports := ps\<rparr>) s = set_def_fwd_config env d s"
  by (simp add: set_def_fwd_config_def set_default_fwd_ports_config_def)

text \<open>The words of this configuration, the options in them, and the defaults.\<close>

lemma line_words:
  "words [] (count_args line_config) = [''./APPNAME'', ''-l'', ''0-3'', ''-a'', ''0'', ''--'', ''--nb-cores=2'', ''--nb-ports=1'', ''--rxq=2'', ''--txq=2'']"
  "map read_opt [''--nb-cores=2'', ''--nb-ports=1'', ''--rxq=2'', ''--txq=2''] =
     [OptLong ''nb-cores'' (Some (dec 2)), OptLong ''nb-ports'' (Some (dec 1)), OptLong ''rxq'' (Some (dec 2)), OptLong ''txq'' (Some (dec 2))]"
  by code_simp+

lemma line_defaults:
  "\<exists>t. set_def_fwd_config sim_env line_st line_sets = Some t \<and> nb_lcores t = 3 \<and> nb_ports (fw t) = 1 \<and>
     nb_rxq (fw t) = 2 \<and> proc_id (fw t) = 0 \<and> num_procs (fw t) = 1"
proof -
  have "map_option (\<lambda>t. (nb_lcores t, nb_ports (fw t), nb_rxq (fw t), proc_id (fw t), num_procs (fw t)))
     (set_def_fwd_config sim_env line_st line_sets) = Some (3, 1, 2, 0, 1)" by code_simp
  then show ?thesis by auto
qed

lemma line_launched:
  "\<exists>x. launch sim_conf_api sim_seg_api line_lib line_sys sim_env line_config line_st line_args = Some (Return x)"
proof -
  let ?d = "line_st\<lparr>ports := replicate RTE_MAX_ETHPORTS zero_port\<rparr>"
  obtain a1 where i: "init_port line_st line_args = (?d, a1)" "a_sets (count_ports ?d a1) = line_sets"
    by (simp add: init_port_def count_ports_def upd_ctl_def upd_fw_def line_args_def line_sets_def line_st_def sim_st_def)
  obtain t where t: "set_def_fwd_config sim_env ?d line_sets = Some t" "nb_lcores t = 3" "nb_ports (fw t) = 1" "nb_rxq (fw t) = 2"
    "proc_id (fw t) = 0" "num_procs (fw t) = 1"
    using line_defaults by (auto simp: set_def_ports)
  have q: "check_nb_rxq sim_conf_api 2 ?d = 0" "check_nb_txq sim_conf_api 2 ?d = 0"
    using line_queues by (simp_all add: check_nb_rxq_def get_allowed_max_nb_rxq_def check_nb_txq_def get_allowed_max_nb_txq_def)
  have e: "rte_eal_init line_sys (words [] (count_args line_config)) = 5" by code_simp
  have l: "memory_left line_lib" "registered line_sys" "find_lports line_sys (map fst (lports_conf line_config)) [] = ok [0]"
    by (simp_all add: line_lib_def line_sys_def line_config_def)
  have g: "getopt_long line_sys [''--nb-cores=2'', ''--nb-ports=1'', ''--rxq=2'', ''--txq=2''] =
     ([OptLong ''nb-cores'' (Some (dec 2)), OptLong ''nb-ports'' (Some (dec 1)), OptLong ''rxq'' (Some (dec 2)), OptLong ''txq'' (Some (dec 2))], False)"
    using line_words(2) by (simp add: line_sys_def)
  show ?thesis
    by (simp add: launch_def create_eal_params_def e [unfolded line_words] l i t g q line_words(1) launch_args_parse_def size_options require_def some_queues_def
        finish_args_def upd_fw_def to_int_small Let_def)
qed

theorem launch_witness:
  "\<exists>d' ids a'. launch sim_conf_api sim_seg_api line_lib line_sys sim_env line_config line_st line_args = Some (Return (d', ids, a')) \<and>
     nb_rxq (fw (a_sets a')) = 2 \<and> g_nb_fwd_ports (fw (a_sets a')) = 1"
proof -
  have c: "config_ok line_config" "num_cores line_config = 2" "num_ports line_config = 1" by code_simp+
  have "count_ports line_st line_args = line_args"
    by (simp add: count_ports_def upd_fw_def line_args_def line_sets_def line_st_def sim_st_def)
  moreover have "args_inv False sim_conf_api sim_env line_st line_args" using line_ok by (simp add: args_inv_def args_wf_def)
  ultimately have i: "args_inv False sim_conf_api sim_env line_st (count_ports line_st line_args)" by simp
  have s: "sockets_ok sim_env (fw (a_sets line_args))"
    by (simp add: sockets_ok_def few_def sim_env_def line_args_def line_sets_def sim_fwd_def)
  from launch_takes_over_configuration [OF c(1) _ _ line_sys_laws i s, of sim_seg_api line_lib] c(2,3) sim_workers line_launched
  show ?thesis by (auto simp: word_unat_eq_iff)
qed

end
