(* ===== verification/Xdp.thy ===== *)
theory Xdp
  imports Datapath
begin

text \<open>
  The AF_XDP data path (\<^verbatim>\<open>lib/core/cndp/cndp.cpp\<close>, the structures of \<^verbatim>\<open>cndp.h\<close>): receive and transmit
  through one of two packet interfaces, the transmit buffers of a thread, run to completion, master
  and workers, and packets from the tap device.  Packet buffers are owned as in the DPDK data path:
  freeing a buffer, adding it to a transmit buffer or sending it ends the ownership, and touching a
  buffer that is not owned, like leaving an array, is \<open>None\<close>.  The CNDP library (sockets, buffers,
  transmit buffers, rings) and the packet handlers are parameters.
\<close>

section \<open>Structures\<close>

datatype pkt_api_t = UNKNOWN_PKT_API | XSKDEV_PKT_API | PKTDEV_PKT_API

datatype thread_quit_state = THD_RUN | THD_QUIT | THD_DONE

text \<open>
  A port: the thread that polls it, the union of a socket pointer and a port number, and the counter
  of packets that could not be sent.
\<close>

record fwd_port =
  fp_thd :: "nat option"
  fp_dev :: u64
  tx_overrun :: u64

text \<open>The two members of the union; the number is in the low half of the pointer.\<close>

definition fp_xsk :: "fwd_port \<Rightarrow> handle" where
  "fp_xsk pd = fp_dev pd"

definition fp_lport :: "fwd_port \<Rightarrow> int" where
  "fp_lport pd = sint (ucast (fp_dev pd) :: u32)"

definition set_lport :: "int \<Rightarrow> fwd_port \<Rightarrow> fwd_port" where
  "set_lport v pd = pd\<lparr>fp_dev := or (push_bit 32 (drop_bit 32 (fp_dev pd))) (ucast (word_of_int v :: u32))\<rparr>"

record region_info =
  ri_addr :: u64
  ri_bufcnt :: u32
  ri_pool :: handle

record jcfg_umem =
  um_name :: string
  um_bufcnt :: u32
  um_bufsz :: u32
  um_mtype :: int
  um_rxdesc :: u16
  um_txdesc :: u16
  shared_umem :: bool
  um_mm :: handle
  rinfo :: "region_info list"

record jcfg_lport =
  lp_name :: string
  netdev :: string
  pmd_name :: string
  pmd_opts :: "string option"
  lpid :: nat
  lp_umem :: "nat option"
  region_idx :: nat
  qid :: u16
  busy_timeout :: u16
  busy_budget :: u16
  lp_flags :: u32
  xsk_map_path :: "string option"
  lp_priv :: "fwd_port option"

text \<open>The private data of a thread: one transmit buffer for every port, and the interface.\<close>

record create_txbuff_thd_priv_t =
  txbuffs :: "handle list"
  tp_pkt_api :: pkt_api_t

record jcfg_thd =
  th_name :: string
  thread_type :: string
  group_name :: string
  th_idx :: nat
  th_lports :: "nat list"
  idle_timeout :: nat
  intr_timeout :: nat
  th_quit :: thread_quit_state
  th_pause :: bool
  th_priv :: "create_txbuff_thd_priv_t option"

record app_options =
  no_metrics :: bool
  no_restapi :: bool
  opt_cli :: bool
  opt_pkt_api :: "string option"

text \<open>
  The state of the application with the configuration the library parsed: its memory areas, ports
  and threads.  Ports name their area, and threads their ports, by position.
\<close>

record fwd_info =
  umems :: "jcfg_umem list"
  ports_cfg :: "jcfg_lport list"
  thds :: "jcfg_thd list"
  barrier_inited :: bool
  opts :: app_options
  fi_pkt_api :: pkt_api_t
  xdp_uds :: handle
  fi_burst :: int

abbreviation PI_LEN :: nat where "PI_LEN \<equiv> 4"

text \<open>An element of an array, \<open>None\<close> outside it.\<close>

definition elem_at :: "'a list \<Rightarrow> nat \<Rightarrow> 'a option" where
  "elem_at xs i = (if i < length xs then Some (xs ! i) else None)"

section \<open>The library\<close>

text \<open>
  A receive call reports a number and stores packets; an allocation reports a number and the buffer
  with the room it has.  \<open>admin_down\<close> is the number that says that the port is down.
\<close>

record 'd xdp_api =
  admin_down :: int
  xskdev_rx_burst :: "handle \<Rightarrow> int \<Rightarrow> 'd \<Rightarrow> int \<times> (nat \<times> u8 list) list \<times> 'd"
  pktdev_rx_burst :: "int \<Rightarrow> int \<Rightarrow> 'd \<Rightarrow> int \<times> (nat \<times> u8 list) list \<times> 'd"
  xskdev_tx_burst :: "handle \<Rightarrow> (nat \<times> u8 list) list \<Rightarrow> 'd \<Rightarrow> int \<times> 'd"
  pktdev_tx_burst :: "int \<Rightarrow> (nat \<times> u8 list) list \<Rightarrow> 'd \<Rightarrow> int \<times> 'd"
  pktdev_buf_alloc :: "int \<Rightarrow> 'd \<Rightarrow> int \<times> (nat \<times> nat) \<times> 'd"
  pktmbuf_alloc_bulk :: "handle \<Rightarrow> 'd \<Rightarrow> int \<times> (nat \<times> nat) \<times> 'd"
  pktmbuf_raw_free :: "nat \<Rightarrow> 'd \<Rightarrow> 'd"
  pktmbuf_prepend :: "nat \<Rightarrow> nat \<Rightarrow> u8 list \<Rightarrow> u8 list option"
  txbuff_add :: "handle \<Rightarrow> nat \<Rightarrow> u8 list \<Rightarrow> 'd \<Rightarrow> int \<times> 'd"
  txbuff_count :: "handle \<Rightarrow> 'd \<Rightarrow> nat"
  txbuff_flush :: "handle \<Rightarrow> 'd \<Rightarrow> int \<times> 'd"
  xtap_write :: "u8 list \<Rightarrow> 'd \<Rightarrow> int \<times> 'd"
  cne_ring_enqueue_bulk :: "nat \<Rightarrow> nat list \<Rightarrow> 'd \<Rightarrow> nat \<times> 'd"
  cne_ring_dequeue_burst :: "nat \<Rightarrow> int \<Rightarrow> 'd \<Rightarrow> nat list \<times> nat \<times> 'd"
  cne_ring_dequeue_bulk :: "nat \<Rightarrow> int \<Rightarrow> 'd \<Rightarrow> nat list \<times> 'd"
  xprocessor :: "u8 list \<Rightarrow> int \<Rightarrow> (int \<times> u8 list) option"
  xtap_processor :: "u8 list \<Rightarrow> int \<Rightarrow> int \<times> u8 list"

section \<open>Receive, transmit, free\<close>

definition rx_burst ::
  "('d, 'z) xdp_api_scheme \<Rightarrow> pkt_api_t \<Rightarrow> fwd_port \<Rightarrow> int \<Rightarrow> 'd \<Rightarrow> int \<times> (nat \<times> u8 list) list \<times> 'd" where
  "rx_burst api pa pd n_pkts d =
     (case pa of
        XSKDEV_PKT_API \<Rightarrow> xskdev_rx_burst api (fp_xsk pd) n_pkts d
      | PKTDEV_PKT_API \<Rightarrow> pktdev_rx_burst api (fp_lport pd) n_pkts d
      | UNKNOWN_PKT_API \<Rightarrow> (0, [], d))"

definition tx_burst ::
  "('d, 'z) xdp_api_scheme \<Rightarrow> pkt_api_t \<Rightarrow> fwd_port \<Rightarrow> (nat \<times> u8 list) list \<Rightarrow> 'd \<Rightarrow> int \<times> 'd" where
  "tx_burst api pa pd ms d =
     (case pa of
        XSKDEV_PKT_API \<Rightarrow> xskdev_tx_burst api (fp_xsk pd) ms d
      | PKTDEV_PKT_API \<Rightarrow> pktdev_tx_burst api (fp_lport pd) ms d
      | UNKNOWN_PKT_API \<Rightarrow> (0, d))"

text \<open>The packets of an array, each with its bytes; a packet that is not owned must not be sent.\<close>

fun packets :: "'d dp \<Rightarrow> nat list \<Rightarrow> (nat \<times> u8 list) list option" where
  "packets s [] = Some []"
| "packets s (a # as) = do { x \<leftarrow> live s a; ms \<leftarrow> packets s as; Some ((a, x) # ms) }"

definition give_up :: "nat list \<Rightarrow> 'd dp \<Rightarrow> 'd dp" where
  "give_up as s = s\<lparr>live := (\<lambda>a. if a \<in> set as then None else live s a)\<rparr>"

text \<open>
  Sending until nothing is left.  Numbers are of 16 bits.  The loop has no bound in the code; the
  fuel bounds its rounds and running out of it is \<open>None\<close>, as is a driver that takes more packets
  than it was given.
\<close>

fun tx_flush ::
  "nat \<Rightarrow> ('d, 'z) xdp_api_scheme \<Rightarrow> pkt_api_t \<Rightarrow> fwd_port \<Rightarrow> nat list \<Rightarrow> 'd dp \<Rightarrow> (u16 \<times> 'd dp) option" where
  "tx_flush fuel api pa pd [] s = Some (0, s)"
| "tx_flush 0 api pa pd (a # as) s = None"
| "tx_flush (Suc fuel) api pa pd (a # as) s = do {
     ms \<leftarrow> packets s (a # as);
     (case tx_burst api pa pd ms (dp_dev s) of (r, d) \<Rightarrow>
       (let n = word_of_int r :: u16 in
        if uint n = admin_down api then Some (n, s\<lparr>dp_dev := d\<rparr>)
        else if unat n \<le> Suc (length as)
        then tx_flush fuel api pa pd (drop (unat n) (a # as)) (give_up (take (unat n) (a # as)) (s\<lparr>dp_dev := d\<rparr>))
        else None))
   }"

definition pktmbuf_free :: "('d, 'z) xdp_api_scheme \<Rightarrow> nat \<Rightarrow> 'd dp \<Rightarrow> 'd dp option" where
  "pktmbuf_free api a s =
     (case live s a of
        None \<Rightarrow> None
      | Some _ \<Rightarrow> Some (s\<lparr>live := (live s)(a := None), dp_dev := pktmbuf_raw_free api a (dp_dev s)\<rparr>))"

text \<open>Bytes in front of the packet, if there is room; otherwise the packet stays as it is.\<close>

definition prepend_data :: "('d, 'z) xdp_api_scheme \<Rightarrow> nat \<Rightarrow> nat \<Rightarrow> u8 list \<Rightarrow> u8 list" where
  "prepend_data api a len data = (case pktmbuf_prepend api a len data of None \<Rightarrow> data | Some out \<Rightarrow> out)"

text \<open>The transmit buffer of a port.\<close>

definition tx_add ::
  "('d, 'z) xdp_api_scheme \<Rightarrow> handle list \<Rightarrow> nat \<Rightarrow> nat \<Rightarrow> 'd dp \<Rightarrow> 'd dp option" where
  "tx_add api bufs port a s = do {
     h \<leftarrow> elem_at bufs port;
     x \<leftarrow> live s a;
     Some (s\<lparr>live := (live s)(a := None), dp_dev := snd (txbuff_add api h a x (dp_dev s))\<rparr>)
   }"

definition tap_out :: "('d, 'z) xdp_api_scheme \<Rightarrow> nat \<Rightarrow> u8 list \<Rightarrow> 'd dp \<Rightarrow> 'd dp option" where
  "tap_out api a out s = pktmbuf_free api a ((mbuf_set a out s)\<lparr>dp_dev := snd (xtap_write api out (dp_dev s))\<rparr>)"

section \<open>Run to completion\<close>

definition xdp_arp ::
  "('d, 'z) xdp_api_scheme \<Rightarrow> dpm \<Rightarrow> handle list \<Rightarrow> nat \<Rightarrow> nat \<Rightarrow> 'd dp \<Rightarrow> 'd dp option" where
  "xdp_arp api m bufs port a s = do {
     data \<leftarrow> live s a;
     (verdict, data') \<leftarrow> arp_handler m data (int port);
     (let s1 = mbuf_set a data' s in
      if verdict = KERNEL then tap_out api a (prepend_data api a 4 data') s1
      else if verdict = DROP then pktmbuf_free api a s1
      else tx_add api bufs port a s1)
   }"

text \<open>
  The filter: the Ethernet header is located before four bytes are put in front of the packet.  The
  flag says that the packet is done with.
\<close>

definition xdp_filter ::
  "('d, 'z) xdp_api_scheme \<Rightarrow> dpm \<Rightarrow> nat \<Rightarrow> 'd dp \<Rightarrow> (bool \<times> 'd dp) option" where
  "xdp_filter api m a s = do {
     data \<leftarrow> live s a;
     port_number \<leftarrow> get_packet_port_number data;
     (if \<not> filter_packet (fastpath_ports m) port_number then do {
        (let data1 = prepend_data api a PI_LEN data in do {
           out \<leftarrow> wr (length data1 - length data) (tap_mac_addr m) data1;
           s1 \<leftarrow> tap_out api a out s;
           Some (True, s1)
         })
      }
      else Some (False, s))
   }"

text \<open>The verdict of the handler; here the Ethernet header is located behind the same step.\<close>

definition xdp_dispatch ::
  "('d, 'z) xdp_api_scheme \<Rightarrow> dpm \<Rightarrow> jcfg_lport list \<Rightarrow> handle list \<Rightarrow> nat \<Rightarrow> nat \<Rightarrow> 'd dp \<Rightarrow> 'd dp option" where
  "xdp_dispatch api m lps bufs port a s = do {
     data \<leftarrow> live s a;
     (verdict, data') \<leftarrow> xprocessor api data (int port);
     (let s1 = mbuf_set a data' s in
      if verdict = KERNEL then do {
        out \<leftarrow> wr 0 (tap_mac_addr m) (prepend_data api a 4 data');
        tap_out api a out s1
      }
      else if verdict = DROP then pktmbuf_free api a s1
      else if 0 \<le> verdict then do {
        dst \<leftarrow> elem_at lps (nat verdict);
        tx_add api bufs (lpid dst) a s1
      }
      else None)
   }"

definition xdp_packet ::
  "('d, 'z) xdp_api_scheme \<Rightarrow> dpm \<Rightarrow> jcfg_lport list \<Rightarrow> handle list \<Rightarrow> nat \<Rightarrow> nat \<Rightarrow> 'd dp \<Rightarrow> 'd dp option" where
  "xdp_packet api m lps bufs port a s = do {
     data \<leftarrow> live s a;
     ty \<leftarrow> get_ether_type data;
     (if ty = PTYPE_L2_ETHER_ARP then xdp_arp api m bufs port a s
      else do {
        (done, s1) \<leftarrow> (if fast_path_filtering m then xdp_filter api m a s else Some (False, s));
        (if done then Some s1 else xdp_dispatch api m lps bufs port a s1)
      })
   }"

fun xdp_burst ::
  "('d, 'z) xdp_api_scheme \<Rightarrow> dpm \<Rightarrow> jcfg_lport list \<Rightarrow> handle list \<Rightarrow> nat \<Rightarrow> nat list \<Rightarrow> 'd dp \<Rightarrow> 'd dp option" where
  "xdp_burst api m lps bufs port [] s = Some s"
| "xdp_burst api m lps bufs port (a # as) s = do {
     s1 \<leftarrow> xdp_packet api m lps bufs port a s;
     xdp_burst api m lps bufs port as s1
   }"

text \<open>The transmit buffers are flushed until they are empty, port after port.\<close>

fun txbuff_drain :: "nat \<Rightarrow> ('d, 'z) xdp_api_scheme \<Rightarrow> handle \<Rightarrow> 'd \<Rightarrow> 'd option" where
  "txbuff_drain fuel api h d =
     (if txbuff_count api h d = 0 then Some d
      else (case fuel of 0 \<Rightarrow> None | Suc f \<Rightarrow> txbuff_drain f api h (snd (txbuff_flush api h d))))"

declare txbuff_drain.simps [simp del]

fun drain_ports ::
  "nat \<Rightarrow> ('d, 'z) xdp_api_scheme \<Rightarrow> handle list \<Rightarrow> jcfg_lport list \<Rightarrow> 'd \<Rightarrow> 'd option" where
  "drain_ports fuel api bufs [] d = Some d"
| "drain_ports fuel api bufs (lp # lps) d = do {
     h \<leftarrow> elem_at bufs (lpid lp);
     d1 \<leftarrow> txbuff_drain fuel api h d;
     drain_ports fuel api bufs lps d1
   }"

text \<open>
  One call of the engine: the private data of the port is followed to its thread and the transmit
  buffers of the thread before the test whether it is there.  The packets behind those a receive
  call stored are left over from earlier bursts and are not ours.
\<close>

definition run_to_completion_cndp ::
  "nat \<Rightarrow> ('d, 'z) xdp_api_scheme \<Rightarrow> dpm \<Rightarrow> fwd_info \<Rightarrow> jcfg_lport \<Rightarrow> 'd dp \<Rightarrow> (int \<times> 'd dp) option" where
  "run_to_completion_cndp fuel api m fi lport s = do {
     pd \<leftarrow> lp_priv lport;
     t \<leftarrow> fp_thd pd;
     thd \<leftarrow> elem_at (thds fi) t;
     priv \<leftarrow> th_priv thd;
     (case rx_burst api (fi_pkt_api fi) pd (fi_burst fi) (dp_dev s) of (n_pkts, ms, d) \<Rightarrow>
       (let s1 = take_over ms (s\<lparr>dp_dev := d\<rparr>) in
        if n_pkts = admin_down api then Some (-1, s1)
        else if nat n_pkts \<le> length ms then do {
          s2 \<leftarrow> xdp_burst api m (ports_cfg fi) (txbuffs priv) (lpid lport) (take (nat n_pkts) (map fst ms)) s1;
          d2 \<leftarrow> drain_ports fuel api (txbuffs priv) (ports_cfg fi) (dp_dev s2);
          Some (n_pkts, s2\<lparr>dp_dev := d2\<rparr>)
        }
        else None))
   }"

section \<open>Master and workers\<close>

text \<open>
  The drain loop of the master: what the ring delivers is sent, and the number of packets the driver
  took is not looked at.  The fuel bounds the rounds.
\<close>

fun master_drain_cndp ::
  "nat \<Rightarrow> ('d, 'z) xdp_api_scheme \<Rightarrow> fwd_info \<Rightarrow> fwd_port \<Rightarrow> nat \<Rightarrow> 'd dp \<Rightarrow> 'd dp option" where
  "master_drain_cndp 0 api fi pd ring s = None"
| "master_drain_cndp (Suc fuel) api fi pd ring s =
     (case cne_ring_dequeue_burst api ring (fi_burst fi) (dp_dev s) of (as, available, d) \<Rightarrow> do {
        ms \<leftarrow> packets s as;
        (case tx_burst api (fi_pkt_api fi) pd ms d of (n, d1) \<Rightarrow>
          (let s1 = (give_up (take (nat n) as) s)\<lparr>dp_dev := d1\<rparr> in
           if available = 0 then Some s1 else master_drain_cndp fuel api fi pd ring s1))
      })"

definition master_worker_cndp ::
  "nat \<Rightarrow> ('d, 'z) xdp_api_scheme \<Rightarrow> nat \<Rightarrow> fwd_info \<Rightarrow> jcfg_lport \<Rightarrow> 'd dp \<Rightarrow> (int \<times> 'd dp) option" where
  "master_worker_cndp fuel api nrings fi lport s = do {
     pd \<leftarrow> lp_priv lport;
     t \<leftarrow> fp_thd pd;
     thd \<leftarrow> elem_at (thds fi) t;
     _ \<leftarrow> th_priv thd;
     (case rx_burst api (fi_pkt_api fi) pd (fi_burst fi) (dp_dev s) of (n_pkts, ms, d) \<Rightarrow>
       (let s1 = take_over ms (s\<lparr>dp_dev := d\<rparr>) in
        if n_pkts = admin_down api then Some (-1, s1)
        else if 0 \<le> n_pkts \<and> nat n_pkts \<le> length ms \<and> lpid lport < nrings then do {
          s2 \<leftarrow> master_drain_cndp fuel api fi pd (lpid lport)
                 (s1\<lparr>dp_dev := snd (cne_ring_enqueue_bulk api (lpid lport) (take (nat n_pkts) (map fst ms)) (dp_dev s1))\<rparr>);
          Some (n_pkts, s2)
        }
        else None))
   }"

text \<open>
  One packet of a worker.  Whichever packet of the burst is at hand, the first one is put on the ring;
  packets that are dropped by the ARP branch or passed over by the filter are not freed.
\<close>

definition to_tx_ring ::
  "('d, 'z) xdp_api_scheme \<Rightarrow> nat \<Rightarrow> int \<Rightarrow> nat \<Rightarrow> 'd dp \<Rightarrow> 'd dp option" where
  "to_tx_ring api nrings ring first s =
     (if 0 \<le> ring \<and> nat ring < nrings
      then Some (s\<lparr>dp_dev := snd (cne_ring_enqueue_bulk api (nat ring) [first] (dp_dev s))\<rparr>) else None)"

definition xdp_worker_packet ::
  "('d, 'z) xdp_api_scheme \<Rightarrow> dpm \<Rightarrow> nat \<Rightarrow> nat \<Rightarrow> nat \<Rightarrow> nat \<Rightarrow> 'd dp \<Rightarrow> 'd dp option" where
  "xdp_worker_packet api m nrings port first a s = do {
     data \<leftarrow> live s a;
     ty \<leftarrow> get_ether_type data;
     (if ty = PTYPE_L2_ETHER_ARP then do {
        (verdict, data') \<leftarrow> arp_handler m data (int port);
        (let s1 = mbuf_set a data' s in
         if verdict \<noteq> DROP then to_tx_ring api nrings (int port) first s1 else Some s1)
      }
      else do {
        port_number \<leftarrow> get_packet_port_number data;
        (if filter_packet (fastpath_ports m) port_number then Some s
         else do {
           (verdict, data') \<leftarrow> xprocessor api data (int port);
           (let s1 = mbuf_set a data' s in
            if verdict = KERNEL then do {
              out \<leftarrow> wr 0 (tap_mac_addr m) data';
              tap_out api a out s1
            }
            else if verdict = DROP then pktmbuf_free api a s1
            else to_tx_ring api nrings verdict first s1)
         })
      })
   }"

fun xdp_worker_burst ::
  "('d, 'z) xdp_api_scheme \<Rightarrow> dpm \<Rightarrow> nat \<Rightarrow> nat \<Rightarrow> nat \<Rightarrow> nat list \<Rightarrow> 'd dp \<Rightarrow> 'd dp option" where
  "xdp_worker_burst api m nrings port first [] s = Some s"
| "xdp_worker_burst api m nrings port first (a # as) s = do {
     s1 \<leftarrow> xdp_worker_packet api m nrings port first a s;
     xdp_worker_burst api m nrings port first as s1
   }"

text \<open>One pass of a worker over the rings; the thread repeats it for ever.\<close>

fun worker_thread ::
  "('d, 'z) xdp_api_scheme \<Rightarrow> dpm \<Rightarrow> nat \<Rightarrow> int \<Rightarrow> nat list \<Rightarrow> 'd dp \<Rightarrow> 'd dp option" where
  "worker_thread api m nrings burst [] s = Some s"
| "worker_thread api m nrings burst (port # ps) s =
     (case cne_ring_dequeue_bulk api port burst (dp_dev s) of (as, d) \<Rightarrow> do {
        s1 \<leftarrow> (case as of [] \<Rightarrow> Some (s\<lparr>dp_dev := d\<rparr>)
              | first # _ \<Rightarrow> xdp_worker_burst api m nrings port first as (s\<lparr>dp_dev := d\<rparr>));
        worker_thread api m nrings burst ps s1
      })"

section \<open>Packets from the kernel\<close>

text \<open>
  A packet of the tap device is copied into a buffer of the pool and sent through the first port of a
  thread.  What a port that is down does not take is counted with the number that says so, and the
  buffer is kept.
\<close>

definition send_single_packet_cndp ::
  "nat \<Rightarrow> ('d, 'z) xdp_api_scheme \<Rightarrow> nat option list \<Rightarrow> fwd_info \<Rightarrow> u8 list \<Rightarrow> int \<Rightarrow> int \<Rightarrow> 'd dp
    \<Rightarrow> (fwd_info \<times> 'd dp) option" where
  "send_single_packet_cndp fuel api func_args fi buffer read_len port s = do {
     arg \<leftarrow> (if 0 \<le> port then elem_at func_args (nat port) else None);
     t \<leftarrow> arg;
     thd \<leftarrow> elem_at (thds fi) t;
     l \<leftarrow> elem_at (th_lports thd) 0;
     lport \<leftarrow> elem_at (ports_cfg fi) l;
     pd \<leftarrow> lp_priv lport;
     (n_pkts, mbuf, d) \<leftarrow>
       (if fi_pkt_api fi = PKTDEV_PKT_API then Some (pktdev_buf_alloc api (fp_lport pd) (dp_dev s))
        else do {
          u \<leftarrow> lp_umem lport;
          um \<leftarrow> elem_at (umems fi) u;
          ri \<leftarrow> elem_at (rinfo um) (region_idx lport);
          Some (pktmbuf_alloc_bulk api (ri_pool ri) (dp_dev s))
        });
     (let s0 = s\<lparr>dp_dev := d\<rparr> in
      if n_pkts > 0 then
        (case mbuf of (a, room) \<Rightarrow>
          if n_pkts = 1 \<and> 0 \<le> read_len \<and> nat read_len \<le> length buffer \<and> nat read_len \<le> room then do {
            (n, s1) \<leftarrow> tx_flush fuel api (fi_pkt_api fi) pd [a] (mbuf_set a (take (nat read_len) buffer) s0);
            Some (fi\<lparr>ports_cfg := (ports_cfg fi)[l := lport\<lparr>lp_priv := Some (pd\<lparr>tx_overrun := tx_overrun pd + ucast n\<rparr>)\<rparr>]\<rparr>, s1)
          }
          else None)
      else Some (fi, s0))
   }"

text \<open>An ARP packet goes out of every port, with the hardware address of the port in it.\<close>

fun tap_arp_cndp ::
  "nat \<Rightarrow> ('d, 'z) xdp_api_scheme \<Rightarrow> nat option list \<Rightarrow> u8 list list \<Rightarrow> nat \<Rightarrow> int \<Rightarrow> u8 list \<Rightarrow> fwd_info \<times> 'd dp
    \<Rightarrow> (u8 list \<times> fwd_info \<times> 'd dp) option" where
  "tap_arp_cndp fuel api func_args [] port read_len buffer (fi, s) = Some (buffer, fi, s)"
| "tap_arp_cndp fuel api func_args (mac # macs) port read_len buffer (fi, s) = do {
     b1 \<leftarrow> wr (PI_LEN + 22) mac buffer;
     b2 \<leftarrow> wr (PI_LEN + 6) mac b1;
     st \<leftarrow> send_single_packet_cndp fuel api func_args fi (drop PI_LEN b2) (read_len - int PI_LEN) (int port) s;
     tap_arp_cndp fuel api func_args macs (Suc port) read_len b2 st
   }"

definition tap_packet_cndp ::
  "nat \<Rightarrow> ('d, 'z) xdp_api_scheme \<Rightarrow> nat option list \<Rightarrow> u8 list list \<Rightarrow> u8 list \<Rightarrow> u8 list \<Rightarrow> fwd_info \<Rightarrow> 'd dp
    \<Rightarrow> (u8 list \<times> fwd_info \<times> 'd dp) option" where
  "tap_packet_cndp fuel api func_args cndp_lport_mac pkt buffer fi s = do {
     b0 \<leftarrow> wr 0 pkt buffer;
     (let read_len = int (length pkt) in do {
        ty \<leftarrow> get_ether_type (drop PI_LEN b0);
        (if ty = PTYPE_L2_ETHER_ARP
         then tap_arp_cndp fuel api func_args cndp_lport_mac 0 read_len b0 (fi, s)
         else (case xtap_processor api (drop PI_LEN b0) (read_len - int PI_LEN) of (verdict, out) \<Rightarrow>
           (let b1 = take PI_LEN b0 @ out in
            if verdict = DROP \<or> verdict = KERNEL then Some (b1, fi, s)
            else do {
              st \<leftarrow> send_single_packet_cndp fuel api func_args fi (drop PI_LEN b1) (read_len - int PI_LEN) verdict s;
              Some (b1, st)
            })))
      })
   }"

text \<open>The thread, over what \<^verbatim>\<open>read\<close> returns and what \<^verbatim>\<open>is_running\<close> then answers.\<close>

fun tap_handler_cndp ::
  "nat \<Rightarrow> ('d, 'z) xdp_api_scheme \<Rightarrow> nat option list \<Rightarrow> u8 list list \<Rightarrow> (u8 list \<times> bool) list \<Rightarrow> u8 list
    \<Rightarrow> fwd_info \<Rightarrow> 'd dp \<Rightarrow> (fwd_info \<times> 'd dp) option" where
  "tap_handler_cndp fuel api func_args cndp_lport_mac [] buffer fi s = Some (fi, s)"
| "tap_handler_cndp fuel api func_args cndp_lport_mac ((pkt, running) # reads) buffer fi s =
     (if pkt = [] \<or> \<not> running then Some (fi, s)
      else do {
        (b, fi1, s1) \<leftarrow> tap_packet_cndp fuel api func_args cndp_lport_mac pkt buffer fi s;
        tap_handler_cndp fuel api func_args cndp_lport_mac reads b fi1 s1
      })"

end
