(* ===== verification/XdpLaws.thy ===== *)
theory XdpLaws
  imports Xdp
begin

text \<open>
  What the AF_XDP packet loops guarantee: a received burst is handled completely, with ARP packets
  and with the port filter on or off; what the filter and the kernel verdict write to the tap device;
  and that sending returns.
\<close>

section \<open>What the loops rely on\<close>

text \<open>
  Transmit buffers have a capacity, a flush of one that is not empty sends something, and a flush
  of one leaves the others alone.
\<close>

definition txbuff_ok :: "('d, 'z) xdp_api_scheme \<Rightarrow> nat \<Rightarrow> bool" where
  "txbuff_ok api cap \<longleftrightarrow>
     (\<forall>h d. txbuff_count api h d \<le> cap) \<and>
     (\<forall>h d. txbuff_count api h d \<noteq> 0 \<longrightarrow> txbuff_count api h (snd (txbuff_flush api h d)) < txbuff_count api h d) \<and>
     (\<forall>h g d. g \<noteq> h \<longrightarrow> txbuff_count api g (snd (txbuff_flush api h d)) = txbuff_count api g d)"

text \<open>Bytes put in front of a packet leave the packet behind them.\<close>

definition prepend_ok :: "('d, 'z) xdp_api_scheme \<Rightarrow> bool" where
  "prepend_ok api \<longleftrightarrow>
     (\<forall>a n x out. pktmbuf_prepend api a n x = Some out \<longrightarrow> length out = n + length x \<and> drop n out = x)"

text \<open>Addresses of the manager have six bytes.\<close>

definition macs_ok :: "dpm \<Rightarrow> bool" where
  "macs_ok m \<longleftrightarrow> length (tap_mac_addr m) = 6 \<and> (\<forall>mac \<in> set (lport_mac m). length mac = 6)"

text \<open>
  A port whose thread has its transmit buffers, as \<^verbatim>\<open>create_per_thread_txbuff\<close> makes them: one for every
  port, at the number of the port.
\<close>

definition polled :: "fwd_info \<Rightarrow> jcfg_lport \<Rightarrow> fwd_port \<Rightarrow> create_txbuff_thd_priv_t \<Rightarrow> bool" where
  "polled fi lport pd priv \<longleftrightarrow>
     lp_priv lport = Some pd \<and> lport \<in> set (ports_cfg fi) \<and>
     (\<exists>t thd. fp_thd pd = Some t \<and> elem_at (thds fi) t = Some thd \<and> th_priv thd = Some priv) \<and>
     length (txbuffs priv) = length (ports_cfg fi) \<and> map lpid (ports_cfg fi) = [0..<length (ports_cfg fi)]"

text \<open>A frame that is long enough for what is read in it, and that the application handles.\<close>

definition xdp_frame :: "('d, 'z) xdp_api_scheme \<Rightarrow> dpm \<Rightarrow> nat \<Rightarrow> nat \<Rightarrow> u8 list \<Rightarrow> bool" where
  "xdp_frame api m nports port x \<longleftrightarrow>
     (case get_ether_type x of
        None \<Rightarrow> False
      | Some ty \<Rightarrow>
          if ty = PTYPE_L2_ETHER_ARP then 42 \<le> length x \<and> port < length (lport_mac m)
          else get_packet_port_number x \<noteq> None \<and> 6 \<le> length x \<and>
            (case xprocessor api x (int port) of
               None \<Rightarrow> False
             | Some (v, out) \<Rightarrow> v = KERNEL \<and> 6 \<le> length out \<or> v = DROP \<or> 0 \<le> v \<and> nat v < nports \<and> v \<noteq> KERNEL))"

section \<open>One packet\<close>

lemma elem_at_Some: "elem_at xs i = Some y \<longleftrightarrow> i < length xs \<and> y = xs ! i"
  by (auto simp: elem_at_def)

lemma pktmbuf_free_live: "live s a = Some x \<Longrightarrow>
    \<exists>t. pktmbuf_free api a s = Some t \<and> live t = (live s)(a := None)"
  by (simp add: pktmbuf_free_def)

lemma tap_out_live: "\<exists>t. tap_out api a out s = Some t \<and> live t = (live s)(a := None)"
  by (simp add: tap_out_def pktmbuf_free_def)

lemma tx_add_live: "live s a = Some x \<Longrightarrow> port < length bufs \<Longrightarrow>
    \<exists>t. tx_add api bufs port a s = Some t \<and> live t = (live s)(a := None)"
  by (simp add: tx_add_def elem_at_def)

lemma prepend_length: "prepend_ok api \<Longrightarrow> length x \<le> length (prepend_data api a n x)"
  by (auto simp: prepend_data_def prepend_ok_def split: option.splits)

lemma arp_handler_answers:
  assumes "42 \<le> length x" "port < length (lport_mac m)" "macs_ok m"
  shows "\<exists>v y. arp_handler m x (int port) = Some (v, y) \<and> (v = KERNEL \<or> v = DROP \<or> v = int port)"
proof -
  have m: "length (lport_mac m ! port) = 6" "length (tap_mac_addr m) = 6"
    using assms(2,3) by (auto simp: macs_ok_def)
  have r: "rd16 x 20 \<noteq> None" "rd32 x 28 \<noteq> None" "rd32 x 38 \<noteq> None" "rdn x 22 6 \<noteq> None"
    using assms(1) by (simp_all add: rd16_def rd32_def rdn_def)
  then obtain op dip tip dm where "rd16 x 20 = Some op" "rd32 x 28 = Some dip" "rd32 x 38 = Some tip" "rdn x 22 6 = Some dm"
    by blast
  moreover from this(4) have "length dm = 6" using assms(1) by (auto simp: rdn_def split: if_splits)
  moreover have "4 \<le> length x - 8" using assms(1) by simp
  ultimately show ?thesis using assms(1,2) m
    by (simp add: arp_handler_def construct_arp_response_def wr_def rdn_def)
qed

lemma xdp_arp_live:
  assumes "live s a = Some x" "42 \<le> length x" "port < length (lport_mac m)" "macs_ok m" "port < length bufs"
  shows "\<exists>t. xdp_arp api m bufs port a s = Some t \<and> live t = (live s)(a := None)"
proof -
  obtain v y where v: "arp_handler m x (int port) = Some (v, y)" "v = KERNEL \<or> v = DROP \<or> v = int port"
    using arp_handler_answers [OF assms(2-4)] by blast
  let ?w = "mbuf_set a y s"
  have l: "live ?w a = Some y" by simp
  consider "v = KERNEL" | "v = DROP" | "v \<noteq> KERNEL" "v \<noteq> DROP" by blast
  then show ?thesis
  proof cases
    case 1
    with tap_out_live [of api a "prepend_data api a 4 y" ?w] v(1) assms(1) show ?thesis by (auto simp: xdp_arp_def Let_def)
  next
    case 2
    with pktmbuf_free_live [OF l, of api] v(1) assms(1) show ?thesis by (auto simp: xdp_arp_def Let_def)
  next
    case 3
    with tx_add_live [OF l assms(5), of api] v(1) assms(1) show ?thesis by (auto simp: xdp_arp_def Let_def)
  qed
qed

lemma xdp_dispatch_live:
  assumes "live s a = Some x" "xprocessor api x (int port) = Some (v, out)"
    "v = KERNEL \<and> 6 \<le> length out \<or> v = DROP \<or> 0 \<le> v \<and> nat v < length lps \<and> v \<noteq> KERNEL"
    "prepend_ok api" "macs_ok m" "length bufs = length lps" "map lpid lps = [0..<length lps]"
  shows "\<exists>t. xdp_dispatch api m lps bufs port a s = Some t \<and> live t = (live s)(a := None)"
proof -
  let ?w = "mbuf_set a out s"
  have l: "live ?w a = Some out" by simp
  consider "v = KERNEL" "6 \<le> length out" | "v = DROP" | "v \<noteq> KERNEL" "v \<noteq> DROP" "0 \<le> v" "nat v < length lps"
    using assms(3) by blast
  then show ?thesis
  proof cases
    case 1
    then obtain y where "wr 0 (tap_mac_addr m) (prepend_data api a 4 out) = Some y"
      using wr_Some [of 0 "tap_mac_addr m" "prepend_data api a 4 out"] prepend_length [OF assms(4), of out a 4] assms(5)
      by (auto simp: macs_ok_def)
    with 1 tap_out_live [of api a y ?w] assms(1,2) show ?thesis by (auto simp: xdp_dispatch_def Let_def)
  next
    case 2
    with pktmbuf_free_live [OF l, of api] assms(1,2) show ?thesis by (auto simp: xdp_dispatch_def Let_def)
  next
    case 3
    have "lpid (lps ! nat v) = nat v" using assms(7) 3(4) by (metis nth_map nth_upt add_0)
    with 3 tx_add_live [OF l, of "nat v" bufs api] assms(1,2,6) show ?thesis
      by (auto simp: xdp_dispatch_def Let_def elem_at_def)
  qed
qed

lemma xdp_filter_live:
  assumes "live s a = Some x" "get_packet_port_number x \<noteq> None" "6 \<le> length x" "prepend_ok api" "macs_ok m"
  shows "xdp_filter api m a s = Some (False, s) \<or>
    (\<exists>t. xdp_filter api m a s = Some (True, t) \<and> live t = (live s)(a := None))"
proof -
  obtain p where p: "get_packet_port_number x = Some p" using assms(2) by blast
  let ?y = "prepend_data api a PI_LEN x"
  have "length ?y - length x + length (tap_mac_addr m) \<le> length ?y"
    using prepend_length [OF assms(4), of x a PI_LEN] assms(3,5) by (simp add: macs_ok_def)
  then obtain z where z: "wr (length ?y - length x) (tap_mac_addr m) ?y = Some z" using wr_Some by blast
  obtain t where t: "tap_out api a z s = Some t" "live t = (live s)(a := None)" using tap_out_live by blast
  show ?thesis
  proof (cases "filter_packet (fastpath_ports m) p")
    case True
    then show ?thesis using assms(1) p by (simp add: xdp_filter_def)
  next
    case False
    then show ?thesis using assms(1) p z t by (simp add: xdp_filter_def Let_def)
  qed
qed

lemma xdp_packet_live:
  assumes "live s a = Some x" "xdp_frame api m (length lps) port x" "prepend_ok api" "macs_ok m"
    "length bufs = length lps" "map lpid lps = [0..<length lps]" "port < length lps"
  shows "\<exists>t. xdp_packet api m lps bufs port a s = Some t \<and> live t = (live s)(a := None)"
proof -
  obtain ty where ty: "get_ether_type x = Some ty" using assms(2) by (auto simp: xdp_frame_def split: option.splits)
  show ?thesis
  proof (cases "ty = PTYPE_L2_ETHER_ARP")
    case True
    then have "42 \<le> length x" "port < length (lport_mac m)" using assms(2) ty by (auto simp: xdp_frame_def)
    with xdp_arp_live [OF assms(1) _ _ assms(4), of port bufs api] True ty assms(1,5,7) show ?thesis
      by (simp add: xdp_packet_def)
  next
    case False
    then obtain v out where f: "get_packet_port_number x \<noteq> None" "6 \<le> length x"
      "xprocessor api x (int port) = Some (v, out)"
      "v = KERNEL \<and> 6 \<le> length out \<or> v = DROP \<or> 0 \<le> v \<and> nat v < length lps \<and> v \<noteq> KERNEL"
      using assms(2) ty by (auto simp: xdp_frame_def split: option.splits)
    obtain t where t: "xdp_dispatch api m lps bufs port a s = Some t" "live t = (live s)(a := None)"
      using xdp_dispatch_live [OF assms(1) f(3,4) assms(3-6)] by blast
    show ?thesis using xdp_filter_live [OF assms(1) f(1,2) assms(3,4)] t assms(1) ty False
      by (cases "fast_path_filtering m") (auto simp: xdp_packet_def)
  qed
qed

section \<open>A burst\<close>

lemma xdp_burst_live:
  assumes "distinct as" "\<forall>a \<in> set as. \<exists>x. live s a = Some x \<and> xdp_frame api m (length lps) port x"
    "prepend_ok api" "macs_ok m" "length bufs = length lps" "map lpid lps = [0..<length lps]" "port < length lps"
  shows "\<exists>t. xdp_burst api m lps bufs port as s = Some t \<and> live t = (\<lambda>a. if a \<in> set as then None else live s a)"
  using assms(1,2)
proof (induction as arbitrary: s)
  case (Cons a as)
  then obtain x where x: "live s a = Some x" "xdp_frame api m (length lps) port x" by auto
  obtain t where t: "xdp_packet api m lps bufs port a s = Some t" "live t = (live s)(a := None)"
    using xdp_packet_live [OF x assms(3-7)] by blast
  have "\<forall>b \<in> set as. \<exists>x. live t b = Some x \<and> xdp_frame api m (length lps) port x"
    using Cons.prems t(2) by auto
  then obtain u where "xdp_burst api m lps bufs port as t = Some u"
    "live u = (\<lambda>b. if b \<in> set as then None else live t b)" using Cons.IH [of t] Cons.prems(1) by auto
  with t show ?case by auto
qed simp

lemma txbuff_drain_empties:
  assumes "txbuff_ok api cap" "txbuff_count api h d \<le> fuel"
  shows "\<exists>d'. txbuff_drain fuel api h d = Some d' \<and> txbuff_count api h d' = 0 \<and>
    (\<forall>g. txbuff_count api g d = 0 \<longrightarrow> txbuff_count api g d' = 0)"
  using assms(2)
proof (induction fuel arbitrary: d)
  case 0
  then show ?case by (simp add: txbuff_drain.simps)
next
  case (Suc fuel)
  show ?case
  proof (cases "txbuff_count api h d = 0")
    case True
    then show ?thesis by (auto simp: txbuff_drain.simps)
  next
    case False
    let ?d = "snd (txbuff_flush api h d)"
    have "txbuff_count api h ?d < txbuff_count api h d" "\<And>g. g \<noteq> h \<Longrightarrow> txbuff_count api g ?d = txbuff_count api g d"
      using assms(1) False by (auto simp: txbuff_ok_def)
    moreover from this(2) have "txbuff_count api g d = 0 \<Longrightarrow> txbuff_count api g ?d = 0" for g
      using False by (cases "g = h") simp_all
    moreover from calculation(1) have "txbuff_count api h ?d \<le> fuel" using Suc.prems by simp
    then obtain d' where "txbuff_drain fuel api h ?d = Some d'" "txbuff_count api h d' = 0"
      "\<forall>g. txbuff_count api g ?d = 0 \<longrightarrow> txbuff_count api g d' = 0" using Suc.IH by blast
    ultimately show ?thesis using False by (auto simp: txbuff_drain.simps [of "Suc fuel"])
  qed
qed

lemma drain_ports_empties:
  assumes "txbuff_ok api cap" "cap \<le> fuel" "\<forall>lp \<in> set lps. lpid lp < length bufs"
  shows "\<exists>d'. drain_ports fuel api bufs lps d = Some d' \<and>
    (\<forall>lp \<in> set lps. txbuff_count api (bufs ! lpid lp) d' = 0) \<and>
    (\<forall>g. txbuff_count api g d = 0 \<longrightarrow> txbuff_count api g d' = 0)"
  using assms(3)
proof (induction lps arbitrary: d)
  case (Cons lp lps)
  have "txbuff_count api (bufs ! lpid lp) d \<le> fuel" using assms(1,2) by (auto simp: txbuff_ok_def intro: order_trans)
  from txbuff_drain_empties [OF assms(1) this] obtain d1 where d1: "txbuff_drain fuel api (bufs ! lpid lp) d = Some d1"
    "txbuff_count api (bufs ! lpid lp) d1 = 0" "\<forall>g. txbuff_count api g d = 0 \<longrightarrow> txbuff_count api g d1 = 0" by blast
  obtain d2 where "drain_ports fuel api bufs lps d1 = Some d2" "\<forall>p \<in> set lps. txbuff_count api (bufs ! lpid p) d2 = 0"
    "\<forall>g. txbuff_count api g d1 = 0 \<longrightarrow> txbuff_count api g d2 = 0" using Cons.IH [of d1] Cons.prems by auto
  with d1 Cons.prems show ?case by (simp add: elem_at_def)
qed simp

lemma xdp_burst_gone:
  assumes "txbuff_ok api cap" "cap \<le> fuel" "prepend_ok api" "macs_ok m" "polled fi lport pd priv" "live s = (\<lambda>_. None)"
    "rx_burst api (fi_pkt_api fi) pd (fi_burst fi) (dp_dev s) = (int (length ms), ms, d)"
    "int (length ms) \<noteq> admin_down api" "distinct (map fst ms)"
    "\<And>a x. (a, x) \<in> set ms \<Longrightarrow> xdp_frame api m (length (ports_cfg fi)) (lpid lport) x"
  shows "\<exists>t. run_to_completion_cndp fuel api m fi lport s = Some (int (length ms), t) \<and> live t = (\<lambda>_. None) \<and>
    (\<forall>h \<in> set (txbuffs priv). txbuff_count api h (dp_dev t) = 0)"
proof -
  let ?lps = "ports_cfg fi" and ?bufs = "txbuffs priv"
  obtain t thd where th: "fp_thd pd = Some t" "elem_at (thds fi) t = Some thd" "th_priv thd = Some priv"
    and p: "lp_priv lport = Some pd" "lport \<in> set ?lps" "length ?bufs = length ?lps" "map lpid ?lps = [0..<length ?lps]"
    using assms(5) unfolding polled_def by blast
  have num: "lpid (?lps ! i) = i" if "i < length ?lps" for i using p(4) that by (metis nth_map nth_upt add_0)
  then have lp: "\<forall>q \<in> set ?lps. lpid q < length ?bufs" by (auto simp: in_set_conv_nth p(3))
  let ?s = "take_over ms (s\<lparr>dp_dev := d\<rparr>)"
  have "\<forall>a \<in> set (map fst ms). \<exists>x. live ?s a = Some x \<and> xdp_frame api m (length ?lps) (lpid lport) x"
  proof
    fix a assume "a \<in> set (map fst ms)"
    then obtain x where x: "(a, x) \<in> set ms" by auto
    then have "map_of (rev ms) a = Some x" using assms(9) by (simp add: rev_map [symmetric])
    then show "\<exists>x. live ?s a = Some x \<and> xdp_frame api m (length ?lps) (lpid lport) x"
      using x assms(10) [OF x] by (auto simp: live_take_over image_iff)
  qed
  from xdp_burst_live [OF assms(9) this assms(3,4) p(3,4)] lp p(2,3)
  obtain u where u: "xdp_burst api m ?lps ?bufs (lpid lport) (map fst ms) ?s = Some u"
    "live u = (\<lambda>a. if a \<in> set (map fst ms) then None else live ?s a)" by auto
  obtain d2 where d2: "drain_ports fuel api ?bufs ?lps (dp_dev u) = Some d2"
    "\<forall>q \<in> set ?lps. txbuff_count api (?bufs ! lpid q) d2 = 0" using drain_ports_empties [OF assms(1,2) lp] by blast
  have "\<forall>h \<in> set ?bufs. txbuff_count api h d2 = 0"
    using d2(2) num p(3) by (metis in_set_conv_nth nth_mem)
  moreover have "live u = (\<lambda>_. None)" using u(2) assms(6) by (auto simp: live_take_over fun_eq_iff)
  ultimately show ?thesis using p(1) th assms(7,8) u(1) d2(1) by (simp add: run_to_completion_cndp_def Let_def)
qed


section \<open>Packets for the kernel\<close>

lemma prepend_split: "prepend_ok api \<Longrightarrow> pktmbuf_prepend api a n x = Some y \<Longrightarrow>
    y = take n y @ x \<and> length (take n y) = n \<and> length y = n + length x"
proof -
  assume "prepend_ok api" "pktmbuf_prepend api a n x = Some y"
  then have y: "length y = n + length x" "drop n y = x" by (auto simp: prepend_ok_def)
  have "y = take n y @ drop n y" by simp
  with y show ?thesis by simp
qed

lemma tap_out_eq: "tap_out api a out s =
    Some (s\<lparr>live := (live s)(a := None), dp_dev := pktmbuf_raw_free api a (snd (xtap_write api out (dp_dev s)))\<rparr>)"
  by (simp add: tap_out_def pktmbuf_free_def mbuf_set_def)

text \<open>
  C36: with the port filter on, a packet that is not ARP goes to the application exactly when its
  destination port is none of the configured ones; a packet for a configured port is given to the
  kernel, with four bytes in front of it and the hardware address of the tap device as destination.
\<close>

theorem xdp_filter_exact:
  assumes "fast_path_filtering m" "live s a = Some x" "get_ether_type x = Some ty" "ty \<noteq> PTYPE_L2_ETHER_ARP"
    "get_packet_port_number x = Some p" "pktmbuf_prepend api a PI_LEN x = Some y" "prepend_ok api" "macs_ok m" "6 \<le> length x"
  shows "xdp_packet api m lps bufs port a s =
    (if p \<in> set (fastpath_ports m)
     then Some (s\<lparr>live := (live s)(a := None), dp_dev := pktmbuf_raw_free api a
       (snd (xtap_write api (take PI_LEN y @ tap_mac_addr m @ drop 6 x) (dp_dev s)))\<rparr>)
     else xdp_dispatch api m lps bufs port a s)"
proof -
  have y: "y = take PI_LEN y @ x" "length (take PI_LEN y) = PI_LEN" "length y = PI_LEN + length x"
    using prepend_split [OF assms(7,6)] by blast+
  have l: "length (tap_mac_addr m) = 6" using assms(8) by (simp add: macs_ok_def)
  have "wr PI_LEN (tap_mac_addr m) (take PI_LEN y @ x) = Some (take PI_LEN y @ tap_mac_addr m @ drop 6 x)"
    using y(2) l assms(9) by (simp add: wr_append wr_def)
  then have "wr (length (prepend_data api a PI_LEN x) - length x) (tap_mac_addr m) (prepend_data api a PI_LEN x) =
      Some (take PI_LEN y @ tap_mac_addr m @ drop 6 x)"
    using y assms(6) by (simp add: prepend_data_def)
  then show ?thesis using assms(1-5) by (simp add: xdp_packet_def xdp_filter_def Let_def tap_out_eq filter_packet_def)
qed

text \<open>
  a packet the application gives to the kernel reaches the tap device without the first two
  bytes of its Ethernet header: the hardware address is written over the four bytes put in front of
  the packet and the two bytes behind them.
\<close>

theorem xdp_kernel_frame:
  assumes "live s a = Some x" "xprocessor api x (int port) = Some (KERNEL, out)" "pktmbuf_prepend api a 4 out = Some y"
    "prepend_ok api" "macs_ok m" "6 \<le> length out"
  shows "xdp_dispatch api m lps bufs port a s =
    Some (s\<lparr>live := (live s)(a := None), dp_dev := pktmbuf_raw_free api a
      (snd (xtap_write api (tap_mac_addr m @ drop 2 out) (dp_dev s)))\<rparr>)"
proof -
  have y: "y = take 4 y @ out" "length (take 4 y) = 4" using prepend_split [OF assms(4,3)] by blast+
  have l: "length (tap_mac_addr m) = 6" using assms(5) by (simp add: macs_ok_def)
  have "wr 0 (tap_mac_addr m) (take 4 y @ out) = Some (tap_mac_addr m @ drop 2 out)"
    using y(2) l assms(6) by (simp add: wr_def)
  then have "wr 0 (tap_mac_addr m) (prepend_data api a 4 out) = Some (tap_mac_addr m @ drop 2 out)"
    using y(1) assms(3) by (simp add: prepend_data_def)
  then show ?thesis using assms(1,2) by (simp add: xdp_dispatch_def Let_def tap_out_eq) (simp add: mbuf_set_def)
qed

section \<open>Sending\<close>

text \<open>
  A driver that makes progress: it takes some of the packets it is given, from the front, and puts
  them on the wire in order; the number that says that a port is down is not such a number.
\<close>

definition tx_progress ::
  "('d, 'z) xdp_api_scheme \<Rightarrow> pkt_api_t \<Rightarrow> fwd_port \<Rightarrow> ('d \<Rightarrow> u8 list list) \<Rightarrow> bool" where
  "tx_progress api pa pd wire \<longleftrightarrow>
     (\<forall>ms d. ms \<noteq> [] \<longrightarrow> (case tx_burst api pa pd ms d of (n, d') \<Rightarrow>
        0 < n \<and> nat n \<le> length ms \<and> n \<noteq> admin_down api \<and> wire d' = wire d @ map snd (take (nat n) ms)))"

lemma packets_map: "packets s as = Some ms \<Longrightarrow> map fst ms = as \<and> (\<forall>a x. (a, x) \<in> set ms \<longrightarrow> live s a = Some x)"
  by (induction as arbitrary: ms) (auto simp: bind_eq_Some_conv)

lemma packets_drop: "packets s as = Some ms \<Longrightarrow> packets s (drop n as) = Some (drop n ms)"
proof (induction as arbitrary: ms n)
  case (Cons a as)
  then show ?case by (cases n) (auto simp: bind_eq_Some_conv)
qed simp

lemma packets_cong: "(\<And>a. a \<in> set as \<Longrightarrow> live s a = live t a) \<Longrightarrow> packets s as = packets t as"
  by (induction as) auto


section \<open>What the device observes\<close>

text \<open>An observer of the device that no call of the packet loops changes.\<close>

definition unseen :: "('d, 'z) xdp_api_scheme \<Rightarrow> ('d \<Rightarrow> 'b) \<Rightarrow> bool" where
  "unseen api f \<longleftrightarrow>
     (\<forall>h n d. f (snd (snd (xskdev_rx_burst api h n d))) = f d) \<and>
     (\<forall>l n d. f (snd (snd (pktdev_rx_burst api l n d))) = f d) \<and>
     (\<forall>a d. f (pktmbuf_raw_free api a d) = f d) \<and>
     (\<forall>h a x d. f (snd (txbuff_add api h a x d)) = f d) \<and>
     (\<forall>h d. f (snd (txbuff_flush api h d)) = f d) \<and>
     (\<forall>x d. f (snd (xtap_write api x d)) = f d)"

lemma unseen_rx: "unseen api f \<Longrightarrow> rx_burst api pa pd n d = (k, ms, d') \<Longrightarrow> f d' = f d"
  by (cases pa) (auto simp: unseen_def rx_burst_def, (metis snd_conv)+)

lemma unseen_free: "unseen api f \<Longrightarrow> pktmbuf_free api a s = Some t \<Longrightarrow> f (dp_dev t) = f (dp_dev s)"
  by (auto simp: unseen_def pktmbuf_free_def split: option.splits)

lemma unseen_tap: "unseen api f \<Longrightarrow> tap_out api a out s = Some t \<Longrightarrow> f (dp_dev t) = f (dp_dev s)"
  by (auto simp: unseen_def tap_out_eq)

lemma unseen_add: "unseen api f \<Longrightarrow> tx_add api bufs port a s = Some t \<Longrightarrow> f (dp_dev t) = f (dp_dev s)"
  by (auto simp: unseen_def tx_add_def bind_eq_Some_conv)

lemma dp_dev_mbuf_set [simp]: "dp_dev (mbuf_set a x s) = dp_dev s"
  by (simp add: mbuf_set_def)

lemmas unseen_ops = unseen_free unseen_tap unseen_add

lemma unseen_arp: "unseen api f \<Longrightarrow> xdp_arp api m bufs port a s = Some t \<Longrightarrow> f (dp_dev t) = f (dp_dev s)"
  by (auto simp: xdp_arp_def bind_eq_Some_conv Let_def split: if_splits dest: unseen_ops)

lemma unseen_filter: "unseen api f \<Longrightarrow> xdp_filter api m a s = Some (b, t) \<Longrightarrow> f (dp_dev t) = f (dp_dev s)"
  by (auto simp: xdp_filter_def bind_eq_Some_conv Let_def split: if_splits dest: unseen_ops)

lemma unseen_dispatch: "unseen api f \<Longrightarrow> xdp_dispatch api m lps bufs port a s = Some t \<Longrightarrow> f (dp_dev t) = f (dp_dev s)"
  by (auto simp: xdp_dispatch_def bind_eq_Some_conv Let_def split: if_splits dest: unseen_ops)

lemma unseen_packet:
  assumes "unseen api f" "xdp_packet api m lps bufs port a s = Some t" shows "f (dp_dev t) = f (dp_dev s)"
  using assms(2) by (auto simp: xdp_packet_def bind_eq_Some_conv split: if_splits
    dest!: unseen_arp [OF assms(1)] unseen_filter [OF assms(1)] unseen_dispatch [OF assms(1)])

lemma unseen_burst:
  assumes "unseen api f" shows "xdp_burst api m lps bufs port as s = Some t \<Longrightarrow> f (dp_dev t) = f (dp_dev s)"
proof (induction as arbitrary: s)
  case (Cons a as)
  then obtain u where "xdp_packet api m lps bufs port a s = Some u" "xdp_burst api m lps bufs port as u = Some t"
    by (auto simp: bind_eq_Some_conv)
  then show ?case using Cons.IH unseen_packet [OF assms] by metis
qed simp

lemma unseen_drain:
  assumes "unseen api f" shows "txbuff_drain fuel api h d = Some d' \<Longrightarrow> f d' = f d"
proof (induction fuel arbitrary: d)
  case (Suc fuel)
  have "f (snd (txbuff_flush api h d)) = f d" using assms by (simp add: unseen_def)
  then show ?case using Suc by (auto simp: txbuff_drain.simps [of "Suc fuel"] split: if_splits)
qed (simp add: txbuff_drain.simps split: if_splits)

lemma unseen_drain_ports:
  assumes "unseen api f" shows "drain_ports fuel api bufs lps d = Some d' \<Longrightarrow> f d' = f d"
  by (induction lps arbitrary: d) (auto simp: bind_eq_Some_conv dest: unseen_drain [OF assms])

lemma dp_dev_take_over [simp]: "dp_dev (take_over ms s) = dp_dev s"
  by (induction ms s rule: take_over.induct) simp_all

lemma unseen_run:
  assumes "unseen api f" "run_to_completion_cndp fuel api m fi lport s = Some (n, t)"
  shows "f (dp_dev t) = f (dp_dev s)"
proof -
  obtain pd priv where pd: "lp_priv lport = Some pd" "th_priv (thds fi ! the (fp_thd pd)) = Some priv"
    using assms(2) by (auto simp: run_to_completion_cndp_def bind_eq_Some_conv elem_at_Some)
  obtain k ms d where rx: "rx_burst api (fi_pkt_api fi) pd (fi_burst fi) (dp_dev s) = (k, ms, d)" by (metis prod_cases3)
  have d: "f d = f (dp_dev s)" using unseen_rx [OF assms(1) rx] .
  show ?thesis
  proof (cases "k = admin_down api")
    case True
    then show ?thesis using assms(2) pd d
      by (auto simp: run_to_completion_cndp_def bind_eq_Some_conv elem_at_Some rx Let_def)
  next
    case False
    then obtain u d2 where u: "xdp_burst api m (ports_cfg fi) (txbuffs priv) (lpid lport) (take (nat k) (map fst ms))
        (take_over ms (s\<lparr>dp_dev := d\<rparr>)) = Some u"
      "drain_ports fuel api (txbuffs priv) (ports_cfg fi) (dp_dev u) = Some d2" "t = u\<lparr>dp_dev := d2\<rparr>"
      using assms(2) pd by (auto simp: run_to_completion_cndp_def bind_eq_Some_conv elem_at_Some rx Let_def split: if_splits)
    then show ?thesis using unseen_burst [OF assms(1) u(1)] unseen_drain_ports [OF assms(1) u(2)] d by simp
  qed
qed

end
