(* ===== verification/XdpThreads.thy ===== *)
theory XdpThreads
  imports XdpLaws
begin

text \<open>
  The forwarding threads of the AF_XDP data path (\<^verbatim>\<open>create_per_thread_txbuff\<close>,
  \<^verbatim>\<open>destroy_per_thread_txbuff\<close> and \<^verbatim>\<open>rx_tx_thread\<close> of \<^verbatim>\<open>cndp.cpp\<close>): the transmit buffers a thread
  allocates, its loop over its ports until it is told to quit, and the clean up.  Memory and
  transmit buffers can fail to be allocated; an index outside an array and a null pointer that is
  followed are \<open>None\<close>.  The loop header of \<^verbatim>\<open>foreach_thd_lport\<close> also reads the element behind the last
  one, whose value is not used; that read is not part of the model.
\<close>

section \<open>The library\<close>

text \<open>
  Allocations say whether they succeeded; transmit buffers are handles, zero is a failure.  The idle
  manager waits for the file descriptors of the ports of a thread.
\<close>

record 'd thd_api = "'d xdp_api" +
  calloc :: "nat \<Rightarrow> 'd \<Rightarrow> bool \<times> 'd"
  free_mem :: "'d \<Rightarrow> 'd"
  txbuff_xskdev_create :: "int \<Rightarrow> handle \<Rightarrow> 'd \<Rightarrow> handle \<times> 'd"
  txbuff_pktdev_create :: "int \<Rightarrow> int \<Rightarrow> 'd \<Rightarrow> handle \<times> 'd"
  txbuff_free :: "handle \<Rightarrow> 'd \<Rightarrow> 'd"
  barrier_wait :: "'d \<Rightarrow> int \<times> 'd"
  idlemgr_create :: "string \<Rightarrow> nat \<Rightarrow> nat \<Rightarrow> nat \<Rightarrow> 'd \<Rightarrow> handle \<times> 'd"
  idlemgr_add :: "handle \<Rightarrow> int \<Rightarrow> 'd \<Rightarrow> int \<times> 'd"
  idlemgr_process :: "handle \<Rightarrow> int \<Rightarrow> 'd \<Rightarrow> int \<times> 'd"
  idlemgr_destroy :: "handle \<Rightarrow> 'd \<Rightarrow> 'd"
  xskdev_get_fd :: "handle \<Rightarrow> 'd \<Rightarrow> int \<times> int"
  pktdev_info_get :: "nat \<Rightarrow> 'd \<Rightarrow> int \<times> int"

text \<open>
  The iterators of the configuration library call a function with every element and its position.
  What the code relies on: they stop at the first call that does not return zero and return its code.
\<close>

type_synonym ('o, 'w) iterator = "('o \<Rightarrow> nat \<Rightarrow> 'w \<Rightarrow> (int \<times> 'w) option) \<Rightarrow> 'w \<Rightarrow> (int \<times> 'w) option"

fun each :: "('o \<Rightarrow> nat \<Rightarrow> 'w \<Rightarrow> (int \<times> 'w) option) \<Rightarrow> nat \<Rightarrow> 'o list \<Rightarrow> 'w \<Rightarrow> (int \<times> 'w) option" where
  "each f i [] w = Some (0, w)"
| "each f i (x # xs) w = do { (r, w1) \<leftarrow> f x i w; (if r \<noteq> 0 then Some (r, w1) else each f (Suc i) xs w1) }"

definition iterates :: "('o, 'w) iterator \<Rightarrow> 'o list \<Rightarrow> bool" where
  "iterates it xs \<longleftrightarrow> (\<forall>f w. it f w = each f 0 xs w)"

section \<open>Transmit buffers\<close>

definition set_thd :: "nat \<Rightarrow> create_txbuff_thd_priv_t option \<Rightarrow> fwd_info \<Rightarrow> fwd_info" where
  "set_thd t v fi = fi\<lparr>thds := (thds fi)[t := (thds fi ! t)\<lparr>th_priv := v\<rparr>]\<rparr>"

fun free_txbuffs :: "('d, 'z) thd_api_scheme \<Rightarrow> nat \<Rightarrow> handle list \<Rightarrow> 'd \<Rightarrow> 'd option" where
  "free_txbuffs api 0 bufs d = Some d"
| "free_txbuffs api (Suc n) [] d = None"
| "free_txbuffs api (Suc n) (h # hs) d = free_txbuffs api n hs (if h \<noteq> 0 then txbuff_free api h d else d)"

definition destroy_per_thread_txbuff ::
  "('d, 'z) thd_api_scheme \<Rightarrow> nat \<Rightarrow> fwd_info \<Rightarrow> 'd \<Rightarrow> (fwd_info \<times> 'd) option" where
  "destroy_per_thread_txbuff api t fi d = do {
     thd \<leftarrow> elem_at (thds fi) t;
     (case th_priv thd of
        None \<Rightarrow> Some (fi, d)
      | Some priv \<Rightarrow> do {
          d1 \<leftarrow> free_txbuffs api (length (ports_cfg fi)) (txbuffs priv) d;
          Some (set_thd t None fi, free_mem api (free_mem api d1))
        })
   }"

definition create_txbuff ::
  "('d, 'z) thd_api_scheme \<Rightarrow> int \<Rightarrow> jcfg_lport \<Rightarrow> nat \<Rightarrow> create_txbuff_thd_priv_t \<times> 'd
    \<Rightarrow> (int \<times> create_txbuff_thd_priv_t \<times> 'd) option" where
  "create_txbuff api burst lport idx w =
     (case w of (priv, d) \<Rightarrow>
       (case lp_priv lport of
          None \<Rightarrow> Some (-1, priv, d)
        | Some pd \<Rightarrow>
            (case (case tp_pkt_api priv of
                     XSKDEV_PKT_API \<Rightarrow> txbuff_xskdev_create api burst (fp_xsk pd) d
                   | PKTDEV_PKT_API \<Rightarrow> txbuff_pktdev_create api burst (fp_lport pd) d
                   | UNKNOWN_PKT_API \<Rightarrow> (0, d)) of (h, d1) \<Rightarrow>
               if idx < length (txbuffs priv)
               then Some (if h = 0 then -1 else 0, priv\<lparr>txbuffs := (txbuffs priv)[idx := h]\<rparr>, d1) else None)))"

text \<open>The ports of the thread get a reference to it.\<close>

fun set_refs :: "nat \<Rightarrow> nat list \<Rightarrow> jcfg_lport list \<Rightarrow> jcfg_lport list option" where
  "set_refs t [] lps = Some lps"
| "set_refs t (l # ls) lps = do {
     lport \<leftarrow> elem_at lps l;
     pd \<leftarrow> lp_priv lport;
     set_refs t ls (lps[l := lport\<lparr>lp_priv := Some (pd\<lparr>fp_thd := Some t\<rparr>)\<rparr>])
   }"

definition create_per_thread_txbuff ::
  "('d, 'z) thd_api_scheme \<Rightarrow> (jcfg_lport, create_txbuff_thd_priv_t \<times> 'd) iterator \<Rightarrow> nat \<Rightarrow> fwd_info \<Rightarrow> 'd
    \<Rightarrow> (int \<times> fwd_info \<times> 'd) option" where
  "create_per_thread_txbuff api jcfg_lport_foreach t fi d = do {
     thd \<leftarrow> elem_at (thds fi) t;
     (if th_priv thd \<noteq> None then Some (-1, fi, d)
      else (case calloc api 1 d of (ok, d1) \<Rightarrow>
        if \<not> ok then Some (-1, fi, d1)
        else (case calloc api (length (ports_cfg fi)) d1 of (ok2, d2) \<Rightarrow>
          if \<not> ok2 then Some (-1, fi, free_mem api d2)
          else do {
            (r, priv, d3) \<leftarrow> jcfg_lport_foreach (create_txbuff api (fi_burst fi))
              (\<lparr>txbuffs = replicate (length (ports_cfg fi)) 0, tp_pkt_api = fi_pkt_api fi\<rparr>, d2);
            (let fi1 = set_thd t (Some priv) fi in
             if r \<noteq> 0 then do {
               (fi2, d4) \<leftarrow> destroy_per_thread_txbuff api t fi1 d3;
               Some (-1, fi2, d4)
             }
             else do {
               lps \<leftarrow> set_refs t (th_lports thd) (ports_cfg fi1);
               Some (0, fi1\<lparr>ports_cfg := lps\<rparr>, d3)
             })
          })))
   }"

section \<open>The thread\<close>

text \<open>
  The idle manager: the file descriptor of every port is added; a descriptor that was not written
  keeps the value of the port before.  The flag says that the thread goes on.
\<close>

fun idle_ports ::
  "('d, 'z) thd_api_scheme \<Rightarrow> fwd_info \<Rightarrow> handle \<Rightarrow> nat list \<Rightarrow> int \<Rightarrow> 'd \<Rightarrow> (bool \<times> 'd) option" where
  "idle_ports api fi imgr [] fd d = Some (True, d)"
| "idle_ports api fi imgr (l # ls) fd d = do {
     lport \<leftarrow> elem_at (ports_cfg fi) l;
     (r, fd1) \<leftarrow> (case fi_pkt_api fi of
        XSKDEV_PKT_API \<Rightarrow> do { pd \<leftarrow> lp_priv lport; Some (xskdev_get_fd api (fp_xsk pd) d) }
      | PKTDEV_PKT_API \<Rightarrow> Some (pktdev_info_get api (lpid lport) d)
      | UNKNOWN_PKT_API \<Rightarrow> Some (0, fd));
     (if r < 0 then Some (False, d)
      else if fd1 = -1 then idle_ports api fi imgr ls fd1 d
      else (case idlemgr_add api imgr fd1 d of (k, d1) \<Rightarrow>
        if k < 0 then Some (False, d1) else idle_ports api fi imgr ls fd1 d1))
   }"

definition idle_setup ::
  "('d, 'z) thd_api_scheme \<Rightarrow> fwd_info \<Rightarrow> jcfg_thd \<Rightarrow> 'd \<Rightarrow> (bool \<times> handle \<times> 'd) option" where
  "idle_setup api fi thd d =
     (if idle_timeout thd = 0 then Some (True, 0, d)
      else (case idlemgr_create api (th_name thd) (length (th_lports thd)) (idle_timeout thd) (intr_timeout thd) d of (imgr, d1) \<Rightarrow>
        if imgr = 0 then Some (False, 0, d1)
        else map_option (\<lambda>(go, d2). (go, imgr, d2)) (idle_ports api fi imgr (th_lports thd) (-1) d1)))"

text \<open>
  The loop over the ports of the thread, round after round.  Every step looks at the flags of the
  thread, which other threads set: whether to quit, and whether to pause.  The list has what the
  steps see; a list that ends before the thread leaves the loop is \<open>None\<close>.
\<close>

fun thd_loop ::
  "('d, 'z) thd_api_scheme \<Rightarrow> (nat \<Rightarrow> 'd dp \<Rightarrow> (int \<times> 'd dp) option) \<Rightarrow> jcfg_thd \<Rightarrow> handle \<Rightarrow> nat \<Rightarrow> (bool \<times> bool) list
    \<Rightarrow> 'd dp \<Rightarrow> ((bool \<times> bool) list \<times> 'd dp) option" where
  "thd_loop api eng thd imgr i [] w = None"
| "thd_loop api eng thd imgr i ((quit, paused) # seen) w =
     (if quit then Some ((quit, paused) # seen, w)
      else if paused then thd_loop api eng thd imgr (Suc i) seen w
      else do {
        (n_pkts, w1) \<leftarrow> eng (th_lports thd ! (i mod length (th_lports thd))) w;
        (if n_pkts < 0 then Some (seen, w1)
         else if idle_timeout thd \<noteq> 0 then
           (case idlemgr_process api imgr n_pkts (dp_dev w1) of (r, d) \<Rightarrow>
              if r < 0 then Some (seen, w1\<lparr>dp_dev := d\<rparr>)
              else thd_loop api eng thd imgr (Suc i) seen (w1\<lparr>dp_dev := d\<rparr>))
         else thd_loop api eng thd imgr (Suc i) seen w1)
      })"

datatype 'd thread_end = Exit | Done fwd_info "'d dp"

text \<open>
  The end of the thread: the buffers are destroyed unless there never were any, the idle manager goes,
  and the thread waits until it is told to quit, frees its argument and says that it is done.
\<close>

definition thd_leave ::
  "('d, 'z) thd_api_scheme \<Rightarrow> bool \<Rightarrow> nat \<Rightarrow> handle \<Rightarrow> (bool \<times> bool) list \<Rightarrow> fwd_info \<Rightarrow> 'd dp
    \<Rightarrow> 'd thread_end option" where
  "thd_leave api had_lport t imgr seen fi w = do {
     (fi1, d1) \<leftarrow> (if had_lport then destroy_per_thread_txbuff api t fi (dp_dev w) else Some (fi, dp_dev w));
     (let d2 = (if imgr \<noteq> 0 then idlemgr_destroy api imgr d1 else d1) in
      if \<exists>q \<in> set seen. fst q
      then Some (Done (fi1\<lparr>thds := (thds fi1)[t := (thds fi1 ! t)\<lparr>th_quit := THD_DONE\<rparr>]\<rparr>) (w\<lparr>dp_dev := free_mem api d2\<rparr>))
      else None)
   }"

definition engine ::
  "nat \<Rightarrow> ('d, 'z) thd_api_scheme \<Rightarrow> dpm \<Rightarrow> nat \<Rightarrow> bool \<Rightarrow> fwd_info \<Rightarrow> nat \<Rightarrow> 'd dp \<Rightarrow> (int \<times> 'd dp) option" where
  "engine fuel api m nrings master fi l w = do {
     lport \<leftarrow> elem_at (ports_cfg fi) l;
     (if master then master_worker_cndp fuel api nrings fi lport w
      else run_to_completion_cndp fuel api m fi lport w)
   }"

definition rx_tx_thread ::
  "nat \<Rightarrow> ('d, 'z) thd_api_scheme \<Rightarrow> (jcfg_lport, create_txbuff_thd_priv_t \<times> 'd) iterator \<Rightarrow> dpm \<Rightarrow> nat \<Rightarrow> bool \<Rightarrow> nat
    \<Rightarrow> (bool \<times> bool) list \<Rightarrow> fwd_info \<Rightarrow> 'd dp \<Rightarrow> 'd thread_end option" where
  "rx_tx_thread fuel api jcfg_lport_foreach m nrings master t seen fi w = do {
     thd \<leftarrow> elem_at (thds fi) t;
     (case barrier_wait api (dp_dev w) of (b, d) \<Rightarrow>
       if b > 0 then thd_leave api True t 0 seen fi (w\<lparr>dp_dev := d\<rparr>)
       else if th_lports thd = [] then thd_leave api False t 0 seen fi (w\<lparr>dp_dev := d\<rparr>)
       else do {
         (r, fi1, d1) \<leftarrow> create_per_thread_txbuff api jcfg_lport_foreach t fi d;
         (if r \<noteq> 0 then Some Exit
          else do {
            (go, imgr, d2) \<leftarrow> idle_setup api fi1 thd d1;
            (rest, w1) \<leftarrow> (if go then thd_loop api (engine fuel api m nrings master fi1) thd imgr 0 seen (w\<lparr>dp_dev := d2\<rparr>)
                           else Some (seen, w\<lparr>dp_dev := d2\<rparr>));
            thd_leave api True t imgr rest fi1 w1
          })
       })
   }"

section \<open>Resources\<close>

text \<open>
  The documented behaviour of the allocators, over two observers of the device: the transmit buffers
  that exist, and the number of blocks of memory.  Everything else leaves both alone.
\<close>

definition made_txbuff :: "('d \<Rightarrow> handle set) \<Rightarrow> ('d \<Rightarrow> int) \<Rightarrow> 'd \<Rightarrow> handle \<times> 'd \<Rightarrow> bool" where
  "made_txbuff held blocks d r \<longleftrightarrow> blocks (snd r) = blocks d \<and>
     (if fst r = 0 then held (snd r) = held d else fst r \<notin> held d \<and> held (snd r) = insert (fst r) (held d))"

definition alloc_lib :: "('d, 'z) thd_api_scheme \<Rightarrow> ('d \<Rightarrow> handle set) \<Rightarrow> ('d \<Rightarrow> int) \<Rightarrow> bool" where
  "alloc_lib api held blocks \<longleftrightarrow>
     (\<forall>n d. held (snd (calloc api n d)) = held d \<and>
        blocks (snd (calloc api n d)) = blocks d + (if fst (calloc api n d) then 1 else 0)) \<and>
     (\<forall>d. held (free_mem api d) = held d \<and> blocks (free_mem api d) = blocks d - 1) \<and>
     (\<forall>b x d. made_txbuff held blocks d (txbuff_xskdev_create api b x d)) \<and>
     (\<forall>b l d. made_txbuff held blocks d (txbuff_pktdev_create api b l d)) \<and>
     (\<forall>h d. held (txbuff_free api h d) = held d - {h} \<and> blocks (txbuff_free api h d) = blocks d)"

definition idle_unseen :: "('d, 'z) thd_api_scheme \<Rightarrow> ('d \<Rightarrow> 'b) \<Rightarrow> bool" where
  "idle_unseen api f \<longleftrightarrow>
     (\<forall>d. f (snd (barrier_wait api d)) = f d) \<and>
     (\<forall>n k i j d. f (snd (idlemgr_create api n k i j d)) = f d) \<and>
     (\<forall>h k d. f (snd (idlemgr_add api h k d)) = f d) \<and>
     (\<forall>h k d. f (snd (idlemgr_process api h k d)) = f d) \<and>
     (\<forall>h d. f (idlemgr_destroy api h d) = f d)"

definition thd_lib :: "('d, 'z) thd_api_scheme \<Rightarrow> ('d \<Rightarrow> handle set) \<Rightarrow> ('d \<Rightarrow> int) \<Rightarrow> bool" where
  "thd_lib api held blocks \<longleftrightarrow> alloc_lib api held blocks \<and> idle_unseen api held \<and> idle_unseen api blocks \<and>
     unseen api held \<and> unseen api blocks"

lemma calloc_law:
  assumes "alloc_lib api held blocks" "calloc api n d = (ok, d')"
  shows "held d' = held d \<and> blocks d' = blocks d + (if ok then 1 else 0)"
proof -
  have "held (snd (calloc api n d)) = held d \<and>
      blocks (snd (calloc api n d)) = blocks d + (if fst (calloc api n d) then 1 else 0)"
    using assms(1) by (simp add: alloc_lib_def)
  then show ?thesis by (simp add: assms(2))
qed

lemma free_law: "alloc_lib api held blocks \<Longrightarrow> held (free_mem api d) = held d \<and> blocks (free_mem api d) = blocks d - 1"
  by (simp add: alloc_lib_def)

lemma txbuff_free_law:
  "alloc_lib api held blocks \<Longrightarrow> held (txbuff_free api h d) = held d - {h} \<and> blocks (txbuff_free api h d) = blocks d"
  by (simp add: alloc_lib_def)

lemma create_law:
  assumes "alloc_lib api held blocks"
    "(case pa of XSKDEV_PKT_API \<Rightarrow> txbuff_xskdev_create api b x d | PKTDEV_PKT_API \<Rightarrow> txbuff_pktdev_create api b l d
      | UNKNOWN_PKT_API \<Rightarrow> (0, d)) = (h, d')"
  shows "blocks d' = blocks d \<and> (if h = 0 then held d' = held d else h \<notin> held d \<and> held d' = insert h (held d))"
proof -
  have "made_txbuff held blocks d (h, d')"
    using assms by (cases pa) (simp_all add: alloc_lib_def made_txbuff_def flip: assms(2))
  then show ?thesis by (auto simp: made_txbuff_def split: if_splits)
qed

lemma free_txbuffs_law:
  assumes "alloc_lib api held blocks"
  shows "\<exists>d'. free_txbuffs api (length hs) hs d = Some d' \<and> held d' = held d - (set hs - {0}) \<and> blocks d' = blocks d"
proof (induction hs arbitrary: d)
  case (Cons h hs)
  let ?d = "if h \<noteq> 0 then txbuff_free api h d else d"
  obtain d' where "free_txbuffs api (length hs) hs ?d = Some d'" "held d' = held ?d - (set hs - {0})" "blocks d' = blocks ?d"
    using Cons.IH by blast
  with txbuff_free_law [OF assms, of h d] show ?case by auto
qed simp

text \<open>
  The buffers of the first ports exist when the next one is made: all handles differ from zero and
  from each other, and exist next to those that were there before.
\<close>

lemma each_create_txbuff:
  assumes "alloc_lib api held blocks"
  shows "txbuffs priv = hs @ replicate (length lps) 0 \<Longrightarrow> 0 \<notin> set hs \<Longrightarrow> distinct hs \<Longrightarrow> set hs \<inter> H = {} \<Longrightarrow>
    held d = H \<union> set hs \<Longrightarrow>
    \<exists>r priv' d' gs z. each (create_txbuff api burst) (length hs) lps (priv, d) = Some (r, priv', d') \<and>
      txbuffs priv' = gs @ replicate z 0 \<and> length (txbuffs priv') = length (txbuffs priv) \<and>
      0 \<notin> set gs \<and> distinct gs \<and> set gs \<inter> H = {} \<and> held d' = H \<union> set gs \<and> blocks d' = blocks d \<and>
      (r = 0 \<longrightarrow> z = 0 \<and> (\<forall>lp \<in> set lps. lp_priv lp \<noteq> None))"
proof (induction lps arbitrary: priv hs d)
  case Nil
  then show ?case by (intro exI [of _ "0 :: int"] exI [of _ priv] exI [of _ d] exI [of _ hs] exI [of _ "0 :: nat"]) simp
next
  case (Cons lp lps)
  show ?case
  proof (cases "lp_priv lp")
    case None
    then show ?thesis using Cons.prems
      by (intro exI [of _ "-1 :: int"] exI [of _ priv] exI [of _ d] exI [of _ hs] exI [of _ "length (lp # lps)"])
         (simp add: create_txbuff_def)
  next
    case (Some pd)
    obtain h d1 where h: "(case tp_pkt_api priv of XSKDEV_PKT_API \<Rightarrow> txbuff_xskdev_create api burst (fp_xsk pd) d
        | PKTDEV_PKT_API \<Rightarrow> txbuff_pktdev_create api burst (fp_lport pd) d | UNKNOWN_PKT_API \<Rightarrow> (0, d)) = (h, d1)"
      by fastforce
    note law = create_law [OF assms h]
    let ?p = "priv\<lparr>txbuffs := (txbuffs priv)[length hs := h]\<rparr>"
    have idx: "length hs < length (txbuffs priv)" using Cons.prems(1) by simp
    have st: "create_txbuff api burst lp (length hs) (priv, d) = Some (if h = 0 then -1 else 0, ?p, d1)"
      using Some h idx by (simp add: create_txbuff_def)
    have bufs: "txbuffs ?p = hs @ h # replicate (length lps) 0" using Cons.prems(1) by (simp add: list_update_append)
    show ?thesis
    proof (cases "h = 0")
      case True
      with st bufs law Cons.prems show ?thesis
        by (intro exI [of _ "-1 :: int"] exI [of _ ?p] exI [of _ d1] exI [of _ hs] exI [of _ "length (lp # lps)"]) simp
    next
      case False
      have "txbuffs ?p = (hs @ [h]) @ replicate (length lps) 0" "0 \<notin> set (hs @ [h])" "distinct (hs @ [h])"
        "set (hs @ [h]) \<inter> H = {}" "held d1 = H \<union> set (hs @ [h])"
        using bufs False law Cons.prems by auto
      from Cons.IH [OF this] st law False Some idx show ?thesis by (auto simp: Suc_length_conv)
    qed
  qed
qed

lemma destroy_law:
  assumes "alloc_lib api held blocks" "t < length (thds fi)" "th_priv (thds fi ! t) = Some priv"
    "length (txbuffs priv) = length (ports_cfg fi)"
  shows "\<exists>d'. destroy_per_thread_txbuff api t fi d = Some (set_thd t None fi, d') \<and>
    held d' = held d - (set (txbuffs priv) - {0}) \<and> blocks d' = blocks d - 2"
proof -
  obtain d1 where "free_txbuffs api (length (txbuffs priv)) (txbuffs priv) d = Some d1"
    "held d1 = held d - (set (txbuffs priv) - {0})" "blocks d1 = blocks d" using free_txbuffs_law [OF assms(1)] by blast
  with assms free_law [OF assms(1)] show ?thesis by (simp add: destroy_per_thread_txbuff_def elem_at_def)
qed

lemma set_refs_law:
  "\<forall>l \<in> set ls. l < length lps \<Longrightarrow> \<forall>lp \<in> set lps. lp_priv lp \<noteq> None \<Longrightarrow>
    \<exists>lps'. set_refs t ls lps = Some lps' \<and> length lps' = length lps \<and> map lpid lps' = map lpid lps \<and>
      (\<forall>i < length lps. \<exists>pd. lp_priv (lps' ! i) = Some pd \<and>
         (if i \<in> set ls then fp_thd pd = Some t else lps' ! i = lps ! i))"
proof (induction ls arbitrary: lps)
  case Nil
  then show ?case by (auto simp: all_set_conv_all_nth)
next
  case (Cons l ls)
  then have l: "l < length lps" by simp
  then obtain pd where pd: "lp_priv (lps ! l) = Some pd" using Cons.prems(2) by fastforce
  let ?new = "(lps ! l)\<lparr>lp_priv := Some (pd\<lparr>fp_thd := Some t\<rparr>)\<rparr>"
  let ?lps = "lps[l := ?new]"
  have "\<forall>lp \<in> set ?lps. lp_priv lp \<noteq> None" using Cons.prems(2) set_update_subset_insert [of lps l ?new] by auto
  moreover have "\<forall>k \<in> set ls. k < length ?lps" using Cons.prems(1) by simp
  ultimately obtain lps' where r: "set_refs t ls ?lps = Some lps'" "length lps' = length lps" "map lpid lps' = map lpid ?lps"
    "\<forall>i < length lps. \<exists>pd. lp_priv (lps' ! i) = Some pd \<and> (if i \<in> set ls then fp_thd pd = Some t else lps' ! i = ?lps ! i)"
    using Cons.IH [of ?lps] by auto
  have "map lpid ?lps = map lpid lps" by (rule nth_equalityI) (auto simp: nth_list_update l)
  moreover have "\<exists>qd. lp_priv (lps' ! i) = Some qd \<and> (if i \<in> set (l # ls) then fp_thd qd = Some t else lps' ! i = lps ! i)"
    if "i < length lps" for i
    using r(4) [rule_format, OF that] that by (cases "i = l"; cases "i \<in> set ls") auto
  ultimately show ?case using r(1-3) l pd by (auto simp: elem_at_def)
qed

lemma set_thd_undo: "t < length (thds fi) \<Longrightarrow> th_priv (thds fi ! t) = None \<Longrightarrow> set_thd t None (set_thd t v fi) = fi"
proof -
  assume t: "t < length (thds fi)" "th_priv (thds fi ! t) = None"
  have "(thds fi ! t)\<lparr>th_priv := None\<rparr> = thds fi ! t" using t(2) by (cases "thds fi ! t") simp
  then have "(thds fi)[t := (thds fi ! t)\<lparr>th_priv := None\<rparr>] = thds fi" by (simp only: list_update_id)
  then show ?thesis using t(1) by (simp add: set_thd_def)
qed

text \<open>
  The created state: the thread has one buffer for every port, and its ports are polled by it.
\<close>

lemma create_outcome:
  assumes "alloc_lib api held blocks" "iterates it (ports_cfg fi)" "t < length (thds fi)" "th_priv (thds fi ! t) = None"
    "\<forall>l \<in> set (th_lports (thds fi ! t)). l < length (ports_cfg fi)"
    "map lpid (ports_cfg fi) = [0..<length (ports_cfg fi)]"
  shows "(\<exists>r d'. create_per_thread_txbuff api it t fi d = Some (r, fi, d') \<and> r \<noteq> 0 \<and> held d' = held d \<and> blocks d' = blocks d) \<or>
    (\<exists>fi' d' priv. create_per_thread_txbuff api it t fi d = Some (0, fi', d') \<and>
       held d' = held d \<union> set (txbuffs priv) \<and> held d \<inter> set (txbuffs priv) = {} \<and> 0 \<notin> set (txbuffs priv) \<and>
       blocks d' = blocks d + 2 \<and> length (txbuffs priv) = length (ports_cfg fi) \<and>
       length (ports_cfg fi') = length (ports_cfg fi) \<and> thds fi' = (thds fi)[t := (thds fi ! t)\<lparr>th_priv := Some priv\<rparr>] \<and>
       fi_pkt_api fi' = fi_pkt_api fi \<and> fi_burst fi' = fi_burst fi \<and>
       (\<forall>l \<in> set (th_lports (thds fi ! t)). \<exists>pd. polled fi' (ports_cfg fi' ! l) pd priv) \<and> map lpid (ports_cfg fi') = map lpid (ports_cfg fi))"
proof -
  let ?n = "length (ports_cfg fi)" and ?p0 = "\<lparr>txbuffs = replicate (length (ports_cfg fi)) 0, tp_pkt_api = fi_pkt_api fi\<rparr>"
  have thd: "elem_at (thds fi) t = Some (thds fi ! t)" using assms(3) by (simp add: elem_at_def)
  obtain ok d1 where c1: "calloc api 1 d = (ok, d1)" by fastforce
  obtain ok2 d2 where c2: "calloc api ?n d1 = (ok2, d2)" by fastforce
  note k1 = calloc_law [OF assms(1) c1] and k2 = calloc_law [OF assms(1) c2]
  have start: "txbuffs ?p0 = [] @ replicate ?n 0" "0 \<notin> set ([] :: handle list)" "distinct ([] :: handle list)"
    "set [] \<inter> held d2 = {}" "held d2 = held d2 \<union> set []" "length (txbuffs ?p0) = ?n" by simp_all
  obtain r priv d3 gs z where e: "each (create_txbuff api (fi_burst fi)) 0 (ports_cfg fi) (?p0, d2) = Some (r, priv, d3)"
    "txbuffs priv = gs @ replicate z 0" "length (txbuffs priv) = ?n" "0 \<notin> set gs" "set gs \<inter> held d2 = {}"
    "held d3 = held d2 \<union> set gs" "blocks d3 = blocks d2"
    "r = 0 \<longrightarrow> z = 0 \<and> (\<forall>lp \<in> set (ports_cfg fi). lp_priv lp \<noteq> None)"
    using each_create_txbuff [OF assms(1) start(1-5), of "fi_burst fi"] unfolding list.size start(6) by blast
  have it: "it (create_txbuff api (fi_burst fi)) (?p0, d2) = Some (r, priv, d3)" using assms(2) e(1) by (simp add: iterates_def)
  let ?f1 = "set_thd t (Some priv) fi"
  have f1: "t < length (thds ?f1)" "th_priv (thds ?f1 ! t) = Some priv" "ports_cfg ?f1 = ports_cfg fi"
    using assms(3) by (simp_all add: set_thd_def)
  have undo: "set_thd t None ?f1 = fi" using assms(3,4) by (rule set_thd_undo)
  consider "\<not> ok" | "ok" "\<not> ok2" | "ok" "ok2" "r \<noteq> 0" | "ok" "ok2" "r = 0" by blast
  then show ?thesis
  proof cases
    case 1
    then show ?thesis using thd assms(4) c1 k1 by (simp add: create_per_thread_txbuff_def)
  next
    case 2
    then show ?thesis using thd assms(4) c1 c2 k1 k2 free_law [OF assms(1)] by (simp add: create_per_thread_txbuff_def)
  next
    case 3
    obtain d4 where d4: "destroy_per_thread_txbuff api t ?f1 d3 = Some (fi, d4)"
      "held d4 = held d3 - (set (txbuffs priv) - {0})" "blocks d4 = blocks d3 - 2"
      using destroy_law [OF assms(1) f1(1,2), of d3] e(3) f1(3) undo by auto
    have "set (txbuffs priv) - {0} = set gs" using e(2,4) by auto
    with d4 e(5-7) k1 k2 3 have "held d4 = held d" "blocks d4 = blocks d" by auto
    then show ?thesis using 3 thd assms(4) c1 c2 it d4(1) by (simp add: create_per_thread_txbuff_def Let_def)
  next
    case 4
    then obtain lps where l: "set_refs t (th_lports (thds fi ! t)) (ports_cfg fi) = Some lps" "length lps = ?n"
      "map lpid lps = map lpid (ports_cfg fi)"
      "\<forall>i < ?n. \<exists>pd. lp_priv (lps ! i) = Some pd \<and>
         (if i \<in> set (th_lports (thds fi ! t)) then fp_thd pd = Some t else lps ! i = ports_cfg fi ! i)"
      using set_refs_law [OF assms(5), of t] e(8) by auto
    have "polled (?f1\<lparr>ports_cfg := lps\<rparr>) (lps ! i) (the (lp_priv (lps ! i))) priv"
      if "i \<in> set (th_lports (thds fi ! t))" for i
      using l that assms(3,5,6) e(3) unfolding polled_def
      by (fastforce simp: set_thd_def elem_at_def)
    moreover have "create_per_thread_txbuff api it t fi d = Some (0, ?f1\<lparr>ports_cfg := lps\<rparr>, d3)"
      using 4 thd assms(4) c1 c2 it l(1) f1(3) by (simp add: create_per_thread_txbuff_def Let_def)
    moreover have "txbuffs priv = gs" using 4 e(2,8) by simp
    ultimately show ?thesis using e(3-7) k1 k2 4 l(2,3)
      by (intro disjI2 exI [of _ "?f1\<lparr>ports_cfg := lps\<rparr>"] exI [of _ d3] exI [of _ priv]) (auto simp: set_thd_def)
  qed
qed

section \<open>The life of a thread\<close>

text \<open>
  What arrives: a port is down and delivers nothing, or it delivers frames that are long enough and
  that the application handles, in buffers of their own.
\<close>

definition good_rx :: "('d, 'z) xdp_api_scheme \<Rightarrow> dpm \<Rightarrow> pkt_api_t \<Rightarrow> int \<Rightarrow> nat \<Rightarrow> bool" where
  "good_rx api m pa burst nports \<longleftrightarrow>
     (\<forall>pd d. case rx_burst api pa pd burst d of (n, ms, d') \<Rightarrow>
        n = admin_down api \<and> ms = [] \<or>
        n = int (length ms) \<and> distinct (map fst ms) \<and>
        (\<forall>(a, x) \<in> set ms. \<forall>port < nports. xdp_frame api m nports port x) \<and> n \<noteq> admin_down api)"

text \<open>A step that owns no buffer at its end and leaves memory and transmit buffers as they were.\<close>

definition calm :: "('d \<Rightarrow> handle set) \<Rightarrow> ('d \<Rightarrow> int) \<Rightarrow> 'd dp \<Rightarrow> 'd dp \<Rightarrow> bool" where
  "calm held blocks w w' \<longleftrightarrow> live w' = (\<lambda>_. None) \<and> held (dp_dev w') = held (dp_dev w) \<and> blocks (dp_dev w') = blocks (dp_dev w)"

lemma calm_trans: "calm held blocks u v \<Longrightarrow> calm held blocks v w \<Longrightarrow> calm held blocks u w"
  by (simp add: calm_def)

lemma run_calm:
  assumes "thd_lib api held blocks" "txbuff_ok api cap" "cap \<le> fuel" "prepend_ok api" "macs_ok m"
    "good_rx api m (fi_pkt_api fi) (fi_burst fi) (length (ports_cfg fi))" "polled fi lport pd priv" "live w = (\<lambda>_. None)"
  shows "\<exists>n w'. run_to_completion_cndp fuel api m fi lport w = Some (n, w') \<and> calm held blocks w w'"
proof -
  obtain n ms d where rx: "rx_burst api (fi_pkt_api fi) pd (fi_burst fi) (dp_dev w) = (n, ms, d)" by (metis prod_cases3)
  have port: "lpid lport < length (ports_cfg fi)"
    using assms(7) unfolding polled_def by (metis atLeastLessThan_iff imageI image_set set_upt)
  have g: "n = admin_down api \<and> ms = [] \<or> n = int (length ms) \<and> distinct (map fst ms) \<and> n \<noteq> admin_down api \<and>
      (\<forall>(a, x) \<in> set ms. \<forall>port < length (ports_cfg fi). xdp_frame api m (length (ports_cfg fi)) port x)"
    using assms(6) [unfolded good_rx_def, THEN spec, THEN spec, of pd "dp_dev w"] unfolding rx prod.case by argo
  have "\<exists>n w'. run_to_completion_cndp fuel api m fi lport w = Some (n, w') \<and> live w' = (\<lambda>_. None)"
  proof (cases "n = admin_down api")
    case True
    then show ?thesis using g assms(7,8) rx by (auto simp: polled_def run_to_completion_cndp_def Let_def)
  next
    case False
    with g have q: "rx_burst api (fi_pkt_api fi) pd (fi_burst fi) (dp_dev w) = (int (length ms), ms, d)"
      "int (length ms) \<noteq> admin_down api" "distinct (map fst ms)"
      "\<And>a x. (a, x) \<in> set ms \<Longrightarrow> xdp_frame api m (length (ports_cfg fi)) (lpid lport) x" using rx port by auto
    have "\<exists>t. run_to_completion_cndp fuel api m fi lport w = Some (int (length ms), t) \<and> live t = (\<lambda>_. None) \<and>
        (\<forall>h \<in> set (txbuffs priv). txbuff_count api h (dp_dev t) = 0)"
      by (rule xdp_burst_gone [OF assms(2-5,7,8) q(1-3)]) (rule q(4))
    then show ?thesis by blast
  qed
  then obtain k w' where k: "run_to_completion_cndp fuel api m fi lport w = Some (k, w')" "live w' = (\<lambda>_. None)" by blast
  have u: "unseen api held" "unseen api blocks" using assms(1) by (simp_all add: thd_lib_def)
  have "held (dp_dev w') = held (dp_dev w)" "blocks (dp_dev w') = blocks (dp_dev w)"
    using unseen_run [OF u(1) k(1)] unseen_run [OF u(2) k(1)] by simp_all
  with k show ?thesis by (auto simp: calm_def)
qed

lemma engine_calm:
  assumes "thd_lib api held blocks" "txbuff_ok api cap" "cap \<le> fuel" "prepend_ok api" "macs_ok m"
    "good_rx api m (fi_pkt_api fi) (fi_burst fi) (length (ports_cfg fi))" "polled fi (ports_cfg fi ! l) pd priv"
    "l < length (ports_cfg fi)" "live w = (\<lambda>_. None)"
  shows "\<exists>n w'. engine fuel api m nrings False fi l w = Some (n, w') \<and> calm held blocks w w'"
  using run_calm [OF assms(1-7,9)] assms(8) by (simp add: engine_def elem_at_def)

lemma thd_loop_leaves:
  assumes "thd_lib api held blocks" "th_lports thd \<noteq> []"
    "\<And>l w. l \<in> set (th_lports thd) \<Longrightarrow> live w = (\<lambda>_. None) \<Longrightarrow> \<exists>n w'. eng l w = Some (n, w') \<and> calm held blocks w w'"
  shows "\<exists>q \<in> set seen. fst q \<Longrightarrow> live w = (\<lambda>_. None) \<Longrightarrow>
    \<exists>rest w'. thd_loop api eng thd imgr i seen w = Some (rest, w') \<and> calm held blocks w w' \<and> (\<exists>q \<in> set rest. fst q)"
proof (induction seen arbitrary: i w)
  case (Cons o1 seen)
  obtain quit paused where o1: "o1 = (quit, paused)" by (cases o1)
  show ?case
  proof (cases "quit \<or> paused")
    case True
    show ?thesis
    proof (cases quit)
      case True
      then show ?thesis using Cons.prems o1 by (simp add: calm_def)
    next
      case False
      then have "\<exists>q \<in> set seen. fst q" using Cons.prems(1) o1 by auto
      then show ?thesis using Cons.IH [OF _ Cons.prems(2), of "Suc i"] False True o1 by simp
    qed
  next
    case False
    then have more: "\<exists>q \<in> set seen. fst q" using Cons.prems(1) o1 by auto
    let ?l = "th_lports thd ! (i mod length (th_lports thd))"
    have "?l \<in> set (th_lports thd)" using assms(2) by simp
    then obtain n w1 where e: "eng ?l w = Some (n, w1)" "calm held blocks w w1" using assms(3) Cons.prems(2) by blast
    then have l1: "live w1 = (\<lambda>_. None)" by (simp add: calm_def)
    obtain r d where p: "idlemgr_process api imgr n (dp_dev w1) = (r, d)" by fastforce
    have "held (snd (idlemgr_process api imgr n (dp_dev w1))) = held (dp_dev w1)"
      "blocks (snd (idlemgr_process api imgr n (dp_dev w1))) = blocks (dp_dev w1)"
      using assms(1) by (simp_all add: thd_lib_def idle_unseen_def)
    then have c2: "calm held blocks w (w1\<lparr>dp_dev := d\<rparr>)" using e(2) p by (simp add: calm_def)
    have go: "\<exists>rest w'. thd_loop api eng thd imgr (Suc i) seen v = Some (rest, w') \<and> calm held blocks w w' \<and> (\<exists>q \<in> set rest. fst q)"
      if "calm held blocks w v" for v
      using Cons.IH [OF more, of v "Suc i"] that calm_trans by (metis calm_def)
    show ?thesis using False o1 e more p c2 go [OF e(2)] go [OF c2] by auto
  qed
qed simp

lemma idle_ports_total:
  assumes "idle_unseen api f" "\<forall>l \<in> set ls. l < length (ports_cfg fi) \<and> lp_priv (ports_cfg fi ! l) \<noteq> None"
  shows "\<exists>go d'. idle_ports api fi imgr ls fd d = Some (go, d') \<and> f d' = f d"
  using assms(2)
proof (induction ls arbitrary: fd d)
  case (Cons l ls)
  then obtain pd where l: "elem_at (ports_cfg fi) l = Some (ports_cfg fi ! l)" "lp_priv (ports_cfg fi ! l) = Some pd"
    by (auto simp: elem_at_def)
  obtain r fd1 where r: "(case fi_pkt_api fi of XSKDEV_PKT_API \<Rightarrow> do { pd \<leftarrow> lp_priv (ports_cfg fi ! l); Some (xskdev_get_fd api (fp_xsk pd) d) }
      | PKTDEV_PKT_API \<Rightarrow> Some (pktdev_info_get api (lpid (ports_cfg fi ! l)) d) | UNKNOWN_PKT_API \<Rightarrow> Some (0, fd)) = Some (r, fd1)"
    using l(2) by (cases "fi_pkt_api fi"; cases "xskdev_get_fd api (fp_xsk pd) d";
      cases "pktdev_info_get api (lpid (ports_cfg fi ! l)) d") auto
  obtain k d1 where k: "idlemgr_add api imgr fd1 d = (k, d1)" by fastforce
  have "f (snd (idlemgr_add api imgr fd1 d)) = f d" using assms(1) by (simp add: idle_unseen_def)
  then have d1: "f d1 = f d" using k by simp
  show ?case using Cons.IH [of fd1 d] Cons.IH [of fd1 d1] Cons.prems l(1) r k d1 by auto
qed auto

lemma polled_priv: "polled fi lport pd priv \<Longrightarrow> lp_priv lport = Some pd"
  by (simp add: polled_def)

lemma idle_setup_total:
  assumes "thd_lib api held blocks" "\<forall>l \<in> set (th_lports thd). l < length (ports_cfg fi) \<and> lp_priv (ports_cfg fi ! l) \<noteq> None"
  shows "\<exists>go imgr d'. idle_setup api fi thd d = Some (go, imgr, d') \<and> held d' = held d \<and> blocks d' = blocks d"
proof -
  obtain imgr d1 where c: "idlemgr_create api (th_name thd) (length (th_lports thd)) (idle_timeout thd) (intr_timeout thd) d = (imgr, d1)"
    by fastforce
  have u: "idle_unseen api (\<lambda>d. (held d, blocks d))" using assms(1) by (auto simp: thd_lib_def idle_unseen_def)
  then have "(\<lambda>d. (held d, blocks d)) (snd (idlemgr_create api (th_name thd) (length (th_lports thd)) (idle_timeout thd) (intr_timeout thd) d)) =
      (held d, blocks d)" unfolding idle_unseen_def by blast
  then have d1: "held d1 = held d" "blocks d1 = blocks d" using c by simp_all
  obtain go d2 where "idle_ports api fi imgr (th_lports thd) (-1) d1 = Some (go, d2)" "held d2 = held d1" "blocks d2 = blocks d1"
    using idle_ports_total [OF u assms(2), of imgr "-1" d1] by auto
  with c d1 show ?thesis by (auto simp: idle_setup_def)
qed

lemma leave_law:
  assumes "thd_lib api held blocks" "t < length (thds fi)" "th_priv (thds fi ! t) = Some priv"
    "length (txbuffs priv) = length (ports_cfg fi)" "\<exists>q \<in> set seen. fst q"
  shows "\<exists>fi' w'. thd_leave api True t imgr seen fi w = Some (Done fi' w') \<and> live w' = live w \<and>
    th_quit (thds fi' ! t) = THD_DONE \<and> th_priv (thds fi' ! t) = None \<and>
    held (dp_dev w') = held (dp_dev w) - (set (txbuffs priv) - {0}) \<and> blocks (dp_dev w') = blocks (dp_dev w) - 3"
proof -
  have a: "alloc_lib api held blocks" using assms(1) by (simp add: thd_lib_def)
  obtain d1 where d1: "destroy_per_thread_txbuff api t fi (dp_dev w) = Some (set_thd t None fi, d1)"
    "held d1 = held (dp_dev w) - (set (txbuffs priv) - {0})" "blocks d1 = blocks (dp_dev w) - 2"
    using destroy_law [OF a assms(2-4)] by blast
  let ?d = "if imgr \<noteq> 0 then idlemgr_destroy api imgr d1 else d1"
  have "held ?d = held d1" "blocks ?d = blocks d1" using assms(1) by (simp_all add: thd_lib_def idle_unseen_def)
  then show ?thesis using d1 free_law [OF a, of ?d] assms(2,5) by (simp add: thd_leave_def set_thd_def)
qed

lemma thread_composes:
  assumes "elem_at (thds fi) t = Some thd" "barrier_wait api (dp_dev w) = (b, d)" "\<not> b > 0" "th_lports thd \<noteq> []"
    "create_per_thread_txbuff api it t fi d = Some (0, f1, d1)" "idle_setup api f1 thd d1 = Some (go, imgr, d2)"
    "(if go then thd_loop api (engine fuel api m nrings master f1) thd imgr 0 seen (w\<lparr>dp_dev := d2\<rparr>)
      else Some (seen, w\<lparr>dp_dev := d2\<rparr>)) = Some (rest, w1)"
  shows "rx_tx_thread fuel api it m nrings master t seen fi w = thd_leave api True t imgr rest f1 w1"
  unfolding rx_tx_thread_def assms(1,2,5) Option.bind.simps prod.case if_not_P [OF assms(3)] if_not_P [OF assms(4)]
  by (simp only: assms(6,7) Option.bind.simps prod.case not_True_eq_False if_False simp_thms)

lemma thread_gives_up:
  assumes "elem_at (thds fi) t = Some thd" "barrier_wait api (dp_dev w) = (b, d)" "\<not> b > 0" "th_lports thd \<noteq> []"
    "create_per_thread_txbuff api it t fi d = Some (r, f1, d1)" "r \<noteq> 0"
  shows "rx_tx_thread fuel api it m nrings master t seen fi w = Some Exit"
  unfolding rx_tx_thread_def assms(1,2,5) Option.bind.simps prod.case if_not_P [OF assms(3)] if_not_P [OF assms(4)]
  by (simp only: assms(6) not_False_eq_True if_True)


end
