(* ===== verification/XdpConfig.thy ===== *)
theory XdpConfig
  imports XdpThreads CString
begin

text \<open>
  How the AF_XDP data path is configured: the configuration file of the program becomes one of the
  CNDP library (the templates of \<^verbatim>\<open>cndp.cpp\<close>), which parses it and calls \<^verbatim>\<open>process_callback\<close> of
  \<^verbatim>\<open>config.cpp\<close> with every object of it: options, memory areas, ports and threads; \<^verbatim>\<open>_cleanup\<close> undoes
  what was made when an object fails.  JSON objects are maps from keys, as the JSON library keeps them;
  the library, memory mapping, sockets and thread creation are parameters.
\<close>

section \<open>Templates\<close>

text \<open>The configuration file as the JSON library delivers it: the devices in the order of their names.\<close>

record queue_conf =
  core_id :: nat
  region_index :: int
  queue_id_conf :: int

record lport_conf =
  pmd_conf :: string
  umem_conf :: string
  busy_poll_conf :: "bool option"
  busy_budget_conf :: "int option"
  skb_mode_conf :: "bool option"
  xsk_pin_path_conf :: "string option"
  queues_info :: "queue_conf list"

record cndp_conf =
  main_lcore :: int
  idle_timeout_conf :: "int option"
  intr_timeout_conf :: "int option"
  lports_of :: "(string \<times> lport_conf) list"

record thread_conf =
  tc_group :: string
  tc_lports :: "string list"
  tc_idle :: "int option"
  tc_intr :: "int option"
  tc_description :: string

record lport_out =
  lo_description :: string
  lo_pmd :: string
  lo_umem :: string
  lo_busy_poll :: "bool option"
  lo_busy_budget :: "int option"
  lo_skb_mode :: "bool option"
  lo_xsk_pin_path :: "string option"
  lo_region :: int
  lo_qid :: int

definition port_key :: "string \<Rightarrow> nat \<Rightarrow> string" where
  "port_key dv i = dv @ '':'' @ dec i"

definition thread_key :: "nat \<Rightarrow> string" where
  "thread_key k = ''fwd:'' @ dec k"

definition group_key :: "nat \<Rightarrow> string" where
  "group_key c = ''group'' @ dec c"

definition fwd_thread_conf :: "cndp_conf \<Rightarrow> string \<Rightarrow> nat \<Rightarrow> queue_conf \<Rightarrow> thread_conf" where
  "fwd_thread_conf cf dv i q = \<lparr>tc_group = group_key (core_id q), tc_lports = [port_key dv i], tc_idle = idle_timeout_conf cf,
     tc_intr = intr_timeout_conf cf, tc_description = ''fwd thread''\<rparr>"

fun thread_queues ::
  "cndp_conf \<Rightarrow> string \<Rightarrow> queue_conf list \<Rightarrow> nat \<Rightarrow> nat \<times> (string \<rightharpoonup> thread_conf) \<Rightarrow> nat \<times> (string \<rightharpoonup> thread_conf)" where
  "thread_queues cf dv [] lport_id st = st"
| "thread_queues cf dv (q # qs) lport_id (fwd_thread, threads) =
     thread_queues cf dv qs (Suc lport_id)
       (Suc fwd_thread, threads(thread_key fwd_thread \<mapsto> fwd_thread_conf cf dv lport_id q))"

fun thread_devs ::
  "cndp_conf \<Rightarrow> (string \<times> lport_conf) list \<Rightarrow> nat \<times> (string \<rightharpoonup> thread_conf) \<Rightarrow> nat \<times> (string \<rightharpoonup> thread_conf)" where
  "thread_devs cf [] st = st"
| "thread_devs cf ((dv, lp) # dvs) st = thread_devs cf dvs (thread_queues cf dv (queues_info lp) 0 st)"

definition get_thread_template :: "cndp_conf \<Rightarrow> (string \<rightharpoonup> thread_conf)" where
  "get_thread_template cf =
     snd (thread_devs cf (lports_of cf) (0, [''main'' \<mapsto>
       \<lparr>tc_group = ''initial'', tc_lports = [], tc_idle = None, tc_intr = None, tc_description = ''setup thread''\<rparr>]))"

definition lport_entry :: "lport_conf \<Rightarrow> queue_conf \<Rightarrow> lport_out" where
  "lport_entry lp q = \<lparr>lo_description = ''fwd thread'', lo_pmd = pmd_conf lp, lo_umem = umem_conf lp, lo_busy_poll = busy_poll_conf lp,
     lo_busy_budget = busy_budget_conf lp, lo_skb_mode = skb_mode_conf lp, lo_xsk_pin_path = xsk_pin_path_conf lp,
     lo_region = region_index q, lo_qid = queue_id_conf q\<rparr>"

text \<open>The ports, and the list of hardware addresses with one entry for every port.\<close>

fun lport_queues ::
  "string \<Rightarrow> lport_conf \<Rightarrow> u8 list \<Rightarrow> queue_conf list \<Rightarrow> nat \<Rightarrow> (string \<rightharpoonup> lport_out) \<times> u8 list list
    \<Rightarrow> (string \<rightharpoonup> lport_out) \<times> u8 list list" where
  "lport_queues dv lp mac [] queue_id st = st"
| "lport_queues dv lp mac (q # qs) queue_id (lps, macs) =
     lport_queues dv lp mac qs (Suc queue_id) (lps(port_key dv queue_id \<mapsto> lport_entry lp q), macs @ [mac])"

fun lport_devs ::
  "(string \<Rightarrow> u8 list) \<Rightarrow> (string \<times> lport_conf) list \<Rightarrow> (string \<rightharpoonup> lport_out) \<times> u8 list list
    \<Rightarrow> (string \<rightharpoonup> lport_out) \<times> u8 list list" where
  "lport_devs mac_of [] st = st"
| "lport_devs mac_of ((dv, lp) # dvs) st = lport_devs mac_of dvs (lport_queues dv lp (mac_of dv) (queues_info lp) 0 st)"

definition get_lport_template :: "(string \<Rightarrow> u8 list) \<Rightarrow> cndp_conf \<Rightarrow> (string \<rightharpoonup> lport_out) \<times> u8 list list" where
  "get_lport_template get_mac_address cf = lport_devs get_mac_address (lports_of cf) (Map.empty, [])"

text \<open>A group of a core is assigned anew for every queue that names the core.\<close>

fun group_queues :: "queue_conf list \<Rightarrow> (string \<rightharpoonup> int list) \<Rightarrow> (string \<rightharpoonup> int list)" where
  "group_queues [] g = g"
| "group_queues (q # qs) g = group_queues qs (g(group_key (core_id q) \<mapsto> [int (core_id q)]))"

fun group_devs :: "(string \<times> lport_conf) list \<Rightarrow> (string \<rightharpoonup> int list) \<Rightarrow> (string \<rightharpoonup> int list)" where
  "group_devs [] g = g"
| "group_devs ((dv, lp) # dvs) g = group_devs dvs (group_queues (queues_info lp) g)"

definition get_lcore_groups_template :: "cndp_conf \<Rightarrow> (string \<rightharpoonup> int list)" where
  "get_lcore_groups_template cf = group_devs (lports_of cf) [''initial'' \<mapsto> [main_lcore cf]]"

section \<open>Names of the library\<close>

definition lower :: "string \<Rightarrow> string" where
  "lower s = map (\<lambda>c. if 65 \<le> (of_char c :: nat) \<and> (of_char c :: nat) \<le> 90 then char_of ((of_char c :: nat) + 32) else c) s"

text \<open>\<^verbatim>\<open>strncmp\<close> and \<^verbatim>\<open>strncasecmp\<close> answer zero, \<^verbatim>\<open>strcasecmp\<close> answers zero.\<close>

definition strncmp_eq :: "string \<Rightarrow> string \<Rightarrow> nat \<Rightarrow> bool" where
  "strncmp_eq a b n \<longleftrightarrow> take n a = take n b"

definition strncasecmp_eq :: "string \<Rightarrow> string \<Rightarrow> nat \<Rightarrow> bool" where
  "strncasecmp_eq a b n \<longleftrightarrow> take n (lower a) = take n (lower b)"

definition strcasecmp_eq :: "string \<Rightarrow> string \<Rightarrow> bool" where
  "strcasecmp_eq a b \<longleftrightarrow> lower a = lower b"

abbreviation MAX_STRLEN_SIZE :: nat where "MAX_STRLEN_SIZE \<equiv> 16"

definition get_pkt_api :: "string option \<Rightarrow> pkt_api_t" where
  "get_pkt_api ty =
     (case ty of
        None \<Rightarrow> UNKNOWN_PKT_API
      | Some s \<Rightarrow>
          (let nlen = min (length s) MAX_STRLEN_SIZE in
           if strncasecmp_eq s ''xskdev'' nlen then XSKDEV_PKT_API
           else if strncasecmp_eq s ''pktdev'' nlen then PKTDEV_PKT_API
           else if strncasecmp_eq s ''xdpdev'' nlen then XSKDEV_PKT_API
           else XSKDEV_PKT_API))"

section \<open>Objects of the configuration\<close>

text \<open>What a port is opened with; names are those of the configuration, as far as the library has room for them.\<close>

record lport_cfg =
  pc_qid :: u16
  pc_bufsz :: u32
  pc_rx_nb_desc :: u16
  pc_tx_nb_desc :: u16
  pc_umem_addr :: u64
  pc_umem_size :: u64
  pc_pmd_opts :: "string option"
  pc_busy_timeout :: u16
  pc_busy_budget :: u16
  pc_flags :: u32
  pc_xsk_map_path :: "string option"
  pc_xsk_uds :: handle
  pc_addr :: u64
  pc_bufcnt :: u32
  pc_pi :: handle
  pc_pmd_name :: string
  pc_ifname :: string
  pc_name :: string

record 'd cfg_api = "'d thd_api" +
  MEMPOOL_CACHE_MAX_SIZE :: u32
  LPORT_SHARED_UMEM :: u32
  LPORT_UNPRIVILEGED :: u32
  mmap_alloc :: "u32 \<Rightarrow> u32 \<Rightarrow> int \<Rightarrow> 'd \<Rightarrow> handle \<times> 'd"
  mmap_free :: "handle \<Rightarrow> 'd \<Rightarrow> 'd"
  mmap_addr :: "handle \<Rightarrow> u64"
  mmap_size :: "handle \<Rightarrow> u64"
  default_cache :: "u32 option"
  pktmbuf_pool_create :: "u64 \<Rightarrow> u32 \<Rightarrow> u32 \<Rightarrow> u32 \<Rightarrow> 'd \<Rightarrow> handle \<times> 'd"
  pktmbuf_info_name_set :: "handle \<Rightarrow> string \<Rightarrow> 'd \<Rightarrow> 'd"
  pktmbuf_destroy :: "handle \<Rightarrow> 'd \<Rightarrow> 'd"
  udsc_handshake :: "string \<Rightarrow> 'd \<Rightarrow> handle \<times> 'd"
  udsc_close :: "handle \<Rightarrow> 'd \<Rightarrow> 'd"
  jcfg_lport_region :: "jcfg_umem list \<Rightarrow> jcfg_lport \<Rightarrow> u64 \<times> u32"
  xskdev_socket_create :: "lport_cfg \<Rightarrow> 'd \<Rightarrow> handle \<times> 'd"
  xskdev_socket_destroy :: "handle \<Rightarrow> 'd \<Rightarrow> 'd"
  pktdev_port_setup :: "lport_cfg \<Rightarrow> 'd \<Rightarrow> int \<times> 'd"
  pktdev_close :: "int \<Rightarrow> 'd \<Rightarrow> 'd"
  set_affinity :: "string \<Rightarrow> 'd \<Rightarrow> 'd"
  thread_create :: "string \<Rightarrow> nat \<Rightarrow> 'd \<Rightarrow> int \<times> 'd"
  metrics_init :: "'d \<Rightarrow> int \<times> 'd"
  metrics_register :: "string \<Rightarrow> 'd \<Rightarrow> int \<times> 'd"
  metrics_destroy :: "'d \<Rightarrow> 'd"
  uds_get_default :: "'d \<Rightarrow> handle \<times> 'd"
  uds_create_group :: "handle \<Rightarrow> string \<Rightarrow> 'd \<Rightarrow> handle \<times> 'd"
  uds_register :: "handle \<Rightarrow> string \<Rightarrow> 'd \<Rightarrow> int \<times> 'd"

datatype opt_val = StringOpt string | BooleanOpt bool | OtherOpt

text \<open>The objects, by their position in the parsed configuration.\<close>

datatype jcfg_obj = NullObj | ApplicationObj | DefaultObj | OptionObj string opt_val | UmemObj nat | LportObj nat
  | LgroupObj | ThreadObj nat | UserObj | LportGroupObj | UnknownObj

text \<open>
  An option: its name is compared with a tag as far as the name goes, so that a beginning of a tag is
  taken for the tag.
\<close>

definition process_option ::
  "('d, 'z) cfg_api_scheme \<Rightarrow> string \<Rightarrow> opt_val \<Rightarrow> fwd_info \<Rightarrow> 'd \<Rightarrow> int \<times> fwd_info \<times> 'd" where
  "process_option api name v f d =
     (let nlen = min (length name) MAX_STRLEN_SIZE; o0 = opts f in
      if strncmp_eq name ''pkt_api'' nlen then
        (case v of StringOpt s \<Rightarrow>
            (0, f\<lparr>opts := o0\<lparr>opt_pkt_api := Some s\<rparr>,
                  fi_pkt_api := (if fi_pkt_api f = UNKNOWN_PKT_API then get_pkt_api (Some s) else fi_pkt_api f)\<rparr>, d)
         | _ \<Rightarrow> (0, f, d))
      else if strncmp_eq name ''no-metrics'' nlen then
        (case v of BooleanOpt b \<Rightarrow> (0, f\<lparr>opts := o0\<lparr>no_metrics := b\<rparr>\<rparr>, d) | _ \<Rightarrow> (0, f, d))
      else if strncmp_eq name ''no-restapi'' nlen then
        (case v of BooleanOpt b \<Rightarrow> (0, f\<lparr>opts := o0\<lparr>no_restapi := b\<rparr>\<rparr>, d) | _ \<Rightarrow> (0, f, d))
      else if strncmp_eq name ''cli'' nlen then
        (case v of BooleanOpt b \<Rightarrow> (0, f\<lparr>opts := o0\<lparr>opt_cli := b\<rparr>\<rparr>, d) | _ \<Rightarrow> (0, f, d))
      else if strncmp_eq name ''uds_path'' nlen then
        (case v of StringOpt s \<Rightarrow>
            (case udsc_handshake api s d of (h, d1) \<Rightarrow> (if h = 0 then -1 else 0, f\<lparr>xdp_uds := h\<rparr>, d1))
         | _ \<Rightarrow> (0, f, d))
      else (0, f, d))"

text \<open>The pools of a memory area, region after region; the address moves on by a product of 32 bits.\<close>

fun make_regions ::
  "('d, 'z) cfg_api_scheme \<Rightarrow> string \<Rightarrow> u32 \<Rightarrow> u32 \<Rightarrow> nat \<Rightarrow> region_info list \<Rightarrow> u64 \<Rightarrow> 'd
    \<Rightarrow> int \<times> region_info list \<times> 'd" where
  "make_regions api name bufsz cache i [] addr d = (0, [], d)"
| "make_regions api name bufsz cache i (ri # ris) addr d =
     (case pktmbuf_pool_create api addr (ri_bufcnt ri) bufsz cache d of (h, d1) \<Rightarrow>
        if h = 0 then (-1, ri\<lparr>ri_addr := addr\<rparr> # ris, d1)
        else (case make_regions api name bufsz cache (Suc i) ris (addr + ucast (ri_bufcnt ri * bufsz))
                     (pktmbuf_info_name_set api h (name @ ''-'' @ dec i) d1) of
                (r, ris', d2) \<Rightarrow> (r, ri\<lparr>ri_addr := addr, ri_pool := h\<rparr> # ris', d2)))"

definition process_umem ::
  "('d, 'z) cfg_api_scheme \<Rightarrow> nat \<Rightarrow> fwd_info \<Rightarrow> 'd \<Rightarrow> (int \<times> fwd_info \<times> 'd) option" where
  "process_umem api u f d = do {
     um \<leftarrow> elem_at (umems f) u;
     (let f0 = (if fi_pkt_api f = UNKNOWN_PKT_API then f\<lparr>fi_pkt_api := XSKDEV_PKT_API\<rparr> else f) in
      if sum_list (map ri_bufcnt (rinfo um)) \<noteq> um_bufcnt um then Some (-1, f0, d)
      else (case mmap_alloc api (um_bufcnt um) (um_bufsz um) (um_mtype um) d of (mm, d1) \<Rightarrow>
        (let um1 = um\<lparr>um_mm := mm\<rparr> in
         if mm = 0 then Some (-1, f0\<lparr>umems := (umems f0)[u := um1]\<rparr>, d1)
         else (case make_regions api (um_name um) (um_bufsz um)
                      (case default_cache api of None \<Rightarrow> MEMPOOL_CACHE_MAX_SIZE api | Some c \<Rightarrow> c) 0 (rinfo um) (mmap_addr api mm) d1 of
                 (r, ris, d2) \<Rightarrow> Some (r, f0\<lparr>umems := (umems f0)[u := um1\<lparr>rinfo := ris\<rparr>]\<rparr>, d2)))))
   }"

definition lport_pcfg ::
  "('d, 'z) cfg_api_scheme \<Rightarrow> fwd_info \<Rightarrow> jcfg_lport \<Rightarrow> jcfg_umem \<Rightarrow> u64 \<Rightarrow> u32 \<Rightarrow> handle \<Rightarrow> lport_cfg" where
  "lport_pcfg api f lp um addr bufcnt pool =
     \<lparr>pc_qid = qid lp, pc_bufsz = um_bufsz um, pc_rx_nb_desc = um_rxdesc um, pc_tx_nb_desc = um_txdesc um,
      pc_umem_addr = mmap_addr api (um_mm um), pc_umem_size = mmap_size api (um_mm um), pc_pmd_opts = pmd_opts lp,
      pc_busy_timeout = busy_timeout lp, pc_busy_budget = busy_budget lp,
      pc_flags = or (or (lp_flags lp) (if shared_umem um then LPORT_SHARED_UMEM api else 0))
                    (if xdp_uds f \<noteq> 0 then LPORT_UNPRIVILEGED api else 0),
      pc_xsk_map_path = xsk_map_path lp, pc_xsk_uds = xdp_uds f, pc_addr = addr, pc_bufcnt = bufcnt, pc_pi = pool,
      pc_pmd_name = pmd_name lp, pc_ifname = netdev lp, pc_name = lp_name lp\<rparr>"

text \<open>
  A port: its private data is cleared memory whose number is set to minus one, for both members of
  the union, before anything else can fail.
\<close>

definition new_port :: fwd_port where
  "new_port = set_lport (-1) \<lparr>fp_thd = None, fp_dev = 0, tx_overrun = 0\<rparr>"

definition process_lport ::
  "('d, 'z) cfg_api_scheme \<Rightarrow> nat \<Rightarrow> fwd_info \<Rightarrow> 'd \<Rightarrow> (int \<times> fwd_info \<times> 'd) option" where
  "process_lport api l f d = do {
     lp \<leftarrow> elem_at (ports_cfg f) l;
     u \<leftarrow> lp_umem lp;
     um \<leftarrow> elem_at (umems f) u;
     (case calloc api 1 d of (ok, d1) \<Rightarrow>
       if \<not> ok then Some (-1, f, d1)
       else
         (let with_pd = (\<lambda>pd. f\<lparr>ports_cfg := (ports_cfg f)[l := lp\<lparr>lp_priv := Some pd\<rparr>]\<rparr>) in
          (case jcfg_lport_region api (umems f) lp of (addr, bufcnt) \<Rightarrow>
            if addr = 0 then Some (-1, with_pd new_port, d1)
            else do {
              ri \<leftarrow> elem_at (rinfo um) (region_idx lp);
              (let pcfg = lport_pcfg api f lp um addr bufcnt (ri_pool ri) in
               Some (case fi_pkt_api f of
                 XSKDEV_PKT_API \<Rightarrow>
                   (case xskdev_socket_create api pcfg d1 of (h, d2) \<Rightarrow>
                     (if h = 0 then -1 else 0, with_pd (new_port\<lparr>fp_dev := h\<rparr>), d2))
               | PKTDEV_PKT_API \<Rightarrow>
                   (case pktdev_port_setup api pcfg d1 of (n, d2) \<Rightarrow>
                     (if n < 0 then -1 else 0, with_pd (set_lport n new_port), d2))
               | UNKNOWN_PKT_API \<Rightarrow> (-1, with_pd new_port, d1)))
            })))
   }"

definition process_thread ::
  "('d, 'z) cfg_api_scheme \<Rightarrow> nat \<Rightarrow> fwd_info \<Rightarrow> nat option list \<Rightarrow> 'd \<Rightarrow> (int \<times> nat option list \<times> 'd) option" where
  "process_thread api t f func_arg_store d = do {
     thd \<leftarrow> elem_at (thds f) t;
     (if strcasecmp_eq ''main'' (thread_type thd) then Some (0, func_arg_store, set_affinity api (group_name thd) d)
      else if strcasecmp_eq ''fwd'' (thread_type thd) then
        (case calloc api 1 d of (ok, d1) \<Rightarrow>
          if \<not> ok then Some (-1, func_arg_store, d1)
          else if th_idx thd < length func_arg_store then
            (case thread_create api (th_name thd) t d1 of (r, d2) \<Rightarrow>
               if r < 0 then Some (-1, func_arg_store[th_idx thd := Some t], free_mem api d2)
               else Some (0, func_arg_store[th_idx thd := Some t], d2))
          else None)
      else Some (-1, func_arg_store, d))
   }"

definition process_callback ::
  "('d, 'z) cfg_api_scheme \<Rightarrow> jcfg_obj \<Rightarrow> nat \<Rightarrow> fwd_info \<times> nat option list \<times> 'd
    \<Rightarrow> (int \<times> fwd_info \<times> nat option list \<times> 'd) option" where
  "process_callback api obj idx st =
     (case st of (f, func_args, d) \<Rightarrow>
       (case obj of
          NullObj \<Rightarrow> Some (-1, st)
        | ApplicationObj \<Rightarrow> Some (0, st)
        | DefaultObj \<Rightarrow> Some (0, st)
        | OptionObj name v \<Rightarrow> (case process_option api name v f d of (r, f1, d1) \<Rightarrow> Some (r, f1, func_args, d1))
        | UmemObj u \<Rightarrow> map_option (\<lambda>(r, f1, d1). (r, f1, func_args, d1)) (process_umem api u f d)
        | LportObj l \<Rightarrow> map_option (\<lambda>(r, f1, d1). (r, f1, func_args, d1)) (process_lport api l f d)
        | LgroupObj \<Rightarrow> Some (0, st)
        | ThreadObj t \<Rightarrow> map_option (\<lambda>(r, args, d1). (r, f, args, d1)) (process_thread api t f func_args d)
        | UserObj \<Rightarrow> Some (0, st)
        | LportGroupObj \<Rightarrow> Some (0, st)
        | UnknownObj \<Rightarrow> Some (-1, st)))"

section \<open>Clean up\<close>

definition free_umem :: "('d, 'z) cfg_api_scheme \<Rightarrow> jcfg_umem \<Rightarrow> 'd \<Rightarrow> jcfg_umem \<times> 'd" where
  "free_umem api um d =
     (um\<lparr>rinfo := map (\<lambda>ri. ri\<lparr>ri_pool := 0\<rparr>) (rinfo um), um_mm := 0\<rparr>,
      mmap_free api (um_mm um) (fold (\<lambda>ri. pktmbuf_destroy api (ri_pool ri)) (rinfo um) d))"

definition close_port_dev :: "('d, 'z) cfg_api_scheme \<Rightarrow> pkt_api_t \<Rightarrow> fwd_port \<Rightarrow> 'd \<Rightarrow> 'd" where
  "close_port_dev api pa pd d =
     (case pa of
        XSKDEV_PKT_API \<Rightarrow> if fp_xsk pd \<noteq> 0 then xskdev_socket_destroy api (fp_xsk pd) d else d
      | PKTDEV_PKT_API \<Rightarrow> if fp_lport pd \<ge> 0 then pktdev_close api (fp_lport pd) d else d
      | UNKNOWN_PKT_API \<Rightarrow> d)"

definition cleanup_lport ::
  "('d, 'z) cfg_api_scheme \<Rightarrow> nat \<Rightarrow> fwd_info \<Rightarrow> 'd \<Rightarrow> (fwd_info \<times> 'd) option" where
  "cleanup_lport api l f d = do {
     lp \<leftarrow> elem_at (ports_cfg f) l;
     (f1, d1) \<leftarrow> (case lp_umem lp of
        None \<Rightarrow> Some (f, d)
      | Some u \<Rightarrow> do {
          um \<leftarrow> elem_at (umems f) u;
          (case free_umem api um d of (um1, d1) \<Rightarrow> Some (f\<lparr>umems := (umems f)[u := um1]\<rparr>, d1))
        });
     Some (case lp_priv lp of
        None \<Rightarrow> (f1, d1)
      | Some pd \<Rightarrow> (f1\<lparr>ports_cfg := (ports_cfg f1)[l := lp\<lparr>lp_priv := None\<rparr>]\<rparr>,
                    free_mem api (close_port_dev api (fi_pkt_api f) pd d1)))
   }"

fun cleanup_lports ::
  "('d, 'z) cfg_api_scheme \<Rightarrow> nat list \<Rightarrow> fwd_info \<Rightarrow> 'd \<Rightarrow> (fwd_info \<times> 'd) option" where
  "cleanup_lports api [] f d = Some (f, d)"
| "cleanup_lports api (l # ls) f d = do { (f1, d1) \<leftarrow> cleanup_lport api l f d; cleanup_lports api ls f1 d1 }"

definition cleanup ::
  "('d, 'z) cfg_api_scheme \<Rightarrow> jcfg_thd \<Rightarrow> nat \<Rightarrow> fwd_info \<times> 'd \<Rightarrow> (int \<times> fwd_info \<times> 'd) option" where
  "cleanup api thd idx st =
     (case st of (f, d) \<Rightarrow> do {
        (f1, d1) \<leftarrow> cleanup_lports api (th_lports thd) f d;
        Some (0, if xdp_uds f1 \<noteq> 0 then (f1\<lparr>xdp_uds := 0\<rparr>, udsc_close api (xdp_uds f1) d1) else (f1, d1))
      })"

text \<open>
  The metrics: a register call that fails ends the set up; for the first two commands only a negative
  answer is a failure.
\<close>

definition enable_metrics :: "('d, 'z) cfg_api_scheme \<Rightarrow> 'd \<Rightarrow> int \<times> 'd" where
  "enable_metrics api d =
     (case metrics_init api d of (r, d1) \<Rightarrow>
        if r < 0 then (-1, d1)
        else (case metrics_register api ''/port_stats'' d1 of (r2, d2) \<Rightarrow> (if r2 < 0 then -1 else 0, d2)))"

fun register_commands :: "('d, 'z) cfg_api_scheme \<Rightarrow> handle \<Rightarrow> (string \<times> (int \<Rightarrow> bool)) list \<Rightarrow> 'd \<Rightarrow> int \<times> 'd" where
  "register_commands api grp [] d = (0, d)"
| "register_commands api grp ((cmd, failed) # cmds) d =
     (case uds_register api grp cmd d of (r, d1) \<Rightarrow> if failed r then (-1, d1) else register_commands api grp cmds d1)"

definition enable_uds_info :: "('d, 'z) cfg_api_scheme \<Rightarrow> 'd \<Rightarrow> int \<times> 'd" where
  "enable_uds_info api d =
     (case uds_get_default api d of (info, d1) \<Rightarrow>
        if info = 0 then (-1, d1)
        else (case uds_create_group api info ''app'' d1 of (grp, d2) \<Rightarrow>
          if grp = 0 then (-1, d2)
          else register_commands api grp
            [(''/hostname'', \<lambda>r. r < 0), (''/appname'', \<lambda>r. r < 0), (''/threads'', \<lambda>r. r \<noteq> 0), (''/ports'', \<lambda>r. r \<noteq> 0),
             (''/stop'', \<lambda>r. r \<noteq> 0), (''/start'', \<lambda>r. r \<noteq> 0)] d2))"

definition start_metrics :: "('d, 'z) cfg_api_scheme \<Rightarrow> 'd \<Rightarrow> int \<times> 'd" where
  "start_metrics api d =
     (case enable_metrics api d of (r, d1) \<Rightarrow>
        if r = 0 then (case enable_uds_info api d1 of (r2, d2) \<Rightarrow> if r2 \<noteq> 0 then (r2, metrics_destroy api d2) else (0, d2))
        else (r, d1))"

text \<open>
  The start: the text is parsed (\<open>None\<close> for no configuration), the barrier made, and the objects are
  processed; if one fails, the threads are cleaned up.  The arguments of the threads are handed out.
\<close>

definition parse_args ::
  "('d, 'z) cfg_api_scheme \<Rightarrow> (jcfg_obj, fwd_info \<times> nat option list \<times> 'd) iterator
    \<Rightarrow> (jcfg_thd, fwd_info \<times> 'd) iterator \<Rightarrow> (string \<Rightarrow> (jcfg_umem list \<times> jcfg_lport list \<times> jcfg_thd list) option)
    \<Rightarrow> (nat \<Rightarrow> 'd \<Rightarrow> int \<times> 'd) \<Rightarrow> string \<Rightarrow> int \<Rightarrow> fwd_info \<Rightarrow> 'd
    \<Rightarrow> (int \<times> fwd_info \<times> nat option list \<times> 'd) option" where
  "parse_args api jcfg_process jcfg_thread_foreach jcfg_parser barrier_init configuration burst f0 d =
     (let f = f0\<lparr>fi_pkt_api := UNKNOWN_PKT_API, fi_burst := burst\<rparr> in
      case jcfg_parser configuration of
        None \<Rightarrow> Some (-1, f, [], d)
      | Some (us, ls, ts) \<Rightarrow>
          (let f1 = f\<lparr>umems := us, ports_cfg := ls, thds := ts\<rparr> in
           case barrier_init (length ts) d of (b, d1) \<Rightarrow>
             if b \<noteq> 0 then Some (-1, f1, [], d1)
             else do {
               (r, f2, args, d2) \<leftarrow> jcfg_process (process_callback api) (f1\<lparr>barrier_inited := True\<rparr>, replicate 32 None, d1);
               (if r \<noteq> 0 then do {
                  (_, f3, d3) \<leftarrow> jcfg_thread_foreach (cleanup api) (f2, d2);
                  Some (-1, f3, [], d3)
                }
                else if \<not> no_metrics (opts f2) then
                  (case start_metrics api d2 of (k, d3) \<Rightarrow> Some (if k \<noteq> 0 then -1 else 0, f2, args, d3))
                else Some (0, f2, args, d2))
             }))"

end
