(* ===== verification/XdpConfLaws.thy ===== *)
theory XdpConfLaws
  imports XdpConfig
begin

text \<open>
  What the configuration of the AF_XDP data path guarantees: the configuration written for the library
  is closed, every port has exactly one thread; the regions of a memory area tile it; and what the
  clean up does after a port whose region is missing.
\<close>

section \<open>Keys\<close>

lemma dec_no_colon: "CHR '':'' \<notin> set (dec n)"
  using dec_digits(1) [of n] by (auto simp: isdigit_def)

lemma dec_inject: "dec m = dec n \<longleftrightarrow> m = n"
  using dec_val [of m] dec_val [of n] by (metis of_nat_eq_iff)

lemma last_colon: "CHR '':'' \<notin> set u \<Longrightarrow> CHR '':'' \<notin> set v \<Longrightarrow>
    a @ '':'' @ u = b @ '':'' @ v \<Longrightarrow> a = b \<and> u = v"
proof -
  assume u: "CHR '':'' \<notin> set u" and v: "CHR '':'' \<notin> set v" and e: "a @ '':'' @ u = b @ '':'' @ v"
  have "rev u @ CHR '':'' # rev a = rev v @ CHR '':'' # rev b" using arg_cong [OF e, of rev] by simp
  moreover have "takeWhile (\<lambda>c. c \<noteq> CHR '':'') (rev w @ CHR '':'' # z) = rev w" if "CHR '':'' \<notin> set w" for w z
    using that by (subst takeWhile_append2) auto
  ultimately have "rev u = rev v" using u v by metis
  with e show ?thesis by simp
qed

lemma port_key_inject [simp]: "port_key a i = port_key b j \<longleftrightarrow> a = b \<and> i = j"
  unfolding port_key_def using last_colon [OF dec_no_colon dec_no_colon, of a i b j] dec_inject by auto

lemma thread_key_inject [simp]: "thread_key i = thread_key j \<longleftrightarrow> i = j"
  by (simp add: thread_key_def dec_inject)

lemma thread_key_main [simp]: "thread_key i \<noteq> ''main''" "''main'' \<noteq> thread_key i"
  by (simp_all add: thread_key_def)

lemma group_key_inject [simp]: "group_key i = group_key j \<longleftrightarrow> i = j"
  by (simp add: group_key_def dec_inject)

section \<open>The written configuration\<close>

text \<open>The queues of all devices in order, with their device and their number on it.\<close>

definition dev_queues :: "string \<times> lport_conf \<Rightarrow> (string \<times> nat \<times> lport_conf \<times> queue_conf) list" where
  "dev_queues dl = map (\<lambda>(i, q). (fst dl, i, snd dl, q)) (enumerate 0 (queues_info (snd dl)))"

definition all_queues :: "(string \<times> lport_conf) list \<Rightarrow> (string \<times> nat \<times> lport_conf \<times> queue_conf) list" where
  "all_queues dls = concat (map dev_queues dls)"

definition conf_of :: "cndp_conf \<Rightarrow> string \<times> nat \<times> lport_conf \<times> queue_conf \<Rightarrow> thread_conf" where
  "conf_of cf = (\<lambda>(dv, i, lp, q). fwd_thread_conf cf dv i q)"

definition key_of :: "string \<times> nat \<times> lport_conf \<times> queue_conf \<Rightarrow> string" where
  "key_of = (\<lambda>(dv, i, lp, q). port_key dv i)"

lemma dev_queues_nth: "j < length (queues_info lp) \<Longrightarrow> dev_queues (dv, lp) ! j = (dv, j, lp, queues_info lp ! j)"
  by (simp add: dev_queues_def nth_enumerate_eq)

lemma length_dev_queues [simp]: "length (dev_queues dl) = length (queues_info (snd dl))"
  by (simp add: dev_queues_def)

lemma all_queues_simps [simp]: "all_queues [] = []" "all_queues (d # ds) = dev_queues d @ all_queues ds"
  by (simp_all add: all_queues_def)

lemma thread_queues_law:
  "fst (thread_queues cf dv qs i (k, m)) = k + length qs \<and>
   (\<forall>j < length qs. snd (thread_queues cf dv qs i (k, m)) (thread_key (k + j)) = Some (fwd_thread_conf cf dv (i + j) (qs ! j))) \<and>
   (\<forall>x. x \<notin> thread_key ` {k..<k + length qs} \<longrightarrow> snd (thread_queues cf dv qs i (k, m)) x = m x)"
proof (induction qs arbitrary: i k m)
  case (Cons q qs)
  define m1 where "m1 = m(thread_key k \<mapsto> fwd_thread_conf cf dv i q)"
  have m1: "m1 (thread_key k) = Some (fwd_thread_conf cf dv i q)" "\<And>x. x \<noteq> thread_key k \<Longrightarrow> m1 x = m x" by (simp_all add: m1_def)
  note IH = Cons.IH [of "Suc i" "Suc k" m1]
  have "snd (thread_queues cf dv qs (Suc i) (Suc k, m1)) (thread_key (k + j)) = Some (fwd_thread_conf cf dv (i + j) ((q # qs) ! j))"
    if "j < length (q # qs)" for j
  proof (cases j)
    case 0
    have "thread_key k \<notin> thread_key ` {Suc k..<Suc k + length qs}" by (auto simp: image_iff)
    then show ?thesis using IH m1(1) 0 by simp
  next
    case (Suc j')
    then show ?thesis using IH that by simp
  qed
  moreover have "snd (thread_queues cf dv qs (Suc i) (Suc k, m1)) x = m x"
    if "x \<notin> thread_key ` {k..<k + length (q # qs)}" for x
  proof -
    have "x \<notin> thread_key ` {Suc k..<Suc k + length qs}" "x \<noteq> thread_key k" using that by auto
    then show ?thesis using IH m1(2) by simp
  qed
  ultimately show ?case using IH by (simp flip: m1_def)
qed simp

lemma thread_devs_law:
  "(\<forall>j < length (all_queues dls). snd (thread_devs cf dls (k, m)) (thread_key (k + j)) = Some (conf_of cf (all_queues dls ! j))) \<and>
   (\<forall>x. x \<notin> thread_key ` {k..<k + length (all_queues dls)} \<longrightarrow> snd (thread_devs cf dls (k, m)) x = m x)"
proof (induction dls arbitrary: k m)
  case (Cons dl dls)
  obtain dv lp where dl: "dl = (dv, lp)" by (cases dl)
  let ?n = "length (queues_info lp)"
  obtain k1 m1 where tq: "thread_queues cf dv (queues_info lp) 0 (k, m) = (k1, m1)" by fastforce
  then have k1: "k1 = k + ?n" and q1: "\<And>j. j < ?n \<Longrightarrow> m1 (thread_key (k + j)) = Some (fwd_thread_conf cf dv j (queues_info lp ! j))"
    and q2: "\<And>x. x \<notin> thread_key ` {k..<k + ?n} \<Longrightarrow> m1 x = m x"
    using thread_queues_law [of cf dv "queues_info lp" 0 k m] by auto
  have IH1: "\<And>j. j < length (all_queues dls) \<Longrightarrow> snd (thread_devs cf dls (k1, m1)) (thread_key (k1 + j)) = Some (conf_of cf (all_queues dls ! j))"
    and IH2: "\<And>x. x \<notin> thread_key ` {k1..<k1 + length (all_queues dls)} \<Longrightarrow> snd (thread_devs cf dls (k1, m1)) x = m1 x"
    using Cons.IH [of k1 m1] by auto
  have "snd (thread_devs cf dls (k1, m1)) (thread_key (k + j)) = Some (conf_of cf (all_queues (dl # dls) ! j))"
    if "j < length (all_queues (dl # dls))" for j
  proof (cases "j < ?n")
    case True
    then have "thread_key (k + j) \<notin> thread_key ` {k1..<k1 + length (all_queues dls)}" using k1 by (auto simp: image_iff)
    from IH2 [OF this] show ?thesis using q1 [OF True] True dl by (simp add: nth_append dev_queues_nth conf_of_def)
  next
    case False
    then have "k + j = k1 + (j - ?n)" "j - ?n < length (all_queues dls)" using k1 that dl by simp_all
    then show ?thesis using IH1 [of "j - ?n"] False dl by (simp add: nth_append)
  qed
  moreover have "snd (thread_devs cf dls (k1, m1)) x = m x"
    if "x \<notin> thread_key ` {k..<k + length (all_queues (dl # dls))}" for x
  proof -
    have "x \<notin> thread_key ` {k1..<k1 + length (all_queues dls)}" "x \<notin> thread_key ` {k..<k + ?n}" using that k1 dl by auto
    then show ?thesis using IH2 q2 by simp
  qed
  ultimately show ?case using dl tq by simp
qed simp

text \<open>The ports and the hardware addresses.\<close>

lemma lport_queues_law:
  "length (snd (lport_queues dv lp mac qs i (m, macs))) = length macs + length qs \<and>
   (\<forall>j < length qs. fst (lport_queues dv lp mac qs i (m, macs)) (port_key dv (i + j)) \<noteq> None) \<and>
   (\<forall>x. x \<notin> port_key dv ` {i..<i + length qs} \<longrightarrow> fst (lport_queues dv lp mac qs i (m, macs)) x = m x)"
proof (induction qs arbitrary: i m macs)
  case (Cons q qs)
  define m1 where "m1 = m(port_key dv i \<mapsto> lport_entry lp q)"
  have m1: "m1 (port_key dv i) \<noteq> None" "\<And>x. x \<noteq> port_key dv i \<Longrightarrow> m1 x = m x" by (simp_all add: m1_def)
  note IH = Cons.IH [of "Suc i" m1 "macs @ [mac]"]
  have "fst (lport_queues dv lp mac qs (Suc i) (m1, macs @ [mac])) (port_key dv (i + j)) \<noteq> None"
    if "j < length (q # qs)" for j
  proof (cases j)
    case 0
    have "port_key dv i \<notin> port_key dv ` {Suc i..<Suc i + length qs}" by auto
    then show ?thesis using IH m1(1) 0 by simp
  next
    case (Suc j')
    then show ?thesis using IH that by simp
  qed
  moreover have "fst (lport_queues dv lp mac qs (Suc i) (m1, macs @ [mac])) x = m x"
    if "x \<notin> port_key dv ` {i..<i + length (q # qs)}" for x
  proof -
    have "x \<notin> port_key dv ` {Suc i..<Suc i + length qs}" "x \<noteq> port_key dv i" using that by auto
    then show ?thesis using IH m1(2) by simp
  qed
  ultimately show ?case using IH by (simp flip: m1_def)
qed simp

lemma keys_of_dev: "key_of ` set (dev_queues (dv, lp)) = port_key dv ` {0..<length (queues_info lp)}"
  by (force simp: dev_queues_def key_of_def in_set_enumerate_eq image_iff)

lemma lport_devs_law:
  "length (snd (lport_devs mac dls (m, macs))) = length macs + length (all_queues dls) \<and>
   dom (fst (lport_devs mac dls (m, macs))) = dom m \<union> key_of ` set (all_queues dls)"
proof (induction dls arbitrary: m macs)
  case (Cons dl dls)
  obtain dv lp where dl: "dl = (dv, lp)" by (cases dl)
  obtain m1 macs1 where lq: "lport_queues dv lp (mac dv) (queues_info lp) 0 (m, macs) = (m1, macs1)" by fastforce
  have l: "length macs1 = length macs + length (queues_info lp)"
    and q1: "\<And>j. j < length (queues_info lp) \<Longrightarrow> m1 (port_key dv j) \<noteq> None"
    and q2: "\<And>x. x \<notin> port_key dv ` {0..<length (queues_info lp)} \<Longrightarrow> m1 x = m x"
    using lport_queues_law [of dv lp "mac dv" "queues_info lp" 0 m macs] lq by auto
  have "dom m1 = dom m \<union> port_key dv ` {0..<length (queues_info lp)}"
  proof (rule set_eqI)
    fix x
    show "x \<in> dom m1 \<longleftrightarrow> x \<in> dom m \<union> port_key dv ` {0..<length (queues_info lp)}"
      using q1 q2 [of x] by (cases "x \<in> port_key dv ` {0..<length (queues_info lp)}") (auto simp: dom_def)
  qed
  then show ?case using Cons.IH [of m1 macs1] dl lq l keys_of_dev [of dv lp] by (auto simp: image_Un)
qed simp

lemma group_queues_law:
  "group_queues qs g (group_key c) = (if c \<in> core_id ` set qs then Some [int c] else g (group_key c))"
  by (induction qs arbitrary: g) auto

lemma group_devs_law: "(dv, i, lp, q) \<in> set (all_queues dls) \<or> g (group_key (core_id q)) = Some [int (core_id q)] \<Longrightarrow>
    group_devs dls g (group_key (core_id q)) = Some [int (core_id q)]"
proof (induction dls arbitrary: g)
  case (Cons dl dls)
  obtain dv' lp' where dl: "dl = (dv', lp')" by (cases dl)
  have "(dv, i, lp, q) \<in> set (dev_queues dl) \<Longrightarrow> q \<in> set (queues_info lp')"
    using dl by (auto simp: dev_queues_def in_set_enumerate_eq)
  then show ?case using Cons.IH [of "group_queues (queues_info lp') g"] Cons.prems dl by (auto simp: group_queues_law)
qed simp

lemma key_of_dev: "p \<in> set (all_queues dls) \<Longrightarrow> \<exists>dv \<in> fst ` set dls. \<exists>i. key_of p = port_key dv i"
  by (induction dls) (auto simp: dev_queues_def key_of_def)

lemma keys_distinct: "distinct (map fst dls) \<Longrightarrow> distinct (map key_of (all_queues dls))"
proof (induction dls)
  case (Cons dl dls)
  obtain dv lp where dl: "dl = (dv, lp)" by (cases dl)
  have "map key_of (dev_queues dl) = map (port_key dv) [0..<length (queues_info lp)]"
    by (rule nth_equalityI) (simp_all add: dl dev_queues_nth key_of_def)
  then have "distinct (map key_of (dev_queues dl))" by (simp add: distinct_map inj_on_def)
  moreover have "key_of ` set (dev_queues dl) \<inter> key_of ` set (all_queues dls) = {}"
  proof (rule equals0I)
    fix x assume "x \<in> key_of ` set (dev_queues dl) \<inter> key_of ` set (all_queues dls)"
    then have "x \<in> port_key dv ` {0..<length (queues_info lp)}" "x \<in> key_of ` set (all_queues dls)"
      using keys_of_dev [of dv lp] dl by blast+
    then obtain i p where "x = port_key dv i" "p \<in> set (all_queues dls)" "x = key_of p" by blast
    with key_of_dev [of p dls] have "dv \<in> fst ` set dls" by auto
    with Cons.prems dl show False by simp
  qed
  ultimately show ?case using Cons by simp
qed simp

lemma threads_at:
  "k < length (all_queues (lports_of cf)) \<Longrightarrow>
    get_thread_template cf (thread_key k) = Some (conf_of cf (all_queues (lports_of cf) ! k))"
  using conjunct1 [OF thread_devs_law [of "lports_of cf" cf 0]] by (simp add: get_thread_template_def)

lemma threads_other:
  "x \<notin> thread_key ` {0..<length (all_queues (lports_of cf))} \<Longrightarrow> get_thread_template cf x =
    [''main'' \<mapsto> \<lparr>tc_group = ''initial'', tc_lports = [], tc_idle = None, tc_intr = None, tc_description = ''setup thread''\<rparr>] x"
  using conjunct2 [OF thread_devs_law [of "lports_of cf" cf 0]] by (simp add: get_thread_template_def)

lemma threads_dom: "dom (get_thread_template cf) = insert ''main'' (thread_key ` {0..<length (all_queues (lports_of cf))})"
proof (rule set_eqI)
  fix x
  let ?K = "thread_key ` {0..<length (all_queues (lports_of cf))}"
  show "x \<in> dom (get_thread_template cf) \<longleftrightarrow> x \<in> insert ''main'' ?K"
  proof (cases "x \<in> ?K")
    case True
    then obtain k where "x = thread_key k" "k < length (all_queues (lports_of cf))" by auto
    with threads_at [of k cf] show ?thesis by auto
  next
    case False
    with threads_other [OF False] show ?thesis by (auto simp: domIff)
  qed
qed

lemma conf_of_port: "tc_lports (conf_of cf p) = [key_of p]"
  by (simp add: conf_of_def key_of_def fwd_thread_conf_def split: prod.splits)

lemma conf_of_group:
  assumes "p \<in> set (all_queues (lports_of cf))"
  shows "\<exists>c. get_lcore_groups_template cf (tc_group (conf_of cf p)) = Some [c]"
proof -
  obtain dv i lp q where p: "p = (dv, i, lp, q)" by (metis prod_cases4)
  have "group_devs (lports_of cf) [''initial'' \<mapsto> [main_lcore cf]] (group_key (core_id q)) = Some [int (core_id q)]"
    by (rule group_devs_law [OF disjI1]) (rule assms [unfolded p])
  then show ?thesis unfolding p conf_of_def fwd_thread_conf_def get_lcore_groups_template_def by simp
qed

lemma one_thread:
  assumes "distinct (map fst (lports_of cf))" "lp \<in> key_of ` set (all_queues (lports_of cf))"
  shows "\<exists>!k. k < length (all_queues (lports_of cf)) \<and>
    (\<exists>th. get_thread_template cf (thread_key k) = Some th \<and> tc_lports th = [lp])"
proof -
  let ?Q = "all_queues (lports_of cf)"
  obtain k where k: "k < length ?Q" "lp = key_of (?Q ! k)" using assms(2) by (auto simp: in_set_conv_nth)
  show ?thesis
  proof (rule ex1I [of _ k])
    show "k < length ?Q \<and> (\<exists>th. get_thread_template cf (thread_key k) = Some th \<and> tc_lports th = [lp])"
      using k threads_at [OF k(1)] conf_of_port by simp
  next
    fix j assume j: "j < length ?Q \<and> (\<exists>th. get_thread_template cf (thread_key j) = Some th \<and> tc_lports th = [lp])"
    then have "key_of (?Q ! j) = key_of (?Q ! k)" using threads_at [of j cf] conf_of_port k(2) by simp
    then show "j = k" using nth_eq_iff_index_eq [OF keys_distinct [OF assms(1)], of j k] j k(1) by simp
  qed
qed

text \<open>
  C7: the configuration written for the library is closed.  There is one forwarding thread for every
  queue of every device and the main thread, and no other; every forwarding thread names one port of
  the configuration and a group of exactly one core, which the configuration has; every port of the
  configuration is the port of exactly one thread; and there is a hardware address for every port.
\<close>

theorem configuration_closed:
  assumes "distinct (map fst (lports_of cf))" "get_lport_template mac cf = (lps, macs)"
    "threads = get_thread_template cf" "N = length (all_queues (lports_of cf))"
  shows "dom threads = insert ''main'' (thread_key ` {0..<N}) \<and>
    (\<forall>k < N. \<exists>th lp c. threads (thread_key k) = Some th \<and> tc_lports th = [lp] \<and> lp \<in> dom lps \<and>
       get_lcore_groups_template cf (tc_group th) = Some [c]) \<and>
    (\<forall>lp \<in> dom lps. \<exists>!k. k < N \<and> (\<exists>th. threads (thread_key k) = Some th \<and> tc_lports th = [lp])) \<and>
    length macs = N \<and> card (dom lps) = N"
proof -
  let ?Q = "all_queues (lports_of cf)"
  have dl: "length macs = N" "dom lps = key_of ` set ?Q"
    using lport_devs_law [of mac "lports_of cf" Map.empty "[]"] assms(2,4) by (simp_all add: get_lport_template_def)
  have "\<exists>th lp c. threads (thread_key k) = Some th \<and> tc_lports th = [lp] \<and> lp \<in> dom lps \<and>
      get_lcore_groups_template cf (tc_group th) = Some [c]" if k: "k < N" for k
  proof -
    have m: "?Q ! k \<in> set ?Q" using k assms(4) by simp
    obtain c where "get_lcore_groups_template cf (tc_group (conf_of cf (?Q ! k))) = Some [c]" using conf_of_group [OF m] by blast
    moreover have "key_of (?Q ! k) \<in> dom lps" unfolding dl(2) by (rule imageI [OF m])
    ultimately show ?thesis using threads_at [of k cf] k assms(3,4) conf_of_port by blast
  qed
  moreover have "\<forall>lp \<in> dom lps. \<exists>!k. k < N \<and> (\<exists>th. threads (thread_key k) = Some th \<and> tc_lports th = [lp])"
    unfolding dl(2) assms(3,4) using one_thread [OF assms(1)] by (rule ballI)
  moreover have "card (dom lps) = N"
    using distinct_card [OF keys_distinct [OF assms(1)]] dl(2) assms(4) by simp
  ultimately show ?thesis using dl(1) threads_dom [of cf] assms(3,4) by simp
qed

section \<open>Memory areas\<close>

lemma make_regions_law:
  "make_regions api nm bufsz cache i ris addr d = (0, ris', d') \<Longrightarrow>
    length ris' = length ris \<and> (\<forall>j < length ris. ri_pool (ris' ! j) \<noteq> 0 \<and> ri_bufcnt (ris' ! j) = ri_bufcnt (ris ! j) \<and>
      ri_addr (ris' ! j) = addr + sum_list (map (\<lambda>r. ucast (ri_bufcnt r * bufsz)) (take j ris)))"
proof (induction ris arbitrary: i addr d ris' d')
  case (Cons r ris)
  obtain h d1 where h: "pktmbuf_pool_create api addr (ri_bufcnt r) bufsz cache d = (h, d1)" by fastforce
  obtain k rs d2 where m: "make_regions api nm bufsz cache (Suc i) ris (addr + ucast (ri_bufcnt r * bufsz))
      (pktmbuf_info_name_set api h (nm @ ''-'' @ dec i) d1) = (k, rs, d2)" by (metis prod_cases3)
  have e: "h \<noteq> 0" "k = 0" "ris' = r\<lparr>ri_addr := addr, ri_pool := h\<rparr> # rs" using Cons.prems h m by (auto split: if_splits)
  note IH = Cons.IH [OF m [unfolded e(2)]]
  have "ri_pool (ris' ! j) \<noteq> 0 \<and> ri_bufcnt (ris' ! j) = ri_bufcnt ((r # ris) ! j) \<and>
      ri_addr (ris' ! j) = addr + sum_list (map (\<lambda>r. ucast (ri_bufcnt r * bufsz)) (take j (r # ris)))"
    if "j < length (r # ris)" for j
    using IH that e by (cases j) (auto simp: add.assoc)
  then show ?case using IH e(3) by simp
qed simp

text \<open>The cleared memory with its number set to minus one is not a null pointer.\<close>

lemma new_port_pointer: "fp_xsk new_port = 0xFFFFFFFF" "fp_lport new_port = -1"
  by code_simp+

text \<open>The bytes of the first regions, as numbers.\<close>

definition span :: "u32 \<Rightarrow> region_info list \<Rightarrow> nat" where
  "span bufsz ris = sum_list (map (\<lambda>r. unat (ri_bufcnt r) * unat bufsz) ris)"

lemma span_simps [simp]: "span b [] = 0" "span b (r # ris) = unat (ri_bufcnt r) * unat b + span b ris"
  "span b (xs @ ys) = span b xs + span b ys"
  by (simp_all add: span_def)

lemma span_take_le: "span b (take j ris) \<le> span b ris"
  by (metis append_take_drop_id le_add1 span_simps(3))

lemma region_bytes:
  assumes "span bufsz ris < 2 ^ 32"
  shows "unat (sum_list (map (\<lambda>r. ucast (ri_bufcnt r * bufsz) :: u64) ris)) = span bufsz ris"
  using assms
proof (induction ris)
  case (Cons r ris)
  have p: "unat (ri_bufcnt r) * unat bufsz < 2 ^ 32" "span bufsz ris < 2 ^ 32" using Cons.prems by simp_all
  then have "unat (ri_bufcnt r * bufsz) = unat (ri_bufcnt r) * unat bufsz" by (simp add: unat_word_ariths)
  moreover have "unat (ri_bufcnt r * bufsz) < 2 ^ 64" using unsigned_less [of "ri_bufcnt r * bufsz", where 'a = nat] by simp
  then have "unat (ucast (ri_bufcnt r * bufsz) :: u64) = unat (ri_bufcnt r * bufsz)" by (simp add: unsigned_ucast_eq take_bit_nat_eq_self)
  ultimately have a: "unat (ucast (ri_bufcnt r * bufsz) :: u64) = unat (ri_bufcnt r) * unat bufsz" by simp
  then show ?case using Cons.IH [OF p(2)] Cons.prems by (simp add: unat_word_ariths)
qed simp

lemma count_no_wrap:
  assumes "sum_list (map (\<lambda>r. unat (ri_bufcnt r)) ris) < 2 ^ 32"
  shows "unat (sum_list (map ri_bufcnt ris)) = sum_list (map (\<lambda>r. unat (ri_bufcnt r)) ris)"
  using assms by (induction ris) (simp_all add: unat_word_ariths)

lemma span_count: "span b ris = sum_list (map (\<lambda>r. unat (ri_bufcnt r)) ris) * unat b"
  by (induction ris) (simp_all add: add_mult_distrib)

text \<open>
  C33: a memory area of less than four gigabytes that is accepted is tiled by its regions: the area has
  memory, every region has a pool, regions follow each other without overlap in their order, the first
  one starts where the area starts, and together they have exactly the buffers of the area.
\<close>

theorem umem_regions_tile:
  assumes "process_umem api u f d = Some (0, f', d')" "um = umems f ! u" "um' = umems f' ! u" "0 < um_bufsz um"
    "span (um_bufsz um) (rinfo um) < 2 ^ 32" "unat (mmap_addr api (um_mm um')) + span (um_bufsz um) (rinfo um) < 2 ^ 64"
  shows "um_mm um' \<noteq> 0 \<and> length (rinfo um') = length (rinfo um) \<and>
    span (um_bufsz um) (rinfo um) = unat (um_bufcnt um) * unat (um_bufsz um) \<and>
    (\<forall>j < length (rinfo um'). ri_pool (rinfo um' ! j) \<noteq> 0 \<and>
       unat (ri_addr (rinfo um' ! j)) = unat (mmap_addr api (um_mm um')) + span (um_bufsz um) (take j (rinfo um)))"
proof -
  have u: "u < length (umems f)" using assms(1) by (auto simp: process_umem_def elem_at_def split: if_splits)
  obtain mm d1 where mm: "mmap_alloc api (um_bufcnt um) (um_bufsz um) (um_mtype um) d = (mm, d1)" by fastforce
  let ?c = "case default_cache api of None \<Rightarrow> MEMPOOL_CACHE_MAX_SIZE api | Some c \<Rightarrow> c"
  obtain r ris d2 where mk: "make_regions api (um_name um) (um_bufsz um) ?c 0 (rinfo um) (mmap_addr api mm) d1 = (r, ris, d2)"
    by (metis prod_cases3)
  have e: "sum_list (map ri_bufcnt (rinfo um)) = um_bufcnt um" "mm \<noteq> 0" "r = 0" "um' = um\<lparr>um_mm := mm, rinfo := ris\<rparr>"
    using assms(1,3) u mm mk unfolding process_umem_def elem_at_def assms(2) [symmetric]
    by (auto simp: Let_def split: if_splits)
  note law = make_regions_law [OF mk [unfolded e(3)]]
  have "sum_list (map (\<lambda>r. unat (ri_bufcnt r)) (rinfo um)) * 1 \<le> span (um_bufsz um) (rinfo um)"
    unfolding span_count using assms(4) by (intro mult_le_mono2) (simp add: word_less_nat_alt)
  then have "unat (um_bufcnt um) = sum_list (map (\<lambda>r. unat (ri_bufcnt r)) (rinfo um))"
    using count_no_wrap [of "rinfo um"] e(1) assms(5) by simp
  then have cnt: "span (um_bufsz um) (rinfo um) = unat (um_bufcnt um) * unat (um_bufsz um)" by (simp add: span_count)
  have "unat (ri_addr (ris ! j)) = unat (mmap_addr api mm) + span (um_bufsz um) (take j (rinfo um))"
    if "j < length (rinfo um)" for j
  proof -
    have s: "span (um_bufsz um) (take j (rinfo um)) \<le> span (um_bufsz um) (rinfo um)" by (rule span_take_le)
    then have "unat (sum_list (map (\<lambda>r. ucast (ri_bufcnt r * um_bufsz um) :: u64) (take j (rinfo um)))) =
        span (um_bufsz um) (take j (rinfo um))" using region_bytes [of "um_bufsz um" "take j (rinfo um)"] assms(5) by simp
    moreover have "unat (mmap_addr api mm) + span (um_bufsz um) (take j (rinfo um)) < 2 ^ 64" using s assms(6) e(4) by simp
    ultimately show ?thesis using law that by (simp add: unat_word_ariths)
  qed
  then show ?thesis using law e(2,4) cnt by simp
qed

section \<open>Clean up after a failed port\<close>

text \<open>
  C37: a port whose region is not configured is refused, and the clean up then destroys a socket that
  was never made: the number of the port was set to minus one in the union it shares with the pointer
  to the socket, which is therefore not null.
\<close>

theorem cleanup_bad_pointer:
  assumes "elem_at (ports_cfg f) l = Some lp" "lp_umem lp = Some u" "elem_at (umems f) u = Some um" "fst (calloc api 1 d)"
    "fst (jcfg_lport_region api (umems f) lp) = 0" "fi_pkt_api f = XSKDEV_PKT_API"
  shows "\<exists>f1 d1 f2 d2. process_lport api l f d = Some (-1, f1, d1) \<and> d1 = snd (calloc api 1 d) \<and>
    cleanup_lport api l f1 d1 = Some (f2, free_mem api (xskdev_socket_destroy api 0xFFFFFFFF d2))"
proof -
  obtain d1 where c: "calloc api 1 d = (True, d1)" using assms(4) by (cases "calloc api 1 d") auto
  obtain n where r: "jcfg_lport_region api (umems f) lp = (0, n)" using assms(5) by (cases "jcfg_lport_region api (umems f) lp") auto
  have l: "l < length (ports_cfg f)" using assms(1) by (simp add: elem_at_Some)
  let ?f = "f\<lparr>ports_cfg := (ports_cfg f)[l := lp\<lparr>lp_priv := Some new_port\<rparr>]\<rparr>"
  have "process_lport api l f d = Some (-1, ?f, d1)" using assms(1-3) c r by (simp add: process_lport_def Let_def)
  moreover have "close_port_dev api XSKDEV_PKT_API new_port d' = xskdev_socket_destroy api 0xFFFFFFFF d'" for d'
    by (simp add: close_port_dev_def new_port_pointer)
  then have "\<exists>f2 d2. cleanup_lport api l ?f d1 = Some (f2, free_mem api (xskdev_socket_destroy api 0xFFFFFFFF d2))"
    using assms(2,3,6) l by (auto simp: cleanup_lport_def elem_at_def split: prod.splits if_splits)
  ultimately show ?thesis using c by auto
qed

end
