(* ===== verification/XdpControl.thy ===== *)
theory XdpControl
  imports XdpConfLaws
begin

text \<open>
  The commands that pause and resume forwarding threads from outside (\<^verbatim>\<open>pause_thread\<close> and
  \<^verbatim>\<open>fwd_thread_ctl\<close> of \<^verbatim>\<open>stats.cpp\<close>), with the text they answer.  A thread that is paused passes over its
  ports in its loop until it is resumed.
\<close>

definition quote :: "string \<Rightarrow> string" where
  "quote s = [CHR 0x22] @ s @ [CHR 0x22]"

record thread_arg =
  ta_out :: string
  ta_pause :: bool
  ta_first :: bool

definition pause_thread :: "nat \<Rightarrow> nat \<Rightarrow> thread_arg \<times> fwd_info \<Rightarrow> (int \<times> thread_arg \<times> fwd_info) option" where
  "pause_thread t idx st =
     (case st of (ta, fi) \<Rightarrow> do {
        thd \<leftarrow> elem_at (thds fi) t;
        (if strcasecmp_eq (thread_type thd) ''main'' then Some (0, ta, fi)
         else Some (0,
           ta\<lparr>ta_first := False,
              ta_out := ta_out ta @ (if ta_first ta then [] else '','') @ ''{'' @ quote ''name'' @ '':'' @ quote (th_name thd) @ '','' @
                quote ''status'' @ '':'' @ quote (if ta_pause ta then ''paused'' else ''running'') @ ''}''\<rparr>,
           fi\<lparr>thds := (thds fi)[t := thd\<lparr>th_pause := ta_pause ta\<rparr>]\<rparr>))
      })"

definition fwd_thread_ctl ::
  "(nat, thread_arg \<times> fwd_info) iterator \<Rightarrow> (string \<Rightarrow> nat option) \<Rightarrow> string \<Rightarrow> string option \<Rightarrow> fwd_info
    \<Rightarrow> (int \<times> string \<times> fwd_info) option" where
  "fwd_thread_ctl jcfg_thread_foreach jcfg_lookup_thread cmd params fi =
     (case params of
        None \<Rightarrow> Some (0, quote ''error'' @ '':'' @ quote (''Command requires thread name (or '' @ [CHR 0x27] @ ''all'' @ [CHR 0x27] @ '') as a parameter''), fi)
      | Some p \<Rightarrow>
          if \<not> strcasecmp_eq cmd ''/start'' \<and> \<not> strcasecmp_eq cmd ''/stop''
          then Some (0, quote ''error'' @ '':'' @ quote ''Invalid command'', fi)
          else (let ta = \<lparr>ta_out = quote ''threads'' @ '':['', ta_pause = \<not> strcasecmp_eq cmd ''/start'', ta_first = True\<rparr> in
            if strcasecmp_eq p ''all''
            then map_option (\<lambda>(r, ta1, fi1). (r, ta_out ta1 @ '']'', fi1)) (jcfg_thread_foreach pause_thread (ta, fi))
            else (case jcfg_lookup_thread p of
                    Some t \<Rightarrow> map_option (\<lambda>(r, ta1, fi1). (r, ta_out ta1 @ '']'', fi1)) (pause_thread t 0 (ta, fi))
                  | None \<Rightarrow> Some (0, quote ''error'' @ '':'' @ quote (''Thread '' @ [CHR 0x27] @ p @ [CHR 0x27] @ '' not found''), fi))))"

text \<open>The flag of every forwarding thread of a set of positions, and nothing else.\<close>

definition with_pause :: "bool \<Rightarrow> nat set \<Rightarrow> jcfg_thd list \<Rightarrow> jcfg_thd list" where
  "with_pause b T ts = map (\<lambda>(i, thd). if i \<in> T \<and> \<not> strcasecmp_eq (thread_type thd) ''main'' then thd\<lparr>th_pause := b\<rparr> else thd) (enumerate 0 ts)"

lemma with_pause_nth: "i < length ts \<Longrightarrow> with_pause b T ts ! i =
    (if i \<in> T \<and> \<not> strcasecmp_eq (thread_type (ts ! i)) ''main'' then (ts ! i)\<lparr>th_pause := b\<rparr> else ts ! i)"
  by (simp add: with_pause_def nth_enumerate_eq)

lemma length_with_pause [simp]: "length (with_pause b T ts) = length ts"
  by (simp add: with_pause_def)

lemma each_pause:
  "k + n = length (thds fi) \<Longrightarrow>
    \<exists>ta'. each pause_thread j [k..<k + n] (ta, fi) = Some (0, ta', fi\<lparr>thds := with_pause (ta_pause ta) {k..<k + n} (thds fi)\<rparr>)"
proof (induction n arbitrary: k j ta fi)
  case 0
  have "with_pause (ta_pause ta) {} (thds fi) = thds fi" by (rule nth_equalityI) (simp_all add: with_pause_nth)
  then show ?case by simp
next
  case (Suc n)
  have k: "k < length (thds fi)" using Suc.prems by simp
  obtain ta1 ts1 where s: "pause_thread k j (ta, fi) = Some (0, ta1, fi\<lparr>thds := ts1\<rparr>)" "ta_pause ta1 = ta_pause ta"
    "ts1 = with_pause (ta_pause ta) {k} (thds fi)"
  proof (cases "strcasecmp_eq (thread_type (thds fi ! k)) ''main''")
    case True
    have "with_pause (ta_pause ta) {k} (thds fi) = thds fi"
      using True by (intro nth_equalityI) (auto simp: with_pause_nth)
    then show ?thesis using that [of ta "thds fi"] True k by (simp add: pause_thread_def elem_at_def)
  next
    case False
    have "with_pause (ta_pause ta) {k} (thds fi) = (thds fi)[k := (thds fi ! k)\<lparr>th_pause := ta_pause ta\<rparr>]"
      using False k by (intro nth_equalityI) (auto simp: with_pause_nth nth_list_update)
    then show ?thesis using that False k by (simp add: pause_thread_def elem_at_def)
  qed
  have len: "Suc k + n = length (thds (fi\<lparr>thds := ts1\<rparr>))" using Suc.prems s(3) by simp
  have "with_pause (ta_pause ta) {Suc k..<Suc k + n} ts1 = with_pause (ta_pause ta) {k..<k + Suc n} (thds fi)"
    unfolding s(3) using Suc.prems by (intro nth_equalityI) (auto simp: with_pause_nth)
  moreover have "[k..<k + Suc n] = k # [Suc k..<Suc k + n]" by (simp add: upt_rec)
  ultimately show ?case using Suc.IH [OF len, of "Suc j" ta1] s by auto
qed

text \<open>
  A command for all threads sets the flag of every forwarding thread, to paused for stop and to
  running for start, and changes neither the main thread nor anything else; so a stop followed by a
  start lets all of them run.
\<close>

theorem thread_ctl_all:
  assumes "iterates it [0..<length (thds fi)]" "strcasecmp_eq cmd ''/start'' \<or> strcasecmp_eq cmd ''/stop''" "strcasecmp_eq p ''all''"
  shows "\<exists>out. fwd_thread_ctl it look cmd (Some p) fi =
    Some (0, out, fi\<lparr>thds := with_pause (\<not> strcasecmp_eq cmd ''/start'') {0..<length (thds fi)} (thds fi)\<rparr>)"
proof -
  let ?ta = "\<lparr>ta_out = quote ''threads'' @ '':['', ta_pause = \<not> strcasecmp_eq cmd ''/start'', ta_first = True\<rparr>"
  obtain ta' where "each pause_thread 0 [0..<length (thds fi)] (?ta, fi) =
      Some (0, ta', fi\<lparr>thds := with_pause (\<not> strcasecmp_eq cmd ''/start'') {0..<length (thds fi)} (thds fi)\<rparr>)"
    using each_pause [of 0 "length (thds fi)" fi 0 ?ta] by auto
  then show ?thesis using assms by (auto simp: fwd_thread_ctl_def iterates_def Let_def)
qed

end
