(* ===== verification/AppConfig.thy ===== *)
theory AppConfig
  imports CString
begin

text \<open>
  The configuration file of the data plane (\<^verbatim>\<open>load_and_parse_config_file\<close> of \<^verbatim>\<open>core.cpp\<close>) and the lists
  of numbers and ranges in it, which also name the cores of the workers (\<^verbatim>\<open>setup_worker_threads\<close> of
  \<^verbatim>\<open>cndp.cpp\<close>).  The file is the value the JSON library read; an exception of the library or of a
  conversion, which nothing catches, and an overflow are \<open>None\<close>.
\<close>

section \<open>Values\<close>

datatype jval = JNull | JBool bool | JInt int | JStr string | JArr "jval list" | JObj "(string \<times> jval) list"

text \<open>The members of an object; a member that is not there reads as null.\<close>

fun is_member :: "jval \<Rightarrow> string \<Rightarrow> bool" where
  "is_member (JObj ms) k = (k \<in> fst ` set ms)"
| "is_member v k = False"

fun member_of :: "jval \<Rightarrow> string \<Rightarrow> jval" where
  "member_of (JObj ms) k = (case map_of ms k of None \<Rightarrow> JNull | Some v \<Rightarrow> v)"
| "member_of v k = JNull"

fun as_bool :: "jval \<Rightarrow> bool option" where
  "as_bool JNull = Some False"
| "as_bool (JBool b) = Some b"
| "as_bool (JInt n) = Some (n \<noteq> 0)"
| "as_bool v = None"

abbreviation INT_MAX :: int where "INT_MAX \<equiv> 2147483647"

fun as_int :: "jval \<Rightarrow> int option" where
  "as_int JNull = Some 0"
| "as_int (JBool b) = Some (if b then 1 else 0)"
| "as_int (JInt n) = (if - INT_MAX - 1 \<le> n \<and> n \<le> INT_MAX then Some n else None)"
| "as_int v = None"

definition is_int64 :: "int \<Rightarrow> bool" where
  "is_int64 n \<longleftrightarrow> - LONG_MAX - 1 \<le> n \<and> n \<le> LONG_MAX"

section \<open>Numbers and ranges\<close>

text \<open>\<^verbatim>\<open>std::stoi\<close>: without a number, or with one that is not an \<^verbatim>\<open>int\<close>, it throws.\<close>

definition stoi :: "string \<Rightarrow> int option" where
  "stoi s = (case strtol s of (v, rest, out_of_range) \<Rightarrow>
     if rest = s \<or> out_of_range \<or> v < - INT_MAX - 1 \<or> v > INT_MAX then None else Some v)"

text \<open>
  A range is cut at its first dash; without a dash the position is minus one and the text before it
  cannot be made.  A range up to the largest number has no end.
\<close>

definition expand_range :: "string \<Rightarrow> int list option" where
  "expand_range s =
     (if CHR ''-'' \<in> set s then do {
        a \<leftarrow> stoi (takeWhile (\<lambda>c. c \<noteq> CHR ''-'') s);
        b \<leftarrow> stoi (tl (dropWhile (\<lambda>c. c \<noteq> CHR ''-'') s));
        (if a \<le> b \<and> b = INT_MAX then None else Some [a..b])
      }
      else None)"

fun fastpath_items :: "jval list \<Rightarrow> int list \<Rightarrow> int list option" where
  "fastpath_items [] acc = Some acc"
| "fastpath_items (JInt n # vs) acc = (if is_int64 n then fastpath_items vs (acc @ [to_int n]) else None)"
| "fastpath_items (JStr s # vs) acc = do { r \<leftarrow> expand_range s; fastpath_items vs (acc @ r) }"
| "fastpath_items (v # vs) acc = None"

text \<open>The cores of the workers: other elements are passed over.\<close>

fun worker_core_items :: "jval list \<Rightarrow> int list \<Rightarrow> int list option" where
  "worker_core_items [] acc = Some acc"
| "worker_core_items (JInt n # vs) acc =
     (if n < - INT_MAX - 1 \<or> n > INT_MAX then worker_core_items vs acc
      else if n < 0 then None else worker_core_items vs (acc @ [n]))"
| "worker_core_items (JStr s # vs) acc = do { r \<leftarrow> expand_range s; worker_core_items vs (acc @ r) }"
| "worker_core_items (v # vs) acc = worker_core_items vs acc"

section \<open>The file\<close>

abbreviation ERROR_EXIT :: int where "ERROR_EXIT \<equiv> -1"
abbreviation API_VALUE_DPDK :: int where "API_VALUE_DPDK \<equiv> 10"
abbreviation API_VALUE_CNDP :: int where "API_VALUE_CNDP \<equiv> 20"
abbreviation MODEL_VALUE_RUN_TO_COMPLETION :: int where "MODEL_VALUE_RUN_TO_COMPLETION \<equiv> 10"
abbreviation MODEL_VALUE_MASTER_WORKER :: int where "MODEL_VALUE_MASTER_WORKER \<equiv> 20"

record mgr =
  mg_api :: int
  mg_model :: int
  worker_configuration :: jval
  datapath_configuration :: jval
  mg_create_tap :: bool
  mg_num_queues_tap :: int
  mg_cloud_deployment :: bool
  mg_filtering :: bool
  mg_ports :: "int list"

text \<open>The sections of the function, in order; a code other than zero ends it.\<close>

definition load_tap :: "jval \<Rightarrow> mgr \<Rightarrow> mgr option" where
  "load_tap c m = do {
     m1 \<leftarrow> (if is_member c ''create-tap-device''
            then map_option (\<lambda>b. m\<lparr>mg_create_tap := b\<rparr>) (as_bool (member_of c ''create-tap-device'')) else Some m);
     (if is_member c ''tap-device-num-queues''
      then map_option (\<lambda>n. m1\<lparr>mg_num_queues_tap := n\<rparr>) (as_int (member_of c ''tap-device-num-queues'')) else Some m1)
   }"

definition load_api :: "jval \<Rightarrow> string \<Rightarrow> mgr \<Rightarrow> int \<times> mgr" where
  "load_api c api m =
     (if api = ''cndp'' then
        (if \<not> is_member c ''cndp-datapath-params'' then (ERROR_EXIT, m)
         else (0, m\<lparr>mg_api := API_VALUE_CNDP, datapath_configuration := member_of c ''cndp-datapath-params''\<rparr>))
      else if api = ''dpdk'' then
        (if \<not> is_member c ''dpdk-datapath-params'' then (ERROR_EXIT, m)
         else (0, m\<lparr>mg_api := API_VALUE_DPDK, datapath_configuration := member_of c ''dpdk-datapath-params''\<rparr>))
      else (ERROR_EXIT, m))"

definition load_model :: "jval \<Rightarrow> string \<Rightarrow> mgr \<Rightarrow> int \<times> mgr" where
  "load_model c model m =
     (if model = ''master-worker'' then
        (if \<not> is_member c ''workers-configuration'' then (ERROR_EXIT, m)
         else (0, m\<lparr>mg_model := MODEL_VALUE_MASTER_WORKER, worker_configuration := member_of c ''workers-configuration''\<rparr>))
      else if model = ''run-to-completion'' then (0, m\<lparr>mg_model := MODEL_VALUE_RUN_TO_COMPLETION\<rparr>)
      else (ERROR_EXIT, m))"

definition load_ports :: "jval \<Rightarrow> mgr \<Rightarrow> (int \<times> mgr) option" where
  "load_ports c m =
     (if is_member c ''fastpath-port-configuration'' then
        (let p = member_of c ''fastpath-port-configuration'' in
         case member_of p ''fastpath-ports'' of
           JArr items \<Rightarrow> do {
             b \<leftarrow> as_bool (member_of p ''fastpath-filtering'');
             ports \<leftarrow> fastpath_items items [];
             Some (0, m\<lparr>mg_filtering := b, mg_ports := mg_ports m @ ports\<rparr>)
           }
         | _ \<Rightarrow> Some (ERROR_EXIT, m))
      else Some (0, m))"

definition load_and_parse_config_file :: "jval \<Rightarrow> mgr \<Rightarrow> (int \<times> mgr) option" where
  "load_and_parse_config_file c m =
     (case (member_of c ''API'', member_of c ''MODEL'') of
        (JStr api, JStr model) \<Rightarrow> do {
          m1 \<leftarrow> load_tap c m;
          (case load_api c api m1 of (r, m2) \<Rightarrow>
            if r \<noteq> 0 then Some (r, m2)
            else (case load_model c model m2 of (r2, m3) \<Rightarrow>
              if r2 \<noteq> 0 then Some (r2, m3)
              else do {
                m4 \<leftarrow> (if is_member c ''cloud-deployment''
                       then map_option (\<lambda>b. m3\<lparr>mg_cloud_deployment := b\<rparr>) (as_bool (member_of c ''cloud-deployment'')) else Some m3);
                load_ports c m4
              }))
        }
      | _ \<Rightarrow> Some (ERROR_EXIT, m))"

section \<open>Ranges are read back\<close>

datatype port_item = Number int | Range nat nat

fun print_item :: "port_item \<Rightarrow> jval" where
  "print_item (Number n) = JInt n"
| "print_item (Range a b) = JStr (dec a @ ''-'' @ dec b)"

fun item_numbers :: "port_item \<Rightarrow> int list" where
  "item_numbers (Number n) = [n]"
| "item_numbers (Range a b) = [int a..int b]"

definition port_item_ok :: "port_item \<Rightarrow> bool" where
  "port_item_ok i = (case i of Number n \<Rightarrow> - INT_MAX - 1 \<le> n \<and> n \<le> INT_MAX | Range a b \<Rightarrow> int a \<le> INT_MAX \<and> int b < INT_MAX)"

lemma stoi_dec: "int n \<le> INT_MAX \<Longrightarrow> stoi (dec n) = Some (int n)"
  using strtol_dec [of n "[]"] dec_digits(2) [of n] by (simp add: stoi_def)

lemma expand_range_dec:
  assumes "int a \<le> INT_MAX" "int b < INT_MAX"
  shows "expand_range (dec a @ ''-'' @ dec b) = Some [int a..int b]"
proof -
  have d: "CHR ''-'' \<notin> set (dec a)" using dec_digits(1) [of a] by (auto simp: isdigit_def)
  then have "takeWhile (\<lambda>c. c \<noteq> CHR ''-'') (dec a @ ''-'' @ dec b) = dec a"
    "dropWhile (\<lambda>c. c \<noteq> CHR ''-'') (dec a @ ''-'' @ dec b) = ''-'' @ dec b"
    by (subst takeWhile_append2 dropWhile_append2; auto)+
  with assms show ?thesis by (simp add: expand_range_def stoi_dec)
qed

lemma to_int_id: "- INT_MAX - 1 \<le> n \<Longrightarrow> n \<le> INT_MAX \<Longrightarrow> to_int n = n \<and> is_int64 n"
  by (simp add: to_int_def signed_take_bit_int_eq_self is_int64_def)

lemma fastpath_items_print:
  "list_all port_item_ok is \<Longrightarrow> fastpath_items (map print_item is) acc = Some (acc @ concat (map item_numbers is))"
proof (induction "is" arbitrary: acc)
  case (Cons i "is")
  then show ?case by (cases i) (simp_all add: port_item_ok_def to_int_id expand_range_dec [simplified])
qed simp

lemma worker_core_items_print:
  "list_all port_item_ok is \<Longrightarrow> \<forall>n. Number n \<in> set is \<longrightarrow> 0 \<le> n \<Longrightarrow>
    worker_core_items (map print_item is) acc = Some (acc @ concat (map item_numbers is))"
proof (induction "is" arbitrary: acc)
  case (Cons i "is")
  then show ?case by (cases i) (auto simp: port_item_ok_def expand_range_dec [simplified])
qed simp

lemma load_tap_keeps: "load_tap c m = Some m1 \<Longrightarrow> mg_ports m1 = mg_ports m"
  by (auto simp: load_tap_def bind_eq_Some_conv split: if_splits)

lemma load_api_cases: "load_api c api m = (r, m1) \<Longrightarrow> mg_ports m1 = mg_ports m \<and>
    (r = 0 \<longrightarrow> api = ''cndp'' \<and> mg_api m1 = API_VALUE_CNDP \<or> api = ''dpdk'' \<and> mg_api m1 = API_VALUE_DPDK)"
  by (auto simp: load_api_def split: if_splits)

lemma load_model_cases: "load_model c model m = (r, m1) \<Longrightarrow> mg_ports m1 = mg_ports m \<and> mg_api m1 = mg_api m \<and>
    (r = 0 \<longrightarrow> model = ''master-worker'' \<and> mg_model m1 = MODEL_VALUE_MASTER_WORKER \<or>
       model = ''run-to-completion'' \<and> mg_model m1 = MODEL_VALUE_RUN_TO_COMPLETION)"
  by (auto simp: load_model_def split: if_splits)


end
