(* ===== verification/XdpWitnesses.thy ===== *)
theory XdpWitnesses
  imports XdpControl AppConfig
begin

text \<open>
  A simulated AF_XDP library with two ports and two transmit buffers, on which the properties of this
  data path are applied: every receive call delivers an ARP request for another address and a frame
  of another kind, what is sent goes to a list.
\<close>

section \<open>The library\<close>

record xsim =
  xsim_queue :: "handle \<Rightarrow> u8 list list"
  xsim_wire :: "u8 list list"
  xsim_tap :: "u8 list list"
  xsim_held :: "handle set"
  xsim_blocks :: int

definition xsim_arp :: "u8 list" where
  "xsim_arp = replicate 6 255 @ replicate 6 2 @ [8, 6] @ [0, 1, 8, 0, 6, 4, 0, 1] @ replicate 20 9"

definition xsim_frame :: "u8 list" where
  "xsim_frame = replicate 6 1 @ replicate 6 2 @ [0x86, 0xDD] @ replicate 46 0"

definition xsim_burst :: "(nat \<times> u8 list) list" where
  "xsim_burst = [(1, xsim_arp), (2, xsim_frame)]"

definition xsim_make :: "xsim \<Rightarrow> handle \<times> xsim" where
  "xsim_make d = (if 1 \<notin> xsim_held d then (1, d\<lparr>xsim_held := insert 1 (xsim_held d)\<rparr>)
     else if 2 \<notin> xsim_held d then (2, d\<lparr>xsim_held := insert 2 (xsim_held d)\<rparr>) else (0, d))"

definition xsim_other :: "int \<Rightarrow> int" where
  "xsim_other port = (if port = 0 then 1 else 0)"

definition xsim_api :: "xsim cfg_api" where
  "xsim_api = \<lparr>admin_down = 65535,
     xskdev_rx_burst = (\<lambda>h n d. (2, xsim_burst, d)),
     pktdev_rx_burst = (\<lambda>l n d. (2, xsim_burst, d)),
     xskdev_tx_burst = (\<lambda>h ms d. (1, d\<lparr>xsim_wire := xsim_wire d @ map snd (take 1 ms)\<rparr>)),
     pktdev_tx_burst = (\<lambda>l ms d. (1, d\<lparr>xsim_wire := xsim_wire d @ map snd (take 1 ms)\<rparr>)),
     pktdev_buf_alloc = (\<lambda>l d. (1, (3, 2048), d)),
     pktmbuf_alloc_bulk = (\<lambda>h d. (1, (3, 2048), d)),
     pktmbuf_raw_free = (\<lambda>a d. d),
     pktmbuf_prepend = (\<lambda>a n x. Some (replicate n 0 @ x)),
     txbuff_add = (\<lambda>h a x d. (0, d\<lparr>xsim_queue := (xsim_queue d)(h := xsim_queue d h @ [x])\<rparr>)),
     txbuff_count = (\<lambda>h d. min 4 (length (xsim_queue d h))),
     txbuff_flush = (\<lambda>h d. (0, d\<lparr>xsim_queue := (xsim_queue d)(h := []), xsim_wire := xsim_wire d @ xsim_queue d h\<rparr>)),
     xtap_write = (\<lambda>x d. (int (length x), d\<lparr>xsim_tap := xsim_tap d @ [x]\<rparr>)),
     cne_ring_enqueue_bulk = (\<lambda>r as d. (length as, d)),
     cne_ring_dequeue_burst = (\<lambda>r n d. ([], 0, d)),
     cne_ring_dequeue_bulk = (\<lambda>r n d. ([], d)),
     xprocessor = (\<lambda>x port. Some (xsim_other port, x)),
     xtap_processor = (\<lambda>x n. (0, x)),
     calloc = (\<lambda>n d. (True, d\<lparr>xsim_blocks := xsim_blocks d + 1\<rparr>)),
     free_mem = (\<lambda>d. d\<lparr>xsim_blocks := xsim_blocks d - 1\<rparr>),
     txbuff_xskdev_create = (\<lambda>b x d. xsim_make d),
     txbuff_pktdev_create = (\<lambda>b l d. xsim_make d),
     txbuff_free = (\<lambda>h d. d\<lparr>xsim_held := xsim_held d - {h}\<rparr>),
     barrier_wait = (\<lambda>d. (0, d)),
     idlemgr_create = (\<lambda>n k i j d. (1, d)),
     idlemgr_add = (\<lambda>h fd d. (0, d)),
     idlemgr_process = (\<lambda>h n d. (0, d)),
     idlemgr_destroy = (\<lambda>h d. d),
     xskdev_get_fd = (\<lambda>h d. (0, 5)),
     pktdev_info_get = (\<lambda>l d. (0, 5)),
     MEMPOOL_CACHE_MAX_SIZE = 512, LPORT_SHARED_UMEM = 1, LPORT_UNPRIVILEGED = 2,
     mmap_alloc = (\<lambda>n sz t d. (7, d)),
     mmap_free = (\<lambda>h d. d),
     mmap_addr = (\<lambda>h. 0x10000),
     mmap_size = (\<lambda>h. 0x10000),
     default_cache = None,
     pktmbuf_pool_create = (\<lambda>a n sz c d. (9, d)),
     pktmbuf_info_name_set = (\<lambda>h s d. d),
     pktmbuf_destroy = (\<lambda>h d. d),
     udsc_handshake = (\<lambda>s d. (1, d)),
     udsc_close = (\<lambda>h d. d),
     jcfg_lport_region = (\<lambda>us lp. (0, 0)),
     xskdev_socket_create = (\<lambda>c d. (1, d)),
     xskdev_socket_destroy = (\<lambda>h d. d),
     pktdev_port_setup = (\<lambda>c d. (0, d)),
     pktdev_close = (\<lambda>l d. d),
     set_affinity = (\<lambda>s d. d),
     thread_create = (\<lambda>s t d. (0, d)),
     metrics_init = (\<lambda>d. (0, d)), metrics_register = (\<lambda>s d. (0, d)), metrics_destroy = (\<lambda>d. d),
     uds_get_default = (\<lambda>d. (1, d)), uds_create_group = (\<lambda>h s d. (1, d)), uds_register = (\<lambda>h s d. (0, d))\<rparr>"

lemma xsim_fields [simp]:
  "admin_down xsim_api = 65535" "xskdev_rx_burst xsim_api h n d = (2, xsim_burst, d)" "pktdev_rx_burst xsim_api l n d = (2, xsim_burst, d)"
  "xskdev_tx_burst xsim_api h ms d = (1, d\<lparr>xsim_wire := xsim_wire d @ map snd (take 1 ms)\<rparr>)"
  "pktdev_tx_burst xsim_api l ms d = (1, d\<lparr>xsim_wire := xsim_wire d @ map snd (take 1 ms)\<rparr>)"
  "pktmbuf_raw_free xsim_api a d = d" "pktmbuf_prepend xsim_api a k x = Some (replicate k 0 @ x)"
  "txbuff_add xsim_api h a x d = (0, d\<lparr>xsim_queue := (xsim_queue d)(h := xsim_queue d h @ [x])\<rparr>)"
  "txbuff_count xsim_api h d = min 4 (length (xsim_queue d h))"
  "txbuff_flush xsim_api h d = (0, d\<lparr>xsim_queue := (xsim_queue d)(h := []), xsim_wire := xsim_wire d @ xsim_queue d h\<rparr>)"
  "xtap_write xsim_api x d = (int (length x), d\<lparr>xsim_tap := xsim_tap d @ [x]\<rparr>)"
  "xprocessor xsim_api x v = Some (xsim_other v, x)"
  "calloc xsim_api k d = (True, d\<lparr>xsim_blocks := xsim_blocks d + 1\<rparr>)" "free_mem xsim_api d = d\<lparr>xsim_blocks := xsim_blocks d - 1\<rparr>"
  "txbuff_xskdev_create xsim_api b h d = xsim_make d" "txbuff_pktdev_create xsim_api b l d = xsim_make d"
  "txbuff_free xsim_api h d = d\<lparr>xsim_held := xsim_held d - {h}\<rparr>" "barrier_wait xsim_api d = (0, d)"
  "idlemgr_create xsim_api nm k i j d = (1, d)" "idlemgr_add xsim_api h n d = (0, d)" "idlemgr_process xsim_api h n d = (0, d)"
  "idlemgr_destroy xsim_api h d = d" "mmap_alloc xsim_api c sz t d = (7, d)" "mmap_addr xsim_api h = 0x10000"
  "default_cache xsim_api = None" "pktmbuf_pool_create xsim_api ad c sz c2 d = (9, d)" "pktmbuf_info_name_set xsim_api h nm d = d"
  "jcfg_lport_region xsim_api us lp = (0, 0)" "MEMPOOL_CACHE_MAX_SIZE xsim_api = 512"
  by (simp_all add: xsim_api_def)

section \<open>The library keeps its promises\<close>

lemma xsim_txbuff_ok: "txbuff_ok xsim_api 4"
  by (simp add: txbuff_ok_def)

lemma xsim_prepend_ok: "prepend_ok xsim_api"
  by (simp add: prepend_ok_def)

lemma xsim_unseen: "unseen xsim_api xsim_held" "unseen xsim_api xsim_blocks"
  by (simp_all add: unseen_def)

lemma xsim_make_ok: "made_txbuff xsim_held xsim_blocks d (xsim_make d)"
  by (simp add: made_txbuff_def xsim_make_def)

lemma xsim_thd_lib: "thd_lib xsim_api xsim_held xsim_blocks"
  by (simp add: thd_lib_def alloc_lib_def idle_unseen_def xsim_unseen xsim_make_ok)

definition xsim_m :: dpm where
  "xsim_m = \<lparr>tap_ip_addr = 1, tap_mac_addr = replicate 6 7, lport_mac = [replicate 6 3, replicate 6 4],
     fast_path_filtering = True, fastpath_ports = [2152]\<rparr>"

lemma xsim_macs: "macs_ok xsim_m"
  by (simp add: macs_ok_def xsim_m_def)

lemma xsim_types: "get_ether_type xsim_arp = Some PTYPE_L2_ETHER_ARP" "get_ether_type xsim_frame = Some PTYPE_L2_ETHER"
  "get_packet_port_number xsim_frame = Some 0"
  by code_simp+

lemma xsim_frames: "(a, x) \<in> set xsim_burst \<Longrightarrow> port < 2 \<Longrightarrow> xdp_frame xsim_api xsim_m 2 port x"
  by (auto simp: xsim_burst_def xdp_frame_def xsim_types xsim_other_def xsim_m_def) (simp_all add: xsim_arp_def xsim_frame_def)

section \<open>A configuration\<close>

definition xsim_port :: "nat \<Rightarrow> jcfg_lport" where
  "xsim_port i = \<lparr>lp_name = ''eth0:'' @ dec i, netdev = ''eth0'', pmd_name = ''net_af_xdp'', pmd_opts = None, lpid = i, lp_umem = Some 0,
     region_idx = i, qid = of_nat i, busy_timeout = 0, busy_budget = 0, lp_flags = 0, xsk_map_path = None,
     lp_priv = Some \<lparr>fp_thd = Some 0, fp_dev = of_nat i + 1, tx_overrun = 0\<rparr>\<rparr>"

definition xsim_thd :: "create_txbuff_thd_priv_t option \<Rightarrow> jcfg_thd" where
  "xsim_thd priv = \<lparr>th_name = ''fwd:0'', thread_type = ''fwd'', group_name = ''group1'', th_idx = 0, th_lports = [0, 1],
     idle_timeout = 100, intr_timeout = 10, th_quit = THD_RUN, th_pause = False, th_priv = priv\<rparr>"

definition xsim_umem :: jcfg_umem where
  "xsim_umem = \<lparr>um_name = ''umem0'', um_bufcnt = 3072, um_bufsz = 2048, um_mtype = 0, um_rxdesc = 2048, um_txdesc = 2048,
     shared_umem = False, um_mm = 0,
     rinfo = [\<lparr>ri_addr = 0, ri_bufcnt = 1024, ri_pool = 0\<rparr>, \<lparr>ri_addr = 0, ri_bufcnt = 2048, ri_pool = 0\<rparr>]\<rparr>"

definition xsim_fi :: "create_txbuff_thd_priv_t option \<Rightarrow> fwd_info" where
  "xsim_fi priv = \<lparr>umems = [xsim_umem], ports_cfg = [xsim_port 0, xsim_port 1], thds = [xsim_thd priv], barrier_inited = True,
     opts = \<lparr>no_metrics = True, no_restapi = True, opt_cli = False, opt_pkt_api = None\<rparr>, fi_pkt_api = XSKDEV_PKT_API,
     xdp_uds = 0, fi_burst = 256\<rparr>"

lemma xsim_fi_fields [simp]: "umems (xsim_fi p) = [xsim_umem]" "ports_cfg (xsim_fi p) = [xsim_port 0, xsim_port 1]" "thds (xsim_fi p) = [xsim_thd p]"
  "fi_pkt_api (xsim_fi p) = XSKDEV_PKT_API" "fi_burst (xsim_fi p) = 256" "th_lports (xsim_thd p) = [0, 1]" "th_priv (xsim_thd p) = p"
  "lpid (xsim_port i) = i" "lp_umem (xsim_port i) = Some 0"
  by (simp_all add: xsim_fi_def xsim_thd_def xsim_port_def)

definition xsim_priv :: create_txbuff_thd_priv_t where
  "xsim_priv = \<lparr>txbuffs = [1, 2], tp_pkt_api = XSKDEV_PKT_API\<rparr>"

definition xsim0 :: "xsim dp" where
  "xsim0 = \<lparr>live = (\<lambda>_. None), dp_dev = \<lparr>xsim_queue = (\<lambda>_. []), xsim_wire = [], xsim_tap = [], xsim_held = {}, xsim_blocks = 1\<rparr>\<rparr>"

lemma xsim0_live [simp]: "live xsim0 = (\<lambda>_. None)"
  by (simp add: xsim0_def)

lemma xsim_polled: "polled (xsim_fi (Some xsim_priv)) (xsim_port 0) \<lparr>fp_thd = Some 0, fp_dev = 1, tx_overrun = 0\<rparr> xsim_priv"
  by (simp add: polled_def elem_at_def xsim_priv_def upt_rec) (simp add: xsim_port_def)

lemma xsim_rx: "rx_burst xsim_api XSKDEV_PKT_API pd n d = (2, xsim_burst, d)"
  by (simp add: rx_burst_def)

lemma xsim_good_rx: "good_rx xsim_api xsim_m XSKDEV_PKT_API n 2"
  using xsim_frames by (auto simp: good_rx_def xsim_rx) (simp_all add: xsim_burst_def)

section \<open>Witnesses\<close>




definition xsim_udp :: "u8 list" where
  "xsim_udp = replicate 6 1 @ replicate 6 2 @ [8, 0] @ [0x45] @ replicate 8 0 @ [17] @ replicate 10 0 @ [0, 0, 8, 104] @ replicate 20 0"

theorem xdp_filter_witness:
  "xdp_packet xsim_api xsim_m [xsim_port 0, xsim_port 1] [1, 2] 0 5 (mbuf_set 5 xsim_udp xsim0) =
    Some ((mbuf_set 5 xsim_udp xsim0)\<lparr>live := (live (mbuf_set 5 xsim_udp xsim0))(5 := None),
      dp_dev := pktmbuf_raw_free xsim_api 5 (snd (xtap_write xsim_api ([0, 0, 0, 0] @ replicate 6 7 @ drop 6 xsim_udp) (dp_dev (mbuf_set 5 xsim_udp xsim0))))\<rparr>)"
proof -
  have ty: "get_ether_type xsim_udp = Some PTYPE_5G_GTP" "get_packet_port_number xsim_udp = Some 2152" by code_simp+
  have l: "live (mbuf_set 5 xsim_udp xsim0) 5 = Some xsim_udp" "fast_path_filtering xsim_m" "6 \<le> length xsim_udp"
    by (simp_all add: xsim_m_def xsim_udp_def)
  have pre: "pktmbuf_prepend xsim_api 5 PI_LEN xsim_udp = Some ([0, 0, 0, 0] @ xsim_udp)" by (simp add: numeral_eq_Suc)
  have k: "PTYPE_5G_GTP \<noteq> PTYPE_L2_ETHER_ARP" "2152 \<in> set (fastpath_ports xsim_m)" "take PI_LEN ([0, 0, 0, 0] @ xsim_udp) = [0, 0, 0, 0]"
    "tap_mac_addr xsim_m = replicate 6 7" by (simp_all add: xsim_m_def)
  show ?thesis
    using xdp_filter_exact [OF l(2,1) ty(1) k(1) ty(2) pre xsim_prepend_ok xsim_macs l(3), of "[xsim_port 0, xsim_port 1]" "[1, 2]" 0]
    unfolding if_P [OF k(2)] k(3,4) .
qed

definition xsim_cf :: cndp_conf where
  "xsim_cf = \<lparr>main_lcore = 0, idle_timeout_conf = None, intr_timeout_conf = None,
     lports_of = [(''eth0'', \<lparr>pmd_conf = ''net_af_xdp'', umem_conf = ''umem0'', busy_poll_conf = None, busy_budget_conf = None, skb_mode_conf = None,
         xsk_pin_path_conf = None, queues_info = [\<lparr>core_id = 1, region_index = 0, queue_id_conf = 0\<rparr>, \<lparr>core_id = 2, region_index = 1, queue_id_conf = 1\<rparr>]\<rparr>),
       (''eth1'', \<lparr>pmd_conf = ''net_af_xdp'', umem_conf = ''umem0'', busy_poll_conf = None, busy_budget_conf = None, skb_mode_conf = None,
         xsk_pin_path_conf = None, queues_info = [\<lparr>core_id = 1, region_index = 0, queue_id_conf = 0\<rparr>]\<rparr>)]\<rparr>"

theorem configuration_closed_witness:
  "dom (get_thread_template xsim_cf) = insert ''main'' (thread_key ` {0..<3}) \<and>
   card (dom (fst (get_lport_template (\<lambda>_. replicate 6 1) xsim_cf))) = 3"
proof -
  have n: "3 = length (all_queues (lports_of xsim_cf))" "distinct (map fst (lports_of xsim_cf))"
    by (simp_all add: xsim_cf_def all_queues_def)
  obtain lps macs where l: "get_lport_template (\<lambda>_. replicate 6 1) xsim_cf = (lps, macs)" by fastforce
  from configuration_closed [OF n(2) l refl n(1)] show ?thesis using l by simp
qed

theorem umem_regions_witness:
  "\<exists>f' d'. process_umem xsim_api 0 (xsim_fi None) (dp_dev xsim0) = Some (0, f', d') \<and>
    um_mm (umems f' ! 0) \<noteq> 0 \<and> (\<forall>j < length (rinfo (umems f' ! 0)). ri_pool (rinfo (umems f' ! 0) ! j) \<noteq> 0 \<and>
      unat (ri_addr (rinfo (umems f' ! 0) ! j)) = 0x10000 + span 2048 (take j (rinfo xsim_umem)))"
proof -
  have e: "\<exists>f' d'. process_umem xsim_api 0 (xsim_fi None) (dp_dev xsim0) = Some (0, f', d')"
    by (simp add: process_umem_def elem_at_def xsim_umem_def Let_def)
  then obtain f' d' where p: "process_umem xsim_api 0 (xsim_fi None) (dp_dev xsim0) = Some (0, f', d')" by blast
  have u: "xsim_umem = umems (xsim_fi None) ! 0" "um_bufsz xsim_umem = 2048" by (simp_all add: xsim_umem_def)
  have s: "span 2048 (rinfo xsim_umem) = 6291456" by (simp add: xsim_umem_def)
  have "0 < um_bufsz xsim_umem" "span (um_bufsz xsim_umem) (rinfo xsim_umem) < 2 ^ 32"
    "unat (mmap_addr xsim_api (um_mm (umems f' ! 0))) + span (um_bufsz xsim_umem) (rinfo xsim_umem) < 2 ^ 64"
    by (simp_all add: u(2) s)
  from umem_regions_tile [OF p u(1) refl this] show ?thesis using p u(2) by auto
qed

theorem cleanup_witness:
  "\<exists>f1 d1 f2 d2. process_lport xsim_api 0 (xsim_fi None) (dp_dev xsim0) = Some (-1, f1, d1) \<and> d1 = snd (calloc xsim_api 1 (dp_dev xsim0)) \<and>
    cleanup_lport xsim_api 0 f1 d1 = Some (f2, free_mem xsim_api (xskdev_socket_destroy xsim_api 0xFFFFFFFF d2))"
  by (rule cleanup_bad_pointer [of _ _ "xsim_port 0" 0 xsim_umem]) (simp_all add: elem_at_def)

definition xsim_file :: jval where
  "xsim_file = JObj [(''API'', JStr ''cndp''), (''MODEL'', JStr ''run-to-completion''), (''cndp-datapath-params'', JObj []),
     (''fastpath-port-configuration'', JObj [(''fastpath-filtering'', JBool True), (''fastpath-ports'', JArr [JInt 2152, JStr ''8000-8002''])])]"

definition xsim_mgr :: mgr where
  "xsim_mgr = \<lparr>mg_api = 0, mg_model = 10, worker_configuration = JNull, datapath_configuration = JNull, mg_create_tap = False,
     mg_num_queues_tap = 1, mg_cloud_deployment = False, mg_filtering = False, mg_ports = []\<rparr>"


end
