(* ===== verification/Spec2Isabelle.thy ===== *)
theory Spec2Isabelle
  imports FlowWitnesses FwdWitnesses DataWitnesses PortWitnesses ConfWitnesses RunWitnesses OptWitnesses XdpWitnesses
begin

text \<open>
  A verification library for the user plane data path of this repository: a DPDK application
  (\<^verbatim>\<open>src/lib/core/dpdk\<close>, a descendant of testpmd) that configures ports, installs flow rules, forwards packets
  on several cores, and runs a 5G user plane application (\<^verbatim>\<open>src/app/upf_gtp.cpp\<close>) on every packet; a second backend does the same over
  AF_XDP sockets (\<^verbatim>\<open>src/lib/core/cndp\<close>).

  \<^bold>\<open>How the program is put together.\<close>  \<^verbatim>\<open>dpdk.cpp\<close> owns the ports, streams and cores: it configures the ports,
  starts and stops them, starts and stops forwarding, and holds the packet loops.  \<^verbatim>\<open>config.c\<close> holds the commands: flow
  templates, tables, rules and queues, indirect actions, tunnels, the forwarding configuration, the forwarding sets, VLAN, segments and
  multicast.  \<^verbatim>\<open>parameters.c\<close> reads the command line, \<^verbatim>\<open>util.c\<close> parses the lists the options and commands take.  \<^verbatim>\<open>unet\<close> and \<^verbatim>\<open>core.cpp\<close> classify packets and answer ARP.
  The application looks up a rule for each packet and adds or removes the tunnel headers.  \<^verbatim>\<open>core.cpp\<close> also reads the configuration file
  and chooses the backend: \<^verbatim>\<open>cndp.cpp\<close> writes a configuration for the CNDP library, whose parser calls back into \<^verbatim>\<open>config.cpp\<close> to make
  memory areas, ports and threads, and holds the threads and packet loops; \<^verbatim>\<open>stats.cpp\<close> lets them be paused from outside.

  \<^bold>\<open>Conventions.\<close>  A function of the program is a definition of the same name.  It takes the state and returns the new
  one; the result type is an option where the C code can read or write outside an object, use freed memory, end the process or
  run for ever, and \<open>None\<close> stands for exactly that.  Error codes are the integers of the code.  Machine integers are words of
  their width.  The driver library is the parameter \<open>api\<close>, a record of its calls on an abstract device \<open>'d\<close>: what the code
  relies on is stated where it is used, as a named predicate, and the theories of witnesses instantiate the calls with a
  simulated device.  The records of calls form a chain of extensions (\<open>flow_api\<close>, \<open>queue_api\<close>, \<open>port_api\<close>, \<open>conf_api\<close>,
  \<open>vlan_api\<close>, \<open>seg_api\<close>, \<open>fwd_api\<close>, and for AF_XDP \<open>xdp_api\<close>, \<open>thd_api\<close>, \<open>cfg_api\<close>), one per group of components.  Printed output is left out, except where it is the
  result of a command (rule listing, header names).

  \<^bold>\<open>Theories.\<close>
  \<^item> \<^verbatim>\<open>Prelude\<close>: descending identifier lists, the loops that destroy and flush them, arithmetic of words.  \<^verbatim>\<open>CString\<close>:
    characters, \<^verbatim>\<open>strtol\<close>, decimal output, writing over the front of an array.  \<^verbatim>\<open>CNum\<close>: \<^verbatim>\<open>atoi\<close> and \<^verbatim>\<open>strtoull\<close>.
  \<^item> \<^verbatim>\<open>Testpmd\<close>: the structures of \<^verbatim>\<open>testpmd.h\<close> (ports, rules, templates, tables, jobs), the state \<open>st\<close> and access to ports.
  \<^item> \<^verbatim>\<open>Registry\<close>, \<^verbatim>\<open>Templates\<close>, \<^verbatim>\<open>IndirectActions\<close>, \<^verbatim>\<open>FlowTunnels\<close>, \<^verbatim>\<open>FlowRules\<close>, \<^verbatim>\<open>FlowQueues\<close>, \<^verbatim>\<open>FlowHeap\<close>: the flow
    commands of \<^verbatim>\<open>config.c\<close> (\<^verbatim>\<open>port_flow_*\<close>, \<^verbatim>\<open>port_action_handle_*\<close>, \<^verbatim>\<open>port_queue_*\<close>).  \<^verbatim>\<open>Registry\<close> states the
    contract of an identifier list as a locale, which is interpreted for templates, tables and actions.  \<^verbatim>\<open>FlowHeap\<close> has the
    heap invariant of rules and jobs for every interleaving of synchronous and asynchronous commands.
  \<^item> \<^verbatim>\<open>FwdConfig\<close>, \<^verbatim>\<open>SharedRxq\<close>: streams, topologies and the distribution of streams to cores (\<^verbatim>\<open>*_fwd_config_setup\<close>), and the
    check that no two cores poll one shared queue.
  \<^item> \<^verbatim>\<open>FwdSets\<close>: which cores and ports forward (\<^verbatim>\<open>set_fwd_*\<close>, \<^verbatim>\<open>parse_port_list\<close>, \<^verbatim>\<open>set_def_fwd_config\<close>), with the
    invariant that the comment in \<^verbatim>\<open>dpdk.cpp\<close> documents.
  \<^item> \<^verbatim>\<open>FwdStart\<close>: \<^verbatim>\<open>start_packet_forwarding\<close>, \<^verbatim>\<open>stop_packet_forwarding\<close>, the flush of the queues and the launch of cores.
  \<^item> \<^verbatim>\<open>PortQueues\<close>, \<^verbatim>\<open>PortControl\<close>, \<^verbatim>\<open>PortLife\<close>, \<^verbatim>\<open>PortCycle\<close>: queue set up, and the life of a port
    (\<^verbatim>\<open>start_port\<close>, \<^verbatim>\<open>stop_port\<close>, \<^verbatim>\<open>close_port\<close>, \<^verbatim>\<open>reset_port\<close>) with its refinement of an abstract life cycle.
  \<^item> \<^verbatim>\<open>PortLimits\<close>, \<^verbatim>\<open>PortConfig\<close>: what devices allow (a locale for a limit, interpreted as upper and as lower limit), frame
    sizes, and the configuration of ports (\<^verbatim>\<open>init_config_port_offloads\<close>, \<^verbatim>\<open>init_port_config\<close>).
  \<^item> \<^verbatim>\<open>Vlan\<close>, \<^verbatim>\<open>Segments\<close>, \<^verbatim>\<open>Mcast\<close>: the commands for VLAN, packet segments and multicast addresses.
  \<^item> \<^verbatim>\<open>Options\<close>, \<^verbatim>\<open>OptionLaws\<close>: the command line (\<^verbatim>\<open>launch_args_parse\<close> and its parsers), one definition per group of options;
    an outcome tells whether the process ends, the function returns or the next option follows.
  \<^item> \<^verbatim>\<open>Launch\<close>: the command line that \<^verbatim>\<open>count_args\<close> builds from the configuration file, its words, and the launch up to the parsed
    options (\<^verbatim>\<open>start_dpdk_datapath\<close>, first half).
  \<^item> \<^verbatim>\<open>Frames\<close>, \<^verbatim>\<open>UpfGtp\<close>, \<^verbatim>\<open>Datapath\<close>: frames as byte strings with their classification and ARP; the packet handler of the
    application with its rule maps; the packet loops with the ownership of every buffer.
  \<^item> \<^verbatim>\<open>Xdp\<close>, \<^verbatim>\<open>XdpLaws\<close>: the structures and packet loops of the AF_XDP backend (\<^verbatim>\<open>run_to_completion\<close>, \<^verbatim>\<open>master_worker\<close>,
    \<^verbatim>\<open>worker_thread\<close> and \<^verbatim>\<open>tap_handler_cndp\<close> of \<^verbatim>\<open>cndp.cpp\<close>, here with the suffix \<open>_cndp\<close> where the DPDK backend has the same name), and what they guarantee.
  \<^item> \<^verbatim>\<open>XdpThreads\<close>: the transmit buffers of a thread and its life (\<^verbatim>\<open>rx_tx_thread\<close>).  \<^verbatim>\<open>XdpConfig\<close>, \<^verbatim>\<open>XdpConfLaws\<close>: the
    configuration written for the library, \<^verbatim>\<open>process_callback\<close>, \<^verbatim>\<open>_cleanup\<close> and \<^verbatim>\<open>parse_args\<close>.  \<^verbatim>\<open>XdpControl\<close>: pausing of threads.
  \<^item> \<^verbatim>\<open>AppConfig\<close>: the configuration file (\<^verbatim>\<open>load_and_parse_config_file\<close>) with its numbers and ranges.
  \<^item> \<^verbatim>\<open>FlowWitnesses\<close>, \<^verbatim>\<open>FwdWitnesses\<close>, \<^verbatim>\<open>DataWitnesses\<close>, \<^verbatim>\<open>PortWitnesses\<close>, \<^verbatim>\<open>ConfWitnesses\<close>, \<^verbatim>\<open>RunWitnesses\<close>,
    \<^verbatim>\<open>OptWitnesses\<close>, \<^verbatim>\<open>XdpWitnesses\<close>: the properties applied to concrete states and a simulated device.
  \<^item> This theory: the two properties that span components.

  \<^bold>\<open>What is shown.\<close>  Flow commands: identifiers stay unique and ordered, rule nodes are neither freed twice nor lost, listings are
  sorted, tables only use templates of their port.  Forwarding: every stream has one core and every receive queue one stream, also in
  the started system; the forwarding sets keep their documented invariant; a start runs exactly the computed plan, and the flush before it
  ends.  Ports: commands move along the abstract life cycle only, stopping and starting returns to a running port, closing
  releases everything; limits are checked exactly; the configuration fits device and options.  Commands: multicast refines a set,
  tags refine a machine of three states, flags and offloads stay in step, arrays stay in bounds, lists survive printing and parsing.
  Command line: every line without two named mistakes is handled without undefined behaviour and leaves a state the other
  components can start from; a launch takes the numbers of queues, cores and ports over from the configuration file.
  Data path: classification is exact, up- and downlink packets leave with the right headers, every buffer of a burst is given up once.
  AF_XDP: a burst is handled completely with ARP and with the filter, a thread that is told to quit ends with everything released
  wherever an allocation failed, sending returns, every configured queue has exactly one thread, regions tile their memory area.
  Configuration file: printed numbers and ranges are read back.
  Where the code does not do what it means to, a theorem states what it does (for example the use of freed packets with the port filter).

  \<^bold>\<open>Loops and bounds.\<close>  Loops over lists are structural recursion.  The loop of \<^verbatim>\<open>parse_port_list\<close> has a termination proof on the
  length of the text.  The drain loops of the master and of the flush are partial functions; that they return is proved, for
  the flush under the law that the clock moves on with every reading and no call takes longer than a bound.  The bounds 118 and 58 of the
  burst property are the longest headers the handler reads and the bytes the tunnel headers need.

  The loops of the AF_XDP backend that have no bound take fuel: as many rounds as a transmit buffer has room, or as there are packets, are
  proved enough.  A thread reads the flags that others set from a list; one request to quit in it is enough for its end.

  \<^bold>\<open>Not modelled.\<close>  Of the AF_XDP backend, \<^verbatim>\<open>start_cndp_datapath\<close>, the constant templates, the shell commands of \<^verbatim>\<open>setup_rss\<close>, the creation
  of worker threads and the display of counters (\<^verbatim>\<open>stats.cpp\<close>) are left out; the reads of \<^verbatim>\<open>foreach_thd_lport\<close> behind the last port are not part of the
  model, because the size of that array is the library's.  The tap device, logging, and the BPF commands are
  calls of libraries and of the system.  Of the command line, \<^verbatim>\<open>getopt_long\<close> and the usage text are left out.  The creation of threads and rings
  at the end of \<^verbatim>\<open>start_dpdk_datapath\<close>, the creation of memory pools, attaching and detaching of devices, the DCB set
  up (\<^verbatim>\<open>dcb_fwd_config_setup\<close>, which nothing calls), and display functions are left out.  \<^verbatim>\<open>src/include/core/dpdk/dpdk.h\<close> repeats \<^verbatim>\<open>testpmd.h\<close>.
\<close>

section \<open>From the plan to the running cores\<close>

lemma same_plan_stream:
  assumes "same_plan f t" "unat (nb_fwd_streams (cur_fwd_config f)) \<le> length (fwd_streams f)" "i < unat (nb_fwd_streams (cur_fwd_config f))"
  shows "rx_port (fwd_streams t ! i) = rx_port (fwd_streams f ! i)" "rx_queue (fwd_streams t ! i) = rx_queue (fwd_streams f ! i)"
  using assms by (simp_all add: same_plan_def)

lemma same_plan_core:
  assumes "same_plan f t" "unat (nb_fwd_lcores (cur_fwd_config f)) \<le> length (fwd_lcores f)" "k < unat (nb_fwd_lcores (cur_fwd_config f))"
  shows "stream_idx (fwd_lcores t ! k) = stream_idx (fwd_lcores f ! k)" "stream_nb (fwd_lcores t ! k) = stream_nb (fwd_lcores f ! k)"
  using assms by (simp_all add: same_plan_def)


section \<open>The user plane behind the packet loop\<close>

text \<open>The loop calls the handler of the user plane on the received bytes and sends on what it left of them.\<close>

definition runs_upf ::
  "('d, 'z) dp_api_scheme \<Rightarrow> 'p callbacks \<Rightarrow> (u8 list \<Rightarrow> 'p) \<Rightarrow> (pdi_info_downlink \<times> pdr_value) list
    \<Rightarrow> (pdi_info_uplink \<times> pdr_value) list \<Rightarrow> app_info \<Rightarrow> bool" where
  "runs_upf api cb pkt dl ul app \<longleftrightarrow> (\<forall>x port. processor api x port =
     map_option (\<lambda>(v, q). (v, GetData cb q)) (packet_processor cb dl ul (pkt x) port (Some app)))"


section \<open>The two properties on concrete states\<close>

text \<open>Two started ports of two queues and two cores.\<close>

definition pair_sets :: sets where
  "pair_sets = run_sets\<lparr>fw := sim_fwd, fwd_lcores_cpuids := [1, 2]\<rparr>"

definition pair_port :: rte_port where
  "pair_port = sim_port\<lparr>port_status := RTE_PORT_STARTED, rxq_state := [1, 1], txq_state := [1, 1]\<rparr>"

definition pair_st :: "sim st" where
  "pair_st = sim_st\<lparr>eth_devs := [0, 1], ports := [pair_port, pair_port]\<rparr>"



end
